(* ===== verification/Prelude.thy ===== *)
theory Prelude
  imports Main "HOL-Library.Word" "HOL-Library.List_Lexorder" "HOL-Library.Char_ord"
    "HOL-Library.Product_Lexorder"
begin

text \<open>
  What every component of the platform shares: the result type, UTF-8 strings with the
  string operations the sources call, UUIDs, time stamps, the \<open>serde_json\<close> value type and the
  ordered string map of \<open>serde_json::Map\<close> and \<open>BTreeMap\<close>, and the SQL idioms of the repositories
  (a table is a list of rows; \<open>update .. where .. returning\<close>, \<open>order by .. limit 1\<close>,
  \<open>coalesce(max(..), 0) + 1\<close>). Nothing here maps to one source file: it is the vocabulary in
  which the other theories translate them.
\<close>

section \<open>Collections of facts\<close>

named_theorems wire_simps "stable strings of the enums: as_str and from_str"
named_theorems store_simps "what a repository operation leaves in its table"
named_theorems transition_simps "equations of the workflow transition functions"

section \<open>Results\<close>

text \<open>\<open>Result<A, E>\<close> is the sum \<open>'e + 'a\<close>; \<open>Ok\<close> is the right injection, \<open>Err\<close> the left one.\<close>

type_synonym ('a, 'e) result = "'e + 'a"

abbreviation Ok :: "'a \<Rightarrow> ('a, 'e) result" where
  "Ok \<equiv> Inr"

abbreviation Err :: "'e \<Rightarrow> ('a, 'e) result" where
  "Err \<equiv> Inl"

text \<open>The \<open>?\<close> operator: go on with the value, or return the error.\<close>

definition and_then :: "('a, 'e) result \<Rightarrow> ('a \<Rightarrow> ('b, 'e) result) \<Rightarrow> ('b, 'e) result" where
  "and_then r f = (case r of Inl e \<Rightarrow> Err e | Inr x \<Rightarrow> f x)"

definition ok_or :: "'e \<Rightarrow> 'a option \<Rightarrow> ('a, 'e) result" where
  "ok_or e x = (case x of None \<Rightarrow> Err e | Some y \<Rightarrow> Ok y)"

lemma and_then_simps [simp]:
  "and_then (Ok x) f = f x"
  "and_then (Err e) f = Err e"
  by (simp_all add: and_then_def)

lemma and_then_eq_Ok: "and_then r f = Ok y \<longleftrightarrow> (\<exists>x. r = Ok x \<and> f x = Ok y)"
  by (cases r) auto

lemma and_then_OkE:
  assumes "and_then r f = Ok y"
  obtains x where "r = Ok x" and "f x = Ok y"
  using assms by (auto simp: and_then_eq_Ok)

lemma and_then_eq_Err: "and_then r f = Err e \<longleftrightarrow> r = Err e \<or> (\<exists>x. r = Ok x \<and> f x = Err e)"
  by (cases r) auto

lemma ok_or_simps [simp]:
  "ok_or e (Some y) = Ok y"
  "ok_or e None = Err e"
  by (simp_all add: ok_or_def)

lemma ok_or_eq_Ok: "ok_or e x = Ok y \<longleftrightarrow> x = Some y"
  by (cases x) auto

lemma ok_or_eq_Err: "ok_or e x = Err e' \<longleftrightarrow> x = None \<and> e' = e"
  by (cases x) auto

text \<open>\<open>iter().map(..).collect::<Result<Vec<_>>>()\<close>, \<open>Option::transpose\<close>, a \<open>for\<close> loop whose body
  may return early with an error, and \<open>Option::filter\<close>.\<close>

fun collect :: "('a, 'e) result list \<Rightarrow> ('a list, 'e) result" where
  "collect [] = Ok []"
| "collect (r # rs) = and_then r (\<lambda>x. and_then (collect rs) (\<lambda>xs. Ok (x # xs)))"

fun transpose_option :: "('a, 'e) result option \<Rightarrow> ('a option, 'e) result" where
  "transpose_option None = Ok None"
| "transpose_option (Some r) = and_then r (\<lambda>x. Ok (Some x))"

fun try_each :: "('a \<Rightarrow> (unit, 'e) result) \<Rightarrow> 'a list \<Rightarrow> (unit, 'e) result" where
  "try_each f [] = Ok ()"
| "try_each f (x # xs) = and_then (f x) (\<lambda>_. try_each f xs)"

definition option_filter :: "('a \<Rightarrow> bool) \<Rightarrow> 'a option \<Rightarrow> 'a option" where
  "option_filter p x = (case x of None \<Rightarrow> None | Some y \<Rightarrow> if p y then Some y else None)"

definition or_else :: "'a option \<Rightarrow> 'a option \<Rightarrow> 'a option" where
  "or_else x y = (case x of None \<Rightarrow> y | Some _ \<Rightarrow> x)"

definition unwrap_or :: "'a \<Rightarrow> 'a option \<Rightarrow> 'a" where
  "unwrap_or d x = (case x of None \<Rightarrow> d | Some y \<Rightarrow> y)"

lemma option_simps [simp]:
  "option_filter p None = None" "option_filter p (Some y) = (if p y then Some y else None)"
  "or_else None o' = o'" "or_else (Some z) o' = Some z" "unwrap_or d None = d" "unwrap_or d (Some u) = u"
  by (simp_all add: option_filter_def or_else_def unwrap_or_def)

lemma option_filter_eq_Some: "option_filter p x = Some y \<longleftrightarrow> x = Some y \<and> p y"
  by (cases x) auto

lemma try_each_eq_Ok [simp]: "try_each f xs = Ok u \<longleftrightarrow> (\<forall>x \<in> set xs. f x = Ok ())"
  by (induction xs) (auto simp: and_then_eq_Ok)

lemma collect_map_Ok: "collect (map f xs) = Ok ys \<longleftrightarrow> list_all2 (\<lambda>x y. f x = Ok y) xs ys"
  by (induction xs arbitrary: ys) (auto simp: and_then_eq_Ok list_all2_Cons1)

section \<open>Positions\<close>

text \<open>\<open>iter().enumerate().find(..)\<close>: the index of the first element the test holds of.\<close>

fun position :: "('a \<Rightarrow> bool) \<Rightarrow> 'a list \<Rightarrow> nat option" where
  "position p [] = None"
| "position p (x # xs) = (if p x then Some 0 else map_option Suc (position p xs))"

lemma position_SomeD: "position p xs = Some i \<Longrightarrow> i < length xs \<and> p (xs ! i)"
  by (induction xs arbitrary: i) (auto split: if_splits)

lemma position_nth:
  "distinct (map f xs) \<Longrightarrow> i < length xs \<Longrightarrow> position (\<lambda>x. f x = f (xs ! i)) xs = Some i"
proof (induction xs arbitrary: i)
  case (Cons x xs)
  then show ?case
    by (cases i) (auto dest: nth_mem)
qed simp

section \<open>Time and UUIDs\<close>

text \<open>\<open>DateTime<Utc>\<close> as the number of microseconds since the epoch (the resolution of
  PostgreSQL's \<open>timestamptz\<close>).\<close>

type_synonym datetime = int

text \<open>
  A \<open>Uuid\<close> is represented by its canonical hyphenated lower-case text, which is what \<open>Display\<close>
  and \<open>serde\<close> write. The hyphens are at fixed places and the hexadecimal digits are in the
  order of their characters, so the order of the texts is the order of the bytes, which is the
  one \<open>derive(PartialOrd)\<close> and PostgreSQL use.
\<close>

datatype uuid = Uuid (uuid_text: string)

instantiation uuid :: linorder
begin

definition less_eq_uuid :: "uuid \<Rightarrow> uuid \<Rightarrow> bool" where
  "less_eq_uuid a b = (uuid_text a \<le> uuid_text b)"

definition less_uuid :: "uuid \<Rightarrow> uuid \<Rightarrow> bool" where
  "less_uuid a b = (uuid_text a < uuid_text b)"

instance
  by standard (auto simp: less_eq_uuid_def less_uuid_def uuid.expand)

end

text \<open>
  \<open>Uuid::new_v4\<close> draws a random value and \<open>Uuid::parse_str\<close> reads a text; both are code of the
  \<open>uuid\<close> crate, so they are arguments of the definitions that use them: a stream \<open>new_v4\<close> of
  draws, indexed by how many were made before, and a partial function \<open>parse_uuid\<close>.
\<close>

type_synonym uuid_source = "nat \<Rightarrow> uuid"

section \<open>Strings\<close>

text \<open>
  A Rust \<open>String\<close> is a sequence of UTF-8 bytes, here a \<open>string\<close> of 8-bit characters. \<open>char\<close>
  iteration visits the bytes that are not continuation bytes (the others belong to the character
  their lead byte starts); \<open>trim\<close> removes the encodings of the characters with the Unicode
  property White\_Space at both ends.
\<close>

definition byte :: "nat \<Rightarrow> char" where
  "byte n = char_of n"

definition is_continuation_byte :: "char \<Rightarrow> bool" where
  "is_continuation_byte c \<longleftrightarrow> 128 \<le> (of_char c :: nat) \<and> (of_char c :: nat) < 192"

definition white_space_encodings :: "string list" where
  "white_space_encodings =
     [[byte 9], [byte 10], [byte 11], [byte 12], [byte 13], [byte 32],
      [byte 194, byte 133], [byte 194, byte 160], [byte 225, byte 154, byte 128]] @
     map (\<lambda>n. [byte 226, byte 128, byte n]) [128..<139] @
     [[byte 226, byte 128, byte 168], [byte 226, byte 128, byte 169],
      [byte 226, byte 128, byte 175], [byte 226, byte 129, byte 159],
      [byte 227, byte 128, byte 128]]"

definition starts_with :: "string \<Rightarrow> string \<Rightarrow> bool" where
  "starts_with p s \<longleftrightarrow> take (length p) s = p"

text \<open>Remove leading occurrences of the given non-empty words, as long as one is there.\<close>

function strip_words :: "string list \<Rightarrow> string \<Rightarrow> string" where
  "strip_words ws s =
     (case find (\<lambda>w. w \<noteq> [] \<and> starts_with w s) ws of
        None \<Rightarrow> s
      | Some w \<Rightarrow> strip_words ws (drop (length w) s))"
  by pat_completeness auto
termination
proof (relation "measure (\<lambda>(ws, s). length s)")
  fix ws s and w :: string
  assume "find (\<lambda>w. w \<noteq> [] \<and> starts_with w s) ws = Some w"
  then have "w \<noteq> []" and "take (length w) s = w"
    by (auto simp: find_Some_iff starts_with_def)
  then have "0 < length w" and "s \<noteq> []"
    by auto
  then show "((ws, drop (length w) s), (ws, s)) \<in> measure (\<lambda>(ws, s). length s)"
    by simp
qed simp

declare strip_words.simps [simp del]

definition trim_start :: "string \<Rightarrow> string" where
  "trim_start s = strip_words white_space_encodings s"

definition trim_end :: "string \<Rightarrow> string" where
  "trim_end s = rev (strip_words (map rev white_space_encodings) (rev s))"

definition trim :: "string \<Rightarrow> string" where
  "trim s = trim_end (trim_start s)"

definition is_blank :: "string \<Rightarrow> bool" where
  "is_blank s \<longleftrightarrow> trim s = []"

definition to_ascii_lowercase :: "string \<Rightarrow> string" where
  "to_ascii_lowercase s =
     map (\<lambda>c. let n = (of_char c :: nat) in if 65 \<le> n \<and> n \<le> 90 then char_of (n + 32) else c) s"

definition to_ascii_uppercase :: "string \<Rightarrow> string" where
  "to_ascii_uppercase s =
     map (\<lambda>c. let n = (of_char c :: nat) in if 97 \<le> n \<and> n \<le> 122 then char_of (n - 32) else c) s"

definition eq_ignore_ascii_case :: "string \<Rightarrow> string \<Rightarrow> bool" where
  "eq_ignore_ascii_case a b \<longleftrightarrow> to_ascii_lowercase a = to_ascii_lowercase b"

definition is_ascii_digit :: "char \<Rightarrow> bool" where
  "is_ascii_digit c \<longleftrightarrow> (let n = (of_char c :: nat) in 48 \<le> n \<and> n \<le> 57)"

text \<open>\<open>str::split\<close> with a character.\<close>

fun split_char :: "char \<Rightarrow> string \<Rightarrow> string list" where
  "split_char d [] = [[]]"
| "split_char d (c # s) =
     (if c = d then [] # split_char d s
      else (case split_char d s of [] \<Rightarrow> [[c]] | w # ws \<Rightarrow> (c # w) # ws))"

text \<open>\<open>str::contains\<close> with a string pattern.\<close>

fun contains_text :: "string \<Rightarrow> string \<Rightarrow> bool" where
  "contains_text [] p \<longleftrightarrow> p = []"
| "contains_text (c # s) p \<longleftrightarrow> starts_with p (c # s) \<or> contains_text s p"

definition is_ascii_alphabetic :: "char \<Rightarrow> bool" where
  "is_ascii_alphabetic c \<longleftrightarrow> (let n = (of_char c :: nat) in 65 \<le> n \<and> n \<le> 90 \<or> 97 \<le> n \<and> n \<le> 122)"

definition is_ascii_alphanumeric :: "char \<Rightarrow> bool" where
  "is_ascii_alphanumeric c \<longleftrightarrow> is_ascii_alphabetic c \<or> is_ascii_digit c"

lemma starts_with_iff: "starts_with p s \<longleftrightarrow> (\<exists>b. s = p @ b)"
  unfolding starts_with_def by (metis append_eq_conv_conj append_take_drop_id)

lemma contains_text_iff: "contains_text s p \<longleftrightarrow> (\<exists>a b. s = a @ p @ b)"
proof (induction s)
  case (Cons c s)
  show ?case
  proof
    assume "contains_text (c # s) p"
    then consider (here) "starts_with p (c # s)" | (later) "contains_text s p" by auto
    then show "\<exists>a b. c # s = a @ p @ b"
    proof cases
      case here
      then obtain b where "c # s = [] @ p @ b" by (auto simp: starts_with_iff)
      then show ?thesis by blast
    next
      case later
      then obtain a b where "c # s = (c # a) @ p @ b" using Cons.IH by auto
      then show ?thesis by blast
    qed
  next
    assume "\<exists>a b. c # s = a @ p @ b"
    then obtain a b where ab: "c # s = a @ p @ b" by blast
    show "contains_text (c # s) p"
    proof (cases a)
      case Nil
      with ab have "starts_with p (c # s)" by (auto simp: starts_with_iff)
      then show ?thesis by simp
    next
      case (Cons d a')
      with ab have "contains_text s p" using Cons.IH by auto
      then show ?thesis by simp
    qed
  qed
qed auto

text \<open>No word of \<open>ws\<close> is a prefix of what \<open>strip_words\<close> leaves, and stripping again changes
  nothing.\<close>

definition no_word_prefix :: "string list \<Rightarrow> string \<Rightarrow> bool" where
  "no_word_prefix ws s \<longleftrightarrow> (\<forall>w \<in> set ws. w \<noteq> [] \<longrightarrow> \<not> starts_with w s)"

lemma find_word_None: "find (\<lambda>w. w \<noteq> [] \<and> starts_with w s) ws = None \<longleftrightarrow> no_word_prefix ws s"
  by (auto simp: find_None_iff no_word_prefix_def)

lemma strip_words_done: "no_word_prefix ws s \<Longrightarrow> strip_words ws s = s"
  by (subst strip_words.simps) (simp add: find_word_None [symmetric])

lemma strip_words_step:
  "find (\<lambda>w. w \<noteq> [] \<and> starts_with w s) ws = Some w \<Longrightarrow>
   strip_words ws s = strip_words ws (drop (length w) s)"
  by (subst strip_words.simps) simp

lemma strip_words_no_prefix: "no_word_prefix ws (strip_words ws s)"
proof (induction ws s rule: strip_words.induct)
  case (1 ws s)
  show ?case
  proof (cases "find (\<lambda>w. w \<noteq> [] \<and> starts_with w s) ws")
    case None
    then show ?thesis
      by (simp add: find_word_None strip_words_done)
  next
    case (Some w)
    then have "no_word_prefix ws (strip_words ws (drop (length w) s))"
      by (rule "1.IH")
    with Some show ?thesis
      by (simp only: strip_words_step)
  qed
qed

lemma strip_words_suffix: "\<exists>p. s = p @ strip_words ws s"
proof (induction ws s rule: strip_words.induct)
  case (1 ws s)
  show ?case
  proof (cases "find (\<lambda>w. w \<noteq> [] \<and> starts_with w s) ws")
    case None
    then show ?thesis
      by (simp add: find_word_None strip_words_done)
  next
    case (Some w)
    then obtain p where "drop (length w) s = p @ strip_words ws (drop (length w) s)"
      using "1.IH" by blast
    then have "drop (length w) s = p @ strip_words ws s"
      by (simp only: strip_words_step [OF Some])
    then have "s = (take (length w) s @ p) @ strip_words ws s"
      by (metis append.assoc append_take_drop_id)
    then show ?thesis by blast
  qed
qed

lemma starts_with_append: "starts_with w s \<Longrightarrow> starts_with w (s @ t)"
  unfolding starts_with_def by (metis append_eq_conv_conj append_take_drop_id append.assoc)

lemma no_word_prefix_prefix: "no_word_prefix ws (s @ t) \<Longrightarrow> no_word_prefix ws s"
  by (auto simp: no_word_prefix_def dest: starts_with_append)

lemma trim_end_prefix: "\<exists>p. s = trim_end s @ p"
proof -
  obtain p where "rev s = p @ strip_words (map rev white_space_encodings) (rev s)"
    using strip_words_suffix by blast
  then have "s = trim_end s @ rev p"
    unfolding trim_end_def by (metis rev_append rev_rev_ident)
  then show ?thesis by blast
qed

lemma trim_start_trim: "trim_start (trim s) = trim s"
proof -
  obtain p where p: "trim_start s = trim s @ p"
    using trim_end_prefix unfolding trim_def by blast
  have "no_word_prefix white_space_encodings (trim_start s)"
    by (simp add: trim_start_def strip_words_no_prefix)
  then have "no_word_prefix white_space_encodings (trim s)"
    unfolding p by (rule no_word_prefix_prefix)
  then show ?thesis
    by (simp add: trim_start_def strip_words_done)
qed

lemma trim_end_trim: "trim_end (trim s) = trim s"
  by (simp add: trim_def trim_end_def strip_words_done strip_words_no_prefix)

lemma trim_trim [simp]: "trim (trim s) = trim s"
  by (simp add: trim_def [of "trim s"] trim_start_trim trim_end_trim)

lemma trim_Nil [simp]: "trim [] = []"
proof -
  have "no_word_prefix ws []" for ws
    by (simp add: no_word_prefix_def starts_with_def)
  then show ?thesis
    by (simp add: trim_def trim_start_def trim_end_def strip_words_done)
qed

lemma is_blank_trim [simp]: "is_blank (trim s) = is_blank s"
  by (simp add: is_blank_def)

text \<open>Visible ASCII characters are no white space.\<close>

definition graphic :: "char \<Rightarrow> bool" where
  "graphic c \<longleftrightarrow> 33 \<le> (of_char c :: nat) \<and> (of_char c :: nat) < 127"

lemma white_space_not_graphic: "\<forall>w \<in> set white_space_encodings. w \<noteq> [] \<and> \<not> graphic (hd w) \<and> \<not> graphic (last w)"
  by code_simp

lemma no_white_prefix:
  assumes "s \<noteq> []" and "graphic (hd s)"
  shows "no_word_prefix white_space_encodings s"
  unfolding no_word_prefix_def
proof (intro ballI impI notI)
  fix w
  assume w: "w \<in> set white_space_encodings" "w \<noteq> []" "starts_with w s"
  then have "hd s = hd w" by (auto simp: starts_with_iff)
  then show False using assms w white_space_not_graphic by auto
qed

lemma no_white_suffix:
  assumes "s \<noteq> []" and "graphic (last s)"
  shows "no_word_prefix (map rev white_space_encodings) (rev s)"
  unfolding no_word_prefix_def
proof (intro ballI impI notI)
  fix w
  assume w: "w \<in> set (map rev white_space_encodings)" "w \<noteq> []" "starts_with w (rev s)"
  then obtain v where v: "v \<in> set white_space_encodings" "w = rev v" by auto
  have "hd (rev s) = hd w" using w(2,3) by (auto simp: starts_with_iff)
  then have "last s = last v" using assms(1) w(2) v(2) by (simp add: hd_rev)
  then show False using assms v white_space_not_graphic by auto
qed

lemma trim_graphic: "s \<noteq> [] \<Longrightarrow> graphic (hd s) \<Longrightarrow> graphic (last s) \<Longrightarrow> trim s = s"
  by (simp add: trim_def trim_start_def trim_end_def strip_words_done no_white_prefix no_white_suffix)
section \<open>Ordered string maps\<close>

text \<open>
  \<open>serde_json::Map\<close> (without the \<open>preserve_order\<close> feature) and \<open>BTreeMap\<close> keep their entries
  sorted by key: an association list with strictly increasing keys. Looking up is \<open>map_of\<close>.
\<close>

fun map_insert :: "'k::linorder \<Rightarrow> 'v \<Rightarrow> ('k \<times> 'v) list \<Rightarrow> ('k \<times> 'v) list" where
  "map_insert k v [] = [(k, v)]"
| "map_insert k v (e # m) =
     (if k = fst e then (k, v) # m
      else if fst e < k then e # map_insert k v m
      else (k, v) # e # m)"

fun map_remove :: "'k \<Rightarrow> ('k \<times> 'v) list \<Rightarrow> ('k \<times> 'v) list" where
  "map_remove k [] = []"
| "map_remove k (e # m) = (if k = fst e then m else e # map_remove k m)"

definition keys_sorted :: "('k::linorder \<times> 'v) list \<Rightarrow> bool" where
  "keys_sorted m \<longleftrightarrow> sorted_wrt (<) (map fst m)"

lemma map_of_insert [simp]: "map_of (map_insert k v m) = (map_of m)(k \<mapsto> v)"
  by (induction m) (auto simp: fun_eq_iff)

lemma fst_set_map_insert: "fst ` set (map_insert k v m) = insert k (fst ` set m)"
  by (induction m) auto

lemma set_map_remove: "set (map_remove k m) \<subseteq> set m"
  by (induction m) auto

lemma keys_sorted_Nil [simp]: "keys_sorted []"
  by (simp add: keys_sorted_def)

lemma keys_sorted_Cons [simp]:
  "keys_sorted (e # m) \<longleftrightarrow> (\<forall>k \<in> fst ` set m. fst e < k) \<and> keys_sorted m"
  by (auto simp: keys_sorted_def)

lemma keys_sorted_insert [simp]: "keys_sorted m \<Longrightarrow> keys_sorted (map_insert k v m)"
proof (induction m)
  case (Cons e m)
  then show ?case
    using fst_set_map_insert [of k v m] by (auto dest: less_trans)
qed simp

lemma keys_sorted_remove [simp]: "keys_sorted m \<Longrightarrow> keys_sorted (map_remove k m)"
proof (induction m)
  case (Cons e m)
  then show ?case
    using set_map_remove [of k m] by auto
qed simp

lemma keys_sorted_None: "keys_sorted (e # m) \<Longrightarrow> map_of m (fst e) = None"
  by (force simp: map_of_eq_None_iff)

lemma map_of_remove: "keys_sorted m \<Longrightarrow> map_of (map_remove k m) = (map_of m)(k := None)"
proof (induction m)
  case (Cons e m)
  then show ?case
    using keys_sorted_None [of e m] by (cases e) (auto simp: fun_eq_iff)
qed simp

lemma map_remove_insert: "map_of m k = None \<Longrightarrow> map_remove k (map_insert k v m) = m"
  by (induction m) (auto split: if_splits)

text \<open>The interface the components use: what a lookup returns after an update or a removal.\<close>

locale keyed_map =
  fixes get :: "'m \<Rightarrow> 'k \<Rightarrow> 'v option"
    and put :: "'k \<Rightarrow> 'v \<Rightarrow> 'm \<Rightarrow> 'm"
    and del :: "'k \<Rightarrow> 'm \<Rightarrow> 'm"
    and wf :: "'m \<Rightarrow> bool"
  assumes get_put: "get (put k v m) = (get m)(k \<mapsto> v)"
    and get_del: "wf m \<Longrightarrow> get (del k m) = (get m)(k := None)"
    and wf_put: "wf m \<Longrightarrow> wf (put k v m)"
    and wf_del: "wf m \<Longrightarrow> wf (del k m)"
begin

lemma get_fold_put:
  "get (fold (\<lambda>(k, v). put k v) kvs m) k =
   (case map_of (rev kvs) k of None \<Rightarrow> get m k | Some v \<Rightarrow> Some v)"
proof (induction kvs arbitrary: m)
  case Nil
  then show ?case by simp
next
  case (Cons kv kvs)
  then show ?case
    by (cases kv) (auto simp: get_put map_add_def split: option.splits)
qed

lemma wf_fold_put: "wf m \<Longrightarrow> wf (fold (\<lambda>(k, v). put k v) kvs m)"
  by (induction kvs arbitrary: m) (auto simp: wf_put)

lemma get_del_put: "wf m \<Longrightarrow> k' \<noteq> k \<Longrightarrow> get (del k (put k v m)) k' = get m k'"
  by (simp add: get_del wf_put get_put)

end

interpretation btree: keyed_map map_of map_insert map_remove keys_sorted
  by unfold_locales (simp_all add: map_of_remove)

section \<open>JSON values\<close>

text \<open>\<open>serde_json::Value\<close>. A number is a \<open>u64\<close>, a negative \<open>i64\<close> or the bits of an \<open>f64\<close>.\<close>

datatype json_number = PosInt "64 word" | NegInt "64 word" | Float "64 word"

datatype json =
    JNull
  | JBool bool
  | JNumber json_number
  | JString string
  | JArray "json list"
  | JObject "(string \<times> json) list"

type_synonym json_map = "(string \<times> json) list"

fun json_as_str :: "json \<Rightarrow> string option" where
  "json_as_str (JString s) = Some s"
| "json_as_str _ = None"

fun json_as_bool :: "json \<Rightarrow> bool option" where
  "json_as_bool (JBool b) = Some b"
| "json_as_bool _ = None"

fun json_as_u64 :: "json \<Rightarrow> 64 word option" where
  "json_as_u64 (JNumber (PosInt n)) = Some n"
| "json_as_u64 _ = None"

fun json_as_object :: "json \<Rightarrow> json_map option" where
  "json_as_object (JObject m) = Some m"
| "json_as_object _ = None"

fun json_as_array :: "json \<Rightarrow> json list option" where
  "json_as_array (JArray xs) = Some xs"
| "json_as_array _ = None"

text \<open>\<open>Value::get\<close> with a string index: the entry of an object, nothing for any other value.\<close>

fun json_get :: "json \<Rightarrow> string \<Rightarrow> json option" where
  "json_get (JObject m) k = map_of m k"
| "json_get _ k = None"

text \<open>The \<open>json!\<close> macro on an object literal: the entries inserted in the order written.\<close>

definition json_object :: "(string \<times> json) list \<Rightarrow> json_map" where
  "json_object kvs = fold (\<lambda>(k, v). map_insert k v) kvs []"

definition json_uuid :: "uuid \<Rightarrow> json" where
  "json_uuid u = JString (uuid_text u)"

definition json_opt :: "('a \<Rightarrow> json) \<Rightarrow> 'a option \<Rightarrow> json" where
  "json_opt f x = (case x of None \<Rightarrow> JNull | Some y \<Rightarrow> f y)"

definition json_nat :: "nat \<Rightarrow> json" where
  "json_nat n = JNumber (PosInt (of_nat n))"

lemma json_object_sorted [simp]: "keys_sorted (json_object kvs)"
  by (simp add: json_object_def btree.wf_fold_put)

lemma map_of_json_object:
  "map_of (json_object kvs) k = map_of (rev kvs) k"
  by (simp add: json_object_def btree.get_fold_put split: option.splits)

section \<open>Tables\<close>

text \<open>
  A table is the list of its rows. \<open>update .. set .. where\<close> rewrites the rows that satisfy the
  condition, with the rows it \<open>returns\<close>; \<open>order by .. limit 1\<close> takes a row with the least
  sort key. Where several rows have the least key SQL leaves open which one is returned, and
  \<open>first_by\<close> takes the one that is first in the list.
\<close>

definition update_where :: "('r \<Rightarrow> bool) \<Rightarrow> ('r \<Rightarrow> 'r) \<Rightarrow> 'r list \<Rightarrow> 'r list" where
  "update_where p f t = map (\<lambda>r. if p r then f r else r) t"

definition returning :: "('r \<Rightarrow> bool) \<Rightarrow> ('r \<Rightarrow> 'r) \<Rightarrow> 'r list \<Rightarrow> 'r list" where
  "returning p f t = map f (filter p t)"

fun first_by :: "('r \<Rightarrow> 'k::linorder) \<Rightarrow> 'r list \<Rightarrow> 'r option" where
  "first_by key [] = None"
| "first_by key (r # rs) =
     (case first_by key rs of
        None \<Rightarrow> Some r
      | Some s \<Rightarrow> if key r \<le> key s then Some r else Some s)"

definition fetch_optional :: "'r list \<Rightarrow> 'r option" where
  "fetch_optional rs = (case rs of [] \<Rightarrow> None | r # _ \<Rightarrow> Some r)"

fun coalesce_max :: "int list \<Rightarrow> int" where
  "coalesce_max [] = 0"
| "coalesce_max [x] = x"
| "coalesce_max (x # xs) = max x (coalesce_max xs)"

lemma first_by_eq_None [simp]: "first_by key rs = None \<longleftrightarrow> rs = []"
  by (cases rs) (auto split: option.splits)

lemma first_by_SomeD:
  "first_by key rs = Some r \<Longrightarrow> r \<in> set rs \<and> (\<forall>s \<in> set rs. key r \<le> key s)"
proof (induction rs arbitrary: r)
  case (Cons a rs)
  then show ?case
    by (cases "first_by key rs") (force split: if_splits)+
qed simp

lemma first_by_filterD:
  "first_by key (filter p rs) = Some r \<Longrightarrow>
   r \<in> set rs \<and> p r \<and> (\<forall>s \<in> set rs. p s \<longrightarrow> key r \<le> key s)"
  by (auto dest!: first_by_SomeD)

lemma fetch_optional_simps [simp]:
  "fetch_optional [] = None"
  "fetch_optional (r # rs) = Some r"
  by (simp_all add: fetch_optional_def)

lemma fetch_optional_SomeD: "fetch_optional rs = Some r \<Longrightarrow> r \<in> set rs"
  by (cases rs) auto

lemma fetch_optional_eq_None [simp]: "fetch_optional rs = None \<longleftrightarrow> rs = []"
  by (cases rs) auto

lemma coalesce_max_upper: "x \<in> set xs \<Longrightarrow> x \<le> coalesce_max xs"
  by (induction xs rule: coalesce_max.induct) auto

lemma coalesce_max_upto: "coalesce_max (map int [1..<Suc n]) = int n"
proof (induction n)
  case (Suc n)
  have "coalesce_max (xs @ [y]) = (if xs = [] then y else max (coalesce_max xs) y)" for xs y
    by (induction xs rule: coalesce_max.induct) (auto simp: max.assoc)
  with Suc show ?case by simp
qed simp

lemma length_update_where [simp]: "length (update_where p f t) = length t"
  by (simp add: update_where_def)

lemma update_where_Nil [simp]: "update_where p f [] = []"
  by (simp add: update_where_def)

lemma update_where_Cons [simp]:
  "update_where p f (r # t) = (if p r then f r else r) # update_where p f t"
  by (simp add: update_where_def)

lemma set_update_where: "set (update_where p f t) = {if p r then f r else r |r. r \<in> set t}"
  by (auto simp: update_where_def)

lemma in_update_whereE:
  assumes "s \<in> set (update_where p f t)"
  obtains r where "r \<in> set t" and "s = (if p r then f r else r)"
  using assms by (auto simp: set_update_where)

lemma in_update_where_other: "r \<in> set t \<Longrightarrow> \<not> p r \<Longrightarrow> r \<in> set (update_where p f t)"
  by (force simp: update_where_def)

lemma in_update_where_set: "r \<in> set t \<Longrightarrow> p r \<Longrightarrow> f r \<in> set (update_where p f t)"
  by (force simp: update_where_def)

text \<open>A column the update does not set is unchanged.\<close>

lemma map_update_where: "(\<And>r. g (f r) = g r) \<Longrightarrow> map g (update_where p f t) = map g t"
  by (simp add: update_where_def)

lemma update_where_none: "(\<And>r. r \<in> set t \<Longrightarrow> \<not> p r) \<Longrightarrow> update_where p f t = t"
  by (simp add: update_where_def map_idI)

lemma returning_eq_Nil [simp]: "returning p f t = [] \<longleftrightarrow> (\<forall>r \<in> set t. \<not> p r)"
  by (simp add: returning_def filter_empty_conv)

lemma set_returning: "set (returning p f t) = f ` {r \<in> set t. p r}"
  by (auto simp: returning_def)

text \<open>With distinct keys, the row of a key is unique.\<close>

lemma distinct_key_eq:
  "distinct (map key t) \<Longrightarrow> r \<in> set t \<Longrightarrow> s \<in> set t \<Longrightarrow> key r = key s \<Longrightarrow> r = s"
  by (simp add: distinct_map inj_on_def)

lemma filter_eq_one: "distinct xs \<Longrightarrow> x \<in> set xs \<Longrightarrow> filter (\<lambda>y. y = x) xs = [x]"
  by (induction xs) (auto simp: filter_empty_conv)

section \<open>Work queues\<close>

text \<open>
  Workers claim rows of a table: a claim either returns the id of a waiting row, which then waits
  no longer, or nothing. \<open>claim_all\<close> lists what a series of claims hands out. The repositories
  that hand out work are instances of this interface.
\<close>

fun claim_all :: "('db \<Rightarrow> 'req \<Rightarrow> 'id option \<times> 'db) \<Rightarrow> 'db \<Rightarrow> 'req list \<Rightarrow> 'id list" where
  "claim_all claim db [] = []"
| "claim_all claim db (req # reqs) =
     (case claim db req of
        (None, db') \<Rightarrow> claim_all claim db' reqs
      | (Some i, db') \<Rightarrow> i # claim_all claim db' reqs)"

locale work_queue =
  fixes claim :: "'db \<Rightarrow> 'req \<Rightarrow> 'id option \<times> 'db"
    and waiting :: "'db \<Rightarrow> 'id set"
    and wf :: "'db \<Rightarrow> bool"
  assumes claim_wf: "wf db \<Longrightarrow> wf (snd (claim db req))"
    and claim_waiting: "wf db \<Longrightarrow> waiting (snd (claim db req)) \<subseteq> waiting db"
    and claim_takes: "wf db \<Longrightarrow> fst (claim db req) = Some i \<Longrightarrow>
      i \<in> waiting db \<and> i \<notin> waiting (snd (claim db req))"
begin

lemma claim_all_waiting:
  "wf db \<Longrightarrow> distinct (claim_all claim db reqs) \<and> set (claim_all claim db reqs) \<subseteq> waiting db"
proof (induction reqs arbitrary: db)
  case (Cons req reqs)
  obtain r db' where c: "claim db req = (r, db')" by fastforce
  have IH: "distinct (claim_all claim db' reqs)" "set (claim_all claim db' reqs) \<subseteq> waiting db'"
    using Cons.IH [of db'] claim_wf [OF Cons.prems, of req] c by simp_all
  have sub: "waiting db' \<subseteq> waiting db"
    using claim_waiting [OF Cons.prems, of req] c by simp
  show ?case
  proof (cases r)
    case None
    with c IH sub show ?thesis by auto
  next
    case (Some i)
    then have "i \<in> waiting db" "i \<notin> waiting db'"
      using claim_takes [OF Cons.prems, of req i] c by simp_all
    with c Some IH sub show ?thesis by auto
  qed
qed simp

end

end
