(* ===== verification/Domain_Model.thy ===== *)
theory Domain_Model
  imports Prelude
begin

text \<open>
  The crate \<open>domain-model\<close>: the enums with the stable strings they are stored and sent as
  (\<open>as_str\<close>, \<open>from_str\<close>) and the structs of the workflow, dataset, document and session tables.
  The contract of the string forms is the locale \<open>wire_enum\<close>, interpreted for every enum that
  has one; its lemmas say that the two directions are inverse, that \<open>as_str\<close> is injective, and
  that \<open>from_str\<close> rejects every other text. A constructor is written with its type in front,
  as in the source (\<open>WorkflowStatus.Failed\<close> for \<open>WorkflowStatus::Failed\<close>).
\<close>

section \<open>The contract of a wire enum\<close>

locale wire_enum =
  fixes as_str :: "'a \<Rightarrow> string"
    and from_str :: "string \<Rightarrow> 'a option"
  assumes from_as: "from_str (as_str x) = Some x"
    and as_from: "from_str s = Some x \<Longrightarrow> as_str x = s"
begin

lemma from_str_eq_Some: "from_str s = Some x \<longleftrightarrow> s = as_str x"
  using from_as as_from by blast

lemma as_str_eq_iff: "as_str x = as_str y \<longleftrightarrow> x = y"
  by (metis from_as option.inject)

lemma from_str_eq_None: "from_str s = None \<longleftrightarrow> s \<notin> range as_str"
  using from_str_eq_Some by (metis not_None_eq rangeE rangeI)

end

section \<open>Identifiers\<close>

text \<open>The \<open>id_type!\<close> newtypes wrap a \<open>Uuid\<close> and serialise as it does.\<close>

type_synonym TenantId = uuid
type_synonym UserId = uuid
type_synonym DatasetId = uuid
type_synonym DocumentId = uuid
type_synonym SecretBindingId = uuid
type_synonym SecretGrantId = uuid
type_synonym EmailVerificationChallengeId = uuid
type_synonym UserSessionId = uuid
type_synonym WorkflowExecutionId = uuid
type_synonym WorkflowEventId = uuid
type_synonym WorkflowTaskId = uuid
type_synonym ReportPlanId = uuid
type_synonym PublishedReportId = uuid

section \<open>Enums\<close>

datatype DatasetLifecycle = Draft | Active | Archived

primrec DatasetLifecycle_as_str :: "DatasetLifecycle \<Rightarrow> string" where
  "DatasetLifecycle_as_str DatasetLifecycle.Draft = ''draft''"
| "DatasetLifecycle_as_str DatasetLifecycle.Active = ''active''"
| "DatasetLifecycle_as_str DatasetLifecycle.Archived = ''archived''"

definition DatasetLifecycle_from_str :: "string \<Rightarrow> DatasetLifecycle option" where
  "DatasetLifecycle_from_str value =
     (if value = ''draft'' then Some DatasetLifecycle.Draft
      else if value = ''active'' then Some DatasetLifecycle.Active
      else if value = ''archived'' then Some DatasetLifecycle.Archived
      else None)"

interpretation DatasetLifecycle_wire: wire_enum DatasetLifecycle_as_str DatasetLifecycle_from_str
  by (unfold_locales, induct_tac x) (auto simp: DatasetLifecycle_from_str_def split: if_splits)

datatype DatasetVisibility = Public | Private

primrec DatasetVisibility_as_str :: "DatasetVisibility \<Rightarrow> string" where
  "DatasetVisibility_as_str DatasetVisibility.Public = ''public''"
| "DatasetVisibility_as_str DatasetVisibility.Private = ''private''"

definition DatasetVisibility_from_str :: "string \<Rightarrow> DatasetVisibility option" where
  "DatasetVisibility_from_str value =
     (if value = ''public'' then Some DatasetVisibility.Public
      else if value = ''private'' then Some DatasetVisibility.Private
      else None)"

interpretation DatasetVisibility_wire: wire_enum DatasetVisibility_as_str DatasetVisibility_from_str
  by (unfold_locales, induct_tac x) (auto simp: DatasetVisibility_from_str_def split: if_splits)

datatype DocumentLifecycle = Received | Extracted | Indexed | Failed | Archived

primrec DocumentLifecycle_as_str :: "DocumentLifecycle \<Rightarrow> string" where
  "DocumentLifecycle_as_str DocumentLifecycle.Received = ''received''"
| "DocumentLifecycle_as_str DocumentLifecycle.Extracted = ''extracted''"
| "DocumentLifecycle_as_str DocumentLifecycle.Indexed = ''indexed''"
| "DocumentLifecycle_as_str DocumentLifecycle.Failed = ''failed''"
| "DocumentLifecycle_as_str DocumentLifecycle.Archived = ''archived''"

definition DocumentLifecycle_from_str :: "string \<Rightarrow> DocumentLifecycle option" where
  "DocumentLifecycle_from_str value =
     (if value = ''received'' then Some DocumentLifecycle.Received
      else if value = ''extracted'' then Some DocumentLifecycle.Extracted
      else if value = ''indexed'' then Some DocumentLifecycle.Indexed
      else if value = ''failed'' then Some DocumentLifecycle.Failed
      else if value = ''archived'' then Some DocumentLifecycle.Archived
      else None)"

interpretation DocumentLifecycle_wire: wire_enum DocumentLifecycle_as_str DocumentLifecycle_from_str
  by (unfold_locales, induct_tac x) (auto simp: DocumentLifecycle_from_str_def split: if_splits)

datatype DocumentChunkState = Extracted | Indexed

primrec DocumentChunkState_as_str :: "DocumentChunkState \<Rightarrow> string" where
  "DocumentChunkState_as_str DocumentChunkState.Extracted = ''extracted''"
| "DocumentChunkState_as_str DocumentChunkState.Indexed = ''indexed''"

definition DocumentChunkState_from_str :: "string \<Rightarrow> DocumentChunkState option" where
  "DocumentChunkState_from_str value =
     (if value = ''extracted'' then Some DocumentChunkState.Extracted
      else if value = ''indexed'' then Some DocumentChunkState.Indexed
      else None)"

interpretation DocumentChunkState_wire: wire_enum DocumentChunkState_as_str DocumentChunkState_from_str
  by (unfold_locales, induct_tac x) (auto simp: DocumentChunkState_from_str_def split: if_splits)

datatype SecretScopeLevel = Dataset | Document

primrec SecretScopeLevel_as_str :: "SecretScopeLevel \<Rightarrow> string" where
  "SecretScopeLevel_as_str SecretScopeLevel.Dataset = ''dataset''"
| "SecretScopeLevel_as_str SecretScopeLevel.Document = ''document''"

definition SecretScopeLevel_from_str :: "string \<Rightarrow> SecretScopeLevel option" where
  "SecretScopeLevel_from_str value =
     (if value = ''dataset'' then Some SecretScopeLevel.Dataset
      else if value = ''document'' then Some SecretScopeLevel.Document
      else None)"

interpretation SecretScopeLevel_wire: wire_enum SecretScopeLevel_as_str SecretScopeLevel_from_str
  by (unfold_locales, induct_tac x) (auto simp: SecretScopeLevel_from_str_def split: if_splits)

datatype SecretGrantState = Locked | Unlocked | Revoked

datatype AuthChallengePurpose = AccountCreate | Login | RecoverKey | BindEmail | RotateKey

primrec AuthChallengePurpose_as_str :: "AuthChallengePurpose \<Rightarrow> string" where
  "AuthChallengePurpose_as_str AuthChallengePurpose.AccountCreate = ''account_create''"
| "AuthChallengePurpose_as_str AuthChallengePurpose.Login = ''login''"
| "AuthChallengePurpose_as_str AuthChallengePurpose.RecoverKey = ''recover_key''"
| "AuthChallengePurpose_as_str AuthChallengePurpose.BindEmail = ''bind_email''"
| "AuthChallengePurpose_as_str AuthChallengePurpose.RotateKey = ''rotate_key''"

definition AuthChallengePurpose_from_str :: "string \<Rightarrow> AuthChallengePurpose option" where
  "AuthChallengePurpose_from_str value =
     (if value = ''account_create'' then Some AuthChallengePurpose.AccountCreate
      else if value = ''login'' then Some AuthChallengePurpose.Login
      else if value = ''recover_key'' then Some AuthChallengePurpose.RecoverKey
      else if value = ''bind_email'' then Some AuthChallengePurpose.BindEmail
      else if value = ''rotate_key'' then Some AuthChallengePurpose.RotateKey
      else None)"

interpretation AuthChallengePurpose_wire: wire_enum AuthChallengePurpose_as_str AuthChallengePurpose_from_str
  by (unfold_locales, induct_tac x) (auto simp: AuthChallengePurpose_from_str_def split: if_splits)

datatype AuthSessionMethod = EmailCode | EmailKey | LocalKey

primrec AuthSessionMethod_as_str :: "AuthSessionMethod \<Rightarrow> string" where
  "AuthSessionMethod_as_str AuthSessionMethod.EmailCode = ''email_code''"
| "AuthSessionMethod_as_str AuthSessionMethod.EmailKey = ''email_key''"
| "AuthSessionMethod_as_str AuthSessionMethod.LocalKey = ''local_key''"

definition AuthSessionMethod_from_str :: "string \<Rightarrow> AuthSessionMethod option" where
  "AuthSessionMethod_from_str value =
     (if value = ''email_code'' then Some AuthSessionMethod.EmailCode
      else if value = ''email_key'' then Some AuthSessionMethod.EmailKey
      else if value = ''local_key'' then Some AuthSessionMethod.LocalKey
      else None)"

interpretation AuthSessionMethod_wire: wire_enum AuthSessionMethod_as_str AuthSessionMethod_from_str
  by (unfold_locales, induct_tac x) (auto simp: AuthSessionMethod_from_str_def split: if_splits)

datatype AuthAuditOutcome = Succeeded | Failed

primrec AuthAuditOutcome_as_str :: "AuthAuditOutcome \<Rightarrow> string" where
  "AuthAuditOutcome_as_str AuthAuditOutcome.Succeeded = ''succeeded''"
| "AuthAuditOutcome_as_str AuthAuditOutcome.Failed = ''failed''"

definition AuthAuditOutcome_from_str :: "string \<Rightarrow> AuthAuditOutcome option" where
  "AuthAuditOutcome_from_str value =
     (if value = ''succeeded'' then Some AuthAuditOutcome.Succeeded
      else if value = ''failed'' then Some AuthAuditOutcome.Failed
      else None)"

interpretation AuthAuditOutcome_wire: wire_enum AuthAuditOutcome_as_str AuthAuditOutcome_from_str
  by (unfold_locales, induct_tac x) (auto simp: AuthAuditOutcome_from_str_def split: if_splits)

datatype ChatMessageRole = User | Assistant | Tool

primrec ChatMessageRole_as_str :: "ChatMessageRole \<Rightarrow> string" where
  "ChatMessageRole_as_str ChatMessageRole.User = ''user''"
| "ChatMessageRole_as_str ChatMessageRole.Assistant = ''assistant''"
| "ChatMessageRole_as_str ChatMessageRole.Tool = ''tool''"

definition ChatMessageRole_from_str :: "string \<Rightarrow> ChatMessageRole option" where
  "ChatMessageRole_from_str value =
     (if value = ''user'' then Some ChatMessageRole.User
      else if value = ''assistant'' then Some ChatMessageRole.Assistant
      else if value = ''tool'' then Some ChatMessageRole.Tool
      else None)"

interpretation ChatMessageRole_wire: wire_enum ChatMessageRole_as_str ChatMessageRole_from_str
  by (unfold_locales, induct_tac x) (auto simp: ChatMessageRole_from_str_def split: if_splits)

datatype ToolExecutionSourceKind = DatasetOutput | ChatMessage | WorkflowExecution

primrec ToolExecutionSourceKind_as_str :: "ToolExecutionSourceKind \<Rightarrow> string" where
  "ToolExecutionSourceKind_as_str ToolExecutionSourceKind.DatasetOutput = ''dataset_output''"
| "ToolExecutionSourceKind_as_str ToolExecutionSourceKind.ChatMessage = ''chat_message''"
| "ToolExecutionSourceKind_as_str ToolExecutionSourceKind.WorkflowExecution = ''workflow_execution''"

definition ToolExecutionSourceKind_from_str :: "string \<Rightarrow> ToolExecutionSourceKind option" where
  "ToolExecutionSourceKind_from_str value =
     (if value = ''dataset_output'' then Some ToolExecutionSourceKind.DatasetOutput
      else if value = ''chat_message'' then Some ToolExecutionSourceKind.ChatMessage
      else if value = ''workflow_execution'' then Some ToolExecutionSourceKind.WorkflowExecution
      else None)"

interpretation ToolExecutionSourceKind_wire: wire_enum ToolExecutionSourceKind_as_str ToolExecutionSourceKind_from_str
  by (unfold_locales, induct_tac x) (auto simp: ToolExecutionSourceKind_from_str_def split: if_splits)

datatype ToolExecutionStatus = Requested | Completed | Failed

primrec ToolExecutionStatus_as_str :: "ToolExecutionStatus \<Rightarrow> string" where
  "ToolExecutionStatus_as_str ToolExecutionStatus.Requested = ''requested''"
| "ToolExecutionStatus_as_str ToolExecutionStatus.Completed = ''completed''"
| "ToolExecutionStatus_as_str ToolExecutionStatus.Failed = ''failed''"

definition ToolExecutionStatus_from_str :: "string \<Rightarrow> ToolExecutionStatus option" where
  "ToolExecutionStatus_from_str value =
     (if value = ''requested'' then Some ToolExecutionStatus.Requested
      else if value = ''completed'' then Some ToolExecutionStatus.Completed
      else if value = ''failed'' then Some ToolExecutionStatus.Failed
      else None)"

interpretation ToolExecutionStatus_wire: wire_enum ToolExecutionStatus_as_str ToolExecutionStatus_from_str
  by (unfold_locales, induct_tac x) (auto simp: ToolExecutionStatus_from_str_def split: if_splits)

datatype LlmInvocationSourceKind = DatasetOutput | ChatMessage | WorkflowExecution

primrec LlmInvocationSourceKind_as_str :: "LlmInvocationSourceKind \<Rightarrow> string" where
  "LlmInvocationSourceKind_as_str LlmInvocationSourceKind.DatasetOutput = ''dataset_output''"
| "LlmInvocationSourceKind_as_str LlmInvocationSourceKind.ChatMessage = ''chat_message''"
| "LlmInvocationSourceKind_as_str LlmInvocationSourceKind.WorkflowExecution = ''workflow_execution''"

definition LlmInvocationSourceKind_from_str :: "string \<Rightarrow> LlmInvocationSourceKind option" where
  "LlmInvocationSourceKind_from_str value =
     (if value = ''dataset_output'' then Some LlmInvocationSourceKind.DatasetOutput
      else if value = ''chat_message'' then Some LlmInvocationSourceKind.ChatMessage
      else if value = ''workflow_execution'' then Some LlmInvocationSourceKind.WorkflowExecution
      else None)"

interpretation LlmInvocationSourceKind_wire: wire_enum LlmInvocationSourceKind_as_str LlmInvocationSourceKind_from_str
  by (unfold_locales, induct_tac x) (auto simp: LlmInvocationSourceKind_from_str_def split: if_splits)

datatype LlmInvocationMode = Placeholder | Provider

primrec LlmInvocationMode_as_str :: "LlmInvocationMode \<Rightarrow> string" where
  "LlmInvocationMode_as_str LlmInvocationMode.Placeholder = ''placeholder''"
| "LlmInvocationMode_as_str LlmInvocationMode.Provider = ''provider''"

definition LlmInvocationMode_from_str :: "string \<Rightarrow> LlmInvocationMode option" where
  "LlmInvocationMode_from_str value =
     (if value = ''placeholder'' then Some LlmInvocationMode.Placeholder
      else if value = ''provider'' then Some LlmInvocationMode.Provider
      else None)"

interpretation LlmInvocationMode_wire: wire_enum LlmInvocationMode_as_str LlmInvocationMode_from_str
  by (unfold_locales, induct_tac x) (auto simp: LlmInvocationMode_from_str_def split: if_splits)

datatype WorkflowKind = ChatSession | DatasetOutput | MemoryDirectory | UploadIngest | ReportPlan | ReportRender | StaticPageImageGeneration | StaticPageRender | CodexHostTask | VideoExtraction | AssistantRunModelCompletion | ExternalSourceSync | ExternalActionDispatch

primrec WorkflowKind_as_str :: "WorkflowKind \<Rightarrow> string" where
  "WorkflowKind_as_str WorkflowKind.ChatSession = ''chat_session_workflow''"
| "WorkflowKind_as_str WorkflowKind.DatasetOutput = ''dataset_output_workflow''"
| "WorkflowKind_as_str WorkflowKind.MemoryDirectory = ''memory_directory_workflow''"
| "WorkflowKind_as_str WorkflowKind.UploadIngest = ''upload_ingest_workflow''"
| "WorkflowKind_as_str WorkflowKind.ReportPlan = ''report_plan_workflow''"
| "WorkflowKind_as_str WorkflowKind.ReportRender = ''report_render_workflow''"
| "WorkflowKind_as_str WorkflowKind.StaticPageImageGeneration = ''static_page_image_generation_workflow''"
| "WorkflowKind_as_str WorkflowKind.StaticPageRender = ''static_page_render_workflow''"
| "WorkflowKind_as_str WorkflowKind.CodexHostTask = ''codex_host_task_workflow''"
| "WorkflowKind_as_str WorkflowKind.VideoExtraction = ''video_extraction_workflow''"
| "WorkflowKind_as_str WorkflowKind.AssistantRunModelCompletion = ''assistant_run_model_completion_workflow''"
| "WorkflowKind_as_str WorkflowKind.ExternalSourceSync = ''external_source_sync_workflow''"
| "WorkflowKind_as_str WorkflowKind.ExternalActionDispatch = ''external_action_dispatch_workflow''"

definition WorkflowKind_from_str :: "string \<Rightarrow> WorkflowKind option" where
  "WorkflowKind_from_str value =
     (if value = ''chat_session_workflow'' then Some WorkflowKind.ChatSession
      else if value = ''dataset_output_workflow'' then Some WorkflowKind.DatasetOutput
      else if value = ''memory_directory_workflow'' then Some WorkflowKind.MemoryDirectory
      else if value = ''upload_ingest_workflow'' then Some WorkflowKind.UploadIngest
      else if value = ''report_plan_workflow'' then Some WorkflowKind.ReportPlan
      else if value = ''report_render_workflow'' then Some WorkflowKind.ReportRender
      else if value = ''static_page_image_generation_workflow'' then Some WorkflowKind.StaticPageImageGeneration
      else if value = ''static_page_render_workflow'' then Some WorkflowKind.StaticPageRender
      else if value = ''codex_host_task_workflow'' then Some WorkflowKind.CodexHostTask
      else if value = ''video_extraction_workflow'' then Some WorkflowKind.VideoExtraction
      else if value = ''assistant_run_model_completion_workflow'' then Some WorkflowKind.AssistantRunModelCompletion
      else if value = ''external_source_sync_workflow'' then Some WorkflowKind.ExternalSourceSync
      else if value = ''external_action_dispatch_workflow'' then Some WorkflowKind.ExternalActionDispatch
      else None)"

interpretation WorkflowKind_wire: wire_enum WorkflowKind_as_str WorkflowKind_from_str
  by (unfold_locales, induct_tac x) (auto simp: WorkflowKind_from_str_def split: if_splits)

datatype WorkflowStatus = Pending | Running | Succeeded | Failed | Cancelled | DeadLettered

primrec WorkflowStatus_as_str :: "WorkflowStatus \<Rightarrow> string" where
  "WorkflowStatus_as_str WorkflowStatus.Pending = ''pending''"
| "WorkflowStatus_as_str WorkflowStatus.Running = ''running''"
| "WorkflowStatus_as_str WorkflowStatus.Succeeded = ''succeeded''"
| "WorkflowStatus_as_str WorkflowStatus.Failed = ''failed''"
| "WorkflowStatus_as_str WorkflowStatus.Cancelled = ''cancelled''"
| "WorkflowStatus_as_str WorkflowStatus.DeadLettered = ''dead_lettered''"

definition WorkflowStatus_from_str :: "string \<Rightarrow> WorkflowStatus option" where
  "WorkflowStatus_from_str value =
     (if value = ''pending'' then Some WorkflowStatus.Pending
      else if value = ''running'' then Some WorkflowStatus.Running
      else if value = ''succeeded'' then Some WorkflowStatus.Succeeded
      else if value = ''failed'' then Some WorkflowStatus.Failed
      else if value = ''cancelled'' then Some WorkflowStatus.Cancelled
      else if value = ''dead_lettered'' then Some WorkflowStatus.DeadLettered
      else None)"

interpretation WorkflowStatus_wire: wire_enum WorkflowStatus_as_str WorkflowStatus_from_str
  by (unfold_locales, induct_tac x) (auto simp: WorkflowStatus_from_str_def split: if_splits)

datatype WorkflowTaskStatus = Queued | Claimed | Succeeded | Failed | Cancelled | DeadLettered

primrec WorkflowTaskStatus_as_str :: "WorkflowTaskStatus \<Rightarrow> string" where
  "WorkflowTaskStatus_as_str WorkflowTaskStatus.Queued = ''queued''"
| "WorkflowTaskStatus_as_str WorkflowTaskStatus.Claimed = ''claimed''"
| "WorkflowTaskStatus_as_str WorkflowTaskStatus.Succeeded = ''succeeded''"
| "WorkflowTaskStatus_as_str WorkflowTaskStatus.Failed = ''failed''"
| "WorkflowTaskStatus_as_str WorkflowTaskStatus.Cancelled = ''cancelled''"
| "WorkflowTaskStatus_as_str WorkflowTaskStatus.DeadLettered = ''dead_lettered''"

definition WorkflowTaskStatus_from_str :: "string \<Rightarrow> WorkflowTaskStatus option" where
  "WorkflowTaskStatus_from_str value =
     (if value = ''queued'' then Some WorkflowTaskStatus.Queued
      else if value = ''claimed'' then Some WorkflowTaskStatus.Claimed
      else if value = ''succeeded'' then Some WorkflowTaskStatus.Succeeded
      else if value = ''failed'' then Some WorkflowTaskStatus.Failed
      else if value = ''cancelled'' then Some WorkflowTaskStatus.Cancelled
      else if value = ''dead_lettered'' then Some WorkflowTaskStatus.DeadLettered
      else None)"

interpretation WorkflowTaskStatus_wire: wire_enum WorkflowTaskStatus_as_str WorkflowTaskStatus_from_str
  by (unfold_locales, induct_tac x) (auto simp: WorkflowTaskStatus_from_str_def split: if_splits)

datatype ReportPlanStatus = Draft | Planned | Rendered | Published

primrec ReportPlanStatus_as_str :: "ReportPlanStatus \<Rightarrow> string" where
  "ReportPlanStatus_as_str ReportPlanStatus.Draft = ''draft''"
| "ReportPlanStatus_as_str ReportPlanStatus.Planned = ''planned''"
| "ReportPlanStatus_as_str ReportPlanStatus.Rendered = ''rendered''"
| "ReportPlanStatus_as_str ReportPlanStatus.Published = ''published''"

definition ReportPlanStatus_from_str :: "string \<Rightarrow> ReportPlanStatus option" where
  "ReportPlanStatus_from_str value =
     (if value = ''draft'' then Some ReportPlanStatus.Draft
      else if value = ''planned'' then Some ReportPlanStatus.Planned
      else if value = ''rendered'' then Some ReportPlanStatus.Rendered
      else if value = ''published'' then Some ReportPlanStatus.Published
      else None)"

interpretation ReportPlanStatus_wire: wire_enum ReportPlanStatus_as_str ReportPlanStatus_from_str
  by (unfold_locales, induct_tac x) (auto simp: ReportPlanStatus_from_str_def split: if_splits)

datatype ReportModuleKind = Hero | NarrativeText | EvidenceList | MetricCard | Chart | Table | Timeline

datatype PublishedSurface = Pc | Mobile

primrec PublishedSurface_as_str :: "PublishedSurface \<Rightarrow> string" where
  "PublishedSurface_as_str PublishedSurface.Pc = ''pc''"
| "PublishedSurface_as_str PublishedSurface.Mobile = ''mobile''"

definition PublishedSurface_from_str :: "string \<Rightarrow> PublishedSurface option" where
  "PublishedSurface_from_str value =
     (if value = ''pc'' then Some PublishedSurface.Pc
      else if value = ''mobile'' then Some PublishedSurface.Mobile
      else None)"

interpretation PublishedSurface_wire: wire_enum PublishedSurface_as_str PublishedSurface_from_str
  by (unfold_locales, induct_tac x) (auto simp: PublishedSurface_from_str_def split: if_splits)

datatype StaticPageDraftStatus = Draft | Planned | Queued | Previewed | Confirmed | Rendered | Archived

primrec StaticPageDraftStatus_as_str :: "StaticPageDraftStatus \<Rightarrow> string" where
  "StaticPageDraftStatus_as_str StaticPageDraftStatus.Draft = ''draft''"
| "StaticPageDraftStatus_as_str StaticPageDraftStatus.Planned = ''planned''"
| "StaticPageDraftStatus_as_str StaticPageDraftStatus.Queued = ''queued''"
| "StaticPageDraftStatus_as_str StaticPageDraftStatus.Previewed = ''previewed''"
| "StaticPageDraftStatus_as_str StaticPageDraftStatus.Confirmed = ''confirmed''"
| "StaticPageDraftStatus_as_str StaticPageDraftStatus.Rendered = ''rendered''"
| "StaticPageDraftStatus_as_str StaticPageDraftStatus.Archived = ''archived''"

definition StaticPageDraftStatus_from_str :: "string \<Rightarrow> StaticPageDraftStatus option" where
  "StaticPageDraftStatus_from_str value =
     (if value = ''draft'' then Some StaticPageDraftStatus.Draft
      else if value = ''planned'' then Some StaticPageDraftStatus.Planned
      else if value = ''queued'' then Some StaticPageDraftStatus.Queued
      else if value = ''previewed'' then Some StaticPageDraftStatus.Previewed
      else if value = ''confirmed'' then Some StaticPageDraftStatus.Confirmed
      else if value = ''rendered'' then Some StaticPageDraftStatus.Rendered
      else if value = ''archived'' then Some StaticPageDraftStatus.Archived
      else None)"

interpretation StaticPageDraftStatus_wire: wire_enum StaticPageDraftStatus_as_str StaticPageDraftStatus_from_str
  by (unfold_locales, induct_tac x) (auto simp: StaticPageDraftStatus_from_str_def split: if_splits)

datatype StaticPageImageJobStatus = Queued | Running | PreviewReady | Failed | Confirmed

primrec StaticPageImageJobStatus_as_str :: "StaticPageImageJobStatus \<Rightarrow> string" where
  "StaticPageImageJobStatus_as_str StaticPageImageJobStatus.Queued = ''queued''"
| "StaticPageImageJobStatus_as_str StaticPageImageJobStatus.Running = ''running''"
| "StaticPageImageJobStatus_as_str StaticPageImageJobStatus.PreviewReady = ''preview_ready''"
| "StaticPageImageJobStatus_as_str StaticPageImageJobStatus.Failed = ''failed''"
| "StaticPageImageJobStatus_as_str StaticPageImageJobStatus.Confirmed = ''confirmed''"

definition StaticPageImageJobStatus_from_str :: "string \<Rightarrow> StaticPageImageJobStatus option" where
  "StaticPageImageJobStatus_from_str value =
     (if value = ''queued'' then Some StaticPageImageJobStatus.Queued
      else if value = ''running'' then Some StaticPageImageJobStatus.Running
      else if value = ''preview_ready'' then Some StaticPageImageJobStatus.PreviewReady
      else if value = ''failed'' then Some StaticPageImageJobStatus.Failed
      else if value = ''confirmed'' then Some StaticPageImageJobStatus.Confirmed
      else None)"

interpretation StaticPageImageJobStatus_wire: wire_enum StaticPageImageJobStatus_as_str StaticPageImageJobStatus_from_str
  by (unfold_locales, induct_tac x) (auto simp: StaticPageImageJobStatus_from_str_def split: if_splits)

datatype StaticPageRenderOutputStatus = Queued | Rendering | Rendered | Failed | Cancelled

primrec StaticPageRenderOutputStatus_as_str :: "StaticPageRenderOutputStatus \<Rightarrow> string" where
  "StaticPageRenderOutputStatus_as_str StaticPageRenderOutputStatus.Queued = ''queued''"
| "StaticPageRenderOutputStatus_as_str StaticPageRenderOutputStatus.Rendering = ''rendering''"
| "StaticPageRenderOutputStatus_as_str StaticPageRenderOutputStatus.Rendered = ''rendered''"
| "StaticPageRenderOutputStatus_as_str StaticPageRenderOutputStatus.Failed = ''failed''"
| "StaticPageRenderOutputStatus_as_str StaticPageRenderOutputStatus.Cancelled = ''cancelled''"

definition StaticPageRenderOutputStatus_from_str :: "string \<Rightarrow> StaticPageRenderOutputStatus option" where
  "StaticPageRenderOutputStatus_from_str value =
     (if value = ''queued'' then Some StaticPageRenderOutputStatus.Queued
      else if value = ''rendering'' then Some StaticPageRenderOutputStatus.Rendering
      else if value = ''rendered'' then Some StaticPageRenderOutputStatus.Rendered
      else if value = ''failed'' then Some StaticPageRenderOutputStatus.Failed
      else if value = ''cancelled'' then Some StaticPageRenderOutputStatus.Cancelled
      else None)"

interpretation StaticPageRenderOutputStatus_wire: wire_enum StaticPageRenderOutputStatus_as_str StaticPageRenderOutputStatus_from_str
  by (unfold_locales, induct_tac x) (auto simp: StaticPageRenderOutputStatus_from_str_def split: if_splits)

datatype ReportRenderOutputStatus = Rendered | Failed

primrec ReportRenderOutputStatus_as_str :: "ReportRenderOutputStatus \<Rightarrow> string" where
  "ReportRenderOutputStatus_as_str ReportRenderOutputStatus.Rendered = ''rendered''"
| "ReportRenderOutputStatus_as_str ReportRenderOutputStatus.Failed = ''failed''"

definition ReportRenderOutputStatus_from_str :: "string \<Rightarrow> ReportRenderOutputStatus option" where
  "ReportRenderOutputStatus_from_str value =
     (if value = ''rendered'' then Some ReportRenderOutputStatus.Rendered
      else if value = ''failed'' then Some ReportRenderOutputStatus.Failed
      else None)"

interpretation ReportRenderOutputStatus_wire: wire_enum ReportRenderOutputStatus_as_str ReportRenderOutputStatus_from_str
  by (unfold_locales, induct_tac x) (auto simp: ReportRenderOutputStatus_from_str_def split: if_splits)

subsection \<open>Finish reasons keep unknown values\<close>

datatype LlmInvocationFinishReason =
    Stop | ToolCalls | Length | ContentFilter | Error | Other string

primrec LlmInvocationFinishReason_as_str :: "LlmInvocationFinishReason \<Rightarrow> string" where
  "LlmInvocationFinishReason_as_str Stop = ''stop''"
| "LlmInvocationFinishReason_as_str ToolCalls = ''tool_calls''"
| "LlmInvocationFinishReason_as_str Length = ''length''"
| "LlmInvocationFinishReason_as_str ContentFilter = ''content_filter''"
| "LlmInvocationFinishReason_as_str Error = ''error''"
| "LlmInvocationFinishReason_as_str (Other value) = value"

definition LlmInvocationFinishReason_from_str :: "string \<Rightarrow> LlmInvocationFinishReason" where
  "LlmInvocationFinishReason_from_str value =
     (if value = ''stop'' then Stop
      else if value = ''tool_calls'' then ToolCalls
      else if value = ''length'' then Length
      else if value = ''content_filter'' then ContentFilter
      else if value = ''error'' then Error
      else Other value)"

lemma finish_reason_text_preserved:
  "LlmInvocationFinishReason_as_str (LlmInvocationFinishReason_from_str s) = s"
  by (simp add: LlmInvocationFinishReason_from_str_def)

section \<open>Structs\<close>

record WorkflowExecution =
  we_id :: WorkflowExecutionId
  we_tenant_id :: TenantId
  we_dataset_id :: "DatasetId option"
  we_report_plan_id :: "ReportPlanId option"
  we_kind :: WorkflowKind
  we_version :: string
  we_stage :: string
  we_status :: WorkflowStatus
  we_attempt :: "32 word"
  we_context :: json
  we_created_at :: datetime
  we_updated_at :: datetime

record WorkflowEventRecord =
  ev_id :: WorkflowEventId
  ev_execution_id :: WorkflowExecutionId
  ev_sequence_no :: int
  ev_event_name :: string
  ev_payload :: json
  ev_created_at :: datetime

record WorkflowTask =
  wt_id :: WorkflowTaskId
  wt_tenant_id :: TenantId
  wt_execution_id :: WorkflowExecutionId
  wt_queue :: string
  wt_task_key :: string
  wt_payload :: json
  wt_status :: WorkflowTaskStatus
  wt_attempt :: "32 word"
  wt_max_attempts :: "32 word"
  wt_available_at :: datetime
  wt_claimed_at :: "datetime option"
  wt_finished_at :: "datetime option"
  wt_error :: "string option"
  wt_created_at :: datetime
  wt_updated_at :: datetime

record Dataset =
  ds_id :: DatasetId
  ds_tenant_id :: TenantId
  ds_owner_user_id :: "UserId option"
  ds_key :: string
  ds_title :: string
  ds_description :: "string option"
  ds_lifecycle :: DatasetLifecycle
  ds_visibility :: DatasetVisibility
  ds_default_secret_binding_ids :: "SecretBindingId list"
  ds_metadata :: json_map
  ds_created_at :: datetime
  ds_updated_at :: datetime

record Document =
  doc_id :: DocumentId
  doc_tenant_id :: TenantId
  doc_dataset_id :: DatasetId
  doc_owner_user_id :: "UserId option"
  doc_title :: string
  doc_object_key :: string
  doc_content_type :: string
  doc_lifecycle :: DocumentLifecycle
  doc_secret_binding_ids :: "SecretBindingId list"
  doc_metadata :: json_map
  doc_created_at :: datetime
  doc_updated_at :: datetime

section \<open>Round trips of the stored strings\<close>

text \<open>the workflow kind, the workflow status and the task status written into a text column
  by \<open>as_str\<close> are read back by \<open>from_str\<close> as the same value, and \<open>from_str\<close> accepts no other
  text, so a row never holds a value that reads back as a different one.\<close>

theorem workflow_enums_roundtrip:
  "(WorkflowKind_from_str s = Some k \<longleftrightarrow> s = WorkflowKind_as_str k) \<and>
   (WorkflowStatus_from_str s = Some st \<longleftrightarrow> s = WorkflowStatus_as_str st) \<and>
   (WorkflowTaskStatus_from_str s = Some ts \<longleftrightarrow> s = WorkflowTaskStatus_as_str ts)"
  by (simp add: WorkflowKind_wire.from_str_eq_Some WorkflowStatus_wire.from_str_eq_Some
      WorkflowTaskStatus_wire.from_str_eq_Some)

end
