(* ===== verification/Workflow_Engine.thy ===== *)
theory Workflow_Engine
  imports Domain_Model
begin

text \<open>
  The crate \<open>workflow-engine\<close>: signals, the runtime state of an execution, a transition with its
  persisted event and enqueued tasks, the catalog of definitions, and the trait
  \<open>WorkflowDefinition\<close>. The trait is a record of the values and functions an implementation
  provides; what every implementation of the platform promises about them is the locale
  \<open>workflow_definition\<close>, whose lemmas are proved once and hold for each definition that is
  interpreted in \<open>Workflow_Definitions\<close>.
\<close>

section \<open>Data\<close>

datatype WorkflowSignalKind =
    Start | StepCompleted | StepFailed | RetryRequested | CancelRequested | PublishRequested

primrec WorkflowSignalKind_as_str :: "WorkflowSignalKind \<Rightarrow> string" where
  "WorkflowSignalKind_as_str WorkflowSignalKind.Start = ''start''"
| "WorkflowSignalKind_as_str WorkflowSignalKind.StepCompleted = ''step_completed''"
| "WorkflowSignalKind_as_str WorkflowSignalKind.StepFailed = ''step_failed''"
| "WorkflowSignalKind_as_str WorkflowSignalKind.RetryRequested = ''retry_requested''"
| "WorkflowSignalKind_as_str WorkflowSignalKind.CancelRequested = ''cancel_requested''"
| "WorkflowSignalKind_as_str WorkflowSignalKind.PublishRequested = ''publish_requested''"

datatype WorkflowSignal =
    Start
  | StepCompleted (sc_task_key: string) (sc_output: "json option")
  | StepFailed (sf_task_key: string) (sf_error: string)
  | RetryRequested (rr_reason: string)
  | CancelRequested (cr_reason: string)
  | PublishRequested (pr_note: "string option")

record WorkflowRuntimeState =
  rs_execution_id :: WorkflowExecutionId
  rs_kind :: WorkflowKind
  rs_version :: string
  rs_stage :: string
  rs_status :: WorkflowStatus
  rs_retries_remaining :: "32 word"
  rs_context :: json_map
  rs_updated_at :: datetime

record WorkflowEvent =
  wev_name :: string
  wev_detail :: json
  wev_occurred_at :: datetime

record WorkflowTaskRequest =
  tr_queue :: string
  tr_task_key :: string
  tr_payload :: json

record WorkflowTransition =
  next_state :: WorkflowRuntimeState
  persisted_event :: WorkflowEvent
  enqueued_tasks :: "WorkflowTaskRequest list"

record WorkflowDefinitionSummary =
  wds_kind :: WorkflowKind
  wds_version :: string
  wds_summary :: string
  wds_accepted_signals :: "WorkflowSignalKind list"

datatype WorkflowTransitionError = UnsupportedSignal | InvalidTransition string

section \<open>Definitions and the catalog\<close>

text \<open>The trait object \<open>dyn WorkflowDefinition\<close>: its six methods.\<close>

record WorkflowDefinition =
  wd_kind :: WorkflowKind
  wd_version :: string
  wd_summary :: string
  wd_accepted_signals :: "WorkflowSignalKind list"
  wd_initial_state :: "WorkflowExecutionId \<Rightarrow> datetime \<Rightarrow> WorkflowRuntimeState"
  wd_transition ::
    "WorkflowRuntimeState \<Rightarrow> WorkflowSignal \<Rightarrow> datetime \<Rightarrow>
     (WorkflowTransition, WorkflowTransitionError) result"

definition wd_descriptor :: "WorkflowDefinition \<Rightarrow> WorkflowDefinitionSummary" where
  "wd_descriptor d =
     \<lparr>wds_kind = wd_kind d, wds_version = wd_version d, wds_summary = wd_summary d,
      wds_accepted_signals = wd_accepted_signals d\<rparr>"

record WorkflowCatalog =
  definitions :: "WorkflowDefinition list"

definition WorkflowCatalog_new :: "WorkflowDefinition list \<Rightarrow> WorkflowCatalog" where
  "WorkflowCatalog_new ds = \<lparr>definitions = ds\<rparr>"

definition descriptors :: "WorkflowCatalog \<Rightarrow> WorkflowDefinitionSummary list" where
  "descriptors c = map wd_descriptor (definitions c)"

definition find_definition :: "WorkflowCatalog \<Rightarrow> WorkflowKind \<Rightarrow> WorkflowDefinition option" where
  "find_definition c k = find (\<lambda>d. wd_kind d = k) (definitions c)"

lemma find_definition_SomeD:
  "find_definition c k = Some d \<Longrightarrow> d \<in> set (definitions c) \<and> wd_kind d = k"
  by (auto simp: find_definition_def find_Some_iff)

section \<open>What a definition promises\<close>

text \<open>The kind of a signal, to compare it with the signals a definition accepts.\<close>

fun signal_kind :: "WorkflowSignal \<Rightarrow> WorkflowSignalKind" where
  "signal_kind WorkflowSignal.Start = WorkflowSignalKind.Start"
| "signal_kind (WorkflowSignal.StepCompleted _ _) = WorkflowSignalKind.StepCompleted"
| "signal_kind (WorkflowSignal.StepFailed _ _) = WorkflowSignalKind.StepFailed"
| "signal_kind (WorkflowSignal.RetryRequested _) = WorkflowSignalKind.RetryRequested"
| "signal_kind (WorkflowSignal.CancelRequested _) = WorkflowSignalKind.CancelRequested"
| "signal_kind (WorkflowSignal.PublishRequested _) = WorkflowSignalKind.PublishRequested"

text \<open>
  The life cycle of the statuses, independent of any definition: the status a signal may lead to
  from a status, and what it does to the retry budget (\<open>n\<close> before, \<open>n'\<close> after). A running
  workflow that completes a step stays running, succeeds or fails; a failed one that is retried
  is pending again with one retry less, or dead-lettered when no retry is left; cancelling is
  possible from every status.
\<close>

inductive lifecycle ::
    "WorkflowStatus \<Rightarrow> nat \<Rightarrow> WorkflowSignal \<Rightarrow> WorkflowStatus \<Rightarrow> nat \<Rightarrow> bool" where
  starts: "lifecycle WorkflowStatus.Pending n WorkflowSignal.Start WorkflowStatus.Running n"
| advances: "st \<in> {WorkflowStatus.Running, WorkflowStatus.Succeeded, WorkflowStatus.Failed} \<Longrightarrow>
     lifecycle WorkflowStatus.Running n (WorkflowSignal.StepCompleted k out) st n"
| fails: "lifecycle WorkflowStatus.Running n (WorkflowSignal.StepFailed k e) WorkflowStatus.Failed n"
| retries: "lifecycle WorkflowStatus.Failed (Suc n) (WorkflowSignal.RetryRequested r)
     WorkflowStatus.Pending n"
| buries: "lifecycle WorkflowStatus.Failed 0 (WorkflowSignal.RetryRequested r)
     WorkflowStatus.DeadLettered 0"
| cancels: "lifecycle st n (WorkflowSignal.CancelRequested r) WorkflowStatus.Cancelled n"

inductive_cases lifecycle_startE: "lifecycle st n WorkflowSignal.Start st' n'"
inductive_cases lifecycle_publishE: "lifecycle st n (WorkflowSignal.PublishRequested x) st' n'"
inductive_simps lifecycle_retry_iff:
  "lifecycle st n (WorkflowSignal.RetryRequested r) st' n'"

definition terminal :: "WorkflowStatus \<Rightarrow> bool" where
  "terminal st \<longleftrightarrow>
     st \<in> {WorkflowStatus.Succeeded, WorkflowStatus.Cancelled, WorkflowStatus.DeadLettered}"

lemma lifecycle_terminal:
  "lifecycle st n sig st' n' \<Longrightarrow> terminal st \<Longrightarrow> st' = WorkflowStatus.Cancelled"
  by (induction rule: lifecycle.induct) (auto simp: terminal_def)

lemma lifecycle_budget: "lifecycle st n sig st' n' \<Longrightarrow> n' \<le> n"
  by (induction rule: lifecycle.induct) auto

section \<open>Running a definition\<close>

text \<open>
  A definition run over a list of signals: a refused signal leaves the state as it is (the
  service returns an error and writes nothing). \<open>drive\<close> is the state that is reached,
  \<open>accepted\<close> the signals that were accepted on the way, with their transitions, and
  \<open>all_tasks\<close> the tasks these transitions enqueue.
\<close>

fun drive ::
    "WorkflowDefinition \<Rightarrow> WorkflowRuntimeState \<Rightarrow> (WorkflowSignal \<times> datetime) list \<Rightarrow>
     WorkflowRuntimeState" where
  "drive d s [] = s"
| "drive d s ((sig, now) # rest) =
     drive d (case wd_transition d s sig now of Inl _ \<Rightarrow> s | Inr t \<Rightarrow> next_state t) rest"

fun accepted ::
    "WorkflowDefinition \<Rightarrow> WorkflowRuntimeState \<Rightarrow> (WorkflowSignal \<times> datetime) list \<Rightarrow>
     (WorkflowSignal \<times> WorkflowTransition) list" where
  "accepted d s [] = []"
| "accepted d s ((sig, now) # rest) =
     (case wd_transition d s sig now of
        Inl _ \<Rightarrow> accepted d s rest
      | Inr t \<Rightarrow> (sig, t) # accepted d (next_state t) rest)"

definition all_tasks :: "(WorkflowSignal \<times> WorkflowTransition) list \<Rightarrow> WorkflowTaskRequest list" where
  "all_tasks ts = concat (map (enqueued_tasks \<circ> snd) ts)"

definition start_count :: "(WorkflowSignal \<times> WorkflowTransition) list \<Rightarrow> nat" where
  "start_count ts = length (filter (\<lambda>(sig, t). sig = WorkflowSignal.Start) ts)"

lemma all_tasks_simps [simp]:
  "all_tasks [] = []"
  "all_tasks ((sig, t) # ts) = enqueued_tasks t @ all_tasks ts"
  by (simp_all add: all_tasks_def)

lemma start_count_simps [simp]:
  "start_count [] = 0"
  "start_count ((sig, t) # ts) = (if sig = WorkflowSignal.Start then 1 else 0) + start_count ts"
  by (simp_all add: start_count_def)

lemma run_induct [case_names stop refused accepted]:
  assumes "\<And>s. P s []"
    and "\<And>s sig now rest e. wd_transition d s sig now = Err e \<Longrightarrow> P s rest \<Longrightarrow>
      P s ((sig, now) # rest)"
    and "\<And>s sig now rest t. wd_transition d s sig now = Ok t \<Longrightarrow> P (next_state t) rest \<Longrightarrow>
      P s ((sig, now) # rest)"
  shows "P s sigs"
proof (induction sigs arbitrary: s)
  case (Cons a rest)
  obtain sig now where "a = (sig, now)" by (cases a)
  with Cons assms(2,3) show ?case by (cases "wd_transition d s sig now") auto
qed (rule assms(1))

lemma drive_append: "drive d s (xs @ ys) = drive d (drive d s xs) ys"
  by (induction d s xs rule: drive.induct) simp_all

lemma accepted_append: "accepted d s (xs @ ys) = accepted d s xs @ accepted d (drive d s xs) ys"
  by (induction d s xs rule: drive.induct) (simp_all split: sum.splits)

text \<open>A run is proved correct by an invariant that every accepted transition keeps.\<close>

lemma drive_invariant:
  assumes "\<And>s sig now t. P s \<Longrightarrow> wd_transition d s sig now = Ok t \<Longrightarrow> P (next_state t)"
    and "P s"
  shows "P (drive d s sigs)"
  using assms(2)
proof (induction s sigs rule: run_induct [of _ d])
  case (accepted s sig now rest t)
  then show ?case using assms(1) [of s sig now t] by simp
qed simp_all

text \<open>How many runs are left: the retries, and the run a pending execution is waiting for.\<close>

definition runs_left :: "WorkflowStatus \<Rightarrow> nat \<Rightarrow> nat" where
  "runs_left st n = n + (if st = WorkflowStatus.Pending then 1 else 0)"

lemma lifecycle_runs_left:
  "lifecycle st n sig st' n' \<Longrightarrow>
   (if sig = WorkflowSignal.Start then 1 else 0) + runs_left st' n' \<le> runs_left st n"
  by (induction rule: lifecycle.induct) (auto simp: runs_left_def)

abbreviation state_runs_left :: "WorkflowRuntimeState \<Rightarrow> nat" where
  "state_runs_left s \<equiv> runs_left (rs_status s) (unat (rs_retries_remaining s))"

section \<open>The contract of a definition\<close>

text \<open>
  What the sources of a definition keep: an accepted transition follows the life cycle and stays
  on the same execution, kind and version; a task is only enqueued by a transition into
  \<open>Running\<close>, and then exactly one; the time stamps are those of the call; the context stays an
  ordered map without the key the service reserves for the retry budget; a publish request is
  refused.
\<close>

definition context_wf :: "json_map \<Rightarrow> bool" where
  "context_wf m \<longleftrightarrow> keys_sorted m \<and> map_of m ''retries_remaining'' = None"

lemma context_wf_insert [simp]:
  "context_wf m \<Longrightarrow> k \<noteq> ''retries_remaining'' \<Longrightarrow> context_wf (map_insert k v m)"
  by (simp add: context_wf_def)

locale workflow_definition =
  fixes d :: WorkflowDefinition
  assumes kind_initial: "rs_kind (wd_initial_state d x now) = wd_kind d"
    and status_initial: "rs_status (wd_initial_state d x now) = WorkflowStatus.Pending"
    and retries_initial: "rs_retries_remaining (wd_initial_state d x now) = 3"
    and id_initial: "rs_execution_id (wd_initial_state d x now) = x"
    and follows_lifecycle: "wd_transition d s sig now = Ok t \<Longrightarrow>
      lifecycle (rs_status s) (unat (rs_retries_remaining s)) sig
        (rs_status (next_state t)) (unat (rs_retries_remaining (next_state t)))"
    and keeps_id: "wd_transition d s sig now = Ok t \<Longrightarrow>
      rs_execution_id (next_state t) = rs_execution_id s"
    and keeps_kind: "wd_transition d s sig now = Ok t \<Longrightarrow> rs_kind s = wd_kind d \<Longrightarrow>
      rs_kind (next_state t) = wd_kind d"
    and enqueues: "wd_transition d s sig now = Ok t \<Longrightarrow>
      length (enqueued_tasks t) =
        (if rs_status (next_state t) = WorkflowStatus.Running then 1 else 0)"
    and stamps: "wd_transition d s sig now = Ok t \<Longrightarrow>
      rs_updated_at (next_state t) = now \<and> wev_occurred_at (persisted_event t) = now"
    and keeps_context: "wd_transition d s sig now = Ok t \<Longrightarrow> context_wf (rs_context s) \<Longrightarrow>
      context_wf (rs_context (next_state t))"
    and refuses_publish: "wd_transition d s (WorkflowSignal.PublishRequested note) now =
      Err UnsupportedSignal"
    and accepts_cancel: "\<exists>t. wd_transition d s (WorkflowSignal.CancelRequested r) now = Ok t"
begin

lemma signal_accepted:
  assumes "wd_transition d s sig now = Ok t"
  shows "signal_kind sig \<noteq> WorkflowSignalKind.PublishRequested"
  using follows_lifecycle [OF assms] by (auto elim: lifecycle.cases)

lemma terminal_stays:
  assumes "terminal (rs_status s)" and "wd_transition d s sig now = Ok t"
  shows "rs_status (next_state t) = WorkflowStatus.Cancelled"
  using lifecycle_terminal [OF follows_lifecycle [OF assms(2)] assms(1)] .

lemma terminal_enqueues_nothing:
  assumes "terminal (rs_status s)" and "wd_transition d s sig now = Ok t"
  shows "enqueued_tasks t = []"
  using enqueues [OF assms(2)] terminal_stays [OF assms] by simp

lemma terminal_drive: "terminal (rs_status s) \<Longrightarrow>
  rs_status (drive d s sigs) \<in> {rs_status s, WorkflowStatus.Cancelled} \<and>
  all_tasks (accepted d s sigs) = []"
proof (induction s sigs rule: run_induct [of _ d])
  case (accepted s sig now rest t)
  have c: "rs_status (next_state t) = WorkflowStatus.Cancelled"
    using terminal_stays [OF accepted.prems accepted.hyps] .
  then have "terminal (rs_status (next_state t))"
    by (simp add: terminal_def)
  with accepted c terminal_enqueues_nothing [OF accepted.prems accepted.hyps] show ?case by simp
qed simp_all

lemma drive_id: "rs_execution_id (drive d s sigs) = rs_execution_id s"
  by (rule drive_invariant [where P = "\<lambda>s'. rs_execution_id s' = rs_execution_id s"])
    (auto dest: keeps_id)

lemma drive_kind: "rs_kind s = wd_kind d \<Longrightarrow> rs_kind (drive d s sigs) = wd_kind d"
  by (rule drive_invariant) (auto dest: keeps_kind)

lemma drive_starts:
  "start_count (accepted d s sigs) + state_runs_left (drive d s sigs) \<le> state_runs_left s"
proof (induction s sigs rule: run_induct [of _ d])
  case (accepted s sig now rest t)
  with accepted lifecycle_runs_left [OF follows_lifecycle [OF accepted.hyps]] show ?case by simp
qed simp_all

lemma initial_runs_left: "state_runs_left (wd_initial_state d x now) = 4"
  by (simp add: runs_left_def status_initial retries_initial)

lemma at_most_four_starts: "start_count (accepted d (wd_initial_state d x now) sigs) \<le> 4"
  using drive_starts [of "wd_initial_state d x now" sigs] by (simp add: initial_runs_left)

end

text \<open>
  A staged definition: every stage has a rank below a bound that strictly decreases while the
  execution stays \<open>Running\<close>. Then a run is finite, and with the bounded number of runs so is
  the work of an execution, whatever signals it is sent.
\<close>

locale staged_definition = workflow_definition +
  fixes rank :: "string \<Rightarrow> nat"
    and stages :: nat
  assumes start_rank: "wd_transition d s WorkflowSignal.Start now = Ok t \<Longrightarrow>
      rank (rs_stage (next_state t)) < stages"
    and step_rank: "wd_transition d s (WorkflowSignal.StepCompleted k out) now = Ok t \<Longrightarrow>
      rs_status (next_state t) = WorkflowStatus.Running \<Longrightarrow>
      rank (rs_stage (next_state t)) < rank (rs_stage s)"
begin

definition work_left :: "WorkflowRuntimeState \<Rightarrow> nat" where
  "work_left s = state_runs_left s * stages +
     (if rs_status s = WorkflowStatus.Running then rank (rs_stage s) else 0)"

lemma step_work:
  assumes "wd_transition d s sig now = Ok t"
  shows "length (enqueued_tasks t) + work_left (next_state t) \<le> work_left s"
proof (cases "rs_status (next_state t) = WorkflowStatus.Running")
  case False
  have "state_runs_left (next_state t) \<le> state_runs_left s"
    using lifecycle_runs_left [OF follows_lifecycle [OF assms]] by (simp split: if_splits)
  with False enqueues [OF assms] show ?thesis
    by (simp add: work_left_def mult_le_mono1 trans_le_add1)
next
  case True
  from follows_lifecycle [OF assms] show ?thesis
  proof cases
    case starts
    have "rank (rs_stage (next_state t)) < stages"
      using assms unfolding starts(2) by (rule start_rank)
    with starts True enqueues [OF assms]
    show ?thesis by (simp add: work_left_def runs_left_def)
  next
    case (advances k out)
    have "rank (rs_stage (next_state t)) < rank (rs_stage s)"
      using assms True unfolding advances(2) by (rule step_rank)
    with advances True enqueues [OF assms]
    show ?thesis by (simp add: work_left_def runs_left_def)
  qed (use True in auto)
qed

lemma drive_work:
  "length (all_tasks (accepted d s sigs)) + work_left (drive d s sigs) \<le> work_left s"
proof (induction s sigs rule: run_induct [of _ d])
  case (accepted s sig now rest t)
  with accepted step_work [OF accepted.hyps] show ?case by simp
qed simp_all

lemma bounded_tasks: "length (all_tasks (accepted d (wd_initial_state d x now) sigs)) \<le> 4 * stages"
  using drive_work [of "wd_initial_state d x now" sigs]
  by (simp add: work_left_def runs_left_def retries_initial status_initial)

end

text \<open>
  A pipeline: a fixed list of stages, each with the key of the task that is worked on in it.
  Starting enters the first stage, completing the task of a stage enters the next one and
  enqueues its task, and only the last stage leads to success. A pipeline is a staged definition
  whose rank counts the stages that are still ahead.
\<close>

fun completed_since_start ::
    "string list \<Rightarrow> (WorkflowSignal \<times> WorkflowTransition) list \<Rightarrow> string list" where
  "completed_since_start acc [] = acc"
| "completed_since_start acc ((WorkflowSignal.Start, t) # rest) = completed_since_start [] rest"
| "completed_since_start acc ((WorkflowSignal.StepCompleted k out, t) # rest) =
     completed_since_start (acc @ [k]) rest"
| "completed_since_start acc ((_, t) # rest) = completed_since_start acc rest"

locale pipeline_definition = workflow_definition +
  fixes steps :: "(string \<times> string) list"
  assumes steps_nonempty: "steps \<noteq> []"
    and distinct_stages: "distinct (map fst steps)"
    and start_step: "wd_transition d s WorkflowSignal.Start now = Ok t \<Longrightarrow>
      rs_stage (next_state t) = fst (hd steps) \<and>
      map tr_task_key (enqueued_tasks t) = [snd (hd steps)]"
    and next_step: "wd_transition d s (WorkflowSignal.StepCompleted k out) now = Ok t \<Longrightarrow>
      rs_status (next_state t) = WorkflowStatus.Running \<Longrightarrow>
      \<exists>i. Suc i < length steps \<and> steps ! i = (rs_stage s, k) \<and>
        rs_stage (next_state t) = fst (steps ! Suc i) \<and>
        map tr_task_key (enqueued_tasks t) = [snd (steps ! Suc i)]"
    and last_step: "wd_transition d s (WorkflowSignal.StepCompleted k out) now = Ok t \<Longrightarrow>
      rs_status (next_state t) = WorkflowStatus.Succeeded \<Longrightarrow> last steps = (rs_stage s, k)"
begin

definition stages_ahead :: "string \<Rightarrow> nat" where
  "stages_ahead stage =
     (case position (\<lambda>st. fst st = stage) steps of
        None \<Rightarrow> 0 | Some i \<Rightarrow> length steps - Suc i)"

lemma stages_ahead_nth: "i < length steps \<Longrightarrow> stages_ahead (fst (steps ! i)) = length steps - Suc i"
  by (simp add: stages_ahead_def position_nth distinct_stages)

lemma stage_index_unique:
  "i < length steps \<Longrightarrow> j < length steps \<Longrightarrow> fst (steps ! i) = fst (steps ! j) \<Longrightarrow> i = j"
  using distinct_stages by (metis length_map nth_eq_iff_index_eq nth_map)

text \<open>Between a start and the success of the run the tasks are completed in the order of the
  steps: none is skipped, repeated or taken early.\<close>

definition in_order :: "WorkflowRuntimeState \<Rightarrow> string list \<Rightarrow> bool" where
  "in_order s done_keys \<longleftrightarrow>
     (rs_status s = WorkflowStatus.Running \<longrightarrow>
        (\<exists>i < length steps. rs_stage s = fst (steps ! i) \<and> done_keys = map snd (take i steps))) \<and>
     (rs_status s = WorkflowStatus.Succeeded \<longrightarrow> done_keys = map snd steps)"

lemma in_order_start:
  assumes "wd_transition d s WorkflowSignal.Start now = Ok t"
  shows "in_order (next_state t) []"
proof -
  have "rs_status (next_state t) = WorkflowStatus.Running"
    using follows_lifecycle [OF assms] by (auto elim: lifecycle_startE)
  with start_step [OF assms] steps_nonempty show ?thesis
    by (auto simp: in_order_def hd_conv_nth intro: exI [of _ 0])
qed

lemma in_order_completed:
  assumes t: "wd_transition d s (WorkflowSignal.StepCompleted k out) now = Ok t"
    and inv: "in_order s done_keys"
  shows "in_order (next_state t) (done_keys @ [k])"
proof -
  have "rs_status s = WorkflowStatus.Running"
    using follows_lifecycle [OF t] by (auto elim: lifecycle.cases)
  with inv obtain i where i: "i < length steps" "rs_stage s = fst (steps ! i)"
    "done_keys = map snd (take i steps)"
    by (auto simp: in_order_def)
  have next': "\<exists>i < length steps. rs_stage (next_state t) = fst (steps ! i) \<and>
      done_keys @ [k] = map snd (take i steps)"
    if run: "rs_status (next_state t) = WorkflowStatus.Running"
  proof -
    obtain j where j: "Suc j < length steps" "steps ! j = (rs_stage s, k)"
      "rs_stage (next_state t) = fst (steps ! Suc j)"
      using next_step [OF t run] by blast
    have "fst (steps ! i) = fst (steps ! j)"
      by (simp add: j(2) flip: i(2))
    with i(1) j(1) have "i = j"
      by (intro stage_index_unique) simp_all
    with i(3) j show ?thesis
      by (intro exI [of _ "Suc j"]) (simp add: take_Suc_conv_app_nth)
  qed
  have last': "done_keys @ [k] = map snd steps"
    if suc: "rs_status (next_state t) = WorkflowStatus.Succeeded"
  proof -
    have l: "steps ! (length steps - 1) = (rs_stage s, k)"
      using last_step [OF t suc] steps_nonempty by (simp add: last_conv_nth)
    have "fst (steps ! i) = fst (steps ! (length steps - 1))"
      unfolding l by (simp add: i(2))
    with i(1) have "i = length steps - 1"
      by (intro stage_index_unique) simp_all
    have "done_keys @ [k] = map snd (butlast steps @ [last steps])"
      using \<open>i = length steps - 1\<close> i(3) last_step [OF t suc] by (simp add: butlast_conv_take)
    with steps_nonempty show ?thesis by simp
  qed
  from next' last' show ?thesis by (simp add: in_order_def)
qed

lemma in_order_other:
  assumes t: "wd_transition d s sig now = Ok t"
    and "sig \<noteq> WorkflowSignal.Start" and "\<And>k out. sig \<noteq> WorkflowSignal.StepCompleted k out"
  shows "in_order (next_state t) done_keys"
  using follows_lifecycle [OF t] assms(2,3) by cases (auto simp: in_order_def)

lemma drive_in_order:
  "in_order s acc \<Longrightarrow>
   in_order (drive d s sigs) (completed_since_start acc (accepted d s sigs))"
proof (induction s sigs arbitrary: acc rule: run_induct [of _ d])
  case (accepted s sig now rest t)
  then show ?case
    by (cases sig)
      (auto dest: in_order_start intro: in_order_completed in_order_other)
qed simp_all

lemma initial_in_order: "in_order (wd_initial_state d x now) []"
  by (simp add: in_order_def status_initial)

end

sublocale pipeline_definition < staged_definition d stages_ahead "length steps"
proof
  fix s now t
  assume "wd_transition d s WorkflowSignal.Start now = Ok t"
  then show "stages_ahead (rs_stage (next_state t)) < length steps"
    using start_step steps_nonempty by (simp add: hd_conv_nth stages_ahead_nth)
next
  fix s k out now t
  assume "wd_transition d s (WorkflowSignal.StepCompleted k out) now = Ok t"
    and "rs_status (next_state t) = WorkflowStatus.Running"
  from next_step [OF this] obtain i where i: "Suc i < length steps"
    "steps ! i = (rs_stage s, k)" "rs_stage (next_state t) = fst (steps ! Suc i)"
    by blast
  then have "stages_ahead (rs_stage s) = length steps - Suc i"
    using stages_ahead_nth [of i] by simp
  with i show "stages_ahead (rs_stage (next_state t)) < stages_ahead (rs_stage s)"
    by (simp add: stages_ahead_nth)
qed

context pipeline_definition
begin

lemma pipeline_bounded_tasks:
  "length (all_tasks (accepted d (wd_initial_state d x now) sigs)) \<le> 4 * length steps"
  by (rule bounded_tasks)

end

end
