(* ===== verification/Workflow_Definitions.thy ===== *)
theory Workflow_Definitions
  imports Workflow_Engine
begin

text \<open>
  The crate \<open>workflow-definitions\<close>: the linear definition with an optional second step, the
  six-stage synchronisation of an external source, the extraction of a video, and the registry of
  the thirteen workflows of the platform. Each family is an instance of the contract
  \<open>staged_definition\<close>, so the lemmas of \<open>Workflow_Engine\<close> hold for it.
\<close>

section \<open>Shared parts\<close>

definition STANDARD_SIGNALS :: "WorkflowSignalKind list" where
  "STANDARD_SIGNALS =
     [WorkflowSignalKind.Start, WorkflowSignalKind.StepCompleted, WorkflowSignalKind.StepFailed,
      WorkflowSignalKind.RetryRequested, WorkflowSignalKind.CancelRequested]"

record WorkflowStepSpec =
  step_queue :: string
  step_task_key :: string

definition workflow_event :: "string \<Rightarrow> json_map \<Rightarrow> datetime \<Rightarrow> WorkflowEvent" where
  "workflow_event name detail occurred_at =
     \<lparr>wev_name = name, wev_detail = JObject detail, wev_occurred_at = occurred_at\<rparr>"

text \<open>The \<open>Debug\<close> text of a status and the two messages of \<open>InvalidTransition\<close>.\<close>

primrec WorkflowStatus_debug :: "WorkflowStatus \<Rightarrow> string" where
  "WorkflowStatus_debug WorkflowStatus.Pending = ''Pending''"
| "WorkflowStatus_debug WorkflowStatus.Running = ''Running''"
| "WorkflowStatus_debug WorkflowStatus.Succeeded = ''Succeeded''"
| "WorkflowStatus_debug WorkflowStatus.Failed = ''Failed''"
| "WorkflowStatus_debug WorkflowStatus.Cancelled = ''Cancelled''"
| "WorkflowStatus_debug WorkflowStatus.DeadLettered = ''DeadLettered''"

definition invalid_status ::
    "WorkflowKind \<Rightarrow> WorkflowRuntimeState \<Rightarrow> WorkflowTransitionError" where
  "invalid_status kind state = InvalidTransition
     (''workflow='' @ WorkflowKind_as_str kind @ '' stage='' @ rs_stage state @
      '' status='' @ WorkflowStatus_debug (rs_status state))"

definition invalid_task_key ::
    "WorkflowKind \<Rightarrow> string \<Rightarrow> string \<Rightarrow> WorkflowTransitionError" where
  "invalid_task_key kind stage task_key = InvalidTransition
     (''workflow='' @ WorkflowKind_as_str kind @ '' stage='' @ stage @
      '' task_key='' @ task_key)"

text \<open>\<open>if let Some(output) = output\<close>: the output of a step is kept in the context.\<close>

definition insert_last_output :: "json option \<Rightarrow> json_map \<Rightarrow> json_map" where
  "insert_last_output output context =
     (case output of None \<Rightarrow> context | Some v \<Rightarrow> map_insert ''last_output'' v context)"

section \<open>Linear workflows\<close>

record LinearWorkflowDefinition =
  lin_kind :: WorkflowKind
  lin_summary :: string
  lin_queue :: string
  lin_task_key :: string
  lin_success_stage :: string
  lin_next_step :: "WorkflowStepSpec option"

definition linear_pending_state ::
    "LinearWorkflowDefinition \<Rightarrow> WorkflowExecutionId \<Rightarrow> datetime \<Rightarrow> WorkflowRuntimeState" where
  "linear_pending_state self execution_id now =
     (let context = map_insert ''task_key'' (JString (lin_task_key self))
            (map_insert ''queue'' (JString (lin_queue self)) [])
      in \<lparr>rs_execution_id = execution_id, rs_kind = lin_kind self, rs_version = ''0.1.0'',
          rs_stage = ''queued'', rs_status = WorkflowStatus.Pending, rs_retries_remaining = 3,
          rs_context = context, rs_updated_at = now\<rparr>)"

definition linear_payload :: "LinearWorkflowDefinition \<Rightarrow> WorkflowRuntimeState \<Rightarrow> json" where
  "linear_payload self state = JObject (json_object
     [(''execution_id'', json_uuid (rs_execution_id state)),
      (''kind'', JString (WorkflowKind_as_str (lin_kind self)))])"

fun linear_transition ::
    "LinearWorkflowDefinition \<Rightarrow> WorkflowRuntimeState \<Rightarrow> WorkflowSignal \<Rightarrow> datetime \<Rightarrow>
     (WorkflowTransition, WorkflowTransitionError) result" where
  "linear_transition self state WorkflowSignal.Start now =
     (if rs_status state = WorkflowStatus.Pending then
        Ok \<lparr>next_state = state\<lparr>rs_stage := lin_task_key self,
              rs_status := WorkflowStatus.Running, rs_updated_at := now\<rparr>,
            persisted_event = workflow_event ''workflow.started'' (json_object
              [(''task_key'', JString (lin_task_key self)),
               (''queue'', JString (lin_queue self))]) now,
            enqueued_tasks = [\<lparr>tr_queue = lin_queue self, tr_task_key = lin_task_key self,
              tr_payload = linear_payload self state\<rparr>]\<rparr>
      else Err (invalid_status (lin_kind self) state))"
| "linear_transition self state (WorkflowSignal.StepCompleted task_key output) now =
     (if rs_status state = WorkflowStatus.Running then
        if rs_stage state = lin_task_key self \<and> task_key = lin_task_key self then
          (case lin_next_step self of
             Some next_step \<Rightarrow>
               Ok \<lparr>next_state = state\<lparr>rs_stage := step_task_key next_step,
                     rs_status := WorkflowStatus.Running, rs_updated_at := now,
                     rs_context := insert_last_output output (rs_context state)\<rparr>,
                   persisted_event = workflow_event ''workflow.step_completed''
                     (json_object [(''task_key'', JString task_key)]) now,
                   enqueued_tasks = [\<lparr>tr_queue = step_queue next_step,
                     tr_task_key = step_task_key next_step,
                     tr_payload = linear_payload self state\<rparr>]\<rparr>
           | None \<Rightarrow>
               Ok \<lparr>next_state = state\<lparr>rs_stage := lin_success_stage self,
                     rs_status := WorkflowStatus.Succeeded, rs_updated_at := now,
                     rs_context := insert_last_output output (rs_context state)\<rparr>,
                   persisted_event = workflow_event ''workflow.step_completed''
                     (json_object [(''task_key'', JString task_key)]) now,
                   enqueued_tasks = []\<rparr>)
        else if (case lin_next_step self of
                   Some step \<Rightarrow> rs_stage state = step_task_key step \<and> task_key = step_task_key step
                 | None \<Rightarrow> False) then
          Ok \<lparr>next_state = state\<lparr>rs_stage := lin_success_stage self,
                rs_status := WorkflowStatus.Succeeded, rs_updated_at := now,
                rs_context := insert_last_output output (rs_context state)\<rparr>,
              persisted_event = workflow_event ''workflow.step_completed''
                (json_object [(''task_key'', JString task_key)]) now,
              enqueued_tasks = []\<rparr>
        else Err (invalid_task_key (lin_kind self) (rs_stage state) task_key)
      else Err (invalid_status (lin_kind self) state))"
| "linear_transition self state (WorkflowSignal.StepFailed task_key error) now =
     (if rs_status state = WorkflowStatus.Running then
        Ok \<lparr>next_state = state\<lparr>rs_stage := task_key @ '':failed'',
              rs_status := WorkflowStatus.Failed, rs_updated_at := now,
              rs_context := map_insert ''last_error'' (JString error) (rs_context state)\<rparr>,
            persisted_event = workflow_event ''workflow.step_failed'' (json_object
              [(''task_key'', JString task_key), (''error'', JString error)]) now,
            enqueued_tasks = []\<rparr>
      else Err (invalid_status (lin_kind self) state))"
| "linear_transition self state (WorkflowSignal.RetryRequested reason) now =
     (if rs_status state = WorkflowStatus.Failed then
        if rs_retries_remaining state = 0 then
          Ok \<lparr>next_state = state\<lparr>rs_stage := ''dead_lettered'',
                rs_status := WorkflowStatus.DeadLettered, rs_updated_at := now\<rparr>,
              persisted_event = workflow_event ''workflow.dead_lettered''
                (json_object [(''reason'', JString reason)]) now,
              enqueued_tasks = []\<rparr>
        else
          Ok \<lparr>next_state = state\<lparr>rs_stage := ''queued'',
                rs_status := WorkflowStatus.Pending,
                rs_retries_remaining := rs_retries_remaining state - 1, rs_updated_at := now,
                rs_context := map_insert ''retry_reason'' (JString reason) (rs_context state)\<rparr>,
              persisted_event = workflow_event ''workflow.retry_requested''
                (json_object [(''reason'', JString reason)]) now,
              enqueued_tasks = []\<rparr>
      else Err (invalid_status (lin_kind self) state))"
| "linear_transition self state (WorkflowSignal.CancelRequested reason) now =
     Ok \<lparr>next_state = state\<lparr>rs_stage := ''cancelled'',
           rs_status := WorkflowStatus.Cancelled, rs_updated_at := now,
           rs_context := map_insert ''cancel_reason'' (JString reason) (rs_context state)\<rparr>,
         persisted_event = workflow_event ''workflow.cancel_requested''
           (json_object [(''reason'', JString reason)]) now,
         enqueued_tasks = []\<rparr>"
| "linear_transition self state (WorkflowSignal.PublishRequested note) now = Err UnsupportedSignal"

definition linear_definition :: "LinearWorkflowDefinition \<Rightarrow> WorkflowDefinition" where
  "linear_definition self =
     \<lparr>wd_kind = lin_kind self, wd_version = ''0.1.0'', wd_summary = lin_summary self,
      wd_accepted_signals = STANDARD_SIGNALS,
      wd_initial_state = linear_pending_state self,
      wd_transition = linear_transition self\<rparr>"

section \<open>External source synchronisation\<close>

record ExternalSourceSyncStep =
  ess_stage :: string
  ess_queue :: string
  ess_task_key :: string

definition EXTERNAL_SOURCE_SYNC_STEPS :: "ExternalSourceSyncStep list" where
  "EXTERNAL_SOURCE_SYNC_STEPS =
     [\<lparr>ess_stage = ''sync_users'', ess_queue = ''external_source'',
       ess_task_key = ''sync_external_users''\<rparr>,
      \<lparr>ess_stage = ''sync_acl'', ess_queue = ''external_source'',
       ess_task_key = ''sync_external_acl''\<rparr>,
      \<lparr>ess_stage = ''sync_metadata'', ess_queue = ''external_source'',
       ess_task_key = ''sync_external_metadata''\<rparr>,
      \<lparr>ess_stage = ''fetch_content'', ess_queue = ''external_source'',
       ess_task_key = ''fetch_external_content''\<rparr>,
      \<lparr>ess_stage = ''ingest'', ess_queue = ''ingest'',
       ess_task_key = ''ingest_external_content''\<rparr>,
      \<lparr>ess_stage = ''index'', ess_queue = ''retrieval'',
       ess_task_key = ''index_external_retrieval''\<rparr>]"

definition external_first_step :: ExternalSourceSyncStep where
  "external_first_step = hd EXTERNAL_SOURCE_SYNC_STEPS"

definition external_pending_state ::
    "WorkflowExecutionId \<Rightarrow> datetime \<Rightarrow> WorkflowRuntimeState" where
  "external_pending_state execution_id now =
     (let context = json_object
            [(''queue'', JString (ess_queue external_first_step)),
             (''task_key'', JString (ess_task_key external_first_step)),
             (''states'', JArray (map JString
                [''sync_users'', ''sync_acl'', ''sync_metadata'', ''fetch_content'', ''ingest'',
                 ''index'', ''completed'', ''failed''])),
             (''permission_boundary'', JString ''attach_external_acl_snapshot_before_index'')]
      in \<lparr>rs_execution_id = execution_id, rs_kind = WorkflowKind.ExternalSourceSync,
          rs_version = ''0.1.0'', rs_stage = ''queued'', rs_status = WorkflowStatus.Pending,
          rs_retries_remaining = 3, rs_context = context, rs_updated_at = now\<rparr>)"

datatype ExternalSourceSyncStageOutcome = Next ExternalSourceSyncStep | Completed

definition external_stage_after_completed_task ::
    "string \<Rightarrow> string \<Rightarrow> (ExternalSourceSyncStageOutcome, WorkflowTransitionError) result" where
  "external_stage_after_completed_task current_stage task_key =
     (case position (\<lambda>step. ess_stage step = current_stage \<and> ess_task_key step = task_key)
             EXTERNAL_SOURCE_SYNC_STEPS of
        None \<Rightarrow> Err (invalid_task_key WorkflowKind.ExternalSourceSync current_stage task_key)
      | Some index \<Rightarrow>
          if index + 1 < length EXTERNAL_SOURCE_SYNC_STEPS
          then Ok (Next (EXTERNAL_SOURCE_SYNC_STEPS ! (index + 1)))
          else Ok Completed)"

definition external_copied_keys :: "string list" where
  "external_copied_keys =
     [''source_id'', ''external_sync_run_id'', ''sync_kind'', ''dataset_id'', ''connector_kind'',
      ''sync_mode'', ''permission_mode'']"

definition external_task_request ::
    "WorkflowRuntimeState \<Rightarrow> ExternalSourceSyncStep \<Rightarrow> WorkflowTaskRequest" where
  "external_task_request state step =
     (let payload = json_object
            [(''execution_id'', json_uuid (rs_execution_id state)),
             (''kind'', JString (WorkflowKind_as_str WorkflowKind.ExternalSourceSync)),
             (''stage'', JString (ess_stage step))];
          payload = fold (\<lambda>key m. case map_of (rs_context state) key of
               None \<Rightarrow> m | Some value \<Rightarrow> map_insert key value m) external_copied_keys payload
      in \<lparr>tr_queue = ess_queue step, tr_task_key = ess_task_key step,
          tr_payload = JObject payload\<rparr>)"

fun external_transition ::
    "WorkflowRuntimeState \<Rightarrow> WorkflowSignal \<Rightarrow> datetime \<Rightarrow>
     (WorkflowTransition, WorkflowTransitionError) result" where
  "external_transition state WorkflowSignal.Start now =
     (if rs_status state = WorkflowStatus.Pending then
        Ok \<lparr>next_state = state\<lparr>rs_stage := ess_stage external_first_step,
              rs_status := WorkflowStatus.Running, rs_updated_at := now\<rparr>,
            persisted_event = workflow_event ''workflow.started'' (json_object
              [(''task_key'', JString (ess_task_key external_first_step)),
               (''queue'', JString (ess_queue external_first_step))]) now,
            enqueued_tasks = [external_task_request state external_first_step]\<rparr>
      else Err (invalid_status WorkflowKind.ExternalSourceSync state))"
| "external_transition state (WorkflowSignal.StepCompleted task_key output) now =
     (if rs_status state = WorkflowStatus.Running then
        and_then (external_stage_after_completed_task (rs_stage state) task_key) (\<lambda>outcome.
          case outcome of
            Next next_step \<Rightarrow>
              Ok \<lparr>next_state = state\<lparr>rs_stage := ess_stage next_step,
                    rs_status := WorkflowStatus.Running, rs_updated_at := now,
                    rs_context := insert_last_output output (rs_context state)\<rparr>,
                  persisted_event = workflow_event ''workflow.step_completed'' (json_object
                    [(''task_key'', JString task_key),
                     (''next_stage'', JString (ess_stage next_step))]) now,
                  enqueued_tasks = [external_task_request state next_step]\<rparr>
          | Completed \<Rightarrow>
              Ok \<lparr>next_state = state\<lparr>rs_stage := ''completed'',
                    rs_status := WorkflowStatus.Succeeded, rs_updated_at := now,
                    rs_context := insert_last_output output (rs_context state)\<rparr>,
                  persisted_event = workflow_event ''workflow.completed''
                    (json_object [(''task_key'', JString task_key)]) now,
                  enqueued_tasks = []\<rparr>)
      else Err (invalid_status WorkflowKind.ExternalSourceSync state))"
| "external_transition state (WorkflowSignal.StepFailed task_key error) now =
     (if rs_status state = WorkflowStatus.Running then
        Ok \<lparr>next_state = state\<lparr>rs_stage := ''failed'',
              rs_status := WorkflowStatus.Failed, rs_updated_at := now,
              rs_context := map_insert ''failed_task_key'' (JString task_key)
                (map_insert ''last_error'' (JString error) (rs_context state))\<rparr>,
            persisted_event = workflow_event ''workflow.step_failed'' (json_object
              [(''task_key'', JString task_key), (''error'', JString error)]) now,
            enqueued_tasks = []\<rparr>
      else Err (invalid_status WorkflowKind.ExternalSourceSync state))"
| "external_transition state (WorkflowSignal.RetryRequested reason) now =
     (if rs_status state = WorkflowStatus.Failed then
        if rs_retries_remaining state = 0 then
          Ok \<lparr>next_state = state\<lparr>rs_stage := ''dead_lettered'',
                rs_status := WorkflowStatus.DeadLettered, rs_updated_at := now\<rparr>,
              persisted_event = workflow_event ''workflow.dead_lettered''
                (json_object [(''reason'', JString reason)]) now,
              enqueued_tasks = []\<rparr>
        else
          Ok \<lparr>next_state = state\<lparr>rs_stage := ''queued'',
                rs_status := WorkflowStatus.Pending,
                rs_retries_remaining := rs_retries_remaining state - 1, rs_updated_at := now,
                rs_context := map_insert ''retry_reason'' (JString reason) (rs_context state)\<rparr>,
              persisted_event = workflow_event ''workflow.retry_requested''
                (json_object [(''reason'', JString reason)]) now,
              enqueued_tasks = []\<rparr>
      else Err (invalid_status WorkflowKind.ExternalSourceSync state))"
| "external_transition state (WorkflowSignal.CancelRequested reason) now =
     Ok \<lparr>next_state = state\<lparr>rs_stage := ''cancelled'',
           rs_status := WorkflowStatus.Cancelled, rs_updated_at := now,
           rs_context := map_insert ''cancel_reason'' (JString reason) (rs_context state)\<rparr>,
         persisted_event = workflow_event ''workflow.cancel_requested''
           (json_object [(''reason'', JString reason)]) now,
         enqueued_tasks = []\<rparr>"
| "external_transition state (WorkflowSignal.PublishRequested note) now = Err UnsupportedSignal"

definition external_definition :: WorkflowDefinition where
  "external_definition =
     \<lparr>wd_kind = WorkflowKind.ExternalSourceSync, wd_version = ''0.1.0'',
      wd_summary = ''Sync third-party users, ACLs, metadata, content, ingest output, '' @
        ''and retrieval indexes.'',
      wd_accepted_signals = STANDARD_SIGNALS,
      wd_initial_state = external_pending_state,
      wd_transition = external_transition\<rparr>"

section \<open>Video extraction\<close>

definition video_pending_state ::
    "WorkflowExecutionId \<Rightarrow> datetime \<Rightarrow> WorkflowRuntimeState" where
  "video_pending_state execution_id now =
     (let context = json_object
            [(''queue'', JString ''media''),
             (''task_key'', JString ''resolve_video_source''),
             (''states'', JArray (map JString
                [''resolving_source'', ''registered'', ''parsing'', ''extracting_ppt'',
                 ''completed'', ''failed'', ''unsupported_source'']))]
      in \<lparr>rs_execution_id = execution_id, rs_kind = WorkflowKind.VideoExtraction,
          rs_version = ''0.1.0'', rs_stage = ''queued'', rs_status = WorkflowStatus.Pending,
          rs_retries_remaining = 3, rs_context = context, rs_updated_at = now\<rparr>)"

definition video_next_task_for_stage :: "string \<Rightarrow> WorkflowStepSpec option" where
  "video_next_task_for_stage stage =
     (if stage = ''registered'' then
        Some \<lparr>step_queue = ''media'', step_task_key = ''register_video_asset''\<rparr>
      else if stage = ''parsing'' then
        Some \<lparr>step_queue = ''ingest'', step_task_key = ''parse_video_media''\<rparr>
      else if stage = ''extracting_ppt'' then
        Some \<lparr>step_queue = ''media'', step_task_key = ''extract_video_ppt''\<rparr>
      else None)"

datatype VideoExtractionStageOutcome =
    VideoNext string | VideoCompleted | UnsupportedSource

definition video_extraction_output_is_unsupported :: "json option \<Rightarrow> bool" where
  "video_extraction_output_is_unsupported output =
     (case output of
        None \<Rightarrow> False
      | Some value \<Rightarrow>
          Option.bind (json_get value ''status'') json_as_str = Some ''unsupported_source'' \<or>
          Option.bind (json_get value ''reason'') json_as_str = Some ''unsupported_source'' \<or>
          (case Option.bind (json_get value ''unsupported_source'') json_as_bool of
             Some b \<Rightarrow> b | None \<Rightarrow> False))"

definition video_stage_after_completed_task ::
    "string \<Rightarrow> string \<Rightarrow> json option \<Rightarrow>
     (VideoExtractionStageOutcome, WorkflowTransitionError) result" where
  "video_stage_after_completed_task current_stage task_key output =
     (if video_extraction_output_is_unsupported output then Ok UnsupportedSource
      else if current_stage = ''resolving_source'' \<and> task_key = ''resolve_video_source''
      then Ok (VideoNext ''registered'')
      else if current_stage = ''registered'' \<and> task_key = ''register_video_asset''
      then Ok (VideoNext ''parsing'')
      else if current_stage = ''parsing'' \<and> task_key = ''parse_video_media''
      then Ok (VideoNext ''extracting_ppt'')
      else if current_stage = ''extracting_ppt'' \<and> task_key = ''extract_video_ppt''
      then Ok VideoCompleted
      else Err (invalid_task_key WorkflowKind.VideoExtraction current_stage task_key))"

definition video_payload :: "WorkflowRuntimeState \<Rightarrow> string \<Rightarrow> json" where
  "video_payload state stage = JObject (json_object
     [(''execution_id'', json_uuid (rs_execution_id state)),
      (''kind'', JString (WorkflowKind_as_str WorkflowKind.VideoExtraction)),
      (''stage'', JString stage)])"

fun video_transition ::
    "WorkflowRuntimeState \<Rightarrow> WorkflowSignal \<Rightarrow> datetime \<Rightarrow>
     (WorkflowTransition, WorkflowTransitionError) result" where
  "video_transition state WorkflowSignal.Start now =
     (if rs_status state = WorkflowStatus.Pending then
        Ok \<lparr>next_state = state\<lparr>rs_stage := ''resolving_source'',
              rs_status := WorkflowStatus.Running, rs_updated_at := now\<rparr>,
            persisted_event = workflow_event ''workflow.started'' (json_object
              [(''task_key'', JString ''resolve_video_source''), (''queue'', JString ''media'')])
              now,
            enqueued_tasks = [\<lparr>tr_queue = ''media'', tr_task_key = ''resolve_video_source'',
              tr_payload = video_payload state ''resolving_source''\<rparr>]\<rparr>
      else Err (invalid_status WorkflowKind.VideoExtraction state))"
| "video_transition state (WorkflowSignal.StepCompleted task_key output) now =
     (if rs_status state = WorkflowStatus.Running then
        and_then (video_stage_after_completed_task (rs_stage state) task_key output) (\<lambda>outcome.
          let context = insert_last_output output (rs_context state) in
          case outcome of
            VideoNext next_stage \<Rightarrow>
              and_then (ok_or (InvalidTransition
                  (''missing video extraction task for stage '' @ next_stage))
                (video_next_task_for_stage next_stage)) (\<lambda>next_task.
              Ok \<lparr>next_state = state\<lparr>rs_stage := next_stage,
                    rs_status := WorkflowStatus.Running, rs_updated_at := now,
                    rs_context := context\<rparr>,
                  persisted_event = workflow_event ''workflow.step_completed'' (json_object
                    [(''task_key'', JString task_key), (''next_stage'', JString next_stage)]) now,
                  enqueued_tasks = [\<lparr>tr_queue = step_queue next_task,
                    tr_task_key = step_task_key next_task,
                    tr_payload = video_payload state next_stage\<rparr>]\<rparr>)
          | VideoCompleted \<Rightarrow>
              Ok \<lparr>next_state = state\<lparr>rs_stage := ''completed'',
                    rs_status := WorkflowStatus.Succeeded, rs_updated_at := now,
                    rs_context := context\<rparr>,
                  persisted_event = workflow_event ''workflow.completed''
                    (json_object [(''task_key'', JString task_key)]) now,
                  enqueued_tasks = []\<rparr>
          | UnsupportedSource \<Rightarrow>
              Ok \<lparr>next_state = state\<lparr>rs_stage := ''unsupported_source'',
                    rs_status := WorkflowStatus.Failed, rs_updated_at := now,
                    rs_context := context\<rparr>,
                  persisted_event = workflow_event ''workflow.unsupported_source''
                    (json_object [(''task_key'', JString task_key)]) now,
                  enqueued_tasks = []\<rparr>)
      else Err (invalid_status WorkflowKind.VideoExtraction state))"
| "video_transition state (WorkflowSignal.StepFailed task_key error) now =
     (if rs_status state = WorkflowStatus.Running then
        Ok \<lparr>next_state = state\<lparr>
              rs_stage := (if error = ''unsupported_source'' then ''unsupported_source''
                           else ''failed''),
              rs_status := WorkflowStatus.Failed, rs_updated_at := now,
              rs_context := map_insert ''failed_task_key'' (JString task_key)
                (map_insert ''last_error'' (JString error) (rs_context state))\<rparr>,
            persisted_event = workflow_event ''workflow.step_failed'' (json_object
              [(''task_key'', JString task_key), (''error'', JString error)]) now,
            enqueued_tasks = []\<rparr>
      else Err (invalid_status WorkflowKind.VideoExtraction state))"
| "video_transition state (WorkflowSignal.RetryRequested reason) now =
     (if rs_status state = WorkflowStatus.Failed then
        if rs_retries_remaining state = 0 then
          Ok \<lparr>next_state = state\<lparr>rs_stage := ''dead_lettered'',
                rs_status := WorkflowStatus.DeadLettered, rs_updated_at := now\<rparr>,
              persisted_event = workflow_event ''workflow.dead_lettered''
                (json_object [(''reason'', JString reason)]) now,
              enqueued_tasks = []\<rparr>
        else
          (let pending = video_pending_state (rs_execution_id state) now in
           Ok \<lparr>next_state = pending\<lparr>
                 rs_retries_remaining := rs_retries_remaining state - 1,
                 rs_context := map_insert ''retry_reason'' (JString reason) (rs_context pending)\<rparr>,
               persisted_event = workflow_event ''workflow.retry_requested''
                 (json_object [(''reason'', JString reason)]) now,
               enqueued_tasks = []\<rparr>)
      else Err (invalid_status WorkflowKind.VideoExtraction state))"
| "video_transition state (WorkflowSignal.CancelRequested reason) now =
     Ok \<lparr>next_state = state\<lparr>rs_stage := ''cancelled'',
           rs_status := WorkflowStatus.Cancelled, rs_updated_at := now,
           rs_context := map_insert ''cancel_reason'' (JString reason) (rs_context state)\<rparr>,
         persisted_event = workflow_event ''workflow.cancel_requested''
           (json_object [(''reason'', JString reason)]) now,
         enqueued_tasks = []\<rparr>"
| "video_transition state (WorkflowSignal.PublishRequested note) now = Err UnsupportedSignal"

definition video_definition :: WorkflowDefinition where
  "video_definition =
     \<lparr>wd_kind = WorkflowKind.VideoExtraction, wd_version = ''0.1.0'',
      wd_summary = ''Resolve video sources, parse media evidence, and extract '' @
        ''PPT/transcript deliverables.'',
      wd_accepted_signals = STANDARD_SIGNALS,
      wd_initial_state = video_pending_state,
      wd_transition = video_transition\<rparr>"

section \<open>The registry\<close>

definition linear_registry :: "LinearWorkflowDefinition list" where
  "linear_registry =
     [\<lparr>lin_kind = WorkflowKind.ChatSession,
        lin_summary = ''Drive multi-turn chat session orchestration with tool '' @
          ''traces and scoped recall.'',
        lin_queue = ''chat_session'', lin_task_key = ''orchestrate_chat_session'',
        lin_success_stage = ''chat_session_completed'',
        lin_next_step = None\<rparr>,
      \<lparr>lin_kind = WorkflowKind.DatasetOutput,
        lin_summary = ''Produce dataset-scoped output artifacts and persistent '' @
          ''conversation answers.'',
        lin_queue = ''dataset_output'', lin_task_key = ''produce_dataset_output'',
        lin_success_stage = ''dataset_output_completed'',
        lin_next_step = None\<rparr>,
      \<lparr>lin_kind = WorkflowKind.MemoryDirectory,
        lin_summary = ''Refresh long-term memory directories and evidence indices.'',
        lin_queue = ''memory'', lin_task_key = ''refresh_memory_directory'',
        lin_success_stage = ''memory_directory_completed'',
        lin_next_step = None\<rparr>,
      \<lparr>lin_kind = WorkflowKind.UploadIngest,
        lin_summary = ''Receive documents, extract structure, chunk content, and '' @
          ''attach scope bindings.'',
        lin_queue = ''ingest'', lin_task_key = ''ingest_uploaded_document'',
        lin_success_stage = ''upload_ingest_completed'',
        lin_next_step = Some \<lparr>step_queue = ''retrieval'',
          step_task_key = ''index_retrieval_artifacts''\<rparr>\<rparr>,
      \<lparr>lin_kind = WorkflowKind.ReportPlan,
        lin_summary = ''Produce report plan AST and editable module graph drafts '' @
          ''from dataset context.'',
        lin_queue = ''report'', lin_task_key = ''plan_report_ast'',
        lin_success_stage = ''report_plan_completed'',
        lin_next_step = None\<rparr>,
      \<lparr>lin_kind = WorkflowKind.ReportRender,
        lin_summary = ''Render report plans into publishable PC and mobile assets.'',
        lin_queue = ''report'', lin_task_key = ''render_report_plan'',
        lin_success_stage = ''report_render_completed'',
        lin_next_step = None\<rparr>,
      \<lparr>lin_kind = WorkflowKind.StaticPageImageGeneration,
        lin_summary = ''Generate static-page visual preview images through the '' @
          ''Codex orchestrator.'',
        lin_queue = ''static_page'', lin_task_key = ''generate_static_page_image'',
        lin_success_stage = ''static_page_image_generated'',
        lin_next_step = None\<rparr>,
      \<lparr>lin_kind = WorkflowKind.StaticPageRender,
        lin_summary = ''Render confirmed static-page drafts into durable HTML and '' @
          ''asset manifests.'',
        lin_queue = ''static_page'', lin_task_key = ''render_static_page'',
        lin_success_stage = ''static_page_render_completed'',
        lin_next_step = None\<rparr>,
      \<lparr>lin_kind = WorkflowKind.CodexHostTask,
        lin_summary = ''Queue a DataMax-audited external Codex Host task with '' @
          ''isolated task memory.'',
        lin_queue = ''codex_host'', lin_task_key = ''run_codex_host_task'',
        lin_success_stage = ''codex_host_task_completed'',
        lin_next_step = None\<rparr>,
      \<lparr>lin_kind = WorkflowKind.AssistantRunModelCompletion,
        lin_summary = ''Consume queued AssistantRun model-completion turn dispatch '' @
          ''requests.'',
        lin_queue = ''assistant_run'', lin_task_key = ''consume_model_completion_turn'',
        lin_success_stage = ''assistant_run_model_completion_consumed'',
        lin_next_step = None\<rparr>,
      \<lparr>lin_kind = WorkflowKind.ExternalActionDispatch,
        lin_summary = ''Dispatch validated external action runs through a retryable '' @
          ''worker queue.'',
        lin_queue = ''external_action'', lin_task_key = ''dispatch_external_action'',
        lin_success_stage = ''external_action_dispatched'',
        lin_next_step = None\<rparr>]"

definition registry :: "WorkflowDefinition list" where
  "registry = map linear_definition linear_registry @ [external_definition, video_definition]"

definition catalog :: WorkflowCatalog where
  "catalog = WorkflowCatalog_new registry"

section \<open>The definitions keep the contract\<close>

lemma unat_retry: "w \<noteq> 0 \<Longrightarrow> unat (w :: 32 word) = Suc (unat (w - 1))"
  by (simp add: unat_minus_one unat_gt_0)

text \<open>The retry branch in the form of the life cycle.\<close>

lemma lifecycle_retryI:
  "w \<noteq> 0 \<Longrightarrow> lifecycle WorkflowStatus.Failed (unat (w :: 32 word))
     (WorkflowSignal.RetryRequested r) WorkflowStatus.Pending (unat (w - 1))"
  unfolding unat_retry by (rule lifecycle.retries)

lemma lifecycle_advanceI [simp]:
  "lifecycle WorkflowStatus.Running n (WorkflowSignal.StepCompleted k out) WorkflowStatus.Running n"
  "lifecycle WorkflowStatus.Running n (WorkflowSignal.StepCompleted k out) WorkflowStatus.Succeeded n"
  "lifecycle WorkflowStatus.Running n (WorkflowSignal.StepCompleted k out) WorkflowStatus.Failed n"
  by (simp_all add: lifecycle.advances)

lemmas lifecycle_intros =
  lifecycle.starts lifecycle_advanceI lifecycle.fails lifecycle.cancels lifecycle.buries
  lifecycle_retryI

lemma insert_last_output_wf [simp]:
  "context_wf m \<Longrightarrow> context_wf (insert_last_output out m)"
  by (simp add: insert_last_output_def split: option.splits)

lemma linear_simps [transition_simps]:
  "wd_kind (linear_definition self) = lin_kind self"
  "wd_initial_state (linear_definition self) = linear_pending_state self"
  "wd_transition (linear_definition self) = linear_transition self"
  by (simp_all add: linear_definition_def)

lemma external_simps [transition_simps]:
  "wd_kind external_definition = WorkflowKind.ExternalSourceSync"
  "wd_initial_state external_definition = external_pending_state"
  "wd_transition external_definition = external_transition"
  by (simp_all add: external_definition_def)

lemma video_simps [transition_simps]:
  "wd_kind video_definition = WorkflowKind.VideoExtraction"
  "wd_initial_state video_definition = video_pending_state"
  "wd_transition video_definition = video_transition"
  by (simp_all add: video_definition_def)

interpretation linear: workflow_definition "linear_definition self" for self
proof
  fix s sig now t
  assume "wd_transition (linear_definition self) s sig now = Ok t"
  then have *: "linear_transition self s sig now = Ok t"
    by (simp add: transition_simps)
  show "lifecycle (rs_status s) (unat (rs_retries_remaining s)) sig
      (rs_status (next_state t)) (unat (rs_retries_remaining (next_state t)))"
    using * by (cases sig) (auto split: if_splits option.splits intro: lifecycle_intros)
  show "rs_execution_id (next_state t) = rs_execution_id s"
    using * by (cases sig) (auto split: if_splits option.splits)
  show "length (enqueued_tasks t) =
      (if rs_status (next_state t) = WorkflowStatus.Running then 1 else 0)"
    using * by (cases sig) (auto split: if_splits option.splits)
  show "rs_updated_at (next_state t) = now \<and> wev_occurred_at (persisted_event t) = now"
    using * by (cases sig) (auto simp: workflow_event_def split: if_splits option.splits)
  show "context_wf (rs_context s) \<Longrightarrow> context_wf (rs_context (next_state t))"
    using * by (cases sig) (auto split: if_splits option.splits)
  assume "rs_kind s = wd_kind (linear_definition self)"
  with * show "rs_kind (next_state t) = wd_kind (linear_definition self)"
    by (cases sig) (auto split: if_splits option.splits)
qed (simp_all add: transition_simps linear_pending_state_def)

lemma external_first_step_simps [simp]:
  "ess_stage external_first_step = ''sync_users''"
  "ess_queue external_first_step = ''external_source''"
  "ess_task_key external_first_step = ''sync_external_users''"
  by (simp_all add: external_first_step_def EXTERNAL_SOURCE_SYNC_STEPS_def)

text \<open>Completing the task of the current stage leads to the step after it.\<close>

lemma external_stage_after_eq_Ok:
  assumes "external_stage_after_completed_task stage key = Ok outcome"
  obtains i where "i < 6"
    and "stage = ess_stage (EXTERNAL_SOURCE_SYNC_STEPS ! i)"
    and "key = ess_task_key (EXTERNAL_SOURCE_SYNC_STEPS ! i)"
    and "outcome = (if i < 5 then Next (EXTERNAL_SOURCE_SYNC_STEPS ! Suc i) else Completed)"
proof -
  have len: "length EXTERNAL_SOURCE_SYNC_STEPS = 6"
    by (simp add: EXTERNAL_SOURCE_SYNC_STEPS_def)
  from assms obtain i where i: "position (\<lambda>step. ess_stage step = stage \<and> ess_task_key step = key)
      EXTERNAL_SOURCE_SYNC_STEPS = Some i"
    and o: "outcome = (if i < 5 then Next (EXTERNAL_SOURCE_SYNC_STEPS ! Suc i) else Completed)"
    by (auto simp: external_stage_after_completed_task_def len split: option.splits if_splits)
  from position_SomeD [OF i] o show thesis
    by (intro that [of i]) (auto simp: len)
qed

definition external_steps :: "(string \<times> string) list" where
  "external_steps = map (\<lambda>step. (ess_stage step, ess_task_key step)) EXTERNAL_SOURCE_SYNC_STEPS"

lemma length_external_steps [simp]: "length EXTERNAL_SOURCE_SYNC_STEPS = 6"
  by (simp add: EXTERNAL_SOURCE_SYNC_STEPS_def)

lemma external_steps_nth:
  "i < 6 \<Longrightarrow> external_steps ! i =
     (ess_stage (EXTERNAL_SOURCE_SYNC_STEPS ! i), ess_task_key (EXTERNAL_SOURCE_SYNC_STEPS ! i))"
  by (simp add: external_steps_def)

interpretation external: pipeline_definition external_definition external_steps
proof
  fix s sig now t
  assume "wd_transition external_definition s sig now = Ok t"
  then have *: "external_transition s sig now = Ok t"
    by (simp add: transition_simps)
  show "lifecycle (rs_status s) (unat (rs_retries_remaining s)) sig
      (rs_status (next_state t)) (unat (rs_retries_remaining (next_state t)))"
    using * by (cases sig)
      (auto elim!: and_then_OkE split: if_split_asm ExternalSourceSyncStageOutcome.split_asm
        intro: lifecycle_intros)
  show "rs_execution_id (next_state t) = rs_execution_id s"
    using * by (cases sig)
      (auto elim!: and_then_OkE split: if_split_asm ExternalSourceSyncStageOutcome.split_asm)
  show "length (enqueued_tasks t) =
      (if rs_status (next_state t) = WorkflowStatus.Running then 1 else 0)"
    using * by (cases sig)
      (auto elim!: and_then_OkE split: if_split_asm ExternalSourceSyncStageOutcome.split_asm)
  show "rs_updated_at (next_state t) = now \<and> wev_occurred_at (persisted_event t) = now"
    using * by (cases sig)
      (auto simp: workflow_event_def elim!: and_then_OkE
        split: if_split_asm ExternalSourceSyncStageOutcome.split_asm)
  show "context_wf (rs_context s) \<Longrightarrow> context_wf (rs_context (next_state t))"
    using * by (cases sig)
      (auto elim!: and_then_OkE split: if_split_asm ExternalSourceSyncStageOutcome.split_asm)
  assume "rs_kind s = wd_kind external_definition"
  with * show "rs_kind (next_state t) = wd_kind external_definition"
    by (cases sig)
      (auto elim!: and_then_OkE split: if_split_asm ExternalSourceSyncStageOutcome.split_asm)
next
  fix s now t
  assume "wd_transition external_definition s WorkflowSignal.Start now = Ok t"
  then show "rs_stage (next_state t) = fst (hd external_steps) \<and>
      map tr_task_key (enqueued_tasks t) = [snd (hd external_steps)]"
    by (auto simp: transition_simps external_task_request_def external_steps_def Let_def
        EXTERNAL_SOURCE_SYNC_STEPS_def split: if_splits)
next
  fix s k out now t
  assume "wd_transition external_definition s (WorkflowSignal.StepCompleted k out) now = Ok t"
    and "rs_status (next_state t) = WorkflowStatus.Running"
  then obtain step where "external_stage_after_completed_task (rs_stage s) k = Ok (Next step)"
    and t: "rs_stage (next_state t) = ess_stage step"
      "map tr_task_key (enqueued_tasks t) = [ess_task_key step]"
    by (auto simp: transition_simps external_task_request_def Let_def elim!: and_then_OkE
        split: if_split_asm ExternalSourceSyncStageOutcome.split_asm)
  then obtain i where "i < 6" "rs_stage s = ess_stage (EXTERNAL_SOURCE_SYNC_STEPS ! i)"
    "k = ess_task_key (EXTERNAL_SOURCE_SYNC_STEPS ! i)"
    "Next step = (if i < 5 then Next (EXTERNAL_SOURCE_SYNC_STEPS ! Suc i) else Completed)"
    by (auto elim: external_stage_after_eq_Ok)
  with t show "\<exists>i. Suc i < length external_steps \<and> external_steps ! i = (rs_stage s, k) \<and>
        rs_stage (next_state t) = fst (external_steps ! Suc i) \<and>
        map tr_task_key (enqueued_tasks t) = [snd (external_steps ! Suc i)]"
    by (intro exI [of _ i]) (auto simp: external_steps_def split: if_splits)
next
  fix s k out now t
  assume "wd_transition external_definition s (WorkflowSignal.StepCompleted k out) now = Ok t"
    and "rs_status (next_state t) = WorkflowStatus.Succeeded"
  then have "external_stage_after_completed_task (rs_stage s) k = Ok Completed"
    by (auto simp: transition_simps elim!: and_then_OkE
        split: if_split_asm ExternalSourceSyncStageOutcome.split_asm)
  then obtain i where i: "i < 6" "rs_stage s = ess_stage (EXTERNAL_SOURCE_SYNC_STEPS ! i)"
    "k = ess_task_key (EXTERNAL_SOURCE_SYNC_STEPS ! i)"
    "Completed = (if i < 5 then Next (EXTERNAL_SOURCE_SYNC_STEPS ! Suc i) else Completed)"
    by (rule external_stage_after_eq_Ok)
  then have "i = 5" by (auto split: if_splits)
  with i show "last external_steps = (rs_stage s, k)"
    by (simp add: external_steps_def EXTERNAL_SOURCE_SYNC_STEPS_def)
next
  show "external_steps \<noteq> []" "distinct (map fst external_steps)"
    by (simp_all add: external_steps_def EXTERNAL_SOURCE_SYNC_STEPS_def)
qed (simp_all add: transition_simps external_pending_state_def)

text \<open>The next task of a video is always defined: the error of a missing one cannot occur.\<close>

lemma video_next_task_defined:
  assumes "video_stage_after_completed_task stage key out = Ok (VideoNext stage')"
  shows "\<exists>step. video_next_task_for_stage stage' = Some step"
  using assms
  by (auto simp: video_stage_after_completed_task_def video_next_task_for_stage_def
      split: if_splits)

definition video_steps :: "(string \<times> string) list" where
  "video_steps =
     [(''resolving_source'', ''resolve_video_source''), (''registered'', ''register_video_asset''),
      (''parsing'', ''parse_video_media''), (''extracting_ppt'', ''extract_video_ppt'')]"

lemma video_stage_after_VideoNext:
  assumes "video_stage_after_completed_task stage key out = Ok (VideoNext stage')"
    and "video_next_task_for_stage stage' = Some step"
  shows "\<exists>i. Suc i < length video_steps \<and> video_steps ! i = (stage, key) \<and>
     video_steps ! Suc i = (stage', step_task_key step)"
proof -
  consider "(stage, key) = video_steps ! 0" "stage' = ''registered''"
    | "(stage, key) = video_steps ! 1" "stage' = ''parsing''"
    | "(stage, key) = video_steps ! 2" "stage' = ''extracting_ppt''"
    using assms(1)
    by (auto simp: video_stage_after_completed_task_def video_steps_def split: if_splits)
  then show ?thesis
  proof cases
    case 1
    with assms(2) show ?thesis
      by (intro exI [of _ 0]) (auto simp: video_steps_def video_next_task_for_stage_def)
  next
    case 2
    with assms(2) show ?thesis
      by (intro exI [of _ 1]) (auto simp: video_steps_def video_next_task_for_stage_def)
  next
    case 3
    with assms(2) show ?thesis
      by (intro exI [of _ 2]) (auto simp: video_steps_def video_next_task_for_stage_def)
  qed
qed

lemma video_pending_context_wf [simp]: "context_wf (rs_context (video_pending_state x now))"
  by (simp add: context_wf_def video_pending_state_def map_of_json_object)

interpretation video: pipeline_definition video_definition video_steps
proof
  fix s sig now t
  assume "wd_transition video_definition s sig now = Ok t"
  then have *: "video_transition s sig now = Ok t"
    by (simp add: transition_simps)
  show "lifecycle (rs_status s) (unat (rs_retries_remaining s)) sig
      (rs_status (next_state t)) (unat (rs_retries_remaining (next_state t)))"
    using * by (cases sig)
      (auto simp: Let_def video_pending_state_def elim!: and_then_OkE intro: lifecycle_intros
        split: if_split_asm VideoExtractionStageOutcome.split_asm)
  show "rs_execution_id (next_state t) = rs_execution_id s"
    using * by (cases sig)
      (auto simp: Let_def video_pending_state_def elim!: and_then_OkE
        split: if_split_asm VideoExtractionStageOutcome.split_asm)
  show "length (enqueued_tasks t) =
      (if rs_status (next_state t) = WorkflowStatus.Running then 1 else 0)"
    using * by (cases sig)
      (auto simp: Let_def video_pending_state_def elim!: and_then_OkE
        split: if_split_asm VideoExtractionStageOutcome.split_asm)
  show "rs_updated_at (next_state t) = now \<and> wev_occurred_at (persisted_event t) = now"
    using * by (cases sig)
      (auto simp: Let_def workflow_event_def video_pending_state_def elim!: and_then_OkE
        split: if_split_asm VideoExtractionStageOutcome.split_asm)
  show "context_wf (rs_context s) \<Longrightarrow> context_wf (rs_context (next_state t))"
    using * by (cases sig)
      (auto simp: Let_def video_pending_context_wf elim!: and_then_OkE
        split: if_split_asm VideoExtractionStageOutcome.split_asm)
  assume "rs_kind s = wd_kind video_definition"
  with * show "rs_kind (next_state t) = wd_kind video_definition"
    by (cases sig)
      (auto simp: Let_def transition_simps video_pending_state_def elim!: and_then_OkE
        split: if_split_asm VideoExtractionStageOutcome.split_asm)
next
  fix s now t
  assume "wd_transition video_definition s WorkflowSignal.Start now = Ok t"
  then show "rs_stage (next_state t) = fst (hd video_steps) \<and>
      map tr_task_key (enqueued_tasks t) = [snd (hd video_steps)]"
    by (auto simp: transition_simps video_steps_def split: if_splits)
next
  fix s k out now t
  assume "wd_transition video_definition s (WorkflowSignal.StepCompleted k out) now = Ok t"
    and "rs_status (next_state t) = WorkflowStatus.Running"
  then obtain stage' step where
    "video_stage_after_completed_task (rs_stage s) k out = Ok (VideoNext stage')"
    "video_next_task_for_stage stage' = Some step"
    and t: "rs_stage (next_state t) = stage'"
      "map tr_task_key (enqueued_tasks t) = [step_task_key step]"
    by (auto simp: transition_simps Let_def ok_or_eq_Ok elim!: and_then_OkE
        split: if_split_asm VideoExtractionStageOutcome.split_asm)
  then show "\<exists>i. Suc i < length video_steps \<and> video_steps ! i = (rs_stage s, k) \<and>
        rs_stage (next_state t) = fst (video_steps ! Suc i) \<and>
        map tr_task_key (enqueued_tasks t) = [snd (video_steps ! Suc i)]"
    using video_stage_after_VideoNext by fastforce
next
  fix s k out now t
  assume "wd_transition video_definition s (WorkflowSignal.StepCompleted k out) now = Ok t"
    and "rs_status (next_state t) = WorkflowStatus.Succeeded"
  then have "video_stage_after_completed_task (rs_stage s) k out = Ok VideoCompleted"
    by (auto simp: transition_simps Let_def elim!: and_then_OkE
        split: if_split_asm VideoExtractionStageOutcome.split_asm)
  then show "last video_steps = (rs_stage s, k)"
    by (auto simp: video_stage_after_completed_task_def video_steps_def split: if_splits)
next
  show "video_steps \<noteq> []" "distinct (map fst video_steps)"
    by (simp_all add: video_steps_def)
qed (simp_all add: transition_simps video_pending_state_def)

text \<open>A linear definition is staged when its second step has a task key of its own; the linear
  definitions of the registry have.\<close>

definition distinct_steps :: "LinearWorkflowDefinition \<Rightarrow> bool" where
  "distinct_steps self \<longleftrightarrow>
     (case lin_next_step self of None \<Rightarrow> True | Some st \<Rightarrow> step_task_key st \<noteq> lin_task_key self)"

definition linear_steps :: "LinearWorkflowDefinition \<Rightarrow> (string \<times> string) list" where
  "linear_steps self = (lin_task_key self, lin_task_key self) #
     (case lin_next_step self of None \<Rightarrow> [] | Some st \<Rightarrow> [(step_task_key st, step_task_key st)])"

lemma linear_pipeline:
  assumes "distinct_steps self"
  shows "pipeline_definition (linear_definition self) (linear_steps self)"
proof
  fix s now t
  assume "wd_transition (linear_definition self) s WorkflowSignal.Start now = Ok t"
  then show "rs_stage (next_state t) = fst (hd (linear_steps self)) \<and>
      map tr_task_key (enqueued_tasks t) = [snd (hd (linear_steps self))]"
    by (auto simp: transition_simps linear_steps_def split: if_splits)
next
  fix s k out now t
  assume "wd_transition (linear_definition self) s (WorkflowSignal.StepCompleted k out) now = Ok t"
    and "rs_status (next_state t) = WorkflowStatus.Running"
  then show "\<exists>i. Suc i < length (linear_steps self) \<and> linear_steps self ! i = (rs_stage s, k) \<and>
        rs_stage (next_state t) = fst (linear_steps self ! Suc i) \<and>
        map tr_task_key (enqueued_tasks t) = [snd (linear_steps self ! Suc i)]"
    by (intro exI [of _ 0])
      (auto simp: transition_simps linear_steps_def split: if_splits option.splits)
next
  fix s k out now t
  assume "wd_transition (linear_definition self) s (WorkflowSignal.StepCompleted k out) now = Ok t"
    and "rs_status (next_state t) = WorkflowStatus.Succeeded"
  then show "last (linear_steps self) = (rs_stage s, k)"
    by (auto simp: transition_simps linear_steps_def split: if_splits option.splits)
next
  show "linear_steps self \<noteq> []" "distinct (map fst (linear_steps self))"
    using assms by (auto simp: linear_steps_def distinct_steps_def split: option.splits)
qed

lemma distinct_steps_registry: "self \<in> set linear_registry \<Longrightarrow> distinct_steps self"
  by (auto simp: linear_registry_def distinct_steps_def)

lemma in_registryE:
  assumes "d \<in> set registry"
  obtains (linear) self where "self \<in> set linear_registry" and "d = linear_definition self"
  | (external) "d = external_definition"
  | (video) "d = video_definition"
  using assms by (auto simp: registry_def)

lemma registry_pipeline:
  assumes "d \<in> set registry"
  shows "\<exists>steps. length steps \<le> 6 \<and> pipeline_definition d steps"
  using assms
proof (cases rule: in_registryE)
  case (linear self)
  have "pipeline_definition d (linear_steps self)"
    using linear_pipeline [OF distinct_steps_registry] linear by simp
  then show ?thesis
    by (intro exI [of _ "linear_steps self"]) (simp add: linear_steps_def split: option.splits)
next
  case external
  then show ?thesis
    using external.pipeline_definition_axioms
    by (intro exI [of _ external_steps]) (simp add: external_steps_def)
next
  case video
  then show ?thesis
    using video.pipeline_definition_axioms
    by (intro exI [of _ video_steps]) (simp add: video_steps_def)
qed

lemma registry_definition: "d \<in> set registry \<Longrightarrow> workflow_definition d"
  using registry_pipeline pipeline_definition.axioms(1) by blast

section \<open>Properties of the registry\<close>

lemma registry_kinds: "map wd_kind registry = map lin_kind linear_registry @
    [WorkflowKind.ExternalSourceSync, WorkflowKind.VideoExtraction]"
  by (simp add: registry_def transition_simps)

lemma catalog_finds: "\<exists>d. find_definition catalog k = Some d"
proof -
  have "k \<in> set (map wd_kind registry)"
    unfolding registry_kinds by (cases k) (simp_all add: linear_registry_def)
  then have "find_definition catalog k \<noteq> None"
    by (auto simp: find_definition_def catalog_def WorkflowCatalog_new_def find_None_iff)
  then show ?thesis by blast
qed

text \<open>The catalog finds exactly one definition for every workflow kind, of that kind, and it
  has thirteen entries; so the lookups of the services never miss a registered kind.\<close>

lemma catalog_total:
  "(\<exists>d. find_definition catalog k = Some d \<and> wd_kind d = k \<and> d \<in> set registry) \<and>
   distinct (map wd_kind registry) \<and> length registry = 13"
proof -
  obtain d where "find_definition catalog k = Some d"
    using catalog_finds by blast
  with find_definition_SomeD [OF this]
  have "\<exists>d. find_definition catalog k = Some d \<and> wd_kind d = k \<and> d \<in> set registry"
    by (simp add: catalog_def WorkflowCatalog_new_def)
  moreover have "distinct (map wd_kind registry) \<and> length registry = 13"
    unfolding registry_kinds by (simp add: registry_def linear_registry_def)
  ultimately show ?thesis by blast
qed

text \<open>C1: whatever signals an execution of a registered workflow is sent, in whatever order, it is
  started at most four times and enqueues at most 24 tasks: retrying cannot go on forever.\<close>

theorem registry_bounded_work:
  assumes "d \<in> set registry"
  shows "start_count (accepted d (wd_initial_state d x now) sigs) \<le> 4 \<and>
    length (all_tasks (accepted d (wd_initial_state d x now) sigs)) \<le> 24"
proof -
  obtain steps where n: "length steps \<le> 6" and p: "pipeline_definition d steps"
    using registry_pipeline [OF assms] by blast
  have "length (all_tasks (accepted d (wd_initial_state d x now) sigs)) \<le> 4 * length steps"
    by (rule pipeline_definition.pipeline_bounded_tasks [OF p])
  with n workflow_definition.at_most_four_starts [OF registry_definition [OF assms]]
  show ?thesis by fastforce
qed

theorem registry_bounded_work_witness:
  "external_definition \<in> set registry \<and>
   start_count (accepted external_definition
     (wd_initial_state external_definition (Uuid ''e'') 0) [(WorkflowSignal.Start, 1)]) \<le> 4"
  using registry_bounded_work [of external_definition "Uuid ''e''" 0 "[(WorkflowSignal.Start, 1)]"]
  by (simp add: registry_def)

text \<open>an execution of a registered workflow that has succeeded, was cancelled or is
  dead-lettered stays so whatever signals follow, except that it may still be cancelled, and no
  further task is ever enqueued for it.\<close>

theorem registry_final_states:
  assumes "d \<in> set registry" and "terminal (rs_status s)"
  shows "rs_status (drive d s sigs) \<in> {rs_status s, WorkflowStatus.Cancelled} \<and>
    all_tasks (accepted d s sigs) = []"
  using workflow_definition.terminal_drive [OF registry_definition [OF assms(1)] assms(2)] .

theorem registry_final_states_witness:
  "\<exists>s. terminal (rs_status s) \<and>
     all_tasks (accepted video_definition s [(WorkflowSignal.RetryRequested ''again'', 1)]) = []"
  using registry_final_states [of video_definition
      "(video_pending_state (Uuid ''e'') 0)\<lparr>rs_status := WorkflowStatus.Succeeded\<rparr>"
      "[(WorkflowSignal.RetryRequested ''again'', 1)]"]
  by (intro exI [of _ "(video_pending_state (Uuid ''e'') 0)\<lparr>rs_status := WorkflowStatus.Succeeded\<rparr>"])
    (simp add: registry_def terminal_def)

text \<open>C14: an external source synchronisation works its six stages off in order. At every moment
  of a run that is still going on, the tasks completed since the last start are exactly those of
  the stages before the current one (so the retrieval index is only built after the users and the
  access control lists were synchronised), and a run that succeeded completed all six.\<close>

theorem external_sync_in_order:
  fixes x now sigs
  defines "s \<equiv> drive external_definition (external_pending_state x now) sigs"
    and "finished \<equiv> completed_since_start []
      (accepted external_definition (external_pending_state x now) sigs)"
  shows "(rs_status s = WorkflowStatus.Running \<longrightarrow>
      (\<exists>i < 6. rs_stage s = ess_stage (EXTERNAL_SOURCE_SYNC_STEPS ! i) \<and>
        finished = map ess_task_key (take i EXTERNAL_SOURCE_SYNC_STEPS))) \<and>
    (rs_status s = WorkflowStatus.Succeeded \<longrightarrow>
      finished = map ess_task_key EXTERNAL_SOURCE_SYNC_STEPS)"
proof -
  have "external.in_order s finished"
    using external.drive_in_order [OF external.initial_in_order, of x now sigs]
    by (simp add: s_def finished_def transition_simps)
  then show ?thesis
    unfolding external.in_order_def by (auto simp: external_steps_def take_map comp_def)
qed

theorem external_sync_in_order_witness:
  "(\<exists>i < 6. ''sync_acl'' = ess_stage (EXTERNAL_SOURCE_SYNC_STEPS ! i) \<and>
     [''sync_external_users''] = map ess_task_key (take i EXTERNAL_SOURCE_SYNC_STEPS))"
  using external_sync_in_order [of "Uuid ''e''" 0
      "[(WorkflowSignal.Start, 1), (WorkflowSignal.StepCompleted ''sync_external_users'' None, 2)]"]
  by (simp add: transition_simps external_pending_state_def external_stage_after_completed_task_def
      EXTERNAL_SOURCE_SYNC_STEPS_def insert_last_output_def)

text \<open>a video extraction resolves, registers, parses and extracts in this order; a run that
  succeeded completed all four tasks.\<close>

theorem video_in_order:
  fixes x now sigs
  defines "s \<equiv> drive video_definition (video_pending_state x now) sigs"
    and "finished \<equiv> completed_since_start []
      (accepted video_definition (video_pending_state x now) sigs)"
  shows "(rs_status s = WorkflowStatus.Running \<longrightarrow>
      (\<exists>i < 4. rs_stage s = fst (video_steps ! i) \<and> finished = map snd (take i video_steps))) \<and>
    (rs_status s = WorkflowStatus.Succeeded \<longrightarrow>
      finished = [''resolve_video_source'', ''register_video_asset'', ''parse_video_media'',
        ''extract_video_ppt''])"
proof -
  have "video.in_order s finished"
    using video.drive_in_order [OF video.initial_in_order, of x now sigs]
    by (simp add: s_def finished_def transition_simps)
  moreover have "length video_steps = 4" and "map snd video_steps =
      [''resolve_video_source'', ''register_video_asset'', ''parse_video_media'',
       ''extract_video_ppt'']"
    by (simp_all add: video_steps_def)
  ultimately show ?thesis
    unfolding video.in_order_def by (simp only: simp_thms)
qed

theorem video_in_order_witness:
  "\<exists>i < 4. ''resolving_source'' = fst (video_steps ! i) \<and> [] = map snd (take i video_steps)"
  using video_in_order [of "Uuid ''e''" 0 "[(WorkflowSignal.Start, 1)]"]
  by (simp add: transition_simps video_pending_state_def)

text \<open>retrying a failed execution that has a retry left. The linear and the external
  synchronisation workflows go back to \<open>queued\<close> with the context they had and the reason of the
  retry; the video extraction starts from a fresh context, in which every key the definition does
  not itself set (the document, the dataset, the requested outputs) is gone.\<close>

theorem retry_context:
  assumes "rs_status s = WorkflowStatus.Failed" and "rs_retries_remaining s \<noteq> 0"
    and "key \<notin> {''retry_reason'', ''queue'', ''task_key'', ''states''}"
  shows "(\<exists>t. linear_transition self s (WorkflowSignal.RetryRequested r) now = Ok t \<and>
      map_of (rs_context (next_state t)) key = map_of (rs_context s) key) \<and>
    (\<exists>t. external_transition s (WorkflowSignal.RetryRequested r) now = Ok t \<and>
      map_of (rs_context (next_state t)) key = map_of (rs_context s) key) \<and>
    (\<exists>t. video_transition s (WorkflowSignal.RetryRequested r) now = Ok t \<and>
      rs_stage (next_state t) = ''queued'' \<and> map_of (rs_context (next_state t)) key = None)"
  using assms by (auto simp: video_pending_state_def map_of_json_object)

theorem retry_context_witness:
  "\<exists>s t. map_of (rs_context s) ''document_id'' = Some (JString ''doc'') \<and>
     video_transition s (WorkflowSignal.RetryRequested ''again'') 1 = Ok t \<and>
     map_of (rs_context (next_state t)) ''document_id'' = None"
proof -
  define s where "s = (video_pending_state (Uuid ''e'') 0)\<lparr>rs_status := WorkflowStatus.Failed,
    rs_context := [(''document_id'', JString ''doc'')]\<rparr>"
  have "rs_status s = WorkflowStatus.Failed" "rs_retries_remaining s \<noteq> 0"
    "map_of (rs_context s) ''document_id'' = Some (JString ''doc'')"
    by (simp_all add: s_def video_pending_state_def)
  with retry_context [of s "''document_id''" _ "''again''" 1] show ?thesis
    by auto
qed

text \<open>what a linear workflow does: started and told that its steps are completed, it succeeds
  in its success stage after enqueueing exactly the tasks of its steps, on their queues.\<close>

theorem linear_happy_path:
  fixes self x t0 t1 t2 t3 out1 out2
  defines "sigs \<equiv> (WorkflowSignal.Start, t1) #
      (WorkflowSignal.StepCompleted (lin_task_key self) out1, t2) #
      (case lin_next_step self of None \<Rightarrow> []
       | Some st \<Rightarrow> [(WorkflowSignal.StepCompleted (step_task_key st) out2, t3)])"
  assumes "distinct_steps self"
  shows "rs_status (drive (linear_definition self) (linear_pending_state self x t0) sigs) =
      WorkflowStatus.Succeeded \<and>
    rs_stage (drive (linear_definition self) (linear_pending_state self x t0) sigs) =
      lin_success_stage self \<and>
    map (\<lambda>r. (tr_queue r, tr_task_key r))
      (all_tasks (accepted (linear_definition self) (linear_pending_state self x t0) sigs)) =
      (lin_queue self, lin_task_key self) #
      (case lin_next_step self of None \<Rightarrow> []
       | Some st \<Rightarrow> [(step_queue st, step_task_key st)])"
  using assms(2)
  by (auto simp: sigs_def transition_simps linear_pending_state_def distinct_steps_def
      split: option.splits)

theorem linear_happy_path_witness:
  "\<exists>self. lin_kind self = WorkflowKind.UploadIngest \<and> self \<in> set linear_registry \<and>
     rs_status (drive (linear_definition self) (linear_pending_state self (Uuid ''e'') 0)
       [(WorkflowSignal.Start, 1),
        (WorkflowSignal.StepCompleted ''ingest_uploaded_document'' None, 2),
        (WorkflowSignal.StepCompleted ''index_retrieval_artifacts'' None, 3)]) =
     WorkflowStatus.Succeeded"
  using linear_happy_path [of "linear_registry ! 3" "Uuid ''e''" 0 1 None 2 None 3]
  by (intro exI [of _ "linear_registry ! 3"]) (simp add: linear_registry_def distinct_steps_def)

text \<open>the payload of an external synchronisation task names its execution and its stage, and
  carries each of the seven copied keys exactly when the execution's context has it, with the
  same value; nothing else of the context leaks into the task.\<close>

theorem external_task_payload:
  "\<exists>m. tr_payload (external_task_request state step) = JObject m \<and> keys_sorted m \<and>
     map_of m ''execution_id'' = Some (json_uuid (rs_execution_id state)) \<and>
     map_of m ''stage'' = Some (JString (ess_stage step)) \<and>
     map_of m ''kind'' = Some (JString ''external_source_sync_workflow'') \<and>
     (\<forall>key. key \<noteq> ''execution_id'' \<and> key \<noteq> ''stage'' \<and> key \<noteq> ''kind'' \<longrightarrow>
       map_of m key =
         (if key \<in> set external_copied_keys then map_of (rs_context state) key else None))"
proof -
  let ?copy = "\<lambda>key m. case map_of (rs_context state) key of
    None \<Rightarrow> m | Some value \<Rightarrow> map_insert key value m"
  have get: "map_of (fold ?copy ks m) key =
      (if key \<in> set ks \<and> map_of (rs_context state) key \<noteq> None
       then map_of (rs_context state) key else map_of m key)" for ks m key
    by (induction ks arbitrary: m) (auto split: option.splits)
  have sorted: "keys_sorted m \<Longrightarrow> keys_sorted (fold ?copy ks m)" for ks m
    by (induction ks arbitrary: m) (auto split: option.splits)
  have "''execution_id'' \<notin> set external_copied_keys" "''stage'' \<notin> set external_copied_keys"
    "''kind'' \<notin> set external_copied_keys"
    by (simp_all add: external_copied_keys_def)
  then show ?thesis
    by (auto simp: external_task_request_def Let_def get sorted map_of_json_object)
qed

theorem external_task_payload_witness:
  "\<exists>m. tr_payload (external_task_request (external_pending_state (Uuid ''e'') 0)
       external_first_step) = JObject m \<and> map_of m ''permission_boundary'' = None"
proof -
  obtain m where "tr_payload (external_task_request (external_pending_state (Uuid ''e'') 0)
      external_first_step) = JObject m" and
    m: "\<forall>key. key \<noteq> ''execution_id'' \<and> key \<noteq> ''stage'' \<and> key \<noteq> ''kind'' \<longrightarrow>
       map_of m key = (if key \<in> set external_copied_keys
         then map_of (rs_context (external_pending_state (Uuid ''e'') 0)) key else None)"
    using external_task_payload [of "external_pending_state (Uuid ''e'') 0" external_first_step]
    by blast
  moreover have "map_of m ''permission_boundary'' = None"
    using m [rule_format, of "''permission_boundary''"] by (simp add: external_copied_keys_def)
  ultimately show ?thesis by blast
qed

end
