(* ===== verification/Workflow_Store.thy ===== *)
theory Workflow_Store
  imports Domain_Model
begin

text \<open>
  The workflow tables of the crate \<open>storage\<close> and the three repositories over them:
  \<open>PgWorkflowExecutionRepository\<close>, \<open>PgWorkflowEventRepository\<close> and
  \<open>PgWorkflowTaskRepository\<close>. A repository operation takes the database and returns its result
  with the database it leaves; a statement or transaction that fails leaves the tables as they
  were. The rows hold the columns as the schema types them (\<open>text\<close> for the enums, \<open>integer\<close> for
  the attempts), and reading a row decodes them again.
\<close>

section \<open>Rows and the database\<close>

record execution_row =
  xr_id :: uuid
  xr_tenant_id :: uuid
  xr_dataset_id :: "uuid option"
  xr_report_plan_id :: "uuid option"
  xr_kind :: string
  xr_version :: string
  xr_stage :: string
  xr_status :: string
  xr_attempt :: int
  xr_context :: json
  xr_created_at :: datetime
  xr_updated_at :: datetime

record task_row =
  kr_id :: uuid
  kr_tenant_id :: uuid
  kr_execution_id :: uuid
  kr_queue :: string
  kr_task_key :: string
  kr_payload :: json
  kr_status :: string
  kr_attempt :: int
  kr_max_attempts :: int
  kr_available_at :: datetime
  kr_claimed_at :: "datetime option"
  kr_finished_at :: "datetime option"
  kr_error :: "string option"
  kr_created_at :: datetime
  kr_updated_at :: datetime

text \<open>
  The tables, the keys of the tables they refer to (tenants, datasets, report plans, workflow
  definitions), and how many random UUIDs were drawn so far. The columns of \<open>workflow_events\<close>
  are those of \<open>WorkflowEventRecord\<close>.
\<close>

record workflow_db =
  tenants :: "uuid list"
  datasets :: "uuid list"
  report_plans :: "uuid list"
  workflow_definitions :: "(string \<times> string) list"
  workflow_executions :: "execution_row list"
  workflow_events :: "WorkflowEventRecord list"
  workflow_tasks :: "task_row list"
  uuid_draws :: nat

datatype store_error =
    UniqueViolation
  | ForeignKeyViolation
  | IntegerOutOfRange
  | RowNotFound
  | DecodeError string

type_synonym 'a store_result = "('a, store_error) result"

text \<open>Giving a transaction up: the tables are as before; random draws are not taken back.\<close>

definition rollback :: "workflow_db \<Rightarrow> workflow_db \<Rightarrow> workflow_db" where
  "rollback before db = before\<lparr>uuid_draws := uuid_draws db\<rparr>"

text \<open>The range of the \<open>integer\<close> and \<open>bigint\<close> columns, and the casts between \<open>u32\<close> and \<open>i32\<close>.\<close>

definition int4 :: "int \<Rightarrow> int store_result" where
  "int4 n = (if - (2 ^ 31) \<le> n \<and> n < 2 ^ 31 then Ok n else Err IntegerOutOfRange)"

definition int8 :: "int \<Rightarrow> int store_result" where
  "int8 n = (if - (2 ^ 63) \<le> n \<and> n < 2 ^ 63 then Ok n else Err IntegerOutOfRange)"

lemma int4_eq_Ok: "int4 n = Ok m \<longleftrightarrow> m = n \<and> - (2 ^ 31) \<le> n \<and> n < 2 ^ 31"
  by (auto simp: int4_def)

definition u32_as_i32 :: "32 word \<Rightarrow> int" where
  "u32_as_i32 w = sint w"

definition i32_as_u32 :: "int \<Rightarrow> 32 word" where
  "i32_as_u32 n = word_of_int n"

section \<open>Encoding and decoding rows\<close>

definition execution_to_row :: "WorkflowExecution \<Rightarrow> execution_row" where
  "execution_to_row execution =
     \<lparr>xr_id = we_id execution, xr_tenant_id = we_tenant_id execution,
      xr_dataset_id = we_dataset_id execution, xr_report_plan_id = we_report_plan_id execution,
      xr_kind = WorkflowKind_as_str (we_kind execution), xr_version = we_version execution,
      xr_stage = we_stage execution, xr_status = WorkflowStatus_as_str (we_status execution),
      xr_attempt = u32_as_i32 (we_attempt execution), xr_context = we_context execution,
      xr_created_at = we_created_at execution, xr_updated_at = we_updated_at execution\<rparr>"

definition map_workflow_execution_row :: "execution_row \<Rightarrow> WorkflowExecution store_result" where
  "map_workflow_execution_row row =
     and_then (ok_or (DecodeError (''unknown workflow kind: '' @ xr_kind row))
       (WorkflowKind_from_str (xr_kind row))) (\<lambda>kind.
     and_then (ok_or (DecodeError (''unknown workflow status: '' @ xr_status row))
       (WorkflowStatus_from_str (xr_status row))) (\<lambda>status.
     Ok \<lparr>we_id = xr_id row, we_tenant_id = xr_tenant_id row, we_dataset_id = xr_dataset_id row,
         we_report_plan_id = xr_report_plan_id row, we_kind = kind, we_version = xr_version row,
         we_stage = xr_stage row, we_status = status, we_attempt = i32_as_u32 (xr_attempt row),
         we_context = xr_context row, we_created_at = xr_created_at row,
         we_updated_at = xr_updated_at row\<rparr>))"

definition map_workflow_event_row :: "WorkflowEventRecord \<Rightarrow> WorkflowEventRecord store_result" where
  "map_workflow_event_row row =
     Ok \<lparr>ev_id = ev_id row, ev_execution_id = ev_execution_id row,
         ev_sequence_no = ev_sequence_no row, ev_event_name = ev_event_name row,
         ev_payload = ev_payload row, ev_created_at = ev_created_at row\<rparr>"

definition task_to_row :: "WorkflowTask \<Rightarrow> task_row" where
  "task_to_row task =
     \<lparr>kr_id = wt_id task, kr_tenant_id = wt_tenant_id task,
      kr_execution_id = wt_execution_id task, kr_queue = wt_queue task,
      kr_task_key = wt_task_key task, kr_payload = wt_payload task,
      kr_status = WorkflowTaskStatus_as_str (wt_status task),
      kr_attempt = u32_as_i32 (wt_attempt task),
      kr_max_attempts = u32_as_i32 (wt_max_attempts task),
      kr_available_at = wt_available_at task, kr_claimed_at = wt_claimed_at task,
      kr_finished_at = wt_finished_at task, kr_error = wt_error task,
      kr_created_at = wt_created_at task, kr_updated_at = wt_updated_at task\<rparr>"

definition map_workflow_task_row :: "task_row \<Rightarrow> WorkflowTask store_result" where
  "map_workflow_task_row row =
     and_then (ok_or (DecodeError (''unknown workflow task status: '' @ kr_status row))
       (WorkflowTaskStatus_from_str (kr_status row))) (\<lambda>status.
     Ok \<lparr>wt_id = kr_id row, wt_tenant_id = kr_tenant_id row,
         wt_execution_id = kr_execution_id row, wt_queue = kr_queue row,
         wt_task_key = kr_task_key row, wt_payload = kr_payload row, wt_status = status,
         wt_attempt = i32_as_u32 (kr_attempt row),
         wt_max_attempts = i32_as_u32 (kr_max_attempts row),
         wt_available_at = kr_available_at row, wt_claimed_at = kr_claimed_at row,
         wt_finished_at = kr_finished_at row, wt_error = kr_error row,
         wt_created_at = kr_created_at row, wt_updated_at = kr_updated_at row\<rparr>)"

section \<open>Inserting rows\<close>

definition insert_workflow_execution ::
    "workflow_db \<Rightarrow> WorkflowExecution \<Rightarrow> workflow_db store_result" where
  "insert_workflow_execution db execution =
     (let row = execution_to_row execution in
      if xr_id row \<in> set (map xr_id (workflow_executions db)) then Err UniqueViolation
      else if xr_tenant_id row \<in> set (tenants db) \<and>
              (\<forall>x \<in> set_option (xr_dataset_id row). x \<in> set (datasets db)) \<and>
              (\<forall>x \<in> set_option (xr_report_plan_id row). x \<in> set (report_plans db)) \<and>
              (xr_kind row, xr_version row) \<in> set (workflow_definitions db)
      then Ok (db\<lparr>workflow_executions := workflow_executions db @ [row]\<rparr>)
      else Err ForeignKeyViolation)"

definition insert_workflow_event ::
    "workflow_db \<Rightarrow> WorkflowEventRecord \<Rightarrow> workflow_db store_result" where
  "insert_workflow_event db event =
     (if ev_id event \<in> set (map ev_id (workflow_events db)) \<or>
         (ev_execution_id event, ev_sequence_no event) \<in>
           set (map (\<lambda>e. (ev_execution_id e, ev_sequence_no e)) (workflow_events db))
      then Err UniqueViolation
      else if ev_execution_id event \<in> set (map xr_id (workflow_executions db))
      then Ok (db\<lparr>workflow_events := workflow_events db @ [event]\<rparr>)
      else Err ForeignKeyViolation)"

record NewWorkflowTask =
  nt_queue :: string
  nt_task_key :: string
  nt_payload :: json
  nt_available_at :: datetime
  nt_max_attempts :: "32 word"

text \<open>The id of a new task is drawn before the insert, so it is drawn even when the insert fails.\<close>

definition insert_workflow_task ::
    "uuid_source \<Rightarrow> workflow_db \<Rightarrow> WorkflowExecution \<Rightarrow> NewWorkflowTask \<Rightarrow> datetime \<Rightarrow>
     WorkflowTask store_result \<times> workflow_db" where
  "insert_workflow_task new_v4 db execution task created_at =
     (let persisted =
            \<lparr>wt_id = new_v4 (uuid_draws db), wt_tenant_id = we_tenant_id execution,
             wt_execution_id = we_id execution, wt_queue = nt_queue task,
             wt_task_key = nt_task_key task, wt_payload = nt_payload task,
             wt_status = WorkflowTaskStatus.Queued, wt_attempt = 0,
             wt_max_attempts = nt_max_attempts task, wt_available_at = nt_available_at task,
             wt_claimed_at = None, wt_finished_at = None, wt_error = None,
             wt_created_at = created_at, wt_updated_at = created_at\<rparr>;
          row = task_to_row persisted;
          db' = db\<lparr>uuid_draws := Suc (uuid_draws db)\<rparr> in
      if kr_id row \<in> set (map kr_id (workflow_tasks db)) then (Err UniqueViolation, db')
      else if kr_tenant_id row \<in> set (tenants db) \<and>
              kr_execution_id row \<in> set (map xr_id (workflow_executions db))
      then (Ok persisted, db'\<lparr>workflow_tasks := workflow_tasks db @ [row]\<rparr>)
      else (Err ForeignKeyViolation, db'))"

fun insert_workflow_tasks ::
    "uuid_source \<Rightarrow> workflow_db \<Rightarrow> WorkflowExecution \<Rightarrow> NewWorkflowTask list \<Rightarrow> datetime \<Rightarrow>
     WorkflowTask list store_result \<times> workflow_db" where
  "insert_workflow_tasks new_v4 db execution [] created_at = (Ok [], db)"
| "insert_workflow_tasks new_v4 db execution (task # tasks) created_at =
     (case insert_workflow_task new_v4 db execution task created_at of
        (Inl e, db') \<Rightarrow> (Err e, db')
      | (Inr t, db') \<Rightarrow>
          (case insert_workflow_tasks new_v4 db' execution tasks created_at of
             (Inl e, db'') \<Rightarrow> (Err e, db'')
           | (Inr ts, db'') \<Rightarrow> (Ok (t # ts), db'')))"

section \<open>The execution repository\<close>

definition execution_create ::
    "workflow_db \<Rightarrow> WorkflowExecution \<Rightarrow> unit store_result \<times> workflow_db" where
  "execution_create db execution =
     (case insert_workflow_execution db execution of
        Inl e \<Rightarrow> (Err e, db)
      | Inr db' \<Rightarrow> (Ok (), db'))"

definition create_with_initial_event ::
    "workflow_db \<Rightarrow> WorkflowExecution \<Rightarrow> WorkflowEventRecord \<Rightarrow>
     unit store_result \<times> workflow_db" where
  "create_with_initial_event db execution event =
     (case and_then (insert_workflow_execution db execution)
             (\<lambda>db'. insert_workflow_event db' event) of
        Inl e \<Rightarrow> (Err e, db)
      | Inr db' \<Rightarrow> (Ok (), db'))"

definition execution_get_by_id ::
    "workflow_db \<Rightarrow> TenantId \<Rightarrow> WorkflowExecutionId \<Rightarrow> WorkflowExecution option store_result" where
  "execution_get_by_id db tenant_id execution_id =
     transpose_option (map_option map_workflow_execution_row
       (fetch_optional (filter (\<lambda>r. xr_tenant_id r = tenant_id \<and> xr_id r = execution_id)
         (workflow_executions db))))"

definition execution_list_by_tenant ::
    "workflow_db \<Rightarrow> TenantId \<Rightarrow> WorkflowExecution list store_result" where
  "execution_list_by_tenant db tenant_id =
     collect (map map_workflow_execution_row
       (sort_key (\<lambda>r. - xr_created_at r)
         (filter (\<lambda>r. xr_tenant_id r = tenant_id) (workflow_executions db))))"

definition update_detached_task_state ::
    "workflow_db \<Rightarrow> TenantId \<Rightarrow> WorkflowExecutionId \<Rightarrow> WorkflowStatus \<Rightarrow> string \<Rightarrow> datetime \<Rightarrow>
     unit store_result \<times> workflow_db" where
  "update_detached_task_state db tenant_id execution_id status stage updated_at =
     (Ok (), db\<lparr>workflow_executions := update_where
        (\<lambda>r. xr_tenant_id r = tenant_id \<and> xr_id r = execution_id)
        (\<lambda>r. r\<lparr>xr_status := WorkflowStatus_as_str status, xr_stage := stage,
               xr_updated_at := updated_at\<rparr>)
        (workflow_executions db)\<rparr>)"

definition get_latest_by_report_plan_and_kind ::
    "workflow_db \<Rightarrow> TenantId \<Rightarrow> ReportPlanId \<Rightarrow> WorkflowKind \<Rightarrow>
     WorkflowExecution option store_result" where
  "get_latest_by_report_plan_and_kind db tenant_id report_plan_id kind =
     transpose_option (map_option map_workflow_execution_row
       (first_by (\<lambda>r. - xr_created_at r)
         (filter (\<lambda>r. xr_tenant_id r = tenant_id \<and> xr_report_plan_id r = Some report_plan_id \<and>
            xr_kind r = WorkflowKind_as_str kind) (workflow_executions db))))"

definition next_sequence_no :: "workflow_db \<Rightarrow> WorkflowExecutionId \<Rightarrow> int store_result" where
  "next_sequence_no db execution_id =
     int8 (coalesce_max (map ev_sequence_no
       (filter (\<lambda>e. ev_execution_id e = execution_id) (workflow_events db))) + 1)"

text \<open>The \<open>update\<close> of \<open>advance_with_tasks\<close>: kind, dataset, report plan and creation time are not
  among the columns it sets. The changed version must still name a workflow definition.\<close>

definition update_execution_row ::
    "workflow_db \<Rightarrow> WorkflowExecution \<Rightarrow> workflow_db store_result" where
  "update_execution_row db execution =
     (let p = (\<lambda>r. xr_id r = we_id execution \<and> xr_tenant_id r = we_tenant_id execution);
          f = (\<lambda>r. r\<lparr>xr_version := we_version execution, xr_stage := we_stage execution,
                 xr_status := WorkflowStatus_as_str (we_status execution),
                 xr_attempt := u32_as_i32 (we_attempt execution),
                 xr_context := we_context execution,
                 xr_updated_at := we_updated_at execution\<rparr>) in
      if \<forall>r \<in> set (returning p f (workflow_executions db)).
           (xr_kind r, xr_version r) \<in> set (workflow_definitions db)
      then Ok (db\<lparr>workflow_executions := update_where p f (workflow_executions db)\<rparr>)
      else Err ForeignKeyViolation)"

definition advance_with_tasks ::
    "uuid_source \<Rightarrow> workflow_db \<Rightarrow> WorkflowExecution \<Rightarrow> string \<Rightarrow> json \<Rightarrow> datetime \<Rightarrow>
     NewWorkflowTask list \<Rightarrow>
     (WorkflowEventRecord \<times> WorkflowTask list) store_result \<times> workflow_db" where
  "advance_with_tasks new_v4 db execution event_name event_payload occurred_at new_tasks =
     (case and_then (next_sequence_no db (we_id execution)) (\<lambda>next_sequence.
             and_then (update_execution_row db execution) (\<lambda>db'.
             Ok (next_sequence, db'))) of
        Inl e \<Rightarrow> (Err e, db)
      | Inr (next_sequence, db') \<Rightarrow>
          let event = \<lparr>ev_id = new_v4 (uuid_draws db), ev_execution_id = we_id execution,
                ev_sequence_no = next_sequence, ev_event_name = event_name,
                ev_payload = event_payload, ev_created_at = occurred_at\<rparr>;
              db1 = db'\<lparr>uuid_draws := Suc (uuid_draws db)\<rparr> in
          (case insert_workflow_event db1 event of
             Inl e \<Rightarrow> (Err e, rollback db db1)
           | Inr db2 \<Rightarrow>
               (case insert_workflow_tasks new_v4 db2 execution new_tasks occurred_at of
                  (Inl e, db3) \<Rightarrow> (Err e, rollback db db3)
                | (Inr persisted_tasks, db3) \<Rightarrow> (Ok (event, persisted_tasks), db3))))"

definition advance ::
    "uuid_source \<Rightarrow> workflow_db \<Rightarrow> WorkflowExecution \<Rightarrow> string \<Rightarrow> json \<Rightarrow> datetime \<Rightarrow>
     WorkflowEventRecord store_result \<times> workflow_db" where
  "advance new_v4 db execution event_name event_payload occurred_at =
     (case advance_with_tasks new_v4 db execution event_name event_payload occurred_at [] of
        (Inl e, db') \<Rightarrow> (Err e, db')
      | (Inr (event, _), db') \<Rightarrow> (Ok event, db'))"

section \<open>The event repository\<close>

definition event_create ::
    "uuid_source \<Rightarrow> workflow_db \<Rightarrow> WorkflowExecutionId \<Rightarrow> string \<Rightarrow> json \<Rightarrow> datetime \<Rightarrow>
     WorkflowEventRecord store_result \<times> workflow_db" where
  "event_create new_v4 db execution_id event_name payload created_at =
     (case next_sequence_no db execution_id of
        Inl e \<Rightarrow> (Err e, db)
      | Inr sequence_no \<Rightarrow>
          let event = \<lparr>ev_id = new_v4 (uuid_draws db), ev_execution_id = execution_id,
                ev_sequence_no = sequence_no, ev_event_name = event_name,
                ev_payload = payload, ev_created_at = created_at\<rparr>;
              db1 = db\<lparr>uuid_draws := Suc (uuid_draws db)\<rparr> in
          (case insert_workflow_event db1 event of
             Inl e \<Rightarrow> (Err e, db1)
           | Inr db2 \<Rightarrow> (Ok event, db2)))"

definition event_list_by_execution ::
    "workflow_db \<Rightarrow> WorkflowExecutionId \<Rightarrow> WorkflowEventRecord list store_result" where
  "event_list_by_execution db execution_id =
     collect (map map_workflow_event_row
       (sort_key ev_sequence_no
         (filter (\<lambda>e. ev_execution_id e = execution_id) (workflow_events db))))"

section \<open>The task repository\<close>

definition task_create ::
    "uuid_source \<Rightarrow> workflow_db \<Rightarrow> WorkflowExecution \<Rightarrow> NewWorkflowTask \<Rightarrow> datetime \<Rightarrow>
     WorkflowTask store_result \<times> workflow_db" where
  "task_create new_v4 db execution task created_at =
     insert_workflow_task new_v4 db execution task created_at"

text \<open>\<open>payload ->> key = text\<close>: a string entry is compared by its content, no entry and a null
  are equal to nothing, and any other value is compared by the text \<open>json_text\<close> PostgreSQL
  writes for it.\<close>

definition payload_text_is :: "(json \<Rightarrow> string) \<Rightarrow> json \<Rightarrow> string \<Rightarrow> string \<Rightarrow> bool" where
  "payload_text_is json_text payload key text =
     (case json_get payload key of
        None \<Rightarrow> False
      | Some JNull \<Rightarrow> False
      | Some (JString s) \<Rightarrow> s = text
      | Some v \<Rightarrow> json_text v = text)"

definition active_task :: "task_row \<Rightarrow> bool" where
  "active_task r \<longleftrightarrow> kr_status r = ''queued'' \<or> kr_status r = ''claimed''"

definition create_asset_parse_if_absent ::
    "(json \<Rightarrow> string) \<Rightarrow> uuid_source \<Rightarrow> workflow_db \<Rightarrow> WorkflowExecution \<Rightarrow>
     WorkflowEventRecord \<Rightarrow> NewWorkflowTask \<Rightarrow> string \<Rightarrow> datetime \<Rightarrow>
     WorkflowTask option store_result \<times> workflow_db" where
  "create_asset_parse_if_absent json_text new_v4 db execution initial_event task dedupe_key
       created_at =
     (case first_by kr_created_at (filter (\<lambda>r.
             kr_tenant_id r = we_tenant_id execution \<and> kr_queue r = nt_queue task \<and>
             kr_task_key r = nt_task_key task \<and> active_task r \<and>
             payload_text_is json_text (kr_payload r) ''dedupe_key'' dedupe_key)
           (workflow_tasks db)) of
        Some _ \<Rightarrow> (Ok None, db)
      | None \<Rightarrow>
          (case and_then (insert_workflow_execution db execution)
                  (\<lambda>db'. insert_workflow_event db' initial_event) of
             Inl e \<Rightarrow> (Err e, db)
           | Inr db1 \<Rightarrow>
               (case insert_workflow_task new_v4 db1 execution task created_at of
                  (Inl e, db2) \<Rightarrow> (Err e, rollback db db2)
                | (Inr persisted, db2) \<Rightarrow> (Ok (Some persisted), db2))))"

definition task_list_by_execution ::
    "workflow_db \<Rightarrow> WorkflowExecutionId \<Rightarrow> WorkflowTask list store_result" where
  "task_list_by_execution db execution_id =
     collect (map map_workflow_task_row
       (sort_key (\<lambda>r. (kr_created_at r, kr_id r))
         (filter (\<lambda>r. kr_execution_id r = execution_id) (workflow_tasks db))))"

text \<open>
  \<open>claim_next_available\<close>: one statement. \<open>locked\<close> are the ids of the rows that transactions
  running at the same time have locked, which \<open>for update skip locked\<close> passes over; a claim that
  runs alone has none.
\<close>

definition claimable ::
    "uuid list \<Rightarrow> string \<Rightarrow> string option \<Rightarrow> datetime \<Rightarrow> task_row \<Rightarrow> bool" where
  "claimable locked queue task_key claimed_at r \<longleftrightarrow>
     kr_queue r = queue \<and> kr_status r = ''queued'' \<and> kr_available_at r \<le> claimed_at \<and>
     (case task_key of None \<Rightarrow> True | Some k \<Rightarrow> kr_task_key r = k) \<and> kr_id r \<notin> set locked"

definition claim_next_available ::
    "workflow_db \<Rightarrow> uuid list \<Rightarrow> string \<Rightarrow> string option \<Rightarrow> datetime \<Rightarrow>
     WorkflowTask option store_result \<times> workflow_db" where
  "claim_next_available db locked queue task_key claimed_at =
     (case first_by (\<lambda>r. (kr_available_at r, kr_created_at r))
             (filter (claimable locked queue task_key claimed_at) (workflow_tasks db)) of
        None \<Rightarrow> (Ok None, db)
      | Some row \<Rightarrow>
          (case int4 (kr_attempt row + 1) of
             Inl e \<Rightarrow> (Err e, db)
           | Inr attempt \<Rightarrow>
               let claim = (\<lambda>r. r\<lparr>kr_status := ''claimed'', kr_attempt := attempt,
                     kr_claimed_at := Some claimed_at, kr_updated_at := claimed_at,
                     kr_error := None\<rparr>) in
               (and_then (map_workflow_task_row (claim row)) (\<lambda>t. Ok (Some t)),
                db\<lparr>workflow_tasks := update_where (\<lambda>r. kr_id r = kr_id row) claim
                     (workflow_tasks db)\<rparr>)))"

definition list_stale_claimed ::
    "workflow_db \<Rightarrow> string \<Rightarrow> string option \<Rightarrow> datetime \<Rightarrow> int \<Rightarrow> WorkflowTask list store_result" where
  "list_stale_claimed db queue task_key claimed_before limit =
     collect (map map_workflow_task_row (take (nat (max limit 1))
       (sort_key (\<lambda>r. (case kr_claimed_at r of None \<Rightarrow> 0 | Some c \<Rightarrow> c, kr_created_at r, kr_id r))
         (filter (\<lambda>r. kr_queue r = queue \<and> kr_status r = ''claimed'' \<and>
            (case kr_claimed_at r of None \<Rightarrow> False | Some c \<Rightarrow> c < claimed_before) \<and>
            (case task_key of None \<Rightarrow> True | Some k \<Rightarrow> kr_task_key r = k))
          (workflow_tasks db)))))"

text \<open>\<open>update workflow_tasks set .. where id = $1 returning ..\<close> with \<open>fetch_one\<close>: an id without a
  row is an error, and the changed row is stored before it is decoded.\<close>

definition update_task_returning ::
    "workflow_db \<Rightarrow> WorkflowTaskId \<Rightarrow> (task_row \<Rightarrow> task_row) \<Rightarrow>
     WorkflowTask store_result \<times> workflow_db" where
  "update_task_returning db task_id f =
     (case returning (\<lambda>r. kr_id r = task_id) f (workflow_tasks db) of
        [] \<Rightarrow> (Err RowNotFound, db)
      | row # _ \<Rightarrow>
          (map_workflow_task_row row,
           db\<lparr>workflow_tasks := update_where (\<lambda>r. kr_id r = task_id) f (workflow_tasks db)\<rparr>))"

definition mark_succeeded ::
    "workflow_db \<Rightarrow> WorkflowTaskId \<Rightarrow> datetime \<Rightarrow> WorkflowTask store_result \<times> workflow_db" where
  "mark_succeeded db task_id finished_at =
     update_task_returning db task_id (\<lambda>r. r\<lparr>kr_status := ''succeeded'',
       kr_finished_at := Some finished_at, kr_updated_at := finished_at, kr_error := None\<rparr>)"

definition update_payload ::
    "workflow_db \<Rightarrow> WorkflowTaskId \<Rightarrow> json \<Rightarrow> datetime \<Rightarrow>
     WorkflowTask store_result \<times> workflow_db" where
  "update_payload db task_id payload updated_at =
     update_task_returning db task_id
       (\<lambda>r. r\<lparr>kr_payload := payload, kr_updated_at := updated_at\<rparr>)"

definition update_payload_and_available_at ::
    "workflow_db \<Rightarrow> WorkflowTaskId \<Rightarrow> json \<Rightarrow> datetime \<Rightarrow> datetime \<Rightarrow>
     WorkflowTask store_result \<times> workflow_db" where
  "update_payload_and_available_at db task_id payload available_at updated_at =
     update_task_returning db task_id (\<lambda>r. r\<lparr>kr_payload := payload,
       kr_available_at := available_at, kr_updated_at := updated_at\<rparr>)"

definition count_active_static_page_heavy_tasks_excluding ::
    "workflow_db \<Rightarrow> TenantId \<Rightarrow> WorkflowTaskId \<Rightarrow> nat" where
  "count_active_static_page_heavy_tasks_excluding db tenant_id excluded_task_id =
     length (filter (\<lambda>r. kr_tenant_id r = tenant_id \<and> kr_id r \<noteq> excluded_task_id \<and>
       active_task r \<and>
       (kr_queue r = ''static_page'' \<and>
          kr_task_key r \<in> {''generate_static_page_image'', ''render_static_page''} \<or>
        kr_queue r = ''codex_host'')) (workflow_tasks db))"

definition mark_failed ::
    "workflow_db \<Rightarrow> WorkflowTaskId \<Rightarrow> string \<Rightarrow> datetime \<Rightarrow>
     WorkflowTask store_result \<times> workflow_db" where
  "mark_failed db task_id error finished_at =
     update_task_returning db task_id (\<lambda>r. r\<lparr>kr_status := ''failed'',
       kr_finished_at := Some finished_at, kr_updated_at := finished_at,
       kr_error := Some error\<rparr>)"

definition requeue_after_transient_error ::
    "workflow_db \<Rightarrow> WorkflowTaskId \<Rightarrow> string \<Rightarrow> datetime \<Rightarrow> datetime \<Rightarrow>
     WorkflowTask store_result \<times> workflow_db" where
  "requeue_after_transient_error db task_id error available_at updated_at =
     update_task_returning db task_id (\<lambda>r. r\<lparr>kr_status := ''queued'',
       kr_available_at := available_at, kr_claimed_at := None, kr_finished_at := None,
       kr_updated_at := updated_at, kr_error := Some error\<rparr>)"

definition requeue_after_non_consuming_transient_error ::
    "workflow_db \<Rightarrow> WorkflowTaskId \<Rightarrow> string \<Rightarrow> datetime \<Rightarrow> datetime \<Rightarrow>
     WorkflowTask store_result \<times> workflow_db" where
  "requeue_after_non_consuming_transient_error db task_id error available_at updated_at =
     (case find (\<lambda>r. kr_id r = task_id) (workflow_tasks db) of
        Some r \<Rightarrow>
          (case int4 (kr_attempt r - 1) of
             Inl e \<Rightarrow> (Err e, db)
           | Inr _ \<Rightarrow> update_task_returning db task_id (\<lambda>r. r\<lparr>kr_status := ''queued'',
               kr_attempt := max (kr_attempt r - 1) 0, kr_available_at := available_at,
               kr_claimed_at := None, kr_finished_at := None, kr_updated_at := updated_at,
               kr_error := Some error\<rparr>))
      | None \<Rightarrow> (Err RowNotFound, db))"

section \<open>Rows are read back as they were written\<close>

lemma word_cast [simp]: "i32_as_u32 (u32_as_i32 w) = w"
  by (simp add: i32_as_u32_def u32_as_i32_def)

lemma u32_as_i32_range: "- (2 ^ 31) \<le> u32_as_i32 w \<and> u32_as_i32 w < 2 ^ 31"
  using sint_greater_eq [of w] sint_less [of w] by (simp add: u32_as_i32_def)

locale row_codec =
  fixes enc :: "'a \<Rightarrow> 'r" and dec :: "'r \<Rightarrow> 'a store_result"
  assumes dec_enc: "dec (enc x) = Ok x"
begin

lemma enc_inject: "enc x = enc y \<longleftrightarrow> x = y"
  by (metis dec_enc sum.inject(2))

lemma collect_dec_enc: "collect (map dec (map enc xs)) = Ok xs"
  by (induction xs) (simp_all add: dec_enc)

end

interpretation execution_codec: row_codec execution_to_row map_workflow_execution_row
  by unfold_locales
    (simp add: map_workflow_execution_row_def execution_to_row_def
      WorkflowKind_wire.from_as WorkflowStatus_wire.from_as)

interpretation task_codec: row_codec task_to_row map_workflow_task_row
  by unfold_locales
    (simp add: map_workflow_task_row_def task_to_row_def WorkflowTaskStatus_wire.from_as)

lemma map_workflow_event_row_id [simp]: "map_workflow_event_row e = Ok e"
  by (simp add: map_workflow_event_row_def)

lemma collect_event_rows: "collect (map map_workflow_event_row es) = Ok es"
  by (induction es) simp_all

definition readable_execution :: "execution_row \<Rightarrow> bool" where
  "readable_execution r \<longleftrightarrow>
     WorkflowKind_from_str (xr_kind r) \<noteq> None \<and> WorkflowStatus_from_str (xr_status r) \<noteq> None"

definition readable_task :: "task_row \<Rightarrow> bool" where
  "readable_task r \<longleftrightarrow> WorkflowTaskStatus_from_str (kr_status r) \<noteq> None"

lemma readable_execution_Ok:
  "readable_execution r \<Longrightarrow> \<exists>x. map_workflow_execution_row r = Ok x"
  by (auto simp: readable_execution_def map_workflow_execution_row_def)

lemma readable_task_Ok: "readable_task r \<Longrightarrow> \<exists>t. map_workflow_task_row r = Ok t"
  by (auto simp: readable_task_def map_workflow_task_row_def)

lemma collect_Ok:
  "(\<And>x. x \<in> set xs \<Longrightarrow> \<exists>y. f x = Ok y) \<Longrightarrow> \<exists>ys. collect (map f xs) = Ok ys \<and> length ys = length xs"
proof (induction xs)
  case (Cons x xs)
  then obtain y ys where "f x = Ok y" "collect (map f xs) = Ok ys" "length ys = length xs"
    by (metis list.set_intros)
  then show ?case by simp
qed simp

section \<open>The invariant of the tables\<close>

text \<open>What the schema enforces (primary keys, the unique event numbers, foreign keys), and what the
  repositories add: every stored status and kind can be read, and the attempts are counted
  from zero.\<close>

definition db_wf :: "workflow_db \<Rightarrow> bool" where
  "db_wf db \<longleftrightarrow>
     distinct (map xr_id (workflow_executions db)) \<and>
     distinct (map ev_id (workflow_events db)) \<and>
     distinct (map (\<lambda>e. (ev_execution_id e, ev_sequence_no e)) (workflow_events db)) \<and>
     distinct (map kr_id (workflow_tasks db)) \<and>
     (\<forall>e \<in> set (workflow_events db). ev_execution_id e \<in> set (map xr_id (workflow_executions db))) \<and>
     (\<forall>r \<in> set (workflow_tasks db). kr_execution_id r \<in> set (map xr_id (workflow_executions db))) \<and>
     (\<forall>r \<in> set (workflow_executions db). readable_execution r) \<and>
     (\<forall>r \<in> set (workflow_tasks db). readable_task r \<and> 0 \<le> kr_attempt r)"

definition execution_events :: "workflow_db \<Rightarrow> uuid \<Rightarrow> WorkflowEventRecord list" where
  "execution_events db x = filter (\<lambda>e. ev_execution_id e = x) (workflow_events db)"

text \<open>The events of an execution are numbered 1, 2, 3 and so on, in the order they were written.\<close>

definition numbered :: "workflow_db \<Rightarrow> bool" where
  "numbered db \<longleftrightarrow> (\<forall>x. map ev_sequence_no (execution_events db x) =
     map int [1..<Suc (length (execution_events db x))])"

lemma readable_written:
  "readable_execution (execution_to_row x)"
  "readable_execution (r\<lparr>xr_version := v, xr_stage := s, xr_status := WorkflowStatus_as_str st,
     xr_attempt := a, xr_context := c, xr_updated_at := u\<rparr>) = (WorkflowKind_from_str (xr_kind r) \<noteq> None)"
  "readable_execution (r\<lparr>xr_status := WorkflowStatus_as_str st, xr_stage := s,
     xr_updated_at := u\<rparr>) = (WorkflowKind_from_str (xr_kind r) \<noteq> None)"
  "readable_task (task_to_row t)"
  by (simp_all add: readable_execution_def readable_task_def execution_to_row_def task_to_row_def
      WorkflowKind_wire.from_as WorkflowStatus_wire.from_as WorkflowTaskStatus_wire.from_as)

lemma db_wf_draws [simp]:
  "db_wf (db\<lparr>uuid_draws := n\<rparr>) = db_wf db"
  "numbered (db\<lparr>uuid_draws := n\<rparr>) = numbered db"
  "db_wf (rollback db db') = db_wf db"
  "numbered (rollback db db') = numbered db"
  by (simp_all add: db_wf_def numbered_def execution_events_def rollback_def)

lemma insert_execution_wf:
  assumes "insert_workflow_execution db x = Ok db'" and "db_wf db"
  shows "db_wf db'"
  using assms
  by (auto simp: insert_workflow_execution_def Let_def db_wf_def readable_written split: if_splits)

lemma insert_execution_tables [store_simps]:
  assumes "insert_workflow_execution db x = Ok db'"
  shows "db' = db\<lparr>workflow_executions := workflow_executions db @ [execution_to_row x]\<rparr> \<and>
    we_id x \<notin> set (map xr_id (workflow_executions db))"
  using assms
  by (auto simp: insert_workflow_execution_def Let_def execution_to_row_def split: if_splits)

lemma insert_event_tables:
  assumes "insert_workflow_event db e = Ok db'"
  shows "db' = db\<lparr>workflow_events := workflow_events db @ [e]\<rparr> \<and>
    ev_execution_id e \<in> set (map xr_id (workflow_executions db))"
  using assms by (auto simp: insert_workflow_event_def split: if_splits)

lemma insert_event_wf:
  assumes "insert_workflow_event db e = Ok db'" and "db_wf db"
  shows "db_wf db'"
  using assms by (auto simp: insert_workflow_event_def db_wf_def split: if_splits)

lemma insert_task_wf:
  assumes "insert_workflow_task new_v4 db x t now = (r, db')" and "db_wf db"
  shows "db_wf db'"
  using assms
  by (auto simp: insert_workflow_task_def Let_def db_wf_def readable_written u32_as_i32_def
      task_to_row_def readable_task_def WorkflowTaskStatus_wire.from_as
      simp del: WorkflowTaskStatus_as_str.simps split: if_splits)

lemma insert_tasks_wf:
  "insert_workflow_tasks new_v4 db x ts now = (r, db') \<Longrightarrow> db_wf db \<Longrightarrow> db_wf db'"
  by (induction new_v4 db x ts now arbitrary: r db' rule: insert_workflow_tasks.induct)
    (auto split: prod.splits sum.splits dest: insert_task_wf)

lemma insert_task_events:
  "insert_workflow_task new_v4 db x t now = (r, db') \<Longrightarrow>
   workflow_events db' = workflow_events db \<and> workflow_executions db' = workflow_executions db"
  by (auto simp: insert_workflow_task_def Let_def split: if_splits)

lemma insert_tasks_events:
  "insert_workflow_tasks new_v4 db x ts now = (r, db') \<Longrightarrow>
   workflow_events db' = workflow_events db \<and> workflow_executions db' = workflow_executions db"
  by (induction new_v4 db x ts now arbitrary: r db' rule: insert_workflow_tasks.induct)
    (auto split: prod.splits sum.splits dest!: insert_task_events)

lemma update_execution_tables:
  assumes "update_execution_row db x = Ok db'"
  shows "\<exists>rows. db' = db\<lparr>workflow_executions := rows\<rparr> \<and>
    map xr_id rows = map xr_id (workflow_executions db)"
  using assms
  by (auto simp: update_execution_row_def Let_def map_update_where split: if_splits)

lemma execution_update_wf:
  assumes "db_wf db" and "\<And>r. xr_id (f r) = xr_id r"
    and "\<And>r. readable_execution r \<Longrightarrow> readable_execution (f r)"
  shows "db_wf (db\<lparr>workflow_executions := update_where p f (workflow_executions db)\<rparr>)"
proof -
  have "map xr_id (update_where p f (workflow_executions db)) = map xr_id (workflow_executions db)"
    by (rule map_update_where) (rule assms(2))
  then have ids: "distinct (map xr_id (update_where p f (workflow_executions db))) =
      distinct (map xr_id (workflow_executions db))"
    "xr_id ` set (update_where p f (workflow_executions db)) = xr_id ` set (workflow_executions db)"
    by (simp_all flip: set_map)
  have "\<forall>r \<in> set (update_where p f (workflow_executions db)). readable_execution r"
    using assms(1,3) by (auto simp: db_wf_def elim!: in_update_whereE)
  with assms(1) show ?thesis
    by (simp add: db_wf_def ids)
qed

lemma update_execution_wf:
  assumes "update_execution_row db x = Ok db'" and "db_wf db"
  shows "db_wf db'"
  using assms(1) unfolding update_execution_row_def Let_def
  by (auto split: if_splits intro!: execution_update_wf [OF assms(2)]
      simp: readable_execution_def WorkflowStatus_wire.from_as)

lemma next_sequence_numbered:
  assumes "numbered db" and "next_sequence_no db x = Ok n"
  shows "n = int (Suc (length (execution_events db x)))"
proof -
  have "coalesce_max (map ev_sequence_no (execution_events db x)) =
      int (length (execution_events db x))"
    using assms(1) coalesce_max_upto unfolding numbered_def by metis
  with assms(2) show ?thesis
    by (simp add: next_sequence_no_def int8_def flip: execution_events_def split: if_splits)
qed

text \<open>An event that carries the next number keeps the numbering.\<close>

lemma numbered_append:
  assumes "numbered db" and "workflow_events db' = workflow_events db @ [e]"
    and "ev_sequence_no e = int (Suc (length (execution_events db (ev_execution_id e))))"
  shows "numbered db'"
  using assms by (auto simp: numbered_def execution_events_def)

lemma numbered_cong: "workflow_events db' = workflow_events db \<Longrightarrow> numbered db' = numbered db"
  by (simp add: numbered_def execution_events_def)

lemma advance_with_tasks_OkE:
  assumes "advance_with_tasks new_v4 db x name payload now ts = (Ok (e, persisted), db')"
  obtains db1 db2 n where
    "next_sequence_no db (we_id x) = Ok n"
    "update_execution_row db x = Ok db1"
    "e = \<lparr>ev_id = new_v4 (uuid_draws db), ev_execution_id = we_id x, ev_sequence_no = n,
       ev_event_name = name, ev_payload = payload, ev_created_at = now\<rparr>"
    "insert_workflow_event (db1\<lparr>uuid_draws := Suc (uuid_draws db)\<rparr>) e = Ok db2"
    "insert_workflow_tasks new_v4 db2 x ts now = (Ok persisted, db')"
  using assms
  by (auto simp: advance_with_tasks_def Let_def and_then_def split: sum.splits prod.splits)

lemma advance_with_tasks_Err:
  assumes "advance_with_tasks new_v4 db x name payload now ts = (Err err, db')"
  shows "\<exists>n. db' = db\<lparr>uuid_draws := n\<rparr>"
proof -
  have "\<exists>n. db = db\<lparr>uuid_draws := n\<rparr>" by (rule exI [of _ "uuid_draws db"]) simp
  with assms show ?thesis
    by (auto simp: advance_with_tasks_def Let_def rollback_def split: sum.splits prod.splits)
qed

lemma advance_with_tasks_wf:
  assumes "advance_with_tasks new_v4 db x name payload now ts = (r, db')"
    and "db_wf db"
  shows "db_wf db' \<and> (numbered db \<longrightarrow> numbered db')"
proof (cases r)
  case (Inl err)
  with assms advance_with_tasks_Err show ?thesis by fastforce
next
  case (Inr v)
  obtain e persisted where "v = (e, persisted)" by (cases v)
  with assms(1) Inr obtain db1 db2 n where n: "next_sequence_no db (we_id x) = Ok n"
    and up: "update_execution_row db x = Ok db1"
    and e: "ev_execution_id e = we_id x" "ev_sequence_no e = n"
    and ie: "insert_workflow_event (db1\<lparr>uuid_draws := Suc (uuid_draws db)\<rparr>) e = Ok db2"
    and it: "insert_workflow_tasks new_v4 db2 x ts now = (Ok persisted, db')"
    by (auto elim!: advance_with_tasks_OkE)
  have "db_wf db2"
    using insert_event_wf [OF ie] update_execution_wf [OF up assms(2)] by simp
  moreover have "workflow_events db2 = workflow_events db @ [e]"
    using insert_event_tables [OF ie] update_execution_tables [OF up] by auto
  then have "numbered db \<longrightarrow> numbered db2"
    using next_sequence_numbered [OF _ n] e by (auto intro: numbered_append)
  ultimately show ?thesis
    using insert_tasks_wf [OF it] insert_tasks_events [OF it] numbered_cong by metis
qed

lemma event_create_wf:
  assumes "event_create new_v4 db x name payload now = (r, db')" and "db_wf db"
  shows "db_wf db' \<and> (numbered db \<longrightarrow> numbered db')"
proof (cases "next_sequence_no db x")
  case (Inr n)
  define e where "e = \<lparr>ev_id = new_v4 (uuid_draws db), ev_execution_id = x, ev_sequence_no = n,
    ev_event_name = name, ev_payload = payload, ev_created_at = now\<rparr>"
  define db1 where "db1 = db\<lparr>uuid_draws := Suc (uuid_draws db)\<rparr>"
  have wf1: "db_wf db1" "numbered db1 = numbered db"
    using assms(2) by (simp_all add: db1_def)
  show ?thesis
  proof (cases "insert_workflow_event db1 e")
    case (Inl err)
    then have "db' = db1"
      using assms(1) Inr by (simp add: event_create_def Let_def flip: e_def db1_def)
    with wf1 show ?thesis by simp
  next
    case ie: (Inr db2)
    then have "workflow_events db2 = workflow_events db @ [e]"
      using insert_event_tables [OF ie] by (simp add: db1_def)
    then have "numbered db \<longrightarrow> numbered db2"
      using next_sequence_numbered [OF _ Inr] by (auto simp: e_def intro: numbered_append)
    moreover have "db' = db2"
      using assms(1) Inr ie by (simp add: event_create_def Let_def flip: e_def db1_def)
    ultimately show ?thesis
      using insert_event_wf [OF ie wf1(1)] by simp
  qed
qed (use assms in \<open>simp add: event_create_def\<close>)

text \<open>An execution that is inserted with an event. The repository stores any event with it; the
  numbering goes on when the event is the execution's own and has number 1, as in every caller.\<close>

definition proper_start :: "WorkflowExecution \<Rightarrow> WorkflowEventRecord \<Rightarrow> bool" where
  "proper_start x e \<longleftrightarrow> ev_execution_id e = we_id x \<and> ev_sequence_no e = 1"

lemma initial_event_wf:
  assumes "insert_workflow_execution db x = Ok db1" and "insert_workflow_event db1 e = Ok db2"
    and "db_wf db"
  shows "db_wf db2 \<and> (proper_start x e \<longrightarrow> numbered db \<longrightarrow> numbered db2)"
proof -
  note t1 = insert_execution_tables [OF assms(1)] and t2 = insert_event_tables [OF assms(2)]
  have "execution_events db (we_id x) = []"
    unfolding execution_events_def filter_empty_conv
  proof (intro ballI notI)
    fix e' assume "e' \<in> set (workflow_events db)" and "ev_execution_id e' = we_id x"
    with assms(3) have "we_id x \<in> set (map xr_id (workflow_executions db))"
      unfolding db_wf_def by metis
    with t1 show False by simp
  qed
  then have "proper_start x e \<longrightarrow> numbered db \<longrightarrow> numbered db2"
    using t1 t2 by (auto simp: proper_start_def intro: numbered_append)
  moreover have "db_wf db2"
    using insert_event_wf [OF assms(2) insert_execution_wf [OF assms(1) assms(3)]] .
  ultimately show ?thesis by simp
qed

lemma task_update_wf:
  assumes "db_wf db" and "\<And>r. kr_id (f r) = kr_id r" and "\<And>r. kr_execution_id (f r) = kr_execution_id r"
    and "\<And>r. r \<in> set (workflow_tasks db) \<Longrightarrow> p r \<Longrightarrow> readable_task (f r) \<and> 0 \<le> kr_attempt (f r)"
  shows "db_wf (db\<lparr>workflow_tasks := update_where p f (workflow_tasks db)\<rparr>)"
  using assms(1,2,4)
  by (auto simp: db_wf_def map_update_where assms(3) elim!: in_update_whereE)

lemma update_task_returning_wf:
  assumes "update_task_returning db task_id f = (r, db')"
    and "db_wf db"
    and "\<And>r. kr_id (f r) = kr_id r \<and> kr_execution_id (f r) = kr_execution_id r"
    and "\<And>r. readable_task r \<Longrightarrow> readable_task (f r)"
    and "\<And>r. 0 \<le> kr_attempt r \<Longrightarrow> 0 \<le> kr_attempt (f r)"
  shows "db_wf db' \<and> (numbered db \<longrightarrow> numbered db')"
proof -
  have "db_wf (db\<lparr>workflow_tasks := update_where (\<lambda>r. kr_id r = task_id) f (workflow_tasks db)\<rparr>)"
    by (rule task_update_wf [OF assms(2)]) (use assms in \<open>auto simp: db_wf_def\<close>)
  then show ?thesis
    using assms(1,2)
    by (auto simp: update_task_returning_def split: list.splits
        intro: numbered_cong [THEN iffD2])
qed

lemma task_written:
  "readable_task (r\<lparr>kr_payload := p\<rparr>) = readable_task r"
  "readable_task (r\<lparr>kr_available_at := a\<rparr>) = readable_task r"
  "readable_task (r\<lparr>kr_updated_at := a\<rparr>) = readable_task r"
  "readable_task (r\<lparr>kr_finished_at := f\<rparr>) = readable_task r"
  "readable_task (r\<lparr>kr_claimed_at := f\<rparr>) = readable_task r"
  "readable_task (r\<lparr>kr_error := e\<rparr>) = readable_task r"
  "readable_task (r\<lparr>kr_attempt := n\<rparr>) = readable_task r"
  "readable_task (r\<lparr>kr_status := ''succeeded''\<rparr>)" "readable_task (r\<lparr>kr_status := ''failed''\<rparr>)"
  "readable_task (r\<lparr>kr_status := ''queued''\<rparr>)" "readable_task (r\<lparr>kr_status := ''claimed''\<rparr>)"
  by (simp_all add: readable_task_def WorkflowTaskStatus_from_str_def)

text \<open>What a claim does when it has found a row.\<close>

lemma claim_step:
  assumes "claim_next_available db locked queue key now = (r, db')"
    and "first_by (\<lambda>r. (kr_available_at r, kr_created_at r))
      (filter (claimable locked queue key now) (workflow_tasks db)) = Some row"
  shows "db' = db \<and> r = Err IntegerOutOfRange \<or>
    db' = db\<lparr>workflow_tasks := update_where (\<lambda>r. kr_id r = kr_id row)
      (\<lambda>r. r\<lparr>kr_status := ''claimed'', kr_attempt := kr_attempt row + 1,
        kr_claimed_at := Some now, kr_updated_at := now, kr_error := None\<rparr>)
      (workflow_tasks db)\<rparr> \<and>
    r = and_then (map_workflow_task_row (row\<lparr>kr_status := ''claimed'',
      kr_attempt := kr_attempt row + 1, kr_claimed_at := Some now, kr_updated_at := now,
      kr_error := None\<rparr>)) (\<lambda>t. Ok (Some t))"
  using assms(1) unfolding claim_next_available_def assms(2) option.case int4_def Let_def
  by (simp split: if_splits)

lemma claim_wf:
  assumes "claim_next_available db locked queue key now = (r, db')" and "db_wf db"
  shows "db_wf db' \<and> workflow_events db' = workflow_events db"
proof (cases "first_by (\<lambda>r. (kr_available_at r, kr_created_at r))
    (filter (claimable locked queue key now) (workflow_tasks db))")
  case (Some row)
  then have "row \<in> set (workflow_tasks db)"
    using first_by_filterD [OF Some] by simp
  with assms(2) have a: "0 \<le> kr_attempt row" by (simp add: db_wf_def)
  define claim where "claim = (\<lambda>r :: task_row. r\<lparr>kr_status := ''claimed'', kr_attempt := kr_attempt row + 1,
    kr_claimed_at := Some now, kr_updated_at := now, kr_error := None\<rparr>)"
  define db1 where "db1 = db\<lparr>workflow_tasks :=
    update_where (\<lambda>r. kr_id r = kr_id row) claim (workflow_tasks db)\<rparr>"
  have "db_wf db1"
    unfolding db1_def
    by (rule task_update_wf [OF assms(2)])
      (simp_all add: claim_def readable_task_def WorkflowTaskStatus_from_str_def a)
  moreover have "workflow_events db1 = workflow_events db"
    by (simp add: db1_def)
  moreover have "db' = db \<or> db' = db1"
    using claim_step [OF assms(1) Some] by (auto simp: db1_def claim_def)
  ultimately show ?thesis using assms(2) by auto
qed (use assms in \<open>auto simp: claim_next_available_def\<close>)

lemma asset_parse_wf:
  assumes "create_asset_parse_if_absent json_text new_v4 db x e t key now = (r, db')"
    and "db_wf db"
  shows "db_wf db' \<and> (proper_start x e \<longrightarrow> numbered db \<longrightarrow> numbered db')"
proof -
  consider "db' = db"
    | db1 db2 db3 r' where "insert_workflow_execution db x = Ok db1"
        "insert_workflow_event db1 e = Ok db2"
        "insert_workflow_task new_v4 db2 x t now = (r', db3)"
        "db' = rollback db db3 \<or> db' = db3"
    using assms(1)
    by (auto simp: create_asset_parse_if_absent_def and_then_def
        split: option.splits sum.splits prod.splits)
  then show ?thesis
  proof cases
    case 2
    have "db_wf db2 \<and> (proper_start x e \<longrightarrow> numbered db \<longrightarrow> numbered db2)"
      using initial_event_wf [OF 2(1,2) assms(2)] .
    then have "db_wf db3 \<and> (proper_start x e \<longrightarrow> numbered db \<longrightarrow> numbered db3)"
      using insert_task_wf [OF 2(3)] insert_task_events [OF 2(3)] numbered_cong [of db3 db2] by simp
    with 2(4) assms(2) show ?thesis by auto
  qed (use assms in simp)
qed

section \<open>The repository as a transition system\<close>

text \<open>Every operation of the three repositories that writes, as a step of the database, with any
  arguments. The label of a step is the execution and the event it was asked to start, if any.\<close>

type_synonym start_label = "(WorkflowExecution \<times> WorkflowEventRecord) option"

inductive store_step :: "uuid_source \<Rightarrow> start_label \<Rightarrow> workflow_db \<Rightarrow> workflow_db \<Rightarrow> bool" for new_v4 where
  create: "execution_create db x = (r, db') \<Longrightarrow> store_step new_v4 None db db'"
| create_initial: "create_with_initial_event db x e = (r, db') \<Longrightarrow> store_step new_v4 (Some (x, e)) db db'"
| detached: "update_detached_task_state db tenant x st stage now = (r, db') \<Longrightarrow>
    store_step new_v4 None db db'"
| advances: "advance_with_tasks new_v4 db x name payload now ts = (r, db') \<Longrightarrow>
    store_step new_v4 None db db'"
| event: "event_create new_v4 db x name payload now = (r, db') \<Longrightarrow> store_step new_v4 None db db'"
| task: "task_create new_v4 db x t now = (r, db') \<Longrightarrow> store_step new_v4 None db db'"
| asset_parse: "create_asset_parse_if_absent json_text new_v4 db x e t key now = (r, db') \<Longrightarrow>
    store_step new_v4 (Some (x, e)) db db'"
| claim: "claim_next_available db locked queue key now = (r, db') \<Longrightarrow> store_step new_v4 None db db'"
| succeeded: "mark_succeeded db k now = (r, db') \<Longrightarrow> store_step new_v4 None db db'"
| payload: "update_payload db k payload now = (r, db') \<Longrightarrow> store_step new_v4 None db db'"
| payload_at: "update_payload_and_available_at db k payload at now = (r, db') \<Longrightarrow>
    store_step new_v4 None db db'"
| failed: "mark_failed db k error now = (r, db') \<Longrightarrow> store_step new_v4 None db db'"
| requeue: "requeue_after_transient_error db k error at now = (r, db') \<Longrightarrow>
    store_step new_v4 None db db'"
| requeue_free: "requeue_after_non_consuming_transient_error db k error at now = (r, db') \<Longrightarrow>
    store_step new_v4 None db db'"

text \<open>A run of operations with the labels of its steps, and those labels that start properly.\<close>

inductive store_run :: "uuid_source \<Rightarrow> start_label list \<Rightarrow> workflow_db \<Rightarrow> workflow_db \<Rightarrow> bool" for new_v4 where
  nothing: "store_run new_v4 [] db db"
| then_step: "store_run new_v4 ls db db' \<Longrightarrow> store_step new_v4 l db' db'' \<Longrightarrow> store_run new_v4 (ls @ [l]) db db''"

definition proper_label :: "start_label \<Rightarrow> bool" where
  "proper_label l = (case l of None \<Rightarrow> True | Some (x, e) \<Rightarrow> proper_start x e)"

lemma proper_label_simps [simp]:
  "proper_label None = True" "proper_label (Some (x, e)) = proper_start x e"
  by (simp_all add: proper_label_def)

definition empty_tables :: "workflow_db \<Rightarrow> bool" where
  "empty_tables db \<longleftrightarrow>
     workflow_executions db = [] \<and> workflow_events db = [] \<and> workflow_tasks db = []"

lemma store_step_wf:
  assumes "store_step new_v4 l db db'" and "db_wf db"
  shows "db_wf db' \<and> (proper_label l \<longrightarrow> numbered db \<longrightarrow> numbered db')"
  using assms
proof (induction rule: store_step.induct)
  case (create db x r db')
  show ?case
  proof (cases "insert_workflow_execution db x")
    case (Inr db1)
    with create have "db' = db1" by (simp add: execution_create_def)
    with insert_execution_wf [OF Inr] insert_execution_tables [OF Inr] create numbered_cong [of db1 db]
    show ?thesis by simp
  qed (use create in \<open>simp add: execution_create_def\<close>)
next
  case (create_initial db x e r db')
  then show ?case
    using initial_event_wf
    by (auto simp: create_with_initial_event_def and_then_def split: sum.splits)
next
  case (detached db tenant x st stage now r db')
  then have "db_wf db'"
    by (auto simp: update_detached_task_state_def readable_execution_def
        WorkflowStatus_wire.from_as intro!: execution_update_wf [OF detached(2)])
  moreover have "workflow_events db' = workflow_events db"
    using detached(1) by (auto simp: update_detached_task_state_def)
  ultimately show ?case
    using numbered_cong by blast
next
  case (advances db x name payload now ts r db')
  then show ?case using advance_with_tasks_wf by simp
next
  case (event db x name payload now r db')
  then show ?case using event_create_wf by simp
next
  case (task db x t now r db')
  note i = task(1) [unfolded task_create_def]
  have "db_wf db'" using insert_task_wf [OF i task(2)] .
  moreover have "numbered db \<longrightarrow> numbered db'"
    using insert_task_events [OF i] numbered_cong by blast
  ultimately show ?case by simp
next
  case (asset_parse json_text db x e t key now r db')
  then show ?case using asset_parse_wf by simp
next
  case (claim db locked queue key now r db')
  then show ?case
    using claim_wf [OF claim(1,2)] numbered_cong by blast
next
  case (succeeded db k now r db')
  then show ?case
    unfolding mark_succeeded_def proper_label_simps simp_thms
    by (rule update_task_returning_wf) (simp_all add: task_written)
next
  case (payload db k payload now r db')
  then show ?case
    unfolding update_payload_def proper_label_simps simp_thms
    by (rule update_task_returning_wf) (simp_all add: task_written)
next
  case (payload_at db k payload at now r db')
  then show ?case
    unfolding update_payload_and_available_at_def proper_label_simps simp_thms
    by (rule update_task_returning_wf) (simp_all add: task_written)
next
  case (failed db k error now r db')
  then show ?case
    unfolding mark_failed_def proper_label_simps simp_thms
    by (rule update_task_returning_wf) (simp_all add: task_written)
next
  case (requeue db k error at now r db')
  then show ?case
    unfolding requeue_after_transient_error_def proper_label_simps simp_thms
    by (rule update_task_returning_wf) (simp_all add: task_written)
next
  case (requeue_free db k error at now r db')
  have "db_wf db' \<and> (numbered db \<longrightarrow> numbered db')"
    if "update_task_returning db k (\<lambda>r. r\<lparr>kr_status := ''queued'',
          kr_attempt := max (kr_attempt r - 1) 0, kr_available_at := at,
          kr_claimed_at := None, kr_finished_at := None, kr_updated_at := now,
          kr_error := Some error\<rparr>) = (r, db')"
    using that requeue_free(2) by (rule update_task_returning_wf) (simp_all add: task_written)
  with requeue_free show ?case
    by (auto simp: requeue_after_non_consuming_transient_error_def split: option.splits sum.splits)
qed

section \<open>Properties of the repositories\<close>

lemma empty_tables_wf: "empty_tables db \<Longrightarrow> db_wf db \<and> numbered db"
  by (simp add: empty_tables_def db_wf_def numbered_def execution_events_def)

lemma store_run_wf:
  assumes "store_run new_v4 ls db0 db" and "empty_tables db0"
  shows "db_wf db \<and> ((\<forall>l \<in> set ls. proper_label l) \<longrightarrow> numbered db)"
  using assms by (induction rule: store_run.induct) (auto dest: empty_tables_wf store_step_wf)

lemma list_events_numbered:
  assumes "numbered db"
  shows "event_list_by_execution db x = Ok (execution_events db x)"
proof -
  have "sorted (map ev_sequence_no (execution_events db x))"
    using assms by (simp add: numbered_def sorted_map sorted_wrt_upt del: upt_Suc)
  then show ?thesis
    by (simp add: event_list_by_execution_def sort_key_id_if_sorted collect_event_rows
        flip: execution_events_def)
qed

lemma collect_readable_executions:
  "(\<forall>r \<in> set rows. readable_execution r) \<Longrightarrow>
   \<exists>xs. collect (map map_workflow_execution_row rows) = Ok xs"
  using collect_Ok [of rows map_workflow_execution_row] readable_execution_Ok by blast

lemma collect_readable_tasks:
  "(\<forall>r \<in> set rows. readable_task r) \<Longrightarrow> \<exists>ts. collect (map map_workflow_task_row rows) = Ok ts"
  using collect_Ok [of rows map_workflow_task_row] readable_task_Ok by blast

text \<open>The listings of a table whose rows can be read.\<close>

lemma listings_readable:
  assumes "db_wf db"
  shows "\<exists>es. event_list_by_execution db x = Ok es" and "\<exists>xs. execution_list_by_tenant db tenant = Ok xs"
    and "\<exists>ts. task_list_by_execution db x = Ok ts"
proof -
  show "\<exists>es. event_list_by_execution db x = Ok es"
    by (simp add: event_list_by_execution_def collect_event_rows)
  show "\<exists>xs. execution_list_by_tenant db tenant = Ok xs"
    unfolding execution_list_by_tenant_def using assms
    by (intro collect_readable_executions) (simp add: db_wf_def)
  show "\<exists>ts. task_list_by_execution db x = Ok ts"
    unfolding task_list_by_execution_def using assms
    by (intro collect_readable_tasks) (simp add: db_wf_def)
qed

text \<open>C13: whatever sequence of repository operations, with whatever arguments, runs on tables that
  were empty, the keys stay unique, events and tasks belong to stored executions and every row can be
  read back (no listing fails). When every execution was started with an event of its own that has
  number 1, as the callers do (the repositories do not check it, see \<open>first_number_unchecked\<close>), the events of an execution are
  listed with the numbers 1, 2, 3, .. without gaps.\<close>

theorem store_invariant:
  assumes "empty_tables db0" and "store_run new_v4 ls db0 db"
  shows "db_wf db \<and>
    (\<exists>es. event_list_by_execution db x = Ok es \<and>
      ((\<forall>x e. Some (x, e) \<in> set ls \<longrightarrow> ev_execution_id e = we_id x \<and> ev_sequence_no e = 1) \<longrightarrow>
        map ev_sequence_no es = map int [1..<Suc (length es)])) \<and>
    (\<exists>xs. execution_list_by_tenant db tenant = Ok xs) \<and>
    (\<exists>ts. task_list_by_execution db x = Ok ts)"
proof -
  have wf: "db_wf db" and num: "\<forall>l \<in> set ls. proper_label l \<Longrightarrow> numbered db"
    using store_run_wf [OF assms(2,1)] by simp_all
  have "numbered db"
    if "\<forall>x e. Some (x, e) \<in> set ls \<longrightarrow> ev_execution_id e = we_id x \<and> ev_sequence_no e = 1"
    using that by (intro num) (auto simp: proper_label_def proper_start_def split: option.splits)
  then have "map ev_sequence_no es = map int [1..<Suc (length es)]"
    if "\<forall>x e. Some (x, e) \<in> set ls \<longrightarrow> ev_execution_id e = we_id x \<and> ev_sequence_no e = 1"
      and "event_list_by_execution db x = Ok es" for es
    using that list_events_numbered [of db x] unfolding numbered_def by (metis Inr_inject)
  with wf listings_readable [OF wf] show ?thesis by (metis (no_types, lifting))
qed

text \<open>A database with one tenant and the definitions the examples need, and one execution.\<close>

definition example_db :: workflow_db where
  "example_db = \<lparr>tenants = [Uuid ''t''], datasets = [], report_plans = [],
     workflow_definitions = [(''memory_directory_workflow'', ''0.1.0'')],
     workflow_executions = [], workflow_events = [], workflow_tasks = [], uuid_draws = 0\<rparr>"

definition example_execution :: WorkflowExecution where
  "example_execution = \<lparr>we_id = Uuid ''x'', we_tenant_id = Uuid ''t'', we_dataset_id = None,
     we_report_plan_id = None, we_kind = WorkflowKind.MemoryDirectory, we_version = ''0.1.0'',
     we_stage = ''queued'', we_status = WorkflowStatus.Pending, we_attempt = 0,
     we_context = JObject [], we_created_at = 0, we_updated_at = 0\<rparr>"

definition example_event :: WorkflowEventRecord where
  "example_event = \<lparr>ev_id = Uuid ''e'', ev_execution_id = Uuid ''x'', ev_sequence_no = 1,
     ev_event_name = ''created'', ev_payload = JNull, ev_created_at = 0\<rparr>"

definition example_db1 :: workflow_db where
  "example_db1 = snd (create_with_initial_event example_db example_execution example_event)"

lemmas example_defs =
  example_db1_def example_db_def example_execution_def example_event_def
  create_with_initial_event_def insert_workflow_execution_def insert_workflow_event_def
  execution_to_row_def u32_as_i32_def

lemma example_db1_eval:
  "example_db1 = example_db\<lparr>workflow_executions := [execution_to_row example_execution],
     workflow_events := [example_event]\<rparr>"
  by (simp add: example_defs)

lemma example_db1_run: "store_run new_v4 [Some (example_execution, example_event)] example_db example_db1"
proof -
  have "store_step new_v4 (Some (example_execution, example_event)) example_db example_db1"
    by (rule store_step.create_initial [of _ _ _ "fst (create_with_initial_event example_db example_execution example_event)"])
      (simp add: example_db1_def)
  from store_run.then_step [OF store_run.nothing this] show ?thesis by simp
qed

lemma example_empty: "empty_tables example_db"
  by (simp add: empty_tables_def example_db_def)

text \<open>The execution gets a second event and two tasks.\<close>

definition example_draws :: uuid_source where
  "example_draws n = Uuid (replicate (Suc n) (CHR ''u''))"

definition example_tasks :: "NewWorkflowTask list" where
  "example_tasks = map (\<lambda>at. \<lparr>nt_queue = ''memory'', nt_task_key = ''build'', nt_payload = JNull,
     nt_available_at = at, nt_max_attempts = 3\<rparr>) [1, 2]"

definition example_db2 :: workflow_db where
  "example_db2 = snd (advance_with_tasks example_draws example_db1 example_execution ''started'' JNull 1 example_tasks)"

definition example_row :: "string \<Rightarrow> datetime \<Rightarrow> task_row" where
  "example_row k at = \<lparr>kr_id = Uuid k, kr_tenant_id = Uuid ''t'', kr_execution_id = Uuid ''x'',
     kr_queue = ''memory'', kr_task_key = ''build'', kr_payload = JNull, kr_status = ''queued'',
     kr_attempt = 0, kr_max_attempts = 3, kr_available_at = at, kr_claimed_at = None,
     kr_finished_at = None, kr_error = None, kr_created_at = 1, kr_updated_at = 1\<rparr>"

definition example_started :: WorkflowEventRecord where
  "example_started = \<lparr>ev_id = Uuid ''u'', ev_execution_id = Uuid ''x'', ev_sequence_no = 2,
     ev_event_name = ''started'', ev_payload = JNull, ev_created_at = 1\<rparr>"

lemma example_db2_eval:
  "example_db2 = example_db1\<lparr>workflow_events := [example_event, example_started],
     workflow_tasks := [example_row ''uu'' 1, example_row ''uuu'' 2], uuid_draws := 3\<rparr>"
  by (simp add: example_db2_def advance_with_tasks_def next_sequence_no_def int8_def
      update_execution_row_def example_db1_eval insert_workflow_event_def returning_def Let_def
      update_where_def example_tasks_def insert_workflow_task_def task_to_row_def example_row_def
      example_started_def example_draws_def example_db_def example_execution_def example_event_def
      execution_to_row_def u32_as_i32_def)

lemma example_db2_run:
  "store_run example_draws [Some (example_execution, example_event), None] example_db example_db2"
proof -
  have "store_step example_draws None example_db1 example_db2"
    by (rule store_step.advances [of _ _ _ _ _ _ _
        "fst (advance_with_tasks example_draws example_db1 example_execution ''started'' JNull 1 example_tasks)"])
      (simp add: example_db2_def)
  from store_run.then_step [OF example_db1_run this] show ?thesis by simp
qed

lemma example_db2_wf: "db_wf example_db2"
  using store_run_wf [OF example_db2_run example_empty] by simp

lemma example_db1_wf: "db_wf example_db1 \<and> numbered example_db1"
  using store_run_wf [OF example_db1_run example_empty]
  by (simp add: proper_start_def example_execution_def example_event_def)

theorem store_invariant_witness:
  "\<exists>es. event_list_by_execution example_db2 (Uuid ''x'') = Ok es \<and> map ev_sequence_no es = [1, 2]"
proof -
  have "\<forall>x e. Some (x, e) \<in> set [Some (example_execution, example_event), None] \<longrightarrow>
      ev_execution_id e = we_id x \<and> ev_sequence_no e = 1"
    by (simp add: example_execution_def example_event_def)
  then obtain es where es: "event_list_by_execution example_db2 (Uuid ''x'') = Ok es"
    and n: "map ev_sequence_no es = map int [1..<Suc (length es)]"
    using store_invariant [OF example_empty example_db2_run, of "Uuid ''x''"] by blast
  from es have "length es = 2"
    by (auto simp: example_db2_eval event_list_by_execution_def collect_event_rows example_event_def
        example_started_def)
  with es n show ?thesis by (simp add: upt_rec)
qed

text \<open>The number of a first event is stored as given.\<close>

lemma first_number_unchecked:
  "\<exists>db'. create_with_initial_event example_db example_execution (example_event\<lparr>ev_sequence_no := 7\<rparr>) = (Ok (), db') \<and>
     event_list_by_execution db' (Uuid ''x'') = Ok [example_event\<lparr>ev_sequence_no := 7\<rparr>]"
  by (simp add: example_defs event_list_by_execution_def collect_event_rows)

text \<open>An execution or a task that is written into its table is read back unchanged, for every
  value of the 32-bit attempt counters, although the columns are signed.\<close>

lemma row_roundtrip:
  "map_workflow_execution_row (execution_to_row x) = Ok x \<and>
   map_workflow_task_row (task_to_row t) = Ok t \<and>
   - (2 ^ 31) \<le> xr_attempt (execution_to_row x) \<and> xr_attempt (execution_to_row x) < 2 ^ 31"
  using u32_as_i32_range [of "we_attempt x"]
  by (simp add: execution_codec.dec_enc task_codec.dec_enc) (simp add: execution_to_row_def)

lemma u32_i32_back: "0 \<le> n \<Longrightarrow> n < 2 ^ 31 \<Longrightarrow> u32_as_i32 (i32_as_u32 n) = n"
  by (simp add: u32_as_i32_def i32_as_u32_def int_word_sint)

lemma task_row_decoded:
  assumes "map_workflow_task_row r = Ok t" and "0 \<le> kr_attempt r" and "kr_attempt r < 2 ^ 31"
  shows "wt_id t = kr_id r \<and> u32_as_i32 (wt_attempt t) = kr_attempt r \<and>
    WorkflowTaskStatus_from_str (kr_status r) = Some (wt_status t) \<and>
    wt_claimed_at t = kr_claimed_at r \<and> wt_queue t = kr_queue r \<and> wt_task_key t = kr_task_key r \<and>
    wt_available_at t = kr_available_at r \<and> wt_execution_id t = kr_execution_id r"
  using assms
  by (auto simp: map_workflow_task_row_def u32_i32_back ok_or_eq_Ok elim!: and_then_OkE)

definition claimed_row :: "datetime \<Rightarrow> task_row \<Rightarrow> task_row" where
  "claimed_row now row = row\<lparr>kr_status := ''claimed'', kr_attempt := kr_attempt row + 1,
     kr_claimed_at := Some now, kr_updated_at := now, kr_error := None\<rparr>"

lemma claimed_row_readable: "\<exists>t. map_workflow_task_row (claimed_row now row) = Ok t"
  by (simp add: map_workflow_task_row_def claimed_row_def WorkflowTaskStatus_from_str_def)

text \<open>With unique ids, replacing the row of an id is replacing the row.\<close>

lemma update_where_id:
  assumes "distinct (map kr_id rows)" and "row \<in> set rows"
  shows "update_where (\<lambda>r. kr_id r = kr_id row) f rows =
    map (\<lambda>r. if kr_id r = kr_id row then f row else r) rows"
  using assms by (auto simp: update_where_def dest: distinct_key_eq)

text \<open>The three outcomes of a claim.\<close>

lemma claim_cases:
  assumes "db_wf db" and "claim_next_available db locked queue key now = (r, db')"
  obtains
    (none) "r = Ok None" "db' = db"
      "\<And>row. row \<in> set (workflow_tasks db) \<Longrightarrow> \<not> claimable locked queue key now row"
  | (overflow) "r = Err IntegerOutOfRange" "db' = db"
  | (claimed) row t where "row \<in> set (workflow_tasks db)" "claimable locked queue key now row"
      "\<And>row'. row' \<in> set (workflow_tasks db) \<Longrightarrow> claimable locked queue key now row' \<Longrightarrow>
        (kr_available_at row, kr_created_at row) \<le> (kr_available_at row', kr_created_at row')"
      "0 \<le> kr_attempt row" "kr_attempt row + 1 < 2 ^ 31"
      "map_workflow_task_row (claimed_row now row) = Ok t" "r = Ok (Some t)"
      "db' = db\<lparr>workflow_tasks := map (\<lambda>r. if kr_id r = kr_id row then claimed_row now row else r)
         (workflow_tasks db)\<rparr>"
proof (cases "first_by (\<lambda>r. (kr_available_at r, kr_created_at r))
    (filter (claimable locked queue key now) (workflow_tasks db))")
  case None
  then have "r = Ok None" "db' = db"
    using assms(2) by (simp_all add: claim_next_available_def)
  moreover from None have "filter (claimable locked queue key now) (workflow_tasks db) = []"
    by simp
  ultimately show thesis by (intro none) (simp_all add: filter_empty_conv)
next
  case (Some row)
  note row = first_by_filterD [OF Some]
  have a: "0 \<le> kr_attempt row" and ids: "distinct (map kr_id (workflow_tasks db))"
    using row assms(1) by (simp_all add: db_wf_def)
  show thesis
  proof (cases "kr_attempt row + 1 < 2 ^ 31")
    case True
    then have "int4 (kr_attempt row + 1) = Ok (kr_attempt row + 1)"
      using a by (simp add: int4_def)
    then have c: "r = and_then (map_workflow_task_row (claimed_row now row)) (\<lambda>t. Ok (Some t))"
      "db' = db\<lparr>workflow_tasks := update_where (\<lambda>r. kr_id r = kr_id row)
        (\<lambda>r. r\<lparr>kr_status := ''claimed'', kr_attempt := kr_attempt row + 1,
          kr_claimed_at := Some now, kr_updated_at := now, kr_error := None\<rparr>) (workflow_tasks db)\<rparr>"
      using assms(2) Some
      by (simp_all add: claim_next_available_def Let_def claimed_row_def)
    obtain t where "map_workflow_task_row (claimed_row now row) = Ok t"
      using claimed_row_readable by blast
    with c row a True show thesis
      by (intro claimed [of row t])
        (simp_all add: update_where_id [OF ids] flip: claimed_row_def)
  next
    case False
    then have "int4 (kr_attempt row + 1) = Err IntegerOutOfRange"
      by (simp add: int4_def)
    with assms(2) Some show thesis
      by (intro overflow) (simp_all add: claim_next_available_def)
  qed
qed

text \<open>claiming a task. Nothing is returned, and nothing changed, exactly when no row of the
  queue is claimable (queued, available, of the asked task key and not locked by another claim);
  otherwise the claimable row that became available first is returned as claimed, with one
  attempt more, its row is the only one that changes, and it now holds exactly the returned task.
  The only error is an attempt counter at the end of its range.\<close>

theorem claim_next_spec:
  assumes "db_wf db"
  shows "case claim_next_available db locked queue key now of
      (Inr None, db') \<Rightarrow> db' = db \<and>
        (\<forall>row \<in> set (workflow_tasks db). \<not> claimable locked queue key now row)
    | (Inr (Some t), db') \<Rightarrow>
        (\<exists>row \<in> set (workflow_tasks db). kr_id row = wt_id t \<and>
          claimable locked queue key now row \<and>
          (\<forall>row' \<in> set (workflow_tasks db). claimable locked queue key now row' \<longrightarrow>
            (kr_available_at row, kr_created_at row) \<le> (kr_available_at row', kr_created_at row')) \<and>
          u32_as_i32 (wt_attempt t) = kr_attempt row + 1 \<and>
          map_workflow_task_row (claimed_row now row) = Ok t) \<and>
        wt_status t = WorkflowTaskStatus.Claimed \<and> wt_claimed_at t = Some now \<and>
        db' = db\<lparr>workflow_tasks :=
          map (\<lambda>r. if kr_id r = wt_id t then claimed_row now r else r) (workflow_tasks db)\<rparr>
    | (Inl e, db') \<Rightarrow> e = IntegerOutOfRange \<and> db' = db"
proof (cases "claim_next_available db locked queue key now")
  case (Pair r db')
  from assms Pair show ?thesis
  proof (cases rule: claim_cases)
    case (claimed row t)
    have t: "wt_id t = kr_id row" "u32_as_i32 (wt_attempt t) = kr_attempt row + 1"
      "wt_status t = WorkflowTaskStatus.Claimed" "wt_claimed_at t = Some now"
      using task_row_decoded [OF claimed(6)] claimed(4,5)
      by (simp_all add: claimed_row_def WorkflowTaskStatus_from_str_def)
    have "map (\<lambda>r. if kr_id r = kr_id row then claimed_row now row else r) (workflow_tasks db) =
        map (\<lambda>r. if kr_id r = kr_id row then claimed_row now r else r) (workflow_tasks db)"
      using assms claimed(1) by (auto simp: db_wf_def dest: distinct_key_eq)
    with claimed t Pair show ?thesis by auto
  qed (use Pair in auto)
qed

definition example_claimed :: "datetime \<Rightarrow> task_row \<Rightarrow> WorkflowTask" where
  "example_claimed now r = \<lparr>wt_id = kr_id r, wt_tenant_id = kr_tenant_id r,
     wt_execution_id = kr_execution_id r, wt_queue = kr_queue r, wt_task_key = kr_task_key r,
     wt_payload = kr_payload r, wt_status = WorkflowTaskStatus.Claimed, wt_attempt = 1,
     wt_max_attempts = 3, wt_available_at = kr_available_at r, wt_claimed_at = Some now,
     wt_finished_at = None, wt_error = None, wt_created_at = kr_created_at r, wt_updated_at = now\<rparr>"

lemma claim_example:
  assumes "workflow_tasks db = rows" and "first_by (\<lambda>r. (kr_available_at r, kr_created_at r))
    (filter (claimable locked queue key now) rows) = Some (example_row k at)"
  shows "claim_next_available db locked queue key now = (Ok (Some (example_claimed now (example_row k at))),
    db\<lparr>workflow_tasks := update_where (\<lambda>r. kr_id r = Uuid k)
      (\<lambda>r. r\<lparr>kr_status := ''claimed'', kr_attempt := 1, kr_claimed_at := Some now,
        kr_updated_at := now, kr_error := None\<rparr>) rows\<rparr>)"
  using assms
  by (simp add: claim_next_available_def int4_def Let_def map_workflow_task_row_def
      WorkflowTaskStatus_from_str_def example_row_def example_claimed_def i32_as_u32_def)

lemma example_first_claim:
  "claim_next_available example_db2 [] ''memory'' None 5 =
    (Ok (Some (example_claimed 5 (example_row ''uu'' 1))), example_db2\<lparr>workflow_tasks :=
       [claimed_row 5 (example_row ''uu'' 1), example_row ''uuu'' 2]\<rparr>)"
  by (subst claim_example [of _ "[example_row ''uu'' 1, example_row ''uuu'' 2]" _ _ _ _ "''uu''" 1])
    (simp_all add: example_db2_eval claimable_def example_row_def claimed_row_def update_where_def)

lemma example_other_claim:
  "claim_next_available example_db2 [Uuid ''uu''] ''memory'' None 6 =
    (Ok (Some (example_claimed 6 (example_row ''uuu'' 2))), example_db2\<lparr>workflow_tasks :=
       [example_row ''uu'' 1, claimed_row 6 (example_row ''uuu'' 2)]\<rparr>)"
  by (subst claim_example [of _ "[example_row ''uu'' 1, example_row ''uuu'' 2]" _ _ _ _ "''uuu''" 2])
    (simp_all add: example_db2_eval claimable_def example_row_def claimed_row_def update_where_def)

lemma example_second_claim:
  "claim_next_available (example_db2\<lparr>workflow_tasks :=
       [claimed_row 5 (example_row ''uu'' 1), example_row ''uuu'' 2]\<rparr>) [] ''memory'' None 6 =
    (Ok (Some (example_claimed 6 (example_row ''uuu'' 2))), example_db2\<lparr>workflow_tasks :=
       [claimed_row 5 (example_row ''uu'' 1), claimed_row 6 (example_row ''uuu'' 2)]\<rparr>)"
  by (subst claim_example [of _ "[claimed_row 5 (example_row ''uu'' 1), example_row ''uuu'' 2]" _ _ _ _ "''uuu''" 2])
    (simp_all add: example_db2_eval claimable_def example_row_def claimed_row_def update_where_def)

theorem claim_next_spec_witness:
  "db_wf example_db2 \<and> (\<exists>t db'. claim_next_available example_db2 [] ''memory'' None 5 = (Ok (Some t), db') \<and>
     wt_claimed_at t = Some 5)"
  using claim_next_spec [OF example_db2_wf, of "[]" "''memory''" None 5] example_db2_wf
  by (simp add: example_first_claim)

text \<open>A claim as the work queue interface sees it: the request names the locked rows, the queue,
  the task key and the time.\<close>

definition task_claim ::
    "workflow_db \<Rightarrow> uuid list \<times> string \<times> string option \<times> datetime \<Rightarrow>
     WorkflowTaskId option \<times> workflow_db" where
  "task_claim db req =
     (case req of (locked, queue, key, now) \<Rightarrow>
      case claim_next_available db locked queue key now of
        (Inr (Some t), db') \<Rightarrow> (Some (wt_id t), db')
      | (Inr None, db') \<Rightarrow> (None, db')
      | (Inl e, db') \<Rightarrow> (None, db'))"

definition queued_ids :: "workflow_db \<Rightarrow> uuid set" where
  "queued_ids db = {kr_id r |r. r \<in> set (workflow_tasks db) \<and> kr_status r = ''queued''}"

lemma claim_queued_ids:
  assumes "db_wf db" and "claim_next_available db locked queue key now = (r, db')"
  shows "db_wf db' \<and> queued_ids db' \<subseteq> queued_ids db \<and>
    (\<forall>t. r = Ok (Some t) \<longrightarrow> wt_id t \<in> queued_ids db \<and> wt_id t \<notin> queued_ids db' \<and>
      wt_id t \<notin> set locked)"
  using assms
proof (cases rule: claim_cases)
  case (claimed row t)
  have "wt_id t = kr_id row"
    using task_row_decoded [OF claimed(6)] claimed(4,5) by (simp add: claimed_row_def)
  moreover have "db_wf db'"
    using claim_wf [OF assms(2,1)] by simp
  moreover have "queued_ids db' = queued_ids db - {kr_id row}"
    unfolding queued_ids_def claimed(8) by (auto simp: claimed_row_def split: if_splits)
  moreover have "kr_id row \<in> queued_ids db" "kr_id row \<notin> set locked"
    using claimed(1,2) by (auto simp: queued_ids_def claimable_def)
  ultimately show ?thesis
    using claimed(7) by simp
qed (use assms in simp_all)

interpretation task_queue: work_queue task_claim queued_ids db_wf
proof
  fix db and req :: "uuid list \<times> string \<times> string option \<times> datetime" and i
  assume wf: "db_wf db"
  obtain locked queue key now where req: "req = (locked, queue, key, now)" by (cases req)
  obtain r db' where c: "claim_next_available db locked queue key now = (r, db')" by fastforce
  note q = claim_queued_ids [OF wf c]
  have snd: "snd (task_claim db req) = db'"
    using c by (cases r) (auto simp: task_claim_def req split: option.splits)
  have fst: "fst (task_claim db req) = (case r of Inr (Some t) \<Rightarrow> Some (wt_id t) | _ \<Rightarrow> None)"
    using c by (cases r) (auto simp: task_claim_def req split: option.splits)
  show "db_wf (snd (task_claim db req))" "queued_ids (snd (task_claim db req)) \<subseteq> queued_ids db"
    using q snd by simp_all
  assume "fst (task_claim db req) = Some i"
  with q snd show "i \<in> queued_ids db \<and> i \<notin> queued_ids (snd (task_claim db req))"
    unfolding fst by (auto split: sum.splits option.splits)
qed

text \<open>C16: no task is handed out twice. Among any number of claims that follow one another, on
  whatever queues and keys, all claimed tasks are different and were queued before; and a claim
  that runs while another holds the row it has picked takes a different one.\<close>

theorem claim_exclusive:
  assumes "db_wf db"
  shows "distinct (claim_all task_claim db reqs) \<and>
    set (claim_all task_claim db reqs) \<subseteq> queued_ids db \<and>
    (\<forall>t t' db' db'' . claim_next_available db locked queue key now = (Ok (Some t), db') \<longrightarrow>
      claim_next_available db (wt_id t # locked) queue' key' now' = (Ok (Some t'), db'') \<longrightarrow>
      wt_id t' \<noteq> wt_id t)"
proof -
  have "wt_id t' \<noteq> wt_id t"
    if "claim_next_available db (wt_id t # locked) queue' key' now' = (Ok (Some t'), db'')" for t t' db''
    using claim_queued_ids [OF assms that] by auto
  with task_queue.claim_all_waiting [OF assms] show ?thesis by blast
qed

theorem claim_exclusive_witness:
  "claim_all task_claim example_db2 [([], ''memory'', None, 5), ([], ''memory'', None, 6)] =
     [Uuid ''uu'', Uuid ''uuu''] \<and> {Uuid ''uu'', Uuid ''uuu''} \<subseteq> queued_ids example_db2 \<and>
   (\<exists>t t' db' db''. claim_next_available example_db2 [] ''memory'' None 5 = (Ok (Some t), db') \<and>
      claim_next_available example_db2 [wt_id t] ''memory'' None 6 = (Ok (Some t'), db'') \<and>
      wt_id t' \<noteq> wt_id t)"
proof -
  let ?reqs = "[([] :: uuid list, ''memory'', None :: string option, 5 :: datetime), ([], ''memory'', None, 6)]"
  have all: "claim_all task_claim example_db2 ?reqs = [Uuid ''uu'', Uuid ''uuu'']"
    by (simp add: task_claim_def example_first_claim example_second_claim)
      (simp add: example_claimed_def example_row_def)
  note excl = claim_exclusive [OF example_db2_wf, of ?reqs "[]" "''memory''" None 5 "''memory''" None 6]
  let ?t = "example_claimed 5 (example_row ''uu'' 1)" and ?t' = "example_claimed 6 (example_row ''uuu'' 2)"
  have id: "wt_id ?t = Uuid ''uu''"
    by (simp add: example_claimed_def example_row_def)
  obtain db' where c: "claim_next_available example_db2 [] ''memory'' None 5 = (Ok (Some ?t), db')"
    using example_first_claim by blast
  obtain db'' where c': "claim_next_available example_db2 [wt_id ?t] ''memory'' None 6 = (Ok (Some ?t'), db'')"
    using example_other_claim unfolding id by blast
  have "wt_id ?t' \<noteq> wt_id ?t" using excl c c' by blast
  with excl [unfolded all] all c c' show ?thesis by (metis list.simps(15) empty_set)
qed

lemma find_key:
  assumes "distinct (map key rows)" and "r \<in> set rows"
  shows "find (\<lambda>x. key x = key r) rows = Some r"
  using assms by (induction rows) auto

text \<open>An update by id rewrites the one row that has it and returns this row.\<close>

lemma update_task_found:
  assumes "distinct (map kr_id (workflow_tasks db))" and "r \<in> set (workflow_tasks db)"
    and "kr_id r = k"
  shows "update_task_returning db k f = (map_workflow_task_row (f r),
    db\<lparr>workflow_tasks := update_where (\<lambda>r. kr_id r = k) f (workflow_tasks db)\<rparr>)"
proof -
  have "filter (\<lambda>x. kr_id x = kr_id r) rows = [r]"
    if "distinct (map kr_id rows)" and "r \<in> set rows" for rows
    using that by (induction rows) (auto simp: filter_empty_conv rev_image_eqI)
  with assms show ?thesis
    by (auto simp: update_task_returning_def returning_def)
qed

text \<open>giving a claimed task back. The non-consuming requeue restores the attempt counter the
  row had before the claim, the consuming one leaves the attempt counted; both make the task
  claimable again from the given time on, with no claim time.\<close>

theorem requeue_attempts:
  assumes "db_wf db" and "claim_next_available db locked queue key now = (Ok (Some t), db1)"
    and "row \<in> set (workflow_tasks db)" and "kr_id row = wt_id t"
  shows "(\<exists>t2 db2. requeue_after_non_consuming_transient_error db1 (wt_id t) err at now' = (Ok t2, db2) \<and>
      wt_status t2 = WorkflowTaskStatus.Queued \<and> u32_as_i32 (wt_attempt t2) = kr_attempt row \<and>
      wt_claimed_at t2 = None \<and> wt_available_at t2 = at) \<and>
    (\<exists>t2 db2. requeue_after_transient_error db1 (wt_id t) err at now' = (Ok t2, db2) \<and>
      wt_status t2 = WorkflowTaskStatus.Queued \<and> u32_as_i32 (wt_attempt t2) = kr_attempt row + 1 \<and>
      wt_claimed_at t2 = None \<and> wt_available_at t2 = at)"
  using assms(1,2)
proof (cases rule: claim_cases)
  case (claimed row' t')
  have t: "wt_id t = kr_id row'"
    using task_row_decoded [OF claimed(6)] claimed(4,5,7) by (simp add: claimed_row_def)
  have "row' = row"
    using assms(1,3,4) claimed(1) t by (auto simp: db_wf_def dest: distinct_key_eq)
  have ids: "distinct (map kr_id (workflow_tasks db1))"
    using claim_wf [OF assms(2,1)] by (simp add: db_wf_def)
  have mem: "claimed_row now row \<in> set (workflow_tasks db1)"
    using claimed(1,8) \<open>row' = row\<close> by auto
  have id: "kr_id (claimed_row now row) = wt_id t"
    using t \<open>row' = row\<close> by (simp add: claimed_row_def)
  have "find (\<lambda>r. kr_id r = wt_id t) (workflow_tasks db1) = Some (claimed_row now row)"
    using find_key [OF ids mem] id by simp
  then show ?thesis
    using claimed(4,5) \<open>row' = row\<close> update_task_found [OF ids mem id]
    by (simp add: requeue_after_non_consuming_transient_error_def requeue_after_transient_error_def
        map_workflow_task_row_def claimed_row_def int4_def WorkflowTaskStatus_from_str_def
        u32_i32_back)
qed simp_all

theorem requeue_attempts_witness:
  "\<exists>db t db1 t2 db2. claim_next_available db [] ''memory'' None 5 = (Ok (Some t), db1) \<and>
     requeue_after_non_consuming_transient_error db1 (wt_id t) ''busy'' 9 6 = (Ok t2, db2) \<and>
     u32_as_i32 (wt_attempt t2) = 0"
proof -
  define row where "row = \<lparr>kr_id = Uuid ''k'', kr_tenant_id = Uuid ''t'', kr_execution_id = Uuid ''x'',
    kr_queue = ''memory'', kr_task_key = ''refresh'', kr_payload = JNull, kr_status = ''queued'',
    kr_attempt = 0, kr_max_attempts = 3, kr_available_at = 1, kr_claimed_at = None,
    kr_finished_at = None, kr_error = None, kr_created_at = 1, kr_updated_at = 1\<rparr>"
  define db where "db = example_db1\<lparr>workflow_tasks := [row]\<rparr>"
  have tasks: "workflow_tasks db = [row]" by (simp add: db_def)
  have wf: "db_wf db"
    by (simp add: db_def db_wf_def example_db1_eval row_def readable_written readable_task_def
        WorkflowTaskStatus_from_str_def)
      (simp add: example_db_def example_execution_def example_event_def execution_to_row_def)
  obtain t db1 where c: "claim_next_available db [] ''memory'' None 5 = (Ok (Some t), db1)"
    by (simp add: claim_next_available_def tasks claimable_def row_def int4_def Let_def
        map_workflow_task_row_def WorkflowTaskStatus_from_str_def)
  have "kr_id row = wt_id t"
    using c by (auto simp: claim_next_available_def tasks claimable_def row_def int4_def Let_def
        map_workflow_task_row_def WorkflowTaskStatus_from_str_def)
  then obtain t2 db2 where
    "requeue_after_non_consuming_transient_error db1 (wt_id t) ''busy'' 9 6 = (Ok t2, db2)"
    "u32_as_i32 (wt_attempt t2) = kr_attempt row"
    using requeue_attempts [OF wf c, of row "''busy''" 9 6] tasks by auto
  with c show ?thesis
    by (intro exI [of _ db] exI [of _ t] exI [of _ db1] exI [of _ t2] exI [of _ db2])
      (simp add: row_def)
qed

lemma insert_tasks_appends:
  "insert_workflow_tasks new_v4 db x ts now = (Ok persisted, db') \<Longrightarrow>
   workflow_tasks db' = workflow_tasks db @ map task_to_row persisted \<and>
   map (\<lambda>t. (wt_queue t, wt_task_key t, wt_payload t, wt_max_attempts t)) persisted =
     map (\<lambda>t. (nt_queue t, nt_task_key t, nt_payload t, nt_max_attempts t)) ts \<and>
   (\<forall>t \<in> set persisted. wt_execution_id t = we_id x \<and> wt_tenant_id t = we_tenant_id x \<and>
     wt_status t = WorkflowTaskStatus.Queued \<and> wt_attempt t = 0)"
proof (induction ts arbitrary: db persisted)
  case (Cons t ts)
  from Cons.prems obtain k db1 ks where
    i: "insert_workflow_task new_v4 db x t now = (Ok k, db1)"
    and rest: "insert_workflow_tasks new_v4 db1 x ts now = (Ok ks, db')" and p: "persisted = k # ks"
    by (auto split: prod.splits sum.splits)
  from i have "workflow_tasks db1 = workflow_tasks db @ [task_to_row k]"
    "wt_queue k = nt_queue t" "wt_task_key k = nt_task_key t" "wt_payload k = nt_payload t"
    "wt_max_attempts k = nt_max_attempts t" "wt_execution_id k = we_id x"
    "wt_tenant_id k = we_tenant_id x" "wt_status k = WorkflowTaskStatus.Queued" "wt_attempt k = 0"
    by (auto simp: insert_workflow_task_def Let_def split: if_splits)
  with Cons.IH [OF rest] p show ?case by simp
qed simp

lemma execution_lookup:
  assumes "distinct (map xr_id (workflow_executions db))" and "r \<in> set (workflow_executions db)"
    and "xr_id r = i" and "xr_tenant_id r = tenant" and "map_workflow_execution_row r = Ok x"
  shows "execution_get_by_id db tenant i = Ok (Some x)"
proof -
  have "filter (\<lambda>r. xr_tenant_id r = tenant \<and> xr_id r = i) rows = [r]"
    if "distinct (map xr_id rows)" and "r \<in> set rows" for rows
    using that assms(3,4) by (induction rows) (auto simp: filter_empty_conv rev_image_eqI)
  with assms show ?thesis by (simp add: execution_get_by_id_def)
qed

lemma execution_lookupD:
  assumes "execution_get_by_id db tenant i = Ok (Some x)"
  obtains r where "r \<in> set (workflow_executions db)" and "xr_id r = i" and "xr_tenant_id r = tenant"
    and "map_workflow_execution_row r = Ok x"
proof -
  obtain r where r: "fetch_optional (filter (\<lambda>r. xr_tenant_id r = tenant \<and> xr_id r = i)
      (workflow_executions db)) = Some r" and "map_workflow_execution_row r = Ok x"
    using assms unfolding execution_get_by_id_def
    by (cases "fetch_optional (filter (\<lambda>r. xr_tenant_id r = tenant \<and> xr_id r = i)
      (workflow_executions db))") (auto elim!: and_then_OkE)
  with that fetch_optional_SomeD [OF r] show thesis by auto
qed

lemma advance_with_tasks_effect:
  assumes "db_wf db" and "numbered db"
    and "execution_get_by_id db (we_tenant_id x) (we_id x) = Ok (Some old)"
    and "advance_with_tasks new_v4 db x name payload now ts = (r, db')"
  shows "case r of
      Inl e \<Rightarrow> workflow_executions db' = workflow_executions db \<and>
        workflow_events db' = workflow_events db \<and> workflow_tasks db' = workflow_tasks db
    | Inr (e, persisted) \<Rightarrow>
        execution_get_by_id db' (we_tenant_id x) (we_id x) =
          Ok (Some (old\<lparr>we_version := we_version x, we_stage := we_stage x,
            we_status := we_status x, we_attempt := we_attempt x, we_context := we_context x,
            we_updated_at := we_updated_at x\<rparr>)) \<and>
        workflow_events db' = workflow_events db @ [e] \<and>
        ev_sequence_no e = int (length (execution_events db (we_id x))) + 1 \<and>
        ev_event_name e = name \<and> ev_payload e = payload \<and>
        workflow_tasks db' = workflow_tasks db @ map task_to_row persisted \<and>
        map (\<lambda>t. (wt_queue t, wt_task_key t, wt_payload t, wt_max_attempts t)) persisted =
          map (\<lambda>t. (nt_queue t, nt_task_key t, nt_payload t, nt_max_attempts t)) ts \<and>
        (\<forall>t \<in> set persisted. wt_execution_id t = we_id x \<and>
          wt_status t = WorkflowTaskStatus.Queued \<and> wt_attempt t = 0)"
proof (cases r)
  case (Inl e)
  with advance_with_tasks_Err [of new_v4 db x name payload now ts e db'] assms(4)
  show ?thesis by auto
next
  case (Inr v)
  obtain e persisted where v: "v = (e, persisted)" by (cases v)
  from assms(4) Inr v obtain db1 db2 n where n: "next_sequence_no db (we_id x) = Ok n"
    and up: "update_execution_row db x = Ok db1"
    and e: "e = \<lparr>ev_id = new_v4 (uuid_draws db), ev_execution_id = we_id x, ev_sequence_no = n,
       ev_event_name = name, ev_payload = payload, ev_created_at = now\<rparr>"
    and ie: "insert_workflow_event (db1\<lparr>uuid_draws := Suc (uuid_draws db)\<rparr>) e = Ok db2"
    and it: "insert_workflow_tasks new_v4 db2 x ts now = (Ok persisted, db')"
    by (auto elim!: advance_with_tasks_OkE)
  obtain row where row: "row \<in> set (workflow_executions db)" "xr_id row = we_id x"
    "xr_tenant_id row = we_tenant_id x" "map_workflow_execution_row row = Ok old"
    using execution_lookupD [OF assms(3)] by blast
  note tasks = insert_tasks_appends [OF it] and keep = insert_tasks_events [OF it]
    and ev = insert_event_tables [OF ie]
  have t1: "workflow_tasks db1 = workflow_tasks db" "workflow_events db1 = workflow_events db"
    using update_execution_tables [OF up] by auto
  let ?row = "row\<lparr>xr_version := we_version x, xr_stage := we_stage x,
    xr_status := WorkflowStatus_as_str (we_status x), xr_attempt := u32_as_i32 (we_attempt x),
    xr_context := we_context x, xr_updated_at := we_updated_at x\<rparr>"
  have "?row \<in> set (workflow_executions db1)"
    using up row by (auto simp: update_execution_row_def Let_def set_update_where split: if_splits)
  moreover have "map_workflow_execution_row ?row =
      Ok (old\<lparr>we_version := we_version x, we_stage := we_stage x, we_status := we_status x,
        we_attempt := we_attempt x, we_context := we_context x, we_updated_at := we_updated_at x\<rparr>)"
    using row(4)
    by (auto simp: map_workflow_execution_row_def ok_or_eq_Ok WorkflowStatus_wire.from_as
        elim!: and_then_OkE)
  moreover have "distinct (map xr_id (workflow_executions db1))"
    using update_execution_wf [OF up assms(1)] by (simp add: db_wf_def)
  ultimately have "execution_get_by_id db' (we_tenant_id x) (we_id x) =
      Ok (Some (old\<lparr>we_version := we_version x, we_stage := we_stage x, we_status := we_status x,
        we_attempt := we_attempt x, we_context := we_context x, we_updated_at := we_updated_at x\<rparr>))"
    using keep ev row by (intro execution_lookup [of _ ?row]) simp_all
  with Inr v tasks keep ev t1 e next_sequence_numbered [OF assms(2) n] show ?thesis
    by simp
qed


lemma example_db1_lookup:
  "execution_get_by_id example_db1 (Uuid ''t'') (Uuid ''x'') = Ok (Some example_execution)"
  by (rule execution_lookup [of _ "execution_to_row example_execution"])
    (simp_all add: example_db1_eval execution_codec.dec_enc,
     simp_all add: example_execution_def execution_to_row_def)


text \<open>a parse task is enqueued once per deduplication key. After a call that created one, a
  second call for the same tenant, queue, task key and deduplication key does nothing and returns
  no task, as long as the first task is queued or claimed; a failing call leaves the tables
  as they were.\<close>

theorem asset_parse_dedupe:
  assumes "create_asset_parse_if_absent json_text new_v4 db x e t key now = (Ok (Some p), db1)"
    and "json_get (nt_payload t) ''dedupe_key'' = Some (JString key)"
    and "we_tenant_id x' = we_tenant_id x" and "nt_queue t' = nt_queue t"
    and "nt_task_key t' = nt_task_key t"
    and "task_to_row p \<in> set (workflow_tasks db2)"
  shows "create_asset_parse_if_absent json_text new_v4 db2 x' e' t' key now' = (Ok None, db2)"
proof -
  obtain dbx where "insert_workflow_task new_v4 dbx x t now = (Ok p, db1)"
    using assms(1)
    by (auto simp: create_asset_parse_if_absent_def split: option.splits sum.splits prod.splits)
  then have "kr_tenant_id (task_to_row p) = we_tenant_id x \<and> kr_queue (task_to_row p) = nt_queue t \<and>
      kr_task_key (task_to_row p) = nt_task_key t \<and> active_task (task_to_row p) \<and>
      payload_text_is json_text (kr_payload (task_to_row p)) ''dedupe_key'' key"
    using assms(2)
    by (auto simp: insert_workflow_task_def Let_def task_to_row_def active_task_def
        payload_text_is_def split: if_splits)
  then have "filter (\<lambda>r. kr_tenant_id r = we_tenant_id x' \<and> kr_queue r = nt_queue t' \<and>
      kr_task_key r = nt_task_key t' \<and> active_task r \<and>
      payload_text_is json_text (kr_payload r) ''dedupe_key'' key) (workflow_tasks db2) \<noteq> []"
    using assms(3-6) by (auto simp: filter_empty_conv)
  then show ?thesis
    unfolding create_asset_parse_if_absent_def
    by (auto split: option.splits)
qed

theorem asset_parse_dedupe_witness:
  "\<exists>t p db1. create_asset_parse_if_absent (\<lambda>_. []) (\<lambda>n. Uuid ''u'') example_db example_execution
       example_event t ''k'' 3 = (Ok (Some p), db1) \<and>
     create_asset_parse_if_absent (\<lambda>_. []) (\<lambda>n. Uuid ''u'') db1 example_execution
       example_event t ''k'' 4 = (Ok None, db1)"
proof -
  define t where "t = \<lparr>nt_queue = ''ingest'', nt_task_key = ''parse'',
    nt_payload = JObject [(''dedupe_key'', JString ''k'')], nt_available_at = 3, nt_max_attempts = 3\<rparr>"
  obtain p db1 where c: "create_asset_parse_if_absent (\<lambda>_. []) (\<lambda>n. Uuid ''u'') example_db
      example_execution example_event t ''k'' 3 = (Ok (Some p), db1)"
    by (simp add: create_asset_parse_if_absent_def insert_workflow_task_def Let_def example_defs
        task_to_row_def)
  have "task_to_row p \<in> set (workflow_tasks db1)"
    using c
    by (auto simp: create_asset_parse_if_absent_def insert_workflow_task_def Let_def
        split: option.splits sum.splits prod.splits if_splits)
  then have "create_asset_parse_if_absent (\<lambda>_. []) (\<lambda>n. Uuid ''u'') db1 example_execution
       example_event t ''k'' 4 = (Ok None, db1)"
    using asset_parse_dedupe [OF c, of example_execution t db1 example_event 4]
    by (simp add: t_def)
  with c show ?thesis by blast
qed

end
