(* ===== verification/Event_Bus.thy ===== *)
theory Event_Bus
  imports Domain_Model
begin

text \<open>
  The crate \<open>event-bus\<close> and the notifications \<open>platform-api\<close> sends after a workflow transition:
  the subjects, the three kinds of bus and what publishing does on each. The client of the NATS
  server is not part of the sources; what is modelled of it is the list of the messages that were
  handed to it. A failing publish is only logged, so publishing has no result.
\<close>

section \<open>Subjects\<close>

definition TASK_ENQUEUED_SUBJECT_PREFIX :: string where
  "TASK_ENQUEUED_SUBJECT_PREFIX = ''workflow.task.enqueued''"

definition EXECUTION_TRANSITIONED_SUBJECT_PREFIX :: string where
  "EXECUTION_TRANSITIONED_SUBJECT_PREFIX = ''workflow.execution.transitioned''"

text \<open>\<open>chars().map(..)\<close>: a character outside the ASCII letters, digits, underscore and hyphen
  becomes one underscore; of its UTF-8 encoding only the lead byte starts a character.\<close>

definition subject_char :: "char \<Rightarrow> bool" where
  "subject_char c =
     (let n = (of_char c :: nat) in
      97 \<le> n \<and> n \<le> 122 \<or> 65 \<le> n \<and> n \<le> 90 \<or> 48 \<le> n \<and> n \<le> 57 \<or>
      c = CHR ''_'' \<or> c = CHR ''-'')"

definition subject_token :: "string \<Rightarrow> string" where
  "subject_token value =
     map (\<lambda>ch. if subject_char ch then ch else CHR ''_'')
       (filter (\<lambda>ch. \<not> is_continuation_byte ch) value)"

definition workflow_task_enqueued_subject :: "string \<Rightarrow> string \<Rightarrow> string" where
  "workflow_task_enqueued_subject queue task_key =
     TASK_ENQUEUED_SUBJECT_PREFIX @ ''.'' @ subject_token queue @ ''.'' @ subject_token task_key"

definition workflow_execution_transition_subject :: "string \<Rightarrow> string" where
  "workflow_execution_transition_subject workflow_kind =
     EXECUTION_TRANSITIONED_SUBJECT_PREFIX @ ''.'' @ subject_token workflow_kind"

section \<open>The bus\<close>

record EventEnvelope =
  env_subject :: string
  env_payload :: json
  env_published_at :: datetime

datatype EventBus =
    Disabled
  | InMemory "EventEnvelope list"
  | Nats "EventEnvelope list"

definition is_enabled :: "EventBus \<Rightarrow> bool" where
  "is_enabled bus = (case bus of Disabled \<Rightarrow> False | InMemory _ \<Rightarrow> True | Nats _ \<Rightarrow> True)"

definition published_events :: "EventBus \<Rightarrow> EventEnvelope list" where
  "published_events bus = (case bus of InMemory es \<Rightarrow> es | Disabled \<Rightarrow> [] | Nats _ \<Rightarrow> [])"

fun bus_publish :: "EventBus \<Rightarrow> EventEnvelope \<Rightarrow> EventBus" where
  "bus_publish Disabled event = Disabled"
| "bus_publish (InMemory events) event = InMemory (events @ [event])"
| "bus_publish (Nats sent) event = Nats (sent @ [event])"

text \<open>The JSON number of an \<open>i64\<close>; \<open>rfc3339\<close> is the text the \<open>chrono\<close> crate writes for a time.\<close>

definition json_i64 :: "int \<Rightarrow> json" where
  "json_i64 n = JNumber (if 0 \<le> n then PosInt (word_of_int n) else NegInt (word_of_int n))"

definition execution_envelope ::
    "WorkflowExecution \<Rightarrow> WorkflowEventRecord \<Rightarrow> EventEnvelope" where
  "execution_envelope execution persisted_event =
     \<lparr>env_subject = workflow_execution_transition_subject
        (WorkflowKind_as_str (we_kind execution)),
      env_payload = JObject (json_object
        [(''execution_id'', json_uuid (we_id execution)),
         (''tenant_id'', json_uuid (we_tenant_id execution)),
         (''kind'', JString (WorkflowKind_as_str (we_kind execution))),
         (''status'', JString (WorkflowStatus_as_str (we_status execution))),
         (''stage'', JString (we_stage execution)),
         (''event_name'', JString (ev_event_name persisted_event)),
         (''event_sequence_no'', json_i64 (ev_sequence_no persisted_event))]),
      env_published_at = ev_created_at persisted_event\<rparr>"

definition task_envelope :: "(datetime \<Rightarrow> string) \<Rightarrow> WorkflowTask \<Rightarrow> EventEnvelope" where
  "task_envelope rfc3339 task =
     \<lparr>env_subject = workflow_task_enqueued_subject (wt_queue task) (wt_task_key task),
      env_payload = JObject (json_object
        [(''task_id'', json_uuid (wt_id task)),
         (''tenant_id'', json_uuid (wt_tenant_id task)),
         (''execution_id'', json_uuid (wt_execution_id task)),
         (''queue'', JString (wt_queue task)),
         (''task_key'', JString (wt_task_key task)),
         (''status'', JString (WorkflowTaskStatus_as_str (wt_status task))),
         (''available_at'', JString (rfc3339 (wt_available_at task)))]),
      env_published_at = wt_created_at task\<rparr>"

definition publish_workflow_transition_events ::
    "(datetime \<Rightarrow> string) \<Rightarrow> EventBus \<Rightarrow> WorkflowExecution \<Rightarrow> WorkflowEventRecord \<Rightarrow>
     WorkflowTask list \<Rightarrow> EventBus" where
  "publish_workflow_transition_events rfc3339 event_bus execution persisted_event persisted_tasks =
     fold (\<lambda>task bus. bus_publish bus (task_envelope rfc3339 task)) persisted_tasks
       (bus_publish event_bus (execution_envelope execution persisted_event))"

section \<open>Properties\<close>

lemma subject_char_not_continuation: "subject_char c \<Longrightarrow> \<not> is_continuation_byte c"
  by (auto simp: subject_char_def is_continuation_byte_def Let_def)

lemma subject_token_chars: "set (subject_token s) \<subseteq> Collect subject_char"
  by (auto simp: subject_token_def) (simp add: subject_char_def)

lemma subject_token_id: "set s \<subseteq> Collect subject_char \<Longrightarrow> subject_token s = s"
  by (induction s) (auto simp: subject_token_def subject_char_not_continuation)

text \<open>a token of a subject has only ASCII letters, digits, underscores and hyphens, so it
  contains no separator, space or wildcard; making a token of a token changes nothing; and two
  task subjects are equal exactly when the tokens of queue and task key are.\<close>

theorem subject_tokens_safe:
  "set (subject_token s) \<subseteq> Collect subject_char \<and>
   subject_token (subject_token s) = subject_token s \<and>
   (workflow_task_enqueued_subject q k = workflow_task_enqueued_subject q' k' \<longleftrightarrow>
     subject_token q = subject_token q' \<and> subject_token k = subject_token k')"
proof -
  have dot: "CHR ''.'' \<notin> set (subject_token v)" for v
    using subject_token_chars [of v] by (auto simp: subject_char_def)
  have split: "xs @ CHR ''.'' # ys = xs' @ CHR ''.'' # ys' \<longleftrightarrow> xs = xs' \<and> ys = ys'"
    if "CHR ''.'' \<notin> set xs" and "CHR ''.'' \<notin> set xs'" for xs xs' ys ys' :: string
    using that by (induction xs arbitrary: xs') (case_tac xs'; auto)+
  show ?thesis
    using subject_token_chars [of s] subject_token_id [OF subject_token_chars [of s]]
    by (simp add: workflow_task_enqueued_subject_def split dot)
qed

lemma fold_publish_InMemory:
  "fold (\<lambda>t bus. bus_publish bus (f t)) ts (InMemory es) = InMemory (es @ map f ts)"
  by (induction ts arbitrary: es) simp_all

text \<open>After a transition an enabled in-memory bus holds, behind what it held, one notification
  of the execution and then one of every persisted task, in their order, each under the subject
  of its queue and task key; a disabled bus holds nothing.\<close>

lemma publish_transition_events:
  "published_events (publish_workflow_transition_events rfc3339 (InMemory es) x e ts) =
     es @ execution_envelope x e # map (task_envelope rfc3339) ts \<and>
   publish_workflow_transition_events rfc3339 Disabled x e ts = Disabled"
proof -
  have "fold (\<lambda>t bus. bus_publish bus (f t)) ts Disabled = Disabled" for f :: "WorkflowTask \<Rightarrow> _"
    by (induction ts) simp_all
  then show ?thesis
    by (simp add: publish_workflow_transition_events_def fold_publish_InMemory published_events_def)
qed

end
