(* ===== verification/Api_Error.thy ===== *)
theory Api_Error
  imports Workflow_Engine Workflow_Store
begin

text \<open>
  The errors of the service \<open>platform-api\<close> (\<open>ApiError\<close> in \<open>lib.rs\<close>): a status, a code and a
  message, and how the errors of the repositories and of the workflow definitions become one.
\<close>

record ApiError =
  api_status :: nat
  api_code :: string
  api_message :: string

definition bad_request :: "string \<Rightarrow> string \<Rightarrow> ApiError" where
  "bad_request code message = \<lparr>api_status = 400, api_code = code, api_message = message\<rparr>"

definition not_found :: "string \<Rightarrow> string \<Rightarrow> ApiError" where
  "not_found code message = \<lparr>api_status = 404, api_code = code, api_message = message\<rparr>"

definition unauthorized :: "string \<Rightarrow> string \<Rightarrow> ApiError" where
  "unauthorized code message = \<lparr>api_status = 401, api_code = code, api_message = message\<rparr>"

definition too_many_requests :: "string \<Rightarrow> string \<Rightarrow> ApiError" where
  "too_many_requests code message = \<lparr>api_status = 429, api_code = code, api_message = message\<rparr>"

definition internal :: "string \<Rightarrow> string \<Rightarrow> ApiError" where
  "internal code message = \<lparr>api_status = 500, api_code = code, api_message = message\<rparr>"

text \<open>\<open>db_message\<close> is the text the database driver gives for its error; a row that cannot be
  decoded carries its own message.\<close>

definition from_storage :: "(store_error \<Rightarrow> string) \<Rightarrow> store_error \<Rightarrow> ApiError" where
  "from_storage db_message error =
     (case error of
        UniqueViolation \<Rightarrow>
          \<lparr>api_status = 409, api_code = ''conflict'', api_message = db_message error\<rparr>
      | ForeignKeyViolation \<Rightarrow> bad_request ''foreign_key_violation'' (db_message error)
      | DecodeError message \<Rightarrow> internal ''storage_error'' message
      | _ \<Rightarrow> internal ''storage_error'' (db_message error))"

definition from_transition :: "WorkflowTransitionError \<Rightarrow> ApiError" where
  "from_transition error =
     (case error of
        UnsupportedSignal \<Rightarrow>
          bad_request ''unsupported_signal'' ''the requested workflow signal is not supported''
      | InvalidTransition message \<Rightarrow> bad_request ''invalid_transition'' message)"

definition map_err :: "('e \<Rightarrow> 'f) \<Rightarrow> ('a, 'e) result \<Rightarrow> ('a, 'f) result" where
  "map_err f r = (case r of Inl e \<Rightarrow> Err (f e) | Inr x \<Rightarrow> Ok x)"

lemma map_err_simps [simp]:
  "map_err f (Ok x) = Ok x"
  "map_err f (Err e) = Err (f e)"
  by (simp_all add: map_err_def)

lemma map_err_eq_Ok [simp]: "map_err f r = Ok x \<longleftrightarrow> r = Ok x"
  by (cases r) auto

text \<open>Required and optional fields of a request.\<close>

definition trim_optional :: "string option \<Rightarrow> string option" where
  "trim_optional v = Option.bind v (\<lambda>v. if trim v \<noteq> [] then Some (trim v) else None)"

definition validate_required :: "string \<Rightarrow> string \<Rightarrow> (unit, ApiError) result" where
  "validate_required field value =
     (if trim value = [] then Err (bad_request ''validation_error'' (field @ '' must not be empty''))
      else Ok ())"

definition required_field :: "string \<Rightarrow> string option \<Rightarrow> (string, ApiError) result" where
  "required_field field value =
     and_then (ok_or (bad_request ''validation_error'' (field @ '' is required'')) value) (\<lambda>value.
     and_then (validate_required field value) (\<lambda>_.
     Ok (trim value)))"

end
