(* ===== verification/Workflow_Signals.thy ===== *)
theory Workflow_Signals
  imports Workflow_Definitions Workflow_Store Event_Bus Api_Error "HOL-Library.Sublist"
begin

text \<open>
  Signals to workflow executions in \<open>platform-api\<close>: the request is turned into a signal, the
  stored execution into the runtime state of its definition, the transition back into an
  execution, and the result is committed with its event and tasks and published. The theorems
  say that a commit simulates the transition of the definition, so what \<open>Workflow_Definitions\<close>
  shows of a run of transitions holds of the rows in the database.
\<close>

section \<open>Requests\<close>

datatype WorkflowSignalKindView =
    Start | StepCompleted | StepFailed | RetryRequested | CancelRequested | PublishRequested
  | Other string

record WorkflowSignalRequest =
  sq_kind :: WorkflowSignalKindView
  sq_task_key :: "string option"
  sq_output :: "json option"
  sq_error :: "string option"
  sq_reason :: "string option"
  sq_note :: "string option"

definition build_workflow_signal ::
    "WorkflowSignalRequest \<Rightarrow> (WorkflowSignal, ApiError) result" where
  "build_workflow_signal request =
     (case sq_kind request of
        WorkflowSignalKindView.Start \<Rightarrow> Ok WorkflowSignal.Start
      | WorkflowSignalKindView.StepCompleted \<Rightarrow>
          and_then (required_field ''task_key'' (sq_task_key request)) (\<lambda>task_key.
          Ok (WorkflowSignal.StepCompleted task_key (sq_output request)))
      | WorkflowSignalKindView.StepFailed \<Rightarrow>
          and_then (required_field ''task_key'' (sq_task_key request)) (\<lambda>task_key.
          and_then (required_field ''error'' (sq_error request)) (\<lambda>error.
          Ok (WorkflowSignal.StepFailed task_key error)))
      | WorkflowSignalKindView.RetryRequested \<Rightarrow>
          and_then (required_field ''reason'' (sq_reason request)) (\<lambda>reason.
          Ok (WorkflowSignal.RetryRequested reason))
      | WorkflowSignalKindView.CancelRequested \<Rightarrow>
          and_then (required_field ''reason'' (sq_reason request)) (\<lambda>reason.
          Ok (WorkflowSignal.CancelRequested reason))
      | WorkflowSignalKindView.PublishRequested \<Rightarrow>
          Ok (WorkflowSignal.PublishRequested (sq_note request))
      | Other other \<Rightarrow>
          Err (bad_request ''invalid_signal_kind''
            (trim other @ '' is not a supported workflow signal'')))"

section \<open>Executions and runtime states\<close>

definition extract_context_object :: "json \<Rightarrow> (json_map, ApiError) result" where
  "extract_context_object value =
     (case value of
        JObject m \<Rightarrow> Ok m
      | JNull \<Rightarrow> Ok []
      | _ \<Rightarrow> Err (internal ''invalid_execution_context''
          ''workflow execution context must be a JSON object''))"

definition workflow_runtime_state_from_execution ::
    "WorkflowExecution \<Rightarrow> (WorkflowRuntimeState, ApiError) result" where
  "workflow_runtime_state_from_execution execution =
     and_then (extract_context_object (we_context execution)) (\<lambda>context.
     let retries_remaining =
           (case Option.bind (map_of context ''retries_remaining'') json_as_u64 of
              Some n \<Rightarrow> ucast n
            | None \<Rightarrow> 3)
     in Ok \<lparr>rs_execution_id = we_id execution, rs_kind = we_kind execution,
            rs_version = we_version execution, rs_stage = we_stage execution,
            rs_status = we_status execution, rs_retries_remaining = retries_remaining,
            rs_context = map_remove ''retries_remaining'' context,
            rs_updated_at = we_updated_at execution\<rparr>)"

definition next_attempt :: "WorkflowStatus \<Rightarrow> 32 word \<Rightarrow> WorkflowStatus \<Rightarrow> 32 word" where
  "next_attempt previous_status previous_attempt next_status =
     (if previous_status = WorkflowStatus.Pending \<and> next_status = WorkflowStatus.Running
      then previous_attempt + 1 else previous_attempt)"

definition workflow_execution_from_transition ::
    "WorkflowExecution \<Rightarrow> WorkflowRuntimeState \<Rightarrow> WorkflowExecution" where
  "workflow_execution_from_transition previous state' =
     \<lparr>we_id = we_id previous, we_tenant_id = we_tenant_id previous,
      we_dataset_id = we_dataset_id previous, we_report_plan_id = we_report_plan_id previous,
      we_kind = rs_kind state', we_version = rs_version state',
      we_stage = rs_stage state', we_status = rs_status state',
      we_attempt = next_attempt (we_status previous) (we_attempt previous) (rs_status state'),
      we_context = JObject (map_insert ''retries_remaining''
        (JNumber (PosInt (ucast (rs_retries_remaining state')))) (rs_context state')),
      we_created_at = we_created_at previous, we_updated_at = rs_updated_at state'\<rparr>"

section \<open>Applying a signal\<close>

text \<open>
  \<open>apply_workflow_signal_with_dependencies\<close> up to its commit, in its two halves: what is read and
  computed before the transaction, and the transaction. Between them nothing is locked, so other
  requests may run.
\<close>

record prepared_signal =
  ps_execution :: WorkflowExecution
  ps_event :: WorkflowEvent
  ps_tasks :: "NewWorkflowTask list"

definition prepare_signal ::
    "(store_error \<Rightarrow> string) \<Rightarrow> WorkflowCatalog \<Rightarrow> workflow_db \<Rightarrow> TenantId \<Rightarrow> WorkflowExecutionId \<Rightarrow>
     WorkflowSignal \<Rightarrow> datetime \<Rightarrow> (prepared_signal, ApiError) result" where
  "prepare_signal db_message workflow_catalog db tenant_id execution_id signal now =
     and_then (map_err (from_storage db_message) (execution_get_by_id db tenant_id execution_id))
       (\<lambda>found.
     and_then (ok_or (not_found ''workflow_execution_not_found''
         (''workflow execution '' @ uuid_text execution_id @ '' was not found'')) found) (\<lambda>execution.
     and_then (ok_or (internal ''workflow_definition_missing''
         (''workflow definition '' @ WorkflowKind_as_str (we_kind execution) @
          '' is not registered'')) (find_definition workflow_catalog (we_kind execution)))
       (\<lambda>def.
     and_then (workflow_runtime_state_from_execution execution) (\<lambda>runtime_state.
     and_then (map_err from_transition (wd_transition def runtime_state signal now)) (\<lambda>t.
     Ok \<lparr>ps_execution = workflow_execution_from_transition execution (next_state t),
         ps_event = persisted_event t,
         ps_tasks = map (\<lambda>task. \<lparr>nt_queue = tr_queue task, nt_task_key = tr_task_key task,
           nt_payload = tr_payload task, nt_available_at = wev_occurred_at (persisted_event t),
           nt_max_attempts = 3\<rparr>) (enqueued_tasks t)\<rparr>)))))"

definition store_signal ::
    "(store_error \<Rightarrow> string) \<Rightarrow> uuid_source \<Rightarrow> workflow_db \<Rightarrow> prepared_signal \<Rightarrow>
     (WorkflowEventRecord \<times> WorkflowTask list, ApiError) result \<times> workflow_db" where
  "store_signal db_message new_v4 db p =
     (case advance_with_tasks new_v4 db (ps_execution p) (wev_name (ps_event p))
             (wev_detail (ps_event p)) (wev_occurred_at (ps_event p)) (ps_tasks p) of
        (r, db') \<Rightarrow> (map_err (from_storage db_message) r, db'))"

definition commit_signal ::
    "(store_error \<Rightarrow> string) \<Rightarrow> uuid_source \<Rightarrow> WorkflowCatalog \<Rightarrow> workflow_db \<Rightarrow> TenantId \<Rightarrow>
     WorkflowExecutionId \<Rightarrow> WorkflowSignal \<Rightarrow> datetime \<Rightarrow>
     (WorkflowExecution \<times> WorkflowEventRecord \<times> WorkflowTask list, ApiError) result \<times> workflow_db" where
  "commit_signal db_message new_v4 workflow_catalog db tenant_id execution_id signal now =
     (case prepare_signal db_message workflow_catalog db tenant_id execution_id signal now of
        Inl e \<Rightarrow> (Err e, db)
      | Inr p \<Rightarrow>
          (case store_signal db_message new_v4 db p of
             (Inl e, db') \<Rightarrow> (Err e, db')
           | (Inr (event, tasks), db') \<Rightarrow> (Ok (ps_execution p, event, tasks), db')))"

text \<open>
  The whole function. What follows the commit for three kinds of workflow is a parameter: the
  status of an external synchronisation run, the audit of a fixed Codex task, and the publication
  that a finished static-page image starts. The conditions under which they run are those of the
  functions called, and an error of the first two is returned although the transition is
  committed.
\<close>

record signal_hooks =
  hook_sync_run :: "WorkflowExecution \<Rightarrow> datetime \<Rightarrow> (unit, ApiError) result"
  hook_codex_audit :: "WorkflowExecution \<Rightarrow> WorkflowEventRecord \<Rightarrow> nat \<Rightarrow> (unit, ApiError) result"
  hook_image_ready :: "WorkflowExecution \<Rightarrow> workflow_db \<times> EventBus \<Rightarrow> workflow_db \<times> EventBus"

definition apply_workflow_signal ::
    "signal_hooks \<Rightarrow> (store_error \<Rightarrow> string) \<Rightarrow> (datetime \<Rightarrow> string) \<Rightarrow> uuid_source \<Rightarrow>
     WorkflowCatalog \<Rightarrow> workflow_db \<times> EventBus \<Rightarrow> TenantId \<Rightarrow> WorkflowExecutionId \<Rightarrow>
     WorkflowSignal \<Rightarrow> datetime \<Rightarrow>
     (WorkflowExecution \<times> WorkflowEventRecord \<times> WorkflowTask list, ApiError) result \<times>
     workflow_db \<times> EventBus" where
  "apply_workflow_signal hooks db_message rfc3339 new_v4 workflow_catalog world tenant_id
       execution_id signal now =
     (case world of (db, event_bus) \<Rightarrow>
      case commit_signal db_message new_v4 workflow_catalog db tenant_id execution_id signal now of
        (Inl e, db') \<Rightarrow> (Err e, db', event_bus)
      | (Inr (next_execution, event, tasks), db') \<Rightarrow>
          (case if we_kind next_execution = WorkflowKind.ExternalSourceSync
                then hook_sync_run hooks next_execution (ev_created_at event) else Ok () of
             Inl e \<Rightarrow> (Err e, db', event_bus)
           | Inr _ \<Rightarrow>
               let bus' = publish_workflow_transition_events rfc3339 event_bus next_execution
                     event tasks in
               (case if we_kind next_execution = WorkflowKind.CodexHostTask
                     then hook_codex_audit hooks next_execution event (length tasks)
                     else Ok () of
                  Inl e \<Rightarrow> (Err e, db', bus')
                | Inr _ \<Rightarrow>
                    let world' =
                          (if we_kind next_execution = WorkflowKind.StaticPageImageGeneration \<and>
                              we_status next_execution = WorkflowStatus.Succeeded
                           then hook_image_ready hooks next_execution (db', bus')
                           else (db', bus')) in
                    (Ok (next_execution, event, tasks), world'))))"

text \<open>\<open>retry_workflow_execution_with_state\<close> up to the synchronisation of static-page outputs: a
  retry, and a start when the execution is pending afterwards.\<close>

definition retry_workflow_execution ::
    "signal_hooks \<Rightarrow> (store_error \<Rightarrow> string) \<Rightarrow> (datetime \<Rightarrow> string) \<Rightarrow> uuid_source \<Rightarrow>
     WorkflowCatalog \<Rightarrow> workflow_db \<times> EventBus \<Rightarrow> TenantId \<Rightarrow> WorkflowExecutionId \<Rightarrow>
     string \<Rightarrow> datetime \<Rightarrow> datetime \<Rightarrow>
     ((WorkflowExecution \<times> WorkflowEventRecord \<times> WorkflowTask list) \<times>
      (WorkflowExecution \<times> WorkflowEventRecord \<times> WorkflowTask list) option, ApiError) result \<times>
     workflow_db \<times> EventBus" where
  "retry_workflow_execution hooks db_message rfc3339 new_v4 workflow_catalog world tenant_id
       execution_id reason now1 now2 =
     (case validate_required ''reason'' reason of
        Inl e \<Rightarrow> (Err e, world)
      | Inr _ \<Rightarrow>
          (case apply_workflow_signal hooks db_message rfc3339 new_v4 workflow_catalog world
                  tenant_id execution_id (WorkflowSignal.RetryRequested (trim reason)) now1 of
             (Inl e, world') \<Rightarrow> (Err e, world')
           | (Inr retry_transition, world') \<Rightarrow>
               if we_status (fst retry_transition) = WorkflowStatus.Pending then
                 (case apply_workflow_signal hooks db_message rfc3339 new_v4 workflow_catalog
                         world' tenant_id execution_id WorkflowSignal.Start now2 of
                    (Inl e, world'') \<Rightarrow> (Err e, world'')
                  | (Inr restart, world'') \<Rightarrow> (Ok (retry_transition, Some restart), world''))
               else (Ok (retry_transition, None), world')))"

section \<open>Requests are validated\<close>

text \<open>a signal built from a request never has a blank task key, error or reason, its texts are
  trimmed, and the kind of the signal is the kind that was asked for; a request of an unknown kind
  is refused.\<close>

theorem build_workflow_signal_validated:
  "case build_workflow_signal request of
     Inr (WorkflowSignal.StepCompleted k out) \<Rightarrow>
       sq_kind request = WorkflowSignalKindView.StepCompleted \<and> k \<noteq> [] \<and> trim k = k \<and>
       map_option trim (sq_task_key request) = Some k \<and> out = sq_output request
   | Inr (WorkflowSignal.StepFailed k e) \<Rightarrow>
       sq_kind request = WorkflowSignalKindView.StepFailed \<and> k \<noteq> [] \<and> e \<noteq> [] \<and>
       map_option trim (sq_task_key request) = Some k \<and> map_option trim (sq_error request) = Some e
   | Inr (WorkflowSignal.RetryRequested r) \<Rightarrow>
       sq_kind request = WorkflowSignalKindView.RetryRequested \<and> r \<noteq> [] \<and>
       map_option trim (sq_reason request) = Some r
   | Inr (WorkflowSignal.CancelRequested r) \<Rightarrow>
       sq_kind request = WorkflowSignalKindView.CancelRequested \<and> r \<noteq> [] \<and>
       map_option trim (sq_reason request) = Some r
   | Inr WorkflowSignal.Start \<Rightarrow> sq_kind request = WorkflowSignalKindView.Start
   | Inr (WorkflowSignal.PublishRequested note) \<Rightarrow>
       sq_kind request = WorkflowSignalKindView.PublishRequested \<and> note = sq_note request
   | Inl e \<Rightarrow> api_status e = 400"
proof -
  have field: "\<exists>w. v = Some w \<and> x = trim w \<and> trim w \<noteq> []" if "required_field f v = Ok x" for f v x
    using that by (auto simp: required_field_def validate_required_def ok_or_eq_Ok
        elim!: and_then_OkE split: if_splits)
  have err: "api_status e = 400" if "required_field f v = Err e" for f v e
    using that by (auto simp: required_field_def validate_required_def and_then_eq_Err ok_or_eq_Err
        bad_request_def split: if_splits)
  show ?thesis
    by (cases "sq_kind request"; cases "required_field ''task_key'' (sq_task_key request)";
        cases "required_field ''error'' (sq_error request)";
        cases "required_field ''reason'' (sq_reason request)")
      (auto simp: build_workflow_signal_def bad_request_def dest!: field err)
qed

section \<open>Stored executions and runtime states\<close>

text \<open>The state an execution stands for, when its context is an object (or null).\<close>

lemma ucast_word_back [simp]: "(ucast (ucast (w :: 32 word) :: 64 word) :: 32 word) = w"
  by (simp add: ucast_up_ucast_id is_up)

text \<open>C39: a runtime state that is stored in an execution is read back unchanged: the retry budget
  goes through the reserved key of the context and comes out again, and nothing else of the
  context changes.\<close>

theorem runtime_state_roundtrip:
  assumes "rs_execution_id s = we_id previous"
    and "map_of (rs_context s) ''retries_remaining'' = None"
  shows "workflow_runtime_state_from_execution (workflow_execution_from_transition previous s) = Ok s"
  using assms
  by (simp add: workflow_runtime_state_from_execution_def workflow_execution_from_transition_def
      extract_context_object_def map_remove_insert)

theorem runtime_state_roundtrip_witness:
  "workflow_runtime_state_from_execution
     (workflow_execution_from_transition example_execution (external_pending_state (Uuid ''x'') 4)) =
   Ok (external_pending_state (Uuid ''x'') 4)"
  by (rule runtime_state_roundtrip)
    (simp_all add: example_execution_def external_pending_state_def map_of_json_object)

section \<open>A commit simulates the transition\<close>

text \<open>An execution as the service writes it: its context is an object with ordered keys.\<close>

definition execution_wf :: "WorkflowExecution \<Rightarrow> bool" where
  "execution_wf x \<longleftrightarrow> (\<exists>m. we_context x = JObject m \<and> keys_sorted m)"

lemma runtime_state_Ok:
  assumes "execution_wf x"
  obtains s where "workflow_runtime_state_from_execution x = Ok s" and "context_wf (rs_context s)"
    and "rs_kind s = we_kind x" and "rs_execution_id s = we_id x" and "rs_status s = we_status x"
  using assms
  by (auto simp: execution_wf_def workflow_runtime_state_from_execution_def
      extract_context_object_def context_wf_def map_of_remove)

lemma stored_execution_wf:
  "context_wf (rs_context s) \<Longrightarrow> execution_wf (workflow_execution_from_transition x s)"
  by (simp add: execution_wf_def workflow_execution_from_transition_def context_wf_def)

lemma runtime_state_stored:
  assumes "rs_execution_id s = we_id x" and "context_wf (rs_context s)"
  shows "workflow_runtime_state_from_execution (workflow_execution_from_transition x s) = Ok s"
  using assms
  by (simp add: workflow_runtime_state_from_execution_def workflow_execution_from_transition_def
      extract_context_object_def map_remove_insert context_wf_def)

lemma catalog_definition:
  assumes "find_definition catalog k = Some d"
  shows "d \<in> set registry \<and> wd_kind d = k \<and> workflow_definition d"
  using find_definition_SomeD [OF assms] registry_definition
  by (auto simp: catalog_def WorkflowCatalog_new_def)

lemma prepare_signal_OkE:
  assumes "prepare_signal msg catalog db tenant i sig now = Ok p"
    and "execution_get_by_id db tenant i = Ok (Some x)" and "execution_wf x"
  obtains d s t where "find_definition catalog (we_kind x) = Some d"
    and "workflow_runtime_state_from_execution x = Ok s"
    and "wd_transition d s sig now = Ok t"
    and "ps_execution p = workflow_execution_from_transition x (next_state t)"
    and "ps_event p = persisted_event t"
    and "map (\<lambda>t. (nt_queue t, nt_task_key t, nt_payload t)) (ps_tasks p) =
      map (\<lambda>t. (tr_queue t, tr_task_key t, tr_payload t)) (enqueued_tasks t)"
  using assms
  by (auto simp: prepare_signal_def ok_or_eq_Ok comp_def elim!: and_then_OkE)

lemma prepared_execution_row:
  "we_id (workflow_execution_from_transition x s) = we_id x"
  "we_tenant_id (workflow_execution_from_transition x s) = we_tenant_id x"
  by (simp_all add: workflow_execution_from_transition_def)

lemma execution_get_by_id_ids:
  assumes "execution_get_by_id db tenant i = Ok (Some x)"
  shows "we_id x = i \<and> we_tenant_id x = tenant"
proof -
  obtain r where "xr_id r = i" "xr_tenant_id r = tenant" "map_workflow_execution_row r = Ok x"
    using execution_lookupD [OF assms] by blast
  then show ?thesis
    by (auto simp: map_workflow_execution_row_def elim!: and_then_OkE)
qed

text \<open>Storing what was prepared from the execution that is still there.\<close>

lemma store_signal_spec:
  assumes "db_wf db" and "numbered db"
    and "execution_get_by_id db tenant i = Ok (Some x)"
    and "ps_execution p = workflow_execution_from_transition x s" and "rs_kind s = we_kind x"
    and "store_signal msg new_v4 db p = (r, db')"
  shows "db_wf db' \<and> numbered db' \<and>
    (case r of
       Inl e \<Rightarrow> execution_get_by_id db' tenant i = Ok (Some x)
     | Inr (e, ts) \<Rightarrow> execution_get_by_id db' tenant i = Ok (Some (ps_execution p)) \<and>
         map (\<lambda>t. (wt_queue t, wt_task_key t, wt_payload t)) ts =
         map (\<lambda>t. (nt_queue t, nt_task_key t, nt_payload t)) (ps_tasks p))"
proof -
  have ids: "we_id x = i" "we_tenant_id x = tenant"
    using execution_get_by_id_ids [OF assms(3)] by simp_all
  obtain r' where a: "advance_with_tasks new_v4 db (ps_execution p) (wev_name (ps_event p))
      (wev_detail (ps_event p)) (wev_occurred_at (ps_event p)) (ps_tasks p) = (r', db')"
    and r: "r = map_err (from_storage msg) r'"
    using assms(6) by (auto simp: store_signal_def split: prod.splits)
  have found: "execution_get_by_id db (we_tenant_id (ps_execution p)) (we_id (ps_execution p)) =
      Ok (Some x)"
    using assms(3,4) ids by (simp add: prepared_execution_row)
  have new: "x\<lparr>we_version := we_version (ps_execution p), we_stage := we_stage (ps_execution p),
      we_status := we_status (ps_execution p), we_attempt := we_attempt (ps_execution p),
      we_context := we_context (ps_execution p), we_updated_at := we_updated_at (ps_execution p)\<rparr> =
      ps_execution p"
    using assms(4,5) by (simp add: workflow_execution_from_transition_def)
  note spec = advance_with_tasks_effect [OF assms(1,2) found a]
  have wf: "db_wf db' \<and> numbered db'"
    using advance_with_tasks_wf [OF a assms(1)] assms(2) by simp
  show ?thesis
  proof (cases r')
    case (Inl e)
    then have "workflow_executions db' = workflow_executions db"
      using spec by simp
    then have "execution_get_by_id db' tenant i = Ok (Some x)"
      using assms(3) by (simp add: execution_get_by_id_def)
    with wf r Inl show ?thesis by simp
  next
    case (Inr v)
    obtain e ts where v: "v = (e, ts)" by (cases v)
    from spec Inr v have "execution_get_by_id db' tenant i = Ok (Some (ps_execution p))"
      using new ids assms(4) by (simp add: prepared_execution_row)
    moreover have "map (\<lambda>t. (wt_queue t, wt_task_key t, wt_payload t)) ts =
        map (\<lambda>t. (nt_queue t, nt_task_key t, nt_payload t)) (ps_tasks p)"
      using spec Inr v
      by (auto dest!: arg_cong [of _ _ "map (\<lambda>(a, b, c, d). (a, b, c))"] simp: comp_def)
    ultimately show ?thesis using wf r Inr v by simp
  qed
qed

lemma commit_signal_step:
  assumes "db_wf db" and "numbered db"
    and "execution_get_by_id db tenant i = Ok (Some x)" and "execution_wf x"
    and "commit_signal msg new_v4 catalog db tenant i sig now = (r, db')"
  shows "db_wf db' \<and> numbered db' \<and>
    (case r of
       Inl e \<Rightarrow> execution_get_by_id db' tenant i = Ok (Some x)
     | Inr (x', e, ts) \<Rightarrow>
         execution_get_by_id db' tenant i = Ok (Some x') \<and> execution_wf x' \<and>
         (\<exists>d s t. find_definition catalog (we_kind x) = Some d \<and>
           workflow_runtime_state_from_execution x = Ok s \<and>
           wd_transition d s sig now = Ok t \<and>
           workflow_runtime_state_from_execution x' = Ok (next_state t) \<and>
           we_attempt x' = next_attempt (rs_status s) (we_attempt x) (rs_status (next_state t)) \<and>
           map (\<lambda>k. (wt_queue k, wt_task_key k, wt_payload k)) ts =
             map (\<lambda>k. (tr_queue k, tr_task_key k, tr_payload k)) (enqueued_tasks t)))"
proof (cases "prepare_signal msg catalog db tenant i sig now")
  case (Inl e)
  then have "r = Err e" "db' = db"
    using assms(5) by (simp_all add: commit_signal_def)
  with assms show ?thesis by simp
next
  case (Inr p)
  obtain d s t where d: "find_definition catalog (we_kind x) = Some d"
    and s: "workflow_runtime_state_from_execution x = Ok s" and t: "wd_transition d s sig now = Ok t"
    and p: "ps_execution p = workflow_execution_from_transition x (next_state t)"
    and tasks: "map (\<lambda>t. (nt_queue t, nt_task_key t, nt_payload t)) (ps_tasks p) =
      map (\<lambda>t. (tr_queue t, tr_task_key t, tr_payload t)) (enqueued_tasks t)"
    using prepare_signal_OkE [OF Inr assms(3,4)] by blast
  obtain s0 where s0: "workflow_runtime_state_from_execution x = Ok s0" "context_wf (rs_context s0)"
    "rs_kind s0 = we_kind x" "rs_execution_id s0 = we_id x" "rs_status s0 = we_status x"
    using runtime_state_Ok [OF assms(4)] by blast
  with s have [simp]: "s0 = s" by simp
  have wd: "workflow_definition d" and kind: "wd_kind d = we_kind x"
    using catalog_definition [OF d] by simp_all
  have ctx: "context_wf (rs_context (next_state t))"
    using workflow_definition.keeps_context [OF wd t] s0(2) by simp
  have same: "rs_kind (next_state t) = we_kind x" "rs_execution_id (next_state t) = we_id x"
    using workflow_definition.keeps_kind [OF wd t] workflow_definition.keeps_id [OF wd t] s0 kind
    by simp_all
  obtain r' where st: "store_signal msg new_v4 db p = (r', db')"
    and r: "(\<exists>e ts. r' = Ok (e, ts) \<and> r = Ok (ps_execution p, e, ts)) \<or>
      (\<exists>e. r' = Err e \<and> r = Err e)"
    using assms(5) Inr
    by (auto simp: commit_signal_def split: prod.splits sum.splits)
  note spec = store_signal_spec [OF assms(1-3) p same(1) st]
  show ?thesis
  proof (cases r')
    case (Inl e)
    with r spec show ?thesis by auto
  next
    case v: (Inr v)
    obtain e ts where "v = (e, ts)" by (cases v)
    with v r have r'': "r = Ok (ps_execution p, e, ts)" "r' = Ok (e, ts)"
      by auto
    have "workflow_runtime_state_from_execution (ps_execution p) = Ok (next_state t)"
      unfolding p by (rule runtime_state_stored [OF same(2) ctx])
    moreover have "execution_wf (ps_execution p)"
      unfolding p by (rule stored_execution_wf [OF ctx])
    moreover have "we_attempt (ps_execution p) =
        next_attempt (rs_status s) (we_attempt x) (rs_status (next_state t))"
      using s0(5) by (simp add: p workflow_execution_from_transition_def)
    ultimately show ?thesis
      using spec r'' d s t tasks by auto
  qed
qed

text \<open>committing a signal simulates the transition of the definition. On success the catalog
  has a definition of the execution's kind whose transition accepts the signal in the stored
  state, the execution that is stored afterwards stands for the next state of that transition,
  and the persisted tasks are its tasks; on every error (unknown execution, refused signal,
  failing database) the stored execution is the one it was. Well-formedness of the tables and of
  the stored context is kept.\<close>

theorem commit_signal_simulates:
  assumes "db_wf db" and "numbered db"
    and "execution_get_by_id db tenant i = Ok (Some x)" and "execution_wf x"
    and "commit_signal msg new_v4 catalog db tenant i sig now = (r, db')"
  shows "db_wf db' \<and> numbered db' \<and>
    (case r of
       Inl e \<Rightarrow> execution_get_by_id db' tenant i = Ok (Some x)
     | Inr (x', e, ts) \<Rightarrow>
         execution_get_by_id db' tenant i = Ok (Some x') \<and> execution_wf x' \<and>
         (\<exists>d s t. find_definition catalog (we_kind x) = Some d \<and>
           workflow_runtime_state_from_execution x = Ok s \<and>
           wd_transition d s sig now = Ok t \<and>
           workflow_runtime_state_from_execution x' = Ok (next_state t) \<and>
           we_attempt x' = next_attempt (rs_status s) (we_attempt x) (rs_status (next_state t)) \<and>
           map (\<lambda>k. (wt_queue k, wt_task_key k, wt_payload k)) ts =
             map (\<lambda>k. (tr_queue k, tr_task_key k, tr_payload k)) (enqueued_tasks t)))"
  using commit_signal_step [OF assms] .

lemma commit_signal_simulates_example:
  "execution_wf example_execution"
  by (simp add: execution_wf_def example_execution_def)

theorem commit_signal_simulates_witness:
  "\<exists>r db'. commit_signal (\<lambda>_. []) (\<lambda>n. Uuid ''u'') catalog example_db1 (Uuid ''t'') (Uuid ''x'')
       WorkflowSignal.Start 7 = (r, db') \<and> db_wf db' \<and> numbered db'"
proof -
  obtain r db' where c: "commit_signal (\<lambda>_. []) (\<lambda>n. Uuid ''u'') catalog example_db1 (Uuid ''t'')
      (Uuid ''x'') WorkflowSignal.Start 7 = (r, db')"
    by fastforce
  with commit_signal_simulates [OF _ _ example_db1_lookup commit_signal_simulates_example c]
  show ?thesis using example_db1_wf by blast
qed

section \<open>Any number of signals\<close>

fun run_commits ::
    "(store_error \<Rightarrow> string) \<Rightarrow> uuid_source \<Rightarrow> workflow_db \<Rightarrow> TenantId \<Rightarrow> WorkflowExecutionId \<Rightarrow>
     (WorkflowSignal \<times> datetime) list \<Rightarrow> workflow_db" where
  "run_commits msg new_v4 db tenant i [] = db"
| "run_commits msg new_v4 db tenant i ((sig, now) # rest) =
     run_commits msg new_v4 (snd (commit_signal msg new_v4 catalog db tenant i sig now)) tenant i rest"

text \<open>A transition counts an attempt exactly when the signal is \<open>Start\<close>.\<close>

lemma next_attempt_start:
  assumes "workflow_definition d" and "wd_transition d s sig now = Ok t"
  shows "next_attempt (rs_status s) a (rs_status (next_state t)) =
    a + (if sig = WorkflowSignal.Start then 1 else 0)"
  using workflow_definition.follows_lifecycle [OF assms]
  by cases (auto simp: next_attempt_def)

lemma run_commits_refines:
  assumes "db_wf db" and "numbered db" and "execution_get_by_id db tenant i = Ok (Some x)"
    and "execution_wf x" and "workflow_runtime_state_from_execution x = Ok s"
    and "find_definition catalog (we_kind x) = Some d"
  shows "\<exists>x' sigs'. execution_get_by_id (run_commits msg new_v4 db tenant i sigs) tenant i = Ok (Some x') \<and>
    subseq sigs' sigs \<and> workflow_runtime_state_from_execution x' = Ok (drive d s sigs') \<and>
    we_attempt x' = we_attempt x + of_nat (start_count (accepted d s sigs'))"
  using assms
proof (induction sigs arbitrary: db x s)
  case Nil
  then show ?case by (intro exI [of _ x] exI [of _ "[]"]) simp
next
  case (Cons a sigs)
  obtain sig now where a: "a = (sig, now)" by (cases a)
  obtain r db1 where c: "commit_signal msg new_v4 catalog db tenant i sig now = (r, db1)"
    by fastforce
  note step = commit_signal_step [OF Cons.prems(1-4) c]
  have run: "run_commits msg new_v4 db tenant i (a # sigs) = run_commits msg new_v4 db1 tenant i sigs"
    using c by (simp add: a)
  show ?case
  proof (cases r)
    case (Inl e)
    with step have "execution_get_by_id db1 tenant i = Ok (Some x)" by simp
    from Cons.IH [OF _ _ this Cons.prems(4-6)] step obtain x' sigs' where
      "execution_get_by_id (run_commits msg new_v4 db1 tenant i sigs) tenant i = Ok (Some x')"
      "subseq sigs' sigs" "workflow_runtime_state_from_execution x' = Ok (drive d s sigs')"
      "we_attempt x' = we_attempt x + of_nat (start_count (accepted d s sigs'))"
      by blast
    then show ?thesis unfolding run by (metis list_emb_Cons)
  next
    case (Inr v)
    obtain x1 e ts where "v = (x1, e, ts)" by (cases v)
    with step Inr Cons.prems(5,6) obtain t where
      t: "wd_transition d s sig now = Ok t" and x1: "execution_wf x1"
      "execution_get_by_id db1 tenant i = Ok (Some x1)"
      "workflow_runtime_state_from_execution x1 = Ok (next_state t)"
      "we_attempt x1 = next_attempt (rs_status s) (we_attempt x) (rs_status (next_state t))"
      by auto
    have wd: "workflow_definition d" and kind: "wd_kind d = we_kind x"
      using catalog_definition [OF Cons.prems(6)] by simp_all
    have "we_kind x1 = we_kind x"
    proof -
      have "rs_kind s = we_kind x"
        using runtime_state_Ok [OF Cons.prems(4)] Cons.prems(5) by (metis sum.inject(2))
      then have "rs_kind (next_state t) = we_kind x"
        using workflow_definition.keeps_kind [OF wd t] kind by simp
      then show ?thesis
        using runtime_state_Ok [OF x1(1)] x1(3) by (metis sum.inject(2))
    qed
    with Cons.IH [OF _ _ x1(2,1,3)] step Cons.prems(6) obtain x' sigs' where
      *: "execution_get_by_id (run_commits msg new_v4 db1 tenant i sigs) tenant i = Ok (Some x')"
      "subseq sigs' sigs"
      "workflow_runtime_state_from_execution x' = Ok (drive d (next_state t) sigs')"
      "we_attempt x' = we_attempt x1 + of_nat (start_count (accepted d (next_state t) sigs'))"
      by auto
    have "we_attempt x' = we_attempt x + of_nat (start_count (accepted d s ((sig, now) # sigs')))"
      using *(4) x1(4) next_attempt_start [OF wd t, of "we_attempt x"] t by simp
    then show ?thesis
      unfolding run using * t
      by (intro exI [of _ x'] exI [of _ "(sig, now) # sigs'"]) (simp add: a)
  qed
qed



section \<open>Concurrent signals\<close>

lemma lifecycle_not_cancelled:
  "lifecycle st n sig st' n' \<Longrightarrow> (\<And>r. sig \<noteq> WorkflowSignal.CancelRequested r) \<Longrightarrow>
   st' \<noteq> WorkflowStatus.Cancelled"
  by (induction rule: lifecycle.induct) auto

lemma lifecycle_cancelled:
  "lifecycle st n (WorkflowSignal.CancelRequested r) st' n' \<Longrightarrow> st' = WorkflowStatus.Cancelled"
  by (auto elim: lifecycle.cases)

text \<open>Storing a prepared signal over whatever execution is there now: the version, stage, status,
  attempt, context and time that were computed from the older row replace the newer ones.\<close>

lemma store_signal_overwrites:
  assumes "db_wf db" and "numbered db"
    and "execution_get_by_id db (we_tenant_id (ps_execution p)) (we_id (ps_execution p)) = Ok (Some x1)"
    and "store_signal msg new_v4 db p = (Ok (e, ts), db')"
  shows "\<exists>x2. execution_get_by_id db' (we_tenant_id (ps_execution p)) (we_id (ps_execution p)) =
      Ok (Some x2) \<and> we_status x2 = we_status (ps_execution p) \<and>
      we_context x2 = we_context (ps_execution p) \<and> we_stage x2 = we_stage (ps_execution p) \<and>
      length ts = length (ps_tasks p)"
proof -
  have a: "advance_with_tasks new_v4 db (ps_execution p) (wev_name (ps_event p))
      (wev_detail (ps_event p)) (wev_occurred_at (ps_event p)) (ps_tasks p) = (Ok (e, ts), db')"
    using assms(4) by (auto simp: store_signal_def split: prod.splits)
  from advance_with_tasks_effect [OF assms(1-3) a] show ?thesis
    by (auto dest: map_eq_imp_length_eq)
qed

text \<open>C38: two requests on one execution can interleave so that a cancellation is lost. One request
  has read the execution and computed its transition; the other cancels the execution, and its
  answer says so; then the first one commits, without an error, and the execution is no longer
  cancelled: it has the status, the stage and the context of the first request, and the tasks of
  its transition are enqueued for workers.\<close>

theorem concurrent_cancel_lost:
  assumes "db_wf db" and "numbered db" and "execution_get_by_id db tenant i = Ok (Some x)"
    and "execution_wf x"
    and "prepare_signal msg catalog db tenant i sig now = Ok p"
    and "\<And>r. sig \<noteq> WorkflowSignal.CancelRequested r"
    and "commit_signal msg new_v4 catalog db tenant i (WorkflowSignal.CancelRequested why) now1 =
      (Ok (x1, e1, ts1), db1)"
    and "store_signal msg new_v4 db1 p = (Ok (e2, ts2), db2)"
  shows "we_status x1 = WorkflowStatus.Cancelled \<and>
    execution_get_by_id db1 tenant i = Ok (Some x1) \<and>
    (\<exists>x2. execution_get_by_id db2 tenant i = Ok (Some x2) \<and>
      we_status x2 \<noteq> WorkflowStatus.Cancelled \<and> we_context x2 = we_context (ps_execution p) \<and>
      length ts2 = length (ps_tasks p))"
proof -
  obtain d s t where d: "find_definition catalog (we_kind x) = Some d"
    and t: "wd_transition d s sig now = Ok t"
    and p: "ps_execution p = workflow_execution_from_transition x (next_state t)"
    using prepare_signal_OkE [OF assms(5,3,4)] by blast
  have wd: "workflow_definition d" using catalog_definition [OF d] by simp
  have st: "we_status (ps_execution p) \<noteq> WorkflowStatus.Cancelled"
    using lifecycle_not_cancelled [OF workflow_definition.follows_lifecycle [OF wd t] assms(6)]
    by (simp add: p workflow_execution_from_transition_def)
  have ids: "we_id (ps_execution p) = i" "we_tenant_id (ps_execution p) = tenant"
    using execution_get_by_id_ids [OF assms(3)] by (simp_all add: p prepared_execution_row)
  from commit_signal_step [OF assms(1-4,7)] obtain t1 s1 d1 where
    wf1: "db_wf db1" "numbered db1" and x1: "execution_get_by_id db1 tenant i = Ok (Some x1)"
    "execution_wf x1" "workflow_runtime_state_from_execution x1 = Ok (next_state t1)"
    "find_definition catalog (we_kind x) = Some d1"
    "wd_transition d1 s1 (WorkflowSignal.CancelRequested why) now1 = Ok t1"
    by auto
  have "rs_status (next_state t1) = WorkflowStatus.Cancelled"
    using lifecycle_cancelled
      [OF workflow_definition.follows_lifecycle [OF conjunct2 [OF conjunct2 [OF catalog_definition [OF x1(4)]]] x1(5)]] .
  then have "we_status x1 = WorkflowStatus.Cancelled"
    using runtime_state_Ok [OF x1(2)] x1(3) by (metis sum.inject(2))
  moreover have "\<exists>x2. execution_get_by_id db2 tenant i = Ok (Some x2) \<and>
      we_status x2 = we_status (ps_execution p) \<and> we_context x2 = we_context (ps_execution p) \<and>
      length ts2 = length (ps_tasks p)"
    using store_signal_overwrites [OF wf1 _ assms(8)] x1(1) ids by auto
  ultimately show ?thesis using x1(1) st by auto
qed

definition example_uuids :: uuid_source where
  "example_uuids n = Uuid (replicate n (CHR ''u''))"

text \<open>The interleaving happens: a start that was prepared before the cancellation.\<close>

definition lost_prepared :: "(prepared_signal, ApiError) result" where
  "lost_prepared = prepare_signal (\<lambda>_. []) catalog example_db1 (Uuid ''t'') (Uuid ''x'')
     WorkflowSignal.Start 5"

definition lost_cancelled ::
    "(WorkflowExecution \<times> WorkflowEventRecord \<times> WorkflowTask list, ApiError) result \<times> workflow_db" where
  "lost_cancelled = commit_signal (\<lambda>_. []) example_uuids catalog example_db1 (Uuid ''t'') (Uuid ''x'')
     (WorkflowSignal.CancelRequested ''stop'') 6"

definition lost_stored ::
    "(WorkflowEventRecord \<times> WorkflowTask list, ApiError) result \<times> workflow_db" where
  "lost_stored = store_signal (\<lambda>_. []) example_uuids (snd lost_cancelled) (projr lost_prepared)"

lemma lost_prepared_Ok: "\<not> isl lost_prepared"
  by code_simp

lemma lost_cancelled_Ok: "\<not> isl (fst lost_cancelled)"
  by code_simp

lemma lost_stored_Ok: "\<not> isl (fst lost_stored)"
  by code_simp

theorem concurrent_cancel_lost_witness:
  "\<exists>x1 x2. execution_get_by_id (snd lost_cancelled) (Uuid ''t'') (Uuid ''x'') = Ok (Some x1) \<and>
     we_status x1 = WorkflowStatus.Cancelled \<and>
     execution_get_by_id (snd lost_stored) (Uuid ''t'') (Uuid ''x'') = Ok (Some x2) \<and>
     we_status x2 \<noteq> WorkflowStatus.Cancelled"
proof -
  obtain p where p: "lost_prepared = Ok p"
    using sum.collapse(2) [OF lost_prepared_Ok] by metis
  obtain x1 e1 ts1 db1 where c: "lost_cancelled = (Ok (x1, e1, ts1), db1)"
    using sum.collapse(2) [OF lost_cancelled_Ok] by (metis prod.collapse)
  obtain e2 ts2 db2 where st: "lost_stored = (Ok (e2, ts2), db2)"
    using sum.collapse(2) [OF lost_stored_Ok] by (metis prod.collapse)
  have "store_signal (\<lambda>_. []) example_uuids db1 p = (Ok (e2, ts2), db2)"
    using st unfolding lost_stored_def c p by simp
  from concurrent_cancel_lost [OF _ _ example_db1_lookup commit_signal_simulates_example
      p [unfolded lost_prepared_def] _ c [unfolded lost_cancelled_def] this]
  show ?thesis
    unfolding c st using example_db1_wf by auto
qed

section \<open>Publication\<close>

text \<open>applying a signal to an execution of a kind that has no follow-up. A refused or failing
  signal publishes nothing; a committed one is answered with what was committed, and exactly the
  notification of the execution and of each new task are published, after the commit.\<close>

theorem apply_signal_publishes:
  assumes "commit_signal msg new_v4 cat db tenant i sig now = (r, db')"
    and "\<And>x e ts. r = Ok (x, e, ts) \<Longrightarrow> we_kind x \<notin> {WorkflowKind.ExternalSourceSync,
      WorkflowKind.CodexHostTask, WorkflowKind.StaticPageImageGeneration}"
  shows "apply_workflow_signal hooks msg rfc3339 new_v4 cat (db, InMemory es) tenant i sig now =
    (case r of
       Inl err \<Rightarrow> (Err err, db', InMemory es)
     | Inr (x, e, ts) \<Rightarrow> (Ok (x, e, ts), db',
         InMemory (es @ execution_envelope x e # map (task_envelope rfc3339) ts)))"
  using assms
  by (auto simp: apply_workflow_signal_def publish_workflow_transition_events_def Let_def
      fold_publish_InMemory split: sum.splits prod.splits)

definition example_hooks :: signal_hooks where
  "example_hooks = \<lparr>hook_sync_run = (\<lambda>_ _. Ok ()), hook_codex_audit = (\<lambda>_ _ _. Ok ()),
     hook_image_ready = (\<lambda>_ w. w)\<rparr>"

theorem apply_signal_publishes_witness:
  "apply_workflow_signal example_hooks (\<lambda>_. []) (\<lambda>_. []) example_uuids catalog
     (example_db, InMemory []) (Uuid ''t'') (Uuid ''x'') WorkflowSignal.Start 3 =
   (Err (not_found ''workflow_execution_not_found'' ''workflow execution x was not found''),
    example_db, InMemory [])"
proof -
  have "commit_signal (\<lambda>_. []) example_uuids catalog example_db (Uuid ''t'') (Uuid ''x'')
      WorkflowSignal.Start 3 =
      (Err (not_found ''workflow_execution_not_found'' ''workflow execution x was not found''), example_db)"
    by (simp add: commit_signal_def prepare_signal_def execution_get_by_id_def)
      (simp add: example_db_def)
  from apply_signal_publishes [OF this] show ?thesis by simp
qed

end
