(* ===== verification/Auth_Scope.thy ===== *)
theory Auth_Scope
  imports Domain_Model
begin

text \<open>
  The crate \<open>auth-scope\<close>: the decision whether a principal may use a resource of the platform,
  and the decision whether an external principal may read a document of an external source under
  its access control snapshot.
\<close>

section \<open>Data\<close>

record PrincipalContext =
  pc_tenant_id :: TenantId
  pc_user_id :: UserId
  pc_roles :: "string list"
  readable_dataset_ids :: "DatasetId list"
  readable_document_ids :: "DocumentId list"
  readable_report_ids :: "PublishedReportId list"
  unlocked_secret_grant_ids :: "SecretGrantId list"

datatype ScopeResource =
    Dataset DatasetId
  | Document DocumentId
  | Secret SecretBindingId
  | PublishedReport PublishedReportId
  | ExternalIntegration TenantId
  | ExternalSource TenantId
  | ExternalActionRun TenantId

record ScopeDecision =
  allowed :: bool
  reason :: string

datatype ExternalPrincipalTrustLevel =
    Unresolved | Guest | ExternalUser | Employee | Manager | Admin | SystemOperator

definition ExternalPrincipalTrustLevel_from_str :: "string \<Rightarrow> ExternalPrincipalTrustLevel" where
  "ExternalPrincipalTrustLevel_from_str value =
     (if value = ''guest'' then Guest
      else if value = ''external_user'' then ExternalUser
      else if value = ''employee'' then Employee
      else if value = ''manager'' then Manager
      else if value = ''admin'' then Admin
      else if value = ''system_operator'' then SystemOperator
      else Unresolved)"

record ExternalPrincipalContext =
  ep_tenant_id :: TenantId
  ep_platform :: string
  external_user_id :: string
  external_department_ids :: "string list"
  external_group_ids :: "string list"
  external_role_ids :: "string list"
  ep_v3_user_id :: "UserId option"
  trust_level :: ExternalPrincipalTrustLevel
  is_disabled :: bool

record ExternalDocumentAclSnapshot =
  acl_source_id :: string
  acl_document_external_id :: string
  acl_revision_external_id :: "string option"
  allowed_user_external_ids :: "string list"
  allowed_department_external_ids :: "string list"
  allowed_group_external_ids :: "string list"
  allowed_role_external_ids :: "string list"
  denied_user_external_ids :: "string list"
  denied_department_external_ids :: "string list"
  denied_group_external_ids :: "string list"
  denied_role_external_ids :: "string list"
  acl_hash :: "string option"

section \<open>Decisions\<close>

definition decide :: "bool \<Rightarrow> string \<Rightarrow> ScopeDecision" where
  "decide b r = \<lparr>allowed = b, reason = r\<rparr>"

fun can_access :: "PrincipalContext \<Rightarrow> ScopeResource \<Rightarrow> ScopeDecision" where
  "can_access requester (Dataset dataset_id) =
     decide (dataset_id \<in> set (readable_dataset_ids requester)) ''dataset scope''"
| "can_access requester (Document document_id) =
     decide (document_id \<in> set (readable_document_ids requester)) ''document scope''"
| "can_access requester (Secret binding_id) =
     decide (unlocked_secret_grant_ids requester \<noteq> []) ''secret grant scope''"
| "can_access requester (PublishedReport report_id) =
     decide (report_id \<in> set (readable_report_ids requester)) ''published asset scope''"
| "can_access requester (ExternalIntegration tenant_id) =
     decide (pc_tenant_id requester = tenant_id) ''external integration tenant scope''"
| "can_access requester (ExternalSource tenant_id) =
     decide (pc_tenant_id requester = tenant_id) ''external source tenant scope''"
| "can_access requester (ExternalActionRun tenant_id) =
     decide (pc_tenant_id requester = tenant_id) ''external action tenant scope''"

definition intersects :: "string list \<Rightarrow> string list \<Rightarrow> bool" where
  "intersects left right = list_ex (\<lambda>item. item \<in> set right) left"

definition can_access_external_document ::
    "ExternalPrincipalContext \<Rightarrow> ExternalDocumentAclSnapshot \<Rightarrow> ScopeDecision" where
  "can_access_external_document requester acl =
     (if is_disabled requester then decide False ''external principal disabled''
      else if trust_level requester = Unresolved then decide False ''external principal unresolved''
      else if external_user_id requester \<in> set (denied_user_external_ids acl)
      then decide False ''external source acl denied user''
      else if intersects (external_department_ids requester) (denied_department_external_ids acl)
      then decide False ''external source acl denied department''
      else if intersects (external_group_ids requester) (denied_group_external_ids acl)
      then decide False ''external source acl denied group''
      else if intersects (external_role_ids requester) (denied_role_external_ids acl)
      then decide False ''external source acl denied role''
      else if external_user_id requester \<in> set (allowed_user_external_ids acl)
      then decide True ''external source acl allowed user''
      else if intersects (external_department_ids requester) (allowed_department_external_ids acl)
      then decide True ''external source acl allowed department''
      else if intersects (external_group_ids requester) (allowed_group_external_ids acl)
      then decide True ''external source acl allowed group''
      else if intersects (external_role_ids requester) (allowed_role_external_ids acl)
      then decide True ''external source acl allowed role''
      else decide False ''external source acl no matching allow'')"

section \<open>What the decisions mean\<close>

lemma decide_simps [simp]: "allowed (decide b r) = b" "reason (decide b r) = r"
  by (simp_all add: decide_def)

lemma intersects_iff: "intersects xs ys \<longleftrightarrow> set xs \<inter> set ys \<noteq> {}"
  by (auto simp: intersects_def list_ex_iff)

text \<open>An abstract access control list: the user, departments, groups and roles as one set of
  subjects, and the subjects that are denied and allowed.\<close>

datatype acl_subject = User string | Department string | Group string | Role string

definition principal_subjects :: "ExternalPrincipalContext \<Rightarrow> acl_subject set" where
  "principal_subjects p = {User (external_user_id p)} \<union>
     Department ` set (external_department_ids p) \<union> Group ` set (external_group_ids p) \<union>
     Role ` set (external_role_ids p)"

definition denied_subjects :: "ExternalDocumentAclSnapshot \<Rightarrow> acl_subject set" where
  "denied_subjects a = User ` set (denied_user_external_ids a) \<union>
     Department ` set (denied_department_external_ids a) \<union>
     Group ` set (denied_group_external_ids a) \<union> Role ` set (denied_role_external_ids a)"

definition allowed_subjects :: "ExternalDocumentAclSnapshot \<Rightarrow> acl_subject set" where
  "allowed_subjects a = User ` set (allowed_user_external_ids a) \<union>
     Department ` set (allowed_department_external_ids a) \<union>
     Group ` set (allowed_group_external_ids a) \<union> Role ` set (allowed_role_external_ids a)"

lemma principal_denied:
  "principal_subjects p \<inter> denied_subjects a \<noteq> {} \<longleftrightarrow>
   external_user_id p \<in> set (denied_user_external_ids a) \<or>
   intersects (external_department_ids p) (denied_department_external_ids a) \<or>
   intersects (external_group_ids p) (denied_group_external_ids a) \<or>
   intersects (external_role_ids p) (denied_role_external_ids a)"
  by (auto simp: principal_subjects_def denied_subjects_def intersects_iff)

lemma principal_allowed:
  "principal_subjects p \<inter> allowed_subjects a \<noteq> {} \<longleftrightarrow>
   external_user_id p \<in> set (allowed_user_external_ids a) \<or>
   intersects (external_department_ids p) (allowed_department_external_ids a) \<or>
   intersects (external_group_ids p) (allowed_group_external_ids a) \<or>
   intersects (external_role_ids p) (allowed_role_external_ids a)"
  by (auto simp: principal_subjects_def allowed_subjects_def intersects_iff)

lemma external_document_allowed:
  "allowed (can_access_external_document p a) \<longleftrightarrow>
     \<not> is_disabled p \<and> trust_level p \<noteq> Unresolved \<and>
     principal_subjects p \<inter> denied_subjects a = {} \<and>
     principal_subjects p \<inter> allowed_subjects a \<noteq> {}"
  using principal_denied [of p a] principal_allowed [of p a]
  by (auto simp: can_access_external_document_def)

text \<open>C28: access to an external document refines the abstract rule that a denial overrides every
  permission and that nothing is allowed by default: a principal reads the document exactly when
  it is enabled and resolved, none of its subjects (user, departments, groups, roles) is denied
  and at least one is allowed.\<close>

theorem external_document_deny_overrides:
  "allowed (can_access_external_document p a) \<longleftrightarrow>
     \<not> is_disabled p \<and> trust_level p \<noteq> Unresolved \<and>
     principal_subjects p \<inter> denied_subjects a = {} \<and>
     principal_subjects p \<inter> allowed_subjects a \<noteq> {}"
  by (rule external_document_allowed)

text \<open>tightening an access control list never grants access and loosening it never revokes it:
  with more denied and fewer allowed subjects only principals that could read before can read.\<close>

theorem external_document_monotone:
  assumes "denied_subjects a \<subseteq> denied_subjects b" and "allowed_subjects b \<subseteq> allowed_subjects a"
    and "allowed (can_access_external_document p b)"
  shows "allowed (can_access_external_document p a)"
  using assms by (auto simp: external_document_allowed)

definition example_acl :: ExternalDocumentAclSnapshot where
  "example_acl = \<lparr>acl_source_id = ''s'', acl_document_external_id = ''d'',
     acl_revision_external_id = None, allowed_user_external_ids = [],
     allowed_department_external_ids = [], allowed_group_external_ids = [''g''],
     allowed_role_external_ids = [], denied_user_external_ids = [''mallory''],
     denied_department_external_ids = [], denied_group_external_ids = [],
     denied_role_external_ids = [], acl_hash = None\<rparr>"

definition example_principal :: ExternalPrincipalContext where
  "example_principal = \<lparr>ep_tenant_id = Uuid ''t'', ep_platform = ''p'', external_user_id = ''alice'',
     external_department_ids = [], external_group_ids = [''g''], external_role_ids = [],
     ep_v3_user_id = None, trust_level = Employee, is_disabled = False\<rparr>"

theorem external_document_monotone_witness:
  "allowed (can_access_external_document example_principal
     (example_acl\<lparr>allowed_role_external_ids := [''reader'']\<rparr>))"
proof (rule external_document_monotone [of _ example_acl])
  show "allowed (can_access_external_document example_principal example_acl)"
    by (simp add: can_access_external_document_def example_acl_def example_principal_def
        intersects_def)
qed (auto simp: denied_subjects_def allowed_subjects_def example_acl_def)

text \<open>A trust level that is not one of the six known names reads as unresolved, and an
  unresolved principal reads no external document whatever the access control list says.\<close>

lemma unknown_trust_level_denied:
  assumes "value \<notin> {''guest'', ''external_user'', ''employee'', ''manager'', ''admin'',
      ''system_operator''}"
    and "trust_level p = ExternalPrincipalTrustLevel_from_str value"
  shows "\<not> allowed (can_access_external_document p a)"
  using assms by (simp add: external_document_allowed ExternalPrincipalTrustLevel_from_str_def)

lemma unknown_trust_level_denied_witness:
  "\<not> allowed (can_access_external_document
     (example_principal\<lparr>trust_level := ExternalPrincipalTrustLevel_from_str ''root''\<rparr>) example_acl)"
  by (rule unknown_trust_level_denied [of "''root''"]) simp_all

end
