(* ===== verification/Semantic_Links.thy ===== *)
theory Semantic_Links
  imports Workflow_Store
begin

text \<open>
  The semantic understanding of datasets in the crate \<open>storage\<close>: snapshots of a dataset
  (\<open>PgDatasetSemanticSnapshotRepository\<close>), snapshots of the links between two datasets, and the
  queue of runs that build them (\<open>PgDatasetSemanticLinkRepository\<close>). A pair of datasets is kept in
  canonical order; a run is claimed, retried a bounded number of times and then dead-lettered;
  a build that becomes ready supersedes the one before.
\<close>

section \<open>Rows\<close>

record DatasetSemanticSnapshot =
  dss_id :: uuid
  dss_tenant_id :: TenantId
  dss_dataset_id :: DatasetId
  dss_schema_version :: string
  dss_generation_version :: string
  dss_source_fingerprint :: string
  dss_status :: string
  dss_manifest :: json
  dss_source_document_count :: int
  dss_source_asset_count :: int
  dss_source_record_count :: int
  dss_node_count :: int
  dss_edge_count :: int
  dss_failure_code :: "string option"
  dss_generated_at :: "datetime option"
  dss_created_at :: datetime
  dss_updated_at :: datetime

record NewDatasetSemanticSnapshot =
  nds_dataset_id :: DatasetId
  nds_schema_version :: string
  nds_generation_version :: string
  nds_source_fingerprint :: string
  nds_manifest :: json
  nds_source_document_count :: int
  nds_source_asset_count :: int
  nds_source_record_count :: int

record DatasetSemanticLinkSnapshot =
  ls_id :: uuid
  ls_tenant_id :: TenantId
  ls_left_dataset_id :: DatasetId
  ls_right_dataset_id :: DatasetId
  ls_left_snapshot_id :: uuid
  ls_right_snapshot_id :: uuid
  ls_schema_version :: string
  ls_generation_version :: string
  ls_source_fingerprint :: string
  ls_status :: string
  ls_manifest :: json
  ls_node_count :: int
  ls_edge_count :: int
  ls_failure_code :: "string option"
  ls_generated_at :: "datetime option"
  ls_created_at :: datetime
  ls_updated_at :: datetime

record NewDatasetSemanticLinkSnapshot =
  nls_left_dataset_id :: DatasetId
  nls_right_dataset_id :: DatasetId
  nls_left_snapshot_id :: uuid
  nls_right_snapshot_id :: uuid
  nls_schema_version :: string
  nls_generation_version :: string
  nls_source_fingerprint :: string
  nls_manifest :: json

record DatasetSemanticLinkRun =
  run_id :: uuid
  run_tenant_id :: TenantId
  run_left_dataset_id :: DatasetId
  run_right_dataset_id :: DatasetId
  run_left_snapshot_id :: uuid
  run_right_snapshot_id :: uuid
  run_generation_version :: string
  run_source_fingerprint :: string
  run_status :: string
  run_priority :: int
  run_attempt_count :: int
  run_max_attempts :: int
  run_available_at :: datetime
  run_claimed_at :: "datetime option"
  run_finished_at :: "datetime option"
  run_failure_code :: "string option"
  run_created_at :: datetime
  run_updated_at :: datetime

record NewDatasetSemanticLinkRun =
  nr_left_dataset_id :: DatasetId
  nr_right_dataset_id :: DatasetId
  nr_left_snapshot_id :: uuid
  nr_right_snapshot_id :: uuid
  nr_generation_version :: string
  nr_source_fingerprint :: string
  nr_priority :: int
  nr_max_attempts :: int
  nr_available_at :: datetime

text \<open>The three tables, the keys of the tables they refer to, and the number of ids the database
  has generated (\<open>gen_random_uuid\<close>).\<close>

record semantic_db =
  sd_tenants :: "uuid list"
  sd_datasets :: "uuid list"
  dataset_semantic_snapshots :: "DatasetSemanticSnapshot list"
  dataset_semantic_link_snapshots :: "DatasetSemanticLinkSnapshot list"
  dataset_semantic_link_runs :: "DatasetSemanticLinkRun list"
  sd_draws :: nat

datatype semantic_error = Rejected string | CheckViolation | Violation store_error

type_synonym 'a semantic_result = "('a, semantic_error) result"

definition object_manifest :: "json \<Rightarrow> bool" where
  "object_manifest m = (case m of JObject _ \<Rightarrow> True | _ \<Rightarrow> False)"

section \<open>Canonical pairs and validation\<close>

definition canonical_dataset_semantic_link_pair ::
    "DatasetId \<Rightarrow> DatasetId \<Rightarrow> uuid \<Rightarrow> uuid \<Rightarrow>
     (DatasetId \<times> DatasetId \<times> uuid \<times> uuid) semantic_result" where
  "canonical_dataset_semantic_link_pair left_dataset_id right_dataset_id left_snapshot_id
       right_snapshot_id =
     (if left_dataset_id = right_dataset_id
      then Err (Rejected ''dataset semantic link endpoints must be distinct'')
      else if left_snapshot_id = right_snapshot_id
      then Err (Rejected ''dataset semantic link snapshots must be distinct'')
      else if left_dataset_id < right_dataset_id
      then Ok (left_dataset_id, right_dataset_id, left_snapshot_id, right_snapshot_id)
      else Ok (right_dataset_id, left_dataset_id, right_snapshot_id, left_snapshot_id))"

definition canonical_dataset_semantic_link_dataset_pair ::
    "DatasetId \<Rightarrow> DatasetId \<Rightarrow> (DatasetId \<times> DatasetId) semantic_result" where
  "canonical_dataset_semantic_link_dataset_pair left_dataset_id right_dataset_id =
     (if left_dataset_id = right_dataset_id
      then Err (Rejected ''dataset semantic link endpoints must be distinct'')
      else Ok (if left_dataset_id < right_dataset_id then (left_dataset_id, right_dataset_id)
               else (right_dataset_id, left_dataset_id)))"

definition dataset_semantic_link_run_status_requires_failed_build :: "string \<Rightarrow> bool" where
  "dataset_semantic_link_run_status_requires_failed_build status \<longleftrightarrow> status = ''dead_letter''"

definition validate_dataset_semantic_link_manifest :: "json \<Rightarrow> unit semantic_result" where
  "validate_dataset_semantic_link_manifest manifest =
     (if object_manifest manifest then Ok ()
      else Err (Rejected ''dataset semantic link manifest must be a JSON object''))"

definition validate_dataset_semantic_link_ready_payload ::
    "json \<Rightarrow> int \<Rightarrow> int \<Rightarrow> unit semantic_result" where
  "validate_dataset_semantic_link_ready_payload manifest node_count edge_count =
     and_then (validate_dataset_semantic_link_manifest manifest) (\<lambda>_.
     if node_count < 0 \<or> edge_count < 0
     then Err (Rejected ''dataset semantic link node and edge counts must be non-negative'')
     else Ok ())"

section \<open>Snapshots of a dataset\<close>

definition same_snapshot_key ::
    "TenantId \<Rightarrow> NewDatasetSemanticSnapshot \<Rightarrow> DatasetSemanticSnapshot \<Rightarrow> bool" where
  "same_snapshot_key tenant_id snapshot r \<longleftrightarrow>
     dss_tenant_id r = tenant_id \<and> dss_dataset_id r = nds_dataset_id snapshot \<and>
     dss_generation_version r = nds_generation_version snapshot \<and>
     dss_source_fingerprint r = nds_source_fingerprint snapshot"

definition new_snapshot_row ::
    "uuid \<Rightarrow> TenantId \<Rightarrow> NewDatasetSemanticSnapshot \<Rightarrow> datetime \<Rightarrow> DatasetSemanticSnapshot" where
  "new_snapshot_row i tenant_id snapshot now =
     \<lparr>dss_id = i, dss_tenant_id = tenant_id, dss_dataset_id = nds_dataset_id snapshot,
      dss_schema_version = nds_schema_version snapshot,
      dss_generation_version = nds_generation_version snapshot,
      dss_source_fingerprint = nds_source_fingerprint snapshot, dss_status = ''building'',
      dss_manifest = nds_manifest snapshot,
      dss_source_document_count = nds_source_document_count snapshot,
      dss_source_asset_count = nds_source_asset_count snapshot,
      dss_source_record_count = nds_source_record_count snapshot, dss_node_count = 0,
      dss_edge_count = 0, dss_failure_code = None, dss_generated_at = None,
      dss_created_at = now, dss_updated_at = now\<rparr>"

text \<open>\<open>insert .. on conflict .. do update .. where status in ('failed', 'superseded') returning ..\<close>:
  the inserted or the restarted row, or none when the snapshot is being built or ready. The two
  callers differ in whether the schema version of a restarted row is replaced.\<close>

definition upsert_building ::
    "bool \<Rightarrow> uuid_source \<Rightarrow> semantic_db \<Rightarrow> TenantId \<Rightarrow> NewDatasetSemanticSnapshot \<Rightarrow> datetime \<Rightarrow>
     DatasetSemanticSnapshot option semantic_result \<times> semantic_db" where
  "upsert_building set_schema gen_random_uuid db tenant_id snapshot now =
     (let i = gen_random_uuid (sd_draws db);
          db' = db\<lparr>sd_draws := Suc (sd_draws db)\<rparr>;
          rows = dataset_semantic_snapshots db in
      if \<not> (object_manifest (nds_manifest snapshot) \<and> 0 \<le> nds_source_document_count snapshot \<and>
             0 \<le> nds_source_asset_count snapshot \<and> 0 \<le> nds_source_record_count snapshot)
      then (Err CheckViolation, db')
      else if list_ex (same_snapshot_key tenant_id snapshot) rows then
        let p = (\<lambda>r. same_snapshot_key tenant_id snapshot r \<and>
                   (dss_status r = ''failed'' \<or> dss_status r = ''superseded''));
            f = (\<lambda>r. r\<lparr>dss_schema_version := (if set_schema then nds_schema_version snapshot
                     else dss_schema_version r),
                   dss_status := ''building'', dss_manifest := nds_manifest snapshot,
                   dss_source_document_count := nds_source_document_count snapshot,
                   dss_source_asset_count := nds_source_asset_count snapshot,
                   dss_source_record_count := nds_source_record_count snapshot,
                   dss_node_count := 0, dss_edge_count := 0, dss_failure_code := None,
                   dss_generated_at := None, dss_updated_at := now\<rparr>) in
        (Ok (fetch_optional (returning p f rows)),
         db'\<lparr>dataset_semantic_snapshots := update_where p f rows\<rparr>)
      else if i \<in> set (map dss_id rows) then (Err (Violation UniqueViolation), db')
      else if tenant_id \<in> set (sd_tenants db) \<and> nds_dataset_id snapshot \<in> set (sd_datasets db)
      then let row = new_snapshot_row i tenant_id snapshot now in
        (Ok (Some row), db'\<lparr>dataset_semantic_snapshots := rows @ [row]\<rparr>)
      else (Err (Violation ForeignKeyViolation), db'))"

definition snapshot_try_begin_build ::
    "uuid_source \<Rightarrow> semantic_db \<Rightarrow> TenantId \<Rightarrow> NewDatasetSemanticSnapshot \<Rightarrow> datetime \<Rightarrow>
     DatasetSemanticSnapshot option semantic_result \<times> semantic_db" where
  "snapshot_try_begin_build gen_random_uuid db tenant_id snapshot now =
     upsert_building False gen_random_uuid db tenant_id snapshot now"

definition snapshot_begin_build ::
    "uuid_source \<Rightarrow> semantic_db \<Rightarrow> TenantId \<Rightarrow> NewDatasetSemanticSnapshot \<Rightarrow> datetime \<Rightarrow>
     DatasetSemanticSnapshot semantic_result \<times> semantic_db" where
  "snapshot_begin_build gen_random_uuid db tenant_id snapshot now =
     (case upsert_building True gen_random_uuid db tenant_id snapshot now of
        (Inl e, db') \<Rightarrow> (Err e, db')
      | (Inr _, db') \<Rightarrow>
          (ok_or (Violation RowNotFound) (fetch_optional (filter
             (same_snapshot_key tenant_id snapshot) (dataset_semantic_snapshots db'))), db'))"

definition building_snapshot :: "TenantId \<Rightarrow> DatasetId \<Rightarrow> uuid \<Rightarrow> DatasetSemanticSnapshot \<Rightarrow> bool" where
  "building_snapshot tenant_id dataset_id snapshot_id r \<longleftrightarrow>
     dss_tenant_id r = tenant_id \<and> dss_dataset_id r = dataset_id \<and> dss_id r = snapshot_id \<and>
     dss_status r = ''building''"

definition snapshot_mark_ready ::
    "semantic_db \<Rightarrow> TenantId \<Rightarrow> DatasetId \<Rightarrow> uuid \<Rightarrow> json \<Rightarrow> int \<Rightarrow> int \<Rightarrow> datetime \<Rightarrow>
     DatasetSemanticSnapshot option semantic_result \<times> semantic_db" where
  "snapshot_mark_ready db tenant_id dataset_id snapshot_id manifest node_count edge_count
       generated_at =
     (let p = building_snapshot tenant_id dataset_id snapshot_id;
          f = (\<lambda>r. r\<lparr>dss_status := ''ready'', dss_manifest := manifest,
                dss_node_count := node_count, dss_edge_count := edge_count,
                dss_failure_code := None, dss_generated_at := Some generated_at,
                dss_updated_at := generated_at\<rparr>);
          rows = dataset_semantic_snapshots db in
      if list_ex p rows \<and> \<not> (object_manifest manifest \<and> 0 \<le> node_count \<and> 0 \<le> edge_count)
      then (Err CheckViolation, db)
      else (Ok (fetch_optional (returning p f rows)),
            db\<lparr>dataset_semantic_snapshots := update_where p f rows\<rparr>))"

definition snapshot_mark_failed ::
    "semantic_db \<Rightarrow> TenantId \<Rightarrow> DatasetId \<Rightarrow> uuid \<Rightarrow> string \<Rightarrow> datetime \<Rightarrow>
     DatasetSemanticSnapshot option semantic_result \<times> semantic_db" where
  "snapshot_mark_failed db tenant_id dataset_id snapshot_id failure_code now =
     (let p = building_snapshot tenant_id dataset_id snapshot_id;
          f = (\<lambda>r. r\<lparr>dss_status := ''failed'', dss_failure_code := Some failure_code,
                dss_updated_at := now\<rparr>);
          rows = dataset_semantic_snapshots db in
      (Ok (fetch_optional (returning p f rows)),
       db\<lparr>dataset_semantic_snapshots := update_where p f rows\<rparr>))"

text \<open>\<open>generated_at desc\<close>: PostgreSQL sorts a null first, then the later times.\<close>

definition desc_nulls_first :: "datetime option \<Rightarrow> int \<times> int" where
  "desc_nulls_first x = (case x of None \<Rightarrow> (0, 0) | Some t \<Rightarrow> (1, - t))"

definition snapshot_load_latest_ready ::
    "semantic_db \<Rightarrow> TenantId \<Rightarrow> DatasetId \<Rightarrow> DatasetSemanticSnapshot option" where
  "snapshot_load_latest_ready db tenant_id dataset_id =
     first_by (\<lambda>r. (desc_nulls_first (dss_generated_at r), - dss_created_at r))
       (filter (\<lambda>r. dss_tenant_id r = tenant_id \<and> dss_dataset_id r = dataset_id \<and>
          dss_status r = ''ready'') (dataset_semantic_snapshots db))"

definition snapshot_load_ready_by_id ::
    "semantic_db \<Rightarrow> TenantId \<Rightarrow> DatasetId \<Rightarrow> uuid \<Rightarrow> DatasetSemanticSnapshot option" where
  "snapshot_load_ready_by_id db tenant_id dataset_id snapshot_id =
     fetch_optional (filter (\<lambda>r. dss_tenant_id r = tenant_id \<and> dss_dataset_id r = dataset_id \<and>
       dss_id r = snapshot_id \<and> dss_status r = ''ready'') (dataset_semantic_snapshots db))"

text \<open>\<open>select distinct on (dataset_id) .. order by dataset_id, generated_at desc, created_at desc, id\<close>:
  the first row of every dataset, in the order of the datasets.\<close>

definition snapshot_list_latest_ready_by_tenant ::
    "semantic_db \<Rightarrow> TenantId \<Rightarrow> nat \<Rightarrow> DatasetSemanticSnapshot list" where
  "snapshot_list_latest_ready_by_tenant db tenant_id limit =
     (let rows = filter (\<lambda>r. dss_tenant_id r = tenant_id \<and> dss_status r = ''ready'')
            (dataset_semantic_snapshots db) in
      take (min (max limit 1) 10000) (List.map_filter (\<lambda>d.
        first_by (\<lambda>r. (desc_nulls_first (dss_generated_at r), - dss_created_at r, dss_id r))
          (filter (\<lambda>r. dss_dataset_id r = d) rows))
        (sort (remdups (map dss_dataset_id rows)))))"

definition snapshot_load_latest_attempt ::
    "semantic_db \<Rightarrow> TenantId \<Rightarrow> DatasetId \<Rightarrow> DatasetSemanticSnapshot option" where
  "snapshot_load_latest_attempt db tenant_id dataset_id =
     first_by (\<lambda>r. (- dss_updated_at r, - dss_created_at r))
       (filter (\<lambda>r. dss_tenant_id r = tenant_id \<and> dss_dataset_id r = dataset_id)
         (dataset_semantic_snapshots db))"

section \<open>Snapshots of a link\<close>

text \<open>The foreign keys of a link or a run: both snapshots exist for their datasets.\<close>

definition snapshot_exists :: "semantic_db \<Rightarrow> TenantId \<Rightarrow> DatasetId \<Rightarrow> uuid \<Rightarrow> bool" where
  "snapshot_exists db tenant_id dataset_id snapshot_id =
     list_ex (\<lambda>r. dss_tenant_id r = tenant_id \<and> dss_dataset_id r = dataset_id \<and>
       dss_id r = snapshot_id) (dataset_semantic_snapshots db)"

definition pair_references ::
    "semantic_db \<Rightarrow> TenantId \<Rightarrow> DatasetId \<times> DatasetId \<times> uuid \<times> uuid \<Rightarrow> bool" where
  "pair_references db tenant_id pair =
     (case pair of (l, r, ls, rs) \<Rightarrow>
        tenant_id \<in> set (sd_tenants db) \<and> l \<in> set (sd_datasets db) \<and> r \<in> set (sd_datasets db) \<and>
        snapshot_exists db tenant_id l ls \<and> snapshot_exists db tenant_id r rs)"

definition same_link_key ::
    "TenantId \<Rightarrow> uuid \<Rightarrow> uuid \<Rightarrow> string \<Rightarrow> DatasetSemanticLinkSnapshot \<Rightarrow> bool" where
  "same_link_key tenant_id ls rs version r \<longleftrightarrow>
     ls_tenant_id r = tenant_id \<and> ls_left_snapshot_id r = ls \<and> ls_right_snapshot_id r = rs \<and>
     ls_generation_version r = version"

definition link_try_begin_build ::
    "uuid_source \<Rightarrow> semantic_db \<Rightarrow> TenantId \<Rightarrow> NewDatasetSemanticLinkSnapshot \<Rightarrow> datetime \<Rightarrow>
     DatasetSemanticLinkSnapshot option semantic_result \<times> semantic_db" where
  "link_try_begin_build gen_random_uuid db tenant_id snapshot now =
     (case and_then (validate_dataset_semantic_link_manifest (nls_manifest snapshot)) (\<lambda>_.
             canonical_dataset_semantic_link_pair (nls_left_dataset_id snapshot)
               (nls_right_dataset_id snapshot) (nls_left_snapshot_id snapshot)
               (nls_right_snapshot_id snapshot)) of
        Inl e \<Rightarrow> (Err e, db)
      | Inr (l, r, ls, rs) \<Rightarrow>
          let version = trim (nls_generation_version snapshot);
              i = gen_random_uuid (sd_draws db);
              db' = db\<lparr>sd_draws := Suc (sd_draws db)\<rparr>;
              rows = dataset_semantic_link_snapshots db in
          if list_ex (same_link_key tenant_id ls rs version) rows then
            let p = (\<lambda>x. same_link_key tenant_id ls rs version x \<and>
                       (ls_status x = ''failed'' \<or> ls_status x = ''superseded''));
                f = (\<lambda>x. x\<lparr>ls_schema_version := trim (nls_schema_version snapshot),
                       ls_source_fingerprint := trim (nls_source_fingerprint snapshot),
                       ls_status := ''building'', ls_manifest := nls_manifest snapshot,
                       ls_node_count := 0, ls_edge_count := 0, ls_failure_code := None,
                       ls_generated_at := None, ls_updated_at := now\<rparr>) in
            (Ok (fetch_optional (returning p f rows)),
             db'\<lparr>dataset_semantic_link_snapshots := update_where p f rows\<rparr>)
          else if i \<in> set (map ls_id rows) then (Err (Violation UniqueViolation), db')
          else if pair_references db tenant_id (l, r, ls, rs) then
            let row = \<lparr>ls_id = i, ls_tenant_id = tenant_id, ls_left_dataset_id = l,
                  ls_right_dataset_id = r, ls_left_snapshot_id = ls, ls_right_snapshot_id = rs,
                  ls_schema_version = trim (nls_schema_version snapshot),
                  ls_generation_version = version,
                  ls_source_fingerprint = trim (nls_source_fingerprint snapshot),
                  ls_status = ''building'', ls_manifest = nls_manifest snapshot,
                  ls_node_count = 0, ls_edge_count = 0, ls_failure_code = None,
                  ls_generated_at = None, ls_created_at = now, ls_updated_at = now\<rparr> in
            (Ok (Some row), db'\<lparr>dataset_semantic_link_snapshots := rows @ [row]\<rparr>)
          else (Err (Violation ForeignKeyViolation), db'))"

definition link_of_pair ::
    "TenantId \<Rightarrow> DatasetId \<Rightarrow> DatasetId \<Rightarrow> DatasetSemanticLinkSnapshot \<Rightarrow> bool" where
  "link_of_pair tenant_id l r x \<longleftrightarrow>
     ls_tenant_id x = tenant_id \<and> ls_left_dataset_id x = l \<and> ls_right_dataset_id x = r"

definition link_load_latest_ready ::
    "semantic_db \<Rightarrow> TenantId \<Rightarrow> DatasetId \<Rightarrow> DatasetId \<Rightarrow>
     DatasetSemanticLinkSnapshot option semantic_result" where
  "link_load_latest_ready db tenant_id left_dataset_id right_dataset_id =
     and_then (canonical_dataset_semantic_link_dataset_pair left_dataset_id right_dataset_id)
       (\<lambda>(l, r). Ok (first_by
         (\<lambda>x. (desc_nulls_first (ls_generated_at x), - ls_created_at x, ls_id x))
         (filter (\<lambda>x. link_of_pair tenant_id l r x \<and> ls_status x = ''ready'')
           (dataset_semantic_link_snapshots db))))"

definition link_load_latest_attempt ::
    "semantic_db \<Rightarrow> TenantId \<Rightarrow> DatasetId \<Rightarrow> DatasetId \<Rightarrow>
     DatasetSemanticLinkSnapshot option semantic_result" where
  "link_load_latest_attempt db tenant_id left_dataset_id right_dataset_id =
     and_then (canonical_dataset_semantic_link_dataset_pair left_dataset_id right_dataset_id)
       (\<lambda>(l, r). Ok (first_by (\<lambda>x. (- ls_updated_at x, - ls_created_at x, ls_id x))
         (filter (link_of_pair tenant_id l r) (dataset_semantic_link_snapshots db))))"

definition link_load_by_inputs ::
    "semantic_db \<Rightarrow> TenantId \<Rightarrow> DatasetId \<Rightarrow> DatasetId \<Rightarrow> uuid \<Rightarrow> uuid \<Rightarrow> string \<Rightarrow>
     DatasetSemanticLinkSnapshot option semantic_result" where
  "link_load_by_inputs db tenant_id left_dataset_id right_dataset_id left_snapshot_id
       right_snapshot_id generation_version =
     and_then (canonical_dataset_semantic_link_pair left_dataset_id right_dataset_id
         left_snapshot_id right_snapshot_id)
       (\<lambda>(l, r, ls, rs). Ok (fetch_optional (filter
         (\<lambda>x. link_of_pair tenant_id l r x \<and>
            same_link_key tenant_id ls rs (trim generation_version) x)
         (dataset_semantic_link_snapshots db))))"

definition link_mark_ready ::
    "semantic_db \<Rightarrow> TenantId \<Rightarrow> DatasetId \<Rightarrow> DatasetId \<Rightarrow> uuid \<Rightarrow> json \<Rightarrow> int \<Rightarrow> int \<Rightarrow> datetime \<Rightarrow>
     DatasetSemanticLinkSnapshot option semantic_result \<times> semantic_db" where
  "link_mark_ready db tenant_id left_dataset_id right_dataset_id link_snapshot_id manifest
       node_count edge_count generated_at =
     (case and_then (validate_dataset_semantic_link_ready_payload manifest node_count edge_count)
             (\<lambda>_. canonical_dataset_semantic_link_dataset_pair left_dataset_id right_dataset_id) of
        Inl e \<Rightarrow> (Err e, db)
      | Inr (l, r) \<Rightarrow>
          let p = (\<lambda>x. link_of_pair tenant_id l r x \<and> ls_id x = link_snapshot_id \<and>
                     ls_status x = ''building'');
              f = (\<lambda>x. x\<lparr>ls_status := ''ready'', ls_manifest := manifest,
                     ls_node_count := node_count, ls_edge_count := edge_count,
                     ls_failure_code := None, ls_generated_at := Some generated_at,
                     ls_updated_at := generated_at\<rparr>);
              rows = dataset_semantic_link_snapshots db;
              marked = update_where p f rows in
          (case fetch_optional (returning p f rows) of
             None \<Rightarrow> (Ok None, db\<lparr>dataset_semantic_link_snapshots := marked\<rparr>)
           | Some row \<Rightarrow>
               (Ok (Some row), db\<lparr>dataset_semantic_link_snapshots := update_where
                  (\<lambda>x. link_of_pair tenant_id l r x \<and> ls_id x \<noteq> link_snapshot_id \<and>
                     ls_status x = ''ready'')
                  (\<lambda>x. x\<lparr>ls_status := ''superseded'', ls_updated_at := generated_at\<rparr>) marked\<rparr>)))"

definition link_mark_failed ::
    "semantic_db \<Rightarrow> TenantId \<Rightarrow> DatasetId \<Rightarrow> DatasetId \<Rightarrow> uuid \<Rightarrow> string \<Rightarrow> datetime \<Rightarrow>
     DatasetSemanticLinkSnapshot option semantic_result \<times> semantic_db" where
  "link_mark_failed db tenant_id left_dataset_id right_dataset_id link_snapshot_id failure_code now =
     (case canonical_dataset_semantic_link_dataset_pair left_dataset_id right_dataset_id of
        Inl e \<Rightarrow> (Err e, db)
      | Inr (l, r) \<Rightarrow>
          let p = (\<lambda>x. link_of_pair tenant_id l r x \<and> ls_id x = link_snapshot_id \<and>
                     ls_status x = ''building'');
              f = (\<lambda>x. x\<lparr>ls_status := ''failed'', ls_failure_code := Some (trim failure_code),
                     ls_updated_at := now\<rparr>);
              rows = dataset_semantic_link_snapshots db in
          (Ok (fetch_optional (returning p f rows)),
           db\<lparr>dataset_semantic_link_snapshots := update_where p f rows\<rparr>))"

text \<open>\<open>DATASET_SEMANTIC_LINK_FAIL_BUILD_FOR_RUN_SQL\<close> and the two statements that mark ready links
  as stale.\<close>

definition build_for_run :: "TenantId \<Rightarrow> DatasetSemanticLinkRun \<Rightarrow> DatasetSemanticLinkSnapshot \<Rightarrow> bool" where
  "build_for_run tenant_id run x \<longleftrightarrow>
     link_of_pair tenant_id (run_left_dataset_id run) (run_right_dataset_id run) x \<and>
     ls_left_snapshot_id x = run_left_snapshot_id run \<and>
     ls_right_snapshot_id x = run_right_snapshot_id run \<and> ls_status x = ''building''"

definition fail_build_for_run ::
    "semantic_db \<Rightarrow> TenantId \<Rightarrow> DatasetSemanticLinkRun \<Rightarrow> string \<Rightarrow> datetime \<Rightarrow> nat \<times> semantic_db" where
  "fail_build_for_run db tenant_id run failure_code now =
     (let rows = dataset_semantic_link_snapshots db in
      (length (filter (build_for_run tenant_id run) rows),
       db\<lparr>dataset_semantic_link_snapshots := update_where (build_for_run tenant_id run)
         (\<lambda>x. x\<lparr>ls_status := ''failed'', ls_failure_code := Some failure_code,
                ls_updated_at := now\<rparr>) rows\<rparr>))"

definition set_stale :: "json \<Rightarrow> json" where
  "set_stale manifest =
     (case manifest of JObject m \<Rightarrow> JObject (map_insert ''stale'' (JBool True) m) | v \<Rightarrow> v)"

definition mark_pair_ready_stale ::
    "semantic_db \<Rightarrow> TenantId \<Rightarrow> DatasetId \<Rightarrow> DatasetId \<Rightarrow> datetime \<Rightarrow> semantic_db" where
  "mark_pair_ready_stale db tenant_id l r now =
     db\<lparr>dataset_semantic_link_snapshots := update_where
       (\<lambda>x. link_of_pair tenant_id l r x \<and> ls_status x = ''ready'')
       (\<lambda>x. x\<lparr>ls_manifest := set_stale (ls_manifest x), ls_updated_at := now\<rparr>)
       (dataset_semantic_link_snapshots db)\<rparr>"

definition mark_ready_links_stale_for_dataset ::
    "semantic_db \<Rightarrow> TenantId \<Rightarrow> DatasetId \<Rightarrow> datetime \<Rightarrow> nat semantic_result \<times> semantic_db" where
  "mark_ready_links_stale_for_dataset db tenant_id dataset_id now =
     (let p = (\<lambda>x. ls_tenant_id x = tenant_id \<and> ls_status x = ''ready'' \<and>
                 (ls_left_dataset_id x = dataset_id \<or> ls_right_dataset_id x = dataset_id));
          rows = dataset_semantic_link_snapshots db in
      (Ok (length (filter p rows)), db\<lparr>dataset_semantic_link_snapshots := update_where p
         (\<lambda>x. x\<lparr>ls_manifest := set_stale (ls_manifest x), ls_updated_at := now\<rparr>) rows\<rparr>))"

section \<open>The queue of runs\<close>

definition same_run_key ::
    "TenantId \<Rightarrow> uuid \<Rightarrow> uuid \<Rightarrow> string \<Rightarrow> DatasetSemanticLinkRun \<Rightarrow> bool" where
  "same_run_key tenant_id ls rs version r \<longleftrightarrow>
     run_tenant_id r = tenant_id \<and> run_left_snapshot_id r = ls \<and> run_right_snapshot_id r = rs \<and>
     run_generation_version r = version"

definition waiting_status :: "string \<Rightarrow> bool" where
  "waiting_status st \<longleftrightarrow> st = ''pending'' \<or> st = ''retry_wait''"

definition create_or_get_run ::
    "uuid_source \<Rightarrow> semantic_db \<Rightarrow> TenantId \<Rightarrow> NewDatasetSemanticLinkRun \<Rightarrow> datetime \<Rightarrow>
     DatasetSemanticLinkRun semantic_result \<times> semantic_db" where
  "create_or_get_run gen_random_uuid db tenant_id run now =
     (if nr_max_attempts run \<le> 0
      then (Err (Rejected ''dataset semantic link run max_attempts must be positive''), db)
      else case canonical_dataset_semantic_link_pair (nr_left_dataset_id run)
             (nr_right_dataset_id run) (nr_left_snapshot_id run) (nr_right_snapshot_id run) of
        Inl e \<Rightarrow> (Err e, db)
      | Inr (l, r, ls, rs) \<Rightarrow>
          let version = trim (nr_generation_version run);
              i = gen_random_uuid (sd_draws db);
              db' = db\<lparr>sd_draws := Suc (sd_draws db)\<rparr>;
              rows = dataset_semantic_link_runs db;
              p = same_run_key tenant_id ls rs version;
              f = (\<lambda>x. x\<lparr>run_priority := min (run_priority x) (nr_priority run),
                     run_max_attempts := max (run_max_attempts x) (nr_max_attempts run),
                     run_available_at := (if waiting_status (run_status x)
                       then min (run_available_at x) (nr_available_at run)
                       else run_available_at x),
                     run_updated_at := now\<rparr>) in
          if list_ex p rows then
            (ok_or (Violation RowNotFound) (fetch_optional (returning p f rows)),
             db'\<lparr>dataset_semantic_link_runs := update_where p f rows\<rparr>)
          else if i \<in> set (map run_id rows) then (Err (Violation UniqueViolation), db')
          else if pair_references db tenant_id (l, r, ls, rs) then
            let row = \<lparr>run_id = i, run_tenant_id = tenant_id, run_left_dataset_id = l,
                  run_right_dataset_id = r, run_left_snapshot_id = ls,
                  run_right_snapshot_id = rs, run_generation_version = version,
                  run_source_fingerprint = trim (nr_source_fingerprint run),
                  run_status = ''pending'', run_priority = nr_priority run,
                  run_attempt_count = 0, run_max_attempts = nr_max_attempts run,
                  run_available_at = nr_available_at run, run_claimed_at = None,
                  run_finished_at = None, run_failure_code = None, run_created_at = now,
                  run_updated_at = now\<rparr> in
            (Ok row, db'\<lparr>dataset_semantic_link_runs := rows @ [row]\<rparr>)
          else (Err (Violation ForeignKeyViolation), db'))"

text \<open>The claim: \<open>only\<close> restricts both datasets of the run when it is given, and \<open>locked\<close> are the
  rows that other claims hold at this moment.\<close>

definition claimable_run ::
    "uuid list \<Rightarrow> DatasetId list option \<Rightarrow> TenantId \<Rightarrow> datetime \<Rightarrow> DatasetSemanticLinkRun \<Rightarrow> bool" where
  "claimable_run locked only tenant_id claimed_at r \<longleftrightarrow>
     run_tenant_id r = tenant_id \<and> waiting_status (run_status r) \<and>
     run_available_at r \<le> claimed_at \<and> run_attempt_count r < run_max_attempts r \<and>
     (case only of None \<Rightarrow> True
      | Some ds \<Rightarrow> run_left_dataset_id r \<in> set ds \<and> run_right_dataset_id r \<in> set ds) \<and>
     run_id r \<notin> set locked"

definition claim_run_sql ::
    "semantic_db \<Rightarrow> uuid list \<Rightarrow> DatasetId list option \<Rightarrow> TenantId \<Rightarrow> datetime \<Rightarrow>
     DatasetSemanticLinkRun option semantic_result \<times> semantic_db" where
  "claim_run_sql db locked only tenant_id claimed_at =
     (let rows = dataset_semantic_link_runs db in
      case first_by (\<lambda>r. (run_priority r, run_available_at r, run_created_at r, run_id r))
             (filter (claimable_run locked only tenant_id claimed_at) rows) of
        None \<Rightarrow> (Ok None, db)
      | Some row \<Rightarrow>
          (case int4 (run_attempt_count row + 1) of
             Inl e \<Rightarrow> (Err (Violation e), db)
           | Inr attempt \<Rightarrow>
               let p = (\<lambda>r. run_tenant_id r = tenant_id \<and> run_id r = run_id row);
                   f = (\<lambda>r. r\<lparr>run_status := ''running'', run_attempt_count := attempt,
                          run_claimed_at := Some claimed_at, run_finished_at := None,
                          run_failure_code := None, run_updated_at := claimed_at\<rparr>) in
               (Ok (fetch_optional (returning p f rows)),
                db\<lparr>dataset_semantic_link_runs := update_where p f rows\<rparr>)))"

definition claim_ready_run ::
    "semantic_db \<Rightarrow> uuid list \<Rightarrow> TenantId \<Rightarrow> datetime \<Rightarrow>
     DatasetSemanticLinkRun option semantic_result \<times> semantic_db" where
  "claim_ready_run db locked tenant_id claimed_at = claim_run_sql db locked None tenant_id claimed_at"

definition claim_ready_run_for_datasets ::
    "semantic_db \<Rightarrow> uuid list \<Rightarrow> TenantId \<Rightarrow> datetime \<Rightarrow> DatasetId list \<Rightarrow>
     DatasetSemanticLinkRun option semantic_result \<times> semantic_db" where
  "claim_ready_run_for_datasets db locked tenant_id claimed_at allowed_dataset_ids =
     (if allowed_dataset_ids = [] then (Ok None, db)
      else claim_run_sql db locked (Some allowed_dataset_ids) tenant_id claimed_at)"

text \<open>The updates of one running run, by id.\<close>

definition running_run :: "TenantId \<Rightarrow> uuid \<Rightarrow> DatasetSemanticLinkRun \<Rightarrow> bool" where
  "running_run tenant_id i r \<longleftrightarrow>
     run_tenant_id r = tenant_id \<and> run_id r = i \<and> run_status r = ''running''"

definition update_run ::
    "semantic_db \<Rightarrow> (DatasetSemanticLinkRun \<Rightarrow> bool) \<Rightarrow>
     (DatasetSemanticLinkRun \<Rightarrow> DatasetSemanticLinkRun) \<Rightarrow>
     DatasetSemanticLinkRun option \<times> semantic_db" where
  "update_run db p f =
     (fetch_optional (returning p f (dataset_semantic_link_runs db)),
      db\<lparr>dataset_semantic_link_runs := update_where p f (dataset_semantic_link_runs db)\<rparr>)"

definition defer_run_without_attempt ::
    "semantic_db \<Rightarrow> TenantId \<Rightarrow> uuid \<Rightarrow> datetime \<Rightarrow> datetime \<Rightarrow>
     DatasetSemanticLinkRun option semantic_result \<times> semantic_db" where
  "defer_run_without_attempt db tenant_id i available_at now =
     (case update_run db (running_run tenant_id i) (\<lambda>r. r\<lparr>run_status := ''retry_wait'',
             run_attempt_count := max (run_attempt_count r - 1) 0,
             run_available_at := available_at, run_claimed_at := None, run_finished_at := None,
             run_failure_code := None, run_updated_at := now\<rparr>) of
        (x, db') \<Rightarrow> (Ok x, db'))"

text \<open>\<open>case when attempt_count >= max_attempts then 'dead_letter' else 'retry_wait' end\<close>, with the
  columns the recovery and the retry set alike.\<close>

definition give_back ::
    "string \<Rightarrow> datetime \<Rightarrow> datetime \<Rightarrow> DatasetSemanticLinkRun \<Rightarrow> DatasetSemanticLinkRun" where
  "give_back failure_code available_at now r =
     r\<lparr>run_status := (if run_max_attempts r \<le> run_attempt_count r then ''dead_letter''
         else ''retry_wait''),
       run_available_at := available_at, run_claimed_at := None,
       run_finished_at := (if run_max_attempts r \<le> run_attempt_count r then Some now else None),
       run_failure_code := Some failure_code, run_updated_at := now\<rparr>"

definition stale_run ::
    "TenantId \<Rightarrow> datetime \<Rightarrow> DatasetId list \<Rightarrow> DatasetSemanticLinkRun \<Rightarrow> bool" where
  "stale_run tenant_id claimed_before only r \<longleftrightarrow>
     run_tenant_id r = tenant_id \<and> run_status r = ''running'' \<and>
     (case run_claimed_at r of None \<Rightarrow> False | Some c \<Rightarrow> c \<le> claimed_before) \<and>
     run_left_dataset_id r \<in> set only \<and> run_right_dataset_id r \<in> set only"

definition recover_run_build ::
    "TenantId \<Rightarrow> datetime \<Rightarrow> DatasetSemanticLinkRun \<Rightarrow> semantic_db \<Rightarrow> semantic_db" where
  "recover_run_build tenant_id now run db =
     (case fail_build_for_run db tenant_id run ''worker_lease_expired'' now of
        (failed_build_count, db') \<Rightarrow>
          if 0 < failed_build_count
          then mark_pair_ready_stale db' tenant_id (run_left_dataset_id run)
                 (run_right_dataset_id run) now
          else db')"

definition recover_stale_runs ::
    "semantic_db \<Rightarrow> TenantId \<Rightarrow> datetime \<Rightarrow> datetime \<Rightarrow> DatasetId list \<Rightarrow>
     DatasetSemanticLinkRun list semantic_result \<times> semantic_db" where
  "recover_stale_runs db tenant_id claimed_before now allowed_dataset_ids =
     (if allowed_dataset_ids = [] then (Ok [], db)
      else
        let p = stale_run tenant_id claimed_before allowed_dataset_ids;
            f = give_back ''worker_lease_expired'' now now;
            runs = returning p f (dataset_semantic_link_runs db);
            db' = db\<lparr>dataset_semantic_link_runs :=
              update_where p f (dataset_semantic_link_runs db)\<rparr> in
        (Ok runs, fold (recover_run_build tenant_id now) runs db'))"

definition revive_dead_letter_run ::
    "semantic_db \<Rightarrow> TenantId \<Rightarrow> uuid \<Rightarrow> datetime \<Rightarrow>
     DatasetSemanticLinkRun option semantic_result \<times> semantic_db" where
  "revive_dead_letter_run db tenant_id i now =
     (case update_run db (\<lambda>r. run_tenant_id r = tenant_id \<and> run_id r = i \<and>
             run_status r = ''dead_letter'')
           (\<lambda>r. r\<lparr>run_status := ''pending'', run_attempt_count := 0, run_available_at := now,
             run_claimed_at := None, run_finished_at := None, run_failure_code := None,
             run_updated_at := now\<rparr>) of
        (x, db') \<Rightarrow> (Ok x, db'))"

definition retry_or_dead_letter ::
    "semantic_db \<Rightarrow> TenantId \<Rightarrow> DatasetSemanticLinkRun \<Rightarrow> string \<Rightarrow> datetime \<Rightarrow> datetime \<Rightarrow>
     DatasetSemanticLinkRun option semantic_result \<times> semantic_db" where
  "retry_or_dead_letter db tenant_id run failure_code available_at now =
     (if run_tenant_id run \<noteq> tenant_id
      then (Err (Rejected ''dataset semantic link run tenant mismatch''), db)
      else case update_run db (running_run tenant_id (run_id run))
             (give_back (trim failure_code) available_at now) of
        (transitioned, db') \<Rightarrow>
          (Ok transitioned,
           case transitioned of
             Some r \<Rightarrow>
               if dataset_semantic_link_run_status_requires_failed_build (run_status r)
               then snd (fail_build_for_run db' tenant_id run (trim failure_code) now) else db'
           | None \<Rightarrow> db'))"

definition mark_run_succeeded ::
    "semantic_db \<Rightarrow> TenantId \<Rightarrow> uuid \<Rightarrow> datetime \<Rightarrow>
     DatasetSemanticLinkRun option semantic_result \<times> semantic_db" where
  "mark_run_succeeded db tenant_id i finished_at =
     (case update_run db (running_run tenant_id i) (\<lambda>r. r\<lparr>run_status := ''succeeded'',
             run_finished_at := Some finished_at, run_failure_code := None,
             run_updated_at := finished_at\<rparr>) of
        (x, db') \<Rightarrow> (Ok x, db'))"

definition mark_obsolete_run_succeeded ::
    "semantic_db \<Rightarrow> TenantId \<Rightarrow> DatasetSemanticLinkRun \<Rightarrow> string \<Rightarrow> datetime \<Rightarrow>
     DatasetSemanticLinkRun option semantic_result \<times> semantic_db" where
  "mark_obsolete_run_succeeded db tenant_id run failure_code finished_at =
     (if run_tenant_id run \<noteq> tenant_id
      then (Err (Rejected ''dataset semantic link run tenant mismatch''), db)
      else case update_run db (running_run tenant_id (run_id run)) (\<lambda>r. r\<lparr>run_status := ''succeeded'',
             run_finished_at := Some finished_at, run_failure_code := None,
             run_updated_at := finished_at\<rparr>) of
        (transitioned, db') \<Rightarrow>
          (Ok transitioned,
           case transitioned of
             Some r \<Rightarrow> snd (fail_build_for_run db' tenant_id run (trim failure_code) finished_at)
           | None \<Rightarrow> db'))"

section \<open>The invariant\<close>

definition snapshot_key :: "DatasetSemanticSnapshot \<Rightarrow> uuid \<times> uuid \<times> string \<times> string" where
  "snapshot_key r = (dss_tenant_id r, dss_dataset_id r, dss_generation_version r,
     dss_source_fingerprint r)"

definition snapshot_ref :: "DatasetSemanticSnapshot \<Rightarrow> uuid \<times> uuid \<times> uuid" where
  "snapshot_ref r = (dss_tenant_id r, dss_dataset_id r, dss_id r)"

definition snapshot_refs :: "semantic_db \<Rightarrow> (uuid \<times> uuid \<times> uuid) set" where
  "snapshot_refs db = set (map snapshot_ref (dataset_semantic_snapshots db))"

definition snapshot_ok :: "DatasetSemanticSnapshot \<Rightarrow> bool" where
  "snapshot_ok r \<longleftrightarrow>
     object_manifest (dss_manifest r) \<and> 0 \<le> dss_source_document_count r \<and>
     0 \<le> dss_source_asset_count r \<and> 0 \<le> dss_source_record_count r \<and>
     0 \<le> dss_node_count r \<and> 0 \<le> dss_edge_count r \<and>
     dss_status r \<in> {''building'', ''ready'', ''failed'', ''superseded''} \<and>
     (dss_status r = ''ready'' \<longrightarrow> dss_generated_at r \<noteq> None)"

definition link_ok :: "(uuid \<times> uuid \<times> uuid) set \<Rightarrow> DatasetSemanticLinkSnapshot \<Rightarrow> bool" where
  "link_ok refs x \<longleftrightarrow>
     ls_left_dataset_id x < ls_right_dataset_id x \<and>
     ls_left_snapshot_id x \<noteq> ls_right_snapshot_id x \<and>
     object_manifest (ls_manifest x) \<and> 0 \<le> ls_node_count x \<and> 0 \<le> ls_edge_count x \<and>
     ls_status x \<in> {''building'', ''ready'', ''failed'', ''superseded''} \<and>
     (ls_status x = ''ready'' \<longrightarrow> ls_generated_at x \<noteq> None) \<and>
     (ls_tenant_id x, ls_left_dataset_id x, ls_left_snapshot_id x) \<in> refs \<and>
     (ls_tenant_id x, ls_right_dataset_id x, ls_right_snapshot_id x) \<in> refs"

definition run_ok :: "(uuid \<times> uuid \<times> uuid) set \<Rightarrow> DatasetSemanticLinkRun \<Rightarrow> bool" where
  "run_ok refs r \<longleftrightarrow>
     run_left_dataset_id r < run_right_dataset_id r \<and>
     run_left_snapshot_id r \<noteq> run_right_snapshot_id r \<and>
     run_status r \<in> {''pending'', ''running'', ''succeeded'', ''retry_wait'', ''dead_letter''} \<and>
     0 \<le> run_attempt_count r \<and> run_attempt_count r \<le> run_max_attempts r \<and>
     0 < run_max_attempts r \<and> run_max_attempts r < 2 ^ 31 \<and>
     (waiting_status (run_status r) \<longrightarrow> run_attempt_count r < run_max_attempts r) \<and>
     (run_status r = ''running'' \<longrightarrow> run_claimed_at r \<noteq> None \<and> 1 \<le> run_attempt_count r) \<and>
     (run_tenant_id r, run_left_dataset_id r, run_left_snapshot_id r) \<in> refs \<and>
     (run_tenant_id r, run_right_dataset_id r, run_right_snapshot_id r) \<in> refs"

definition run_key :: "DatasetSemanticLinkRun \<Rightarrow> uuid \<times> uuid \<times> uuid \<times> string" where
  "run_key r = (run_tenant_id r, run_left_snapshot_id r, run_right_snapshot_id r,
     run_generation_version r)"

definition link_key :: "DatasetSemanticLinkSnapshot \<Rightarrow> uuid \<times> uuid \<times> uuid \<times> string" where
  "link_key x = (ls_tenant_id x, ls_left_snapshot_id x, ls_right_snapshot_id x,
     ls_generation_version x)"

definition ready_pair :: "DatasetSemanticLinkSnapshot \<Rightarrow> uuid \<times> uuid \<times> uuid" where
  "ready_pair x = (ls_tenant_id x, ls_left_dataset_id x, ls_right_dataset_id x)"

text \<open>At most one link of a pair of datasets is ready.\<close>

definition one_ready :: "DatasetSemanticLinkSnapshot list \<Rightarrow> bool" where
  "one_ready rows \<longleftrightarrow> (\<forall>x \<in> set rows. \<forall>y \<in> set rows.
     ls_status x = ''ready'' \<longrightarrow> ls_status y = ''ready'' \<longrightarrow> ready_pair x = ready_pair y \<longrightarrow> ls_id x = ls_id y)"

text \<open>A table with two unique keys, all of whose rows are fine.\<close>

definition keyed_table :: "('r \<Rightarrow> 'a) \<Rightarrow> ('r \<Rightarrow> 'b) \<Rightarrow> ('r \<Rightarrow> bool) \<Rightarrow> 'r list \<Rightarrow> bool" where
  "keyed_table k k' ok rows \<longleftrightarrow>
     distinct (map k rows) \<and> distinct (map k' rows) \<and> (\<forall>r \<in> set rows. ok r)"

definition semantic_wf :: "semantic_db \<Rightarrow> bool" where
  "semantic_wf db \<longleftrightarrow>
     keyed_table dss_id snapshot_key snapshot_ok (dataset_semantic_snapshots db) \<and>
     keyed_table ls_id link_key (link_ok (snapshot_refs db)) (dataset_semantic_link_snapshots db) \<and>
     one_ready (dataset_semantic_link_snapshots db) \<and>
     keyed_table run_id run_key (run_ok (snapshot_refs db)) (dataset_semantic_link_runs db)"

subsection \<open>Tables\<close>

lemma keyed_table_update:
  assumes "keyed_table k k' ok rows" and "\<And>r. k (f r) = k r" and "\<And>r. k' (f r) = k' r"
    and "\<And>r. r \<in> set rows \<Longrightarrow> p r \<Longrightarrow> ok r \<Longrightarrow> ok (f r)"
  shows "keyed_table k k' ok (update_where p f rows)"
  using assms by (auto simp: keyed_table_def map_update_where elim!: in_update_whereE)

lemma keyed_table_insert:
  assumes "keyed_table k k' ok rows" and "ok r" and "k r \<notin> set (map k rows)"
    and "k' r \<notin> set (map k' rows)"
  shows "keyed_table k k' ok (rows @ [r])"
  using assms by (auto simp: keyed_table_def)

lemma keyed_table_mono:
  assumes "keyed_table k k' ok rows" and "\<And>r. ok r \<Longrightarrow> ok' r"
  shows "keyed_table k k' ok' rows"
  using assms by (auto simp: keyed_table_def)

lemma link_ok_mono: "link_ok refs x \<Longrightarrow> refs \<subseteq> refs' \<Longrightarrow> link_ok refs' x"
  by (auto simp: link_ok_def)

lemma run_ok_mono: "run_ok refs r \<Longrightarrow> refs \<subseteq> refs' \<Longrightarrow> run_ok refs' r"
  by (auto simp: run_ok_def)

lemma snapshot_refs_simps [simp]:
  "snapshot_refs (db\<lparr>sd_draws := n\<rparr>) = snapshot_refs db"
  "snapshot_refs (db\<lparr>dataset_semantic_link_snapshots := ls\<rparr>) = snapshot_refs db"
  "snapshot_refs (db\<lparr>dataset_semantic_link_runs := rs\<rparr>) = snapshot_refs db"
  by (simp_all add: snapshot_refs_def)

text \<open>Drawing an id changes no row.\<close>

lemma semantic_wf_draw [simp]: "semantic_wf (db\<lparr>sd_draws := n\<rparr>) = semantic_wf db"
  by (simp add: semantic_wf_def)

lemma semantic_wfD:
  assumes "semantic_wf db"
  shows "keyed_table dss_id snapshot_key snapshot_ok (dataset_semantic_snapshots db)"
    and "keyed_table ls_id link_key (link_ok (snapshot_refs db)) (dataset_semantic_link_snapshots db)"
    and "one_ready (dataset_semantic_link_snapshots db)"
    and "keyed_table run_id run_key (run_ok (snapshot_refs db)) (dataset_semantic_link_runs db)"
  using assms by (simp_all add: semantic_wf_def)

lemma snapshots_wf:
  assumes "semantic_wf db" and "keyed_table dss_id snapshot_key snapshot_ok rows"
    and "snapshot_refs db \<subseteq> set (map snapshot_ref rows)"
  shows "semantic_wf (db\<lparr>dataset_semantic_snapshots := rows\<rparr>)"
proof -
  let ?db = "db\<lparr>dataset_semantic_snapshots := rows\<rparr>"
  have sub: "snapshot_refs db \<subseteq> snapshot_refs ?db"
    using assms(3) by (simp add: snapshot_refs_def)
  have "keyed_table ls_id link_key (link_ok (snapshot_refs ?db)) (dataset_semantic_link_snapshots db)"
    by (rule keyed_table_mono [OF semantic_wfD(2) [OF assms(1)] link_ok_mono [OF _ sub]])
  moreover have "keyed_table run_id run_key (run_ok (snapshot_refs ?db)) (dataset_semantic_link_runs db)"
    by (rule keyed_table_mono [OF semantic_wfD(4) [OF assms(1)] run_ok_mono [OF _ sub]])
  ultimately show ?thesis
    using assms(1,2) by (simp add: semantic_wf_def)
qed

lemma snapshots_update_wf:
  assumes "semantic_wf db" and "\<And>r. dss_id (f r) = dss_id r"
    and "\<And>r. snapshot_key (f r) = snapshot_key r"
    and "\<And>r. r \<in> set (dataset_semantic_snapshots db) \<Longrightarrow> p r \<Longrightarrow> snapshot_ok r \<Longrightarrow> snapshot_ok (f r)"
  shows "semantic_wf (db\<lparr>dataset_semantic_snapshots :=
    update_where p f (dataset_semantic_snapshots db)\<rparr>)"
proof (rule snapshots_wf [OF assms(1)])
  show "keyed_table dss_id snapshot_key snapshot_ok (update_where p f (dataset_semantic_snapshots db))"
    by (rule keyed_table_update [OF semantic_wfD(1) [OF assms(1)]]) (rule assms(2-4); assumption)+
  have "snapshot_ref (f r) = snapshot_ref r" for r
    using assms(2,3) [of r] by (simp add: snapshot_ref_def snapshot_key_def)
  then show "snapshot_refs db \<subseteq> set (map snapshot_ref (update_where p f (dataset_semantic_snapshots db)))"
    by (simp only: map_update_where snapshot_refs_def)
qed

text \<open>Updates of runs that keep the keys and the invariant of the row.\<close>

lemma runs_update_wf:
  assumes "semantic_wf db" and "\<And>r. run_id (f r) = run_id r" and "\<And>r. run_key (f r) = run_key r"
    and "\<And>r. r \<in> set (dataset_semantic_link_runs db) \<Longrightarrow> p r \<Longrightarrow> run_ok (snapshot_refs db) r \<Longrightarrow>
      run_ok (snapshot_refs db) (f r)"
  shows "semantic_wf (db\<lparr>dataset_semantic_link_runs :=
    update_where p f (dataset_semantic_link_runs db)\<rparr>)"
proof -
  have "keyed_table run_id run_key (run_ok (snapshot_refs db))
      (update_where p f (dataset_semantic_link_runs db))"
    by (rule keyed_table_update [OF semantic_wfD(4) [OF assms(1)]]) (rule assms(2-4); assumption)+
  then show ?thesis
    using assms(1) by (simp add: semantic_wf_def)
qed

lemma one_readyD:
  "one_ready rows \<Longrightarrow> x \<in> set rows \<Longrightarrow> y \<in> set rows \<Longrightarrow> ls_status x = ''ready'' \<Longrightarrow>
    ls_status y = ''ready'' \<Longrightarrow> ready_pair x = ready_pair y \<Longrightarrow> ls_id x = ls_id y"
  unfolding one_ready_def by blast

lemma one_readyI:
  "(\<And>x y. x \<in> set rows \<Longrightarrow> y \<in> set rows \<Longrightarrow> ls_status x = ''ready'' \<Longrightarrow> ls_status y = ''ready'' \<Longrightarrow>
    ready_pair x = ready_pair y \<Longrightarrow> ls_id x = ls_id y) \<Longrightarrow> one_ready rows"
  unfolding one_ready_def by blast

lemma one_ready_insert:
  assumes "one_ready rows" and "ls_status row \<noteq> ''ready''"
  shows "one_ready (rows @ [row])"
proof (rule one_readyI)
  fix x y
  assume "x \<in> set (rows @ [row])" "y \<in> set (rows @ [row])"
    and r: "ls_status x = ''ready''" "ls_status y = ''ready''" and p: "ready_pair x = ready_pair y"
  then have "x \<in> set rows" "y \<in> set rows" using assms(2) by auto
  then show "ls_id x = ls_id y" by (rule one_readyD [OF assms(1) _ _ r p])
qed

lemma one_ready_update:
  assumes "one_ready rows" and "\<And>x. ls_id (f x) = ls_id x \<and> ready_pair (f x) = ready_pair x"
    and "\<And>x. p x \<Longrightarrow> ls_status (f x) = ''ready'' \<Longrightarrow> ls_status x = ''ready''"
  shows "one_ready (update_where p f rows)"
  unfolding one_ready_def
proof (intro ballI impI)
  fix x y
  assume "x \<in> set (update_where p f rows)" and "y \<in> set (update_where p f rows)"
    and r: "ls_status x = ''ready''" "ls_status y = ''ready''" "ready_pair x = ready_pair y"
  then obtain x0 y0 where x0: "x0 \<in> set rows" "x = (if p x0 then f x0 else x0)"
    and y0: "y0 \<in> set rows" "y = (if p y0 then f y0 else y0)"
    by (auto elim!: in_update_whereE)
  have "ls_status x0 = ''ready''" "ls_status y0 = ''ready''"
    using x0 y0 r assms(3) by (auto split: if_splits)
  moreover have "ready_pair x0 = ready_pair y0"
    using x0 y0 r(3) assms(2) by (auto split: if_splits)
  ultimately have "ls_id x0 = ls_id y0"
    using assms(1) [unfolded one_ready_def, rule_format, OF x0(1) y0(1)] by simp
  then show "ls_id x = ls_id y"
    using x0 y0 assms(2) by auto
qed

lemma links_update_wf:
  assumes "semantic_wf db"
    and "\<And>x. ls_id (f x) = ls_id x" and "\<And>x. link_key (f x) = link_key x"
    and "\<And>x. x \<in> set (dataset_semantic_link_snapshots db) \<Longrightarrow> p x \<Longrightarrow>
      link_ok (snapshot_refs db) x \<Longrightarrow> link_ok (snapshot_refs db) (f x)"
    and "\<And>x. ready_pair (f x) = ready_pair x"
    and "\<And>x. p x \<Longrightarrow> ls_status (f x) = ''ready'' \<Longrightarrow> ls_status x = ''ready''"
  shows "semantic_wf (db\<lparr>dataset_semantic_link_snapshots :=
    update_where p f (dataset_semantic_link_snapshots db)\<rparr>)"
proof -
  have "one_ready (update_where p f (dataset_semantic_link_snapshots db))"
    by (rule one_ready_update [OF semantic_wfD(3) [OF assms(1)] conjI [OF assms(2,5)] assms(6)])
  moreover have "keyed_table ls_id link_key (link_ok (snapshot_refs db))
      (update_where p f (dataset_semantic_link_snapshots db))"
    by (rule keyed_table_update [OF semantic_wfD(2) [OF assms(1)]]) (rule assms(2-4); assumption)+
  ultimately show ?thesis
    using assms(1) by (simp add: semantic_wf_def)
qed

subsection \<open>Shared steps\<close>

lemma set_stale_object [simp]: "object_manifest (set_stale m) = object_manifest m"
  by (auto simp: set_stale_def object_manifest_def split: json.splits)

lemma fail_build_wf: "semantic_wf db \<Longrightarrow> semantic_wf (snd (fail_build_for_run db t run c now))"
  unfolding fail_build_for_run_def Let_def snd_conv
  by (rule links_update_wf) (simp_all add: ready_pair_def link_key_def link_ok_def)

lemma mark_pair_stale_wf: "semantic_wf db \<Longrightarrow> semantic_wf (mark_pair_ready_stale db t l r now)"
  unfolding mark_pair_ready_stale_def
  by (rule links_update_wf) (simp_all add: ready_pair_def link_key_def link_ok_def)

lemma recover_build_wf: "semantic_wf db \<Longrightarrow> semantic_wf (recover_run_build t now run db)"
  using fail_build_wf [of db t run "''worker_lease_expired''" now]
  by (auto simp: recover_run_build_def mark_pair_stale_wf split: prod.splits)

lemma fold_recover_wf: "semantic_wf db \<Longrightarrow> semantic_wf (fold (recover_run_build t now) runs db)"
  by (induction runs arbitrary: db) (simp_all add: recover_build_wf)

lemma give_back_ok:
  "run_ok refs r \<Longrightarrow> run_ok refs (give_back c at now r)"
  by (auto simp: run_ok_def give_back_def waiting_status_def)

lemma give_back_keys [simp]:
  "run_id (give_back c at now r) = run_id r" "run_key (give_back c at now r) = run_key r"
  "run_tenant_id (give_back c at now r) = run_tenant_id r"
  by (simp_all add: give_back_def run_key_def)

lemma update_run_wf:
  assumes "update_run db p f = (x, db')" and "semantic_wf db"
    and "\<And>r. run_id (f r) = run_id r" and "\<And>r. run_key (f r) = run_key r"
    and "\<And>r. p r \<Longrightarrow> run_ok (snapshot_refs db) r \<Longrightarrow> run_ok (snapshot_refs db) (f r)"
  shows "semantic_wf db'"
proof -
  have "db' = db\<lparr>dataset_semantic_link_runs := update_where p f (dataset_semantic_link_runs db)\<rparr>"
    using assms(1) by (simp add: update_run_def)
  then show ?thesis
    by (simp add: runs_update_wf [OF assms(2-5)])
qed

lemma canonical_pair_eq_Ok:
  assumes "canonical_dataset_semantic_link_pair l r ls rs = Ok (l', r', ls', rs')"
  shows "l' < r' \<and> ls' \<noteq> rs' \<and> ((l', r', ls', rs') = (l, r, ls, rs) \<or> (l', r', ls', rs') = (r, l, rs, ls))"
  using assms by (auto simp: canonical_dataset_semantic_link_pair_def split: if_splits)

lemma snapshot_exists_ref: "snapshot_exists db t d i \<longleftrightarrow> (t, d, i) \<in> snapshot_refs db"
  unfolding snapshot_exists_def snapshot_refs_def snapshot_ref_def list_ex_iff
  by (simp add: image_iff) metis

lemma pair_references_refs:
  assumes "pair_references db t (l, r, ls, rs)"
  shows "(t, l, ls) \<in> snapshot_refs db \<and> (t, r, rs) \<in> snapshot_refs db"
  using assms by (simp add: pair_references_def snapshot_exists_ref)

lemma run_insert_wf:
  assumes "semantic_wf db" and "run_ok (snapshot_refs db) row"
    and "run_id row \<notin> set (map run_id (dataset_semantic_link_runs db))"
    and "run_key row \<notin> set (map run_key (dataset_semantic_link_runs db))"
  shows "semantic_wf (db\<lparr>dataset_semantic_link_runs := dataset_semantic_link_runs db @ [row]\<rparr>)"
  using assms(1) keyed_table_insert [OF semantic_wfD(4) [OF assms(1)] assms(2-4)]
  by (simp add: semantic_wf_def)

lemma run_key_same:
  "same_run_key t ls rs version r \<longleftrightarrow> run_key r = (t, ls, rs, version)"
  by (auto simp: same_run_key_def run_key_def)

lemma create_or_get_run_wf:
  assumes "create_or_get_run gen db t run now = (x, db')" and "semantic_wf db"
    and "nr_max_attempts run < 2 ^ 31"
  shows "semantic_wf db'"
proof (cases "nr_max_attempts run \<le> 0")
  case True
  with assms show ?thesis by (simp add: create_or_get_run_def)
next
  case pos: False
  show ?thesis
  proof (cases "canonical_dataset_semantic_link_pair (nr_left_dataset_id run)
      (nr_right_dataset_id run) (nr_left_snapshot_id run) (nr_right_snapshot_id run)")
    case (Inl e)
    with assms pos show ?thesis by (simp add: create_or_get_run_def)
  next
    case (Inr v)
    obtain l r ls rs where v: "v = (l, r, ls, rs)" by (cases v)
    have lr: "l < r \<and> ls \<noteq> rs" using canonical_pair_eq_Ok Inr v by blast
    define p where "p = same_run_key t ls rs (trim (nr_generation_version run))"
    have wf': "semantic_wf (db\<lparr>sd_draws := Suc (sd_draws db)\<rparr>)"
      using assms(2) by simp
    show ?thesis
    proof (cases "list_ex p (dataset_semantic_link_runs db)")
      case True
      define f where "f = (\<lambda>x :: DatasetSemanticLinkRun. x\<lparr>
        run_priority := min (run_priority x) (nr_priority run),
        run_max_attempts := max (run_max_attempts x) (nr_max_attempts run),
        run_available_at := (if waiting_status (run_status x)
          then min (run_available_at x) (nr_available_at run) else run_available_at x),
        run_updated_at := now\<rparr>)"
      have db': "db' = db\<lparr>sd_draws := Suc (sd_draws db), dataset_semantic_link_runs :=
          update_where p f (dataset_semantic_link_runs (db\<lparr>sd_draws := Suc (sd_draws db)\<rparr>))\<rparr>"
        using assms(1) pos Inr v True
        by (simp add: create_or_get_run_def Let_def p_def f_def)
      have ok: "run_ok refs (f x)" if "run_ok refs x" for x refs
        using that assms(3) by (auto simp: f_def run_ok_def)
      show ?thesis
        unfolding db' by (rule runs_update_wf [OF wf']) (simp_all add: f_def run_key_def ok [unfolded f_def])
    next
      case False
      then have key: "(t, ls, rs, trim (nr_generation_version run)) \<notin>
          set (map run_key (dataset_semantic_link_runs db))"
        by (auto simp: p_def list_ex_iff run_key_same)
      show ?thesis
      proof (cases "gen (sd_draws db) \<notin> set (map run_id (dataset_semantic_link_runs db)) \<and>
          pair_references db t (l, r, ls, rs)")
        case True
        define row where "row = \<lparr>run_id = gen (sd_draws db), run_tenant_id = t,
          run_left_dataset_id = l, run_right_dataset_id = r, run_left_snapshot_id = ls,
          run_right_snapshot_id = rs, run_generation_version = trim (nr_generation_version run),
          run_source_fingerprint = trim (nr_source_fingerprint run),
          run_status = ''pending'', run_priority = nr_priority run,
          run_attempt_count = 0, run_max_attempts = nr_max_attempts run,
          run_available_at = nr_available_at run, run_claimed_at = None,
          run_finished_at = None, run_failure_code = None, run_created_at = now,
          run_updated_at = now\<rparr>"
        have db': "db' = db\<lparr>sd_draws := Suc (sd_draws db), dataset_semantic_link_runs :=
            dataset_semantic_link_runs (db\<lparr>sd_draws := Suc (sd_draws db)\<rparr>) @ [row]\<rparr>"
          using assms(1) pos Inr v \<open>\<not> list_ex p _\<close> True
          by (simp add: create_or_get_run_def Let_def p_def row_def)
        have "run_ok (snapshot_refs db) row"
          using lr pos assms(3) pair_references_refs [of db t l r ls rs] True by (simp add: row_def run_ok_def waiting_status_def)
        then show ?thesis
          unfolding db' using True key
          by (intro run_insert_wf [OF wf']) (simp_all add: row_def run_key_def)
      next
        case no: False
        have "db' = db\<lparr>sd_draws := Suc (sd_draws db)\<rparr>"
          using assms(1) pos Inr v \<open>\<not> list_ex p _\<close> no
          by (auto simp add: create_or_get_run_def Let_def p_def split: if_splits)
        with wf' show ?thesis by simp
      qed
    qed
  qed
qed

subsection \<open>Every operation keeps the invariant\<close>

lemma snapshot_key_same:
  "same_snapshot_key t n r \<longleftrightarrow>
     snapshot_key r = (t, nds_dataset_id n, nds_generation_version n, nds_source_fingerprint n)"
  by (auto simp: same_snapshot_key_def snapshot_key_def)

lemma upsert_building_wf:
  assumes "upsert_building b gen db t n now = (x, db')" and wf: "semantic_wf db"
  shows "semantic_wf db'"
proof -
  let ?rows = "dataset_semantic_snapshots db"
  let ?db = "db\<lparr>sd_draws := Suc (sd_draws db)\<rparr>"
  have wf': "semantic_wf ?db" using wf by simp
  consider (same) "db' = ?db"
    | (restart) p f where "db' = ?db\<lparr>dataset_semantic_snapshots :=
          update_where p f (dataset_semantic_snapshots ?db)\<rparr>"
        "\<And>r. dss_id (f r) = dss_id r" "\<And>r. snapshot_key (f r) = snapshot_key r"
        "\<And>r. snapshot_ok r \<Longrightarrow> snapshot_ok (f r)"
    | (insert) "db' = ?db\<lparr>dataset_semantic_snapshots := ?rows @ [new_snapshot_row (gen (sd_draws db)) t n now]\<rparr>"
        "snapshot_ok (new_snapshot_row (gen (sd_draws db)) t n now)"
        "gen (sd_draws db) \<notin> set (map dss_id ?rows)"
        "\<not> list_ex (same_snapshot_key t n) ?rows"
    using assms(1)
    by (auto simp: upsert_building_def Let_def snapshot_key_def snapshot_ok_def new_snapshot_row_def
      split: if_splits)
  then show ?thesis
  proof cases
    case same
    with wf show ?thesis by simp
  next
    case restart
    show ?thesis
      unfolding restart(1) by (rule snapshots_update_wf [OF wf' restart(2,3)]) (rule restart(4))
  next
    case insert
    have "keyed_table dss_id snapshot_key snapshot_ok
        (?rows @ [new_snapshot_row (gen (sd_draws db)) t n now])"
      using insert(2-4) by (intro keyed_table_insert [OF semantic_wfD(1) [OF wf]])
        (auto simp: new_snapshot_row_def list_ex_iff snapshot_key_same snapshot_key_def)
    then show ?thesis
      unfolding insert(1) by (intro snapshots_wf [OF wf']) (auto simp: snapshot_refs_def)
  qed
qed

lemma snapshot_try_begin_build_wf:
  "snapshot_try_begin_build gen db t n now = (x, db') \<Longrightarrow> semantic_wf db \<Longrightarrow> semantic_wf db'"
  unfolding snapshot_try_begin_build_def by (rule upsert_building_wf)

lemma snapshot_begin_build_wf:
  "snapshot_begin_build gen db t n now = (x, db') \<Longrightarrow> semantic_wf db \<Longrightarrow> semantic_wf db'"
  by (auto simp: snapshot_begin_build_def split: prod.splits sum.splits dest: upsert_building_wf)

lemma snapshot_mark_ready_wf:
  assumes "snapshot_mark_ready db t d i m nc ec g = (x, db')" and "semantic_wf db"
  shows "semantic_wf db'"
proof (cases "list_ex (building_snapshot t d i) (dataset_semantic_snapshots db) \<and>
    \<not> (object_manifest m \<and> 0 \<le> nc \<and> 0 \<le> ec)")
  case True
  with assms show ?thesis by (auto simp: snapshot_mark_ready_def)
next
  case False
  let ?f = "\<lambda>r. r\<lparr>dss_status := ''ready'', dss_manifest := m, dss_node_count := nc,
    dss_edge_count := ec, dss_failure_code := None, dss_generated_at := Some g, dss_updated_at := g\<rparr>"
  have db': "db' = db\<lparr>dataset_semantic_snapshots :=
      update_where (building_snapshot t d i) ?f (dataset_semantic_snapshots db)\<rparr>"
    using assms(1) False by (auto simp: snapshot_mark_ready_def Let_def split: if_splits)
  have "snapshot_ok (?f r)"
    if "r \<in> set (dataset_semantic_snapshots db)" "building_snapshot t d i r" "snapshot_ok r" for r
    using that False by (auto simp: snapshot_ok_def list_ex_iff)
  then show ?thesis
    unfolding db' by (intro snapshots_update_wf [OF assms(2)]) (simp_all add: snapshot_key_def)
qed

lemma snapshot_mark_failed_wf:
  "semantic_wf db \<Longrightarrow> semantic_wf (snd (snapshot_mark_failed db t d i c now))"
  unfolding snapshot_mark_failed_def Let_def snd_conv
  by (rule snapshots_update_wf) (simp_all add: snapshot_key_def snapshot_ok_def)

lemma canonical_dataset_pair_Ok:
  assumes "canonical_dataset_semantic_link_dataset_pair l r = Ok (l', r')"
  shows "l' < r' \<and> ((l', r') = (l, r) \<or> (l', r') = (r, l))"
  using assms by (auto simp: canonical_dataset_semantic_link_dataset_pair_def split: if_splits)

lemma link_key_same:
  "same_link_key t ls rs version x \<longleftrightarrow> link_key x = (t, ls, rs, version)"
  by (auto simp: same_link_key_def link_key_def)

lemma link_insert_wf:
  assumes "semantic_wf db" and "link_ok (snapshot_refs db) row" and "ls_status row = ''building''"
    and "ls_id row \<notin> set (map ls_id (dataset_semantic_link_snapshots db))"
    and "link_key row \<notin> set (map link_key (dataset_semantic_link_snapshots db))"
  shows "semantic_wf (db\<lparr>dataset_semantic_link_snapshots := dataset_semantic_link_snapshots db @ [row]\<rparr>)"
proof -
  have "one_ready (dataset_semantic_link_snapshots db @ [row])"
    using assms(3) by (simp add: one_ready_insert [OF semantic_wfD(3) [OF assms(1)]])
  then show ?thesis
    using assms(1) keyed_table_insert [OF semantic_wfD(2) [OF assms(1)] assms(2,4,5)]
    by (simp add: semantic_wf_def)
qed

lemma link_try_begin_build_wf:
  assumes op: "link_try_begin_build gen db t n now = (x, db')" and wf: "semantic_wf db"
  shows "semantic_wf db'"
proof (cases "and_then (validate_dataset_semantic_link_manifest (nls_manifest n)) (\<lambda>_.
    canonical_dataset_semantic_link_pair (nls_left_dataset_id n) (nls_right_dataset_id n)
      (nls_left_snapshot_id n) (nls_right_snapshot_id n))")
  case (Inl e)
  with op wf show ?thesis by (simp add: link_try_begin_build_def)
next
  case (Inr v)
  obtain l r ls rs where v: "v = (l, r, ls, rs)" by (cases v)
  have obj: "object_manifest (nls_manifest n)"
    and pair: "canonical_dataset_semantic_link_pair (nls_left_dataset_id n) (nls_right_dataset_id n)
      (nls_left_snapshot_id n) (nls_right_snapshot_id n) = Ok (l, r, ls, rs)"
    using Inr v by (auto simp: validate_dataset_semantic_link_manifest_def elim!: and_then_OkE
      split: if_splits)
  have lr: "l < r" "ls \<noteq> rs" using canonical_pair_eq_Ok [OF pair] by auto
  let ?rows = "dataset_semantic_link_snapshots db"
  let ?version = "trim (nls_generation_version n)"
  let ?db = "db\<lparr>sd_draws := Suc (sd_draws db)\<rparr>"
  have wf': "semantic_wf ?db" using wf by simp
  consider (same) "db' = ?db"
    | (restart) p f where "db' = ?db\<lparr>dataset_semantic_link_snapshots :=
          update_where p f (dataset_semantic_link_snapshots ?db)\<rparr>"
        "\<And>x. ls_id (f x) = ls_id x" "\<And>x. link_key (f x) = link_key x"
        "\<And>refs x. link_ok refs x \<Longrightarrow> link_ok refs (f x)" "\<And>x. ready_pair (f x) = ready_pair x"
        "\<And>x. ls_status (f x) = ''building''"
    | (insert) row where "db' = ?db\<lparr>dataset_semantic_link_snapshots :=
          dataset_semantic_link_snapshots ?db @ [row]\<rparr>"
        "link_ok (snapshot_refs db) row" "ls_status row = ''building''"
        "ls_id row \<notin> set (map ls_id ?rows)" "link_key row = (t, ls, rs, ?version)"
        "\<not> list_ex (same_link_key t ls rs ?version) ?rows"
    using op Inr v obj lr pair_references_refs [of db t l r ls rs]
    by (auto simp: link_try_begin_build_def Let_def link_key_def link_ok_def ready_pair_def
      split: if_splits)
  then show ?thesis
  proof cases
    case same
    with wf show ?thesis by simp
  next
    case restart
    show ?thesis
      unfolding restart(1)
      by (rule links_update_wf [OF wf' restart(2,3) restart(4) restart(5)])
        (simp_all add: restart(6))
  next
    case insert
    show ?thesis
      unfolding insert(1) using insert(2-6)
      by (intro link_insert_wf [OF wf']) (auto simp: list_ex_iff link_key_same)
  qed
qed

lemma link_mark_failed_wf:
  "semantic_wf db \<Longrightarrow> semantic_wf (snd (link_mark_failed db t l r i c now))"
  by (cases "canonical_dataset_semantic_link_dataset_pair l r")
    (auto simp: link_mark_failed_def Let_def ready_pair_def link_key_def link_ok_def
      intro!: links_update_wf)

lemma mark_ready_links_stale_wf:
  "semantic_wf db \<Longrightarrow> semantic_wf (snd (mark_ready_links_stale_for_dataset db t d now))"
  unfolding mark_ready_links_stale_for_dataset_def Let_def snd_conv
  by (rule links_update_wf) (simp_all add: ready_pair_def link_key_def link_ok_def)

text \<open>A link that becomes ready replaces the ready link of its pair.\<close>

lemma one_ready_replace:
  assumes "one_ready rows"
    and "\<And>x. ls_id (f x) = ls_id x \<and> ready_pair (f x) = ready_pair x"
    and "\<And>x. ls_id (g x) = ls_id x \<and> ready_pair (g x) = ready_pair x \<and> ls_status (g x) \<noteq> ''ready''"
    and "\<And>x. p x \<Longrightarrow> ready_pair x = k \<and> ls_id x = i"
    and "\<And>x. q x \<longleftrightarrow> ready_pair x = k \<and> ls_id x \<noteq> i \<and> ls_status x = ''ready''"
  shows "one_ready (update_where q g (update_where p f rows))"
proof (rule one_readyI)
  fix x y
  let ?rows = "update_where q g (update_where p f rows)"
  assume x: "x \<in> set ?rows" and y: "y \<in> set ?rows"
    and r: "ls_status x = ''ready''" "ls_status y = ''ready''" and xy: "ready_pair x = ready_pair y"
  have *: "ready_pair z = k \<and> ls_id z = i \<or> ready_pair z \<noteq> k \<and> z \<in> set rows"
    if z: "z \<in> set ?rows" and "ls_status z = ''ready''" for z
  proof -
    obtain z1 where z1: "z1 \<in> set (update_where p f rows)" "z = (if q z1 then g z1 else z1)"
      by (rule in_update_whereE [OF z]) blast
    have "\<not> q z1" using z1(2) that(2) assms(3) [of z1] by auto
    then have eq: "z = z1" using z1(2) by simp
    obtain z0 where z0: "z0 \<in> set rows" "z1 = (if p z0 then f z0 else z0)"
      using z1(1) by (auto elim!: in_update_whereE)
    show ?thesis
    proof (cases "p z0")
      case True
      then show ?thesis using z0(2) eq assms(2) [of z0] assms(4) [of z0] by simp
    next
      case False
      then show ?thesis using z0 eq assms(5) [of z1] \<open>\<not> q z1\<close> that(2) by auto
    qed
  qed
  show "ls_id x = ls_id y"
    using * [OF x r(1)] * [OF y r(2)] one_readyD [OF assms(1) _ _ r xy] xy by auto
qed

lemma link_mark_ready_wf:
  assumes op: "link_mark_ready db t l r i m nc ec g = (x, db')" and wf: "semantic_wf db"
  shows "semantic_wf db'"
proof (cases "and_then (validate_dataset_semantic_link_ready_payload m nc ec)
    (\<lambda>_. canonical_dataset_semantic_link_dataset_pair l r)")
  case (Inl e)
  with op wf show ?thesis by (simp add: link_mark_ready_def)
next
  case (Inr v)
  obtain l' r' where v: "v = (l', r')" by (cases v)
  have valid: "object_manifest m" "0 \<le> nc" "0 \<le> ec"
    using Inr by (auto simp: validate_dataset_semantic_link_ready_payload_def
      validate_dataset_semantic_link_manifest_def elim!: and_then_OkE split: if_splits)
  let ?rows = "dataset_semantic_link_snapshots db"
  define p where "p = (\<lambda>x. link_of_pair t l' r' x \<and> ls_id x = i \<and> ls_status x = ''building'')"
  define f where "f = (\<lambda>x :: DatasetSemanticLinkSnapshot. x\<lparr>ls_status := ''ready'', ls_manifest := m,
    ls_node_count := nc, ls_edge_count := ec, ls_failure_code := None,
    ls_generated_at := Some g, ls_updated_at := g\<rparr>)"
  define q where "q = (\<lambda>x. link_of_pair t l' r' x \<and> ls_id x \<noteq> i \<and> ls_status x = ''ready'')"
  define h where "h = (\<lambda>x :: DatasetSemanticLinkSnapshot. x\<lparr>ls_status := ''superseded'', ls_updated_at := g\<rparr>)"
  have op': "(x, db') = (case fetch_optional (returning p f ?rows) of
      None \<Rightarrow> (Ok None, db\<lparr>dataset_semantic_link_snapshots := update_where p f ?rows\<rparr>)
    | Some row \<Rightarrow> (Ok (Some row), db\<lparr>dataset_semantic_link_snapshots :=
        update_where q h (update_where p f ?rows)\<rparr>))"
    unfolding op [symmetric] p_def f_def q_def h_def link_mark_ready_def using Inr v
    by (simp add: Let_def)
  have keyed: "keyed_table ls_id link_key (link_ok (snapshot_refs db)) (update_where p f ?rows)"
    by (rule keyed_table_update [OF semantic_wfD(2) [OF wf]])
      (use valid in \<open>simp_all add: f_def link_key_def link_ok_def\<close>)
  show ?thesis
  proof (cases "fetch_optional (returning p f ?rows)")
    case None
    then have "\<forall>x \<in> set ?rows. \<not> p x"
      by (auto simp: fetch_optional_def returning_def filter_empty_conv split: list.splits)
    then have "update_where p f ?rows = ?rows"
      by (intro update_where_none) simp
    then show ?thesis
      using wf op' [unfolded None] by simp
  next
    case (Some row)
    have "keyed_table ls_id link_key (link_ok (snapshot_refs db)) (update_where q h (update_where p f ?rows))"
      by (rule keyed_table_update [OF keyed]) (simp_all add: h_def link_key_def link_ok_def)
    moreover have "one_ready (update_where q h (update_where p f ?rows))"
      by (rule one_ready_replace [OF semantic_wfD(3) [OF wf], where i = i and k = "(t, l', r')"])
        (auto simp: f_def h_def p_def q_def ready_pair_def link_of_pair_def)
    ultimately show ?thesis
      using wf op' [unfolded Some] by (simp add: semantic_wf_def)
  qed
qed

lemma defer_run_wf:
  "semantic_wf db \<Longrightarrow> semantic_wf (snd (defer_run_without_attempt db t i at now))"
  unfolding defer_run_without_attempt_def update_run_def prod.case snd_conv
  by (rule runs_update_wf) (auto simp: run_key_def run_ok_def waiting_status_def)

lemma revive_run_wf:
  "semantic_wf db \<Longrightarrow> semantic_wf (snd (revive_dead_letter_run db t i now))"
  unfolding revive_dead_letter_run_def update_run_def prod.case snd_conv
  by (rule runs_update_wf) (auto simp: run_key_def run_ok_def waiting_status_def)

lemma mark_run_succeeded_wf:
  "semantic_wf db \<Longrightarrow> semantic_wf (snd (mark_run_succeeded db t i now))"
  unfolding mark_run_succeeded_def update_run_def prod.case snd_conv
  by (rule runs_update_wf) (auto simp: run_key_def run_ok_def waiting_status_def)

lemma retry_or_dead_letter_wf:
  assumes "semantic_wf db"
  shows "semantic_wf (snd (retry_or_dead_letter db t run c at now))"
proof -
  have "semantic_wf (snd (update_run db (running_run t (run_id run)) (give_back (trim c) at now)))"
    unfolding update_run_def snd_conv
    by (rule runs_update_wf [OF assms]) (simp_all add: give_back_ok)
  then show ?thesis
    using assms by (auto simp: retry_or_dead_letter_def fail_build_wf split: prod.splits option.splits)
qed

lemma mark_obsolete_run_wf:
  assumes "semantic_wf db"
  shows "semantic_wf (snd (mark_obsolete_run_succeeded db t run c now))"
proof -
  have "semantic_wf (snd (update_run db (running_run t (run_id run)) (\<lambda>r. r\<lparr>run_status := ''succeeded'',
      run_finished_at := Some now, run_failure_code := None, run_updated_at := now\<rparr>)))"
    unfolding update_run_def snd_conv
    by (rule runs_update_wf [OF assms]) (auto simp: run_key_def run_ok_def waiting_status_def)
  then show ?thesis
    using assms by (auto simp: mark_obsolete_run_succeeded_def fail_build_wf split: prod.splits option.splits)
qed

lemma recover_stale_runs_wf:
  assumes "semantic_wf db"
  shows "semantic_wf (snd (recover_stale_runs db t before now only))"
proof -
  have "semantic_wf (db\<lparr>dataset_semantic_link_runs := update_where (stale_run t before only)
      (give_back ''worker_lease_expired'' now now) (dataset_semantic_link_runs db)\<rparr>)"
    by (rule runs_update_wf [OF assms]) (simp_all add: give_back_ok)
  then show ?thesis
    using assms by (simp add: recover_stale_runs_def Let_def fold_recover_wf)
qed

subsection \<open>Claims\<close>

definition claimed_run :: "datetime \<Rightarrow> DatasetSemanticLinkRun \<Rightarrow> DatasetSemanticLinkRun" where
  "claimed_run now r = r\<lparr>run_status := ''running'', run_attempt_count := run_attempt_count r + 1,
     run_claimed_at := Some now, run_finished_at := None, run_failure_code := None,
     run_updated_at := now\<rparr>"

lemma claimed_run_keys [simp]:
  "run_id (claimed_run now r) = run_id r" "run_key (claimed_run now r) = run_key r"
  "run_status (claimed_run now r) = ''running''"
  by (simp_all add: claimed_run_def run_key_def)

lemma claimed_run_same: "claimed_run now r = r \<Longrightarrow> run_status r = ''running''"
  by (metis claimed_run_keys(3))

lemma claimed_run_ok:
  assumes "run_ok refs r" and "waiting_status (run_status r)"
  shows "run_ok refs (claimed_run now r)"
  using assms by (auto simp: run_ok_def claimed_run_def waiting_status_def)

lemma claim_run_cases:
  assumes wf: "semantic_wf db" and op: "claim_run_sql db locked only t now = (x, db')"
  obtains (none) "x = Ok None" "db' = db"
      "\<forall>r \<in> set (dataset_semantic_link_runs db). \<not> claimable_run locked only t now r"
    | (claimed) row where "row \<in> set (dataset_semantic_link_runs db)"
      "claimable_run locked only t now row"
      "\<forall>r \<in> set (dataset_semantic_link_runs db). claimable_run locked only t now r \<longrightarrow>
        (run_priority row, run_available_at row, run_created_at row, run_id row) \<le>
        (run_priority r, run_available_at r, run_created_at r, run_id r)"
      "x = Ok (Some (claimed_run now row))"
      "db' = db\<lparr>dataset_semantic_link_runs := update_where (\<lambda>r. run_id r = run_id row)
        (claimed_run now) (dataset_semantic_link_runs db)\<rparr>"
proof (cases "first_by (\<lambda>r. (run_priority r, run_available_at r, run_created_at r, run_id r))
    (filter (claimable_run locked only t now) (dataset_semantic_link_runs db))")
  case None
  then show ?thesis
    using op none by (simp add: claim_run_sql_def filter_empty_conv)
next
  case (Some row)
  let ?rows = "dataset_semantic_link_runs db"
  note row = first_by_filterD [OF Some]
  have ok: "run_ok (snapshot_refs db) row" and dist: "distinct (map run_id ?rows)"
    using semantic_wfD(4) [OF wf] row by (auto simp: keyed_table_def)
  have int: "int4 (run_attempt_count row + 1) = Ok (run_attempt_count row + 1)"
    using ok row by (auto simp: int4_eq_Ok run_ok_def claimable_run_def)
  let ?p = "\<lambda>r. run_tenant_id r = t \<and> run_id r = run_id row"
  let ?f = "\<lambda>r. r\<lparr>run_status := ''running'', run_attempt_count := run_attempt_count row + 1,
    run_claimed_at := Some now, run_finished_at := None, run_failure_code := None,
    run_updated_at := now\<rparr>"
  have only_row: "?p r \<longleftrightarrow> r = row" "run_id r = run_id row \<longleftrightarrow> r = row" if "r \<in> set ?rows" for r
    using distinct_key_eq [OF dist that, of row] row by (auto simp: claimable_run_def)
  have upd: "update_where ?p ?f ?rows = update_where (\<lambda>r. run_id r = run_id row) (claimed_run now) ?rows"
    unfolding update_where_def using only_row by (intro map_cong) (auto simp: claimed_run_def)
  have "filter ?p ?rows = filter (\<lambda>r. r = row) ?rows"
    using only_row by (intro filter_cong) auto
  also have "\<dots> = [row]"
    using row dist by (intro filter_eq_one) (simp_all add: distinct_map)
  finally have ret: "returning ?p ?f ?rows = [claimed_run now row]"
    by (simp add: returning_def claimed_run_def)
  show ?thesis
    using row op Some int upd ret by (intro claimed [of row]) (simp_all add: claim_run_sql_def Let_def)
qed

lemma claim_run_sql_wf:
  assumes "semantic_wf db" and "claim_run_sql db locked only t now = (x, db')"
  shows "semantic_wf db'"
  using assms
proof (cases rule: claim_run_cases)
  case (claimed row)
  have only_row: "r = row" if "r \<in> set (dataset_semantic_link_runs db)" "run_id r = run_id row" for r
    using distinct_key_eq [of run_id "dataset_semantic_link_runs db" r row] that claimed(1)
      semantic_wfD(4) [OF assms(1)] by (simp add: keyed_table_def)
  show ?thesis
    unfolding claimed(5)
  proof (rule runs_update_wf [OF assms(1)])
    fix r
    assume "r \<in> set (dataset_semantic_link_runs db)" "run_id r = run_id row"
      "run_ok (snapshot_refs db) r"
    then show "run_ok (snapshot_refs db) (claimed_run now r)"
      using only_row claimed(2) by (auto simp: claimable_run_def intro: claimed_run_ok)
  qed simp_all
qed (use assms in simp)

definition run_claim ::
    "semantic_db \<Rightarrow> uuid list \<times> DatasetId list option \<times> TenantId \<times> datetime \<Rightarrow> uuid option \<times> semantic_db" where
  "run_claim db req =
     (case req of (locked, only, t, now) \<Rightarrow>
      case (case only of None \<Rightarrow> claim_ready_run db locked t now
            | Some ds \<Rightarrow> claim_ready_run_for_datasets db locked t now ds) of
        (Inr (Some r), db') \<Rightarrow> (Some (run_id r), db')
      | (Inr None, db') \<Rightarrow> (None, db')
      | (Inl e, db') \<Rightarrow> (None, db'))"

definition waiting_runs :: "semantic_db \<Rightarrow> uuid set" where
  "waiting_runs db = {run_id r |r. r \<in> set (dataset_semantic_link_runs db) \<and> waiting_status (run_status r)}"

lemma claim_waiting_runs:
  assumes "semantic_wf db" and "claim_run_sql db locked only t now = (x, db')"
  shows "semantic_wf db' \<and> waiting_runs db' \<subseteq> waiting_runs db \<and>
    (\<forall>r. x = Ok (Some r) \<longrightarrow> run_id r \<in> waiting_runs db \<and> run_id r \<notin> waiting_runs db' \<and>
      run_id r \<notin> set locked)"
  using assms
proof (cases rule: claim_run_cases)
  case (claimed row)
  have "waiting_runs db' = waiting_runs db - {run_id row}"
    unfolding waiting_runs_def claimed(5)
    by (auto simp: waiting_status_def set_update_where dest: claimed_run_same split: if_splits)
  moreover have "run_id row \<in> waiting_runs db" "run_id row \<notin> set locked"
    using claimed(1,2) by (auto simp: waiting_runs_def claimable_run_def)
  ultimately show ?thesis
    using claimed(4) claim_run_sql_wf [OF assms] by simp
qed (use assms in simp_all)

lemma run_claim_sql:
  "run_claim db (locked, only, t, now) = (None, db) \<or>
   (\<exists>x db'. claim_run_sql db locked only t now = (x, db') \<and>
     run_claim db (locked, only, t, now) = (case x of Inr (Some r) \<Rightarrow> Some (run_id r) | _ \<Rightarrow> None, db'))"
proof -
  obtain x db' where "claim_run_sql db locked only t now = (x, db')" by fastforce
  then show ?thesis
    by (cases x) (auto simp: run_claim_def claim_ready_run_def claim_ready_run_for_datasets_def
      split: option.splits)
qed

interpretation run_queue: work_queue run_claim waiting_runs semantic_wf
proof
  fix db and req :: "uuid list \<times> DatasetId list option \<times> TenantId \<times> datetime" and i
  assume wf: "semantic_wf db"
  obtain locked only t now where req: "req = (locked, only, t, now)" by (cases req)
  have *: "semantic_wf (snd (run_claim db req)) \<and>
      waiting_runs (snd (run_claim db req)) \<subseteq> waiting_runs db \<and>
      (fst (run_claim db req) = Some i \<longrightarrow>
        i \<in> waiting_runs db \<and> i \<notin> waiting_runs (snd (run_claim db req)))"
    unfolding req using run_claim_sql [of db locked only t now]
  proof (elim disjE exE conjE)
    fix x db'
    assume c: "claim_run_sql db locked only t now = (x, db')"
      and r: "run_claim db (locked, only, t, now) =
        (case x of Inr (Some r) \<Rightarrow> Some (run_id r) | _ \<Rightarrow> None, db')"
    show "semantic_wf (snd (run_claim db (locked, only, t, now))) \<and>
        waiting_runs (snd (run_claim db (locked, only, t, now))) \<subseteq> waiting_runs db \<and>
        (fst (run_claim db (locked, only, t, now)) = Some i \<longrightarrow>
          i \<in> waiting_runs db \<and> i \<notin> waiting_runs (snd (run_claim db (locked, only, t, now))))"
      unfolding r using claim_waiting_runs [OF wf c] by (auto split: sum.splits option.splits)
  qed (use wf in simp)
  then show "semantic_wf (snd (run_claim db req))"
    "waiting_runs (snd (run_claim db req)) \<subseteq> waiting_runs db" by simp_all
  assume "fst (run_claim db req) = Some i"
  with * show "i \<in> waiting_runs db \<and> i \<notin> waiting_runs (snd (run_claim db req))" by simp
qed

section \<open>The operations as steps\<close>

inductive semantic_step :: "semantic_db \<Rightarrow> semantic_db \<Rightarrow> bool" where
  "snapshot_try_begin_build gen db t n now = (x, db') \<Longrightarrow> semantic_step db db'"
| "snapshot_begin_build gen db t n now = (y, db') \<Longrightarrow> semantic_step db db'"
| "semantic_step db (snd (snapshot_mark_failed db t d i c now))"
| "snapshot_mark_ready db t d i m nc ec now = (x, db') \<Longrightarrow> semantic_step db db'"
| "link_try_begin_build gen db t nl now = (z, db') \<Longrightarrow> semantic_step db db'"
| "link_mark_ready db t l r i m nc ec now = (z, db') \<Longrightarrow> semantic_step db db'"
| "semantic_step db (snd (link_mark_failed db t l r i c now))"
| "semantic_step db (snd (mark_ready_links_stale_for_dataset db t d now))"
| "create_or_get_run gen db t nr now = (w, db') \<Longrightarrow> nr_max_attempts nr < 2 ^ 31 \<Longrightarrow>
   semantic_step db db'"
| "semantic_step db (snd (claim_ready_run db locked t now))"
| "semantic_step db (snd (claim_ready_run_for_datasets db locked t now only))"
| "semantic_step db (snd (defer_run_without_attempt db t i at now))"
| "semantic_step db (snd (recover_stale_runs db t before now only))"
| "semantic_step db (snd (revive_dead_letter_run db t i now))"
| "semantic_step db (snd (retry_or_dead_letter db t run c at now))"
| "semantic_step db (snd (mark_run_succeeded db t i now))"
| "semantic_step db (snd (mark_obsolete_run_succeeded db t run c now))"

lemma claim_snd_wf:
  assumes "semantic_wf db"
  shows "semantic_wf (snd (claim_run_sql db locked only t now))"
  using claim_run_sql_wf [OF assms] by (metis prod.collapse)

lemmas operation_wf =
  snapshot_try_begin_build_wf snapshot_begin_build_wf snapshot_mark_ready_wf
  link_try_begin_build_wf link_mark_ready_wf create_or_get_run_wf

lemmas operation_snd_wf =
  snapshot_mark_failed_wf link_mark_failed_wf mark_ready_links_stale_wf defer_run_wf
  recover_stale_runs_wf revive_run_wf retry_or_dead_letter_wf mark_run_succeeded_wf
  mark_obsolete_run_wf

lemma semantic_step_wf: "semantic_step db db' \<Longrightarrow> semantic_wf db \<Longrightarrow> semantic_wf db'"
proof (induction rule: semantic_step.induct)
  case (10 db locked t now)
  then show ?case by (simp add: claim_ready_run_def claim_snd_wf)
next
  case (11 db locked t now only)
  then show ?case by (simp add: claim_ready_run_for_datasets_def claim_snd_wf)
qed (rule operation_snd_wf, assumption | rule operation_wf, assumption+)+

lemma semantic_steps_wf: "semantic_step\<^sup>*\<^sup>* db db' \<Longrightarrow> semantic_wf db \<Longrightarrow> semantic_wf db'"
  by (induction rule: rtranclp_induct) (auto intro: semantic_step_wf)

definition empty_semantic_db :: "uuid list \<Rightarrow> uuid list \<Rightarrow> semantic_db" where
  "empty_semantic_db ts ds =
     \<lparr>sd_tenants = ts, sd_datasets = ds, dataset_semantic_snapshots = [],
      dataset_semantic_link_snapshots = [], dataset_semantic_link_runs = [], sd_draws = 0\<rparr>"

lemma empty_semantic_db_wf: "semantic_wf (empty_semantic_db ts ds)"
  by (simp add: semantic_wf_def empty_semantic_db_def keyed_table_def one_ready_def)

section \<open>An example\<close>

text \<open>Two datasets with a snapshot each, a waiting run for the pair and a link being built.\<close>

definition sx_snapshot :: "string \<Rightarrow> string \<Rightarrow> DatasetSemanticSnapshot" where
  "sx_snapshot i d = \<lparr>dss_id = Uuid i, dss_tenant_id = Uuid ''t'', dss_dataset_id = Uuid d,
     dss_schema_version = ''1'', dss_generation_version = ''1'', dss_source_fingerprint = ''f'',
     dss_status = ''building'', dss_manifest = JObject [], dss_source_document_count = 1,
     dss_source_asset_count = 0, dss_source_record_count = 0, dss_node_count = 0,
     dss_edge_count = 0, dss_failure_code = None, dss_generated_at = None, dss_created_at = 1,
     dss_updated_at = 1\<rparr>"

definition sx_run :: "string \<Rightarrow> int \<Rightarrow> datetime option \<Rightarrow> DatasetSemanticLinkRun" where
  "sx_run st n c = \<lparr>run_id = Uuid ''r'', run_tenant_id = Uuid ''t'', run_left_dataset_id = Uuid ''a'',
     run_right_dataset_id = Uuid ''b'', run_left_snapshot_id = Uuid ''g'',
     run_right_snapshot_id = Uuid ''h'', run_generation_version = ''1'',
     run_source_fingerprint = ''f'', run_status = st, run_priority = 5, run_attempt_count = n,
     run_max_attempts = 1, run_available_at = 10, run_claimed_at = c, run_finished_at = None,
     run_failure_code = None, run_created_at = 3, run_updated_at = 3\<rparr>"

definition sx_link :: DatasetSemanticLinkSnapshot where
  "sx_link = \<lparr>ls_id = Uuid ''l'', ls_tenant_id = Uuid ''t'', ls_left_dataset_id = Uuid ''a'',
     ls_right_dataset_id = Uuid ''b'', ls_left_snapshot_id = Uuid ''g'',
     ls_right_snapshot_id = Uuid ''h'', ls_schema_version = ''1'', ls_generation_version = ''1'',
     ls_source_fingerprint = ''f'', ls_status = ''building'', ls_manifest = JObject [],
     ls_node_count = 0, ls_edge_count = 0, ls_failure_code = None, ls_generated_at = None,
     ls_created_at = 4, ls_updated_at = 4\<rparr>"

definition sx_db :: "DatasetSemanticLinkRun \<Rightarrow> semantic_db" where
  "sx_db r = \<lparr>sd_tenants = [Uuid ''t''], sd_datasets = [Uuid ''a'', Uuid ''b''],
     dataset_semantic_snapshots = [sx_snapshot ''g'' ''a'', sx_snapshot ''h'' ''b''],
     dataset_semantic_link_snapshots = [sx_link], dataset_semantic_link_runs = [r], sd_draws = 4\<rparr>"

definition sx_request :: "string \<Rightarrow> string \<Rightarrow> string \<Rightarrow> string \<Rightarrow> NewDatasetSemanticLinkRun" where
  "sx_request l r ls rs = \<lparr>nr_left_dataset_id = Uuid l, nr_right_dataset_id = Uuid r,
     nr_left_snapshot_id = Uuid ls, nr_right_snapshot_id = Uuid rs, nr_generation_version = '' 1 '',
     nr_source_fingerprint = ''f'', nr_priority = 3, nr_max_attempts = 2, nr_available_at = 12\<rparr>"

lemma uuid_ab: "Uuid ''a'' < Uuid ''b''"
  by code_simp

lemmas sx_defs = sx_db_def sx_link_def sx_run_def sx_snapshot_def

lemma sx_db_wf: "semantic_wf (sx_db (sx_run ''pending'' 0 None))"
  "semantic_wf (sx_db (sx_run ''running'' 1 (Some 5)))"
  using uuid_ab by (simp_all add: semantic_wf_def keyed_table_def one_ready_def snapshot_refs_def
    snapshot_ref_def snapshot_ok_def link_ok_def run_ok_def object_manifest_def snapshot_key_def
    waiting_status_def sx_defs)

section \<open>Properties\<close>

text \<open>C8: whatever sequence of the repository's operations runs, the tables stay well-formed: ids
  and unique keys are distinct, every link and run refers to snapshots that exist for its datasets
  and keeps the pair in canonical order, no run exceeds its attempts, a waiting run has an attempt
  left, a running one has been claimed, and at most one link of a pair is ready.\<close>

theorem semantic_invariant:
  assumes "semantic_wf db" and "semantic_step\<^sup>*\<^sup>* db db'"
  shows "semantic_wf db'"
  using semantic_steps_wf [OF assms(2,1)] .

theorem semantic_invariant_witness:
  "semantic_wf (snd (claim_ready_run (sx_db (sx_run ''pending'' 0 None)) [] (Uuid ''t'') 20))"
  by (rule semantic_invariant [OF sx_db_wf(1)])
    (rule r_into_rtranclp, rule semantic_step.intros(10))

text \<open>a claim restricted to a list of datasets returns nothing exactly when no run of the tenant
  between two of them is due, waiting and below its maximum of attempts; otherwise it returns the
  first such run in the order of priority, availability, creation and id, now running with one
  attempt more and at most its maximum, and changes no other run.\<close>

theorem claim_ready_run_spec:
  assumes "semantic_wf db"
    and "claim_ready_run_for_datasets db locked t now only = (x, db')"
  shows "x = Ok None \<and> db' = db \<and>
      (\<forall>r \<in> set (dataset_semantic_link_runs db). \<not> claimable_run locked (Some only) t now r) \<or>
    (\<exists>row. row \<in> set (dataset_semantic_link_runs db) \<and> claimable_run locked (Some only) t now row \<and>
      (\<forall>r \<in> set (dataset_semantic_link_runs db). claimable_run locked (Some only) t now r \<longrightarrow>
        (run_priority row, run_available_at row, run_created_at row, run_id row) \<le>
        (run_priority r, run_available_at r, run_created_at r, run_id r)) \<and>
      x = Ok (Some (claimed_run now row)) \<and>
      run_attempt_count (claimed_run now row) \<le> run_max_attempts row \<and>
      dataset_semantic_link_runs db' = map (\<lambda>r. if run_id r = run_id row then claimed_run now r else r)
        (dataset_semantic_link_runs db))"
proof (cases "only = []")
  case True
  then show ?thesis
    using assms(2) by (auto simp: claim_ready_run_for_datasets_def claimable_run_def)
next
  case False
  then have "claim_run_sql db locked (Some only) t now = (x, db')"
    using assms(2) by (simp add: claim_ready_run_for_datasets_def)
  with assms(1) show ?thesis
  proof (cases rule: claim_run_cases)
    case (claimed row)
    have "run_attempt_count (claimed_run now row) \<le> run_max_attempts row"
      using claimed(2) by (simp add: claimed_run_def claimable_run_def)
    with claimed show ?thesis
      by (intro disjI2 exI [of _ row]) (simp add: update_where_def)
  qed simp
qed

theorem claim_ready_run_spec_witness:
  "claim_ready_run_for_datasets (sx_db (sx_run ''pending'' 0 None)) [] (Uuid ''t'') 20 [Uuid ''a''] =
     (Ok None, sx_db (sx_run ''pending'' 0 None)) \<and>
   \<not> claimable_run [] (Some [Uuid ''a'']) (Uuid ''t'') 20 (sx_run ''pending'' 0 None)"
proof -
  let ?db = "sx_db (sx_run ''pending'' 0 None)"
  have c: "claim_ready_run_for_datasets ?db [] (Uuid ''t'') 20 [Uuid ''a''] = (Ok None, ?db)"
    by (simp add: claim_ready_run_for_datasets_def claim_run_sql_def claimable_run_def sx_defs)
  have "\<forall>r \<in> set (dataset_semantic_link_runs ?db). \<not> claimable_run [] (Some [Uuid ''a'']) (Uuid ''t'') 20 r"
    using claim_ready_run_spec [OF sx_db_wf(1) c] by (elim disjE exE conjE) (assumption, simp)
  then have "\<not> claimable_run [] (Some [Uuid ''a'']) (Uuid ''t'') 20 (sx_run ''pending'' 0 None)"
    by (simp add: sx_db_def)
  with c show ?thesis by blast
qed

text \<open>no run is handed out twice by claims that follow one another, whatever tenants and datasets
  they are for, and only waiting runs are handed out.\<close>

theorem run_claim_exclusive:
  assumes "semantic_wf db"
  shows "distinct (claim_all run_claim db reqs) \<and> set (claim_all run_claim db reqs) \<subseteq> waiting_runs db"
  by (rule run_queue.claim_all_waiting [OF assms])

theorem run_claim_exclusive_witness:
  "claim_all run_claim (sx_db (sx_run ''pending'' 0 None))
     [([], None, Uuid ''t'', 20), ([], None, Uuid ''t'', 20)] = [Uuid ''r''] \<and>
   Uuid ''r'' \<in> waiting_runs (sx_db (sx_run ''pending'' 0 None))"
proof -
  let ?db = "sx_db (sx_run ''pending'' 0 None)"
  have c: "claim_all run_claim ?db [([], None, Uuid ''t'', 20), ([], None, Uuid ''t'', 20)] = [Uuid ''r'']"
    by (simp add: run_claim_def claim_ready_run_def claim_run_sql_def claimable_run_def
      waiting_status_def int4_def returning_def sx_defs)
  show ?thesis
    using run_claim_exclusive [OF sx_db_wf(1), of "[([], None, Uuid ''t'', 20), ([], None, Uuid ''t'', 20)]"]
    unfolding c by simp
qed

lemma fetch_run:
  assumes "semantic_wf db" and "r \<in> set (dataset_semantic_link_runs db)"
  shows "fetch_optional (returning (same_run_key (run_tenant_id r) (run_left_snapshot_id r)
    (run_right_snapshot_id r) (run_generation_version r)) f (dataset_semantic_link_runs db)) = Some (f r)"
proof -
  have dist: "distinct (map run_key (dataset_semantic_link_runs db))"
    using semantic_wfD(4) [OF assms(1)] by (simp add: keyed_table_def)
  have "filter (\<lambda>x. run_key x = run_key r) (dataset_semantic_link_runs db) =
      filter (\<lambda>x. x = r) (dataset_semantic_link_runs db)"
    using distinct_key_eq [OF dist _ assms(2)] by (intro filter_cong) auto
  also have "\<dots> = [r]"
    using dist assms(2) by (intro filter_eq_one) (simp_all add: distinct_map)
  finally show ?thesis
    by (simp add: returning_def run_key_same [abs_def] run_key_def)
qed

lemma canonical_pair_swap:
  "canonical_dataset_semantic_link_pair r l rs ls = canonical_dataset_semantic_link_pair l r ls rs"
  by (auto simp: canonical_dataset_semantic_link_pair_def)

text \<open>The run that a creation returns is in the table under the key of the request.\<close>

lemma create_or_get_run_Ok:
  assumes "create_or_get_run gen db t run now = (Ok r, db')"
  obtains l r' ls rs where "0 < nr_max_attempts run"
    "canonical_dataset_semantic_link_pair (nr_left_dataset_id run) (nr_right_dataset_id run)
      (nr_left_snapshot_id run) (nr_right_snapshot_id run) = Ok (l, r', ls, rs)"
    "r \<in> set (dataset_semantic_link_runs db')"
    "run_key r = (t, ls, rs, trim (nr_generation_version run))"
proof -
  have pos: "0 < nr_max_attempts run"
    using assms by (auto simp: create_or_get_run_def split: if_splits)
  obtain l r' ls rs where pair: "canonical_dataset_semantic_link_pair (nr_left_dataset_id run)
      (nr_right_dataset_id run) (nr_left_snapshot_id run) (nr_right_snapshot_id run) = Ok (l, r', ls, rs)"
    using assms pos by (auto simp: create_or_get_run_def split: sum.splits)
  have "r \<in> set (dataset_semantic_link_runs db') \<and> run_key r = (t, ls, rs, trim (nr_generation_version run))"
  proof (cases "list_ex (same_run_key t ls rs (trim (nr_generation_version run))) (dataset_semantic_link_runs db)")
    case True
    show ?thesis
      using assms pos pair True
      by (auto simp: create_or_get_run_def Let_def ok_or_def set_update_where set_returning run_key_same
        run_key_def dest!: fetch_optional_SomeD split: option.splits) blast+
  next
    case False
    then show ?thesis
      using assms pos pair
      by (auto simp: create_or_get_run_def Let_def run_key_def split: if_splits)
  qed
  then show ?thesis using that pos pair by blast
qed

text \<open>requesting a run is idempotent and does not depend on the orientation of the pair. After a
  request has returned a run, any request for the same two snapshots and version (up to
  surrounding white space), with the sides in either order, returns the same run and adds no row.\<close>

theorem create_or_get_run_idempotent:
  assumes "semantic_wf db" and "nr_max_attempts run < 2 ^ 31"
    and "create_or_get_run gen db t run now = (Ok r, db')"
    and "run' = run \<or> run' = run\<lparr>nr_left_dataset_id := nr_right_dataset_id run,
      nr_right_dataset_id := nr_left_dataset_id run, nr_left_snapshot_id := nr_right_snapshot_id run,
      nr_right_snapshot_id := nr_left_snapshot_id run\<rparr>"
  shows "\<exists>r' db''. create_or_get_run gen' db' t run' now' = (Ok r', db'') \<and> run_id r' = run_id r \<and>
    run_status r' = run_status r \<and> run_attempt_count r' = run_attempt_count r \<and>
    map run_id (dataset_semantic_link_runs db'') = map run_id (dataset_semantic_link_runs db')"
proof -
  have wf': "semantic_wf db'" by (rule create_or_get_run_wf [OF assms(3,1,2)])
  obtain l q ls rs where pos: "0 < nr_max_attempts run"
    and pair: "canonical_dataset_semantic_link_pair (nr_left_dataset_id run) (nr_right_dataset_id run)
      (nr_left_snapshot_id run) (nr_right_snapshot_id run) = Ok (l, q, ls, rs)"
    and r: "r \<in> set (dataset_semantic_link_runs db')"
    and key: "run_key r = (t, ls, rs, trim (nr_generation_version run))"
    by (rule create_or_get_run_Ok [OF assms(3)])
  have pair': "canonical_dataset_semantic_link_pair (nr_left_dataset_id run') (nr_right_dataset_id run')
      (nr_left_snapshot_id run') (nr_right_snapshot_id run') = Ok (l, q, ls, rs)"
    using assms(4) pair by (auto simp: canonical_pair_swap)
  have same: "nr_max_attempts run' = nr_max_attempts run"
    "nr_generation_version run' = nr_generation_version run"
    using assms(4) by auto
  have ex: "list_ex (same_run_key t ls rs (trim (nr_generation_version run))) (dataset_semantic_link_runs db')"
    using r key by (auto simp: list_ex_iff run_key_same)
  have fetch: "fetch_optional (returning (same_run_key t ls rs (trim (nr_generation_version run))) f
      (dataset_semantic_link_runs db')) = Some (f r)" for f
    using fetch_run [OF wf' r, of f] key by (simp add: run_key_def)
  show ?thesis
    using pos pair' same ex by (simp add: create_or_get_run_def Let_def fetch map_update_where)
qed

theorem create_or_get_run_idempotent_witness:
  "\<exists>r db' r' db''.
     create_or_get_run (\<lambda>_. Uuid ''z'') (sx_db (sx_run ''pending'' 0 None)) (Uuid ''t'')
       (sx_request ''b'' ''a'' ''h'' ''g'') 6 = (Ok r, db') \<and>
     create_or_get_run (\<lambda>_. Uuid ''z'') db' (Uuid ''t'')
       (sx_request ''a'' ''b'' ''g'' ''h'') 9 = (Ok r', db'') \<and> run_id r' = run_id r"
proof -
  let ?run = "sx_request ''b'' ''a'' ''h'' ''g''"
  let ?run' = "sx_request ''a'' ''b'' ''g'' ''h''"
  have nr: "\<not> Uuid ''b'' < Uuid ''a''" using uuid_ab by simp
  have one: "trim '' 1 '' = ''1''" by code_simp
  obtain r db' where c: "create_or_get_run (\<lambda>_. Uuid ''z'') (sx_db (sx_run ''pending'' 0 None))
      (Uuid ''t'') ?run 6 = (Ok r, db')"
    using nr by (simp add: create_or_get_run_def canonical_dataset_semantic_link_pair_def one
      same_run_key_def returning_def ok_or_def Let_def sx_defs sx_request_def)
  have m: "nr_max_attempts ?run < 2 ^ 31" by (simp add: sx_request_def)
  have "?run' = ?run\<lparr>nr_left_dataset_id := nr_right_dataset_id ?run,
      nr_right_dataset_id := nr_left_dataset_id ?run, nr_left_snapshot_id := nr_right_snapshot_id ?run,
      nr_right_snapshot_id := nr_left_snapshot_id ?run\<rparr>"
    by (simp add: sx_request_def)
  from create_or_get_run_idempotent [OF sx_db_wf(1) m c disjI2 [OF this], of "\<lambda>_. Uuid ''z''" 9] c
  show ?thesis by blast
qed

lemma links_of_id:
  assumes "semantic_wf db" and "x \<in> set (dataset_semantic_link_snapshots db)"
    and "y \<in> set (dataset_semantic_link_snapshots db)" and "ls_id x = ls_id y"
  shows "x = y"
  using distinct_key_eq [of ls_id "dataset_semantic_link_snapshots db"] assms
    semantic_wfD(2) [OF assms(1)] by (simp add: keyed_table_def)

lemma ready_link_unique:
  assumes "semantic_wf db" and "x \<in> set (dataset_semantic_link_snapshots db)"
    and "ls_status x = ''ready''" and "link_of_pair t l r x"
  shows "filter (\<lambda>x. link_of_pair t l r x \<and> ls_status x = ''ready'')
    (dataset_semantic_link_snapshots db) = [x]"
proof -
  let ?rows = "dataset_semantic_link_snapshots db"
  have "y = x" if y: "y \<in> set ?rows" "link_of_pair t l r y" "ls_status y = ''ready''" for y
  proof (rule links_of_id [OF assms(1) y(1) assms(2)])
    show "ls_id y = ls_id x"
      by (rule one_readyD [OF semantic_wfD(3) [OF assms(1)] y(1) assms(2) y(3) assms(3)])
        (use y(2) assms(4) in \<open>simp add: ready_pair_def link_of_pair_def\<close>)
  qed
  then have "filter (\<lambda>x. link_of_pair t l r x \<and> ls_status x = ''ready'') ?rows = filter (\<lambda>y. y = x) ?rows"
    using assms(3,4) by (intro filter_cong) auto
  also have "\<dots> = [x]"
    using semantic_wfD(2) [OF assms(1)] assms(2)
    by (intro filter_eq_one) (simp_all add: keyed_table_def distinct_map)
  finally show ?thesis .
qed

lemma link_mark_ready_row:
  assumes "link_mark_ready db t l r i m nc ec g = (Ok (Some x), db')"
  obtains l' r' where "canonical_dataset_semantic_link_dataset_pair l r = Ok (l', r')"
    and "x \<in> set (dataset_semantic_link_snapshots db')" and "ls_status x = ''ready''"
    and "ls_id x = i" and "ls_manifest x = m" and "link_of_pair t l' r' x"
proof -
  obtain l' r' where pair: "canonical_dataset_semantic_link_dataset_pair l r = Ok (l', r')"
    and valid: "validate_dataset_semantic_link_ready_payload m nc ec = Ok ()"
    using assms by (auto simp: link_mark_ready_def split: sum.splits elim!: and_then_OkE)
  let ?rows = "dataset_semantic_link_snapshots db"
  define p where "p = (\<lambda>x. link_of_pair t l' r' x \<and> ls_id x = i \<and> ls_status x = ''building'')"
  define f where "f = (\<lambda>x :: DatasetSemanticLinkSnapshot. x\<lparr>ls_status := ''ready'', ls_manifest := m,
    ls_node_count := nc, ls_edge_count := ec, ls_failure_code := None,
    ls_generated_at := Some g, ls_updated_at := g\<rparr>)"
  have x: "fetch_optional (returning p f ?rows) = Some x"
    and db': "dataset_semantic_link_snapshots db' = update_where
      (\<lambda>x. link_of_pair t l' r' x \<and> ls_id x \<noteq> i \<and> ls_status x = ''ready'')
      (\<lambda>x. x\<lparr>ls_status := ''superseded'', ls_updated_at := g\<rparr>) (update_where p f ?rows)"
    using assms pair valid unfolding p_def f_def
    by (auto simp: link_mark_ready_def Let_def split: option.splits)
  obtain x0 where x0: "x0 \<in> set ?rows" "p x0" "x = f x0"
    using fetch_optional_SomeD [OF x] by (auto simp: set_returning)
  have x_props: "ls_status x = ''ready''" "ls_id x = i" "ls_manifest x = m" "link_of_pair t l' r' x"
    using x0(2,3) by (simp_all add: f_def p_def link_of_pair_def)
  have "x \<in> set (update_where p f ?rows)"
    unfolding x0(3) by (rule in_update_where_set [where p = p, OF x0(1,2)])
  then have "x \<in> set (dataset_semantic_link_snapshots db')"
    unfolding db' by (rule in_update_where_other) (simp add: x_props(2))
  with pair x_props that show ?thesis by blast
qed

text \<open>a link that was marked ready is the one that is read from then on: loading the latest
  ready link of the pair, with the datasets in either order, returns exactly the marked row, so
  the ready link of the pair before it has been superseded.\<close>

theorem link_mark_ready_latest:
  assumes "semantic_wf db" and "link_mark_ready db t l r i m nc ec g = (Ok (Some x), db')"
  shows "ls_id x = i \<and> ls_manifest x = m \<and> link_load_latest_ready db' t l r = Ok (Some x) \<and>
    link_load_latest_ready db' t r l = Ok (Some x)"
proof -
  obtain l' r' where pair: "canonical_dataset_semantic_link_dataset_pair l r = Ok (l', r')"
    and x: "x \<in> set (dataset_semantic_link_snapshots db')" "ls_status x = ''ready''"
      "ls_id x = i" "ls_manifest x = m" "link_of_pair t l' r' x"
    by (rule link_mark_ready_row [OF assms(2)])
  have "canonical_dataset_semantic_link_dataset_pair r l = Ok (l', r')"
    using pair by (auto simp: canonical_dataset_semantic_link_dataset_pair_def split: if_splits)
  with pair x show ?thesis
    by (simp add: link_load_latest_ready_def
      ready_link_unique [OF link_mark_ready_wf [OF assms(2,1)] x(1,2,5)])
qed

theorem link_mark_ready_latest_witness:
  "\<exists>x db'. link_mark_ready (sx_db (sx_run ''pending'' 0 None)) (Uuid ''t'') (Uuid ''b'') (Uuid ''a'')
      (Uuid ''l'') (JObject []) 3 2 30 = (Ok (Some x), db') \<and>
    link_load_latest_ready db' (Uuid ''t'') (Uuid ''a'') (Uuid ''b'') = Ok (Some x)"
proof -
  have nr: "\<not> Uuid ''b'' < Uuid ''a''" using uuid_ab by simp
  obtain x db' where c: "link_mark_ready (sx_db (sx_run ''pending'' 0 None)) (Uuid ''t'') (Uuid ''b'')
      (Uuid ''a'') (Uuid ''l'') (JObject []) 3 2 30 = (Ok (Some x), db')"
    using nr by (simp add: link_mark_ready_def validate_dataset_semantic_link_ready_payload_def
      validate_dataset_semantic_link_manifest_def object_manifest_def Let_def
      canonical_dataset_semantic_link_dataset_pair_def returning_def link_of_pair_def sx_defs)
  from link_mark_ready_latest [OF sx_db_wf(1) c] c show ?thesis by blast
qed

subsection \<open>Recovery\<close>

lemma recover_build_links:
  "dataset_semantic_link_runs (recover_run_build t now run db) = dataset_semantic_link_runs db"
  by (simp add: recover_run_build_def fail_build_for_run_def mark_pair_ready_stale_def Let_def)

lemma fold_recover_runs:
  "dataset_semantic_link_runs (fold (recover_run_build t now) runs db) = dataset_semantic_link_runs db"
  by (induction runs arbitrary: db) (simp_all add: recover_build_links)

text \<open>Recovering a build ends it and starts no other.\<close>

lemma recover_build_ends:
  assumes "x \<in> set (dataset_semantic_link_snapshots (recover_run_build t now run db))"
    and "ls_status x = ''building''"
  shows "x \<in> set (dataset_semantic_link_snapshots db)" and "\<not> build_for_run t run x"
proof -
  let ?failed = "update_where (build_for_run t run) (\<lambda>x. x\<lparr>ls_status := ''failed'',
    ls_failure_code := Some ''worker_lease_expired'', ls_updated_at := now\<rparr>)
    (dataset_semantic_link_snapshots db)"
  have *: "y \<in> set ?failed \<Longrightarrow> ls_status y = ''building'' \<Longrightarrow>
      y \<in> set (dataset_semantic_link_snapshots db) \<and> \<not> build_for_run t run y" for y
    by (auto elim!: in_update_whereE split: if_splits)
  have "x \<in> set ?failed"
    using assms by (auto simp: recover_run_build_def fail_build_for_run_def mark_pair_ready_stale_def Let_def
      elim!: in_update_whereE intro!: in_update_where_other split: if_splits)
  with * assms(2) show "x \<in> set (dataset_semantic_link_snapshots db)" "\<not> build_for_run t run x"
    by blast+
qed

lemma fold_recover_ends:
  assumes "x \<in> set (dataset_semantic_link_snapshots (fold (recover_run_build t now) runs db))"
    and "ls_status x = ''building''" and "run \<in> set runs"
  shows "\<not> build_for_run t run x"
proof -
  have kept: "x \<in> set (dataset_semantic_link_snapshots (fold (recover_run_build t now) rs db)) \<Longrightarrow>
      x \<in> set (dataset_semantic_link_snapshots db)" for rs db
    using assms(2) by (induction rs arbitrary: db) (auto dest: recover_build_ends)
  show ?thesis
    using assms(1,3)
  proof (induction runs arbitrary: db)
    case (Cons r rs)
    then show ?case
      using recover_build_ends(2) [OF kept assms(2)] by auto
  qed simp
qed

text \<open>A link that no run of the recovery is building is left alone unless it is ready, and one that a
  run is building fails.\<close>

lemma recover_build_keeps:
  assumes "x \<in> set (dataset_semantic_link_snapshots db)" and "ls_status x \<noteq> ''ready''"
    and "\<not> build_for_run t run x"
  shows "x \<in> set (dataset_semantic_link_snapshots (recover_run_build t now run db))"
  using assms
  by (auto simp: recover_run_build_def fail_build_for_run_def mark_pair_ready_stale_def Let_def
      intro!: in_update_where_other)

definition failed_build :: "datetime \<Rightarrow> DatasetSemanticLinkSnapshot \<Rightarrow> DatasetSemanticLinkSnapshot" where
  "failed_build now x = x\<lparr>ls_status := ''failed'', ls_failure_code := Some ''worker_lease_expired'',
     ls_updated_at := now\<rparr>"

lemma recover_build_fails:
  assumes "x \<in> set (dataset_semantic_link_snapshots db)" and "build_for_run t run x"
  shows "failed_build now x \<in> set (dataset_semantic_link_snapshots (recover_run_build t now run db))"
proof -
  have "failed_build now x \<in> set (update_where (build_for_run t run) (failed_build now)
      (dataset_semantic_link_snapshots db))"
    by (rule in_update_where_set [where p = "build_for_run t run", OF assms])
  moreover have "failed_build now = (\<lambda>x. x\<lparr>ls_status := ''failed'',
      ls_failure_code := Some ''worker_lease_expired'', ls_updated_at := now\<rparr>)"
    by (rule ext) (simp add: failed_build_def)
  moreover have "ls_status (failed_build now x) \<noteq> ''ready''"
    by (simp add: failed_build_def)
  ultimately show ?thesis
    by (auto simp: recover_run_build_def fail_build_for_run_def mark_pair_ready_stale_def Let_def
        intro!: in_update_where_other)
qed

lemma fold_recover_keeps:
  assumes "x \<in> set (dataset_semantic_link_snapshots db)" and "ls_status x \<noteq> ''ready''"
    and "\<forall>run \<in> set runs. \<not> build_for_run t run x"
  shows "x \<in> set (dataset_semantic_link_snapshots (fold (recover_run_build t now) runs db))"
  using assms by (induction runs arbitrary: db) (simp_all add: recover_build_keeps)

lemma fold_recover_fails:
  assumes "x \<in> set (dataset_semantic_link_snapshots db)" and "run \<in> set runs"
    and "build_for_run t run x"
  shows "failed_build now x \<in> set (dataset_semantic_link_snapshots (fold (recover_run_build t now) runs db))"
  using assms
proof (induction runs arbitrary: db)
  case (Cons r rs)
  show ?case
  proof (cases "build_for_run t r x")
    case True
    from recover_build_fails [OF Cons.prems(1) this, of now] show ?thesis
      by (simp add: fold_recover_keeps failed_build_def build_for_run_def)
  next
    case False
    with Cons.prems have "x \<in> set (dataset_semantic_link_snapshots (recover_run_build t now r db))"
      by (intro recover_build_keeps) (simp_all add: build_for_run_def)
    with Cons False show ?thesis by auto
  qed
qed simp

text \<open>A stale run given back.\<close>

definition recovered_run :: "datetime \<Rightarrow> DatasetSemanticLinkRun \<Rightarrow> DatasetSemanticLinkRun" where
  "recovered_run now r =
     r\<lparr>run_status := (if run_attempt_count r < run_max_attempts r then ''retry_wait'' else ''dead_letter''),
       run_available_at := now, run_claimed_at := None,
       run_finished_at := (if run_attempt_count r < run_max_attempts r then None else Some now),
       run_failure_code := Some ''worker_lease_expired'', run_updated_at := now\<rparr>"


text \<open>Two stale runs, one of which has used all its attempts.\<close>

definition sx_two_db :: semantic_db where
  "sx_two_db = (sx_db (sx_run ''running'' 1 (Some 5)))\<lparr>dataset_semantic_link_runs :=
     [sx_run ''running'' 1 (Some 5), (sx_run ''running'' 1 (Some 6))\<lparr>run_id := Uuid ''q'', run_max_attempts := 2\<rparr>]\<rparr>"


end
