(* ===== verification/Static_Page_Operations.thy ===== *)
theory Static_Page_Operations
  imports Prelude
begin

text \<open>
  Edits of a generated static page: a model proposes a list of JSON operations and the crate
  \<open>static-page-runtime\<close> sanitises them (\<open>sanitize_static_page_operations\<close>: known types, known fields,
  no script-like text, no executable chart options). Errors are the messages of the \<open>anyhow\<close> errors.
\<close>

section \<open>Texts\<close>

definition MAX_OPERATION_COUNT :: nat where "MAX_OPERATION_COUNT = 24"
definition DEFAULT_CHART_RUNTIME :: string where "DEFAULT_CHART_RUNTIME = ''deterministic''"
definition ADVANCED_CHART_RUNTIME :: string where "ADVANCED_CHART_RUNTIME = ''echarts''"
definition MAX_CHART_OPTIONS_DEPTH :: nat where "MAX_CHART_OPTIONS_DEPTH = 8"

text \<open>What follows a \<open><\<close>: white space, at most one \<open>/\<close>, white space, a letter, and a \<open>></\<close> somewhere
  behind it.\<close>

definition tag_follows :: "string \<Rightarrow> bool" where
  "tag_follows s =
     (let r = trim_start s;
          r = (case r of [] \<Rightarrow> r | c # r' \<Rightarrow> if c = CHR ''/'' then r' else r);
          r = trim_start r in
      case r of [] \<Rightarrow> False | c # _ \<Rightarrow> is_ascii_alphabetic c \<and> CHR ''>'' \<in> set r)"

fun contains_html_like_tag :: "string \<Rightarrow> bool" where
  "contains_html_like_tag [] = False"
| "contains_html_like_tag (c # s) \<longleftrightarrow> c = CHR ''<'' \<and> tag_follows s \<or> contains_html_like_tag s"

definition chart_unsafe_texts :: "string list" where
  "chart_unsafe_texts = [''javascript:'', ''data:text/html'', ''http://'', ''https://'', ''@import'',
     ''expression('', ''onerror='', ''onclick='', ''onload='']"

definition chart_string_is_unsafe :: "string \<Rightarrow> bool" where
  "chart_string_is_unsafe value =
     (let lower = to_ascii_lowercase value in
      list_ex (contains_text lower) chart_unsafe_texts \<or> contains_html_like_tag lower)"

definition page_unsafe_texts :: "string list" where
  "page_unsafe_texts = [''javascript:'', ''data:text/html'', ''@import'', ''expression('',
     ''onerror='', ''onclick='', ''onload='', ''<script'', ''</script'', ''<iframe'', ''<style'',
     ''<link'', ''<img'', ''<svg'', ''<object'', ''<embed'', ''<meta'', ''<base'', ''<form'']"

definition static_page_text_string_is_unsafe :: "string \<Rightarrow> bool" where
  "static_page_text_string_is_unsafe value =
     (let lower = to_ascii_lowercase value in list_ex (contains_text lower) page_unsafe_texts)"

definition chart_option_key_is_unsafe :: "string \<Rightarrow> bool" where
  "chart_option_key_is_unsafe key =
     (let lower = to_ascii_lowercase key in
      lower \<in> {''__proto__'', ''prototype'', ''constructor'', ''renderitem''} \<or>
      starts_with ''on'' lower)"

fun contains_unsafe_key :: "json \<Rightarrow> bool"
and any_unsafe_entry :: "(string \<times> json) list \<Rightarrow> bool"
and any_unsafe_item :: "json list \<Rightarrow> bool" where
  "contains_unsafe_key (JObject object) = any_unsafe_entry object"
| "contains_unsafe_key (JArray items) = any_unsafe_item items"
| "contains_unsafe_key _ = False"
| "any_unsafe_entry [] = False"
| "any_unsafe_entry ((key, v) # es) \<longleftrightarrow>
     key \<in> {''__proto__'', ''constructor'', ''prototype''} \<or> contains_unsafe_key v \<or> any_unsafe_entry es"
| "any_unsafe_item [] = False"
| "any_unsafe_item (v # vs) \<longleftrightarrow> contains_unsafe_key v \<or> any_unsafe_item vs"

section \<open>Validators\<close>

type_synonym check = "(unit, string) result"

definition trimmed_text :: "json option \<Rightarrow> string option" where
  "trimmed_text v = option_filter (\<lambda>s. s \<noteq> []) (map_option trim (Option.bind v json_as_str))"

definition static_page_operation_type :: "json \<Rightarrow> string option" where
  "static_page_operation_type operation = trimmed_text (json_get operation ''type'')"

definition require_non_empty_string :: "json \<Rightarrow> string \<Rightarrow> (string, string) result" where
  "require_non_empty_string operation key =
     ok_or (''operation field '' @ key @ '' is required'') (trimmed_text (json_get operation key))"

definition is_supported_operation_type :: "string \<Rightarrow> bool" where
  "is_supported_operation_type t \<longleftrightarrow> t \<in> {''update_module'', ''add_module'', ''remove_module'',
     ''move_module'', ''resize_module'', ''change_visualization'', ''change_data_binding'',
     ''reorder_modules'', ''change_style_direction'', ''refresh_summary'', ''queue_image_job'',
     ''update_image_job_status'', ''mark_preview_ready'', ''confirm_preview'', ''reset_image_job'',
     ''reset_final_render'', ''request_final_render''}"

definition is_supported_visualization_type :: "string \<Rightarrow> bool" where
  "is_supported_visualization_type t \<longleftrightarrow> t \<in> {''headline'', ''kpi-cards'', ''bar-chart'',
     ''line-chart'', ''donut-chart'', ''table'', ''timeline'', ''risk-matrix'', ''text-insight''}"

definition is_supported_chart_runtime :: "string \<Rightarrow> bool" where
  "is_supported_chart_runtime r \<longleftrightarrow> r \<in> {DEFAULT_CHART_RUNTIME, ADVANCED_CHART_RUNTIME}"

definition allow_keys :: "string list \<Rightarrow> string \<Rightarrow> json_map \<Rightarrow> check" where
  "allow_keys ks msg object =
     try_each (\<lambda>k. if k \<in> set ks then Ok () else Err (msg @ k)) (map fst object)"

definition validate_optional_string :: "json \<Rightarrow> string \<Rightarrow> check" where
  "validate_optional_string v field =
     (if v = JNull \<or> json_as_str v \<noteq> None then Ok ()
      else Err (field @ '' must be a string when provided''))"

definition validate_safe_text :: "string \<Rightarrow> string \<Rightarrow> check" where
  "validate_safe_text v field =
     (if static_page_text_string_is_unsafe v then Err (field @ '' contains unsafe text'') else Ok ())"

definition validate_safe_optional_string :: "json \<Rightarrow> string \<Rightarrow> check" where
  "validate_safe_optional_string v field =
     and_then (validate_optional_string v field) (\<lambda>_.
     case json_as_str v of Some text \<Rightarrow> validate_safe_text text field | None \<Rightarrow> Ok ())"

definition if_present :: "json_map \<Rightarrow> string \<Rightarrow> (json \<Rightarrow> check) \<Rightarrow> check" where
  "if_present object key f = (case map_of object key of None \<Rightarrow> Ok () | Some v \<Rightarrow> f v)"

definition data_binding_texts :: "string list" where
  "data_binding_texts = [''type'', ''label'', ''sourceId'', ''fieldPath'', ''field'', ''aggregation'']"

definition validate_data_binding :: "json \<Rightarrow> check" where
  "validate_data_binding v =
     (case json_as_object v of
        None \<Rightarrow> Err ''dataBinding must be an object''
      | Some object \<Rightarrow>
          and_then (allow_keys (data_binding_texts @ [''evidenceIds'']) ''unsupported dataBinding field: '' object) (\<lambda>_.
          and_then (try_each (\<lambda>key. if_present object key (\<lambda>v.
            validate_safe_optional_string v (''dataBinding.'' @ key))) data_binding_texts) (\<lambda>_.
          if_present object ''evidenceIds'' (\<lambda>v.
            if json_as_array v = None then Err ''dataBinding.evidenceIds must be an array'' else Ok ()))))"

definition validate_chart_runtime :: "json \<Rightarrow> string \<Rightarrow> (string option, string) result" where
  "validate_chart_runtime v field =
     (if v = JNull then Ok None
      else case trimmed_text (Some v) of
        None \<Rightarrow> Err (field @ '' must be a supported chart runtime'')
      | Some runtime \<Rightarrow>
          if is_supported_chart_runtime runtime then Ok (Some runtime)
          else Err (''unsupported static page chart runtime: '' @ runtime))"

text \<open>\<open>object.get("chartRuntime").map(validate_chart_runtime).transpose()?.flatten()\<close>\<close>

definition given_chart_runtime :: "json option \<Rightarrow> string \<Rightarrow> (string option, string) result" where
  "given_chart_runtime v field =
     (case v of None \<Rightarrow> Ok None | Some v \<Rightarrow> validate_chart_runtime v field)"

fun validate_chart_json_value :: "json \<Rightarrow> nat \<Rightarrow> check"
and validate_chart_items :: "json list \<Rightarrow> nat \<Rightarrow> check"
and validate_chart_entries :: "(string \<times> json) list \<Rightarrow> nat \<Rightarrow> check" where
  "validate_chart_json_value v depth =
     (if MAX_CHART_OPTIONS_DEPTH < depth then Err ''chartOptions nesting is too deep''
      else case v of
        JString text \<Rightarrow>
          if chart_string_is_unsafe text then Err ''chartOptions contains unsafe string value'' else Ok ()
      | JArray items \<Rightarrow> validate_chart_items items (depth + 1)
      | JObject object \<Rightarrow> validate_chart_entries object (depth + 1)
      | _ \<Rightarrow> Ok ())"
| "validate_chart_items [] depth = Ok ()"
| "validate_chart_items (v # vs) depth =
     and_then (validate_chart_json_value v depth) (\<lambda>_. validate_chart_items vs depth)"
| "validate_chart_entries [] depth = Ok ()"
| "validate_chart_entries ((key, v) # es) depth =
     (if chart_option_key_is_unsafe key then Err (''chartOptions contains unsafe key: '' @ key)
      else and_then (validate_chart_json_value v depth) (\<lambda>_. validate_chart_entries es depth))"

definition validate_echarts_series :: "json \<Rightarrow> check" where
  "validate_echarts_series v =
     and_then (case v of JArray items \<Rightarrow> Ok items | JObject _ \<Rightarrow> Ok [v]
               | _ \<Rightarrow> Err ''ECharts chartOptions.series must be an object or array'') (\<lambda>series.
     try_each (\<lambda>item. case json_as_object item of
         None \<Rightarrow> Err ''ECharts chartOptions.series items must be objects''
       | Some object \<Rightarrow>
           (case Option.bind (map_of object ''type'') json_as_str of
              None \<Rightarrow> Err ''ECharts series.type is required''
            | Some t \<Rightarrow>
                if t \<in> {''bar'', ''line'', ''pie'', ''scatter'', ''gauge'', ''radar'', ''heatmap'', ''treemap''}
                then Ok () else Err (''unsupported ECharts series type: '' @ t))) series)"

definition echarts_keys :: "string list" where
  "echarts_keys = [''animation'', ''aria'', ''backgroundColor'', ''color'', ''dataset'', ''grid'', ''legend'',
     ''series'', ''title'', ''tooltip'', ''xAxis'', ''yAxis'', ''radiusAxis'', ''angleAxis'', ''polar'',
     ''radar'', ''visualMap'']"

definition validate_echarts_options :: "json_map \<Rightarrow> check" where
  "validate_echarts_options object =
     try_each (\<lambda>(key, v).
       if key \<notin> set echarts_keys then Err (''unsupported ECharts chartOptions field: '' @ key)
       else if key = ''series'' then validate_echarts_series v else Ok ()) object"

definition validate_chart_options :: "json \<Rightarrow> string \<Rightarrow> check" where
  "validate_chart_options v chart_runtime =
     (case json_as_object v of
        None \<Rightarrow> Err ''chartOptions must be an object''
      | Some object \<Rightarrow>
          and_then (validate_chart_json_value v 0) (\<lambda>_.
          if chart_runtime = ADVANCED_CHART_RUNTIME then validate_echarts_options object
          else allow_keys [''showLegend'', ''showAxis'', ''valueFormat'', ''dataKey'', ''categoryKey'',
            ''labelKey'', ''valueKey'', ''seriesKey'', ''chartType''] ''unsupported chartOptions field: '' object))"

definition row_keys :: "string list" where
  "row_keys = [''data'', ''values'', ''rows'', ''items'', ''sampleData'', ''sample_data'']"

definition validate_rows :: "json_map \<Rightarrow> check" where
  "validate_rows object = try_each (\<lambda>key. if_present object key (\<lambda>v. validate_chart_json_value v 0)) row_keys"

definition validate_visualization_patch :: "json \<Rightarrow> check" where
  "validate_visualization_patch v =
     (case json_as_object v of
        None \<Rightarrow> Err ''visualization must be an object''
      | Some object \<Rightarrow>
          and_then (allow_keys ([''type'', ''label'', ''chartRuntime'', ''chartOptions''] @ row_keys)
            ''unsupported visualization field: '' object) (\<lambda>_.
          and_then (case Option.bind (map_of object ''type'') json_as_str of
              None \<Rightarrow> Ok ()
            | Some t \<Rightarrow> if is_supported_visualization_type t then Ok ()
                else Err (''unsupported static page visualization type: '' @ t)) (\<lambda>_.
          and_then (if_present object ''label'' (\<lambda>v. validate_safe_optional_string v ''visualization.label'')) (\<lambda>_.
          and_then (given_chart_runtime (map_of object ''chartRuntime'') ''visualization.chartRuntime'') (\<lambda>runtime.
          and_then (if_present object ''chartOptions'' (\<lambda>v.
            validate_chart_options v (unwrap_or DEFAULT_CHART_RUNTIME runtime))) (\<lambda>_.
          validate_rows object))))))"

text \<open>The runtime of a module's own chart options: its \<open>chartRuntime\<close>, else the one its visualization
  names.\<close>

definition module_chart_runtime :: "json_map \<Rightarrow> string \<Rightarrow> (string, string) result" where
  "module_chart_runtime object field =
     and_then (given_chart_runtime (map_of object ''chartRuntime'') field) (\<lambda>runtime.
     Ok (unwrap_or DEFAULT_CHART_RUNTIME (or_else runtime
       (Option.bind (Option.bind (map_of object ''visualization'') (\<lambda>v. json_get v ''chartRuntime''))
         json_as_str))))"

definition validate_update_module_patch :: "json \<Rightarrow> check" where
  "validate_update_module_patch operation =
     and_then (ok_or ''update_module must include patch'' (json_get operation ''patch'')) (\<lambda>patch.
     case json_as_object patch of
       None \<Rightarrow> Err ''update_module patch must be an object''
     | Some object \<Rightarrow>
         and_then (allow_keys [''title'', ''content'', ''dataLabel'', ''dataBinding'', ''visualization'',
           ''chartOptions'', ''chartRuntime'', ''layout''] ''unsupported update_module patch field: '' object) (\<lambda>_.
         and_then (try_each (\<lambda>key. if_present object key (\<lambda>v.
           validate_safe_optional_string v (''patch.'' @ key))) [''title'', ''content'', ''dataLabel'']) (\<lambda>_.
         and_then (if_present object ''dataBinding'' validate_data_binding) (\<lambda>_.
         and_then (if_present object ''visualization'' validate_visualization_patch) (\<lambda>_.
         and_then (module_chart_runtime object ''patch.chartRuntime'') (\<lambda>runtime.
         if_present object ''chartOptions'' (\<lambda>v. validate_chart_options v runtime)))))))"

definition module_texts :: "string list" where
  "module_texts = [''id'', ''role'', ''title'', ''content'', ''dataLabel'']"

definition validate_module_contract :: "json \<Rightarrow> check" where
  "validate_module_contract v =
     (case json_as_object v of
        None \<Rightarrow> Err ''module must be an object''
      | Some object \<Rightarrow>
          and_then (allow_keys (module_texts @ [''dataBinding'', ''data_binding'', ''visualization'',
            ''chartOptions'', ''chartRuntime'', ''layout''] @ row_keys) ''unsupported module field: '' object) (\<lambda>_.
          and_then (try_each (\<lambda>key. if_present object key (\<lambda>v.
            validate_safe_optional_string v (''module.'' @ key))) module_texts) (\<lambda>_.
          and_then (case or_else (map_of object ''dataBinding'') (map_of object ''data_binding'') of
              None \<Rightarrow> Ok () | Some b \<Rightarrow> validate_data_binding b) (\<lambda>_.
          and_then (if_present object ''visualization'' validate_visualization_patch) (\<lambda>_.
          and_then (module_chart_runtime object ''module.chartRuntime'') (\<lambda>runtime.
          and_then (if_present object ''chartOptions'' (\<lambda>v. validate_chart_options v runtime)) (\<lambda>_.
          validate_rows object)))))))"

section \<open>Normalisation\<close>

definition rename_key :: "string \<Rightarrow> string \<Rightarrow> json_map \<Rightarrow> json_map" where
  "rename_key from to object =
     (if map_of object to \<noteq> None then object
      else case map_of object from of
        None \<Rightarrow> object
      | Some v \<Rightarrow> map_insert to v (map_remove from object))"

definition rename_keys :: "(string \<times> string) list \<Rightarrow> json_map \<Rightarrow> json_map" where
  "rename_keys rs object = fold (\<lambda>(from, to). rename_key from to) rs object"

text \<open>\<open>if let Some(x) = object.get_mut(key).and_then(Value::as_object_mut)\<close>: rewrite the entry in place.\<close>

definition in_object :: "string \<Rightarrow> (json_map \<Rightarrow> json_map) \<Rightarrow> json_map \<Rightarrow> json_map" where
  "in_object key f object =
     (case Option.bind (map_of object key) json_as_object of
        None \<Rightarrow> object
      | Some o' \<Rightarrow> map_insert key (JObject (f o')) object)"

definition normalize_data_binding_object :: "json_map \<Rightarrow> json_map" where
  "normalize_data_binding_object = rename_keys [(''source_id'', ''sourceId''),
     (''field_path'', ''fieldPath''), (''evidence_ids'', ''evidenceIds'')]"

definition chart_renames :: "(string \<times> string) list" where
  "chart_renames = [(''chart_options'', ''chartOptions''), (''chart_runtime'', ''chartRuntime''),
     (''runtime'', ''chartRuntime'')]"

definition normalize_module_object :: "json_map \<Rightarrow> json_map" where
  "normalize_module_object m =
     in_object ''visualization'' (rename_keys chart_renames)
       (in_object ''dataBinding'' normalize_data_binding_object
         (rename_keys ([(''data_label'', ''dataLabel''), (''data_binding'', ''dataBinding'')] @ chart_renames) m))"

definition normalize_static_page_operation :: "json \<Rightarrow> json" where
  "normalize_static_page_operation operation =
     (case operation of
        JObject object \<Rightarrow>
          JObject (in_object ''module'' normalize_module_object
            (in_object ''dataBinding'' normalize_data_binding_object
              (in_object ''patch'' normalize_module_object
                (rename_keys ([(''target_module_id'', ''targetModuleId''), (''module_id'', ''moduleId''),
                   (''style_direction'', ''styleDirection''), (''visualization_type'', ''visualizationType''),
                   (''data_binding'', ''dataBinding'')] @ chart_renames @
                   [(''model_summary'', ''modelSummary''), (''queue_position'', ''queuePosition''),
                    (''queue_message'', ''queueMessage''), (''preview_image'', ''previewImage''),
                    (''final_page'', ''finalPage'')]) object))))
      | v \<Rightarrow> v)"

section \<open>The sanitiser\<close>

definition require_module_id :: "json \<Rightarrow> (string, string) result" where
  "require_module_id operation =
     (case require_non_empty_string operation ''targetModuleId'' of
        Inr s \<Rightarrow> Ok s
      | Inl _ \<Rightarrow> require_non_empty_string operation ''moduleId'')"

definition validate_operation :: "string \<Rightarrow> json \<Rightarrow> check" where
  "validate_operation t operation =
     (if t = ''update_module'' then
        and_then (require_module_id operation) (\<lambda>_. validate_update_module_patch operation)
      else if t \<in> {''remove_module'', ''move_module'', ''resize_module'', ''change_data_binding''} then
        and_then (require_module_id operation) (\<lambda>_.
        if t = ''change_data_binding'' then
          and_then (ok_or ''change_data_binding must include dataBinding'' (json_get operation ''dataBinding''))
            validate_data_binding
        else Ok ())
      else if t = ''change_style_direction'' then
        and_then (require_non_empty_string operation ''styleDirection'') (\<lambda>style.
        if style \<in> {''decision-brief'', ''client-delivery'', ''data-command''} then Ok ()
        else Err (''unsupported static page style direction: '' @ style))
      else if t = ''change_visualization'' then
        and_then (require_module_id operation) (\<lambda>_.
        and_then (require_non_empty_string operation ''visualizationType'') (\<lambda>visualization.
        if \<not> is_supported_visualization_type visualization
        then Err (''unsupported static page visualization type: '' @ visualization)
        else and_then (given_chart_runtime (json_get operation ''chartRuntime'') ''chartRuntime'') (\<lambda>runtime.
          case json_get operation ''chartOptions'' of
            None \<Rightarrow> Ok ()
          | Some v \<Rightarrow> validate_chart_options v (unwrap_or DEFAULT_CHART_RUNTIME runtime))))
      else if t = ''add_module'' then
        and_then (ok_or ''add_module must include module'' (json_get operation ''module''))
          validate_module_contract
      else if t = ''reorder_modules'' then
        if Option.bind (json_get operation ''order'') json_as_array \<noteq> None then Ok ()
        else Err ''reorder_modules must include order array''
      else if t = ''refresh_summary'' then
        and_then (require_non_empty_string operation ''modelSummary'') (\<lambda>summary.
        validate_safe_text summary ''modelSummary'')
      else if t = ''update_image_job_status'' then
        and_then (require_non_empty_string operation ''status'') (\<lambda>_. Ok ())
      else Ok ())"

definition sanitize_static_page_operation :: "json \<Rightarrow> (json, string) result" where
  "sanitize_static_page_operation operation =
     (if contains_unsafe_key operation then Err ''static page operation contains unsafe key''
      else
        let operation = normalize_static_page_operation operation in
        and_then (ok_or ''static page operation must include non-empty type''
          (static_page_operation_type operation)) (\<lambda>t.
        if \<not> is_supported_operation_type t then Err (''unsupported static page operation type: '' @ t)
        else and_then (validate_operation t operation) (\<lambda>_. Ok operation)))"

definition sanitize_static_page_operations :: "json list \<Rightarrow> (json list, string) result" where
  "sanitize_static_page_operations operations =
     (if MAX_OPERATION_COUNT < length operations
      then Err ''static page operation count must be 24 or fewer''
      else collect (map sanitize_static_page_operation operations))"

section \<open>Chart values\<close>

text \<open>The strings, the keys and the nesting depth of a value.\<close>

fun json_strings :: "json \<Rightarrow> string set" where
  "json_strings (JString s) = {s}"
| "json_strings (JArray vs) = (\<Union>v \<in> set vs. json_strings v)"
| "json_strings (JObject es) = (\<Union>e \<in> set es. json_strings (snd e))"
| "json_strings _ = {}"

fun json_keys :: "json \<Rightarrow> string set" where
  "json_keys (JArray vs) = (\<Union>v \<in> set vs. json_keys v)"
| "json_keys (JObject es) = fst ` set es \<union> (\<Union>e \<in> set es. json_keys (snd e))"
| "json_keys _ = {}"

fun json_height :: "json \<Rightarrow> nat" where
  "json_height (JArray vs) = foldr (\<lambda>v h. max h (Suc (json_height v))) vs 0"
| "json_height (JObject es) = foldr (\<lambda>e h. max h (Suc (json_height (snd e)))) es 0"
| "json_height _ = 0"

lemma foldr_max_le: "foldr (\<lambda>x h. max h (Suc (f x))) xs 0 \<le> n \<longleftrightarrow> (\<forall>x \<in> set xs. f x < n)"
  by (induction xs) auto

text \<open>What charts may contain: no script-like string and no dangerous key, at any depth.\<close>

definition chart_clean :: "json \<Rightarrow> bool" where
  "chart_clean v \<longleftrightarrow> (\<forall>s \<in> json_strings v. \<not> chart_string_is_unsafe s) \<and>
     (\<forall>k \<in> json_keys v. \<not> chart_option_key_is_unsafe k)"

lemma chart_clean_simps [simp]:
  "chart_clean (JString s) = (\<not> chart_string_is_unsafe s)"
  "chart_clean (JArray vs) = (\<forall>v \<in> set vs. chart_clean v)"
  "chart_clean (JObject es) = (\<forall>e \<in> set es. \<not> chart_option_key_is_unsafe (fst e) \<and> chart_clean (snd e))"
  "chart_clean JNull" "chart_clean (JBool b)" "chart_clean (JNumber n)"
  by (auto simp: chart_clean_def)

lemma validate_chart_spec:
  "validate_chart_json_value v depth = Ok () \<longleftrightarrow>
     chart_clean v \<and> depth + json_height v \<le> MAX_CHART_OPTIONS_DEPTH"
  "validate_chart_items vs depth = Ok () \<longleftrightarrow>
     (\<forall>v \<in> set vs. chart_clean v \<and> depth + json_height v \<le> MAX_CHART_OPTIONS_DEPTH)"
  "validate_chart_entries es depth = Ok () \<longleftrightarrow>
     (\<forall>e \<in> set es. \<not> chart_option_key_is_unsafe (fst e) \<and> chart_clean (snd e) \<and>
       depth + json_height (snd e) \<le> MAX_CHART_OPTIONS_DEPTH)"
proof (induction v depth and vs depth and es depth
    rule: validate_chart_json_value_validate_chart_items_validate_chart_entries.induct)
  case (1 v depth)
  show ?case
  proof (cases "MAX_CHART_OPTIONS_DEPTH < depth")
    case True
    then show ?thesis by simp
  next
    case False
    have le: "depth + n \<le> MAX_CHART_OPTIONS_DEPTH \<longleftrightarrow> n \<le> MAX_CHART_OPTIONS_DEPTH - depth" for n
      using False by auto
    have lt: "Suc (depth + n) \<le> MAX_CHART_OPTIONS_DEPTH \<longleftrightarrow> n < MAX_CHART_OPTIONS_DEPTH - depth" for n
      by auto
    show ?thesis
      using 1 False by (cases v) (auto simp: le lt foldr_max_le)
  qed
qed (auto simp: and_then_eq_Ok)

declare validate_chart_json_value.simps [simp del]

lemma chart_options_clean: "validate_chart_options v r = Ok u \<Longrightarrow> chart_clean v"
  by (auto simp: validate_chart_options_def validate_chart_spec split: option.splits elim!: and_then_OkE)

section \<open>Normalisation changes names only\<close>

text \<open>A value of \<open>serde_json\<close>: the keys of every object increase.\<close>

fun json_wf :: "json \<Rightarrow> bool" where
  "json_wf (JArray vs) = (\<forall>v \<in> set vs. json_wf v)"
| "json_wf (JObject es) = (keys_sorted es \<and> (\<forall>e \<in> set es. json_wf (snd e)))"
| "json_wf _ = True"

lemma map_of_rename_key:
  assumes "keys_sorted m" and "from \<noteq> to"
  shows "map_of (rename_key from to m) =
    (if map_of m to \<noteq> None \<or> map_of m from = None then map_of m
     else (map_of m)(from := None, to := map_of m from))"
  using assms by (auto simp: rename_key_def map_of_remove fun_eq_iff split: option.splits)

lemma keys_sorted_rename_key [simp]: "keys_sorted m \<Longrightarrow> keys_sorted (rename_key from to m)"
  by (auto simp: rename_key_def split: option.splits)

lemma keys_sorted_rename_keys [simp]: "keys_sorted m \<Longrightarrow> keys_sorted (rename_keys rs m)"
  unfolding rename_keys_def by (induction rs arbitrary: m) auto

lemma keys_sorted_in_object [simp]: "keys_sorted m \<Longrightarrow> keys_sorted (in_object k f m)"
  by (auto simp: in_object_def split: option.splits)

lemma set_map_insert: "set (map_insert k v m) \<subseteq> insert (k, v) (set m)"
  by (induction m) auto

lemma json_wf_lookup: "json_wf (JObject m) \<Longrightarrow> map_of m k = Some v \<Longrightarrow> json_wf v"
  by (auto dest!: map_of_SomeD)

lemma json_wf_insert: "json_wf (JObject m) \<Longrightarrow> json_wf v \<Longrightarrow> json_wf (JObject (map_insert k v m))"
  using set_map_insert [of k v m] by auto

lemma json_wf_remove: "json_wf (JObject m) \<Longrightarrow> json_wf (JObject (map_remove k m))"
  using set_map_remove [of k m] by auto

lemma json_wf_rename_key: "json_wf (JObject m) \<Longrightarrow> json_wf (JObject (rename_key from to m))"
  unfolding rename_key_def
  by (auto intro!: json_wf_insert json_wf_remove dest: json_wf_lookup simp del: json_wf.simps split: option.splits)

lemma json_wf_rename_keys: "json_wf (JObject m) \<Longrightarrow> json_wf (JObject (rename_keys rs m))"
  unfolding rename_keys_def
  by (induction rs arbitrary: m) (auto simp: json_wf_rename_key simp del: json_wf.simps)

lemma json_wf_in_object:
  assumes "json_wf (JObject m)" and "\<And>o'. json_wf (JObject o') \<Longrightarrow> json_wf (JObject (f o'))"
  shows "json_wf (JObject (in_object k f m))"
proof (cases "Option.bind (map_of m k) json_as_object")
  case (Some o')
  then have "map_of m k = Some (JObject o')"
    by (auto simp: bind_eq_Some_conv elim: json_as_object.elims)
  with assms have "json_wf (JObject (f o'))"
    using json_wf_lookup by blast
  then show ?thesis
    using Some assms(1) by (simp add: in_object_def json_wf_insert del: json_wf.simps)
qed (use assms(1) in \<open>simp add: in_object_def\<close>)

subsection \<open>Renaming twice is renaming once\<close>

definition renamed :: "(string \<times> string) list \<Rightarrow> json_map \<Rightarrow> bool" where
  "renamed rs m \<longleftrightarrow> (\<forall>(from, to) \<in> set rs. map_of m to \<noteq> None \<or> map_of m from = None)"

definition renaming :: "(string \<times> string) list \<Rightarrow> bool" where
  "renaming rs \<longleftrightarrow> (\<forall>(from, to) \<in> set rs. from \<notin> snd ` set rs)"

lemma rename_keys_id: "renamed rs m \<Longrightarrow> rename_keys rs m = m"
  unfolding rename_keys_def
  by (induction rs) (auto simp: renamed_def rename_key_def)

lemma renamed_step:
  assumes "keys_sorted m" and "renamed rs m" and "renaming ((from, to) # rs)"
  shows "renamed ((from, to) # rs) (rename_key from to m)"
proof -
  have ne: "from \<noteq> to" using assms(3) by (auto simp: renaming_def)
  show ?thesis
    using assms(2,3) ne unfolding renamed_def renaming_def map_of_rename_key [OF assms(1) ne]
    by (auto simp: image_iff split: prod.splits if_splits)
qed

lemma renamed_rename_keys:
  assumes "keys_sorted m" and "renaming rs"
  shows "renamed rs (rename_keys rs m)"
  using assms(2)
proof (induction rs rule: rev_induct)
  case (snoc x rs)
  obtain a b where x: "x = (a, b)" by (cases x)
  have "renaming rs" "renaming ((a, b) # rs)"
    using snoc.prems x by (auto simp: renaming_def)
  then have "renamed ((a, b) # rs) (rename_key a b (rename_keys rs m))"
    using snoc.IH assms(1) by (intro renamed_step) simp_all
  then show ?case
    by (auto simp: x rename_keys_def renamed_def)
qed (simp add: renamed_def)

lemma rename_keys_idem:
  "keys_sorted m \<Longrightarrow> renaming rs \<Longrightarrow> rename_keys rs (rename_keys rs m) = rename_keys rs m"
  by (rule rename_keys_id [OF renamed_rename_keys])

text \<open>An entry that a rewriting of nested objects leaves as it is.\<close>

definition settled :: "string \<Rightarrow> (json_map \<Rightarrow> json_map) \<Rightarrow> json_map \<Rightarrow> bool" where
  "settled k f m \<longleftrightarrow> (\<forall>o'. map_of m k = Some (JObject o') \<longrightarrow> f o' = o')"

lemma map_insert_same: "keys_sorted m \<Longrightarrow> map_of m k = Some v \<Longrightarrow> map_insert k v m = m"
  by (induction m) (auto simp: map_of_eq_None_iff dest!: map_of_SomeD split: if_splits)

lemma json_as_object_Some: "json_as_object v = Some o' \<longleftrightarrow> v = JObject o'"
  by (cases v) auto

lemma in_object_id: "keys_sorted m \<Longrightarrow> settled k f m \<Longrightarrow> in_object k f m = m"
  by (auto simp: in_object_def settled_def bind_eq_Some_conv json_as_object_Some map_insert_same
    split: option.splits)

lemma settled_in_object:
  assumes "\<And>o'. map_of m k = Some (JObject o') \<Longrightarrow> f (f o') = f o'"
  shows "settled k f (in_object k f m)"
  using assms by (auto simp: in_object_def settled_def bind_eq_Some_conv json_as_object_Some
    split: option.splits)

lemma settled_in_object_other: "k' \<noteq> k \<Longrightarrow> settled k f (in_object k' g m) = settled k f m"
  by (auto simp: in_object_def settled_def split: option.splits)

lemma renamed_in_object: "renamed rs (in_object k f m) = renamed rs m"
  by (auto simp: in_object_def renamed_def bind_eq_Some_conv split: option.splits if_splits)

lemmas renames_defs = chart_renames_def renaming_def

lemma data_binding_idem:
  "keys_sorted m \<Longrightarrow> normalize_data_binding_object (normalize_data_binding_object m) =
    normalize_data_binding_object m"
  unfolding normalize_data_binding_object_def by (rule rename_keys_idem) (simp_all add: renaming_def)

lemma data_binding_wf:
  "json_wf (JObject m) \<Longrightarrow> json_wf (JObject (normalize_data_binding_object m))"
  unfolding normalize_data_binding_object_def by (rule json_wf_rename_keys)

lemma module_object_wf: "json_wf (JObject m) \<Longrightarrow> json_wf (JObject (normalize_module_object m))"
  unfolding normalize_module_object_def
  by (intro json_wf_in_object json_wf_rename_keys data_binding_wf)

lemma wf_entry_sorted: "json_wf (JObject m) \<Longrightarrow> map_of m k = Some (JObject o') \<Longrightarrow> keys_sorted o'"
  using json_wf_lookup by fastforce

text \<open>A normal form: the names are settled, and so are the nested objects in turn.\<close>

lemma module_object_settled:
  assumes wf: "json_wf (JObject m)"
  shows "normalize_module_object (normalize_module_object m) = normalize_module_object m"
proof -
  let ?rs = "[(''data_label'', ''dataLabel''), (''data_binding'', ''dataBinding'')] @ chart_renames"
  let ?m1 = "rename_keys ?rs m"
  let ?m2 = "in_object ''dataBinding'' normalize_data_binding_object ?m1"
  let ?m3 = "in_object ''visualization'' (rename_keys chart_renames) ?m2"
  have wf1: "json_wf (JObject ?m1)" by (rule json_wf_rename_keys [OF wf])
  have wf2: "json_wf (JObject ?m2)" by (rule json_wf_in_object [OF wf1 data_binding_wf])
  have wf3: "json_wf (JObject ?m3)" by (rule json_wf_in_object [OF wf2 json_wf_rename_keys])
  have r: "renamed ?rs ?m3"
    unfolding renamed_in_object using wf by (intro renamed_rename_keys) (simp_all add: renames_defs)
  have b: "settled ''dataBinding'' normalize_data_binding_object ?m3"
    by (simp add: settled_in_object_other settled_in_object data_binding_idem wf_entry_sorted [OF wf1])
  have v: "settled ''visualization'' (rename_keys chart_renames) ?m3"
  proof (rule settled_in_object)
    fix o'
    assume "map_of ?m2 ''visualization'' = Some (JObject o')"
    then have "keys_sorted o'" by (rule wf_entry_sorted [OF wf2])
    then show "rename_keys chart_renames (rename_keys chart_renames o') = rename_keys chart_renames o'"
      by (rule rename_keys_idem) (simp add: renames_defs)
  qed
  have "keys_sorted ?m3" using wf3 by simp
  then have "normalize_module_object ?m3 = ?m3"
    unfolding normalize_module_object_def rename_keys_id [OF r] using b v by (simp add: in_object_id)
  then show ?thesis
    by (simp only: normalize_module_object_def [of m])
qed

definition operation_renames :: "(string \<times> string) list" where
  "operation_renames = [(''target_module_id'', ''targetModuleId''), (''module_id'', ''moduleId''),
     (''style_direction'', ''styleDirection''), (''visualization_type'', ''visualizationType''),
     (''data_binding'', ''dataBinding'')] @ chart_renames @
     [(''model_summary'', ''modelSummary''), (''queue_position'', ''queuePosition''),
      (''queue_message'', ''queueMessage''), (''preview_image'', ''previewImage''),
      (''final_page'', ''finalPage'')]"

lemma normalize_object:
  "normalize_static_page_operation (JObject m) =
    JObject (in_object ''module'' normalize_module_object
      (in_object ''dataBinding'' normalize_data_binding_object
        (in_object ''patch'' normalize_module_object (rename_keys operation_renames m))))"
  by (simp add: normalize_static_page_operation_def operation_renames_def)

lemma normalize_idem:
  assumes "json_wf v"
  shows "normalize_static_page_operation (normalize_static_page_operation v) =
    normalize_static_page_operation v"
proof (cases v)
  case (JObject m)
  let ?m1 = "rename_keys operation_renames m"
  let ?m2 = "in_object ''patch'' normalize_module_object ?m1"
  let ?m3 = "in_object ''dataBinding'' normalize_data_binding_object ?m2"
  let ?m4 = "in_object ''module'' normalize_module_object ?m3"
  have wf: "json_wf (JObject m)" using assms JObject by simp
  have wf1: "json_wf (JObject ?m1)" by (rule json_wf_rename_keys [OF wf])
  have wf2: "json_wf (JObject ?m2)" by (rule json_wf_in_object [OF wf1 module_object_wf])
  have wf3: "json_wf (JObject ?m3)" by (rule json_wf_in_object [OF wf2 data_binding_wf])
  have wf4: "json_wf (JObject ?m4)" by (rule json_wf_in_object [OF wf3 module_object_wf])
  have r: "renamed operation_renames ?m4"
    unfolding renamed_in_object using wf
    by (intro renamed_rename_keys) (simp_all add: renames_defs operation_renames_def)
  have p: "settled ''patch'' normalize_module_object ?m4"
    using json_wf_lookup [OF wf1] module_object_settled
    by (simp add: settled_in_object_other settled_in_object del: json_wf.simps)
  have b: "settled ''dataBinding'' normalize_data_binding_object ?m4"
    by (simp add: settled_in_object_other settled_in_object data_binding_idem wf_entry_sorted [OF wf2])
  have q: "settled ''module'' normalize_module_object ?m4"
    using json_wf_lookup [OF wf3] module_object_settled
    by (simp add: settled_in_object del: json_wf.simps)
  have "keys_sorted ?m4" using wf4 by simp
  then show ?thesis
    unfolding JObject normalize_object rename_keys_id [OF r] using p b q by (simp add: in_object_id)
qed (simp_all add: normalize_static_page_operation_def)

lemma normalize_wf: "json_wf v \<Longrightarrow> json_wf (normalize_static_page_operation v)"
proof (cases v)
  case (JObject m)
  assume "json_wf v"
  then show ?thesis
    unfolding JObject normalize_object
    by (intro json_wf_in_object json_wf_rename_keys module_object_wf data_binding_wf)
qed (simp_all add: normalize_static_page_operation_def)

subsection \<open>Keys\<close>

lemma unsafe_key_iff:
  "contains_unsafe_key v \<longleftrightarrow> json_keys v \<inter> {''__proto__'', ''constructor'', ''prototype''} \<noteq> {}"
  "any_unsafe_entry es \<longleftrightarrow> json_keys (JObject es) \<inter> {''__proto__'', ''constructor'', ''prototype''} \<noteq> {}"
  "any_unsafe_item vs \<longleftrightarrow> json_keys (JArray vs) \<inter> {''__proto__'', ''constructor'', ''prototype''} \<noteq> {}"
  by (induction v and es and vs rule: contains_unsafe_key_any_unsafe_entry_any_unsafe_item.induct) auto

lemma json_keys_lookup: "map_of m k = Some v \<Longrightarrow> json_keys v \<subseteq> json_keys (JObject m)"
  by (force dest!: map_of_SomeD)

lemma json_keys_insert: "json_keys (JObject (map_insert k v m)) \<subseteq> insert k (json_keys v \<union> json_keys (JObject m))"
  using set_map_insert [of k v m] by force

lemma json_keys_remove: "json_keys (JObject (map_remove k m)) \<subseteq> json_keys (JObject m)"
  using set_map_remove [of k m] by force

lemma json_keys_rename_key: "json_keys (JObject (rename_key a b m)) \<subseteq> insert b (json_keys (JObject m))"
proof (cases "map_of m b \<noteq> None \<or> map_of m a = None")
  case False
  then obtain v where v: "map_of m a = Some v" "map_of m b = None" by auto
  show ?thesis
    using json_keys_insert [of b v "map_remove a m"] json_keys_remove [of a m] json_keys_lookup [OF v(1)] v
    by (auto simp: rename_key_def simp del: json_keys.simps)
qed (auto simp: rename_key_def split: option.splits)

lemma json_keys_rename_keys:
  "json_keys (JObject (rename_keys rs m)) \<subseteq> snd ` set rs \<union> json_keys (JObject m)"
  unfolding rename_keys_def
proof (induction rs arbitrary: m)
  case (Cons x rs)
  show ?case
    using Cons.IH [of "rename_key (fst x) (snd x) m"] json_keys_rename_key [of "fst x" "snd x" m]
    by (cases x) (auto simp del: json_keys.simps)
qed simp

lemma json_keys_in_object:
  assumes "\<And>o'. json_keys (JObject (f o')) \<subseteq> S \<union> json_keys (JObject o')"
  shows "json_keys (JObject (in_object k f m)) \<subseteq> S \<union> json_keys (JObject m)"
proof (cases "Option.bind (map_of m k) json_as_object")
  case (Some o')
  then have m: "map_of m k = Some (JObject o')"
    by (auto simp: bind_eq_Some_conv json_as_object_Some)
  then have "k \<in> json_keys (JObject m)" by (force dest: map_of_SomeD)
  then show ?thesis
    using Some json_keys_insert [of k "JObject (f o')" m] assms [of o'] json_keys_lookup [OF m]
    by (auto simp: in_object_def simp del: json_keys.simps)
qed (auto simp: in_object_def)

definition canonical_names :: "string set" where
  "canonical_names = {''dataLabel'', ''dataBinding'', ''chartOptions'', ''chartRuntime'', ''sourceId'',
     ''fieldPath'', ''evidenceIds'', ''targetModuleId'', ''moduleId'', ''styleDirection'',
     ''visualizationType'', ''modelSummary'', ''queuePosition'', ''queueMessage'', ''previewImage'',
     ''finalPage''}"

lemma json_keys_canonical:
  assumes "snd ` set rs \<subseteq> canonical_names"
  shows "json_keys (JObject (rename_keys rs m)) \<subseteq> canonical_names \<union> json_keys (JObject m)"
  using json_keys_rename_keys [of rs m] assms by blast

lemma json_keys_module:
  "json_keys (JObject (normalize_module_object m)) \<subseteq> canonical_names \<union> json_keys (JObject m)"
proof -
  let ?m1 = "rename_keys ([(''data_label'', ''dataLabel''), (''data_binding'', ''dataBinding'')] @ chart_renames) m"
  have b: "json_keys (JObject (normalize_data_binding_object o')) \<subseteq> canonical_names \<union> json_keys (JObject o')" for o'
    unfolding normalize_data_binding_object_def by (rule json_keys_canonical) (simp add: canonical_names_def)
  have v: "json_keys (JObject (rename_keys chart_renames o')) \<subseteq> canonical_names \<union> json_keys (JObject o')" for o'
    by (rule json_keys_canonical) (simp add: canonical_names_def chart_renames_def)
  have "json_keys (JObject ?m1) \<subseteq> canonical_names \<union> json_keys (JObject m)"
    by (rule json_keys_canonical) (simp add: canonical_names_def chart_renames_def)
  then show ?thesis
    unfolding normalize_module_object_def
    using json_keys_in_object [of _ canonical_names "''visualization''"
        "in_object ''dataBinding'' normalize_data_binding_object ?m1", OF v]
      json_keys_in_object [of _ canonical_names "''dataBinding''" ?m1, OF b] by blast
qed

lemma json_keys_normalize:
  "json_keys (normalize_static_page_operation v) \<subseteq> canonical_names \<union> json_keys v"
proof (cases v)
  case (JObject m)
  let ?m1 = "rename_keys operation_renames m"
  let ?m2 = "in_object ''patch'' normalize_module_object ?m1"
  let ?m3 = "in_object ''dataBinding'' normalize_data_binding_object ?m2"
  have b: "json_keys (JObject (normalize_data_binding_object o')) \<subseteq> canonical_names \<union> json_keys (JObject o')" for o'
    unfolding normalize_data_binding_object_def by (rule json_keys_canonical) (simp add: canonical_names_def)
  have "json_keys (JObject ?m1) \<subseteq> canonical_names \<union> json_keys (JObject m)"
    by (rule json_keys_canonical) (simp add: canonical_names_def chart_renames_def operation_renames_def)
  then show ?thesis
    unfolding JObject normalize_object
    using json_keys_in_object [of _ canonical_names "''module''" ?m3, OF json_keys_module]
      json_keys_in_object [of _ canonical_names "''dataBinding''" ?m2, OF b]
      json_keys_in_object [of _ canonical_names "''patch''" ?m1, OF json_keys_module] by blast
qed (simp_all add: normalize_static_page_operation_def)

lemma normalize_unsafe_key:
  "\<not> contains_unsafe_key v \<Longrightarrow> \<not> contains_unsafe_key (normalize_static_page_operation v)"
  using json_keys_normalize [of v] by (auto simp: unsafe_key_iff canonical_names_def)

section \<open>Properties of the sanitiser\<close>

lemma sanitize_OkE:
  assumes "sanitize_static_page_operation operation = Ok op'"
  obtains t where "\<not> contains_unsafe_key operation" and "op' = normalize_static_page_operation operation"
    and "static_page_operation_type op' = Some t" and "is_supported_operation_type t"
    and "validate_operation t op' = Ok ()"
  using assms by (auto simp: sanitize_static_page_operation_def Let_def ok_or_eq_Ok elim!: and_then_OkE
    split: if_splits)

text \<open>the chart check accepts exactly the values that are nested at most eight levels deep and
  in which no string at any depth is script-like and no key at any depth is dangerous.\<close>

theorem validate_chart_json_value_spec:
  "validate_chart_json_value v 0 = Ok () \<longleftrightarrow>
     json_strings v \<inter> Collect chart_string_is_unsafe = {} \<and>
     json_keys v \<inter> Collect chart_option_key_is_unsafe = {} \<and> json_height v \<le> 8"
  by (auto simp: validate_chart_spec chart_clean_def MAX_CHART_OPTIONS_DEPTH_def)

text \<open>C29: sanitising is idempotent. An operation that passed the sanitiser has a supported type, no
  key that could reach a prototype, its canonical field names, and passes again unchanged.\<close>

theorem sanitize_idempotent:
  assumes "json_wf operation" and "sanitize_static_page_operation operation = Ok op'"
  shows "sanitize_static_page_operation op' = Ok op' \<and>
    json_keys op' \<inter> {''__proto__'', ''constructor'', ''prototype''} = {} \<and>
    (\<exists>t. static_page_operation_type op' = Some t \<and> is_supported_operation_type t)"
proof -
  obtain t where safe: "\<not> contains_unsafe_key operation"
    and op': "op' = normalize_static_page_operation operation"
    and t: "static_page_operation_type op' = Some t" "is_supported_operation_type t"
      "validate_operation t op' = Ok ()"
    by (rule sanitize_OkE [OF assms(2)])
  have safe': "\<not> contains_unsafe_key op'"
    unfolding op' by (rule normalize_unsafe_key [OF safe])
  have "normalize_static_page_operation op' = op'"
    unfolding op' by (rule normalize_idem [OF assms(1)])
  then have "sanitize_static_page_operation op' = Ok op'"
    using safe' t by (simp add: sanitize_static_page_operation_def)
  with safe' t show ?thesis by (auto simp: unsafe_key_iff)
qed

lemmas sanitize_defs = sanitize_static_page_operation_def sanitize_static_page_operations_def
  normalize_object operation_renames_def chart_renames_def rename_keys_def rename_key_def in_object_def
  normalize_module_object_def normalize_data_binding_object_def static_page_operation_type_def
  trimmed_text_def trim_graphic graphic_def is_supported_operation_type_def validate_operation_def
  require_module_id_def require_non_empty_string_def validate_update_module_patch_def allow_keys_def
  if_present_def validate_safe_optional_string_def validate_optional_string_def validate_safe_text_def
  static_page_text_string_is_unsafe_def page_unsafe_texts_def to_ascii_lowercase_def starts_with_def
  module_chart_runtime_def given_chart_runtime_def MAX_OPERATION_COUNT_def

theorem sanitize_idempotent_witness:
  "let operation = JObject [(''module_id'', JString ''hero''), (''patch'', JObject [(''data_label'', JString ''x'')]),
         (''type'', JString ''update_module'')];
       op' = JObject [(''moduleId'', JString ''hero''), (''patch'', JObject [(''dataLabel'', JString ''x'')]),
         (''type'', JString ''update_module'')] in
   sanitize_static_page_operation operation = Ok op' \<and> sanitize_static_page_operation op' = Ok op'"
proof -
  let ?op = "JObject [(''module_id'', JString ''hero''), (''patch'', JObject [(''data_label'', JString ''x'')]),
    (''type'', JString ''update_module'')]"
  let ?op' = "JObject [(''moduleId'', JString ''hero''), (''patch'', JObject [(''dataLabel'', JString ''x'')]),
    (''type'', JString ''update_module'')]"
  have s: "sanitize_static_page_operation ?op = Ok ?op'"
    by (simp add: sanitize_defs)
  have w: "json_wf ?op" by simp
  from sanitize_idempotent [OF w s] s show ?thesis by simp
qed

end
