(* ===== verification/Static_Page_Payload.thy ===== *)
theory Static_Page_Payload
  imports Static_Page_Operations Domain_Model
begin

text \<open>
  The payload of a static page draft in \<open>platform-api\<close>: applying one sanitised operation
  (\<open>apply_static_page_operation_to_payload\<close>), merging a patch into a module, the order of the
  modules on a mobile page, and the contract that ties a preview image to the design it shows.
\<close>

section \<open>Applying operations\<close>

definition ensure_json_object :: "json \<Rightarrow> json_map" where
  "ensure_json_object v = (case v of JObject m \<Rightarrow> m | _ \<Rightarrow> [])"

definition set_payload_value :: "string \<Rightarrow> json \<Rightarrow> json \<Rightarrow> json" where
  "set_payload_value key v payload = JObject (map_insert key v (ensure_json_object payload))"

definition set_payload_string :: "string \<Rightarrow> string \<Rightarrow> json \<Rightarrow> json" where
  "set_payload_string key v = set_payload_value key (JString v)"

function (sequential) merge_json_value :: "json \<Rightarrow> json \<Rightarrow> json"
and merge_entries :: "json_map \<Rightarrow> json_map \<Rightarrow> json_map" where
  "merge_json_value (JObject target) (JObject patch) = JObject (merge_entries target patch)"
| "merge_json_value target patch = patch"
| "merge_entries target [] = target"
| "merge_entries target ((key, v) # patch) =
     merge_entries
       (case map_of target key of
          Some existing \<Rightarrow> map_insert key (merge_json_value existing v) target
        | None \<Rightarrow> map_insert key v target) patch"
  by pat_completeness auto
termination
  by (relation "measure (\<lambda>x. case x of Inl (t, p) \<Rightarrow> size p
    | Inr (t, p) \<Rightarrow> size_list (size_prod (\<lambda>_. 0) size) p)") (auto simp: size_prod_simp [abs_def])

definition module_has_id :: "string \<Rightarrow> json \<Rightarrow> bool" where
  "module_has_id module_id m \<longleftrightarrow> Option.bind (json_get m ''id'') json_as_str = Some module_id"

fun update_first :: "('a \<Rightarrow> bool) \<Rightarrow> ('a \<Rightarrow> 'a) \<Rightarrow> 'a list \<Rightarrow> 'a list" where
  "update_first p f [] = []"
| "update_first p f (x # xs) = (if p x then f x # xs else x # update_first p f xs)"

text \<open>\<open>payload.as_object_mut().and_then(|o| o.get_mut("modules")).and_then(Value::as_array_mut)\<close>, rewritten
  in place; nothing happens when there is no such array.\<close>

definition in_modules :: "(json list \<Rightarrow> json list) \<Rightarrow> json \<Rightarrow> json" where
  "in_modules f payload =
     (case payload of
        JObject object \<Rightarrow>
          (case Option.bind (map_of object ''modules'') json_as_array of
             None \<Rightarrow> payload
           | Some ms \<Rightarrow> JObject (map_insert ''modules'' (JArray (f ms)) object))
      | _ \<Rightarrow> payload)"

definition merge_static_page_module :: "string \<Rightarrow> json \<Rightarrow> json \<Rightarrow> json" where
  "merge_static_page_module module_id patch payload =
     in_modules (update_first (module_has_id module_id) (\<lambda>m. merge_json_value m patch)) payload"

definition remove_static_page_module :: "string \<Rightarrow> json \<Rightarrow> json" where
  "remove_static_page_module module_id payload =
     in_modules (filter (\<lambda>m. \<not> module_has_id module_id m)) payload"

definition push_static_page_module :: "json \<Rightarrow> json \<Rightarrow> json" where
  "push_static_page_module m payload =
     (let object = ensure_json_object payload;
          items = (case Option.bind (map_of object ''modules'') json_as_array of None \<Rightarrow> [] | Some ms \<Rightarrow> ms) in
      JObject (map_insert ''modules'' (JArray (items @ [m])) object))"

definition static_page_operation_module_id :: "json \<Rightarrow> string option" where
  "static_page_operation_module_id operation =
     trimmed_text (or_else (json_get operation ''targetModuleId'') (json_get operation ''moduleId''))"

definition get_or_null :: "json \<Rightarrow> string \<Rightarrow> json" where
  "get_or_null v key = unwrap_or JNull (json_get v key)"

text \<open>The default queue message, as UTF-8.\<close>

definition default_queue_message :: string where
  "default_queue_message = map byte [232, 181, 132, 230, 186, 144, 230, 173, 163, 229, 156, 168, 230, 142, 146, 233, 152, 159, 239, 188, 140, 229, 143, 175, 228, 187, 165, 232, 129, 148, 231, 179, 187, 229, 149, 134, 229, 138, 161, 229, 188, 128, 233, 128, 154, 233, 171, 152, 231, 186, 167, 231, 148, 168, 230, 136, 183, 232, 183, 179, 232, 191, 135, 231, 173, 137, 229, 190, 133, 227, 128, 130]"

text \<open>\<open>now\<close> is the text that \<open>Utc::now()\<close> serialises to.\<close>

definition apply_static_page_operation_to_payload :: "string \<Rightarrow> json \<Rightarrow> json \<Rightarrow> json" where
  "apply_static_page_operation_to_payload now payload operation =
     (let get = json_get operation; text = (\<lambda>v. Option.bind v json_as_str);
          module_id = static_page_operation_module_id operation in
      case static_page_operation_type operation of
        None \<Rightarrow> payload
      | Some t \<Rightarrow>
        if t = ''change_style_direction'' then
          (case text (or_else (get ''styleDirection'') (get ''style_direction'')) of
             None \<Rightarrow> payload
           | Some style \<Rightarrow> set_payload_string ''style_direction'' style
               (set_payload_string ''styleDirection'' style payload))
        else if t = ''refresh_summary'' then
          (case text (or_else (get ''modelSummary'') (get ''model_summary'')) of
             None \<Rightarrow> payload
           | Some summary \<Rightarrow> set_payload_string ''model_summary'' summary
               (set_payload_string ''modelSummary'' summary payload))
        else if t = ''update_module'' then
          (case (module_id, get ''patch'') of
             (Some i, Some patch) \<Rightarrow> merge_static_page_module i patch payload
           | _ \<Rightarrow> payload)
        else if t = ''change_visualization'' then
          (case (module_id, text (get ''visualizationType'')) of
             (Some i, Some vt) \<Rightarrow>
               let v = JObject [(''type'', JString vt)];
                   v = (case get ''chartRuntime'' of None \<Rightarrow> v | Some r \<Rightarrow> set_payload_value ''chartRuntime'' r v);
                   v = (case get ''chartOptions'' of None \<Rightarrow> v | Some c \<Rightarrow> set_payload_value ''chartOptions'' c v) in
               merge_static_page_module i (JObject [(''visualization'', v)]) payload
           | _ \<Rightarrow> payload)
        else if t = ''change_data_binding'' then
          (case (module_id, get ''dataBinding'') of
             (Some i, Some b) \<Rightarrow> merge_static_page_module i (JObject [(''dataBinding'', b)]) payload
           | _ \<Rightarrow> payload)
        else if t = ''add_module'' then
          (case get ''module'' of None \<Rightarrow> payload | Some m \<Rightarrow> push_static_page_module m payload)
        else if t = ''remove_module'' then
          (case module_id of None \<Rightarrow> payload | Some i \<Rightarrow> remove_static_page_module i payload)
        else if t = ''move_module'' \<or> t = ''resize_module'' then
          (case (module_id, or_else (get ''layout'') (get ''patch'')) of
             (Some i, Some layout) \<Rightarrow> merge_static_page_module i (JObject [(''layout'', layout)]) payload
           | _ \<Rightarrow> payload)
        else if t = ''reorder_modules'' then
          (case Option.bind (get ''order'') json_as_array of
             None \<Rightarrow> payload
           | Some order \<Rightarrow> set_payload_value ''mobile_order'' (JArray order)
               (set_payload_value ''mobileOrder'' (JArray order) payload))
        else if t = ''queue_image_job'' then
          set_payload_value ''previewContract'' (JObject (json_object
            [(''status'', JString ''queued''), (''imageJobId'', get_or_null operation ''jobId''),
             (''assetKey'', JNull), (''queuePosition'', get_or_null operation ''queuePosition''),
             (''confirmedAt'', JNull)]))
          (set_payload_value ''imageJob'' (JObject (json_object
            [(''id'', get_or_null operation ''jobId''), (''status'', JString ''queued''),
             (''queuePosition'', get_or_null operation ''queuePosition''),
             (''queueMessage'', JString (unwrap_or default_queue_message (text (get ''queueMessage''))))]))
          (set_payload_string ''status'' ''queued'' payload))
        else if t = ''mark_preview_ready'' then
          let payload = set_payload_string ''status'' ''preview_ready'' payload in
          (case get ''previewImage'' of
             None \<Rightarrow> payload
           | Some preview \<Rightarrow>
               set_payload_value ''previewContract'' (JObject (json_object
                 [(''status'', JString ''preview_ready''), (''imageJobId'', get_or_null preview ''imageJobId''),
                  (''assetKey'', get_or_null preview ''assetKey''), (''queuePosition'', JNull)]))
               (set_payload_value ''previewImage'' preview payload))
        else if t = ''confirm_preview'' then
          let payload = set_payload_string ''status'' ''effect_confirmed'' payload in
          (case get ''previewImage'' of
             None \<Rightarrow> payload
           | Some preview \<Rightarrow>
               set_payload_value ''previewContract'' (JObject (json_object
                 [(''status'', JString ''confirmed''), (''imageJobId'', get_or_null preview ''imageJobId''),
                  (''assetKey'', get_or_null preview ''assetKey''), (''queuePosition'', JNull),
                  (''confirmedAt'', JString now)]))
               (set_payload_value ''previewImage'' preview payload))
        else if t = ''reset_image_job'' then
          set_payload_value ''previewContract'' (JObject (json_object
            [(''status'', JString ''not_requested''), (''imageJobId'', JNull), (''assetKey'', JNull),
             (''queuePosition'', JNull), (''confirmedAt'', JNull)]))
          (set_payload_value ''finalPage'' JNull
          (set_payload_value ''previewImage'' JNull
          (set_payload_value ''imageJob'' (JObject (json_object
            [(''id'', JNull), (''status'', JString ''idle''), (''queuePosition'', JNull),
             (''queueMessage'', JString [])]))
          (set_payload_string ''status'' ''planning'' payload))))
        else if t = ''reset_final_render'' then
          let payload = set_payload_value ''finalPage'' JNull
                (set_payload_string ''status'' ''effect_confirmed'' payload);
              asset_key = unwrap_or JNull (Option.bind (json_get payload ''previewImage'')
                (\<lambda>preview. json_get preview ''assetKey'')) in
          set_payload_value ''previewContract'' (JObject (json_object
            [(''status'', JString ''confirmed''), (''assetKey'', asset_key), (''queuePosition'', JNull)])) payload
        else if t = ''request_final_render'' then
          let payload = set_payload_string ''status'' ''rendering'' payload in
          (case or_else (get ''finalPage'') (get ''payload'') of
             None \<Rightarrow> payload
           | Some page \<Rightarrow> set_payload_value ''finalPage'' page payload)
        else payload)"

definition mark_static_page_payload_preview_stale :: "json \<Rightarrow> json" where
  "mark_static_page_payload_preview_stale payload =
     JObject (in_object ''image_job'' (map_insert ''status'' (JString ''stale''))
       (in_object ''imageJob'' (map_insert ''status'' (JString ''stale''))
         (map_insert ''status'' (JString ''planning'')
           (fold map_remove [''previewImage'', ''preview_image'', ''finalPage'', ''final_page'']
             (ensure_json_object payload)))))"

definition status_from_static_page_payload :: "json \<Rightarrow> StaticPageDraftStatus option" where
  "status_from_static_page_payload payload =
     (case map_option trim (Option.bind (json_get payload ''status'') json_as_str) of
        None \<Rightarrow> None
      | Some s \<Rightarrow>
          map_of [(''draft'', StaticPageDraftStatus.Draft), (''planning'', StaticPageDraftStatus.Planned), (''planned'', StaticPageDraftStatus.Planned),
            (''queued'', StaticPageDraftStatus.Queued), (''preview_ready'', StaticPageDraftStatus.Previewed), (''previewed'', StaticPageDraftStatus.Previewed),
            (''effect_confirmed'', StaticPageDraftStatus.Confirmed), (''confirmed'', StaticPageDraftStatus.Confirmed), (''rendering'', StaticPageDraftStatus.Rendered),
            (''rendered'', StaticPageDraftStatus.Rendered), (''archived'', StaticPageDraftStatus.Archived)] s)"

definition status_from_static_page_operations :: "json list \<Rightarrow> StaticPageDraftStatus option" where
  "status_from_static_page_operations operations =
     fold (\<lambda>operation status.
       case static_page_operation_type operation of
         None \<Rightarrow> status
       | Some t \<Rightarrow>
           if t = ''queue_image_job'' then Some StaticPageDraftStatus.Queued
           else if t = ''mark_preview_ready'' then Some StaticPageDraftStatus.Previewed
           else if t = ''confirm_preview'' then Some StaticPageDraftStatus.Confirmed
           else if t = ''reset_final_render'' then Some StaticPageDraftStatus.Confirmed
           else if t = ''request_final_render'' then Some StaticPageDraftStatus.Rendered
           else Some (unwrap_or StaticPageDraftStatus.Planned status)) operations None"

section \<open>Sanitised operations keep the checked fields safe\<close>

text \<open>
  The fields of a module that the sanitiser looks into: its texts, the texts of the data binding the
  readers use (\<open>dataBinding\<close>, or \<open>data_binding\<close> when there is none), the label of its visualization, and
  the chart options and rows of both. It does not look into \<open>layout\<close>, into the \<open>evidenceIds\<close> of a binding
  or into a \<open>data_binding\<close> that stands beside a \<open>dataBinding\<close> (\<open>unchecked_fields_stored\<close>).
\<close>

definition object_all :: "(json_map \<Rightarrow> bool) \<Rightarrow> json \<Rightarrow> bool" where
  "object_all P v = (case v of JObject o' \<Rightarrow> P o' | _ \<Rightarrow> True)"

definition texts_safe :: "string list \<Rightarrow> json_map \<Rightarrow> bool" where
  "texts_safe ks m \<longleftrightarrow> (\<forall>k \<in> set ks. \<forall>s. map_of m k = Some (JString s) \<longrightarrow>
     \<not> static_page_text_string_is_unsafe s)"

definition charts_clean :: "string list \<Rightarrow> json_map \<Rightarrow> bool" where
  "charts_clean ks m \<longleftrightarrow> (\<forall>k \<in> set ks. \<forall>v. map_of m k = Some v \<longrightarrow> chart_clean v)"

definition binding_safe :: "json \<Rightarrow> bool" where
  "binding_safe = object_all (texts_safe data_binding_texts)"

definition visualization_safe :: "json \<Rightarrow> bool" where
  "visualization_safe = object_all (\<lambda>m. texts_safe [''label''] m \<and> charts_clean (''chartOptions'' # row_keys) m)"

definition module_fields_safe :: "json \<Rightarrow> bool" where
  "module_fields_safe = object_all (\<lambda>m. texts_safe module_texts m \<and> charts_clean (''chartOptions'' # row_keys) m \<and>
     (\<forall>v. or_else (map_of m ''dataBinding'') (map_of m ''data_binding'') = Some v \<longrightarrow> binding_safe v) \<and>
     (\<forall>v. map_of m ''visualization'' = Some v \<longrightarrow> visualization_safe v))"

definition payload_fields_safe :: "json \<Rightarrow> bool" where
  "payload_fields_safe payload \<longleftrightarrow>
     (\<forall>ms. json_get payload ''modules'' = Some (JArray ms) \<longrightarrow> (\<forall>m \<in> set ms. module_fields_safe m))"

subsection \<open>Merging\<close>

lemma merge_entries_lookup:
  "distinct (map fst p) \<Longrightarrow> map_of (merge_entries t p) k =
    (case map_of p k of
       None \<Rightarrow> map_of t k
     | Some v \<Rightarrow> Some (case map_of t k of None \<Rightarrow> v | Some e \<Rightarrow> merge_json_value e v))"
proof (induction p arbitrary: t)
  case (Cons kv p)
  obtain k' v where kv: "kv = (k', v)" by (cases kv)
  have "map_of p k' = None" using Cons.prems by (simp add: kv map_of_eq_None_iff)
  with Cons show ?case
    by (auto simp: kv split: option.splits)
qed simp

lemma merge_string: "merge_json_value e v = JString s \<Longrightarrow> v = JString s"
  by (cases e; cases v) auto

lemma merge_object: "merge_json_value e v = JObject m \<Longrightarrow>
    v = JObject m \<or> (\<exists>t p. e = JObject t \<and> v = JObject p \<and> m = merge_entries t p)"
  by (cases e; cases v) auto

lemma clean_insert:
  "chart_clean (JObject m) \<Longrightarrow> \<not> chart_option_key_is_unsafe k \<Longrightarrow> chart_clean v \<Longrightarrow>
    chart_clean (JObject (map_insert k v m))"
  using set_map_insert [of k v m] by auto

lemma merge_clean:
  "chart_clean e \<Longrightarrow> chart_clean v \<Longrightarrow> chart_clean (merge_json_value e v)"
  "chart_clean (JObject t) \<Longrightarrow> chart_clean (JObject p) \<Longrightarrow> chart_clean (JObject (merge_entries t p))"
proof (induction e v and t p rule: merge_json_value_merge_entries.induct)
  case (4 target key v patch)
  let ?t = "case map_of target key of Some existing \<Rightarrow> map_insert key (merge_json_value existing v) target
    | None \<Rightarrow> map_insert key v target"
  have key: "\<not> chart_option_key_is_unsafe key" "chart_clean v" and patch: "chart_clean (JObject patch)"
    using 4(4) by simp_all
  have "chart_clean (JObject ?t)"
  proof (cases "map_of target key")
    case None
    then show ?thesis using clean_insert [OF 4(3) key] by simp
  next
    case (Some e)
    then have "chart_clean e" using 4(3) by (auto dest!: map_of_SomeD)
    then have "chart_clean (merge_json_value e v)" by (rule 4(1) [OF Some _ key(2)])
    then show ?thesis using clean_insert [OF 4(3) key(1)] Some by simp
  qed
  then have "chart_clean (JObject (merge_entries ?t patch))"
    by (rule 4(2) [OF _ patch])
  then show ?case by (simp only: merge_entries.simps)
qed (simp_all del: chart_clean_simps(3))

lemma texts_safe_merge:
  assumes "distinct (map fst p)" and "texts_safe ks t" and "texts_safe ks p"
  shows "texts_safe ks (merge_entries t p)"
  unfolding texts_safe_def
proof (intro ballI allI impI)
  fix k s
  assume k: "k \<in> set ks" and m: "map_of (merge_entries t p) k = Some (JString s)"
  show "\<not> static_page_text_string_is_unsafe s"
  proof (cases "map_of p k")
    case None
    then show ?thesis
      using assms(2) k m by (simp add: merge_entries_lookup [OF assms(1)] texts_safe_def)
  next
    case (Some v)
    then have "v = JString s"
      using m by (auto simp: merge_entries_lookup [OF assms(1)] dest: merge_string split: option.splits)
    then show ?thesis
      using assms(3) k Some by (simp add: texts_safe_def)
  qed
qed

lemma charts_clean_merge:
  assumes "distinct (map fst p)" and "charts_clean ks t" and "charts_clean ks p"
  shows "charts_clean ks (merge_entries t p)"
  using assms(2,3) unfolding charts_clean_def merge_entries_lookup [OF assms(1)]
  by (auto intro: merge_clean split: option.splits)

lemma object_all_merge:
  assumes "object_all P e" and "object_all P v" and "json_wf v"
    and "\<And>t p. distinct (map fst p) \<Longrightarrow> json_wf (JObject p) \<Longrightarrow> P t \<Longrightarrow> P p \<Longrightarrow> P (merge_entries t p)"
  shows "object_all P (merge_json_value e v)"
proof (cases "\<exists>t p. e = JObject t \<and> v = JObject p")
  case True
  then obtain t p where tp: "e = JObject t" "v = JObject p" by blast
  then have "distinct (map fst p)"
    using assms(3) by (auto simp: keys_sorted_def strict_sorted_iff)
  then show ?thesis
    using assms tp by (simp add: object_all_def del: json_wf.simps)
next
  case False
  then have "merge_json_value e v = v" by (cases e; cases v) auto
  then show ?thesis using assms(2) by simp
qed

lemma binding_safe_merge: "binding_safe e \<Longrightarrow> binding_safe v \<Longrightarrow> json_wf v \<Longrightarrow> binding_safe (merge_json_value e v)"
  unfolding binding_safe_def by (rule object_all_merge) (simp_all add: texts_safe_merge)

lemma visualization_safe_merge:
  "visualization_safe e \<Longrightarrow> visualization_safe v \<Longrightarrow> json_wf v \<Longrightarrow> visualization_safe (merge_json_value e v)"
  unfolding visualization_safe_def
  by (rule object_all_merge) (simp_all add: texts_safe_merge charts_clean_merge)

lemma module_fields_safe_merge:
  "module_fields_safe e \<Longrightarrow> module_fields_safe v \<Longrightarrow> json_wf v \<Longrightarrow> module_fields_safe (merge_json_value e v)"
  unfolding module_fields_safe_def
proof (rule object_all_merge, assumption+)
  fix t p
  let ?P = "\<lambda>m. texts_safe module_texts m \<and> charts_clean (''chartOptions'' # row_keys) m \<and>
     (\<forall>v. or_else (map_of m ''dataBinding'') (map_of m ''data_binding'') = Some v \<longrightarrow> binding_safe v) \<and>
     (\<forall>v. map_of m ''visualization'' = Some v \<longrightarrow> visualization_safe v)"
  assume d: "distinct (map fst p)" and wf: "json_wf (JObject p)" and t: "?P t" and p: "?P p"
  have "binding_safe v" if "or_else (map_of (merge_entries t p) ''dataBinding'')
      (map_of (merge_entries t p) ''data_binding'') = Some v" for v
    using that t p json_wf_lookup [OF wf] unfolding merge_entries_lookup [OF d]
    by (auto simp: or_else_def intro: binding_safe_merge split: option.splits)
  moreover have "visualization_safe v" if "map_of (merge_entries t p) ''visualization'' = Some v" for v
    using that t p json_wf_lookup [OF wf] unfolding merge_entries_lookup [OF d]
    by (auto intro: visualization_safe_merge split: option.splits)
  ultimately show "?P (merge_entries t p)"
    using t p d by (simp add: texts_safe_merge charts_clean_merge)
qed

subsection \<open>What the validators guarantee\<close>

lemma allow_keys_lookup: "allow_keys ks msg m = Ok u \<Longrightarrow> k \<notin> set ks \<Longrightarrow> map_of m k = None"
  by (auto simp: allow_keys_def map_of_eq_None_iff split: if_splits)

lemma safe_optional_string: "validate_safe_optional_string (JString s) field = Ok u \<Longrightarrow>
    \<not> static_page_text_string_is_unsafe s"
  by (auto simp: validate_safe_optional_string_def validate_safe_text_def elim!: and_then_OkE split: if_splits)

lemma if_presentD: "if_present m k f = Ok u \<Longrightarrow> map_of m k = Some v \<Longrightarrow> f v = Ok u"
  by (simp add: if_present_def)

lemma texts_checked:
  assumes "\<forall>k \<in> set ks'. if_present m k (\<lambda>v. validate_safe_optional_string v (field @ k)) = Ok ()"
    and "\<And>k. k \<in> set ks - set ks' \<Longrightarrow> map_of m k = None"
  shows "texts_safe ks m"
  unfolding texts_safe_def
proof (intro ballI allI impI)
  fix k s
  assume k: "k \<in> set ks" "map_of m k = Some (JString s)"
  then have "k \<in> set ks'" using assms(2) [of k] by auto
  then have "validate_safe_optional_string (JString s) (field @ k) = Ok ()"
    using assms(1) if_presentD [OF _ k(2)] by blast
  then show "\<not> static_page_text_string_is_unsafe s" by (rule safe_optional_string)
qed

lemma data_binding_checked: "validate_data_binding v = Ok u \<Longrightarrow> binding_safe v"
proof (cases v)
  case (JObject m)
  assume "validate_data_binding v = Ok u"
  then have "\<forall>k \<in> set data_binding_texts. if_present m k (\<lambda>v.
      validate_safe_optional_string v (''dataBinding.'' @ k)) = Ok ()"
    by (auto simp: JObject validate_data_binding_def elim!: and_then_OkE)
  then have "texts_safe data_binding_texts m" by (rule texts_checked) simp
  then show ?thesis by (simp add: JObject binding_safe_def object_all_def)
qed (simp_all add: binding_safe_def object_all_def)

lemma rows_checked:
  assumes "validate_rows m = Ok u" and "if_present m ''chartOptions'' (\<lambda>v. validate_chart_options v r) = Ok u'"
  shows "charts_clean (''chartOptions'' # row_keys) m"
  unfolding charts_clean_def
proof (intro ballI allI impI)
  fix k v
  assume k: "k \<in> set (''chartOptions'' # row_keys)" and v: "map_of m k = Some v"
  show "chart_clean v"
  proof (cases "k = ''chartOptions''")
    case True
    then show ?thesis
      using if_presentD [OF assms(2)] v chart_options_clean by blast
  next
    case False
    then have "if_present m k (\<lambda>v. validate_chart_json_value v 0) = Ok ()"
      using assms(1) k by (simp add: validate_rows_def)
    then have "validate_chart_json_value v 0 = Ok ()" by (rule if_presentD [OF _ v])
    then show ?thesis by (simp add: validate_chart_spec)
  qed
qed

lemma visualization_checked: "validate_visualization_patch v = Ok u \<Longrightarrow> visualization_safe v"
proof (cases v)
  case (JObject m)
  assume ok: "validate_visualization_patch v = Ok u"
  then obtain r where "if_present m ''label'' (\<lambda>v. validate_safe_optional_string v ''visualization.label'') = Ok ()"
    and "if_present m ''chartOptions'' (\<lambda>v. validate_chart_options v r) = Ok ()"
    and "validate_rows m = Ok ()"
    by (auto simp: JObject validate_visualization_patch_def elim!: and_then_OkE)
  then have "texts_safe [''label''] m" "charts_clean (''chartOptions'' # row_keys) m"
    by (auto simp: texts_safe_def dest: if_presentD safe_optional_string intro!: rows_checked)
  then show ?thesis by (simp add: JObject visualization_safe_def object_all_def)
qed (simp_all add: visualization_safe_def object_all_def)

lemma patch_checked:
  assumes "validate_update_module_patch operation = Ok u" and "json_get operation ''patch'' = Some p"
  shows "module_fields_safe p"
proof (cases p)
  case (JObject m)
  obtain r where keys: "allow_keys [''title'', ''content'', ''dataLabel'', ''dataBinding'', ''visualization'',
        ''chartOptions'', ''chartRuntime'', ''layout''] ''unsupported update_module patch field: '' m = Ok ()"
    and texts: "\<forall>k \<in> set [''title'', ''content'', ''dataLabel'']. if_present m k (\<lambda>v.
      validate_safe_optional_string v (''patch.'' @ k)) = Ok ()"
    and b: "if_present m ''dataBinding'' validate_data_binding = Ok ()"
    and v: "if_present m ''visualization'' validate_visualization_patch = Ok ()"
    and c: "if_present m ''chartOptions'' (\<lambda>v. validate_chart_options v r) = Ok ()"
    using assms by (auto simp: JObject validate_update_module_patch_def elim!: and_then_OkE)
  note absent = allow_keys_lookup [OF keys]
  have absent_text: "map_of m k = None" if "k \<in> set module_texts - set [''title'', ''content'', ''dataLabel'']" for k
    by (rule absent) (use that in \<open>auto simp: module_texts_def\<close>)
  have absent_row: "map_of m k = None" if "k \<in> set row_keys" for k
    by (rule absent) (use that in \<open>auto simp: row_keys_def\<close>)
  have absent_binding: "map_of m ''data_binding'' = None"
    by (rule absent) simp
  have "texts_safe module_texts m"
    by (rule texts_checked [OF texts absent_text])
  moreover have "charts_clean (''chartOptions'' # row_keys) m"
    using if_presentD [OF c] chart_options_clean by (auto simp: charts_clean_def absent_row)
  ultimately show ?thesis
    using b v by (auto simp: JObject module_fields_safe_def object_all_def absent_binding or_else_def
      dest: if_presentD data_binding_checked visualization_checked split: option.splits)
qed (simp_all add: module_fields_safe_def object_all_def)

lemma module_checked: "validate_module_contract v = Ok u \<Longrightarrow> module_fields_safe v"
proof (cases v)
  case (JObject m)
  assume ok: "validate_module_contract v = Ok u"
  then obtain r where texts: "\<forall>k \<in> set module_texts. if_present m k (\<lambda>v.
      validate_safe_optional_string v (''module.'' @ k)) = Ok ()"
    and b: "(case or_else (map_of m ''dataBinding'') (map_of m ''data_binding'') of
        None \<Rightarrow> Ok () | Some b \<Rightarrow> validate_data_binding b) = Ok ()"
    and v: "if_present m ''visualization'' validate_visualization_patch = Ok ()"
    and c: "if_present m ''chartOptions'' (\<lambda>v. validate_chart_options v r) = Ok ()"
    and rows: "validate_rows m = Ok ()"
    by (auto simp: JObject validate_module_contract_def elim!: and_then_OkE)
  have "texts_safe module_texts m" by (rule texts_checked [OF texts]) simp
  moreover have "charts_clean (''chartOptions'' # row_keys) m" by (rule rows_checked [OF rows c])
  moreover have "binding_safe x" if "or_else (map_of m ''dataBinding'') (map_of m ''data_binding'') = Some x" for x
    using b that by (simp add: data_binding_checked)
  ultimately show ?thesis
    using v by (auto simp: JObject module_fields_safe_def object_all_def dest: if_presentD visualization_checked)
qed (simp_all add: module_fields_safe_def object_all_def)

subsection \<open>Applying\<close>

lemma set_payload_safe: "payload_fields_safe p \<Longrightarrow> k \<noteq> ''modules'' \<Longrightarrow> payload_fields_safe (set_payload_value k v p)"
  by (cases p) (auto simp: payload_fields_safe_def set_payload_value_def ensure_json_object_def)

lemma set_string_safe: "payload_fields_safe p \<Longrightarrow> k \<noteq> ''modules'' \<Longrightarrow> payload_fields_safe (set_payload_string k v p)"
  by (simp add: set_payload_string_def set_payload_safe)

lemma in_modules_safe:
  assumes "payload_fields_safe p" and "\<And>ms. \<forall>m \<in> set ms. module_fields_safe m \<Longrightarrow> \<forall>m \<in> set (f ms). module_fields_safe m"
  shows "payload_fields_safe (in_modules f p)"
proof (cases p)
  case (JObject m)
  show ?thesis
  proof (cases "Option.bind (map_of m ''modules'') json_as_array")
    case (Some ms)
    then have "map_of m ''modules'' = Some (JArray ms)"
      by (auto simp: bind_eq_Some_conv elim: json_as_array.elims)
    with assms JObject Some show ?thesis
      by (auto simp: in_modules_def payload_fields_safe_def)
  qed (use assms JObject in \<open>simp add: in_modules_def\<close>)
qed (use assms in \<open>simp_all add: in_modules_def\<close>)

lemma update_first_set: "x \<in> set (update_first p f xs) \<Longrightarrow> x \<in> set xs \<or> (\<exists>y \<in> set xs. x = f y)"
  by (induction xs) (auto split: if_splits)

lemma merge_module_safe:
  assumes "payload_fields_safe p" and "module_fields_safe patch" and "json_wf patch"
  shows "payload_fields_safe (merge_static_page_module i patch p)"
  unfolding merge_static_page_module_def
  by (rule in_modules_safe [OF assms(1)])
    (auto dest!: update_first_set intro: module_fields_safe_merge assms(2,3))

lemma remove_module_safe: "payload_fields_safe p \<Longrightarrow> payload_fields_safe (remove_static_page_module i p)"
  unfolding remove_static_page_module_def by (rule in_modules_safe) auto

lemma push_module_safe: "payload_fields_safe p \<Longrightarrow> module_fields_safe m \<Longrightarrow> payload_fields_safe (push_static_page_module m p)"
proof (cases p)
  case (JObject o')
  assume safe: "payload_fields_safe p" "module_fields_safe m"
  have "module_fields_safe x" if "Option.bind (map_of o' ''modules'') json_as_array = Some ms" "x \<in> set ms" for x ms
  proof -
    have "map_of o' ''modules'' = Some (JArray ms)"
      using that(1) by (auto simp: bind_eq_Some_conv elim: json_as_array.elims)
    with safe(1) JObject that(2) show ?thesis by (simp add: payload_fields_safe_def)
  qed
  with safe(2) show ?thesis
    by (cases "Option.bind (map_of o' ''modules'') json_as_array")
      (auto simp: JObject push_static_page_module_def payload_fields_safe_def ensure_json_object_def Let_def)
qed (simp_all add: push_static_page_module_def payload_fields_safe_def ensure_json_object_def)

text \<open>A patch of one field.\<close>

lemma field_patch_safe:
  "module_fields_safe (JObject [(''layout'', v)])"
  "binding_safe v \<Longrightarrow> module_fields_safe (JObject [(''dataBinding'', v)])"
  "visualization_safe v \<Longrightarrow> module_fields_safe (JObject [(''visualization'', v)])"
  by (auto simp: module_fields_safe_def object_all_def texts_safe_def charts_clean_def module_texts_def row_keys_def
      or_else_def)

lemma json_wf_get: "json_wf v \<Longrightarrow> json_get v k = Some x \<Longrightarrow> json_wf x"
  by (cases v) (auto dest: json_wf_lookup simp del: json_wf.simps)

lemma apply_safe:
  assumes safe: "payload_fields_safe p" and wf: "json_wf operation"
    and t: "static_page_operation_type operation = Some t" and ok: "validate_operation t operation = Ok ()"
  shows "payload_fields_safe (apply_static_page_operation_to_payload now p operation)"
proof -
  have merge: "payload_fields_safe (merge_static_page_module i x p)" if "module_fields_safe x" "json_wf x" for i x
    by (rule merge_module_safe [OF safe that])
  note wf_get = json_wf_get [OF wf]
  consider (update) "t = ''update_module''" | (vis) "t = ''change_visualization''"
    | (bind) "t = ''change_data_binding''" | (add) "t = ''add_module''"
    | (layout) "t = ''move_module'' \<or> t = ''resize_module''"
    | (other) "t \<noteq> ''update_module'' \<and> t \<noteq> ''change_visualization'' \<and> t \<noteq> ''change_data_binding'' \<and>
        t \<noteq> ''add_module'' \<and> \<not> (t = ''move_module'' \<or> t = ''resize_module'')" by blast
  then show ?thesis
  proof cases
    case update
    then have "validate_update_module_patch operation = Ok ()"
      using ok by (auto simp: validate_operation_def elim!: and_then_OkE)
    then have "module_fields_safe x \<and> json_wf x" if "json_get operation ''patch'' = Some x" for x
      using patch_checked [OF _ that] wf_get [OF that] by simp
    with safe merge show ?thesis
      by (auto simp: apply_static_page_operation_to_payload_def t update split: option.splits)
  next
    case vis
    let ?v = "\<lambda>vt. let v = JObject [(''type'', JString vt)];
         v = (case json_get operation ''chartRuntime'' of None \<Rightarrow> v | Some r \<Rightarrow> set_payload_value ''chartRuntime'' r v) in
      case json_get operation ''chartOptions'' of None \<Rightarrow> v | Some c \<Rightarrow> set_payload_value ''chartOptions'' c v"
    have clean: "chart_clean c" if "json_get operation ''chartOptions'' = Some c" for c
      using ok that by (auto simp: vis validate_operation_def elim!: and_then_OkE split: if_splits
        dest: chart_options_clean)
    have "visualization_safe (?v vt) \<and> json_wf (?v vt)" for vt
      using clean wf_get by (auto simp: visualization_safe_def object_all_def texts_safe_def charts_clean_def
        row_keys_def set_payload_value_def ensure_json_object_def Let_def split: option.splits)
    then have "payload_fields_safe (merge_static_page_module i (JObject [(''visualization'', ?v vt)]) p)" for i vt
      by (intro merge field_patch_safe) auto
    then show ?thesis
      using safe by (simp add: apply_static_page_operation_to_payload_def t vis Let_def split: option.splits)
  next
    case bind
    have "binding_safe b \<and> json_wf b" if "json_get operation ''dataBinding'' = Some b" for b
      using ok that wf_get by (auto simp: bind validate_operation_def elim!: and_then_OkE
        dest: data_binding_checked)
    then have "payload_fields_safe (merge_static_page_module i (JObject [(''dataBinding'', b)]) p)"
      if "json_get operation ''dataBinding'' = Some b" for i b
      using that by (intro merge field_patch_safe) auto
    then show ?thesis
      using safe by (simp add: apply_static_page_operation_to_payload_def t bind split: option.splits)
  next
    case add
    have "module_fields_safe m" if "json_get operation ''module'' = Some m" for m
      using ok that by (auto simp: add validate_operation_def elim!: and_then_OkE dest: module_checked)
    then show ?thesis
      using safe by (auto simp: apply_static_page_operation_to_payload_def t add push_module_safe
        split: option.splits)
  next
    case layout
    have "payload_fields_safe (merge_static_page_module i (JObject [(''layout'', l)]) p)"
      if "or_else (json_get operation ''layout'') (json_get operation ''patch'') = Some l" for i l
      using that wf_get by (intro merge field_patch_safe) (auto simp: or_else_def split: option.splits)
    then show ?thesis
      using safe layout
      by (elim disjE) (simp_all add: apply_static_page_operation_to_payload_def t Let_def split: option.splits)
  next
    case other
    then show ?thesis
      using safe by (simp add: apply_static_page_operation_to_payload_def t Let_def set_payload_safe
        set_string_safe remove_module_safe split: option.splits)
  qed
qed

text \<open>Accepted operations that store script-like text: in \<open>layout\<close>, in \<open>evidenceIds\<close>, and in a \<open>data_binding\<close>
  beside a \<open>dataBinding\<close>.\<close>

definition script_text :: json where
  "script_text = JString ''<script>''"

definition script_operations :: "json list" where
  "script_operations =
     [JObject [(''module'', JObject [(''dataBinding'', JObject []),
          (''data_binding'', JObject [(''label'', script_text)]), (''id'', JString ''m'')]),
        (''type'', JString ''add_module'')],
      JObject [(''layout'', JObject [(''x'', script_text)]), (''moduleId'', JString ''m''),
        (''type'', JString ''move_module'')],
      JObject [(''dataBinding'', JObject [(''evidenceIds'', JArray [script_text])]), (''moduleId'', JString ''m''),
        (''type'', JString ''change_data_binding'')]]"

lemma unchecked_fields_stored:
  "static_page_text_string_is_unsafe ''<script>''"
  "sanitize_static_page_operations script_operations = Ok script_operations"
  "fold (\<lambda>op p. apply_static_page_operation_to_payload now p op) script_operations (JObject [(''modules'', JArray [])]) =
     JObject [(''modules'', JArray [JObject [(''dataBinding'', JObject [(''evidenceIds'', JArray [script_text])]),
       (''data_binding'', JObject [(''label'', script_text)]), (''id'', JString ''m''),
       (''layout'', JObject [(''x'', script_text)])]])]"
proof -
  show "static_page_text_string_is_unsafe ''<script>''"
    by (simp add: sanitize_defs)
  show "sanitize_static_page_operations script_operations = Ok script_operations"
    by (simp add: script_operations_def script_text_def sanitize_defs validate_module_contract_def
        validate_data_binding_def data_binding_texts_def module_texts_def validate_rows_def row_keys_def or_else_def)
  show "fold (\<lambda>op p. apply_static_page_operation_to_payload now p op) script_operations (JObject [(''modules'', JArray [])]) =
     JObject [(''modules'', JArray [JObject [(''dataBinding'', JObject [(''evidenceIds'', JArray [script_text])]),
       (''data_binding'', JObject [(''label'', script_text)]), (''id'', JString ''m''),
       (''layout'', JObject [(''x'', script_text)])]])]"
    by (simp add: script_operations_def script_text_def apply_static_page_operation_to_payload_def
        push_static_page_module_def merge_static_page_module_def in_modules_def module_has_id_def
        static_page_operation_module_id_def static_page_operation_type_def trimmed_text_def trim_graphic
        graphic_def ensure_json_object_def or_else_def Let_def)
qed

text \<open>C12: sanitising and applying compose to a draft whose checked fields are safe. When the checked fields of the
  modules of a draft (the texts of a module, the texts of the data binding that is read, the label of
  the visualization, chart options and rows) contain no script-like text and no unclean chart, this is
  still so after any list of operations that the sanitiser let through has been applied. Nothing is said
  of \<open>layout\<close>, \<open>evidenceIds\<close> and a \<open>data_binding\<close> beside a \<open>dataBinding\<close>, which are stored unchecked.\<close>

theorem checked_fields_stay_safe:
  assumes "\<forall>operation \<in> set operations. json_wf operation"
    and "sanitize_static_page_operations operations = Ok ops" and "payload_fields_safe payload"
  shows "length ops \<le> 24 \<and>
    payload_fields_safe (fold (\<lambda>op p. apply_static_page_operation_to_payload now p op) ops payload)"
proof -
  have "MAX_OPERATION_COUNT \<ge> length operations"
    and all2: "list_all2 (\<lambda>x y. sanitize_static_page_operation x = Ok y) operations ops"
    using assms(2) by (auto simp: sanitize_static_page_operations_def collect_map_Ok split: if_splits)
  then have len: "length ops \<le> 24"
    by (auto simp: MAX_OPERATION_COUNT_def dest: list_all2_lengthD)
  have "payload_fields_safe (fold (\<lambda>op p. apply_static_page_operation_to_payload now p op) ops payload)"
    using all2 assms(1,3)
  proof (induction operations ops arbitrary: payload rule: list_all2_induct)
    case (Cons x xs y ys)
    obtain t where "y = normalize_static_page_operation x"
      and "static_page_operation_type y = Some t" "validate_operation t y = Ok ()"
      by (rule sanitize_OkE [OF Cons.hyps(1)])
    moreover have "json_wf y" using calculation(1) Cons.prems(1) normalize_wf by simp
    ultimately have "payload_fields_safe (apply_static_page_operation_to_payload now payload y)"
      using Cons.prems(2) by (intro apply_safe)
    with Cons show ?case by simp
  qed simp
  with len show ?thesis by simp
qed

theorem checked_fields_stay_safe_witness:
  "payload_fields_safe (apply_static_page_operation_to_payload ''now''
     (JObject [(''modules'', JArray [JObject [(''id'', JString ''hero''), (''title'', JString ''Sales'')]])])
     (JObject [(''moduleId'', JString ''hero''), (''patch'', JObject [(''dataLabel'', JString ''x'')]),
         (''type'', JString ''update_module'')]))"
proof -
  let ?op = "JObject [(''moduleId'', JString ''hero''), (''patch'', JObject [(''dataLabel'', JString ''x'')]),
    (''type'', JString ''update_module'')]"
  let ?p = "JObject [(''modules'', JArray [JObject [(''id'', JString ''hero''), (''title'', JString ''Sales'')]])]"
  have s: "sanitize_static_page_operations [?op] = Ok [?op]"
    by (simp add: sanitize_defs)
  have w: "\<forall>operation \<in> set [?op]. json_wf operation" by simp
  have u: "\<not> static_page_text_string_is_unsafe ''hero''" "\<not> static_page_text_string_is_unsafe ''Sales''"
    by (simp_all add: sanitize_defs)
  then have "payload_fields_safe ?p"
    by (auto simp: payload_fields_safe_def module_fields_safe_def object_all_def texts_safe_def charts_clean_def
      module_texts_def row_keys_def or_else_def)
  from checked_fields_stay_safe [OF w s this, of "''now''"] show ?thesis by simp
qed

section \<open>Module order and preview contract\<close>

definition trimmed_ids :: "json list \<Rightarrow> string list" where
  "trimmed_ids items = List.map_filter (\<lambda>m. trimmed_text (json_get m ''id'')) items"

definition static_page_payload_value :: "json \<Rightarrow> string list \<Rightarrow> json option" where
  "static_page_payload_value payload keys =
     fold (\<lambda>key found. or_else found (json_get payload key)) keys None"

fun keep_new :: "string list \<Rightarrow> string list \<Rightarrow> string list" where
  "keep_new seen [] = []"
| "keep_new seen (i # ids) = (if i \<in> set seen then keep_new seen ids else i # keep_new (i # seen) ids)"

definition static_page_payload_mobile_order :: "json \<Rightarrow> json \<Rightarrow> json" where
  "static_page_payload_mobile_order payload modules =
     (let module_ids = (case json_as_array modules of None \<Rightarrow> [] | Some items \<Rightarrow> trimmed_ids items);
          requested = (case Option.bind (static_page_payload_value payload [''mobileOrder'', ''mobile_order'']) json_as_array of
              None \<Rightarrow> []
            | Some items \<Rightarrow> filter (\<lambda>i. i \<in> set module_ids) (List.map_filter (\<lambda>v. trimmed_text (Some v)) items)) in
      JArray (map JString (keep_new [] (requested @ module_ids))))"

lemma keep_new_set: "set (keep_new seen ids) = set ids - set seen"
  by (induction seen ids rule: keep_new.induct) auto

lemma keep_new_distinct: "distinct (keep_new seen ids)"
  by (induction seen ids rule: keep_new.induct) (auto simp: keep_new_set)

text \<open>The hash of the design: 32-bit arithmetic that wraps, printed with eight hexadecimal digits.\<close>

definition hex_digit :: "nat \<Rightarrow> char" where
  "hex_digit n = char_of (if n < 10 then 48 + n else 87 + n)"

definition hex8 :: "32 word \<Rightarrow> string" where
  "hex8 w = map (\<lambda>i. hex_digit (unat w div 16 ^ i mod 16)) (rev [0..<8])"

text \<open>\<open>to_string\<close> is \<open>serde_json::to_string\<close>.\<close>

definition static_page_design_fingerprint :: "(json \<Rightarrow> string) \<Rightarrow> json \<Rightarrow> string" where
  "static_page_design_fingerprint to_string v =
     ''design-'' @ hex8 (fold (\<lambda>b h. h * 31 + of_nat (of_char b)) (to_string v) 0)"

definition static_page_preview_contract_is_stale :: "json \<Rightarrow> string \<Rightarrow> bool" where
  "static_page_preview_contract_is_stale previous next_fingerprint =
     (case trimmed_text (or_else (json_get previous ''draftFingerprint'') (json_get previous ''draft_fingerprint'')) of
        None \<Rightarrow> False
      | Some f \<Rightarrow>
          f \<noteq> next_fingerprint \<and>
          (case map_option trim (Option.bind (json_get previous ''status'') json_as_str) of
             None \<Rightarrow> False
           | Some st \<Rightarrow> st \<in> {''queued'', ''running'', ''preview_ready'', ''confirmed'', ''rendering'', ''rendered''}))"

definition mark_static_page_preview_contract_stale :: "string \<Rightarrow> string \<Rightarrow> json \<Rightarrow> json" where
  "mark_static_page_preview_contract_stale now reason contract =
     set_payload_string ''staleAt'' now
       (set_payload_string ''staleReason'' reason
         (set_payload_value ''confirmedAt'' JNull
           (set_payload_value ''assetKey'' JNull
             (set_payload_value ''imageJobId'' JNull
               (set_payload_string ''status'' ''stale'' contract)))))"

definition fresh_preview_contract :: "string \<Rightarrow> json" where
  "fresh_preview_contract fingerprint = JObject (json_object
     [(''version'', JNumber (PosInt 1)), (''kind'', JString ''static-page-preview-contract''),
      (''status'', JString ''not_requested''), (''draftFingerprint'', JString fingerprint),
      (''imageJobId'', JNull), (''assetKey'', JNull), (''confirmedAt'', JNull),
      (''renderExpectation'', JString ''final HTML/CSS/SVG should reproduce the generated preview without baking editable text or charts into the image'')])"

definition build_static_page_preview_contract ::
    "(json \<Rightarrow> string) \<Rightarrow> string \<Rightarrow> string \<Rightarrow> json \<Rightarrow> json \<Rightarrow> json \<Rightarrow> json option \<Rightarrow> json" where
  "build_static_page_preview_contract to_string now style_direction modules render_spec mobile_order patch =
     (let contract_source = JObject (json_object [(''style_direction'', JString style_direction),
            (''modules'', modules), (''render_spec'', render_spec), (''mobile_order'', mobile_order)]);
          next_fingerprint = static_page_design_fingerprint to_string contract_source;
          should_mark_stale = (case patch of None \<Rightarrow> False
            | Some previous \<Rightarrow> static_page_preview_contract_is_stale previous next_fingerprint);
          contract = fresh_preview_contract next_fingerprint;
          contract = (case patch of
              None \<Rightarrow> contract
            | Some patch \<Rightarrow> set_payload_string ''draftFingerprint'' next_fingerprint (merge_json_value contract patch)) in
      if should_mark_stale
      then mark_static_page_preview_contract_stale now
        ''draft design changed after the preview was requested or confirmed'' contract
      else contract)"

text \<open>the mobile order of a page lists every module with a non-blank id exactly once, whatever order
  was requested: unknown and repeated ids are dropped and missing ones are appended.\<close>

theorem mobile_order_permutes_modules:
  "\<exists>ids. static_page_payload_mobile_order payload (JArray items) = JArray (map JString ids) \<and>
     distinct ids \<and> set ids = set (trimmed_ids items)"
proof -
  obtain requested where "static_page_payload_mobile_order payload (JArray items) =
      JArray (map JString (keep_new [] (requested @ trimmed_ids items)))"
    and "set requested \<subseteq> set (trimmed_ids items)"
    by (cases "Option.bind (static_page_payload_value payload [''mobileOrder'', ''mobile_order'']) json_as_array")
      (auto simp: static_page_payload_mobile_order_def Let_def intro: that [of "[]"] that)
  then show ?thesis
    by (intro exI [of _ "keep_new [] (requested @ trimmed_ids items)"])
      (auto simp: keep_new_set keep_new_distinct)
qed

subsection \<open>The preview contract\<close>

lemma get_set_payload_value [simp]:
  "json_get (set_payload_value k v p) k' = (if k' = k then Some v else json_get p k')"
  by (cases p) (simp_all add: set_payload_value_def ensure_json_object_def)

lemma get_set_payload_string [simp]:
  "json_get (set_payload_string k v p) k' = (if k' = k then Some (JString v) else json_get p k')"
  by (simp add: set_payload_string_def)

lemma get_merge_object:
  assumes "json_wf (JObject p)"
  shows "json_get (merge_json_value (JObject t) (JObject p)) k =
    (case map_of p k of
       None \<Rightarrow> map_of t k
     | Some v \<Rightarrow> Some (case map_of t k of None \<Rightarrow> v | Some e \<Rightarrow> merge_json_value e v))"
proof -
  have "distinct (map fst p)"
    using assms by (auto simp: keys_sorted_def strict_sorted_iff)
  then show ?thesis by (simp add: merge_entries_lookup)
qed

text \<open>a preview that was queued, made or confirmed for a design does not survive a change of the
  design. When the fingerprint of the design differs from the one the previous contract records,
  the new contract is stale: it names no image job, no asset and no confirmation, and it records
  the new fingerprint. When the fingerprint is the same, status and asset are those of the
  previous contract.\<close>

theorem preview_contract_follows_design:
  fixes to_string now style modules spec order m
  defines "f \<equiv> static_page_design_fingerprint to_string (JObject (json_object
      [(''style_direction'', JString style), (''modules'', modules), (''render_spec'', spec),
       (''mobile_order'', order)]))"
    and "c \<equiv> build_static_page_preview_contract to_string now style modules spec order (Some (JObject m))"
  assumes "json_wf (JObject m)" and "map_of m ''draftFingerprint'' = Some (JString g)" and "trim g = g" and "g \<noteq> []"
    and "map_of m ''status'' = Some (JString st)"
    and "st \<in> {''queued'', ''running'', ''preview_ready'', ''confirmed'', ''rendering'', ''rendered''}"
    and "map_of m ''assetKey'' = Some a"
  shows "json_get c ''draftFingerprint'' = Some (JString f) \<and>
    (if g = f then json_get c ''status'' = Some (JString st) \<and> json_get c ''assetKey'' = Some a
     else json_get c ''status'' = Some (JString ''stale'') \<and> json_get c ''assetKey'' = Some JNull \<and>
       json_get c ''imageJobId'' = Some JNull \<and> json_get c ''confirmedAt'' = Some JNull)"
proof -
  have trim_st: "trim st = st"
    using assms(8) by (auto simp: trim_graphic graphic_def)
  have stale: "static_page_preview_contract_is_stale (JObject m) f \<longleftrightarrow> g \<noteq> f"
    using assms(4-8) trim_st by (simp add: static_page_preview_contract_is_stale_def trimmed_text_def)
  have merged: "json_get (merge_json_value (fresh_preview_contract f) (JObject m)) k = Some v"
    if "map_of m k = Some v" "k = ''status'' \<or> k = ''assetKey''" for k v
    using that unfolding fresh_preview_contract_def get_merge_object [OF assms(3)]
    by (auto simp: map_of_json_object)
  have c: "c = (let d = set_payload_string ''draftFingerprint'' f
      (merge_json_value (fresh_preview_contract f) (JObject m)) in
    if g \<noteq> f then mark_static_page_preview_contract_stale now
      ''draft design changed after the preview was requested or confirmed'' d else d)"
    using stale unfolding c_def build_static_page_preview_contract_def f_def [symmetric] Let_def by simp
  show ?thesis
    unfolding c using merged assms(7,9)
    by (simp add: mark_static_page_preview_contract_stale_def)
qed

theorem preview_contract_follows_design_witness:
  "json_get (build_static_page_preview_contract (\<lambda>_. []) ''now'' ''client-delivery'' (JArray []) JNull (JArray [])
     (Some (JObject [(''assetKey'', JString ''asset/a.png''), (''draftFingerprint'', JString ''design-old''),
       (''status'', JString ''confirmed'')]))) ''status'' = Some (JString ''stale'')"
proof -
  let ?m = "[(''assetKey'', JString ''asset/a.png''), (''draftFingerprint'', JString ''design-old''),
    (''status'', JString ''confirmed'')]"
  have "hex_digit 0 = CHR ''0''" by code_simp
  then have f: "static_page_design_fingerprint (\<lambda>_. []) x = ''design-00000000''" for x
    by (simp add: static_page_design_fingerprint_def hex8_def upt_rec)
  have t: "trim ''design-old'' = ''design-old''" by (simp add: trim_graphic graphic_def)
  from preview_contract_follows_design [of ?m "''design-old''" "''confirmed''" "JString ''asset/a.png''"
      "\<lambda>_. []" "''now''" "''client-delivery''" "JArray []" JNull "JArray []"] t
  show ?thesis by (simp add: f)
qed

end
