(* ===== verification/Resource_Access.thy ===== *)
theory Resource_Access
  imports Domain_Model Api_Error
begin

text \<open>
  Who may see a dataset and which documents may be shown in it: \<open>resource_access.rs\<close>,
  \<open>request_scope_headers.rs\<close> and the pure part of \<open>document_visibility_support.rs\<close> in
  \<open>platform-api\<close>. A request carries a user, the secret bindings it has unlocked and the local
  thread of an anonymous client. The main theorem says that a document admitted into another
  dataset is not shown to a request that could not see the dataset it comes from.
\<close>

section \<open>The scope of a request\<close>

text \<open>
  \<open>HeaderMap\<close> and \<open>HeaderValue::to_str\<close> are code of the \<open>http\<close> crate: a header map is the function
  that gives the first value of a name, and \<open>to_str\<close> an argument. So is \<open>parse_uuid\<close>, which gives
  the text of its error.
\<close>

type_synonym header_map = "string \<Rightarrow> string option"

definition ACTIVE_SECRET_BINDING_IDS_HEADER :: string where
  "ACTIVE_SECRET_BINDING_IDS_HEADER = ''x-ai-data-platform-secret-binding-ids''"

definition LOCAL_THREAD_ID_HEADER :: string where
  "LOCAL_THREAD_ID_HEADER = ''x-ai-data-platform-local-thread-id''"

definition parse_secret_binding_id ::
    "(string \<Rightarrow> (uuid, string) result) \<Rightarrow> string \<Rightarrow> (SecretBindingId, ApiError) result" where
  "parse_secret_binding_id parse_uuid entry =
     map_err (\<lambda>error. bad_request ''invalid_secret_binding_id''
       (''invalid secret binding id '' @ entry @ '': '' @ error)) (parse_uuid entry)"

definition active_secret_binding_ids_from_headers ::
    "(string \<Rightarrow> string option) \<Rightarrow> (string \<Rightarrow> (uuid, string) result) \<Rightarrow> header_map \<Rightarrow>
     (SecretBindingId list, ApiError) result" where
  "active_secret_binding_ids_from_headers to_str parse_uuid headers =
     (case headers ACTIVE_SECRET_BINDING_IDS_HEADER of
        None \<Rightarrow> Ok []
      | Some v \<Rightarrow>
          and_then (ok_or (bad_request ''invalid_secret_binding_ids_header''
            (ACTIVE_SECRET_BINDING_IDS_HEADER @ '' must be valid utf-8'')) (to_str v)) (\<lambda>raw.
          collect (map (parse_secret_binding_id parse_uuid)
            (filter (\<lambda>entry. entry \<noteq> []) (map trim (split_char (CHR '','') raw))))))"

definition local_thread_id_from_headers ::
    "(string \<Rightarrow> string option) \<Rightarrow> header_map \<Rightarrow> string option" where
  "local_thread_id_from_headers to_str headers =
     option_filter (\<lambda>v. v \<noteq> [])
       (map_option trim (Option.bind (headers LOCAL_THREAD_ID_HEADER) to_str))"

fun push_new :: "'a list \<Rightarrow> 'a list \<Rightarrow> 'a list" where
  "push_new merged [] = merged"
| "push_new merged (x # ids) =
     push_new (if x \<in> set merged then merged else merged @ [x]) ids"

definition merge_secret_binding_ids ::
    "SecretBindingId list \<Rightarrow> SecretBindingId list \<Rightarrow> SecretBindingId list" where
  "merge_secret_binding_ids left right = push_new [] (left @ right)"

section \<open>Visibility of datasets\<close>

definition owner_user_id_is_visible :: "UserId option \<Rightarrow> UserId option \<Rightarrow> bool" where
  "owner_user_id_is_visible owner_user_id current_user_id \<longleftrightarrow>
     owner_user_id = None \<or> owner_user_id = current_user_id"

definition ensure_owner_managed_resource ::
    "string \<Rightarrow> string \<Rightarrow> UserId option \<Rightarrow> UserId option \<Rightarrow> (unit, ApiError) result" where
  "ensure_owner_managed_resource resource_kind resource_id owner_user_id current_user_id =
     (if owner_user_id \<noteq> None \<and> owner_user_id \<noteq> current_user_id
      then Err (not_found (resource_kind @ ''_not_found'')
             (resource_kind @ '' '' @ resource_id @ '' was not found''))
      else Ok ())"

definition dataset_is_visible ::
    "Dataset \<Rightarrow> SecretBindingId list \<Rightarrow> UserId option \<Rightarrow> bool" where
  "dataset_is_visible dataset active_secret_binding_ids current_user_id \<longleftrightarrow>
     (case ds_owner_user_id dataset of
        Some owner_user_id \<Rightarrow> Some owner_user_id = current_user_id | None \<Rightarrow> False) \<or>
     ds_owner_user_id dataset = None \<and> ds_visibility dataset = DatasetVisibility.Public \<or>
     list_ex (\<lambda>secret_id. list_ex (\<lambda>active_id. active_id = secret_id) active_secret_binding_ids)
       (ds_default_secret_binding_ids dataset)"

definition metadata_local_only :: "json_map \<Rightarrow> bool" where
  "metadata_local_only metadata \<longleftrightarrow>
     unwrap_or False (Option.bind (map_of metadata ''local_only'') json_as_bool)"

definition metadata_local_thread_id :: "json_map \<Rightarrow> string option" where
  "metadata_local_thread_id metadata = Option.bind (map_of metadata ''local_thread_id'') json_as_str"

definition dataset_local_scope_is_visible :: "Dataset \<Rightarrow> string option \<Rightarrow> bool" where
  "dataset_local_scope_is_visible dataset local_thread_id \<longleftrightarrow>
     (if \<not> metadata_local_only (ds_metadata dataset) \<or> ds_owner_user_id dataset \<noteq> None then True
      else (case option_filter (\<lambda>v. v \<noteq> []) (metadata_local_thread_id (ds_metadata dataset)) of
              Some dataset_thread_id \<Rightarrow> Some dataset_thread_id = local_thread_id
            | None \<Rightarrow> False))"

definition dataset_is_visible_by_local_thread_scope :: "Dataset \<Rightarrow> string option \<Rightarrow> bool" where
  "dataset_is_visible_by_local_thread_scope dataset local_thread_id \<longleftrightarrow>
     ds_owner_user_id dataset = None \<and> metadata_local_only (ds_metadata dataset) \<and>
     (case option_filter (\<lambda>v. v \<noteq> []) (metadata_local_thread_id (ds_metadata dataset)) of
        Some dataset_thread_id \<Rightarrow> Some dataset_thread_id = local_thread_id
      | None \<Rightarrow> False)"

definition dataset_is_visible_for_request ::
    "Dataset \<Rightarrow> SecretBindingId list \<Rightarrow> UserId option \<Rightarrow> string option \<Rightarrow> bool" where
  "dataset_is_visible_for_request dataset active_secret_binding_ids current_user_id local_thread_id
   \<longleftrightarrow>
     dataset_is_visible dataset active_secret_binding_ids current_user_id \<and>
     dataset_local_scope_is_visible dataset local_thread_id \<or>
     dataset_is_visible_by_local_thread_scope dataset local_thread_id"

definition ensure_dataset_visible_for_request ::
    "Dataset \<Rightarrow> TenantId \<Rightarrow> SecretBindingId list \<Rightarrow> UserId option \<Rightarrow> string option \<Rightarrow>
     (unit, ApiError) result" where
  "ensure_dataset_visible_for_request dataset request_tenant_id active_secret_binding_ids
     current_user_id local_thread_id =
     (if ds_tenant_id dataset \<noteq> request_tenant_id \<or>
         \<not> dataset_is_visible_for_request dataset active_secret_binding_ids current_user_id
             local_thread_id
      then Err (not_found ''dataset_not_found''
             (''dataset '' @ uuid_text (ds_id dataset) @ '' was not found''))
      else Ok ())"

definition dataset_is_external_temporary_scope :: "Dataset \<Rightarrow> bool" where
  "dataset_is_external_temporary_scope dataset \<longleftrightarrow>
     Option.bind (map_of (ds_metadata dataset) ''scope_kind'') json_as_str =
       Some ''external_temporary''"

definition dataset_is_system_external_document_parse_source :: "Dataset \<Rightarrow> bool" where
  "dataset_is_system_external_document_parse_source dataset \<longleftrightarrow>
     (if starts_with ''external-parse-dataset-'' (ds_key dataset) then True
      else
        Option.bind (Option.bind
          (Option.bind (or_else (map_of (ds_metadata dataset) ''external_source'')
             (map_of (ds_metadata dataset) ''externalSource'')) json_as_object)
          (\<lambda>external_source.
             or_else (map_of external_source ''created_by'') (map_of external_source ''createdBy'')))
          json_as_str = Some ''external_document_parse'')"

definition dataset_is_hidden_from_standard_dataset_list :: "Dataset \<Rightarrow> bool" where
  "dataset_is_hidden_from_standard_dataset_list dataset \<longleftrightarrow>
     dataset_is_external_temporary_scope dataset \<or>
     dataset_is_system_external_document_parse_source dataset"

definition filter_visible_datasets ::
    "Dataset list \<Rightarrow> SecretBindingId list \<Rightarrow> UserId option \<Rightarrow> string option \<Rightarrow> Dataset list" where
  "filter_visible_datasets ds active_secret_binding_ids current_user_id local_thread_id =
     filter (\<lambda>dataset. dataset_is_visible_for_request dataset active_secret_binding_ids
       current_user_id local_thread_id) ds"

section \<open>Documents that may contribute to a dataset\<close>

datatype DocumentContributionScopeMismatch =
    Tenant | CanonicalDataset | Owner | Visibility | SecretBinding | LocalThread

record ExcludedDocumentContribution =
  ex_document_id :: DocumentId
  ex_reason :: DocumentContributionScopeMismatch

record DatasetContributionDocuments =
  dc_documents :: "Document list"
  dc_excluded :: "ExcludedDocumentContribution list"

definition dataset_local_thread_scope ::
    "Dataset \<Rightarrow> (string option, DocumentContributionScopeMismatch) result" where
  "dataset_local_thread_scope dataset =
     (if \<not> metadata_local_only (ds_metadata dataset) \<or> ds_owner_user_id dataset \<noteq> None
      then Ok None
      else ok_or LocalThread (map_option Some (option_filter (\<lambda>v. v \<noteq> [])
             (map_option trim (metadata_local_thread_id (ds_metadata dataset))))))"

definition document_local_thread_scope ::
    "Document \<Rightarrow> (string option, DocumentContributionScopeMismatch) result" where
  "document_local_thread_scope document =
     (if \<not> metadata_local_only (doc_metadata document) \<or> doc_owner_user_id document \<noteq> None
      then Ok None
      else ok_or LocalThread (map_option Some (option_filter (\<lambda>v. v \<noteq> [])
             (map_option trim (metadata_local_thread_id (doc_metadata document))))))"

definition target_scope_is_unrestricted_public :: "Dataset \<Rightarrow> bool" where
  "target_scope_is_unrestricted_public dataset \<longleftrightarrow>
     ds_owner_user_id dataset = None \<and> ds_visibility dataset = DatasetVisibility.Public \<and>
     dataset_local_thread_scope dataset = Ok None"

definition source_scope_is_unrestricted_public :: "Document \<Rightarrow> Dataset \<Rightarrow> bool" where
  "source_scope_is_unrestricted_public document dataset \<longleftrightarrow>
     doc_owner_user_id document = None \<and> doc_secret_binding_ids document = [] \<and>
     document_local_thread_scope document = Ok None \<and>
     target_scope_is_unrestricted_public dataset"

definition secret_set_is_subset :: "SecretBindingId list \<Rightarrow> SecretBindingId list \<Rightarrow> bool" where
  "secret_set_is_subset candidate_subset candidate_superset \<longleftrightarrow>
     list_all (\<lambda>candidate. candidate \<in> set candidate_superset) candidate_subset"

text \<open>The four groups of checks of \<open>document_contribution_scope_mismatch\<close>, in their order.\<close>

definition owner_scope_mismatch :: "Document \<Rightarrow> Dataset \<Rightarrow> Dataset \<Rightarrow> bool" where
  "owner_scope_mismatch document canonical_dataset target_dataset \<longleftrightarrow>
     (case doc_owner_user_id document of
        Some document_owner \<Rightarrow>
          \<not> (ds_owner_user_id canonical_dataset = Some document_owner \<or>
             ds_owner_user_id canonical_dataset = None \<and>
             ds_visibility canonical_dataset = DatasetVisibility.Public \<and>
             dataset_local_thread_scope canonical_dataset = Ok None) \<or>
          ds_owner_user_id target_dataset \<noteq> Some document_owner \<or>
          ds_default_secret_binding_ids target_dataset \<noteq> []
      | None \<Rightarrow>
          (case ds_owner_user_id canonical_dataset of
             Some source_owner \<Rightarrow> ds_owner_user_id target_dataset \<noteq> Some source_owner
           | None \<Rightarrow> ds_visibility canonical_dataset \<noteq> DatasetVisibility.Public \<and>
               ds_owner_user_id target_dataset \<noteq> None))"

definition thread_scope_mismatch ::
    "Document \<Rightarrow> Dataset \<Rightarrow> Dataset \<Rightarrow> (unit, DocumentContributionScopeMismatch) result" where
  "thread_scope_mismatch document canonical_dataset target_dataset =
     and_then (dataset_local_thread_scope canonical_dataset) (\<lambda>source_local_thread.
     and_then (document_local_thread_scope document) (\<lambda>document_local_thread.
     if source_local_thread \<noteq> None \<and> document_local_thread \<noteq> None \<and>
        source_local_thread \<noteq> document_local_thread
     then Err LocalThread
     else
       and_then (dataset_local_thread_scope target_dataset) (\<lambda>target_local_thread.
       case or_else document_local_thread source_local_thread of
         Some source_thread \<Rightarrow>
           if target_local_thread \<noteq> Some source_thread then Err LocalThread else Ok ()
       | None \<Rightarrow>
           if target_local_thread \<noteq> None \<and>
              \<not> source_scope_is_unrestricted_public document canonical_dataset
           then Err LocalThread else Ok ())))"

definition document_contribution_scope_mismatch ::
    "Document \<Rightarrow> Dataset \<Rightarrow> Dataset \<Rightarrow> DocumentContributionScopeMismatch option" where
  "document_contribution_scope_mismatch document canonical_dataset target_dataset =
     (if doc_tenant_id document \<noteq> ds_tenant_id canonical_dataset \<or>
         doc_tenant_id document \<noteq> ds_tenant_id target_dataset then Some Tenant
      else if doc_dataset_id document \<noteq> ds_id canonical_dataset then Some CanonicalDataset
      else if owner_scope_mismatch document canonical_dataset target_dataset then Some Owner
      else
        (case thread_scope_mismatch document canonical_dataset target_dataset of
           Inl reason \<Rightarrow> Some reason
         | Inr _ \<Rightarrow>
             if target_scope_is_unrestricted_public target_dataset \<and>
                \<not> source_scope_is_unrestricted_public document canonical_dataset
             then Some Visibility
             else if ds_visibility canonical_dataset \<noteq> DatasetVisibility.Public \<and>
                \<not> secret_set_is_subset (ds_default_secret_binding_ids target_dataset)
                    (ds_default_secret_binding_ids canonical_dataset)
             then Some SecretBinding
             else if doc_secret_binding_ids document \<noteq> [] \<and>
                \<not> secret_set_is_subset (ds_default_secret_binding_ids target_dataset)
                    (doc_secret_binding_ids document)
             then Some SecretBinding
             else None))"

definition document_scope_can_contribute_to_dataset :: "Document \<Rightarrow> Dataset \<Rightarrow> Dataset \<Rightarrow> bool" where
  "document_scope_can_contribute_to_dataset document canonical_dataset target_dataset \<longleftrightarrow>
     document_contribution_scope_mismatch document canonical_dataset target_dataset = None"

text \<open>\<open>collect::<HashMap<_, _>>()\<close>: a later entry with the same key replaces an earlier one.\<close>

definition datasets_by_id :: "Dataset list \<Rightarrow> DatasetId \<Rightarrow> Dataset option" where
  "datasets_by_id ds = map_of (rev (map (\<lambda>dataset. (ds_id dataset, dataset)) ds))"

fun filter_contributions ::
    "Dataset \<Rightarrow> (DatasetId \<Rightarrow> Dataset option) \<Rightarrow> Document list \<Rightarrow> DatasetContributionDocuments" where
  "filter_contributions target_dataset canonical_datasets [] = \<lparr>dc_documents = [], dc_excluded = []\<rparr>"
| "filter_contributions target_dataset canonical_datasets (document # documents) =
     (let rest = filter_contributions target_dataset canonical_datasets documents in
      case or_else
             (Option.bind (canonical_datasets (doc_dataset_id document)) (\<lambda>canonical_dataset.
                document_contribution_scope_mismatch document canonical_dataset target_dataset))
             (if canonical_datasets (doc_dataset_id document) = None
              then Some CanonicalDataset else None) of
        Some reason \<Rightarrow>
          rest\<lparr>dc_excluded :=
            \<lparr>ex_document_id = doc_id document, ex_reason = reason\<rparr> # dc_excluded rest\<rparr>
      | None \<Rightarrow> rest\<lparr>dc_documents := document # dc_documents rest\<rparr>)"

definition filter_documents_for_dataset_contribution ::
    "Dataset \<Rightarrow> Document list \<Rightarrow> Dataset list \<Rightarrow> DatasetContributionDocuments" where
  "filter_documents_for_dataset_contribution target_dataset documents canonical_datasets =
     filter_contributions target_dataset (datasets_by_id canonical_datasets) documents"

section \<open>Visibility for assistant evidence\<close>

definition external_acl_allows_missing_snapshot_for_selected_document ::
    "DocumentId \<Rightarrow> DocumentId list \<Rightarrow> bool \<Rightarrow> bool" where
  "external_acl_allows_missing_snapshot_for_selected_document document_id selected_document_ids
     allow_selected_documents_without_acl_snapshot \<longleftrightarrow>
     (if \<not> allow_selected_documents_without_acl_snapshot then False
      else selected_document_ids = [] \<or> document_id \<in> set selected_document_ids)"

definition document_is_visible_for_assistant_evidence_owner_scope ::
    "Document \<Rightarrow> UserId option \<Rightarrow> DocumentId list \<Rightarrow> bool \<Rightarrow> bool" where
  "document_is_visible_for_assistant_evidence_owner_scope document current_user_id
     selected_document_ids allow_selected_documents_without_acl_snapshot \<longleftrightarrow>
     owner_user_id_is_visible (doc_owner_user_id document) current_user_id \<or>
     external_acl_allows_missing_snapshot_for_selected_document (doc_id document)
       selected_document_ids allow_selected_documents_without_acl_snapshot"


section \<open>What the checks amount to\<close>

lemma set_push_new: "set (push_new merged ids) = set merged \<union> set ids"
  by (induction merged ids rule: push_new.induct) auto

lemma distinct_push_new: "distinct merged \<Longrightarrow> distinct (push_new merged ids)"
  by (induction merged ids rule: push_new.induct) auto

lemma push_new_prefix: "\<exists>ys. push_new merged ids = merged @ ys"
proof (induction merged ids rule: push_new.induct)
  case (2 merged x ids)
  then show ?case
    by (cases "x \<in> set merged") auto
qed simp

lemma local_thread_id_trimmed:
  "local_thread_id_from_headers to_str headers = Some t \<Longrightarrow> trim t = t \<and> t \<noteq> []"
  by (auto simp: local_thread_id_from_headers_def option_filter_eq_Some)

definition thread_bound :: "Dataset \<Rightarrow> bool" where
  "thread_bound dataset \<longleftrightarrow> metadata_local_only (ds_metadata dataset) \<and> ds_owner_user_id dataset = None"

lemma dataset_is_visible_iff:
  "dataset_is_visible dataset active user \<longleftrightarrow>
     ds_owner_user_id dataset \<noteq> None \<and> ds_owner_user_id dataset = user \<or>
     ds_owner_user_id dataset = None \<and> ds_visibility dataset = DatasetVisibility.Public \<or>
     set (ds_default_secret_binding_ids dataset) \<inter> set active \<noteq> {}"
  by (auto simp: dataset_is_visible_def list_ex_iff split: option.splits)

lemma visible_unbound:
  "\<not> thread_bound dataset \<Longrightarrow>
     dataset_is_visible_for_request dataset active user thread = dataset_is_visible dataset active user"
  by (auto simp: dataset_is_visible_for_request_def thread_bound_def dataset_local_scope_is_visible_def
    dataset_is_visible_by_local_thread_scope_def)

lemma visible_bound:
  "thread_bound dataset \<Longrightarrow>
     dataset_is_visible_for_request dataset active user thread \<longleftrightarrow>
       thread \<noteq> None \<and> thread \<noteq> Some [] \<and> metadata_local_thread_id (ds_metadata dataset) = thread"
  by (cases "metadata_local_thread_id (ds_metadata dataset)")
    (auto simp: dataset_is_visible_for_request_def thread_bound_def dataset_local_scope_is_visible_def
      dataset_is_visible_by_local_thread_scope_def option_filter_def)

lemma thread_scope_None: "dataset_local_thread_scope dataset = Ok None \<longleftrightarrow> \<not> thread_bound dataset"
  by (auto simp: dataset_local_thread_scope_def thread_bound_def ok_or_eq_Ok)

lemma thread_scope_Some:
  "dataset_local_thread_scope dataset = Ok (Some t) \<longleftrightarrow>
     thread_bound dataset \<and> t \<noteq> [] \<and>
     (\<exists>raw. metadata_local_thread_id (ds_metadata dataset) = Some raw \<and> trim raw = t)"
  by (auto simp: dataset_local_thread_scope_def thread_bound_def ok_or_eq_Ok option_filter_eq_Some)

lemma can_contributeD:
  assumes "document_scope_can_contribute_to_dataset document canonical target"
  shows "doc_tenant_id document = ds_tenant_id canonical" "doc_tenant_id document = ds_tenant_id target"
    "doc_dataset_id document = ds_id canonical" "\<not> owner_scope_mismatch document canonical target"
    "thread_scope_mismatch document canonical target = Ok ()"
    "target_scope_is_unrestricted_public target \<Longrightarrow> source_scope_is_unrestricted_public document canonical"
    "ds_visibility canonical \<noteq> DatasetVisibility.Public \<Longrightarrow>
       set (ds_default_secret_binding_ids target) \<subseteq> set (ds_default_secret_binding_ids canonical)"
    "doc_secret_binding_ids document \<noteq> [] \<Longrightarrow>
       set (ds_default_secret_binding_ids target) \<subseteq> set (doc_secret_binding_ids document)"
  using assms
  by (auto simp: document_scope_can_contribute_to_dataset_def document_contribution_scope_mismatch_def
    secret_set_is_subset_def list_all_iff split: if_splits sum.splits)

lemma thread_scope_matches:
  assumes ok: "thread_scope_mismatch document canonical target = Ok ()"
  obtains s d t where "dataset_local_thread_scope canonical = Ok s"
    and "document_local_thread_scope document = Ok d" and "dataset_local_thread_scope target = Ok t"
    and "s \<noteq> None \<Longrightarrow> t = s" and "d \<noteq> None \<Longrightarrow> t = d"
    and "s = None \<Longrightarrow> d = None \<Longrightarrow> t \<noteq> None \<Longrightarrow> source_scope_is_unrestricted_public document canonical"
proof -
  from ok obtain s d where s: "dataset_local_thread_scope canonical = Ok s"
    and d: "document_local_thread_scope document = Ok d"
    by (auto simp: thread_scope_mismatch_def and_then_eq_Ok)
  from ok s d obtain t where t: "dataset_local_thread_scope target = Ok t"
    by (auto simp: thread_scope_mismatch_def and_then_eq_Ok split: if_splits)
  have "(s \<noteq> None \<longrightarrow> t = s) \<and> (d \<noteq> None \<longrightarrow> t = d) \<and>
      (s = None \<longrightarrow> d = None \<longrightarrow> t \<noteq> None \<longrightarrow> source_scope_is_unrestricted_public document canonical)"
    using ok by (cases s; cases d) (auto simp: thread_scope_mismatch_def s d t split: if_splits)
  with s d t show ?thesis
    by (intro that [of s d t]) simp_all
qed

section \<open>Contributions are not widened\<close>

definition source_scope_proper :: "Document \<Rightarrow> Dataset \<Rightarrow> bool" where
  "source_scope_proper document canonical \<longleftrightarrow>
     (ds_owner_user_id canonical \<noteq> None \<longrightarrow> ds_visibility canonical = DatasetVisibility.Private) \<and>
     (case metadata_local_thread_id (ds_metadata canonical) of Some t \<Rightarrow> trim t = t | None \<Rightarrow> True) \<and>
     (document_local_thread_scope document = Ok None \<or> thread_bound canonical \<or>
      target_scope_is_unrestricted_public canonical)"

lemma unrestricted_public_visible:
  "target_scope_is_unrestricted_public dataset \<Longrightarrow> dataset_is_visible_for_request dataset active user thread"
  by (simp add: target_scope_is_unrestricted_public_def thread_scope_None visible_unbound
    dataset_is_visible_iff)

lemma owned_not_bound: "ds_owner_user_id dataset \<noteq> None \<Longrightarrow> \<not> thread_bound dataset"
  by (simp add: thread_bound_def)

text \<open>A bound source dataset: the target is bound to the same thread.\<close>

lemma bound_source_visible:
  assumes "document_scope_can_contribute_to_dataset document canonical target"
    and "dataset_is_visible_for_request target active user thread"
    and thread: "thread = local_thread_id_from_headers to_str headers"
    and proper: "source_scope_proper document canonical" and bound: "thread_bound canonical"
  shows "dataset_is_visible_for_request canonical active user thread"
proof -
  obtain s t where s: "dataset_local_thread_scope canonical = Ok s"
    and t: "dataset_local_thread_scope target = Ok t" and same: "s \<noteq> None \<Longrightarrow> t = s"
    using thread_scope_matches [OF can_contributeD(5) [OF assms(1)]] by metis
  have "s \<noteq> None"
    using s bound thread_scope_None [of canonical] by auto
  then obtain x where x: "dataset_local_thread_scope canonical = Ok (Some x)"
      "dataset_local_thread_scope target = Ok (Some x)"
    using s t same by auto
  then obtain raw raw' where raw: "metadata_local_thread_id (ds_metadata canonical) = Some raw" "trim raw = x"
    and raw': "thread_bound target" "metadata_local_thread_id (ds_metadata target) = Some raw'" "trim raw' = x"
    and "x \<noteq> []"
    by (auto simp: thread_scope_Some)
  moreover have "thread = Some raw'"
    using assms(2) raw' by (simp add: visible_bound)
  moreover from this have "trim raw' = raw'"
    using local_thread_id_trimmed [of to_str headers raw'] thread by simp
  moreover have "trim raw = raw"
    using proper raw by (simp add: source_scope_proper_def)
  ultimately show ?thesis
    using bound by (simp add: visible_bound)
qed

text \<open>An unbound source dataset: the target is seen by its owner or a holder of its secrets.\<close>

lemma unbound_source_visible:
  assumes can: "document_scope_can_contribute_to_dataset document canonical target"
    and vis: "dataset_is_visible_for_request target active user thread"
    and proper: "source_scope_proper document canonical" and unbound: "\<not> thread_bound canonical"
    and restricted: "\<not> target_scope_is_unrestricted_public canonical"
  shows "dataset_is_visible canonical active user"
proof -
  note cD = can_contributeD [OF can]
  have doc: "document_local_thread_scope document = Ok None"
    using proper unbound restricted by (simp add: source_scope_proper_def)
  have not_open: "ds_visibility canonical \<noteq> DatasetVisibility.Public"
    using proper restricted unbound
    by (auto simp: source_scope_proper_def target_scope_is_unrestricted_public_def thread_scope_None)
  have not_source: "\<not> source_scope_is_unrestricted_public document canonical"
    using restricted by (simp add: source_scope_is_unrestricted_public_def)
  obtain t where t: "dataset_local_thread_scope target = Ok t" and "t = None"
    using thread_scope_matches [OF cD(5)] doc unbound not_source
    by (metis Inr_inject thread_scope_None)
  then have target: "\<not> thread_bound target"
    by (simp add: thread_scope_None)
  then have v: "dataset_is_visible target active user"
    using vis by (simp add: visible_unbound)
  have not_public: "\<not> target_scope_is_unrestricted_public target"
    using cD(6) not_source by blast
  show ?thesis
    using v cD(4) cD(7) [OF not_open] target not_public not_open unfolding dataset_is_visible_iff
    by (auto simp: owner_scope_mismatch_def target_scope_is_unrestricted_public_def thread_scope_None
      split: option.splits)
qed

lemma contribution_owner_visible:
  assumes can: "document_scope_can_contribute_to_dataset document canonical target"
    and vis: "dataset_is_visible_for_request target active user thread"
  shows "owner_user_id_is_visible (doc_owner_user_id document) user"
proof (cases "doc_owner_user_id document")
  case (Some d)
  then have "ds_owner_user_id target = Some d" "ds_default_secret_binding_ids target = []"
    using can_contributeD(4) [OF can] by (auto simp: owner_scope_mismatch_def)
  then show ?thesis
    using vis owned_not_bound [of target] Some
    by (simp add: visible_unbound dataset_is_visible_iff owner_user_id_is_visible_def)
qed (simp add: owner_user_id_is_visible_def)

lemma contribution_visible:
  assumes "document_scope_can_contribute_to_dataset document canonical target"
    and "dataset_is_visible_for_request target active user (local_thread_id_from_headers to_str headers)"
    and "source_scope_proper document canonical"
  shows "dataset_is_visible_for_request canonical active user (local_thread_id_from_headers to_str headers)"
proof (cases "thread_bound canonical")
  case True
  then show ?thesis
    by (rule bound_source_visible [OF assms(1, 2) refl assms(3)])
next
  case False
  then show ?thesis
    using unbound_source_visible [OF assms] unrestricted_public_visible [of canonical]
    by (cases "target_scope_is_unrestricted_public canonical") (simp_all add: visible_unbound)
qed

text \<open>What the handlers rely on: a request that sees a dataset into which a document was admitted sees
  the dataset the document comes from. Then a document shown in further datasets that admit it is
  seen by nobody who does not see one of the datasets it was shown in before.\<close>

locale contribution_policy =
  fixes admits :: "'doc \<Rightarrow> 'set \<Rightarrow> 'set \<Rightarrow> bool"
    and proper :: "'doc \<Rightarrow> 'set \<Rightarrow> bool"
    and sees :: "'req \<Rightarrow> 'set \<Rightarrow> bool"
  assumes no_widening: "admits d source target \<Longrightarrow> proper d source \<Longrightarrow> sees q target \<Longrightarrow> sees q source"
begin

lemma shown_in_more:
  assumes "source \<in> S" and "proper d source" and "\<And>target. target \<in> T \<Longrightarrow> admits d source target"
    and "x \<in> S \<union> T" and "sees q x"
  shows "\<exists>y \<in> S. sees q y"
  using assms no_widening by blast

lemma only_admitted: "source \<in> S \<Longrightarrow> proper d source \<Longrightarrow> admits d source target \<Longrightarrow>
    (\<exists>x \<in> insert target S. sees q x) \<longleftrightarrow> (\<exists>x \<in> S. sees q x)"
  using no_widening by blast

end

type_synonym header_request =
  "SecretBindingId list \<times> UserId option \<times> (string \<Rightarrow> string option) \<times> header_map"

fun request_sees :: "header_request \<Rightarrow> Dataset \<Rightarrow> bool" where
  "request_sees (active, user, to_str, headers) dataset \<longleftrightarrow>
     dataset_is_visible_for_request dataset active user (local_thread_id_from_headers to_str headers)"

interpretation contributions:
  contribution_policy document_scope_can_contribute_to_dataset source_scope_proper request_sees
  by unfold_locales (auto intro: contribution_visible)

text \<open>C15: a document admitted into a target dataset is of the same tenant, and whoever sees the
  target with a request (any user, any secrets, the thread of the request's header) is not kept out
  by the document's owner. When the source scope is proper (an owned source dataset is private, a
  thread id is stored trimmed, and a document is bound to a thread only in a dataset that is bound or
  public), whoever sees the target also sees the dataset the document comes from. The code does not
  check these three; the lemmas \<open>owned_public_source_widens\<close> and \<open>bound_document_widens\<close> show what
  it admits without them.\<close>

theorem contribution_never_widens:
  assumes "document_scope_can_contribute_to_dataset document canonical target"
    and "dataset_is_visible_for_request target active user (local_thread_id_from_headers to_str headers)"
  shows "doc_tenant_id document = ds_tenant_id target \<and>
    owner_user_id_is_visible (doc_owner_user_id document) user \<and>
    (source_scope_proper document canonical \<longrightarrow>
      dataset_is_visible_for_request canonical active user (local_thread_id_from_headers to_str headers))"
  using can_contributeD(2) [OF assms(1)] contribution_owner_visible [OF assms(1, 2)]
    contribution_visible [OF assms] by blast

definition scope_example ::
    "string \<Rightarrow> UserId option \<Rightarrow> DatasetVisibility \<Rightarrow> SecretBindingId list \<Rightarrow> string option \<Rightarrow> Dataset" where
  "scope_example dataset_id owner visibility secrets thread =
     \<lparr>ds_id = Uuid dataset_id, ds_tenant_id = Uuid ''t'', ds_owner_user_id = owner, ds_key = dataset_id,
      ds_title = dataset_id, ds_description = None, ds_lifecycle = DatasetLifecycle.Active,
      ds_visibility = visibility, ds_default_secret_binding_ids = secrets,
      ds_metadata = (case thread of None \<Rightarrow> []
        | Some x \<Rightarrow> [(''local_only'', JBool True), (''local_thread_id'', JString x)]),
      ds_created_at = 0, ds_updated_at = 0\<rparr>"

definition scope_example_document :: "string option \<Rightarrow> Document" where
  "scope_example_document thread =
     \<lparr>doc_id = Uuid ''d'', doc_tenant_id = Uuid ''t'', doc_dataset_id = Uuid ''source'',
      doc_owner_user_id = None, doc_title = ''d'', doc_object_key = ''d'', doc_content_type = ''text/plain'',
      doc_lifecycle = DocumentLifecycle.Received, doc_secret_binding_ids = [],
      doc_metadata = (case thread of None \<Rightarrow> []
        | Some x \<Rightarrow> [(''local_only'', JBool True), (''local_thread_id'', JString x)]),
      doc_created_at = 0, doc_updated_at = 0\<rparr>"

lemmas scope_example_simps =
  scope_example_def scope_example_document_def document_scope_can_contribute_to_dataset_def
  document_contribution_scope_mismatch_def owner_scope_mismatch_def thread_scope_mismatch_def
  dataset_local_thread_scope_def document_local_thread_scope_def metadata_local_only_def
  metadata_local_thread_id_def target_scope_is_unrestricted_public_def
  source_scope_is_unrestricted_public_def secret_set_is_subset_def dataset_is_visible_for_request_def
  dataset_is_visible_iff dataset_local_scope_is_visible_def dataset_is_visible_by_local_thread_scope_def
  option_filter_def source_scope_proper_def thread_bound_def owner_user_id_is_visible_def
  trim_graphic graphic_def

theorem contribution_never_widens_witness:
  "doc_tenant_id (scope_example_document None) =
     ds_tenant_id (scope_example ''target'' None Private [] (Some ''x'')) \<and>
   owner_user_id_is_visible None None \<and>
   dataset_is_visible_for_request (scope_example ''source'' None Private [] (Some ''x'')) [] None (Some ''x'')"
proof -
  have thread: "local_thread_id_from_headers Some (\<lambda>_. Some ''x'') = Some ''x''"
    by (simp add: local_thread_id_from_headers_def option_filter_def trim_graphic graphic_def)
  have can: "document_scope_can_contribute_to_dataset (scope_example_document None)
      (scope_example ''source'' None Private [] (Some ''x'')) (scope_example ''target'' None Private [] (Some ''x''))"
    by (simp add: scope_example_simps)
  have seen: "dataset_is_visible_for_request (scope_example ''target'' None Private [] (Some ''x'')) [] None
      (local_thread_id_from_headers Some (\<lambda>_. Some ''x''))"
    unfolding thread by (simp add: scope_example_simps)
  have proper: "source_scope_proper (scope_example_document None)
      (scope_example ''source'' None Private [] (Some ''x''))"
    by (simp add: scope_example_simps)
  show ?thesis
    using contribution_never_widens [OF can seen] proper unfolding thread
    by (simp add: scope_example_document_def)
qed

text \<open>Both restrictions on the source are needed. The check of the secrets looks only at the
  visibility of the source, and an owned dataset can be created public: its documents may go into a
  dataset of the same owner that is shared by a secret, although the holders of that secret cannot
  see the source.\<close>

lemma owned_public_source_widens:
  "document_scope_can_contribute_to_dataset (scope_example_document None)
     (scope_example ''source'' (Some (Uuid ''u'')) DatasetVisibility.Public [] None)
     (scope_example ''target'' (Some (Uuid ''u'')) Private [Uuid ''s''] None)"
  "dataset_is_visible_for_request
     (scope_example ''target'' (Some (Uuid ''u'')) Private [Uuid ''s''] None) [Uuid ''s''] None None"
  "\<not> dataset_is_visible_for_request
     (scope_example ''source'' (Some (Uuid ''u'')) DatasetVisibility.Public [] None) [Uuid ''s''] None None"
  by (simp_all add: scope_example_simps)

text \<open>A document that is itself bound to a thread may go from a dataset guarded by a secret into one
  of that thread, which is seen without the secret.\<close>

lemma bound_document_widens:
  "document_scope_can_contribute_to_dataset (scope_example_document (Some ''x''))
     (scope_example ''source'' None Private [Uuid ''s''] None)
     (scope_example ''target'' None Private [] (Some ''x''))"
  "dataset_is_visible_for_request
     (scope_example ''target'' None Private [] (Some ''x'')) [] None (Some ''x'')"
  "\<not> dataset_is_visible_for_request
     (scope_example ''source'' None Private [Uuid ''s''] None) [] None (Some ''x'')"
  by (simp_all add: scope_example_simps)

section \<open>The filter of contributions\<close>

definition may_contribute :: "Dataset \<Rightarrow> Dataset list \<Rightarrow> Document \<Rightarrow> bool" where
  "may_contribute target canonical_datasets document \<longleftrightarrow>
     (case datasets_by_id canonical_datasets (doc_dataset_id document) of
        None \<Rightarrow> False
      | Some canonical \<Rightarrow> document_scope_can_contribute_to_dataset document canonical target)"

lemma datasets_by_id_SomeD: "datasets_by_id ds i = Some d \<Longrightarrow> d \<in> set ds \<and> ds_id d = i"
  by (auto simp: datasets_by_id_def dest!: map_of_SomeD)

lemma filter_contributions_spec:
  "dc_documents (filter_contributions target (datasets_by_id ds) docs) = filter (may_contribute target ds) docs"
  "map ex_document_id (dc_excluded (filter_contributions target (datasets_by_id ds) docs)) =
     map doc_id (filter (\<lambda>d. \<not> may_contribute target ds d) docs)"
  by (induction docs) (auto simp: may_contribute_def document_scope_can_contribute_to_dataset_def
    or_else_def Let_def split: option.splits)

end
