(* ===== verification/Auth_Accounts.thy ===== *)
theory Auth_Accounts
  imports Resource_Access
begin

text \<open>
  The accounts as the crate \<open>storage\<close> keeps them: the tables of users, sessions, one-time codes
  (challenges), audit events and secret bindings, the codecs of their rows and the operations of
  their repositories (\<open>PgUserRepository\<close>, \<open>PgUserSessionRepository\<close>,
  \<open>PgEmailVerificationChallengeRepository\<close>, \<open>PgAuthAuditEventRepository\<close> and the lookup of
  \<open>PgSecretBindingRepository\<close>; schema in \<open>migrations/0001\<close> and \<open>0004\<close>). The lemmas say what a statement
  leaves of the table of challenges.
\<close>

section \<open>Tables\<close>

type_synonym AuthAuditEventId = uuid

record user_row =
  ur_id :: uuid
  ur_tenant_id :: uuid
  ur_email :: string
  ur_email_normalized :: "string option"
  ur_display_name :: string
  ur_roles :: json
  ur_created_at :: datetime
  ur_primary_secret_fingerprint :: "string option"
  ur_last_login_at :: "datetime option"

record session_row =
  xs_id :: uuid
  xs_tenant_id :: uuid
  xs_user_id :: uuid
  xs_device_fingerprint :: string
  xs_session_token_hash :: string
  xs_auth_method :: string
  xs_created_at :: datetime
  xs_last_seen_at :: datetime
  xs_expires_at :: datetime
  xs_revoked_at :: "datetime option"

record challenge_row =
  cr_id :: uuid
  cr_tenant_id :: uuid
  cr_email_normalized :: string
  cr_purpose :: string
  cr_code_hash :: string
  cr_attempt_count :: int
  cr_max_attempts :: int
  cr_expires_at :: datetime
  cr_consumed_at :: "datetime option"
  cr_metadata :: json
  cr_created_at :: datetime

record audit_row =
  ar_id :: uuid
  ar_tenant_id :: uuid
  ar_user_id :: "uuid option"
  ar_session_id :: "uuid option"
  ar_email_normalized :: "string option"
  ar_event_name :: string
  ar_outcome :: string
  ar_ip_hash :: "string option"
  ar_device_fingerprint :: "string option"
  ar_metadata :: json
  ar_created_at :: datetime

record secret_binding_row =
  br_id :: uuid
  br_tenant_id :: uuid
  br_dataset_id :: uuid
  br_document_id :: "uuid option"
  br_scope_level :: string
  br_provider_key :: string
  br_cipher_text :: string
  br_fingerprint :: string
  br_created_at :: datetime

text \<open>\<open>au_draws\<close> counts the identifiers the database has generated, \<open>au_codes\<close> the random UUIDs the
  service has drawn.\<close>

record auth_db =
  au_tenants :: "uuid list"
  au_users :: "user_row list"
  au_sessions :: "session_row list"
  au_challenges :: "challenge_row list"
  au_audits :: "audit_row list"
  au_bindings :: "secret_binding_row list"
  au_draws :: nat
  au_codes :: nat

record User =
  usr_id :: UserId
  usr_tenant_id :: TenantId
  usr_email :: string
  usr_display_name :: string
  usr_roles :: "string list"
  usr_created_at :: datetime

record UserSession =
  uss_id :: UserSessionId
  uss_tenant_id :: TenantId
  uss_user_id :: UserId
  uss_device_fingerprint :: string
  uss_session_token_hash :: string
  uss_auth_method :: AuthSessionMethod
  uss_created_at :: datetime
  uss_last_seen_at :: datetime
  uss_expires_at :: datetime
  uss_revoked_at :: "datetime option"

record EmailVerificationChallenge =
  evc_id :: EmailVerificationChallengeId
  evc_tenant_id :: TenantId
  evc_email_normalized :: string
  evc_purpose :: AuthChallengePurpose
  evc_code_hash :: string
  evc_attempt_count :: int
  evc_max_attempts :: int
  evc_expires_at :: datetime
  evc_consumed_at :: "datetime option"
  evc_metadata :: json
  evc_created_at :: datetime

record AuthAuditEvent =
  aae_id :: AuthAuditEventId
  aae_tenant_id :: TenantId
  aae_user_id :: "UserId option"
  aae_session_id :: "UserSessionId option"
  aae_email_normalized :: "string option"
  aae_event_name :: string
  aae_outcome :: AuthAuditOutcome
  aae_ip_hash :: "string option"
  aae_device_fingerprint :: "string option"
  aae_metadata :: json
  aae_created_at :: datetime

record SecretBinding =
  sbd_id :: SecretBindingId
  sbd_tenant_id :: TenantId
  sbd_dataset_id :: DatasetId
  sbd_document_id :: "DocumentId option"
  sbd_scope_level :: SecretScopeLevel
  sbd_provider_key :: string
  sbd_cipher_text :: string
  sbd_fingerprint :: string
  sbd_created_at :: datetime

record NewEmailVerificationChallenge =
  nev_email_normalized :: string
  nev_purpose :: AuthChallengePurpose
  nev_code_hash :: string
  nev_max_attempts :: int
  nev_expires_at :: datetime
  nev_metadata :: json
  nev_created_at :: datetime

record NewUserSession =
  nus_user_id :: UserId
  nus_device_fingerprint :: string
  nus_session_token_hash :: string
  nus_auth_method :: AuthSessionMethod
  nus_expires_at :: datetime
  nus_created_at :: datetime

record NewAuthAuditEvent =
  nae_user_id :: "UserId option"
  nae_session_id :: "UserSessionId option"
  nae_email_normalized :: "string option"
  nae_event_name :: string
  nae_outcome :: AuthAuditOutcome
  nae_ip_hash :: "string option"
  nae_device_fingerprint :: "string option"
  nae_metadata :: json
  nae_created_at :: datetime

record VerificationEmailMessage =
  vm_to :: string
  vm_purpose :: AuthChallengePurpose
  vm_code :: string

text \<open>
  What the operations take from other crates and from the surroundings: the tenant, the texts of
  database errors and of the \<open>serde\<close> error for a user's roles, the values of the two environment
  variables, the SHA-256 digest of a byte string, the text of a UUID without hyphens, the UUIDs the
  database and the service draw, the outcome of sending an e-mail, and \<open>HeaderValue\<close>'s \<open>to_str\<close> and
  \<open>from_str\<close>.
\<close>

record auth_env =
  ae_tenant_id :: TenantId
  ae_db_message :: "store_error \<Rightarrow> string"
  ae_roles_error :: "json \<Rightarrow> string"
  ae_otp_pepper_var :: "string option"
  ae_session_pepper_var :: "string option"
  ae_sha256 :: "string \<Rightarrow> string"
  ae_simple :: "uuid \<Rightarrow> string"
  ae_gen_random_uuid :: uuid_source
  ae_new_v4 :: uuid_source
  ae_send_verification_email :: "VerificationEmailMessage \<Rightarrow> (unit, string) result"
  ae_to_str :: "string \<Rightarrow> string option"
  ae_header_value :: "string \<Rightarrow> (string, string) result"

section \<open>Reading rows\<close>

definition roles_from_value :: "(json \<Rightarrow> string) \<Rightarrow> json \<Rightarrow> string list store_result" where
  "roles_from_value roles_error roles =
     and_then (ok_or (DecodeError (roles_error roles)) (json_as_array roles)) (\<lambda>entries.
     collect (map (\<lambda>entry. ok_or (DecodeError (roles_error roles)) (json_as_str entry)) entries))"

definition map_user_row :: "auth_env \<Rightarrow> user_row \<Rightarrow> User store_result" where
  "map_user_row env row =
     and_then (roles_from_value (ae_roles_error env) (ur_roles row)) (\<lambda>roles.
     Ok \<lparr>usr_id = ur_id row, usr_tenant_id = ur_tenant_id row, usr_email = ur_email row,
         usr_display_name = ur_display_name row, usr_roles = roles, usr_created_at = ur_created_at row\<rparr>)"

definition map_user_session_row :: "session_row \<Rightarrow> UserSession store_result" where
  "map_user_session_row row =
     and_then (ok_or (DecodeError (''unknown auth session method: '' @ xs_auth_method row))
       (AuthSessionMethod_from_str (xs_auth_method row))) (\<lambda>auth_method.
     Ok \<lparr>uss_id = xs_id row, uss_tenant_id = xs_tenant_id row, uss_user_id = xs_user_id row,
         uss_device_fingerprint = xs_device_fingerprint row,
         uss_session_token_hash = xs_session_token_hash row, uss_auth_method = auth_method,
         uss_created_at = xs_created_at row, uss_last_seen_at = xs_last_seen_at row,
         uss_expires_at = xs_expires_at row, uss_revoked_at = xs_revoked_at row\<rparr>)"

definition map_email_verification_challenge_row ::
    "challenge_row \<Rightarrow> EmailVerificationChallenge store_result" where
  "map_email_verification_challenge_row row =
     and_then (ok_or (DecodeError (''unknown auth challenge purpose: '' @ cr_purpose row))
       (AuthChallengePurpose_from_str (cr_purpose row))) (\<lambda>purpose.
     Ok \<lparr>evc_id = cr_id row, evc_tenant_id = cr_tenant_id row,
         evc_email_normalized = cr_email_normalized row, evc_purpose = purpose,
         evc_code_hash = cr_code_hash row, evc_attempt_count = cr_attempt_count row,
         evc_max_attempts = cr_max_attempts row, evc_expires_at = cr_expires_at row,
         evc_consumed_at = cr_consumed_at row, evc_metadata = cr_metadata row,
         evc_created_at = cr_created_at row\<rparr>)"

definition map_auth_audit_event_row :: "audit_row \<Rightarrow> AuthAuditEvent store_result" where
  "map_auth_audit_event_row row =
     and_then (ok_or (DecodeError (''unknown auth audit outcome: '' @ ar_outcome row))
       (AuthAuditOutcome_from_str (ar_outcome row))) (\<lambda>outcome.
     Ok \<lparr>aae_id = ar_id row, aae_tenant_id = ar_tenant_id row, aae_user_id = ar_user_id row,
         aae_session_id = ar_session_id row, aae_email_normalized = ar_email_normalized row,
         aae_event_name = ar_event_name row, aae_outcome = outcome, aae_ip_hash = ar_ip_hash row,
         aae_device_fingerprint = ar_device_fingerprint row, aae_metadata = ar_metadata row,
         aae_created_at = ar_created_at row\<rparr>)"

definition map_secret_binding_row :: "secret_binding_row \<Rightarrow> SecretBinding store_result" where
  "map_secret_binding_row row =
     and_then (ok_or (DecodeError (''unknown secret scope level: '' @ br_scope_level row))
       (SecretScopeLevel_from_str (br_scope_level row))) (\<lambda>scope_level.
     Ok \<lparr>sbd_id = br_id row, sbd_tenant_id = br_tenant_id row, sbd_dataset_id = br_dataset_id row,
         sbd_document_id = br_document_id row, sbd_scope_level = scope_level,
         sbd_provider_key = br_provider_key row, sbd_cipher_text = br_cipher_text row,
         sbd_fingerprint = br_fingerprint row, sbd_created_at = br_created_at row\<rparr>)"

section \<open>Repositories\<close>

definition normalize_email :: "string \<Rightarrow> string" where
  "normalize_email email = to_ascii_lowercase (trim email)"

definition returned :: "'r list \<Rightarrow> 'r store_result" where
  "returned rows = ok_or RowNotFound (fetch_optional rows)"

definition ensure_by_email ::
    "auth_env \<Rightarrow> auth_db \<Rightarrow> string \<Rightarrow> string option \<Rightarrow> datetime \<Rightarrow> User store_result \<times> auth_db" where
  "ensure_by_email env db email display_name now =
     (let email_normalized = normalize_email email;
          display_name = unwrap_or email_normalized
            (map_option trim (option_filter (\<lambda>v. trim v \<noteq> []) display_name));
          p = (\<lambda>r. ur_tenant_id r = ae_tenant_id env \<and> ur_email_normalized r = Some email_normalized);
          f = (\<lambda>r. r\<lparr>ur_email_normalized := Some email_normalized, ur_display_name := display_name\<rparr>);
          row =
            \<lparr>ur_id = ae_gen_random_uuid env (au_draws db), ur_tenant_id = ae_tenant_id env,
             ur_email = email_normalized, ur_email_normalized = Some email_normalized,
             ur_display_name = display_name, ur_roles = JArray [], ur_created_at = now,
             ur_primary_secret_fingerprint = None, ur_last_login_at = None\<rparr>;
          drawn = db\<lparr>au_draws := Suc (au_draws db)\<rparr> in
      if list_ex p (au_users db)
      then (and_then (returned (returning p f (au_users db))) (map_user_row env),
            drawn\<lparr>au_users := update_where p f (au_users db)\<rparr>)
      else if list_ex (\<lambda>r. ur_id r = ur_id row \<or>
        ur_tenant_id r = ae_tenant_id env \<and> ur_email r = email_normalized) (au_users db)
      then (Err UniqueViolation, drawn)
      else if ae_tenant_id env \<notin> set (au_tenants db) then (Err ForeignKeyViolation, drawn)
      else (map_user_row env row, drawn\<lparr>au_users := au_users db @ [row]\<rparr>))"

definition user_get_by_email :: "auth_env \<Rightarrow> auth_db \<Rightarrow> string \<Rightarrow> User option store_result" where
  "user_get_by_email env db email =
     transpose_option (map_option (map_user_row env) (fetch_optional (filter (\<lambda>r.
       ur_tenant_id r = ae_tenant_id env \<and> ur_email_normalized r = Some (normalize_email email))
       (au_users db))))"

definition user_get_by_id :: "auth_env \<Rightarrow> auth_db \<Rightarrow> UserId \<Rightarrow> User option store_result" where
  "user_get_by_id env db user_id =
     transpose_option (map_option (map_user_row env) (fetch_optional (filter (\<lambda>r.
       ur_tenant_id r = ae_tenant_id env \<and> ur_id r = user_id) (au_users db))))"

definition update_primary_secret_fingerprint ::
    "auth_env \<Rightarrow> auth_db \<Rightarrow> UserId \<Rightarrow> string \<Rightarrow> datetime \<Rightarrow> User option store_result \<times> auth_db" where
  "update_primary_secret_fingerprint env db user_id fingerprint logged_in_at =
     (let p = (\<lambda>r. ur_tenant_id r = ae_tenant_id env \<and> ur_id r = user_id);
          f = (\<lambda>r. r\<lparr>ur_primary_secret_fingerprint := Some fingerprint,
                 ur_last_login_at := Some logged_in_at\<rparr>) in
      (transpose_option (map_option (map_user_row env) (fetch_optional (returning p f (au_users db)))),
       db\<lparr>au_users := update_where p f (au_users db)\<rparr>))"

definition session_create ::
    "auth_env \<Rightarrow> auth_db \<Rightarrow> NewUserSession \<Rightarrow> UserSession store_result \<times> auth_db" where
  "session_create env db new_session =
     (let row =
            \<lparr>xs_id = ae_gen_random_uuid env (au_draws db), xs_tenant_id = ae_tenant_id env,
             xs_user_id = nus_user_id new_session,
             xs_device_fingerprint = nus_device_fingerprint new_session,
             xs_session_token_hash = nus_session_token_hash new_session,
             xs_auth_method = AuthSessionMethod_as_str (nus_auth_method new_session),
             xs_created_at = nus_created_at new_session, xs_last_seen_at = nus_created_at new_session,
             xs_expires_at = nus_expires_at new_session, xs_revoked_at = None\<rparr>;
          drawn = db\<lparr>au_draws := Suc (au_draws db)\<rparr> in
      if list_ex (\<lambda>r. xs_id r = xs_id row \<or> xs_session_token_hash r = xs_session_token_hash row)
           (au_sessions db)
      then (Err UniqueViolation, drawn)
      else if ae_tenant_id env \<notin> set (au_tenants db) \<or> xs_user_id row \<notin> ur_id ` set (au_users db)
      then (Err ForeignKeyViolation, drawn)
      else (map_user_session_row row, drawn\<lparr>au_sessions := au_sessions db @ [row]\<rparr>))"

definition session_get_by_token_hash ::
    "auth_env \<Rightarrow> auth_db \<Rightarrow> string \<Rightarrow> UserSession option store_result" where
  "session_get_by_token_hash env db token_hash =
     transpose_option (map_option map_user_session_row (fetch_optional (filter (\<lambda>r.
       xs_tenant_id r = ae_tenant_id env \<and> xs_session_token_hash r = token_hash) (au_sessions db))))"

definition session_revoke ::
    "auth_env \<Rightarrow> auth_db \<Rightarrow> UserSessionId \<Rightarrow> datetime \<Rightarrow> UserSession option store_result \<times> auth_db" where
  "session_revoke env db session_id revoked_at =
     (let p = (\<lambda>r. xs_tenant_id r = ae_tenant_id env \<and> xs_id r = session_id);
          f = (\<lambda>r. r\<lparr>xs_revoked_at := Some revoked_at\<rparr>) in
      (transpose_option (map_option map_user_session_row
         (fetch_optional (returning p f (au_sessions db)))),
       db\<lparr>au_sessions := update_where p f (au_sessions db)\<rparr>))"

definition challenge_create ::
    "auth_env \<Rightarrow> auth_db \<Rightarrow> NewEmailVerificationChallenge \<Rightarrow>
     EmailVerificationChallenge store_result \<times> auth_db" where
  "challenge_create env db new_challenge =
     (let row =
            \<lparr>cr_id = ae_gen_random_uuid env (au_draws db), cr_tenant_id = ae_tenant_id env,
             cr_email_normalized = nev_email_normalized new_challenge,
             cr_purpose = AuthChallengePurpose_as_str (nev_purpose new_challenge),
             cr_code_hash = nev_code_hash new_challenge, cr_attempt_count = 0,
             cr_max_attempts = nev_max_attempts new_challenge,
             cr_expires_at = nev_expires_at new_challenge, cr_consumed_at = None,
             cr_metadata = nev_metadata new_challenge, cr_created_at = nev_created_at new_challenge\<rparr>;
          drawn = db\<lparr>au_draws := Suc (au_draws db)\<rparr> in
      if list_ex (\<lambda>r. cr_id r = cr_id row) (au_challenges db) then (Err UniqueViolation, drawn)
      else if ae_tenant_id env \<notin> set (au_tenants db) then (Err ForeignKeyViolation, drawn)
      else (map_email_verification_challenge_row row,
            drawn\<lparr>au_challenges := au_challenges db @ [row]\<rparr>))"

definition challenge_get_by_id ::
    "auth_env \<Rightarrow> auth_db \<Rightarrow> EmailVerificationChallengeId \<Rightarrow>
     EmailVerificationChallenge option store_result" where
  "challenge_get_by_id env db challenge_id =
     transpose_option (map_option map_email_verification_challenge_row (fetch_optional (filter (\<lambda>r.
       cr_tenant_id r = ae_tenant_id env \<and> cr_id r = challenge_id) (au_challenges db))))"

definition active_challenge ::
    "auth_env \<Rightarrow> string \<Rightarrow> AuthChallengePurpose \<Rightarrow> challenge_row \<Rightarrow> bool" where
  "active_challenge env email_normalized purpose r \<longleftrightarrow>
     cr_tenant_id r = ae_tenant_id env \<and> cr_email_normalized r = email_normalized \<and>
     cr_purpose r = AuthChallengePurpose_as_str purpose \<and> cr_consumed_at r = None"

definition latest_active_by_email_and_purpose ::
    "auth_env \<Rightarrow> auth_db \<Rightarrow> string \<Rightarrow> AuthChallengePurpose \<Rightarrow>
     EmailVerificationChallenge option store_result" where
  "latest_active_by_email_and_purpose env db email_normalized purpose =
     transpose_option (map_option map_email_verification_challenge_row
       (first_by (\<lambda>r. - cr_created_at r)
          (filter (active_challenge env email_normalized purpose) (au_challenges db))))"

definition count_created_since_by_email_and_purpose ::
    "auth_env \<Rightarrow> auth_db \<Rightarrow> string \<Rightarrow> AuthChallengePurpose \<Rightarrow> datetime \<Rightarrow> nat" where
  "count_created_since_by_email_and_purpose env db email_normalized purpose since =
     length (filter (\<lambda>r. cr_tenant_id r = ae_tenant_id env \<and> cr_email_normalized r = email_normalized \<and>
       cr_purpose r = AuthChallengePurpose_as_str purpose \<and> cr_created_at r \<ge> since)
       (au_challenges db))"

text \<open>\<open>metadata ->> 'device_fingerprint' = $2\<close>: the operator gives the text of a string value.\<close>

definition count_created_since_by_device_and_purpose ::
    "auth_env \<Rightarrow> auth_db \<Rightarrow> string \<Rightarrow> AuthChallengePurpose \<Rightarrow> datetime \<Rightarrow> nat" where
  "count_created_since_by_device_and_purpose env db device_fingerprint purpose since =
     length (filter (\<lambda>r. cr_tenant_id r = ae_tenant_id env \<and>
       Option.bind (json_get (cr_metadata r) ''device_fingerprint'') json_as_str =
         Some device_fingerprint \<and>
       cr_purpose r = AuthChallengePurpose_as_str purpose \<and> cr_created_at r \<ge> since)
       (au_challenges db))"

definition increment_attempt_count ::
    "auth_env \<Rightarrow> auth_db \<Rightarrow> EmailVerificationChallengeId \<Rightarrow>
     EmailVerificationChallenge option store_result \<times> auth_db" where
  "increment_attempt_count env db challenge_id =
     (let p = (\<lambda>r. cr_tenant_id r = ae_tenant_id env \<and> cr_id r = challenge_id);
          f = (\<lambda>r. r\<lparr>cr_attempt_count := cr_attempt_count r + 1\<rparr>) in
      if list_ex (\<lambda>r. p r \<and> \<not> cr_attempt_count r + 1 < 2 ^ 31) (au_challenges db)
      then (Err IntegerOutOfRange, db)
      else
        (transpose_option (map_option map_email_verification_challenge_row
           (fetch_optional (returning p f (au_challenges db)))),
         db\<lparr>au_challenges := update_where p f (au_challenges db)\<rparr>))"

definition mark_consumed ::
    "auth_env \<Rightarrow> auth_db \<Rightarrow> EmailVerificationChallengeId \<Rightarrow> datetime \<Rightarrow>
     EmailVerificationChallenge option store_result \<times> auth_db" where
  "mark_consumed env db challenge_id consumed_at =
     (let p = (\<lambda>r. cr_tenant_id r = ae_tenant_id env \<and> cr_id r = challenge_id);
          f = (\<lambda>r. r\<lparr>cr_consumed_at := Some consumed_at\<rparr>) in
      (transpose_option (map_option map_email_verification_challenge_row
         (fetch_optional (returning p f (au_challenges db)))),
       db\<lparr>au_challenges := update_where p f (au_challenges db)\<rparr>))"

definition list_by_fingerprint :: "auth_env \<Rightarrow> auth_db \<Rightarrow> string \<Rightarrow> SecretBinding list store_result" where
  "list_by_fingerprint env db fingerprint =
     collect (map map_secret_binding_row (sort_key (\<lambda>r. - br_created_at r)
       (filter (\<lambda>r. br_tenant_id r = ae_tenant_id env \<and> br_fingerprint r = fingerprint)
          (au_bindings db))))"

definition audit_create :: "auth_env \<Rightarrow> auth_db \<Rightarrow> NewAuthAuditEvent \<Rightarrow>
     AuthAuditEvent store_result \<times> auth_db" where
  "audit_create env db new_event =
     (let row =
            \<lparr>ar_id = ae_gen_random_uuid env (au_draws db), ar_tenant_id = ae_tenant_id env,
             ar_user_id = nae_user_id new_event, ar_session_id = nae_session_id new_event,
             ar_email_normalized = nae_email_normalized new_event,
             ar_event_name = nae_event_name new_event,
             ar_outcome = AuthAuditOutcome_as_str (nae_outcome new_event),
             ar_ip_hash = nae_ip_hash new_event,
             ar_device_fingerprint = nae_device_fingerprint new_event,
             ar_metadata = nae_metadata new_event, ar_created_at = nae_created_at new_event\<rparr>;
          drawn = db\<lparr>au_draws := Suc (au_draws db)\<rparr> in
      if list_ex (\<lambda>r. ar_id r = ar_id row) (au_audits db) then (Err UniqueViolation, drawn)
      else if ae_tenant_id env \<notin> set (au_tenants db) \<or>
         \<not> (ar_user_id row = None \<or> ar_user_id row \<in> Some ` ur_id ` set (au_users db)) \<or>
         \<not> (ar_session_id row = None \<or> ar_session_id row \<in> Some ` xs_id ` set (au_sessions db))
      then (Err ForeignKeyViolation, drawn)
      else (map_auth_audit_event_row row, drawn\<lparr>au_audits := au_audits db @ [row]\<rparr>))"

definition clamp :: "int \<Rightarrow> int \<Rightarrow> int \<Rightarrow> int" where
  "clamp low high v = max low (min high v)"

definition recent_audits :: "(audit_row \<Rightarrow> bool) \<Rightarrow> auth_db \<Rightarrow> int \<Rightarrow> AuthAuditEvent list store_result" where
  "recent_audits p db limit =
     collect (map map_auth_audit_event_row (take (nat (clamp 1 100 limit))
       (sort_key (\<lambda>r. - ar_created_at r) (filter p (au_audits db)))))"

definition list_recent_for_user ::
    "auth_env \<Rightarrow> auth_db \<Rightarrow> UserId \<Rightarrow> int \<Rightarrow> AuthAuditEvent list store_result" where
  "list_recent_for_user env db user_id limit =
     recent_audits (\<lambda>r. ar_tenant_id r = ae_tenant_id env \<and> ar_user_id r = Some user_id) db limit"

definition list_recent_by_email ::
    "auth_env \<Rightarrow> auth_db \<Rightarrow> string \<Rightarrow> int \<Rightarrow> AuthAuditEvent list store_result" where
  "list_recent_by_email env db email_normalized limit =
     recent_audits (\<lambda>r. ar_tenant_id r = ae_tenant_id env \<and>
       ar_email_normalized r = Some email_normalized) db limit"

section \<open>What the statements keep\<close>

lemma audit_create_keeps [simp]:
  "au_challenges (snd (audit_create env db e)) = au_challenges db"
  "au_sessions (snd (audit_create env db e)) = au_sessions db"
  "au_users (snd (audit_create env db e)) = au_users db"
  "au_bindings (snd (audit_create env db e)) = au_bindings db"
  "au_tenants (snd (audit_create env db e)) = au_tenants db"
  "au_codes (snd (audit_create env db e)) = au_codes db"
  "au_draws (snd (audit_create env db e)) = Suc (au_draws db)"
  by (simp_all add: audit_create_def Let_def)

lemma ensure_by_email_keeps [simp]:
  "au_challenges (snd (ensure_by_email env db email name now)) = au_challenges db"
  "au_sessions (snd (ensure_by_email env db email name now)) = au_sessions db"
  "au_bindings (snd (ensure_by_email env db email name now)) = au_bindings db"
  "au_tenants (snd (ensure_by_email env db email name now)) = au_tenants db"
  "au_codes (snd (ensure_by_email env db email name now)) = au_codes db"
  by (simp_all add: ensure_by_email_def Let_def)

lemma update_primary_secret_fingerprint_keeps [simp]:
  "au_challenges (snd (update_primary_secret_fingerprint env db user f now)) = au_challenges db"
  "au_sessions (snd (update_primary_secret_fingerprint env db user f now)) = au_sessions db"
  "au_bindings (snd (update_primary_secret_fingerprint env db user f now)) = au_bindings db"
  "au_tenants (snd (update_primary_secret_fingerprint env db user f now)) = au_tenants db"
  "au_codes (snd (update_primary_secret_fingerprint env db user f now)) = au_codes db"
  by (simp_all add: update_primary_secret_fingerprint_def Let_def)

lemma session_create_keeps [simp]:
  "au_challenges (snd (session_create env db n)) = au_challenges db"
  "au_users (snd (session_create env db n)) = au_users db"
  "au_bindings (snd (session_create env db n)) = au_bindings db"
  by (simp_all add: session_create_def Let_def)

lemma session_revoke_keeps [simp]:
  "au_challenges (snd (session_revoke env db s now)) = au_challenges db"
  "au_users (snd (session_revoke env db s now)) = au_users db"
  by (simp_all add: session_revoke_def Let_def)

lemma transpose_option_SomeD:
  "transpose_option (map_option f x) = Ok (Some y) \<Longrightarrow> \<exists>z. x = Some z \<and> f z = Ok y"
  by (cases x) (auto simp: and_then_eq_Ok)

lemma map_email_verification_challenge_row_OkD:
  "map_email_verification_challenge_row r = Ok c \<Longrightarrow>
   evc_id c = cr_id r \<and> evc_email_normalized c = cr_email_normalized r \<and>
   cr_purpose r = AuthChallengePurpose_as_str (evc_purpose c) \<and> evc_code_hash c = cr_code_hash r \<and>
   evc_attempt_count c = cr_attempt_count r \<and> evc_max_attempts c = cr_max_attempts r \<and>
   evc_expires_at c = cr_expires_at r \<and> evc_consumed_at c = cr_consumed_at r \<and>
   evc_created_at c = cr_created_at r"
  by (auto simp: map_email_verification_challenge_row_def and_then_eq_Ok ok_or_eq_Ok
      AuthChallengePurpose_wire.from_str_eq_Some)

section \<open>Normalised addresses\<close>

text \<open>A change of letters that leaves the characters of white space alone commutes with \<open>trim\<close>.\<close>

lemma starts_with_map:
  assumes "\<And>c d. c \<in> set w \<Longrightarrow> f d = c \<longleftrightarrow> d = c"
  shows "starts_with w (map f s) \<longleftrightarrow> starts_with w s"
  using assms
proof (induction w arbitrary: s)
  case (Cons c w)
  then show ?case by (cases s) (auto simp: starts_with_def)
qed (simp add: starts_with_def)

lemma strip_words_map:
  assumes "\<And>w c d. w \<in> set ws \<Longrightarrow> c \<in> set w \<Longrightarrow> f d = c \<longleftrightarrow> d = c"
  shows "strip_words ws (map f s) = map f (strip_words ws s)"
  using assms
proof (induction ws s rule: strip_words.induct)
  case (1 ws s)
  have same: "find (\<lambda>w. w \<noteq> [] \<and> starts_with w (map f s)) ws =
      find (\<lambda>w. w \<noteq> [] \<and> starts_with w s) ws"
    using "1.prems" by (intro find_cong) (auto simp: starts_with_map)
  show ?case
  proof (cases "find (\<lambda>w. w \<noteq> [] \<and> starts_with w s) ws")
    case None
    with same have "no_word_prefix ws (map f s)" and "no_word_prefix ws s"
      by (simp_all add: find_word_None [symmetric])
    then show ?thesis by (simp add: strip_words_done)
  next
    case (Some w)
    then have "strip_words ws (map f (drop (length w) s)) = map f (strip_words ws (drop (length w) s))"
      by (rule "1.IH") (rule "1.prems")
    then show ?thesis
      using Some same by (simp only: strip_words_step drop_map)
  qed
qed

definition lower_char :: "char \<Rightarrow> char" where
  "lower_char c = (let n = (of_char c :: nat) in if 65 \<le> n \<and> n \<le> 90 then char_of (n + 32) else c)"

lemma lower_char_lower: "lower_char (lower_char c) = lower_char c"
  by (simp add: lower_char_def Let_def of_char_of)

lemma white_space_not_letter:
  "\<forall>w \<in> set white_space_encodings. \<forall>c \<in> set w. (of_char c :: nat) < 65 \<or> 122 < (of_char c :: nat)"
  by (auto simp: white_space_encodings_def byte_def of_char_of upt_conv_Cons)

lemma lower_char_white:
  assumes "w \<in> set white_space_encodings" and "c \<in> set w"
  shows "lower_char d = c \<longleftrightarrow> d = c"
proof -
  have "(of_char c :: nat) < 65 \<or> 122 < (of_char c :: nat)"
    using white_space_not_letter assms by blast
  then show ?thesis
    by (auto simp: lower_char_def Let_def of_char_of split: if_splits)
qed

lemma trim_lowercase: "trim (to_ascii_lowercase s) = to_ascii_lowercase (trim s)"
proof -
  have "to_ascii_lowercase = map lower_char"
    by (auto simp: to_ascii_lowercase_def lower_char_def)
  moreover have "strip_words (map rev white_space_encodings) (map lower_char t) =
      map lower_char (strip_words (map rev white_space_encodings) t)" for t
  proof (rule strip_words_map)
    fix w c d
    assume "w \<in> set (map rev white_space_encodings)" and "c \<in> set w"
    then show "lower_char d = c \<longleftrightarrow> d = c"
      using lower_char_white [of "rev w" c d] by auto
  qed
  then have "trim (map lower_char s) = map lower_char (trim s)"
    by (simp add: trim_def trim_start_def trim_end_def strip_words_map lower_char_white
        rev_map)
  ultimately show ?thesis by simp
qed

lemma normalize_email_idem [simp]: "normalize_email (normalize_email e) = normalize_email e"
proof -
  have "to_ascii_lowercase (to_ascii_lowercase s) = to_ascii_lowercase s" for s
    using lower_char_lower by (simp add: to_ascii_lowercase_def lower_char_def comp_def)
  then show ?thesis by (simp add: normalize_email_def trim_lowercase)
qed

end
