(* ===== verification/Auth_Calls.thy ===== *)
theory Auth_Calls
  imports Email_Auth
begin

text \<open>
  What the handlers of \<open>Email_Auth\<close> promise of the one-time codes and the sessions. \<open>code_step\<close> is the
  abstract machine of the table of codes: a code is sent, guessed wrongly (the label names the address
  and the purpose, unless the guess was not answered), used, or nothing happens.
  Every handler call is one step of it when it runs alone (\<open>perform_refines\<close>). Requests are answered at
  the same time, though, and a verification reads a code in one statement and counts the guess in
  another: \<open>serve\<close> lets the statements that touch the codes follow one another in any order, and the
  bound on the guesses is proved of it (\<open>guesses_bounded\<close>). It grows with the number of verifications
  that run at once, which the code does not limit (\<open>stale_guesses_answered\<close>).
\<close>

section \<open>The machine of the codes\<close>

definition same_code :: "auth_env \<Rightarrow> challenge_row \<Rightarrow> challenge_row \<Rightarrow> bool" where
  "same_code env r s \<longleftrightarrow> cr_tenant_id s = ae_tenant_id env \<and> cr_id s = cr_id r"

definition code_of :: "auth_env \<Rightarrow> string \<Rightarrow> AuthChallengePurpose \<Rightarrow> challenge_row \<Rightarrow> bool" where
  "code_of env email purpose r \<longleftrightarrow>
     cr_tenant_id r = ae_tenant_id env \<and> cr_email_normalized r = email \<and>
     cr_purpose r = AuthChallengePurpose_as_str purpose"

definition open_code :: "datetime \<Rightarrow> challenge_row \<Rightarrow> bool" where
  "open_code now r \<longleftrightarrow>
     cr_consumed_at r = None \<and> now \<le> cr_expires_at r \<and> cr_attempt_count r < cr_max_attempts r"

definition codes_since ::
    "auth_env \<Rightarrow> string \<Rightarrow> AuthChallengePurpose \<Rightarrow> datetime \<Rightarrow> challenge_row list \<Rightarrow> nat" where
  "codes_since env email purpose since t =
     length (filter (\<lambda>r. code_of env email purpose r \<and> cr_created_at r \<ge> since) t)"

definition new_code :: "auth_env \<Rightarrow> datetime \<Rightarrow> string \<Rightarrow> AuthChallengePurpose \<Rightarrow> challenge_row \<Rightarrow> bool" where
  "new_code env now email purpose r \<longleftrightarrow>
     code_of env email purpose r \<and> cr_attempt_count r = 0 \<and> cr_max_attempts r = DEFAULT_MAX_ATTEMPTS \<and>
     cr_created_at r = now \<and> cr_expires_at r = now + minutes DEFAULT_TTL_MINUTES \<and>
     cr_consumed_at r = None"

inductive code_step ::
    "auth_env \<Rightarrow> datetime \<Rightarrow> (string \<times> AuthChallengePurpose) option \<Rightarrow> challenge_row list \<Rightarrow>
     challenge_row list \<Rightarrow> bool" for env now where
  kept: "code_step env now None t t"
| sent: "code_step env now None t (t @ [r])"
    if "new_code env now email purpose r" and "\<forall>s \<in> set t. cr_id s \<noteq> cr_id r"
    and "codes_since env email purpose (now - minutes AUTH_EMAIL_RATE_LIMIT_WINDOW_MINUTES) t
           < AUTH_EMAIL_RATE_LIMIT_MAX_PER_EMAIL"
| used: "code_step env now None t
      (update_where (same_code env r) (\<lambda>s. s\<lparr>cr_consumed_at := Some now\<rparr>) t)"
    if "r \<in> set t" and "open_code now r"
| guessed: "code_step env now guess t
      (update_where (same_code env r) (\<lambda>s. s\<lparr>cr_attempt_count := cr_attempt_count s + 1\<rparr>) t)"
    if "r \<in> set t" and "open_code now r" and "code_of env email purpose r"
    and "guess = None \<or> guess = Some (email, purpose)"

section \<open>Calls\<close>

datatype auth_call =
    Start_call StartEmailAuthRequest
  | Bind_call BindEmailRequest
  | Verify_call VerifyEmailAuthRequest
  | Key_call KeyLoginRequest
  | Rotate_call header_map KeyRotateRequest
  | Logout_call header_map

definition answer :: "('a, ApiError) result \<Rightarrow> string option" where
  "answer r = (case r of Inl e \<Rightarrow> Some (api_code e) | Inr _ \<Rightarrow> None)"

definition answered :: "('a, ApiError) result \<times> auth_db \<Rightarrow> string option \<times> auth_db" where
  "answered rs = (answer (fst rs), snd rs)"

fun perform :: "auth_env \<Rightarrow> auth_db \<Rightarrow> datetime \<Rightarrow> auth_call \<Rightarrow> string option \<times> auth_db" where
  "perform env db now (Start_call request) = answered (start_email_auth env db now request)"
| "perform env db now (Bind_call request) = answered (bind_auth_email env db now request)"
| "perform env db now (Verify_call request) = answered (verify_email_auth env db now request)"
| "perform env db now (Key_call request) = answered (login_with_local_key env db now request)"
| "perform env db now (Rotate_call headers request) =
     answered (rotate_local_key env db now headers request)"
| "perform env db now (Logout_call headers) = answered (logout_auth_session env db now headers)"

text \<open>A call guessed a code wrongly when it was answered with \<open>verification_code_invalid\<close>.\<close>

fun wrong_guess :: "auth_call \<Rightarrow> string option \<Rightarrow> (string \<times> AuthChallengePurpose) option" where
  "wrong_guess (Verify_call request) (Some code) =
     (if code = ''verification_code_invalid''
      then Some (normalize_email (vq_email request), vq_purpose request) else None)"
| "wrong_guess _ _ = None"

section \<open>Calls are steps of the machine\<close>

lemma then_with_cases:
  assumes "\<And>e. fst rs = Err e \<Longrightarrow> P (Err e, snd rs)"
    and "\<And>x. fst rs = Ok x \<Longrightarrow> P (k x (snd rs))"
  shows "P (then_with rs k)"
  using assms by (cases "fst rs") (auto simp: then_with_def)

lemma then_with_snd:
  assumes "\<And>e. fst rs = Err e \<Longrightarrow> Q (snd rs)"
    and "\<And>x. fst rs = Ok x \<Longrightarrow> Q (snd (k x (snd rs)))"
  shows "Q (snd (then_with rs k))"
  using assms by (cases "fst rs") (auto simp: then_with_def)

lemma record_audit_keeps [simp]:
  "au_challenges (record_auth_audit_event env db now ev out u s e d m) = au_challenges db"
  "au_sessions (record_auth_audit_event env db now ev out u s e d m) = au_sessions db"
  "au_users (record_auth_audit_event env db now ev out u s e d m) = au_users db"
  "au_tenants (record_auth_audit_event env db now ev out u s e d m) = au_tenants db"
  "au_bindings (record_auth_audit_event env db now ev out u s e d m) = au_bindings db"
  "au_codes (record_auth_audit_event env db now ev out u s e d m) = au_codes db"
  "au_draws (record_auth_audit_event env db now ev out u s e d m) = Suc (au_draws db)"
  by (simp_all add: record_auth_audit_event_def)

lemma create_auth_session_keeps [simp]:
  "au_challenges (snd (create_auth_session env db now u m d)) = au_challenges db"
  "au_users (snd (create_auth_session env db now u m d)) = au_users db"
  by (simp_all add: create_auth_session_def Let_def then_with_def split: sum.splits)

lemma rate_limit_keeps [simp]:
  "au_challenges (snd (enforce_email_challenge_rate_limit env db e p d now ev)) = au_challenges db"
  by (simp add: enforce_email_challenge_rate_limit_def Let_def split: option.splits)

lemma rate_limit_Ok:
  "fst (enforce_email_challenge_rate_limit env db email purpose d now ev) = Ok () \<Longrightarrow>
   codes_since env email purpose (now - minutes AUTH_EMAIL_RATE_LIMIT_WINDOW_MINUTES)
     (au_challenges db) < AUTH_EMAIL_RATE_LIMIT_MAX_PER_EMAIL"
  by (auto simp: enforce_email_challenge_rate_limit_def Let_def codes_since_def code_of_def
      count_created_since_by_email_and_purpose_def conj_assoc split: if_splits)

lemma challenge_create_effect:
  assumes "challenge_create env db n = (Ok c, db')"
  obtains r where "au_challenges db' = au_challenges db @ [r]"
    and "\<forall>s \<in> set (au_challenges db). cr_id s \<noteq> cr_id r" and "cr_tenant_id r = ae_tenant_id env"
    and "cr_email_normalized r = nev_email_normalized n"
    and "cr_purpose r = AuthChallengePurpose_as_str (nev_purpose n)"
    and "cr_attempt_count r = 0" and "cr_max_attempts r = nev_max_attempts n"
    and "cr_expires_at r = nev_expires_at n" and "cr_consumed_at r = None"
    and "cr_created_at r = nev_created_at n"
  using assms by (auto simp: challenge_create_def Let_def list_ex_iff split: if_splits)

lemma challenge_create_Err: "fst (challenge_create env db n) = Err e \<Longrightarrow>
   au_challenges (snd (challenge_create env db n)) = au_challenges db"
  by (auto simp: challenge_create_def Let_def map_email_verification_challenge_row_def
      AuthChallengePurpose_wire.from_as split: if_splits)

lemma email_otp_service_Ok: "email_otp_service env = Ok service \<Longrightarrow>
   os_max_attempts service = DEFAULT_MAX_ATTEMPTS \<and> os_ttl service = minutes DEFAULT_TTL_MINUTES"
  by (auto simp: email_otp_service_def EmailOtpService_new_def split: if_splits)

lemma storage_eq_Err: "storage env r = Err e \<longleftrightarrow>
    (\<exists>e'. r = Err e' \<and> e = from_storage (ae_db_message env) e')"
  by (cases r) (auto simp: storage_def)

lemma validate_auth_email_Ok: "validate_auth_email e = Ok email \<Longrightarrow> email = normalize_email e"
  by (auto simp: validate_auth_email_def and_then_eq_Ok Let_def split: if_splits)

text \<open>A started challenge leaves the codes alone, or is below the limit and creates one code.\<close>

definition creates_code ::
    "auth_env \<Rightarrow> auth_db \<Rightarrow> datetime \<Rightarrow> string \<Rightarrow> AuthChallengePurpose \<Rightarrow>
     challenge_row list \<Rightarrow> bool" where
  "creates_code env db now email purpose t \<longleftrightarrow> (\<exists>service n m c db0 db1.
     email_otp_service env = Ok service \<and> au_challenges db0 = au_challenges db \<and>
     challenge_create env db0 ((pc_challenge (prepare_challenge env service n email purpose now))
       \<lparr>nev_metadata := m\<rparr>) = (Ok c, db1) \<and> t = au_challenges db1)"

abbreviation below_limit ::
    "auth_env \<Rightarrow> auth_db \<Rightarrow> datetime \<Rightarrow> string \<Rightarrow> AuthChallengePurpose \<Rightarrow> bool" where
  "below_limit env db now email purpose \<equiv>
     codes_since env email purpose (now - minutes AUTH_EMAIL_RATE_LIMIT_WINDOW_MINUTES)
       (au_challenges db) < AUTH_EMAIL_RATE_LIMIT_MAX_PER_EMAIL"

lemma start_challenge_creates:
  fixes env db now email purpose device event details
  defines "db' \<equiv> snd (start_challenge env db now email purpose device event details)"
  shows "au_challenges db' = au_challenges db \<or>
    below_limit env db now email purpose \<and> creates_code env db now email purpose (au_challenges db')"
proof -
  let ?Q = "\<lambda>db'. au_challenges db' = au_challenges db \<or>
    below_limit env db now email purpose \<and> creates_code env db now email purpose (au_challenges db')"
  have sent: "?Q db'"
    if "fst (enforce_email_challenge_rate_limit env db email purpose device now event) = Ok ()"
      and "email_otp_service env = Ok service"
      and "challenge_create env db0 ((pc_challenge (prepare_challenge env service n email
        purpose now))\<lparr>nev_metadata := m\<rparr>) = (Ok c, db1)"
      and "au_challenges db0 = au_challenges db"
      and "au_challenges db' = au_challenges db1" for service n m c db0 db1 db'
    unfolding creates_code_def using that rate_limit_Ok [OF that(1)] by blast
  show ?thesis
    unfolding db'_def start_challenge_def Let_def
    apply (rule then_with_snd [where Q = ?Q])
     apply simp
    apply (simp only: snd_conv)
    subgoal for reusable
      apply (cases reusable)
       apply simp_all
      apply (rule then_with_snd [where Q = ?Q])
       apply simp
      apply (rule then_with_snd [where Q = ?Q])
       apply simp
      apply (rule then_with_snd [where Q = ?Q])
       apply simp
      apply (rule then_with_snd [where Q = ?Q])
       apply (auto simp: storage_eq_Err challenge_create_Err)[1]
      apply simp
      apply (rule sent)
          apply simp
         apply assumption
        apply (rule prod_eqI)
         apply simp
        apply simp
       apply simp
      apply simp
      done
    done
qed

lemma prepared_code:
  assumes "email_otp_service env = Ok service"
    and "challenge_create env db ((pc_challenge (prepare_challenge env service n email purpose now))
       \<lparr>nev_metadata := m\<rparr>) = (r, db')"
  shows "au_challenges db' = au_challenges db \<or> (\<exists>r. au_challenges db' = au_challenges db @ [r] \<and>
    (\<forall>s \<in> set (au_challenges db). cr_id s \<noteq> cr_id r) \<and> new_code env now (normalize_email email) purpose r)"
proof (cases r)
  case (Inl e)
  with assms(2) challenge_create_Err [of env db] show ?thesis by (metis fst_conv snd_conv)
next
  case (Inr c)
  have "challenge_create env db ((pc_challenge (prepare_challenge env service n email purpose now))
       \<lparr>nev_metadata := m\<rparr>) = (Ok c, db')"
    using assms(2) Inr by simp
  then show ?thesis
    by (rule challenge_create_effect)
      (use email_otp_service_Ok [OF assms(1)] in \<open>auto simp: new_code_def code_of_def prepare_challenge_def Let_def\<close>)
qed

lemma start_challenge_step:
  assumes "email = normalize_email raw"
  shows "code_step env now None (au_challenges db)
    (au_challenges (snd (start_challenge env db now email purpose device event details)))"
proof -
  let ?db' = "snd (start_challenge env db now email purpose device event details)"
  consider "au_challenges ?db' = au_challenges db"
    | "below_limit env db now email purpose" "creates_code env db now email purpose (au_challenges ?db')"
    using start_challenge_creates by blast
  then show ?thesis
  proof cases
    case 2
    from 2(2) obtain r where "au_challenges ?db' = au_challenges db \<or>
      au_challenges ?db' = au_challenges db @ [r] \<and>
      (\<forall>s \<in> set (au_challenges db). cr_id s \<noteq> cr_id r) \<and> new_code env now (normalize_email email) purpose r"
      unfolding creates_code_def by (metis prepared_code)
    then show ?thesis
      using assms 2(1) by (auto intro: code_step.kept code_step.sent)
  qed (simp add: code_step.kept)
qed

lemma latest_active_SomeD:
  assumes "latest_active_by_email_and_purpose env db email purpose = Ok (Some c)"
  obtains r where "r \<in> set (au_challenges db)" and "code_of env email purpose r"
    and "cr_consumed_at r = None" and "map_email_verification_challenge_row r = Ok c"
    and "\<And>s. s \<in> set (au_challenges db) \<Longrightarrow> code_of env email purpose s \<Longrightarrow>
      cr_consumed_at s = None \<Longrightarrow> cr_created_at s \<le> cr_created_at r"
proof -
  obtain r where r: "first_by (\<lambda>r. - cr_created_at r)
      (filter (active_challenge env email purpose) (au_challenges db)) = Some r"
    and c: "map_email_verification_challenge_row r = Ok c"
    using assms by (cases "first_by (\<lambda>r. - cr_created_at r)
      (filter (active_challenge env email purpose) (au_challenges db))")
      (auto simp: latest_active_by_email_and_purpose_def and_then_eq_Ok)
  from first_by_filterD [OF r] c that show ?thesis
    by (auto simp: active_challenge_def code_of_def)
qed

lemma verify_challenge_cases:
  assumes "map_email_verification_challenge_row r = Ok c"
  shows "verify_challenge env service c code now \<in> {Valid, Invalid} \<longleftrightarrow> open_code now r"
  using map_email_verification_challenge_row_OkD [OF assms]
  by (auto simp: verify_challenge_def open_code_def)

lemma from_storage_code [simp]: "api_code (from_storage m e) \<noteq> ''verification_code_invalid''"
  by (cases e) (simp_all add: from_storage_def bad_request_def internal_def)

lemma storage_Err_code: "storage env r = Err e \<Longrightarrow> api_code e \<noteq> ''verification_code_invalid''"
  by (auto simp: storage_eq_Err)

lemma cookie_Err_code:
  "set_session_cookie_headers env tok = Err e \<Longrightarrow> api_code e = ''auth_cookie_invalid''"
  by (auto simp: set_session_cookie_headers_def header_of_def and_then_eq_Err internal_def map_err_def
      split: sum.splits)

lemma service_Err_code: "email_otp_service env = Err e \<Longrightarrow> api_code e = ''auth_config_invalid''"
  by (auto simp: email_otp_service_def internal_def map_err_def split: sum.splits)

lemma validation_Err_code:
  "validate_auth_email e = Err err \<Longrightarrow> api_code err \<in> {''validation_error'', ''invalid_email''}"
  "validate_required f s = Err err \<Longrightarrow> api_code err = ''validation_error''"
  by (auto simp: validate_auth_email_def and_then_eq_Err validate_required_def bad_request_def Let_def
      split: if_splits)

lemma login_verified_step:
  "au_challenges (snd (login_verified env db now request email c)) = au_challenges db \<and>
   answer (fst (login_verified env db now request email c)) \<noteq> Some ''verification_code_invalid''"
  unfolding login_verified_def Let_def create_auth_session_def
  by (auto simp: then_with_def answer_def split: sum.splits prod.splits
      dest: storage_Err_code cookie_Err_code)

lemma verify_failure_step [simp]:
  "au_challenges (snd (verify_failure env db now request email details reason message)) =
     au_challenges db"
  "fst (verify_failure env db now request email details reason message) =
     Err (bad_request reason message)"
  by (simp_all add: verify_failure_def)

lemma update_of_row:
  "map_email_verification_challenge_row r = Ok c \<Longrightarrow>
   (\<lambda>s. cr_tenant_id s = ae_tenant_id env \<and> cr_id s = evc_id c) = same_code env r"
  by (auto simp: fun_eq_iff same_code_def dest: map_email_verification_challenge_row_OkD)

lemma mark_consumed_effect:
  "map_email_verification_challenge_row r = Ok c \<Longrightarrow>
   au_challenges (snd (mark_consumed env db (evc_id c) now)) =
     update_where (same_code env r) (\<lambda>s. s\<lparr>cr_consumed_at := Some now\<rparr>) (au_challenges db)"
  by (simp add: mark_consumed_def Let_def update_of_row)

lemma increment_attempt_count_effect:
  "map_email_verification_challenge_row r = Ok c \<Longrightarrow>
   fst (increment_attempt_count env db (evc_id c)) = Ok x \<Longrightarrow>
   au_challenges (snd (increment_attempt_count env db (evc_id c))) =
     update_where (same_code env r) (\<lambda>s. s\<lparr>cr_attempt_count := cr_attempt_count s + 1\<rparr>)
       (au_challenges db)"
  "map_email_verification_challenge_row r = Ok c \<Longrightarrow>
   au_challenges (snd (increment_attempt_count env db (evc_id c))) \<in>
     {au_challenges db,
      update_where (same_code env r) (\<lambda>s. s\<lparr>cr_attempt_count := cr_attempt_count s + 1\<rparr>)
        (au_challenges db)}"
  by (auto simp: increment_attempt_count_def Let_def update_of_row)

abbreviation verify_step ::
    "auth_env \<Rightarrow> auth_db \<Rightarrow> datetime \<Rightarrow> VerifyEmailAuthRequest \<Rightarrow> ('a, ApiError) result \<times> auth_db \<Rightarrow>
     bool" where
  "verify_step env db now request rs \<equiv>
     code_step env now (wrong_guess (Verify_call request) (answer (fst rs))) (au_challenges db)
       (au_challenges (snd rs))"

lemma verify_step_kept:
  "answer (fst rs) \<noteq> Some ''verification_code_invalid'' \<Longrightarrow> au_challenges (snd rs) = au_challenges db \<Longrightarrow>
   verify_step env db now request rs"
  by (cases "answer (fst rs)") (simp_all add: code_step.kept)

lemma verify_against_step:
  assumes r: "r \<in> set (au_challenges db)" "code_of env (normalize_email (vq_email request)) (vq_purpose request) r"
    and c: "map_email_verification_challenge_row r = Ok c"
  shows "verify_step env db now request (verify_against env db now request email c)"
proof (cases "email_otp_service env")
  case (Inl e)
  then show ?thesis
    by (intro verify_step_kept)
      (auto simp: verify_against_def answer_def dest: service_Err_code)
next
  case (Inr service)
  note status = verify_challenge_cases [OF c, of env service "vq_code request" now]
  show ?thesis
  proof (cases "verify_challenge env service c (vq_code request) now")
    case Valid
    let ?db = "snd (mark_consumed env db (evc_id c) now)"
    have "code_step env now None (au_challenges db) (au_challenges ?db)"
      unfolding mark_consumed_effect [OF c] using r status Valid by (auto intro: code_step.used)
    moreover have "au_challenges (snd (verify_against env db now request email c)) = au_challenges ?db \<and>
        answer (fst (verify_against env db now request email c)) \<noteq> Some ''verification_code_invalid''"
    proof (cases "fst (mark_consumed env db (evc_id c) now)")
      case (Inr x)
      then have "verify_against env db now request email c = login_verified env ?db now request email c"
        using \<open>email_otp_service env = Inr service\<close> Valid
        by (simp add: verify_against_def then_with_def storage_def)
      then show ?thesis using login_verified_step by simp
    qed (use Inr Valid in \<open>simp add: verify_against_def then_with_def storage_def answer_def\<close>)
    ultimately show ?thesis
      by (cases "answer (fst (verify_against env db now request email c))") auto
  next
    case Invalid
    let ?out = "increment_attempt_count env db (evc_id c)"
    have step: "code_step env now guess (au_challenges db) (update_where (same_code env r)
        (\<lambda>s. s\<lparr>cr_attempt_count := cr_attempt_count s + 1\<rparr>) (au_challenges db))"
      if "guess = None \<or> guess = Some (normalize_email (vq_email request), vq_purpose request)" for guess
      using r status Invalid that by (auto intro: code_step.guessed)
    show ?thesis
    proof (cases "fst ?out")
      case (Inl e)
      then have "verify_against env db now request email c =
          (Err (from_storage (ae_db_message env) e), snd ?out)"
        using \<open>email_otp_service env = Inr service\<close> Invalid
        by (simp add: verify_against_def then_with_def storage_def)
      then show ?thesis
        using increment_attempt_count_effect(2) [OF c, of env db] step [of None] code_step.kept
        by (auto simp: answer_def)
    next
      case (Inr x)
      then show ?thesis
        using \<open>email_otp_service env = Inr service\<close> Invalid step
          increment_attempt_count_effect(1) [OF c Inr]
        by (simp add: verify_against_def then_with_def storage_def answer_def bad_request_def)
    qed
  qed (use Inr in \<open>auto intro!: verify_step_kept code_step.kept
      simp: verify_against_def answer_def bad_request_def\<close>)
qed

text \<open>A verification reads a code and goes on with it, or answers without having touched the codes.\<close>

definition reads_code ::
    "auth_env \<Rightarrow> auth_db \<Rightarrow> VerifyEmailAuthRequest \<Rightarrow> string \<Rightarrow> EmailVerificationChallenge \<Rightarrow> bool" where
  "reads_code env db request email challenge \<longleftrightarrow>
     validate_auth_email (vq_email request) = Ok email \<and>
     validate_required ''code'' (vq_code request) = Ok () \<and>
     email_auth_verify_creates_session_for_purpose (vq_purpose request) \<and>
     latest_active_by_email_and_purpose env db email (vq_purpose request) = Ok (Some challenge)"

lemma verify_email_auth_cases:
  fixes env db now request
  defines "rs \<equiv> verify_email_auth env db now request"
  shows "(\<exists>email c. reads_code env db request email c \<and> rs = verify_against env db now request email c) \<or>
    answer (fst rs) \<noteq> Some ''verification_code_invalid'' \<and> au_challenges (snd rs) = au_challenges db"
proof -
  let ?same = "\<lambda>rs. answer (fst rs) \<noteq> Some ''verification_code_invalid'' \<and>
    au_challenges (snd rs) = au_challenges db"
  let ?P = "\<lambda>rs. (\<exists>email c. reads_code env db request email c \<and>
      rs = verify_against env db now request email c) \<or> ?same rs"
  have failure: "?P (verify_failure env db now request email details reason message)"
    if "reason \<noteq> ''verification_code_invalid''" for email details reason message
    using that by (simp add: answer_def bad_request_def)
  show ?thesis
    unfolding rs_def verify_email_auth_def
    apply (rule then_with_cases [where P = ?P])
     apply (rule disjI2; auto simp: answer_def dest: validation_Err_code(1))
    apply (rule then_with_cases [where P = ?P])
     apply (rule disjI2; auto simp: answer_def dest: validation_Err_code(2))
    apply (simp only: split: if_split)
    apply (intro conjI impI)
     apply (simp only: snd_conv)
     apply (rule failure, simp)
    apply (rule then_with_cases [where P = ?P])
     apply (rule disjI2; auto simp: answer_def storage_eq_Err)
    apply (simp only: fst_conv snd_conv storage_eq_Ok split: option.split)
    apply (intro conjI impI allI)
     apply (rule failure, simp)
    apply (rule disjI1)
    apply (auto simp: reads_code_def)
    done
qed

lemma verify_email_auth_step: "verify_step env db now request (verify_email_auth env db now request)"
proof -
  let ?rs = "verify_email_auth env db now request"
  consider email c where "reads_code env db request email c"
      "?rs = verify_against env db now request email c"
    | "answer (fst ?rs) \<noteq> Some ''verification_code_invalid''" "au_challenges (snd ?rs) = au_challenges db"
    using verify_email_auth_cases by blast
  then show ?thesis
  proof cases
    case (1 email c)
    from 1(1) have email: "email = normalize_email (vq_email request)"
      and c: "latest_active_by_email_and_purpose env db email (vq_purpose request) = Ok (Some c)"
      by (auto simp: reads_code_def dest: validate_auth_email_Ok)
    from c show ?thesis
      unfolding 1(2) by (rule latest_active_SomeD) (auto simp: email intro: verify_against_step)
  qed (rule verify_step_kept)
qed

lemma key_login_keeps: "au_challenges (snd (login_with_local_key env db now request)) = au_challenges db"
  unfolding login_with_local_key_def Let_def
  by (simp add: then_with_def split: sum.splits prod.splits option.splits)

lemma rotate_keeps: "au_challenges (snd (rotate_local_key env db now headers request)) = au_challenges db"
  unfolding rotate_local_key_def Let_def
  by (simp add: then_with_def split: sum.splits prod.splits option.splits)

lemma logout_keeps: "au_challenges (snd (logout_auth_session env db now headers)) = au_challenges db"
  unfolding logout_auth_session_def Let_def
  by (simp add: then_with_def split: sum.splits prod.splits option.splits)

lemma start_call_step:
  "code_step env now None (au_challenges db) (au_challenges (snd (start_email_auth env db now request)))"
  unfolding start_email_auth_def
  apply (rule then_with_snd [where Q = "\<lambda>db'. code_step env now None (au_challenges db) (au_challenges db')"])
   apply (simp add: code_step.kept)
  apply (rule then_with_snd [where Q = "\<lambda>db'. code_step env now None (au_challenges db) (au_challenges db')"])
   apply (simp add: code_step.kept)
  apply (rule then_with_snd [where Q = "\<lambda>db'. code_step env now None (au_challenges db) (au_challenges db')"])
   apply (auto dest: validate_auth_email_Ok intro: start_challenge_step split: prod.splits)
  done

lemma bind_call_step:
  "code_step env now None (au_challenges db) (au_challenges (snd (bind_auth_email env db now request)))"
  unfolding bind_auth_email_def
  apply (rule then_with_snd [where Q = "\<lambda>db'. code_step env now None (au_challenges db) (au_challenges db')"])
   apply (simp add: code_step.kept)
  apply (rule then_with_snd [where Q = "\<lambda>db'. code_step env now None (au_challenges db) (au_challenges db')"])
   apply (auto dest: validate_auth_email_Ok intro: start_challenge_step split: prod.splits)
  done

lemma perform_step:
  "code_step env now (wrong_guess call (fst (perform env db now call))) (au_challenges db)
     (au_challenges (snd (perform env db now call)))"
proof (cases call)
  case (Verify_call request)
  then show ?thesis using verify_email_auth_step by (simp add: answered_def)
qed (simp_all add: answered_def key_login_keeps rotate_keeps logout_keeps code_step.kept
  start_call_step bind_call_step)

text \<open>C7: Every call of a handler is one step of the machine of the codes, and a call that answers that
  the code is wrong is a counted guess of a code of its address and purpose that is not used, not
  expired and has attempts left.\<close>

theorem perform_refines:
  "code_step env now (wrong_guess call (fst (perform env db now call))) (au_challenges db)
     (au_challenges (snd (perform env db now call)))"
  by (rule perform_step)

section \<open>Bounds of the machine\<close>

definition codes_in ::
    "auth_env \<Rightarrow> string \<Rightarrow> AuthChallengePurpose \<Rightarrow> datetime \<Rightarrow> datetime \<Rightarrow> challenge_row list \<Rightarrow> nat" where
  "codes_in env email purpose first until t =
     length (filter (\<lambda>r. code_of env email purpose r \<and> first \<le> cr_created_at r \<and>
       cr_created_at r \<le> until) t)"

definition attempts :: "auth_env \<Rightarrow> string \<Rightarrow> AuthChallengePurpose \<Rightarrow> challenge_row list \<Rightarrow> int" where
  "attempts env email purpose t =
     sum_list (map cr_attempt_count (filter (code_of env email purpose) t))"

definition code_wf :: "challenge_row \<Rightarrow> bool" where
  "code_wf r \<longleftrightarrow> 0 \<le> cr_attempt_count r \<and> cr_attempt_count r \<le> cr_max_attempts r \<and>
     cr_max_attempts r = DEFAULT_MAX_ATTEMPTS"

abbreviation window_full :: "auth_env \<Rightarrow> challenge_row list \<Rightarrow> string \<Rightarrow> AuthChallengePurpose \<Rightarrow> datetime \<Rightarrow> bool" where
  "window_full env t email purpose first \<equiv>
     AUTH_EMAIL_RATE_LIMIT_MAX_PER_EMAIL <
       codes_in env email purpose first (first + minutes AUTH_EMAIL_RATE_LIMIT_WINDOW_MINUTES) t"

definition codes_wf :: "auth_env \<Rightarrow> challenge_row list \<Rightarrow> bool" where
  "codes_wf env t \<longleftrightarrow> distinct (map cr_id t) \<and> list_all code_wf t \<and>
     (\<forall>email purpose first. \<not> window_full env t email purpose first)"

lemma filter_update_kept:
  assumes "\<And>r. p (f r) = p r"
  shows "filter p (update_where q f t) = update_where q f (filter p t)"
  using assms by (induction t) auto

lemma update_keeps_codes [simp]:
  "codes_in env e p a b (update_where q (\<lambda>s. s\<lparr>cr_consumed_at := v\<rparr>) t) = codes_in env e p a b t"
  "codes_in env e p a b (update_where q (\<lambda>s. s\<lparr>cr_attempt_count := g s\<rparr>) t) = codes_in env e p a b t"
  by (simp_all add: codes_in_def code_of_def filter_update_kept)

lemma codes_in_append: "codes_in env e p a b (t @ [r]) = codes_in env e p a b t +
    (if code_of env e p r \<and> a \<le> cr_created_at r \<and> cr_created_at r \<le> b then 1 else 0)"
  by (simp add: codes_in_def)

lemma code_of_unique: "code_of env e p r \<Longrightarrow> code_of env e' p' r \<Longrightarrow> e' = e \<and> p' = p"
  by (auto simp: code_of_def AuthChallengePurpose_wire.as_str_eq_iff)

lemma codes_in_since: "now - minutes AUTH_EMAIL_RATE_LIMIT_WINDOW_MINUTES \<le> a \<Longrightarrow>
    codes_in env e p a b t \<le> codes_since env e p (now - minutes AUTH_EMAIL_RATE_LIMIT_WINDOW_MINUTES) t"
  unfolding codes_in_def codes_since_def
  by (induction t) auto

lemma sent_keeps_window:
  assumes new: "new_code env now email purpose r"
    and limit: "codes_since env email purpose (now - minutes AUTH_EMAIL_RATE_LIMIT_WINDOW_MINUTES) t
      < AUTH_EMAIL_RATE_LIMIT_MAX_PER_EMAIL"
    and old: "\<not> window_full env t e p first"
  shows "\<not> window_full env (t @ [r]) e p first"
proof (cases "code_of env e p r \<and> first \<le> now \<and>
    now \<le> first + minutes AUTH_EMAIL_RATE_LIMIT_WINDOW_MINUTES")
  case True
  then have "e = email \<and> p = purpose"
    using new code_of_unique by (auto simp: new_code_def)
  then show ?thesis
    using True limit new codes_in_since [of now first env email purpose
      "first + minutes AUTH_EMAIL_RATE_LIMIT_WINDOW_MINUTES" t]
    by (simp add: codes_in_append new_code_def)
next
  case False
  then have "codes_in env e p first (first + minutes AUTH_EMAIL_RATE_LIMIT_WINDOW_MINUTES) (t @ [r]) =
      codes_in env e p first (first + minutes AUTH_EMAIL_RATE_LIMIT_WINDOW_MINUTES) t"
    using new by (auto simp: codes_in_append new_code_def)
  with old show ?thesis by simp
qed

lemma code_step_wf:
  assumes "code_step env now guess t t'" and "codes_wf env t"
  shows "codes_wf env t'"
  using assms
proof cases
  case (sent email purpose r)
  then show ?thesis
    using assms(2) sent_keeps_window [OF sent(3,5)]
    by (auto simp: codes_wf_def list_all_iff new_code_def code_wf_def DEFAULT_MAX_ATTEMPTS_def)
next
  case (used r)
  then show ?thesis
    using assms(2) by (auto simp: codes_wf_def list_all_iff map_update_where code_wf_def
      elim!: in_update_whereE)
next
  case (guessed r email purpose)
  have "code_wf s" if s: "s \<in> set t'" for s
  proof -
    obtain u where u: "u \<in> set t" and "s = (if same_code env r u
        then u\<lparr>cr_attempt_count := cr_attempt_count u + 1\<rparr> else u)"
      using s guessed(1) by (auto elim!: in_update_whereE)
    moreover have "code_wf u" using u assms(2) by (simp add: codes_wf_def list_all_iff)
    moreover have "u = r" if "same_code env r u"
      using that u guessed(2) assms(2) by (auto simp: same_code_def codes_wf_def dest: distinct_key_eq)
    ultimately show ?thesis
      using guessed(3) by (auto simp: code_wf_def open_code_def)
  qed
  then show ?thesis
    using assms(2) guessed(1) by (simp add: codes_wf_def list_all_iff map_update_where)
qed simp

lemma attempts_append [simp]: "attempts env e p (t @ [r]) = attempts env e p t +
    (if code_of env e p r then cr_attempt_count r else 0)"
  by (simp add: attempts_def)

lemma attempts_consumed [simp]:
  "attempts env e p (update_where q (\<lambda>s. s\<lparr>cr_consumed_at := v\<rparr>) t) = attempts env e p t"
  by (simp add: attempts_def code_of_def filter_update_kept map_update_where)

lemma attempts_counted:
  "attempts env e p (update_where q (\<lambda>s. s\<lparr>cr_attempt_count := cr_attempt_count s + 1\<rparr>) t) =
     attempts env e p t + int (length (filter (\<lambda>r. q r \<and> code_of env e p r) t))"
  by (induction t) (auto simp: attempts_def code_of_def)

text \<open>While the handlers run one at a time, whatever calls they answer and in whatever order their times
  are, at most five codes of an address and a purpose are created in any fifteen minutes.\<close>

lemma codes_per_window:
  assumes "(\<lambda>t t'. \<exists>now guess. code_step env now guess t t')\<^sup>*\<^sup>* [] t"
  shows "codes_in env email purpose first (first + minutes 15) t \<le> 5"
proof -
  have "codes_wf env t"
    using assms by (induction rule: rtranclp_induct) (auto simp: codes_wf_def codes_in_def dest: code_step_wf)
  then show ?thesis
    by (auto simp: codes_wf_def AUTH_EMAIL_RATE_LIMIT_MAX_PER_EMAIL_def
      AUTH_EMAIL_RATE_LIMIT_WINDOW_MINUTES_def not_less)
qed

section \<open>Requests that are answered at the same time\<close>

text \<open>
  A verification is one statement that reads the code and later one statement on the code it has read;
  between them other requests go on, and the code in hand may be stale. The state holds the database,
  the verifications that have read a code, each with the time it began at, and the guesses that were
  answered as wrong. At most \<open>c\<close> verifications are between their two statements. A code is inserted at
  any time, whatever the limits said when the request looked at them, and every other statement of a
  handler leaves the table of the codes alone.
\<close>

type_synonym reading = "datetime \<times> VerifyEmailAuthRequest \<times> string \<times> EmailVerificationChallenge"

record serving =
  sv_db :: auth_db
  sv_reading :: "reading list"
  sv_guesses :: "(string \<times> AuthChallengePurpose) list"

fun counted_guess :: "auth_call \<Rightarrow> string option \<Rightarrow> (string \<times> AuthChallengePurpose) list" where
  "counted_guess call said = (case wrong_guess call said of None \<Rightarrow> [] | Some guess \<Rightarrow> [guess])"

inductive serve :: "auth_env \<Rightarrow> nat \<Rightarrow> serving \<Rightarrow> serving \<Rightarrow> bool" for env c where
  reading: "serve env c s (s\<lparr>sv_reading := sv_reading s @ [(now, request, email, challenge)]\<rparr>)"
    if "length (sv_reading s) < c" and "reads_code env (sv_db s) request email challenge"
| going_on: "serve env c s (s\<lparr>sv_db := db, sv_reading := xs @ ys,
      sv_guesses := sv_guesses s @ counted_guess (Verify_call request) said\<rparr>)"
    if "sv_reading s = xs @ (now, request, email, challenge) # ys"
    and "answered (verify_against env (sv_db s) now request email challenge) = (said, db)"
| inserting: "serve env c s (s\<lparr>sv_db := db\<rparr>)"
    if "email_otp_service env = Ok service"
    and "challenge_create env (sv_db s) ((pc_challenge (prepare_challenge env service n email purpose now))
      \<lparr>nev_metadata := m\<rparr>) = (r, db)"
| other: "serve env c s (s\<lparr>sv_db := db\<rparr>)"
    if "au_challenges db = au_challenges (sv_db s)"

text \<open>Every call that is answered while there is room for it is a run of these steps.\<close>

lemma serve_start:
  assumes "au_challenges db' = au_challenges (sv_db s) \<or>
    creates_code env (sv_db s) now email purpose (au_challenges db')"
  shows "(serve env c)\<^sup>*\<^sup>* s (s\<lparr>sv_db := db'\<rparr>)"
  using assms
proof
  assume "au_challenges db' = au_challenges (sv_db s)"
  then show ?thesis by (intro r_into_rtranclp serve.other)
next
  assume "creates_code env (sv_db s) now email purpose (au_challenges db')"
  then obtain service n m x db0 db1 where e: "email_otp_service env = Ok service"
    and db0: "au_challenges db0 = au_challenges (sv_db s)"
    and create: "challenge_create env db0 ((pc_challenge (prepare_challenge env service n email purpose now))
      \<lparr>nev_metadata := m\<rparr>) = (Ok x, db1)" and db': "au_challenges db' = au_challenges db1"
    by (auto simp: creates_code_def)
  have "serve env c s (s\<lparr>sv_db := db0\<rparr>)"
    using db0 by (rule serve.other)
  moreover have "serve env c (s\<lparr>sv_db := db0\<rparr>) (s\<lparr>sv_db := db1\<rparr>)"
    using serve.inserting [of env service "s\<lparr>sv_db := db0\<rparr>"] e create by simp
  moreover have "serve env c (s\<lparr>sv_db := db1\<rparr>) (s\<lparr>sv_db := db'\<rparr>)"
    using serve.other [of db' "s\<lparr>sv_db := db1\<rparr>"] db' by simp
  ultimately show ?thesis
    by (rule converse_rtranclp_into_rtranclp [OF _ converse_rtranclp_into_rtranclp [OF _ r_into_rtranclp]])
qed

lemma start_email_auth_creates:
  "\<exists>email purpose. au_challenges (snd (start_email_auth env db now request)) = au_challenges db \<or>
     creates_code env db now email purpose (au_challenges (snd (start_email_auth env db now request)))"
  unfolding start_email_auth_def
  apply (rule then_with_snd [where Q = "\<lambda>db'. \<exists>email purpose. au_challenges db' = au_challenges db \<or>
      creates_code env db now email purpose (au_challenges db')"])
   apply simp
  apply (rule then_with_snd [where Q = "\<lambda>db'. \<exists>email purpose. au_challenges db' = au_challenges db \<or>
      creates_code env db now email purpose (au_challenges db')"])
   apply simp
  apply (rule then_with_snd [where Q = "\<lambda>db'. \<exists>email purpose. au_challenges db' = au_challenges db \<or>
      creates_code env db now email purpose (au_challenges db')"])
   apply (use start_challenge_creates in \<open>force split: prod.splits\<close>)+
  done

lemma bind_auth_email_creates:
  "\<exists>email purpose. au_challenges (snd (bind_auth_email env db now request)) = au_challenges db \<or>
     creates_code env db now email purpose (au_challenges (snd (bind_auth_email env db now request)))"
  unfolding bind_auth_email_def
  apply (rule then_with_snd [where Q = "\<lambda>db'. \<exists>email purpose. au_challenges db' = au_challenges db \<or>
      creates_code env db now email purpose (au_challenges db')"])
   apply simp
  apply (rule then_with_snd [where Q = "\<lambda>db'. \<exists>email purpose. au_challenges db' = au_challenges db \<or>
      creates_code env db now email purpose (au_challenges db')"])
   apply (use start_challenge_creates in \<open>force split: prod.splits\<close>)+
  done

lemma perform_serves:
  assumes "length (sv_reading s) < c" and "perform env (sv_db s) now call = (said, db')"
  shows "(serve env c)\<^sup>*\<^sup>* s (s\<lparr>sv_db := db', sv_guesses := sv_guesses s @ counted_guess call said\<rparr>)"
proof (cases call)
  case (Start_call request)
  with assms(2) start_email_auth_creates [of env "sv_db s" now request] show ?thesis
    by (auto simp: answered_def intro: serve_start)
next
  case (Bind_call request)
  with assms(2) bind_auth_email_creates [of env "sv_db s" now request] show ?thesis
    by (auto simp: answered_def intro: serve_start)
next
  case (Verify_call request)
  let ?rs = "verify_email_auth env (sv_db s) now request"
  have rs: "answered ?rs = (said, db')" using assms(2) Verify_call by simp
  consider email ch where "reads_code env (sv_db s) request email ch"
      "?rs = verify_against env (sv_db s) now request email ch"
    | "said \<noteq> Some ''verification_code_invalid''" "au_challenges db' = au_challenges (sv_db s)"
    using verify_email_auth_cases [of env "sv_db s" request now] rs by (auto simp: answered_def)
  then show ?thesis
  proof cases
    case (1 email ch)
    let ?s = "s\<lparr>sv_reading := sv_reading s @ [(now, request, email, ch)]\<rparr>"
    have "serve env c s ?s"
      using assms(1) 1(1) by (rule serve.reading)
    moreover have "serve env c ?s (?s\<lparr>sv_db := db', sv_reading := sv_reading s @ [],
        sv_guesses := sv_guesses ?s @ counted_guess (Verify_call request) said\<rparr>)"
      by (rule serve.going_on) (use rs 1(2) in simp_all)
    moreover have "?s\<lparr>sv_db := db', sv_reading := sv_reading s @ [],
        sv_guesses := sv_guesses ?s @ counted_guess (Verify_call request) said\<rparr> =
        s\<lparr>sv_db := db', sv_guesses := sv_guesses s @ counted_guess call said\<rparr>"
      using Verify_call by (cases s) simp
    ultimately show ?thesis
      by (metis converse_rtranclp_into_rtranclp r_into_rtranclp)
  next
    case 2
    then have "counted_guess call said = []"
      using Verify_call by (cases said) auto
    with 2 show ?thesis by (auto intro!: serve_start)
  qed
qed (use assms(2) in \<open>auto simp: answered_def key_login_keeps rotate_keeps logout_keeps
    intro!: serve_start disjI1\<close>)

text \<open>What a verification does to the codes with the code in its hand, however old it is.\<close>

definition code_in_hand :: "auth_env \<Rightarrow> EmailVerificationChallenge \<Rightarrow> challenge_row \<Rightarrow> bool" where
  "code_in_hand env ch r \<longleftrightarrow> cr_tenant_id r = ae_tenant_id env \<and> cr_id r = evc_id ch"

lemma increment_in_hand:
  "au_challenges (snd (increment_attempt_count env db (evc_id ch))) \<in>
     {au_challenges db, update_where (code_in_hand env ch) (\<lambda>s. s\<lparr>cr_attempt_count := cr_attempt_count s + 1\<rparr>)
        (au_challenges db)}"
  "fst (increment_attempt_count env db (evc_id ch)) = Ok x \<Longrightarrow>
   au_challenges (snd (increment_attempt_count env db (evc_id ch))) =
     update_where (code_in_hand env ch) (\<lambda>s. s\<lparr>cr_attempt_count := cr_attempt_count s + 1\<rparr>)
        (au_challenges db)"
  unfolding code_in_hand_def [abs_def] by (auto simp: increment_attempt_count_def Let_def)

lemma mark_in_hand:
  "au_challenges (snd (mark_consumed env db (evc_id ch) now)) =
     update_where (code_in_hand env ch) (\<lambda>s. s\<lparr>cr_consumed_at := Some now\<rparr>) (au_challenges db)"
  unfolding code_in_hand_def [abs_def] by (simp add: mark_consumed_def Let_def)

lemma verify_against_in_hand:
  fixes env db now request email ch
  defines "rs \<equiv> verify_against env db now request email ch"
  obtains (kept) "au_challenges (snd rs) = au_challenges db" "counted_guess (Verify_call request) (answer (fst rs)) = []"
  | (used) "au_challenges (snd rs) =
      update_where (code_in_hand env ch) (\<lambda>s. s\<lparr>cr_consumed_at := Some now\<rparr>) (au_challenges db)"
      "counted_guess (Verify_call request) (answer (fst rs)) = []"
  | (counted) "au_challenges (snd rs) =
      update_where (code_in_hand env ch) (\<lambda>s. s\<lparr>cr_attempt_count := cr_attempt_count s + 1\<rparr>) (au_challenges db)"
      "evc_attempt_count ch < evc_max_attempts ch"
proof -
  have none: "counted_guess (Verify_call request) (answer r) = []"
    if "answer r \<noteq> Some ''verification_code_invalid''" for r :: "('b, ApiError) result"
    using that by (cases "answer r") auto
  show thesis
  proof (cases "email_otp_service env")
    case (Inl e)
    then show thesis
      by (intro kept none) (auto simp: rs_def verify_against_def answer_def dest: service_Err_code)
  next
    case (Inr service)
    show thesis
    proof (cases "verify_challenge env service ch (vq_code request) now")
      case Valid
      show thesis
      proof (cases "fst (mark_consumed env db (evc_id ch) now)")
        case (Inl e)
        then show thesis
          using Valid Inr by (intro used none)
            (simp_all add: rs_def verify_against_def then_with_def storage_def answer_def mark_in_hand)
      next
        case (Inr x)
        then have rs: "rs = login_verified env (snd (mark_consumed env db (evc_id ch) now)) now request email ch"
          using Valid \<open>email_otp_service env = Inr service\<close>
          by (simp add: rs_def verify_against_def then_with_def storage_def)
        show thesis
          using login_verified_step unfolding rs by (intro used none) (auto simp: mark_in_hand rs)
      qed
    next
      case Invalid
      then have ch: "evc_attempt_count ch < evc_max_attempts ch"
        by (auto simp: verify_challenge_def split: if_splits)
      show thesis
      proof (cases "fst (increment_attempt_count env db (evc_id ch))")
        case (Inl e)
        then have rs: "rs = (Err (from_storage (ae_db_message env) e), snd (increment_attempt_count env db (evc_id ch)))"
          using Inr Invalid by (simp add: rs_def verify_against_def then_with_def storage_def)
        show thesis
          using increment_in_hand(1) [of env db ch] ch
          by (auto simp: rs answer_def intro: kept counted none)
      next
        case (Inr x)
        then show thesis
          using \<open>email_otp_service env = Inr service\<close> Invalid increment_in_hand(2) [OF Inr] ch
          by (intro counted) (simp_all add: rs_def verify_against_def then_with_def storage_def)
      qed
    qed (use Inr in \<open>auto intro!: kept none simp: rs_def verify_against_def answer_def bad_request_def\<close>)
  qed
qed

text \<open>The verifications that hold a code as it was before its attempts were used up.\<close>

definition in_hand :: "challenge_row \<Rightarrow> reading list \<Rightarrow> nat" where
  "in_hand r hs = length (filter (\<lambda>(now, request, email, ch). evc_id ch = cr_id r \<and>
     evc_attempt_count ch < evc_max_attempts ch) hs)"

lemma in_hand_simps [simp]:
  "in_hand r (hs @ hs') = in_hand r hs + in_hand r hs'" "in_hand r [] = 0"
  "in_hand r ((now, request, email, ch) # hs) =
     (if evc_id ch = cr_id r \<and> evc_attempt_count ch < evc_max_attempts ch then 1 else 0) + in_hand r hs"
  by (simp_all add: in_hand_def)

lemma in_hand_le: "in_hand r hs \<le> length hs"
  by (simp add: in_hand_def)

lemma in_hand_cong: "cr_id r' = cr_id r \<Longrightarrow> in_hand r' hs = in_hand r hs"
  by (simp add: in_hand_def)

text \<open>
  The attempts of a code and those that are on their way to it stay below its maximum and the number of
  verifications that run at once; a code in hand is stored, for the address and purpose of the request;
  every guess is one of the attempts.
\<close>

definition row_bounded :: "nat \<Rightarrow> reading list \<Rightarrow> challenge_row \<Rightarrow> bool" where
  "row_bounded c hs r \<longleftrightarrow> cr_max_attempts r = DEFAULT_MAX_ATTEMPTS \<and> 0 \<le> cr_attempt_count r \<and>
     cr_attempt_count r + int (in_hand r hs) < DEFAULT_MAX_ATTEMPTS + int c"

definition hand_known :: "auth_env \<Rightarrow> challenge_row list \<Rightarrow> reading \<Rightarrow> bool" where
  "hand_known env t h \<longleftrightarrow> (case h of (now, request, email, ch) \<Rightarrow>
     \<exists>r \<in> set t. code_of env (normalize_email (vq_email request)) (vq_purpose request) r \<and>
       cr_id r = evc_id ch)"

definition serve_inv :: "auth_env \<Rightarrow> nat \<Rightarrow> serving \<Rightarrow> bool" where
  "serve_inv env c s \<longleftrightarrow> (let t = au_challenges (sv_db s) in
     distinct (map cr_id t) \<and> length (sv_reading s) \<le> c \<and>
     (\<forall>r \<in> set t. row_bounded c (sv_reading s) r) \<and>
     (\<forall>h \<in> set (sv_reading s). hand_known env t h) \<and>
     (\<forall>e p. int (count_list (sv_guesses s) (e, p)) \<le> attempts env e p t))"

lemma hand_known_update:
  assumes "hand_known env t h" and "\<And>r. cr_id (f r) = cr_id r"
    and "\<And>e p r. code_of env e p (f r) = code_of env e p r"
  shows "hand_known env (update_where q f t) h"
proof -
  obtain now request email ch where h: "h = (now, request, email, ch)" by (cases h)
  with assms(1) obtain r where r: "r \<in> set t"
    "code_of env (normalize_email (vq_email request)) (vq_purpose request) r" "cr_id r = evc_id ch"
    by (auto simp: hand_known_def)
  then have "(if q r then f r else r) \<in> set (update_where q f t)"
    by (simp add: set_update_where image_iff) (use r in force)
  with r assms h show ?thesis
    unfolding hand_known_def by (auto intro!: bexI [of _ "if q r then f r else r"])
qed

lemma row_bounded_less:
  "row_bounded c hs r \<Longrightarrow> in_hand r hs' \<le> in_hand r hs \<Longrightarrow> row_bounded c hs' r"
  by (simp add: row_bounded_def)

lemma serve_inv_reading:
  assumes inv: "serve_inv env c s" and room: "length (sv_reading s) < c"
    and reads: "reads_code env (sv_db s) request email ch"
  shows "serve_inv env c (s\<lparr>sv_reading := sv_reading s @ [(now, request, email, ch)]\<rparr>)"
proof -
  let ?t = "au_challenges (sv_db s)"
  obtain r where r: "r \<in> set ?t" "code_of env (normalize_email (vq_email request)) (vq_purpose request) r"
    and ch: "evc_id ch = cr_id r" "evc_attempt_count ch = cr_attempt_count r"
      "evc_max_attempts ch = cr_max_attempts r"
    using reads by (auto simp: reads_code_def dest!: validate_auth_email_Ok elim!: latest_active_SomeD
      dest: map_email_verification_challenge_row_OkD)
  have "row_bounded c (sv_reading s @ [(now, request, email, ch)]) u" if u: "u \<in> set ?t" for u
  proof (cases "evc_id ch = cr_id u \<and> evc_attempt_count ch < evc_max_attempts ch")
    case True
    then have "u = r"
      using u r(1) ch inv by (auto simp: serve_inv_def Let_def dest: distinct_key_eq)
    moreover have "row_bounded c (sv_reading s) r"
      using r(1) inv by (simp add: serve_inv_def Let_def)
    ultimately show ?thesis
      using True ch room in_hand_le [of r "sv_reading s"] by (simp add: row_bounded_def)
  next
    case False
    with u inv show ?thesis by (auto simp: serve_inv_def Let_def row_bounded_def)
  qed
  moreover have "hand_known env ?t (now, request, email, ch)"
    using r ch by (auto simp: hand_known_def)
  ultimately show ?thesis
    using inv room by (simp add: serve_inv_def Let_def)
qed

lemma serve_inv_inserted:
  assumes inv: "serve_inv env c s" and t: "au_challenges db = au_challenges (sv_db s) @ [r]"
    and r: "\<forall>u \<in> set (au_challenges (sv_db s)). cr_id u \<noteq> cr_id r" "new_code env now email purpose r"
  shows "serve_inv env c (s\<lparr>sv_db := db\<rparr>)"
proof -
  have known: "\<forall>h \<in> set (sv_reading s). hand_known env (au_challenges (sv_db s)) h"
    using inv by (simp add: serve_inv_def Let_def)
  then have "in_hand r (sv_reading s) = 0"
    using r(1) by (fastforce simp: in_hand_def hand_known_def filter_empty_conv)
  then have "row_bounded c (sv_reading s) r"
    using r(2) by (simp add: row_bounded_def new_code_def DEFAULT_MAX_ATTEMPTS_def)
  moreover have "hand_known env (au_challenges (sv_db s) @ [r]) h" if "h \<in> set (sv_reading s)" for h
    using that known by (fastforce simp: hand_known_def)
  ultimately show ?thesis
    using inv t r by (auto simp: serve_inv_def Let_def new_code_def)
qed

lemma serve_inv_consumed:
  assumes inv: "serve_inv env c s" and reading: "sv_reading s = xs @ h # ys"
    and t: "au_challenges db = update_where q (\<lambda>s. s\<lparr>cr_consumed_at := Some now\<rparr>) (au_challenges (sv_db s))"
  shows "serve_inv env c (s\<lparr>sv_db := db, sv_reading := xs @ ys\<rparr>)"
proof -
  let ?f = "\<lambda>s. s\<lparr>cr_consumed_at := Some now\<rparr>"
  have "row_bounded c (xs @ ys) u" if "u \<in> set (au_challenges db)" for u
  proof -
    obtain u0 where u0: "u0 \<in> set (au_challenges (sv_db s))" and u: "u = (if q u0 then ?f u0 else u0)"
      using \<open>u \<in> set (au_challenges db)\<close> unfolding t by (elim in_update_whereE)
    have "row_bounded c (xs @ h # ys) u0" using u0 inv reading by (simp add: serve_inv_def Let_def)
    then show ?thesis
      by (cases h) (auto simp: u row_bounded_def in_hand_cong [of "?f u0" u0] split: if_splits)
  qed
  moreover have "hand_known env (au_challenges db) g" if "g \<in> set (xs @ ys)" for g
    unfolding t using that inv reading
    by (intro hand_known_update) (auto simp: serve_inv_def Let_def code_of_def)
  ultimately show ?thesis
    using inv reading by (auto simp: serve_inv_def Let_def t map_update_where)
qed

lemma serve_inv_counted:
  assumes inv: "serve_inv env c s" and reading: "sv_reading s = xs @ (now, request, email, ch) # ys"
    and "open": "evc_attempt_count ch < evc_max_attempts ch"
    and t: "au_challenges db = update_where (code_in_hand env ch)
      (\<lambda>s. s\<lparr>cr_attempt_count := cr_attempt_count s + 1\<rparr>) (au_challenges (sv_db s))"
    and guess: "gs = [] \<or> gs = [(normalize_email (vq_email request), vq_purpose request)]"
  shows "serve_inv env c (s\<lparr>sv_db := db, sv_reading := xs @ ys, sv_guesses := sv_guesses s @ gs\<rparr>)"
proof -
  let ?f = "\<lambda>s. s\<lparr>cr_attempt_count := cr_attempt_count s + 1\<rparr>" and ?q = "code_in_hand env ch"
  let ?t = "au_challenges (sv_db s)"
  have "row_bounded c (xs @ ys) u" if "u \<in> set (au_challenges db)" for u
  proof -
    obtain u0 where u0: "u0 \<in> set ?t" and u: "u = (if ?q u0 then ?f u0 else u0)"
      using \<open>u \<in> set (au_challenges db)\<close> unfolding t by (elim in_update_whereE)
    have "row_bounded c (xs @ (now, request, email, ch) # ys) u0"
      using u0 inv reading by (simp add: serve_inv_def Let_def)
    then show ?thesis
      using "open" by (auto simp: u row_bounded_def code_in_hand_def in_hand_cong [of "?f u0" u0] split: if_splits)
  qed
  moreover have "hand_known env (au_challenges db) g" if "g \<in> set (xs @ ys)" for g
    unfolding t using that inv reading
    by (intro hand_known_update) (auto simp: serve_inv_def Let_def code_of_def)
  moreover have "int (count_list (sv_guesses s @ gs) (e, p)) \<le> attempts env e p (au_challenges db)" for e p
  proof -
    have old: "int (count_list (sv_guesses s) (e, p)) \<le> attempts env e p ?t"
      using inv by (simp add: serve_inv_def Let_def)
    have "1 \<le> length (filter (\<lambda>r. ?q r \<and> code_of env e p r) ?t)"
      if guessed: "(normalize_email (vq_email request), vq_purpose request) = (e, p)"
    proof -
      have "hand_known env ?t (now, request, email, ch)"
        using inv reading by (simp add: serve_inv_def Let_def)
      then obtain r where "r \<in> set ?t" "code_of env e p r" "cr_id r = evc_id ch"
        using guessed by (auto simp: hand_known_def)
      then have "filter (\<lambda>r. ?q r \<and> code_of env e p r) ?t \<noteq> []"
        by (auto simp: filter_empty_conv code_in_hand_def code_of_def)
      then show ?thesis by (simp add: Suc_leI)
    qed
    moreover have "count_list (sv_guesses s @ gs) (e, p) = count_list (sv_guesses s) (e, p) +
        (if gs \<noteq> [] \<and> (normalize_email (vq_email request), vq_purpose request) = (e, p) then 1 else 0)"
      using guess by auto
    ultimately show ?thesis
      using old unfolding t attempts_counted by (auto split: if_splits)
  qed
  ultimately show ?thesis
    using inv reading by (auto simp: serve_inv_def Let_def t map_update_where)
qed

lemma serve_inv_step:
  assumes "serve env c s s'" and inv: "serve_inv env c s"
  shows "serve_inv env c s'"
  using assms(1)
proof cases
  case (reading request email challenge now)
  with inv show ?thesis by (auto intro: serve_inv_reading)
next
  case (going_on xs now request email ch ys said db)
  let ?rs = "verify_against env (sv_db s) now request email ch"
  have said: "said = answer (fst ?rs)" and db: "db = snd ?rs"
    using going_on(3) by (simp_all add: answered_def)
  from verify_against_in_hand [of env "sv_db s" now request email ch] show ?thesis
  proof cases
    case kept
    have "row_bounded c (xs @ ys) u" if "row_bounded c (xs @ (now, request, email, ch) # ys) u" for u
      using that by (rule row_bounded_less) simp
    with kept inv going_on(2) show ?thesis
      unfolding going_on(1) said db by (auto simp: serve_inv_def Let_def)
  next
    case used
    show ?thesis
      using serve_inv_consumed [OF inv going_on(2) used(1)] used(2)
      unfolding going_on(1) said db by simp
  next
    case counted
    have "counted_guess (Verify_call request) said \<in>
        {[], [(normalize_email (vq_email request), vq_purpose request)]}"
      by (cases said) simp_all
    then show ?thesis
      using serve_inv_counted [OF inv going_on(2) counted(2,1)]
      unfolding going_on(1) said db by blast
  qed
next
  case (inserting service m n email purpose now r db)
  from prepared_code [OF inserting(2,3)] show ?thesis
  proof
    assume "au_challenges db = au_challenges (sv_db s)"
    with inv show ?thesis unfolding inserting(1) by (simp add: serve_inv_def Let_def)
  next
    assume "\<exists>r. au_challenges db = au_challenges (sv_db s) @ [r] \<and>
      (\<forall>s \<in> set (au_challenges (sv_db s)). cr_id s \<noteq> cr_id r) \<and> new_code env now (normalize_email email) purpose r"
    then show ?thesis unfolding inserting(1) using inv by (blast intro: serve_inv_inserted)
  qed
next
  case (other db)
  with inv show ?thesis by (simp add: serve_inv_def Let_def)
qed

lemma attempts_rows:
  "\<forall>r \<in> set t. cr_attempt_count r \<le> k \<Longrightarrow>
   attempts env e p t \<le> k * int (length (filter (code_of env e p) t))"
  by (induction t) (auto simp: attempts_def algebra_simps)

text \<open>C6: The wrong guesses that are answered for an address and a purpose are at most \<open>4 + c\<close> for each code that
  was created for them, when at most \<open>c\<close> verifications are between reading a code and counting the
  guess at a time, however the statements of the requests follow one another: five for each code when
  the verifications run one by one, and one more for each that may run beside. The code sets no \<open>c\<close>.\<close>

theorem guesses_bounded:
  assumes "au_challenges db = []"
    and "(serve env c)\<^sup>*\<^sup>* \<lparr>sv_db = db, sv_reading = [], sv_guesses = []\<rparr> s"
  shows "count_list (sv_guesses s) (email, purpose) \<le>
    (4 + c) * length (filter (code_of env email purpose) (au_challenges (sv_db s)))"
proof -
  let ?t = "au_challenges (sv_db s)"
  have "serve_inv env c \<lparr>sv_db = db, sv_reading = [], sv_guesses = []\<rparr>"
    by (simp add: serve_inv_def assms(1) attempts_def)
  with assms(2) have "serve_inv env c s"
    by (induction rule: rtranclp_induct) (auto intro: serve_inv_step)
  then have "\<forall>r \<in> set ?t. cr_attempt_count r \<le> 4 + int c"
    and "int (count_list (sv_guesses s) (email, purpose)) \<le> attempts env email purpose ?t"
    by (fastforce simp: serve_inv_def Let_def row_bounded_def DEFAULT_MAX_ATTEMPTS_def)+
  with attempts_rows [of ?t "4 + int c" env email purpose]
  have "int (count_list (sv_guesses s) (email, purpose)) \<le>
      (4 + int c) * int (length (filter (code_of env email purpose) ?t))"
    by linarith
  then have "int (count_list (sv_guesses s) (email, purpose)) \<le>
      int ((4 + c) * length (filter (code_of env email purpose) ?t))"
    by simp
  then show ?thesis by linarith
qed

section \<open>Sessions\<close>

lemma map_user_row_id: "map_user_row env u = Ok user \<Longrightarrow> ur_id u = usr_id user"
  by (auto simp: map_user_row_def and_then_eq_Ok)

lemma user_of_email:
  assumes "ensure_by_email env db email name now = (Ok user, db')"
  shows "\<exists>u \<in> set (au_users db'). ur_id u = usr_id user \<and> ur_tenant_id u = ae_tenant_id env \<and>
    ur_email_normalized u = Some (normalize_email email)"
proof (cases "list_ex (\<lambda>r. ur_tenant_id r = ae_tenant_id env \<and>
    ur_email_normalized r = Some (normalize_email email)) (au_users db)")
  case True
  then show ?thesis
    using assms
    by (fastforce simp: ensure_by_email_def Let_def and_then_eq_Ok returned_def ok_or_eq_Ok
        returning_def update_where_def dest!: fetch_optional_SomeD map_user_row_id)
next
  case False
  then show ?thesis
    using assms by (auto simp: ensure_by_email_def Let_def split: if_splits dest: map_user_row_id)
qed

lemma session_create_Ok:
  "session_create env db n = (Ok session, db') \<Longrightarrow>
   uss_user_id session = nus_user_id n \<and> uss_session_token_hash session = nus_session_token_hash n"
  by (auto simp: session_create_def Let_def map_user_session_row_def and_then_eq_Ok split: if_splits)

lemma session_create_OkD: "fst (session_create env db n) = Ok session \<Longrightarrow>
    uss_user_id session = nus_user_id n"
  by (metis prod.collapse session_create_Ok)

lemma create_auth_session_Ok:
  assumes "create_auth_session env db now user m d = (Ok (session, tok), db')"
  shows "uss_user_id session = usr_id user \<and> au_users db' = au_users db \<and> au_challenges db' = au_challenges db"
proof -
  have "au_users db' = au_users db \<and> au_challenges db' = au_challenges db"
    using create_auth_session_keeps [of env db now user m d] assms by simp
  then show ?thesis
    using assms by (auto simp: create_auth_session_def Let_def then_with_eq_Ok
        dest: session_create_OkD)
qed

text \<open>The pepper of the codes.\<close>

definition otp_pepper :: "auth_env \<Rightarrow> string" where
  "otp_pepper env = auth_env_var (ae_otp_pepper_var env) DEFAULT_AUTH_EMAIL_OTP_PEPPER"

lemma email_otp_service_pepper: "email_otp_service env = Ok service \<Longrightarrow> os_pepper service = otp_pepper env"
  by (auto simp: email_otp_service_def EmailOtpService_new_def otp_pepper_def split: if_splits)

lemma login_verified_Ok:
  assumes "login_verified env db now request email c = (Ok (status, headers, response), db')"
  shows "\<exists>u \<in> set (au_users db'). ur_id u = asv_user_id (lr_session response) \<and>
    ur_tenant_id u = ae_tenant_id env \<and> ur_email_normalized u = Some (normalize_email email)"
proof -
  obtain user session tok where user: "fst (ensure_by_email env db email (Some email) now) = Ok user"
    and session: "fst (create_auth_session env (snd (ensure_by_email env db email (Some email) now)) now
      user EmailCode (vq_device_fingerprint request)) = Ok (session, tok)"
    and response: "lr_session response = to_auth_session_view session (usr_email user)"
    and users: "au_users db' = au_users (snd (ensure_by_email env db email (Some email) now))"
    using assms by (auto simp: login_verified_def then_with_eq_Ok Let_def split: prod.splits)
  have "uss_user_id session = usr_id user"
    using create_auth_session_Ok [OF prod_eqI] session by (metis fst_conv prod.collapse)
  with user_of_email [of env db email "Some email" now user] user users response show ?thesis
    by (auto simp: to_auth_session_view_def prod_eq_iff)
qed

text \<open>C36: A verified login shows that the most recent unused code of the address and purpose was not
  expired, had attempts left and has the hash of the code given; it is used up, and the session is of
  the user with this address.\<close>

theorem verified_login:
  assumes "verify_email_auth env db now request = (Ok (status, headers, response), db')"
  shows "vq_purpose request \<notin> {AuthChallengePurpose.BindEmail, RotateKey} \<and>
    (\<exists>r \<in> set (au_challenges db).
       code_of env (normalize_email (vq_email request)) (vq_purpose request) r \<and> open_code now r \<and>
       cr_code_hash r = hash_otp_code env (otp_pepper env) (normalize_email (vq_email request))
         (vq_purpose request) (vq_code request) \<and>
       (\<forall>s \<in> set (au_challenges db).
          code_of env (normalize_email (vq_email request)) (vq_purpose request) s \<and>
          cr_consumed_at s = None \<longrightarrow> cr_created_at s \<le> cr_created_at r) \<and>
       r\<lparr>cr_consumed_at := Some now\<rparr> \<in> set (au_challenges db')) \<and>
    (\<exists>u \<in> set (au_users db'). ur_id u = asv_user_id (lr_session response) \<and>
       ur_tenant_id u = ae_tenant_id env \<and>
       ur_email_normalized u = Some (normalize_email (vq_email request)))"
proof -
  let ?email = "normalize_email (vq_email request)"
  obtain c where purpose: "email_auth_verify_creates_session_for_purpose (vq_purpose request)"
    and c: "latest_active_by_email_and_purpose env db ?email (vq_purpose request) = Ok (Some c)"
    and against: "verify_against env db now request ?email c = (Ok (status, headers, response), db')"
    using assms
    by (auto simp: verify_email_auth_def then_with_eq_Ok verify_failure_def validate_auth_email_Ok
        split: if_splits option.splits dest: validate_auth_email_Ok)
  obtain r where r: "r \<in> set (au_challenges db)" "code_of env ?email (vq_purpose request) r"
    and row: "map_email_verification_challenge_row r = Ok c"
    and latest: "\<And>s. s \<in> set (au_challenges db) \<Longrightarrow> code_of env ?email (vq_purpose request) s \<Longrightarrow>
      cr_consumed_at s = None \<Longrightarrow> cr_created_at s \<le> cr_created_at r"
    using latest_active_SomeD [OF c] by metis
  obtain service where service: "email_otp_service env = Ok service"
    using against by (auto simp: verify_against_def then_with_eq_Ok)
  have "verify_challenge env service c (vq_code request) now = Valid \<and>
      login_verified env (snd (mark_consumed env db (evc_id c) now)) now request ?email c =
        (Ok (status, headers, response), db')"
    using against service
    by (cases "verify_challenge env service c (vq_code request) now")
      (auto simp: verify_against_def then_with_eq_Ok verify_failure_def)
  then have valid: "verify_challenge env service c (vq_code request) now = Valid"
    and login: "login_verified env (snd (mark_consumed env db (evc_id c) now)) now request ?email c =
      (Ok (status, headers, response), db')"
    by simp_all
  have "hash_code env service (evc_email_normalized c) (evc_purpose c) (vq_code request) = evc_code_hash c"
    using valid by (auto simp: verify_challenge_def split: if_splits)
  moreover have "evc_purpose c = vq_purpose request" and "evc_email_normalized c = ?email"
    and "evc_code_hash c = cr_code_hash r"
    using map_email_verification_challenge_row_OkD [OF row] r(2)
    by (auto simp: code_of_def AuthChallengePurpose_wire.as_str_eq_iff)
  ultimately have hash: "cr_code_hash r = hash_otp_code env (otp_pepper env) ?email
      (vq_purpose request) (vq_code request)"
    using email_otp_service_pepper [OF service] by (simp add: hash_code_def)
  have "au_challenges db' = update_where (same_code env r) (\<lambda>s. s\<lparr>cr_consumed_at := Some now\<rparr>)
      (au_challenges db)"
    using login_verified_step [of env "snd (mark_consumed env db (evc_id c) now)" now request ?email c]
      login mark_consumed_effect [OF row, of env db now] by simp
  then have used: "r\<lparr>cr_consumed_at := Some now\<rparr> \<in> set (au_challenges db')"
    using r by (auto intro: in_update_where_set simp: same_code_def code_of_def)
  have "open_code now r"
    using verify_challenge_cases [OF row, of env service "vq_code request" now] valid by simp
  with r latest hash used login_verified_Ok [OF login] purpose show ?thesis
    by (auto simp: email_auth_verify_creates_session_for_purpose_def)
qed

lemma fetch_first: "fetch_optional (filter p t) = find p t"
  by (induction t) auto

lemma find_update_where:
  assumes "\<And>r. p (f r) = p r"
  shows "find p (update_where q f t) = map_option (\<lambda>r. if q r then f r else r) (find p t)"
  using assms by (induction t) auto

text \<open>After a logout the cookies of the request belong to no session, at any later time.\<close>

theorem logout_ends_session:
  assumes "logout_auth_session env db now headers = (Ok (cleared, revoked), db')"
  shows "current_auth_session env db' later headers = Ok None"
proof (cases "auth_session_token_from_headers env headers")
  case (Some token)
  let ?hash = "auth_session_token_hash env token"
  let ?p = "\<lambda>r. xs_tenant_id r = ae_tenant_id env \<and> xs_session_token_hash r = ?hash"
  obtain found where found: "session_get_by_token_hash env db ?hash = Ok found"
    using assms Some by (auto simp: logout_auth_session_def then_with_eq_Ok fst_then_with_Ok)
  show ?thesis
  proof (cases found)
    case None
    then have "au_sessions db' = au_sessions db"
      using assms Some found by (auto simp: logout_auth_session_def then_with_eq_Ok fst_then_with_Ok)
    then have "session_get_by_token_hash env db' ?hash = Ok None"
      using found None by (simp add: session_get_by_token_hash_def)
    then show ?thesis
      using Some by (simp add: current_auth_session_def storage_def)
  next
    case (Some session)
    then have sessions: "au_sessions db' = update_where
        (\<lambda>r. xs_tenant_id r = ae_tenant_id env \<and> xs_id r = uss_id session)
        (\<lambda>r. r\<lparr>xs_revoked_at := Some now\<rparr>) (au_sessions db)"
      using assms \<open>auth_session_token_from_headers env headers = Some token\<close> found
      by (auto simp: logout_auth_session_def then_with_eq_Ok fst_then_with_Ok session_revoke_def Let_def)
    obtain r where r: "find ?p (au_sessions db) = Some r" and row: "map_user_session_row r = Ok session"
      using found Some
      by (auto simp: session_get_by_token_hash_def fetch_first dest: transpose_option_SomeD)
    have "xs_tenant_id r = ae_tenant_id env" and "xs_id r = uss_id session"
      using r row by (auto simp: find_Some_iff map_user_session_row_def and_then_eq_Ok)
    then have "find ?p (au_sessions db') = Some (r\<lparr>xs_revoked_at := Some now\<rparr>)"
      unfolding sessions using r by (subst find_update_where) auto
    moreover have "map_user_session_row (r\<lparr>xs_revoked_at := Some now\<rparr>) =
        Ok (session\<lparr>uss_revoked_at := Some now\<rparr>)"
      using row by (auto simp: map_user_session_row_def and_then_eq_Ok)
    ultimately have "session_get_by_token_hash env db' ?hash =
        Ok (Some (session\<lparr>uss_revoked_at := Some now\<rparr>))"
      by (simp add: session_get_by_token_hash_def fetch_first)
    then show ?thesis
      using \<open>auth_session_token_from_headers env headers = Some token\<close>
      by (simp add: current_auth_session_def storage_def)
  qed
qed (simp add: current_auth_session_def)

section \<open>Local keys\<close>

text \<open>The user a login opens a session for.\<close>

definition opened :: "(nat \<times> header_map \<times> LoginResponse, ApiError) result \<times> auth_db \<Rightarrow> UserId option" where
  "opened rs = (case fst rs of Inl e \<Rightarrow> None
     | Inr (_, _, response) \<Rightarrow> Some (asv_user_id (lr_session response)))"

text \<open>What a login with a key answers once the key is known to belong to some secret binding.\<close>

definition session_after ::
    "auth_env \<Rightarrow> auth_db \<Rightarrow> datetime \<Rightarrow> string \<Rightarrow> string option \<Rightarrow> string \<Rightarrow>
     (UserSession, ApiError) result \<times> auth_db" where
  "session_after env db now email device fingerprint =
     then_with (stored env (ensure_by_email env db email (Some email) now)) (\<lambda>user db.
     then_with (stored env (update_primary_secret_fingerprint env db (usr_id user) fingerprint now))
       (\<lambda>updated db.
     then_with (create_auth_session env db now (unwrap_or user updated) EmailKey device)
       (\<lambda>(session, session_token) db.
     then_with (set_session_cookie_headers env session_token, db) (\<lambda>_ db. (Ok session, db)))))"

lemma opened_login:
  assumes "list_by_fingerprint env db (local_key_fingerprint env (kq_local_key request)) = Ok bindings"
    and "bindings \<noteq> []" and "trim (kq_local_key request) \<noteq> []"
    and "validate_auth_email (kq_email request) = Ok email"
  shows "opened (login_with_local_key env db now request) =
    (case fst (session_after env db now email (kq_device_fingerprint request)
       (local_key_fingerprint env (kq_local_key request))) of
       Inl e \<Rightarrow> None | Inr session \<Rightarrow> Some (uss_user_id session))"
  using assms
  by (auto simp: login_with_local_key_def session_after_def opened_def validate_required_def storage_def
      then_with_def to_auth_session_view_def Let_def split: sum.splits prod.splits)

lemma update_primary_answer:
  "fst (update_primary_secret_fingerprint env db u f now) =
   fst (update_primary_secret_fingerprint env db u f' now)"
  by (cases "filter (\<lambda>r. ur_tenant_id r = ae_tenant_id env \<and> ur_id r = u) (au_users db)")
    (simp_all add: update_primary_secret_fingerprint_def Let_def returning_def map_user_row_def)

lemma update_primary_db:
  "snd (update_primary_secret_fingerprint env db u f now) = db\<lparr>au_users := update_where
     (\<lambda>r. ur_tenant_id r = ae_tenant_id env \<and> ur_id r = u)
     (\<lambda>r. r\<lparr>ur_primary_secret_fingerprint := Some f, ur_last_login_at := Some now\<rparr>) (au_users db)\<rparr>"
  by (simp add: update_primary_secret_fingerprint_def Let_def)

text \<open>Creating a session looks at the sessions, the tenants and the ids of the users.\<close>

definition same_for_sessions :: "auth_db \<Rightarrow> auth_db \<Rightarrow> bool" where
  "same_for_sessions db db' \<longleftrightarrow>
     au_sessions db = au_sessions db' \<and> au_tenants db = au_tenants db' \<and> au_draws db = au_draws db' \<and>
     au_codes db = au_codes db' \<and> ur_id ` set (au_users db) = ur_id ` set (au_users db')"

lemma session_create_same:
  "same_for_sessions db db' \<Longrightarrow> fst (session_create env db n) = fst (session_create env db' n)"
  by (auto simp: session_create_def Let_def same_for_sessions_def)

lemma create_auth_session_same:
  assumes "same_for_sessions db db'"
  shows "fst (create_auth_session env db now u m d) = fst (create_auth_session env db' now u m d)"
proof -
  have "fst (session_create env (db\<lparr>au_codes := n\<rparr>) x) = fst (session_create env (db'\<lparr>au_codes := n\<rparr>) x)" for n x
    using assms by (intro session_create_same) (simp add: same_for_sessions_def)
  moreover have "au_codes db = au_codes db'"
    using assms by (simp add: same_for_sessions_def)
  ultimately show ?thesis
    by (simp add: create_auth_session_def Let_def then_with_def stored_def storage_def split: sum.splits)
qed

lemma update_where_ids:
  "(\<And>r. g (f r) = g r) \<Longrightarrow> g ` set (update_where p f t) = g ` set t"
  by (metis map_update_where list.set_map)

lemma session_after_key: "fst (session_after env db now email device f) =
    fst (session_after env db now email device f')"
proof -
  have same: "same_for_sessions (snd (update_primary_secret_fingerprint env db u f now))
      (snd (update_primary_secret_fingerprint env db u f' now))" for db u
    by (simp add: same_for_sessions_def update_primary_db update_where_ids)
  show ?thesis
    using create_auth_session_same [OF same]
      update_primary_answer [of env _ _ f now f']
    by (auto simp: session_after_def then_with_def storage_def split: sum.splits prod.splits)
qed

lemma login_needs_binding:
  "opened (login_with_local_key env db now request) \<noteq> None \<Longrightarrow>
   \<exists>b bs. list_by_fingerprint env db (local_key_fingerprint env (kq_local_key request)) = Ok (b # bs)"
  by (auto simp: login_with_local_key_def opened_def then_with_def storage_def Let_def neq_Nil_conv
      split: sum.splits if_splits)

text \<open>C37: A local key must belong to a secret binding, but of whom does not matter: any two keys that
  belong to some binding open a session of the same user for a given address.\<close>

theorem known_keys_interchangeable:
  assumes "list_by_fingerprint env db (local_key_fingerprint env (kq_local_key request)) = Ok (b # bs)"
    and "list_by_fingerprint env db (local_key_fingerprint env key) = Ok (b' # bs')"
    and "trim (kq_local_key request) \<noteq> []" and "trim key \<noteq> []"
  shows "opened (login_with_local_key env db now (request\<lparr>kq_local_key := key\<rparr>)) =
    opened (login_with_local_key env db now request)"
proof (cases "validate_auth_email (kq_email request)")
  case (Inl e)
  then show ?thesis by (simp add: login_with_local_key_def opened_def)
next
  case (Inr email)
  let ?request = "request\<lparr>kq_local_key := key\<rparr>"
  have "opened (login_with_local_key env db now ?request) =
      (case fst (session_after env db now email (kq_device_fingerprint ?request)
         (local_key_fingerprint env (kq_local_key ?request))) of
         Inl e \<Rightarrow> None | Inr session \<Rightarrow> Some (uss_user_id session))"
    using assms Inr by (intro opened_login [of _ _ _ "b' # bs'"]) simp_all
  moreover have "opened (login_with_local_key env db now request) =
      (case fst (session_after env db now email (kq_device_fingerprint request)
         (local_key_fingerprint env (kq_local_key request))) of
         Inl e \<Rightarrow> None | Inr session \<Rightarrow> Some (uss_user_id session))"
    using assms Inr by (intro opened_login [of _ _ _ "b # bs"]) simp_all
  ultimately show ?thesis
    using session_after_key [of env db now email "kq_device_fingerprint request"
        "local_key_fingerprint env (kq_local_key request)" "local_key_fingerprint env key"]
    by simp
qed

section \<open>What the handlers do not promise\<close>

text \<open>
  A guess is checked against the attempts that were read before, and the count is raised afterwards.
  Requests that have all read a code before one of them raises its count are all answered, however many
  they are: \<open>guess_all\<close> is what they do after reading.
\<close>

fun guess_all ::
    "auth_env \<Rightarrow> auth_db \<Rightarrow> datetime \<Rightarrow> string \<Rightarrow> EmailVerificationChallenge \<Rightarrow>
     VerifyEmailAuthRequest list \<Rightarrow> string option list \<times> auth_db" where
  "guess_all env db now email challenge [] = ([], db)"
| "guess_all env db now email challenge (request # requests) =
     (let (answer, db) = answered (verify_against env db now request email challenge);
          (answers, db) = guess_all env db now email challenge requests in
      (answer # answers, db))"

definition count_readable :: "auth_env \<Rightarrow> challenge_row \<Rightarrow> int \<Rightarrow> challenge_row list \<Rightarrow> bool" where
  "count_readable env r n t \<longleftrightarrow>
     list_all (\<lambda>s. same_code env r s \<longrightarrow> cr_attempt_count s + n < 2 ^ 31 \<and>
       AuthChallengePurpose_from_str (cr_purpose s) \<noteq> None) t"

lemma increment_succeeds:
  assumes row: "map_email_verification_challenge_row r = Ok c"
    and ok: "count_readable env r (n + 1) (au_challenges db)" and n: "0 \<le> n"
  shows "(\<exists>x. fst (increment_attempt_count env db (evc_id c)) = Ok x) \<and>
    count_readable env r n (au_challenges (snd (increment_attempt_count env db (evc_id c))))"
proof -
  let ?f = "\<lambda>s. s\<lparr>cr_attempt_count := cr_attempt_count s + 1\<rparr>"
  have small: "\<not> list_ex (\<lambda>s. same_code env r s \<and> \<not> cr_attempt_count s + 1 < 2 ^ 31) (au_challenges db)"
    using ok n by (auto simp: count_readable_def list_ex_iff list_all_iff)
  have "\<exists>x. transpose_option (map_option map_email_verification_challenge_row
      (fetch_optional (returning (same_code env r) ?f (au_challenges db)))) = Ok x"
  proof (cases "returning (same_code env r) ?f (au_challenges db)")
    case (Cons s ss)
    then have "s \<in> set (returning (same_code env r) ?f (au_challenges db))" by simp
    then have "AuthChallengePurpose_from_str (cr_purpose s) \<noteq> None"
      using ok by (auto simp: returning_def count_readable_def list_all_iff)
    with Cons show ?thesis by (auto simp: map_email_verification_challenge_row_def)
  qed (simp del: returning_eq_Nil)
  moreover have "count_readable env r n (update_where (same_code env r) ?f (au_challenges db))"
    using ok by (auto simp: count_readable_def list_all_iff same_code_def update_where_def)
  ultimately show ?thesis
    using small unfolding increment_attempt_count_def update_of_row [OF row] Let_def by simp
qed

lemma stale_guesses_answered:
  assumes row: "map_email_verification_challenge_row r = Ok c"
    and "email_otp_service env = Ok service"
    and "list_all (\<lambda>request. verify_challenge env service c (vq_code request) now = Invalid) requests"
    and "count_readable env r (int (length requests)) (au_challenges db)"
  shows "fst (guess_all env db now email c requests) =
    replicate (length requests) (Some ''verification_code_invalid'')"
  using assms(3,4)
proof (induction requests arbitrary: db)
  case (Cons request requests)
  let ?db = "snd (increment_attempt_count env db (evc_id c))"
  obtain x where x: "fst (increment_attempt_count env db (evc_id c)) = Ok x"
    and ok: "count_readable env r (int (length requests)) (au_challenges ?db)"
    using increment_succeeds [OF row, of env "int (length requests)" db] Cons.prems(2)
    by (auto simp: algebra_simps)
  have "answered (verify_against env db now request email c) =
      (Some ''verification_code_invalid'',
       snd (verify_failure env ?db now request email [challenge_detail c, attempts_detail c]
         ''verification_code_invalid'' message_code_invalid :: (unit, ApiError) result \<times> auth_db))"
    using assms(2) Cons.prems(1) x
    by (simp add: verify_against_def answered_def answer_def bad_request_def verify_failure_def storage_def)
  then show ?case
    using Cons.IH [of "snd (verify_failure env ?db now request email [challenge_detail c, attempts_detail c]
        ''verification_code_invalid'' message_code_invalid :: (unit, ApiError) result \<times> auth_db)"]
      Cons.prems(1) ok
    by (auto split: prod.splits)
qed simp

text \<open>Replacing the local key leaves the secret bindings as they are, so the old key still logs in.\<close>

lemma rotate_keeps_bindings:
  "au_bindings (snd (rotate_local_key env db now headers request)) = au_bindings db"
  unfolding rotate_local_key_def Let_def
  by (simp add: then_with_def split: sum.splits prod.splits option.splits)

lemma old_key_after_rotation:
  "list_by_fingerprint env (snd (rotate_local_key env db now headers request)) fingerprint =
     list_by_fingerprint env db fingerprint"
  by (simp add: list_by_fingerprint_def rotate_keeps_bindings)

section \<open>Examples\<close>

text \<open>A digest that tells the texts of the example apart: the last character.\<close>

definition example_env :: auth_env where
  "example_env =
     \<lparr>ae_tenant_id = Uuid ''t'', ae_db_message = (\<lambda>_. ''error''), ae_roles_error = (\<lambda>_. ''roles''),
      ae_otp_pepper_var = Some ''pepper'', ae_session_pepper_var = None,
      ae_sha256 = (\<lambda>s. [last s]), ae_simple = uuid_text,
      ae_gen_random_uuid = (\<lambda>n. Uuid (replicate (Suc n) (CHR ''g''))),
      ae_new_v4 = (\<lambda>n. Uuid (replicate (Suc n) (CHR ''7'') @ ''0000000'')),
      ae_send_verification_email = (\<lambda>_. Ok ()), ae_to_str = Some, ae_header_value = Ok\<rparr>"

definition example_user :: "string \<Rightarrow> string \<Rightarrow> user_row" where
  "example_user i email =
     \<lparr>ur_id = Uuid i, ur_tenant_id = Uuid ''t'', ur_email = email, ur_email_normalized = Some email,
      ur_display_name = email, ur_roles = JArray [], ur_created_at = 0,
      ur_primary_secret_fingerprint = None, ur_last_login_at = None\<rparr>"

definition example_binding :: "string \<Rightarrow> string \<Rightarrow> secret_binding_row" where
  "example_binding i fingerprint =
     \<lparr>br_id = Uuid i, br_tenant_id = Uuid ''t'', br_dataset_id = Uuid ''d'', br_document_id = None,
      br_scope_level = ''dataset'', br_provider_key = ''p'', br_cipher_text = ''c'',
      br_fingerprint = fingerprint, br_created_at = 0\<rparr>"

definition example_accounts :: auth_db where
  "example_accounts =
     \<lparr>au_tenants = [Uuid ''t''], au_users = [example_user ''ann'' ''ann@x'', example_user ''bob'' ''bob@x''],
      au_sessions = [], au_challenges = [], au_audits = [],
      au_bindings = [example_binding ''b1'' ''61'', example_binding ''b2'' ''62''],
      au_draws = 0, au_codes = 0\<rparr>"

definition example_start :: StartEmailAuthRequest where
  "example_start =
     \<lparr>sq_email = ''bob@x'', sq_purpose = Login, sq_device_fingerprint = Some ''phone''\<rparr>"

definition guess_request :: "string \<Rightarrow> VerifyEmailAuthRequest" where
  "guess_request code =
     \<lparr>vq_email = ''bob@x'', vq_code = code, vq_purpose = Login, vq_device_fingerprint = None\<rparr>"

definition key_request :: "string \<Rightarrow> KeyLoginRequest" where
  "key_request key = \<lparr>kq_email = ''bob@x'', kq_local_key = key, kq_device_fingerprint = None\<rparr>"

definition example_code :: challenge_row where
  "example_code =
     \<lparr>cr_id = Uuid ''g'', cr_tenant_id = Uuid ''t'', cr_email_normalized = ''bob@x'',
      cr_purpose = ''login'', cr_code_hash = ''30'', cr_attempt_count = 0, cr_max_attempts = 5,
      cr_expires_at = 600000000, cr_consumed_at = None,
      cr_metadata = JObject [(''device_fingerprint'', JString ''phone'')], cr_created_at = 0\<rparr>"

definition sent_accounts :: auth_db where
  "sent_accounts = snd (start_email_auth example_env example_accounts 0 example_start)"

lemmas text_simps =
  trim_graphic graphic_def to_ascii_lowercase_def starts_with_def to_ascii_uppercase_def

lemmas env_simps =
  example_env_def [THEN arg_cong, of ae_tenant_id, simplified]
  example_env_def [THEN arg_cong, of ae_gen_random_uuid, simplified]
  example_env_def [THEN arg_cong, of ae_new_v4, simplified]
  example_env_def [THEN arg_cong, of ae_simple, simplified]
  example_env_def [THEN arg_cong, of ae_send_verification_email, simplified]
  example_env_def [THEN arg_cong, of ae_header_value, simplified]
  example_env_def [THEN arg_cong, of ae_to_str, simplified]
  example_env_def [THEN arg_cong, of ae_sha256, simplified]
  example_env_def [THEN arg_cong, of ae_session_pepper_var, simplified]

lemmas hash_simps = sha256_hex_def bytes_to_lower_hex_def hex_char_def env_simps

lemma example_email [simp]:
  "validate_auth_email ''bob@x'' = Ok ''bob@x''"
  "normalize_email ''bob@x'' = ''bob@x''"
  by (simp_all add: validate_auth_email_def validate_required_def normalize_email_def text_simps)

lemma example_texts [simp]:
  "trim_optional (Some ''phone'') = Some ''phone''"
  "generate_otp_code example_env 0 = ''70000000''"
  "hash_otp_code example_env p e u ''70000000'' = ''30''"
  "hash_otp_code example_env p e u ''70000001'' = ''31''"
  by (simp_all add: trim_optional_def text_simps generate_otp_code_def DEFAULT_CODE_BYTES_HEX_LEN_def
      hash_otp_code_def normalize_code_def hash_simps)

lemma example_service [simp]:
  "email_otp_service example_env =
     Ok \<lparr>os_pepper = ''pepper'', os_ttl = 600000000, os_max_attempts = 5\<rparr>"
  by (simp add: email_otp_service_def EmailOtpService_new_def auth_env_var_def example_env_def text_simps
      minutes_def seconds_def DEFAULT_TTL_MINUTES_def DEFAULT_MAX_ATTEMPTS_def)

lemma example_start_result:
  "\<exists>response db. start_email_auth example_env example_accounts 0 example_start = (Ok response, db) \<and>
     au_challenges db = [example_code] \<and>
     au_users db = [example_user ''ann'' ''ann@x'', example_user ''bob'' ''bob@x''] \<and>
     au_sessions db = [] \<and> au_tenants db = [Uuid ''t''] \<and> au_codes db = 1 \<and> au_draws db = 2"
  by (simp add: start_email_auth_def example_start_def start_challenge_def
      example_accounts_def reusable_email_challenge_def latest_active_by_email_and_purpose_def
      storage_def enforce_email_challenge_rate_limit_def Let_def
      count_created_since_by_email_and_purpose_def count_created_since_by_device_and_purpose_def
      AUTH_EMAIL_RATE_LIMIT_MAX_PER_EMAIL_def AUTH_EMAIL_RATE_LIMIT_MAX_PER_DEVICE_def
      prepare_challenge_def env_simps stored_def challenge_create_def hash_code_def example_code_def
      map_email_verification_challenge_row_def AuthChallengePurpose_from_str_def text_simps
      auth_challenge_metadata_def json_object_def)

lemma example_sent:
  "answer (fst (start_email_auth example_env example_accounts 0 example_start)) = None"
  "au_challenges sent_accounts = [example_code]"
  "au_users sent_accounts = [example_user ''ann'' ''ann@x'', example_user ''bob'' ''bob@x'']"
  "au_sessions sent_accounts = []" "au_tenants sent_accounts = [Uuid ''t'']"
  "au_codes sent_accounts = 1" "au_draws sent_accounts = 2"
  using example_start_result by (auto simp: sent_accounts_def answer_def)

lemmas verify_simps =
  verify_email_auth_def guess_request_def validate_required_def text_simps
  email_auth_verify_creates_session_for_purpose_def latest_active_by_email_and_purpose_def
  active_challenge_def env_simps storage_def map_email_verification_challenge_row_def
  AuthChallengePurpose_from_str_def verify_against_def verify_challenge_def hash_code_def stored_def
  Let_def returning_def

lemma example_no_codes [simp]: "au_challenges example_accounts = []"
  by (simp add: example_accounts_def)

lemma example_perform: "perform example_env example_accounts 0 (Start_call example_start) = (None, sent_accounts)"
  by (simp add: answered_def example_sent sent_accounts_def)

text \<open>The code as two requests read it, and what each of them does afterwards.\<close>

definition example_challenge :: EmailVerificationChallenge where
  "example_challenge = (case map_email_verification_challenge_row example_code of Inr c \<Rightarrow> c)"

lemma example_reads: "reads_code example_env sent_accounts (guess_request ''70000001'') ''bob@x'' example_challenge"
  by (simp add: reads_code_def verify_simps example_sent example_challenge_def example_code_def)

lemma example_guess:
  assumes "au_challenges db = [example_code\<lparr>cr_attempt_count := k\<rparr>]" and "k + 1 < 2 ^ 31"
  shows "\<exists>db'. answered (verify_against example_env db 1 (guess_request ''70000001'') ''bob@x'' example_challenge) =
      (Some ''verification_code_invalid'', db') \<and>
    au_challenges db' = [example_code\<lparr>cr_attempt_count := k + 1\<rparr>]"
  using assms
  by (simp add: answered_def verify_simps example_challenge_def example_code_def increment_attempt_count_def
      answer_def verify_failure_def bad_request_def)

lemma serve_going_on_first:
  assumes "answered (verify_against env db now request email ch) = (said, db')"
  shows "serve env c \<lparr>sv_db = db, sv_reading = (now, request, email, ch) # hs, sv_guesses = gs\<rparr>
    \<lparr>sv_db = db', sv_reading = hs, sv_guesses = gs @ counted_guess (Verify_call request) said\<rparr>"
proof -
  let ?s = "\<lparr>sv_db = db, sv_reading = (now, request, email, ch) # hs, sv_guesses = gs\<rparr>"
  have "serve env c ?s (?s\<lparr>sv_db := db', sv_reading := [] @ hs,
      sv_guesses := sv_guesses ?s @ counted_guess (Verify_call request) said\<rparr>)"
    by (rule serve.going_on) (use assms in simp_all)
  then show ?thesis by (simp del: counted_guess.simps)
qed

theorem guesses_bounded_witness:
  "\<exists>s. (serve example_env 2)\<^sup>*\<^sup>* \<lparr>sv_db = example_accounts, sv_reading = [], sv_guesses = []\<rparr> s \<and>
     sv_guesses s = [(''bob@x'', Login), (''bob@x'', Login)] \<and>
     2 \<le> (4 + 2) * length (filter (code_of example_env ''bob@x'' Login) (au_challenges (sv_db s)))"
proof -
  let ?h = "(1 :: datetime, guess_request ''70000001'', ''bob@x'', example_challenge)"
  let ?s0 = "\<lparr>sv_db = example_accounts, sv_reading = [], sv_guesses = []\<rparr>"
  let ?s1 = "\<lparr>sv_db = sent_accounts, sv_reading = [], sv_guesses = []\<rparr>"
  let ?s3 = "\<lparr>sv_db = sent_accounts, sv_reading = [?h, ?h], sv_guesses = []\<rparr>"
  obtain db4 where g4: "answered (verify_against example_env sent_accounts 1 (guess_request ''70000001'') ''bob@x''
      example_challenge) = (Some ''verification_code_invalid'', db4)"
    and c4: "au_challenges db4 = [example_code\<lparr>cr_attempt_count := 1\<rparr>]"
    using example_guess [of sent_accounts 0] by (auto simp: example_sent example_code_def)
  obtain db5 where g5: "answered (verify_against example_env db4 1 (guess_request ''70000001'') ''bob@x''
      example_challenge) = (Some ''verification_code_invalid'', db5)"
    using example_guess [of db4 1] c4 by auto
  have guess: "counted_guess (Verify_call (guess_request ''70000001'')) (Some ''verification_code_invalid'') = [(''bob@x'', Login)]"
    by (simp add: guess_request_def)
  have "(serve example_env 2)\<^sup>*\<^sup>* ?s0 ?s1"
    using perform_serves [of ?s0 2 example_env 0 "Start_call example_start"] example_perform by simp
  also have "serve example_env 2 ?s1 \<lparr>sv_db = sent_accounts, sv_reading = [?h], sv_guesses = []\<rparr>"
    using serve.reading [of ?s1 2 example_env "guess_request ''70000001''"] example_reads by simp
  also have "serve example_env 2 \<lparr>sv_db = sent_accounts, sv_reading = [?h], sv_guesses = []\<rparr> ?s3"
    using serve.reading [of "\<lparr>sv_db = sent_accounts, sv_reading = [?h], sv_guesses = []\<rparr>" 2 example_env
      "guess_request ''70000001''"] example_reads by simp
  also have "serve example_env 2 ?s3 \<lparr>sv_db = db4, sv_reading = [?h], sv_guesses = [(''bob@x'', Login)]\<rparr>"
    using serve_going_on_first [OF g4, of 2 "[?h]" "[]"] guess by (simp del: counted_guess.simps)
  also have "serve example_env 2 \<lparr>sv_db = db4, sv_reading = [?h], sv_guesses = [(''bob@x'', Login)]\<rparr>
      \<lparr>sv_db = db5, sv_reading = [], sv_guesses = [(''bob@x'', Login), (''bob@x'', Login)]\<rparr>"
    using serve_going_on_first [OF g5, of 2 "[]" "[(''bob@x'', Login)]"] guess by (simp del: counted_guess.simps)
  finally have run: "(serve example_env 2)\<^sup>*\<^sup>* ?s0
      \<lparr>sv_db = db5, sv_reading = [], sv_guesses = [(''bob@x'', Login), (''bob@x'', Login)]\<rparr>" .
  from guesses_bounded [OF example_no_codes this, of "''bob@x''" Login] run show ?thesis
    by (intro exI [of _ "\<lparr>sv_db = db5, sv_reading = [], sv_guesses = [(''bob@x'', Login), (''bob@x'', Login)]\<rparr>"]) simp
qed

lemma example_user_row [simp]: "map_user_row example_env (example_user i email) =
    Ok \<lparr>usr_id = Uuid i, usr_tenant_id = Uuid ''t'', usr_email = email, usr_display_name = email,
        usr_roles = [], usr_created_at = 0\<rparr>"
  by (simp add: map_user_row_def example_user_def roles_from_value_def)

lemmas session_simps =
  create_auth_session_def session_create_def ensure_by_email_def returned_def returning_def
  map_user_session_row_def AuthSessionMethod_from_str_def normalize_device_fingerprint_def
  trim_optional_def set_session_cookie_headers_def header_of_def to_auth_session_view_def
  new_auth_session_token_def auth_session_token_hash_def auth_env_var_def env_simps Let_def
  storage_def stored_def fst_then_with_Ok map_user_row_def roles_from_value_def

lemma example_login:
  "\<exists>status headers response.
     fst (verify_email_auth example_env sent_accounts 1 (guess_request ''70000000'')) =
       Ok (status, headers, response) \<and> asv_user_id (lr_session response) = Uuid ''bob''"
  by (simp add: verify_simps example_sent example_code_def mark_consumed_def login_verified_def
      session_simps hash_simps example_user_def)

theorem verified_login_witness:
  "\<exists>r \<in> set (au_challenges sent_accounts).
     code_of example_env ''bob@x'' Login r \<and> open_code 1 r \<and>
     cr_code_hash r = hash_otp_code example_env (otp_pepper example_env) ''bob@x'' Login ''70000000''"
proof -
  obtain status headers response db' where
    "verify_email_auth example_env sent_accounts 1 (guess_request ''70000000'') =
      (Ok (status, headers, response), db')"
    using example_login by (metis prod.collapse)
  from verified_login [OF this] show ?thesis by (auto simp: guess_request_def)
qed

lemma example_keys:
  "list_by_fingerprint example_env example_accounts (local_key_fingerprint example_env ''a'') =
     Ok [\<lparr>sbd_id = Uuid ''b1'', sbd_tenant_id = Uuid ''t'', sbd_dataset_id = Uuid ''d'', sbd_document_id = None,
          sbd_scope_level = SecretScopeLevel.Dataset, sbd_provider_key = ''p'', sbd_cipher_text = ''c'',
          sbd_fingerprint = ''61'', sbd_created_at = 0\<rparr>]"
  "list_by_fingerprint example_env example_accounts (local_key_fingerprint example_env ''b'') =
     Ok [\<lparr>sbd_id = Uuid ''b2'', sbd_tenant_id = Uuid ''t'', sbd_dataset_id = Uuid ''d'', sbd_document_id = None,
          sbd_scope_level = SecretScopeLevel.Dataset, sbd_provider_key = ''p'', sbd_cipher_text = ''c'',
          sbd_fingerprint = ''62'', sbd_created_at = 0\<rparr>]"
  by (simp_all add: list_by_fingerprint_def example_accounts_def example_binding_def
      local_key_fingerprint_def hash_simps text_simps map_secret_binding_row_def
      SecretScopeLevel_from_str_def)

lemma example_key_login:
  "opened (login_with_local_key example_env example_accounts 0 (key_request ''b'')) = Some (Uuid ''bob'')"
proof -
  let ?r = "key_request ''b''"
  have "opened (login_with_local_key example_env example_accounts 0 ?r) =
      (case fst (session_after example_env example_accounts 0 ''bob@x'' (kq_device_fingerprint ?r)
         (local_key_fingerprint example_env (kq_local_key ?r))) of
         Inl e \<Rightarrow> None | Inr session \<Rightarrow> Some (uss_user_id session))"
    by (rule opened_login) (auto simp: key_request_def example_keys(2) text_simps)
  moreover have "\<exists>session. fst (session_after example_env example_accounts 0 ''bob@x'' (kq_device_fingerprint ?r)
      (local_key_fingerprint example_env (kq_local_key ?r))) = Ok session \<and> uss_user_id session = Uuid ''bob''"
    by (simp add: key_request_def session_after_def session_simps hash_simps example_accounts_def
        example_user_def update_primary_secret_fingerprint_def)
  ultimately show ?thesis by auto
qed

theorem known_keys_interchangeable_witness:
  "opened (login_with_local_key example_env example_accounts 0
     ((key_request ''b'')\<lparr>kq_local_key := ''a''\<rparr>)) = Some (Uuid ''bob'')"
  using known_keys_interchangeable [of example_env example_accounts "key_request ''b''" _ _ "''a''" _ _ 0]
    example_keys example_key_login
  by (simp add: key_request_def text_simps)

definition example_session :: session_row where
  "example_session =
     \<lparr>xs_id = Uuid ''s'', xs_tenant_id = Uuid ''t'', xs_user_id = Uuid ''bob'', xs_device_fingerprint = ''phone'',
      xs_session_token_hash = ''6e'', xs_auth_method = ''email_code'', xs_created_at = 0, xs_last_seen_at = 0,
      xs_expires_at = 100, xs_revoked_at = None\<rparr>"

definition example_cookies :: header_map where
  "example_cookies = [''cookie'' \<mapsto> ''a=b;aidp_v3_session=token'']"

lemma example_token: "auth_session_token_from_headers example_env example_cookies = Some ''token''"
  by (simp add: auth_session_token_from_headers_def example_cookies_def env_simps session_cookie_entry_def
      split_once_def AUTH_SESSION_COOKIE_NAME_def text_simps)

definition signed_in :: auth_db where
  "signed_in = example_accounts\<lparr>au_sessions := [example_session]\<rparr>"

lemmas logout_simps =
  session_get_by_token_hash_def auth_session_token_hash_def hash_simps example_session_def signed_in_def
  map_user_session_row_def AuthSessionMethod_from_str_def storage_def session_revoke_def returning_def

lemma example_signed_in:
  "current_auth_user_id example_env signed_in 1 example_cookies = Ok (Some (Uuid ''bob''))"
  "fst (logout_auth_session example_env signed_in 1 example_cookies) =
     Ok ([''set-cookie'' \<mapsto> ''aidp_v3_session=; Path=/; HttpOnly; SameSite=Lax; Max-Age=0''], True)"
  by (simp_all add: current_auth_user_id_def current_auth_session_def example_token logout_simps
      user_get_by_id_def example_accounts_def example_user_def map_user_row_def roles_from_value_def
      logout_auth_session_def clear_session_cookie_headers_def header_of_def
      AUTH_SESSION_COOKIE_NAME_def stored_def Let_def)

theorem logout_ends_session_witness:
  "current_auth_user_id example_env signed_in 1 example_cookies = Ok (Some (Uuid ''bob'')) \<and>
   current_auth_session example_env (snd (logout_auth_session example_env signed_in 1 example_cookies)) 2
     example_cookies = Ok None"
  using example_signed_in
    logout_ends_session [of example_env signed_in 1 example_cookies _ True, OF prod_eqI] by simp

end
