(* ===== verification/Document_Library.thy ===== *)
theory Document_Library
  imports Resource_Access
begin

text \<open>
  The library of datasets and documents: the repositories \<open>PgDatasetRepository\<close>,
  \<open>PgDocumentRepository\<close> and \<open>PgDatasetDocumentMembershipRepository\<close> of the crate \<open>storage\<close>, and
  the handlers of \<open>platform-api\<close> that load a document for a request and change the datasets it
  belongs to (\<open>document_visibility_support.rs\<close>, \<open>document_dataset_membership_support.rs\<close>). A document
  has one canonical dataset and is shown in others by membership rows. The theorems say that every
  dataset row stays readable, and that neither adding nor removing a membership lets a request see
  a document it could not see before.
\<close>

section \<open>Tables\<close>

record dataset_row =
  dr_id :: uuid
  dr_tenant_id :: uuid
  dr_owner_user_id :: "uuid option"
  dr_key :: string
  dr_title :: string
  dr_description :: "string option"
  dr_lifecycle :: string
  dr_metadata :: json
  dr_created_at :: datetime
  dr_updated_at :: datetime

record document_row =
  dw_id :: uuid
  dw_tenant_id :: uuid
  dw_dataset_id :: uuid
  dw_owner_user_id :: "uuid option"
  dw_title :: string
  dw_object_key :: string
  dw_content_type :: string
  dw_lifecycle :: string
  dw_metadata :: json
  dw_created_at :: datetime
  dw_updated_at :: datetime
  dw_content_sha256 :: "string option"
  dw_content_size_bytes :: "int option"
  dw_canonical_document_id :: "uuid option"
  dw_dedup_state :: string
  dw_deduped_at :: "datetime option"

record DatasetDocumentMembership =
  dm_tenant_id :: TenantId
  dm_dataset_id :: DatasetId
  dm_document_id :: DocumentId
  dm_membership_kind :: string
  dm_source :: string
  dm_expires_at :: "datetime option"
  dm_created_at :: datetime

record content_fingerprint_row =
  cf_tenant_id :: uuid
  cf_content_sha256 :: string
  cf_content_size_bytes :: int
  cf_canonical_document_id :: uuid
  cf_created_at :: datetime
  cf_updated_at :: datetime

record library_db =
  lib_tenants :: "uuid list"
  lib_users :: "uuid list"
  lib_datasets :: "dataset_row list"
  lib_documents :: "document_row list"
  lib_memberships :: "DatasetDocumentMembership list"
  lib_fingerprints :: "content_fingerprint_row list"
  lib_draws :: nat

record NewDataset =
  nd_key :: string
  nd_title :: string
  nd_description :: "string option"
  nd_owner_user_id :: "UserId option"

record NewDocument =
  nw_dataset_id :: DatasetId
  nw_title :: string
  nw_object_key :: string
  nw_content_type :: string
  nw_secret_binding_ids :: "SecretBindingId list"
  nw_owner_user_id :: "UserId option"
  nw_metadata :: json

record NewDatasetDocumentMembership =
  nm_dataset_id :: DatasetId
  nm_document_id :: DocumentId
  nm_membership_kind :: string
  nm_source :: string
  nm_expires_at :: "datetime option"

text \<open>What the repositories take from other crates: \<open>Uuid::parse_str\<close> with the text of its error, and
  the text \<open>serde_json\<close> displays for a value.\<close>

record library_codec =
  parse_uuid :: "string \<Rightarrow> (uuid, string) result"
  json_text :: "json \<Rightarrow> string"

section \<open>Metadata\<close>

definition json_object_to_btree_map :: "library_codec \<Rightarrow> json \<Rightarrow> json_map store_result" where
  "json_object_to_btree_map cd v =
     (case v of
        JObject m \<Rightarrow> Ok m
      | JNull \<Rightarrow> Ok []
      | _ \<Rightarrow> Err (DecodeError (''expected JSON object, got '' @ json_text cd v)))"

definition secret_binding_id_from_entry ::
    "library_codec \<Rightarrow> string \<Rightarrow> json \<Rightarrow> SecretBindingId store_result" where
  "secret_binding_id_from_entry cd key entry =
     and_then (ok_or (DecodeError (key @ '' entries must be strings'')) (json_as_str entry)) (\<lambda>raw.
     map_err (\<lambda>error. DecodeError (''invalid secret binding id '' @ raw @ '': '' @ error))
       (parse_uuid cd raw))"

definition secret_binding_ids_from_metadata_key ::
    "library_codec \<Rightarrow> json \<Rightarrow> string \<Rightarrow> SecretBindingId list store_result" where
  "secret_binding_ids_from_metadata_key cd metadata key =
     (case Option.bind (Option.bind (json_as_object metadata) (\<lambda>m. map_of m key)) json_as_array of
        None \<Rightarrow> Ok []
      | Some entries \<Rightarrow> collect (map (secret_binding_id_from_entry cd key) entries))"

definition secret_binding_ids_from_metadata ::
    "library_codec \<Rightarrow> json \<Rightarrow> SecretBindingId list store_result" where
  "secret_binding_ids_from_metadata cd metadata =
     secret_binding_ids_from_metadata_key cd metadata ''secret_binding_ids''"

definition dataset_visibility_from_metadata :: "json \<Rightarrow> DatasetVisibility" where
  "dataset_visibility_from_metadata metadata =
     unwrap_or DatasetVisibility.Public
       (Option.bind (Option.bind (Option.bind (json_as_object metadata) (\<lambda>m. map_of m ''visibility''))
          json_as_str) DatasetVisibility_from_str)"

definition dataset_initial_metadata :: "library_codec \<Rightarrow> json \<Rightarrow> json store_result" where
  "dataset_initial_metadata cd metadata =
     (let merged = unwrap_or [] (json_as_object metadata);
          visibility = unwrap_or DatasetVisibility.Public
            (Option.bind (Option.bind (map_of merged ''visibility'') json_as_str)
               DatasetVisibility_from_str);
          merged = map_insert ''visibility'' (JString (DatasetVisibility_as_str visibility)) merged;
          merged =
            (if map_of merged ''default_secret_binding_ids'' = None
             then map_insert ''default_secret_binding_ids'' (JArray []) merged else merged) in
      and_then (secret_binding_ids_from_metadata_key cd (JObject merged) ''default_secret_binding_ids'')
        (\<lambda>_. Ok (JObject merged)))"

definition document_metadata_with_secret_binding_ids :: "SecretBindingId list \<Rightarrow> json_map" where
  "document_metadata_with_secret_binding_ids secret_binding_ids =
     json_object [(''secret_binding_ids'', JArray (map (\<lambda>binding_id. JString (uuid_text binding_id))
       secret_binding_ids))]"

definition insert_all :: "json_map \<Rightarrow> json_map \<Rightarrow> json_map" where
  "insert_all updates merged = fold (\<lambda>(key, v). map_insert key v) updates merged"

definition document_initial_metadata :: "SecretBindingId list \<Rightarrow> json \<Rightarrow> json" where
  "document_initial_metadata secret_binding_ids metadata =
     JObject (insert_all (document_metadata_with_secret_binding_ids secret_binding_ids)
       (unwrap_or [] (json_as_object metadata)))"

definition merge_dataset_metadata :: "library_codec \<Rightarrow> json_map \<Rightarrow> json \<Rightarrow> json store_result" where
  "merge_dataset_metadata cd current_metadata metadata_updates =
     and_then (ok_or (DecodeError ''dataset metadata updates must be a JSON object'')
       (json_as_object metadata_updates)) (\<lambda>updates.
     dataset_initial_metadata cd (JObject (insert_all updates current_metadata)))"

definition merge_document_metadata :: "json_map \<Rightarrow> json \<Rightarrow> json store_result" where
  "merge_document_metadata current_metadata metadata_updates =
     and_then (ok_or (DecodeError ''document metadata updates must be a JSON object'')
       (json_as_object metadata_updates)) (\<lambda>updates.
     Ok (JObject (insert_all updates current_metadata)))"

section \<open>Reading rows\<close>

definition map_dataset_row :: "library_codec \<Rightarrow> dataset_row \<Rightarrow> Dataset store_result" where
  "map_dataset_row cd row =
     and_then (secret_binding_ids_from_metadata_key cd (dr_metadata row) ''default_secret_binding_ids'')
       (\<lambda>default_secret_binding_ids.
     and_then (ok_or (DecodeError (''unknown dataset lifecycle: '' @ dr_lifecycle row))
       (DatasetLifecycle_from_str (dr_lifecycle row))) (\<lambda>lifecycle.
     and_then (json_object_to_btree_map cd (dr_metadata row)) (\<lambda>metadata.
     Ok \<lparr>ds_id = dr_id row, ds_tenant_id = dr_tenant_id row, ds_owner_user_id = dr_owner_user_id row,
         ds_key = dr_key row, ds_title = dr_title row, ds_description = dr_description row,
         ds_lifecycle = lifecycle, ds_visibility = dataset_visibility_from_metadata (dr_metadata row),
         ds_default_secret_binding_ids = default_secret_binding_ids, ds_metadata = metadata,
         ds_created_at = dr_created_at row, ds_updated_at = dr_updated_at row\<rparr>)))"

definition map_document_row :: "library_codec \<Rightarrow> document_row \<Rightarrow> Document store_result" where
  "map_document_row cd row =
     and_then (ok_or (DecodeError (''unknown document lifecycle: '' @ dw_lifecycle row))
       (DocumentLifecycle_from_str (dw_lifecycle row))) (\<lambda>lifecycle.
     and_then (secret_binding_ids_from_metadata cd (dw_metadata row)) (\<lambda>secret_binding_ids.
     and_then (json_object_to_btree_map cd (dw_metadata row)) (\<lambda>metadata.
     Ok \<lparr>doc_id = dw_id row, doc_tenant_id = dw_tenant_id row, doc_dataset_id = dw_dataset_id row,
         doc_owner_user_id = dw_owner_user_id row, doc_title = dw_title row,
         doc_object_key = dw_object_key row, doc_content_type = dw_content_type row,
         doc_lifecycle = lifecycle, doc_secret_binding_ids = secret_binding_ids,
         doc_metadata = metadata, doc_created_at = dw_created_at row,
         doc_updated_at = dw_updated_at row\<rparr>)))"

text \<open>\<open>fetch_one\<close> on the rows an \<open>insert\<close> or \<open>update\<close> returns.\<close>

definition fetch_one :: "'r list \<Rightarrow> 'r store_result" where
  "fetch_one rows = ok_or RowNotFound (fetch_optional rows)"

section \<open>Datasets\<close>

definition dataset_get_by_id ::
    "library_codec \<Rightarrow> library_db \<Rightarrow> TenantId \<Rightarrow> DatasetId \<Rightarrow> Dataset option store_result" where
  "dataset_get_by_id cd db tenant_id dataset_id =
     transpose_option (map_option (map_dataset_row cd)
       (fetch_optional (filter (\<lambda>r. dr_tenant_id r = tenant_id \<and> dr_id r = dataset_id)
          (lib_datasets db))))"

definition dataset_get_by_key ::
    "library_codec \<Rightarrow> library_db \<Rightarrow> TenantId \<Rightarrow> string \<Rightarrow> Dataset option store_result" where
  "dataset_get_by_key cd db tenant_id key =
     transpose_option (map_option (map_dataset_row cd)
       (fetch_optional (filter (\<lambda>r. dr_tenant_id r = tenant_id \<and> dr_key r = key) (lib_datasets db))))"

definition dataset_list_by_tenant ::
    "library_codec \<Rightarrow> library_db \<Rightarrow> TenantId \<Rightarrow> Dataset list store_result" where
  "dataset_list_by_tenant cd db tenant_id =
     collect (map (map_dataset_row cd)
       (sort_key (\<lambda>r. (- dr_created_at r, dr_key r))
          (filter (\<lambda>r. dr_tenant_id r = tenant_id) (lib_datasets db))))"

definition owner_known :: "library_db \<Rightarrow> uuid option \<Rightarrow> bool" where
  "owner_known db owner \<longleftrightarrow> owner = None \<or> owner \<in> Some ` set (lib_users db)"

definition dataset_create_with_metadata ::
    "library_codec \<Rightarrow> uuid_source \<Rightarrow> library_db \<Rightarrow> TenantId \<Rightarrow> NewDataset \<Rightarrow> json \<Rightarrow> datetime \<Rightarrow>
     Dataset store_result \<times> library_db" where
  "dataset_create_with_metadata cd new_v4 db tenant_id new_dataset metadata now =
     (case dataset_initial_metadata cd metadata of
        Inl e \<Rightarrow> (Err e, db)
      | Inr initial \<Rightarrow>
          let row =
                \<lparr>dr_id = new_v4 (lib_draws db), dr_tenant_id = tenant_id,
                 dr_owner_user_id = nd_owner_user_id new_dataset, dr_key = nd_key new_dataset,
                 dr_title = nd_title new_dataset, dr_description = nd_description new_dataset,
                 dr_lifecycle = DatasetLifecycle_as_str DatasetLifecycle.Draft, dr_metadata = initial,
                 dr_created_at = now, dr_updated_at = now\<rparr>;
              drawn = db\<lparr>lib_draws := Suc (lib_draws db)\<rparr> in
          if \<exists>r \<in> set (lib_datasets db).
               dr_id r = dr_id row \<or> dr_tenant_id r = tenant_id \<and> dr_key r = dr_key row
          then (Err UniqueViolation, drawn)
          else if tenant_id \<notin> set (lib_tenants db) \<or> \<not> owner_known db (dr_owner_user_id row)
          then (Err ForeignKeyViolation, drawn)
          else (map_dataset_row cd row, drawn\<lparr>lib_datasets := lib_datasets db @ [row]\<rparr>))"

definition dataset_create ::
    "library_codec \<Rightarrow> uuid_source \<Rightarrow> library_db \<Rightarrow> TenantId \<Rightarrow> NewDataset \<Rightarrow> datetime \<Rightarrow>
     Dataset store_result \<times> library_db" where
  "dataset_create cd new_v4 db tenant_id new_dataset now =
     dataset_create_with_metadata cd new_v4 db tenant_id new_dataset JNull now"

text \<open>\<open>update datasets set .. where tenant_id = $1 and id = $2 returning ..\<close>\<close>

definition update_dataset_row ::
    "library_codec \<Rightarrow> library_db \<Rightarrow> TenantId \<Rightarrow> DatasetId \<Rightarrow> (dataset_row \<Rightarrow> dataset_row) \<Rightarrow>
     Dataset store_result \<times> library_db" where
  "update_dataset_row cd db tenant_id dataset_id f =
     (let p = (\<lambda>r. dr_tenant_id r = tenant_id \<and> dr_id r = dataset_id) in
      (and_then (fetch_one (returning p f (lib_datasets db))) (map_dataset_row cd),
       db\<lparr>lib_datasets := update_where p f (lib_datasets db)\<rparr>))"

definition dataset_found ::
    "library_codec \<Rightarrow> library_db \<Rightarrow> TenantId \<Rightarrow> DatasetId \<Rightarrow> Dataset store_result" where
  "dataset_found cd db tenant_id dataset_id =
     and_then (dataset_get_by_id cd db tenant_id dataset_id)
       (ok_or (DecodeError (''dataset '' @ uuid_text dataset_id @ '' was not found'')))"

definition dataset_update_metadata ::
    "library_codec \<Rightarrow> library_db \<Rightarrow> TenantId \<Rightarrow> DatasetId \<Rightarrow> json \<Rightarrow> datetime \<Rightarrow>
     Dataset store_result \<times> library_db" where
  "dataset_update_metadata cd db tenant_id dataset_id metadata_updates now =
     (case and_then (dataset_found cd db tenant_id dataset_id) (\<lambda>current.
             merge_dataset_metadata cd (ds_metadata current) metadata_updates) of
        Inl e \<Rightarrow> (Err e, db)
      | Inr merged_metadata \<Rightarrow>
          update_dataset_row cd db tenant_id dataset_id
            (\<lambda>r. r\<lparr>dr_metadata := merged_metadata, dr_updated_at := now\<rparr>))"

definition dataset_update_state ::
    "library_codec \<Rightarrow> library_db \<Rightarrow> TenantId \<Rightarrow> DatasetId \<Rightarrow> string option \<Rightarrow> string option \<Rightarrow>
     DatasetLifecycle option \<Rightarrow> json \<Rightarrow> datetime \<Rightarrow> Dataset store_result \<times> library_db" where
  "dataset_update_state cd db tenant_id dataset_id title description next_lifecycle metadata_updates now =
     (case and_then (dataset_found cd db tenant_id dataset_id) (\<lambda>current.
             and_then (merge_dataset_metadata cd (ds_metadata current) metadata_updates) (\<lambda>merged.
             Ok (current, merged))) of
        Inl e \<Rightarrow> (Err e, db)
      | Inr (current, merged_metadata) \<Rightarrow>
          update_dataset_row cd db tenant_id dataset_id
            (\<lambda>r. r\<lparr>dr_title := unwrap_or (ds_title current) title,
                 dr_description := or_else description (ds_description current),
                 dr_lifecycle := DatasetLifecycle_as_str (unwrap_or (ds_lifecycle current) next_lifecycle),
                 dr_metadata := merged_metadata, dr_updated_at := now\<rparr>))"

definition dataset_update_owner_user_id ::
    "library_codec \<Rightarrow> library_db \<Rightarrow> TenantId \<Rightarrow> DatasetId \<Rightarrow> UserId \<Rightarrow> datetime \<Rightarrow>
     Dataset option store_result \<times> library_db" where
  "dataset_update_owner_user_id cd db tenant_id dataset_id owner_user_id now =
     (let p = (\<lambda>r. dr_tenant_id r = tenant_id \<and> dr_id r = dataset_id \<and>
                (dr_owner_user_id r = None \<or> dr_owner_user_id r = Some owner_user_id));
          f = (\<lambda>r. r\<lparr>dr_owner_user_id := Some owner_user_id, dr_updated_at := now\<rparr>);
          rows = returning p f (lib_datasets db) in
      if rows \<noteq> [] \<and> \<not> owner_known db (Some owner_user_id) then (Err ForeignKeyViolation, db)
      else
        (transpose_option (map_option (map_dataset_row cd) (fetch_optional rows)),
         db\<lparr>lib_datasets := update_where p f (lib_datasets db)\<rparr>))"

section \<open>Documents\<close>

definition document_get_by_id ::
    "library_codec \<Rightarrow> library_db \<Rightarrow> TenantId \<Rightarrow> DocumentId \<Rightarrow> Document option store_result" where
  "document_get_by_id cd db tenant_id document_id =
     transpose_option (map_option (map_document_row cd)
       (fetch_optional (filter (\<lambda>r. dw_tenant_id r = tenant_id \<and> dw_id r = document_id)
          (lib_documents db))))"

definition document_order :: "document_row \<Rightarrow> int \<times> string" where
  "document_order r = (- dw_created_at r, dw_title r)"

definition document_list_by_tenant ::
    "library_codec \<Rightarrow> library_db \<Rightarrow> TenantId \<Rightarrow> Document list store_result" where
  "document_list_by_tenant cd db tenant_id =
     collect (map (map_document_row cd)
       (sort_key document_order (filter (\<lambda>r. dw_tenant_id r = tenant_id) (lib_documents db))))"

definition document_list_by_dataset ::
    "library_codec \<Rightarrow> library_db \<Rightarrow> TenantId \<Rightarrow> DatasetId \<Rightarrow> Document list store_result" where
  "document_list_by_dataset cd db tenant_id dataset_id =
     collect (map (map_document_row cd)
       (sort_key document_order
          (filter (\<lambda>r. dw_tenant_id r = tenant_id \<and> dw_dataset_id r = dataset_id) (lib_documents db))))"

definition membership_active :: "datetime \<Rightarrow> DatasetDocumentMembership \<Rightarrow> bool" where
  "membership_active now m \<longleftrightarrow> (case dm_expires_at m of None \<Rightarrow> True | Some e \<Rightarrow> e > now)"

text \<open>The \<open>union\<close> keeps one copy of a row; every document row has its own id.\<close>

definition document_list_by_dataset_scope ::
    "library_codec \<Rightarrow> library_db \<Rightarrow> TenantId \<Rightarrow> DatasetId \<Rightarrow> datetime \<Rightarrow>
     Document list store_result" where
  "document_list_by_dataset_scope cd db tenant_id dataset_id now =
     collect (map (map_document_row cd)
       (sort_key document_order
          (filter (\<lambda>r. dw_tenant_id r = tenant_id \<and> dw_dataset_id r = dataset_id \<or>
             (\<exists>m \<in> set (lib_memberships db).
                dm_tenant_id m = dw_tenant_id r \<and> dm_document_id m = dw_id r \<and>
                dm_tenant_id m = tenant_id \<and> dm_dataset_id m = dataset_id \<and>
                membership_active now m)) (lib_documents db))))"

definition document_create ::
    "library_codec \<Rightarrow> uuid_source \<Rightarrow> library_db \<Rightarrow> TenantId \<Rightarrow> NewDocument \<Rightarrow> datetime \<Rightarrow>
     Document store_result \<times> library_db" where
  "document_create cd new_v4 db tenant_id new_document now =
     (let row =
            \<lparr>dw_id = new_v4 (lib_draws db), dw_tenant_id = tenant_id,
             dw_dataset_id = nw_dataset_id new_document,
             dw_owner_user_id = nw_owner_user_id new_document, dw_title = nw_title new_document,
             dw_object_key = nw_object_key new_document,
             dw_content_type = nw_content_type new_document,
             dw_lifecycle = DocumentLifecycle_as_str DocumentLifecycle.Received,
             dw_metadata = document_initial_metadata (nw_secret_binding_ids new_document)
               (nw_metadata new_document),
             dw_created_at = now, dw_updated_at = now, dw_content_sha256 = None,
             dw_content_size_bytes = None, dw_canonical_document_id = None,
             dw_dedup_state = ''unknown'', dw_deduped_at = None\<rparr>;
          drawn = db\<lparr>lib_draws := Suc (lib_draws db)\<rparr> in
      if \<exists>r \<in> set (lib_documents db). dw_id r = dw_id row then (Err UniqueViolation, drawn)
      else if tenant_id \<notin> set (lib_tenants db) \<or> \<not> owner_known db (dw_owner_user_id row) \<or>
        dw_dataset_id row \<notin> dr_id ` set (lib_datasets db)
      then (Err ForeignKeyViolation, drawn)
      else (map_document_row cd row, drawn\<lparr>lib_documents := lib_documents db @ [row]\<rparr>))"

definition update_document_row ::
    "library_codec \<Rightarrow> library_db \<Rightarrow> TenantId \<Rightarrow> DocumentId \<Rightarrow> (document_row \<Rightarrow> document_row) \<Rightarrow>
     Document store_result \<times> library_db" where
  "update_document_row cd db tenant_id document_id f =
     (let p = (\<lambda>r. dw_tenant_id r = tenant_id \<and> dw_id r = document_id) in
      (and_then (fetch_one (returning p f (lib_documents db))) (map_document_row cd),
       db\<lparr>lib_documents := update_where p f (lib_documents db)\<rparr>))"

definition document_found ::
    "library_codec \<Rightarrow> library_db \<Rightarrow> TenantId \<Rightarrow> DocumentId \<Rightarrow> Document store_result" where
  "document_found cd db tenant_id document_id =
     and_then (document_get_by_id cd db tenant_id document_id)
       (ok_or (DecodeError (''document '' @ uuid_text document_id @ '' not found for tenant '' @
          uuid_text tenant_id)))"

definition document_update_state ::
    "library_codec \<Rightarrow> library_db \<Rightarrow> TenantId \<Rightarrow> DocumentId \<Rightarrow> DocumentLifecycle \<Rightarrow> string option \<Rightarrow>
     json \<Rightarrow> datetime \<Rightarrow> Document store_result \<times> library_db" where
  "document_update_state cd db tenant_id document_id next_lifecycle title metadata_updates updated_at =
     (case and_then (document_found cd db tenant_id document_id) (\<lambda>current.
             and_then (merge_document_metadata (doc_metadata current) metadata_updates) (\<lambda>merged.
             Ok (current, merged))) of
        Inl e \<Rightarrow> (Err e, db)
      | Inr (current, merged_metadata) \<Rightarrow>
          update_document_row cd db tenant_id document_id
            (\<lambda>r. r\<lparr>dw_title := unwrap_or (doc_title current) title,
                 dw_lifecycle := DocumentLifecycle_as_str next_lifecycle,
                 dw_metadata := merged_metadata, dw_updated_at := updated_at\<rparr>))"

definition document_move_to_dataset ::
    "library_codec \<Rightarrow> library_db \<Rightarrow> TenantId \<Rightarrow> DocumentId \<Rightarrow> DatasetId \<Rightarrow> json \<Rightarrow> datetime \<Rightarrow>
     Document store_result \<times> library_db" where
  "document_move_to_dataset cd db tenant_id document_id dataset_id metadata_updates updated_at =
     (case and_then (document_found cd db tenant_id document_id) (\<lambda>current.
             merge_document_metadata (doc_metadata current) metadata_updates) of
        Inl e \<Rightarrow> (Err e, db)
      | Inr merged_metadata \<Rightarrow>
          if dataset_id \<notin> dr_id ` set (lib_datasets db) then (Err ForeignKeyViolation, db)
          else
            update_document_row cd db tenant_id document_id
              (\<lambda>r. r\<lparr>dw_dataset_id := dataset_id, dw_metadata := merged_metadata,
                   dw_updated_at := updated_at\<rparr>))"

definition document_update_owner_user_id ::
    "library_codec \<Rightarrow> library_db \<Rightarrow> TenantId \<Rightarrow> DocumentId \<Rightarrow> UserId \<Rightarrow> datetime \<Rightarrow>
     Document option store_result \<times> library_db" where
  "document_update_owner_user_id cd db tenant_id document_id owner_user_id now =
     (let p = (\<lambda>r. dw_tenant_id r = tenant_id \<and> dw_id r = document_id \<and>
                (dw_owner_user_id r = None \<or> dw_owner_user_id r = Some owner_user_id));
          f = (\<lambda>r. r\<lparr>dw_owner_user_id := Some owner_user_id, dw_updated_at := now\<rparr>);
          rows = returning p f (lib_documents db) in
      if rows \<noteq> [] \<and> \<not> owner_known db (Some owner_user_id) then (Err ForeignKeyViolation, db)
      else
        (transpose_option (map_option (map_document_row cd) (fetch_optional rows)),
         db\<lparr>lib_documents := update_where p f (lib_documents db)\<rparr>))"

text \<open>One transaction: on an error nothing is kept. The first document with a content is canonical
  for it; the insert of a later one does nothing.\<close>

definition document_record_content_fingerprint ::
    "library_codec \<Rightarrow> library_db \<Rightarrow> TenantId \<Rightarrow> DocumentId \<Rightarrow> string \<Rightarrow> int \<Rightarrow> datetime \<Rightarrow>
     Document store_result \<times> library_db" where
  "document_record_content_fingerprint cd db tenant_id document_id content_sha256 content_size_bytes
     recorded_at =
     (let same = (\<lambda>c. cf_tenant_id c = tenant_id \<and> cf_content_sha256 c = content_sha256);
          fingerprint =
            \<lparr>cf_tenant_id = tenant_id, cf_content_sha256 = content_sha256,
             cf_content_size_bytes = content_size_bytes, cf_canonical_document_id = document_id,
             cf_created_at = recorded_at, cf_updated_at = recorded_at\<rparr>;
          fingerprints =
            (if list_ex same (lib_fingerprints db) then lib_fingerprints db
             else lib_fingerprints db @ [fingerprint]) in
      if \<not> list_ex same (lib_fingerprints db) \<and>
         (tenant_id \<notin> set (lib_tenants db) \<or> document_id \<notin> dw_id ` set (lib_documents db))
      then (Err ForeignKeyViolation, db)
      else
        (case fetch_one (filter same fingerprints) of
           Inl e \<Rightarrow> (Err e, db)
         | Inr c \<Rightarrow>
             let canonical_document_id = cf_canonical_document_id c;
                 p = (\<lambda>r. dw_tenant_id r = tenant_id \<and> dw_id r = document_id);
                 f = (\<lambda>r. r\<lparr>dw_content_sha256 := Some content_sha256,
                        dw_content_size_bytes := Some content_size_bytes,
                        dw_canonical_document_id := Some canonical_document_id,
                        dw_dedup_state :=
                          (if canonical_document_id = document_id then ''canonical'' else ''duplicate''),
                        dw_deduped_at := Some recorded_at, dw_updated_at := recorded_at\<rparr>) in
             (case fetch_one (returning p f (lib_documents db)) of
                Inl e \<Rightarrow> (Err e, db)
              | Inr row \<Rightarrow>
                  (map_document_row cd row,
                   db\<lparr>lib_fingerprints := fingerprints,
                      lib_documents := update_where p f (lib_documents db)\<rparr>))))"

section \<open>Memberships\<close>

definition map_dataset_document_membership_row ::
    "DatasetDocumentMembership \<Rightarrow> DatasetDocumentMembership store_result" where
  "map_dataset_document_membership_row row = Ok row"

definition membership_key :: "DatasetDocumentMembership \<Rightarrow> TenantId \<times> DatasetId \<times> DocumentId" where
  "membership_key m = (dm_tenant_id m, dm_dataset_id m, dm_document_id m)"

definition membership_create_or_update ::
    "library_db \<Rightarrow> TenantId \<Rightarrow> NewDatasetDocumentMembership \<Rightarrow> datetime \<Rightarrow>
     DatasetDocumentMembership store_result \<times> library_db" where
  "membership_create_or_update db tenant_id new_membership now =
     (let row =
            \<lparr>dm_tenant_id = tenant_id, dm_dataset_id = nm_dataset_id new_membership,
             dm_document_id = nm_document_id new_membership,
             dm_membership_kind = nm_membership_kind new_membership,
             dm_source = nm_source new_membership, dm_expires_at = nm_expires_at new_membership,
             dm_created_at = now\<rparr>;
          p = (\<lambda>m. membership_key m = membership_key row);
          f = (\<lambda>m. m\<lparr>dm_membership_kind := dm_membership_kind row, dm_source := dm_source row,
                 dm_expires_at := dm_expires_at row\<rparr>) in
      if list_ex p (lib_memberships db)
      then (and_then (fetch_one (returning p f (lib_memberships db))) map_dataset_document_membership_row,
            db\<lparr>lib_memberships := update_where p f (lib_memberships db)\<rparr>)
      else if tenant_id \<notin> set (lib_tenants db) \<or>
        dm_dataset_id row \<notin> dr_id ` set (lib_datasets db) \<or>
        dm_document_id row \<notin> dw_id ` set (lib_documents db)
      then (Err ForeignKeyViolation, db)
      else (map_dataset_document_membership_row row,
            db\<lparr>lib_memberships := lib_memberships db @ [row]\<rparr>))"

definition list_document_ids_by_dataset ::
    "library_db \<Rightarrow> TenantId \<Rightarrow> DatasetId \<Rightarrow> datetime \<Rightarrow> DocumentId list" where
  "list_document_ids_by_dataset db tenant_id dataset_id now =
     map dm_document_id (sort_key dm_document_id
       (filter (\<lambda>m. dm_tenant_id m = tenant_id \<and> dm_dataset_id m = dataset_id \<and>
          membership_active now m) (lib_memberships db)))"

definition list_active_by_dataset ::
    "library_db \<Rightarrow> TenantId \<Rightarrow> DatasetId \<Rightarrow> datetime \<Rightarrow> DatasetDocumentMembership list store_result" where
  "list_active_by_dataset db tenant_id dataset_id as_of =
     collect (map map_dataset_document_membership_row (sort_key dm_document_id
       (filter (\<lambda>m. dm_tenant_id m = tenant_id \<and> dm_dataset_id m = dataset_id \<and>
          dm_created_at m \<le> as_of \<and> membership_active as_of m) (lib_memberships db))))"

definition list_dataset_ids_by_document ::
    "library_db \<Rightarrow> TenantId \<Rightarrow> DocumentId \<Rightarrow> datetime \<Rightarrow> DatasetId list" where
  "list_dataset_ids_by_document db tenant_id document_id now =
     map dm_dataset_id (sort_key dm_dataset_id
       (filter (\<lambda>m. dm_tenant_id m = tenant_id \<and> dm_document_id m = document_id \<and>
          membership_active now m) (lib_memberships db)))"

definition list_dataset_ids_by_documents ::
    "library_db \<Rightarrow> TenantId \<Rightarrow> DocumentId list \<Rightarrow> datetime \<Rightarrow> (DocumentId \<times> DatasetId) list" where
  "list_dataset_ids_by_documents db tenant_id document_ids now =
     (if document_ids = [] then []
      else
        map (\<lambda>m. (dm_document_id m, dm_dataset_id m))
          (sort_key (\<lambda>m. (dm_document_id m, dm_dataset_id m))
             (filter (\<lambda>m. dm_tenant_id m = tenant_id \<and> dm_document_id m \<in> set document_ids \<and>
                membership_active now m) (lib_memberships db))))"

text \<open>\<open>delete\<close> and the number of rows it affects.\<close>

definition delete_memberships ::
    "library_db \<Rightarrow> (DatasetDocumentMembership \<Rightarrow> bool) \<Rightarrow> nat \<times> library_db" where
  "delete_memberships db p =
     (length (filter p (lib_memberships db)),
      db\<lparr>lib_memberships := filter (\<lambda>m. \<not> p m) (lib_memberships db)\<rparr>)"

definition membership_delete ::
    "library_db \<Rightarrow> TenantId \<Rightarrow> DatasetId \<Rightarrow> DocumentId \<Rightarrow> nat \<times> library_db" where
  "membership_delete db tenant_id dataset_id document_id =
     delete_memberships db (\<lambda>m. dm_tenant_id m = tenant_id \<and> dm_dataset_id m = dataset_id \<and>
       dm_document_id m = document_id)"

definition membership_delete_expired :: "library_db \<Rightarrow> TenantId \<Rightarrow> datetime \<Rightarrow> nat \<times> library_db" where
  "membership_delete_expired db tenant_id now =
     delete_memberships db (\<lambda>m. dm_tenant_id m = tenant_id \<and>
       (case dm_expires_at m of None \<Rightarrow> False | Some e \<Rightarrow> e \<le> now))"

section \<open>What the tables keep\<close>

definition dataset_readable :: "library_codec \<Rightarrow> dataset_row \<Rightarrow> bool" where
  "dataset_readable cd r \<longleftrightarrow> (\<exists>d. map_dataset_row cd r = Ok d)"

definition dataset_ok :: "library_codec \<Rightarrow> library_db \<Rightarrow> dataset_row \<Rightarrow> bool" where
  "dataset_ok cd db r \<longleftrightarrow>
     dataset_readable cd r \<and> dr_tenant_id r \<in> set (lib_tenants db) \<and> owner_known db (dr_owner_user_id r)"

definition document_ok :: "library_db \<Rightarrow> document_row \<Rightarrow> bool" where
  "document_ok db r \<longleftrightarrow>
     dw_dataset_id r \<in> dr_id ` set (lib_datasets db) \<and> dw_tenant_id r \<in> set (lib_tenants db) \<and>
     owner_known db (dw_owner_user_id r)"

definition membership_ok :: "library_db \<Rightarrow> DatasetDocumentMembership \<Rightarrow> bool" where
  "membership_ok db m \<longleftrightarrow>
     dm_dataset_id m \<in> dr_id ` set (lib_datasets db) \<and>
     dm_document_id m \<in> dw_id ` set (lib_documents db) \<and> dm_tenant_id m \<in> set (lib_tenants db)"

text \<open>Primary keys, unique keys, foreign keys, and every dataset row readable.\<close>

definition library_wf :: "library_codec \<Rightarrow> library_db \<Rightarrow> bool" where
  "library_wf cd db \<longleftrightarrow>
     distinct (map dr_id (lib_datasets db)) \<and>
     distinct (map (\<lambda>r. (dr_tenant_id r, dr_key r)) (lib_datasets db)) \<and>
     distinct (map dw_id (lib_documents db)) \<and>
     distinct (map membership_key (lib_memberships db)) \<and>
     distinct (map (\<lambda>c. (cf_tenant_id c, cf_content_sha256 c)) (lib_fingerprints db)) \<and>
     (\<forall>r \<in> set (lib_datasets db). dataset_ok cd db r) \<and>
     (\<forall>r \<in> set (lib_documents db). document_ok db r) \<and>
     (\<forall>m \<in> set (lib_memberships db). membership_ok db m) \<and>
     (\<forall>c \<in> set (lib_fingerprints db). cf_canonical_document_id c \<in> dw_id ` set (lib_documents db))"

inductive library_step :: "library_codec \<Rightarrow> uuid_source \<Rightarrow> library_db \<Rightarrow> library_db \<Rightarrow> bool"
  for cd :: library_codec and new_v4 :: uuid_source where
  create_dataset: "library_step cd new_v4 db (snd (dataset_create_with_metadata cd new_v4 db t nd md now))"
| dataset_metadata: "library_step cd new_v4 db (snd (dataset_update_metadata cd db t i md now))"
| dataset_state: "library_step cd new_v4 db (snd (dataset_update_state cd db t i ti de lc md now))"
| dataset_owner: "library_step cd new_v4 db (snd (dataset_update_owner_user_id cd db t i u now))"
| create_document: "library_step cd new_v4 db (snd (document_create cd new_v4 db t nw now))"
| document_state: "library_step cd new_v4 db (snd (document_update_state cd db t i lcd ti md now))"
| document_move: "library_step cd new_v4 db (snd (document_move_to_dataset cd db t i d md now))"
| document_owner: "library_step cd new_v4 db (snd (document_update_owner_user_id cd db t i u now))"
| fingerprint: "library_step cd new_v4 db (snd (document_record_content_fingerprint cd db t i sha n now))"
| membership: "library_step cd new_v4 db (snd (membership_create_or_update db t nm now))"
| delete_one: "library_step cd new_v4 db (snd (membership_delete db t d i))"
| delete_old: "library_step cd new_v4 db (snd (membership_delete_expired db t now))"

lemma dataset_readable_iff:
  "dataset_readable cd r \<longleftrightarrow>
     (\<exists>ids. secret_binding_ids_from_metadata_key cd (dr_metadata r) ''default_secret_binding_ids'' = Ok ids) \<and>
     (\<exists>lc. DatasetLifecycle_from_str (dr_lifecycle r) = Some lc) \<and>
     (\<exists>m. json_object_to_btree_map cd (dr_metadata r) = Ok m)"
  by (auto simp: dataset_readable_def map_dataset_row_def and_then_eq_Ok ok_or_eq_Ok)

lemma initial_metadata_Ok:
  assumes "dataset_initial_metadata cd metadata = Ok m"
  shows "(\<exists>ids. secret_binding_ids_from_metadata_key cd m ''default_secret_binding_ids'' = Ok ids) \<and>
    (\<exists>obj. json_object_to_btree_map cd m = Ok obj)"
  using assms
  by (auto simp: dataset_initial_metadata_def Let_def and_then_eq_Ok json_object_to_btree_map_def)

lemma merge_dataset_metadata_Ok:
  "merge_dataset_metadata cd cur updates = Ok m \<Longrightarrow>
     (\<exists>ids. secret_binding_ids_from_metadata_key cd m ''default_secret_binding_ids'' = Ok ids) \<and>
     (\<exists>obj. json_object_to_btree_map cd m = Ok obj)"
  by (auto simp: merge_dataset_metadata_def and_then_eq_Ok ok_or_eq_Ok dest!: initial_metadata_Ok)

lemma library_wf_draws [simp]: "library_wf cd (db\<lparr>lib_draws := n\<rparr>) = library_wf cd db"
  by (simp add: library_wf_def owner_known_def dataset_ok_def document_ok_def membership_ok_def)

lemma owner_known_tables [simp]:
  "owner_known (db\<lparr>lib_datasets := x\<rparr>) = owner_known db"
  "owner_known (db\<lparr>lib_documents := y\<rparr>) = owner_known db"
  "owner_known (db\<lparr>lib_memberships := z\<rparr>) = owner_known db"
  "owner_known (db\<lparr>lib_fingerprints := w\<rparr>) = owner_known db"
  "owner_known (db\<lparr>lib_draws := n\<rparr>) = owner_known db"
  by (auto simp: owner_known_def fun_eq_iff)

lemma datasets_update_wf:
  assumes wf: "library_wf cd db"
    and keys: "\<And>r. dr_id (f r) = dr_id r" "\<And>r. dr_tenant_id (f r) = dr_tenant_id r" "\<And>r. dr_key (f r) = dr_key r"
    and rows: "\<And>r. r \<in> set (lib_datasets db) \<Longrightarrow> p r \<Longrightarrow> dataset_ok cd db (f r)"
  shows "library_wf cd (db\<lparr>lib_datasets := update_where p f (lib_datasets db)\<rparr>)"
proof -
  let ?rows = "update_where p f (lib_datasets db)"
  have k: "map dr_id ?rows = map dr_id (lib_datasets db)"
    "map (\<lambda>r. (dr_tenant_id r, dr_key r)) ?rows = map (\<lambda>r. (dr_tenant_id r, dr_key r)) (lib_datasets db)"
    by (rule map_update_where; simp add: keys)+
  have ids: "dr_id ` set ?rows = dr_id ` set (lib_datasets db)"
    using arg_cong [OF k(1), of set] by simp
  have "\<forall>r \<in> set ?rows. dataset_ok cd db r"
    using wf rows by (auto simp: library_wf_def elim!: in_update_whereE)
  then show ?thesis
    using wf unfolding library_wf_def
    by (simp add: k ids dataset_ok_def document_ok_def membership_ok_def)
qed

lemma documents_update_wf:
  assumes wf: "library_wf cd db"
    and keys: "\<And>r. dw_id (f r) = dw_id r"
    and rows: "\<And>r. r \<in> set (lib_documents db) \<Longrightarrow> p r \<Longrightarrow> document_ok db (f r)"
  shows "library_wf cd (db\<lparr>lib_documents := update_where p f (lib_documents db)\<rparr>)"
proof -
  let ?rows = "update_where p f (lib_documents db)"
  have k: "map dw_id ?rows = map dw_id (lib_documents db)"
    by (rule map_update_where) (simp add: keys)
  have ids: "dw_id ` set ?rows = dw_id ` set (lib_documents db)"
    using arg_cong [OF k, of set] by simp
  have "\<forall>r \<in> set ?rows. document_ok db r"
    using wf rows by (auto simp: library_wf_def elim!: in_update_whereE)
  then show ?thesis
    using wf unfolding library_wf_def
    by (simp add: k ids dataset_ok_def document_ok_def membership_ok_def)
qed

lemma library_wfD:
  assumes "library_wf cd db"
  shows "r \<in> set (lib_datasets db) \<Longrightarrow> dataset_ok cd db r"
    and "q \<in> set (lib_documents db) \<Longrightarrow> document_ok db q"
    and "m \<in> set (lib_memberships db) \<Longrightarrow> membership_ok db m"
  using assms by (simp_all add: library_wf_def)

lemma dataset_insert_wf:
  assumes "library_wf cd db" and "dataset_ok cd db row"
    and "\<forall>r \<in> set (lib_datasets db). \<not> (dr_id r = dr_id row \<or>
      dr_tenant_id r = dr_tenant_id row \<and> dr_key r = dr_key row)"
  shows "library_wf cd (db\<lparr>lib_datasets := lib_datasets db @ [row]\<rparr>)"
  using assms unfolding library_wf_def
  by (auto simp: dataset_ok_def document_ok_def membership_ok_def)

lemma dataset_create_wf:
  assumes wf: "library_wf cd db"
  shows "library_wf cd (snd (dataset_create_with_metadata cd new_v4 db t nd md now))"
proof (cases "dataset_initial_metadata cd md")
  case (Inr m)
  have "dataset_readable cd r" if "dr_metadata r = m" "dr_lifecycle r = ''draft''" for r
    using that initial_metadata_Ok [OF Inr] by (auto simp: dataset_readable_iff DatasetLifecycle_from_str_def)
  then show ?thesis
    using wf dataset_insert_wf [of cd "db\<lparr>lib_draws := Suc (lib_draws db)\<rparr>"]
    by (simp add: dataset_create_with_metadata_def Inr Let_def dataset_ok_def)
qed (simp add: dataset_create_with_metadata_def wf)

lemma update_dataset_row_wf:
  assumes "library_wf cd db"
    and "\<And>r. dr_id (f r) = dr_id r" "\<And>r. dr_tenant_id (f r) = dr_tenant_id r" "\<And>r. dr_key (f r) = dr_key r"
    and "\<And>r. dr_owner_user_id (f r) = dr_owner_user_id r"
    and "\<And>r. r \<in> set (lib_datasets db) \<Longrightarrow> dataset_readable cd (f r)"
  shows "library_wf cd (snd (update_dataset_row cd db t i f))"
  unfolding update_dataset_row_def Let_def snd_conv using assms library_wfD(1) [OF assms(1)]
  by (intro datasets_update_wf) (auto simp: dataset_ok_def)

lemma dataset_update_metadata_wf:
  assumes wf: "library_wf cd db"
  shows "library_wf cd (snd (dataset_update_metadata cd db t i md now))"
  using library_wfD(1) [OF wf] merge_dataset_metadata_Ok
  by (auto simp: dataset_update_metadata_def and_then_eq_Ok dataset_ok_def dataset_readable_iff wf
    split: sum.split intro!: update_dataset_row_wf [OF wf])

lemma dataset_update_state_wf:
  assumes wf: "library_wf cd db"
  shows "library_wf cd (snd (dataset_update_state cd db t i ti de lc md now))"
  using merge_dataset_metadata_Ok DatasetLifecycle_wire.from_as
  by (auto simp: dataset_update_state_def and_then_eq_Ok dataset_readable_iff wf
    split: sum.split intro!: update_dataset_row_wf [OF wf])

lemma returning_member: "returning p f t \<noteq> [] \<longleftrightarrow> (\<exists>r \<in> set t. p r)"
  by simp

lemma dataset_update_owner_wf:
  assumes wf: "library_wf cd db"
  shows "library_wf cd (snd (dataset_update_owner_user_id cd db t i u now))"
proof -
  let ?p = "\<lambda>r. dr_tenant_id r = t \<and> dr_id r = i \<and> (dr_owner_user_id r = None \<or> dr_owner_user_id r = Some u)"
  let ?f = "\<lambda>r. r\<lparr>dr_owner_user_id := Some u, dr_updated_at := now\<rparr>"
  have "library_wf cd (db\<lparr>lib_datasets := update_where ?p ?f (lib_datasets db)\<rparr>)"
    if "(\<forall>r \<in> set (lib_datasets db). \<not> ?p r) \<or> owner_known db (Some u)"
    using that library_wfD(1) [OF wf]
    by (intro datasets_update_wf [OF wf]) (auto simp: dataset_ok_def dataset_readable_iff)
  then show ?thesis
    using wf by (auto simp: dataset_update_owner_user_id_def Let_def)
qed

lemma document_insert_wf:
  assumes "library_wf cd db" and "document_ok db row" and "\<forall>r \<in> set (lib_documents db). dw_id r \<noteq> dw_id row"
  shows "library_wf cd (db\<lparr>lib_documents := lib_documents db @ [row]\<rparr>)"
  using assms unfolding library_wf_def
  by (auto simp: dataset_ok_def document_ok_def membership_ok_def)

lemma document_create_wf:
  assumes wf: "library_wf cd db"
  shows "library_wf cd (snd (document_create cd new_v4 db t nw now))"
  using wf document_insert_wf [of cd "db\<lparr>lib_draws := Suc (lib_draws db)\<rparr>"]
  by (simp add: document_create_def Let_def document_ok_def)

lemma update_document_row_wf:
  assumes "library_wf cd db" and "\<And>r. dw_id (f r) = dw_id r" "\<And>r. dw_tenant_id (f r) = dw_tenant_id r"
    and "\<And>r. dw_owner_user_id (f r) = dw_owner_user_id r"
    and "\<And>r. dw_dataset_id (f r) \<in> insert (dw_dataset_id r) (dr_id ` set (lib_datasets db))"
  shows "library_wf cd (snd (update_document_row cd db t i f))"
  unfolding update_document_row_def Let_def snd_conv
proof (rule documents_update_wf [OF assms(1, 2)])
  fix r
  assume "r \<in> set (lib_documents db)"
  then have "document_ok db r"
    by (rule library_wfD(2) [OF assms(1)])
  then show "document_ok db (f r)"
    using assms(5) [of r] by (auto simp: document_ok_def assms(3, 4))
qed

lemma document_update_state_wf:
  assumes wf: "library_wf cd db"
  shows "library_wf cd (snd (document_update_state cd db t i lc ti md now))"
  by (auto simp: document_update_state_def wf split: sum.split intro!: update_document_row_wf [OF wf])

lemma document_move_wf:
  assumes wf: "library_wf cd db"
  shows "library_wf cd (snd (document_move_to_dataset cd db t i d md now))"
  by (auto simp: document_move_to_dataset_def wf split: sum.split intro!: update_document_row_wf [OF wf])

lemma document_update_owner_wf:
  assumes wf: "library_wf cd db"
  shows "library_wf cd (snd (document_update_owner_user_id cd db t i u now))"
proof -
  let ?p = "\<lambda>r. dw_tenant_id r = t \<and> dw_id r = i \<and> (dw_owner_user_id r = None \<or> dw_owner_user_id r = Some u)"
  let ?f = "\<lambda>r. r\<lparr>dw_owner_user_id := Some u, dw_updated_at := now\<rparr>"
  have "library_wf cd (db\<lparr>lib_documents := update_where ?p ?f (lib_documents db)\<rparr>)"
    if "(\<forall>r \<in> set (lib_documents db). \<not> ?p r) \<or> owner_known db (Some u)"
    using that library_wfD(2) [OF wf]
    by (intro documents_update_wf [OF wf]) (auto simp: document_ok_def)
  then show ?thesis
    using wf by (auto simp: document_update_owner_user_id_def Let_def)
qed

lemma fingerprint_insert_wf:
  assumes "library_wf cd db" and "cf_canonical_document_id c \<in> dw_id ` set (lib_documents db)"
    and "\<forall>c' \<in> set (lib_fingerprints db).
      (cf_tenant_id c', cf_content_sha256 c') \<noteq> (cf_tenant_id c, cf_content_sha256 c)"
  shows "library_wf cd (db\<lparr>lib_fingerprints := lib_fingerprints db @ [c]\<rparr>)"
  using assms unfolding library_wf_def
  by (auto simp: dataset_ok_def document_ok_def membership_ok_def)

lemma fingerprint_wf:
  assumes wf: "library_wf cd db"
  shows "library_wf cd (snd (document_record_content_fingerprint cd db t i sha n now))"
proof -
  let ?same = "\<lambda>c. cf_tenant_id c = t \<and> cf_content_sha256 c = sha"
  let ?c = "\<lparr>cf_tenant_id = t, cf_content_sha256 = sha, cf_content_size_bytes = n,
    cf_canonical_document_id = i, cf_created_at = now, cf_updated_at = now\<rparr>"
  let ?cs = "if list_ex ?same (lib_fingerprints db) then lib_fingerprints db else lib_fingerprints db @ [?c]"
  have docs: "library_wf cd (db'\<lparr>lib_documents := update_where p f (lib_documents db')\<rparr>)"
    if "library_wf cd db'" "\<And>r. dw_id (f r) = dw_id r" "\<And>r. dw_tenant_id (f r) = dw_tenant_id r"
      "\<And>r. dw_dataset_id (f r) = dw_dataset_id r" "\<And>r. dw_owner_user_id (f r) = dw_owner_user_id r" for db' p f
    using that library_wfD(2) [OF that(1)] by (intro documents_update_wf) (auto simp: document_ok_def)
  have "library_wf cd (db\<lparr>lib_fingerprints := ?cs\<rparr>)"
    if "list_ex ?same (lib_fingerprints db) \<or> i \<in> dw_id ` set (lib_documents db)"
    using that wf fingerprint_insert_wf [OF wf, of ?c] by (auto simp: list_ex_iff)
  then show ?thesis
    using wf docs [of "db\<lparr>lib_fingerprints := ?cs\<rparr>"]
    by (auto simp: document_record_content_fingerprint_def Let_def split: sum.split)
qed

lemma memberships_wf:
  assumes "library_wf cd db" and "distinct (map membership_key ms)" and "\<forall>m \<in> set ms. membership_ok db m"
  shows "library_wf cd (db\<lparr>lib_memberships := ms\<rparr>)"
  using assms unfolding library_wf_def
  by (auto simp: dataset_ok_def document_ok_def membership_ok_def)

lemma membership_create_wf:
  assumes wf: "library_wf cd db"
  shows "library_wf cd (snd (membership_create_or_update db t nm now))"
proof -
  have upd: "library_wf cd (db\<lparr>lib_memberships := update_where p f (lib_memberships db)\<rparr>)"
    if "\<And>m. membership_key (f m) = membership_key m" for p f
    using wf that library_wfD(3) [OF wf]
    by (intro memberships_wf [OF wf]) (auto simp: map_update_where library_wf_def membership_ok_def
      membership_key_def elim!: in_update_whereE)
  have ins: "library_wf cd (db\<lparr>lib_memberships := lib_memberships db @ [m]\<rparr>)"
    if "membership_ok db m" "\<forall>m' \<in> set (lib_memberships db). membership_key m' \<noteq> membership_key m" for m
    using wf that library_wfD(3) [OF wf]
    by (intro memberships_wf [OF wf]) (auto simp: library_wf_def)
  show ?thesis
    unfolding membership_create_or_update_def Let_def using wf
    by (auto simp: list_ex_iff membership_ok_def membership_key_def intro!: upd ins)
qed

lemma delete_memberships_wf: "library_wf cd db \<Longrightarrow> library_wf cd (snd (delete_memberships db p))"
  unfolding delete_memberships_def snd_conv
  by (rule memberships_wf) (auto simp: library_wf_def distinct_map_filter)

lemmas library_step_wf_simps =
  dataset_create_wf dataset_update_metadata_wf dataset_update_state_wf dataset_update_owner_wf
  document_create_wf document_update_state_wf document_move_wf document_update_owner_wf fingerprint_wf
  membership_create_wf delete_memberships_wf

lemma library_step_wf: "library_step cd new_v4 db db' \<Longrightarrow> library_wf cd db \<Longrightarrow> library_wf cd db'"
  by (induction rule: library_step.induct)
    (simp_all add: library_step_wf_simps membership_delete_def membership_delete_expired_def)

lemma library_steps_wf: "(library_step cd new_v4)\<^sup>*\<^sup>* db db' \<Longrightarrow> library_wf cd db \<Longrightarrow> library_wf cd db'"
  by (induction rule: rtranclp_induct) (auto intro: library_step_wf)

definition empty_library :: "uuid list \<Rightarrow> uuid list \<Rightarrow> library_db" where
  "empty_library ts us =
     \<lparr>lib_tenants = ts, lib_users = us, lib_datasets = [], lib_documents = [], lib_memberships = [],
      lib_fingerprints = [], lib_draws = 0\<rparr>"

lemma empty_library_wf: "library_wf cd (empty_library ts us)"
  by (simp add: library_wf_def empty_library_def)

lemma collect_all_Ok:
  assumes "\<forall>x \<in> set xs. \<exists>y. f x = Ok y \<and> g y = h x"
  shows "\<exists>ys. collect (map f xs) = Ok ys \<and> map g ys = map h xs"
  using assms by (induction xs) auto

lemma collect_some_Err: "x \<in> set xs \<Longrightarrow> f x = Err e \<Longrightarrow> \<exists>e'. collect (map f xs) = Err e'"
  by (induction xs) (auto simp: and_then_def split: sum.splits)

lemma map_dataset_row_id: "map_dataset_row cd r = Ok d \<Longrightarrow> ds_id d = dr_id r \<and> ds_tenant_id d = dr_tenant_id r"
  by (auto simp: map_dataset_row_def and_then_eq_Ok)

text \<open>C17: whatever sequence of repository operations fills the tables, keys stay unique, references
  stay valid and every dataset row can be read: the list of a tenant's datasets never fails and has
  exactly the tenant's rows, even after updates with arbitrary metadata.\<close>

theorem datasets_stay_readable:
  assumes "(library_step cd new_v4)\<^sup>*\<^sup>* (empty_library ts us) db"
  shows "library_wf cd db \<and>
    (\<exists>ds. dataset_list_by_tenant cd db t = Ok ds \<and> distinct (map ds_id ds) \<and>
       set (map ds_id ds) = dr_id ` {r \<in> set (lib_datasets db). dr_tenant_id r = t})"
proof -
  have wf: "library_wf cd db"
    by (rule library_steps_wf [OF assms empty_library_wf])
  let ?rows = "sort_key (\<lambda>r. (- dr_created_at r, dr_key r)) (filter (\<lambda>r. dr_tenant_id r = t) (lib_datasets db))"
  have "\<forall>r \<in> set ?rows. \<exists>d. map_dataset_row cd r = Ok d \<and> ds_id d = dr_id r"
    using library_wfD(1) [OF wf] map_dataset_row_id by (fastforce simp: dataset_ok_def dataset_readable_def)
  then obtain ds where ds: "collect (map (map_dataset_row cd) ?rows) = Ok ds" "map ds_id ds = map dr_id ?rows"
    using collect_all_Ok by blast
  have "distinct (map dr_id ?rows)"
    using wf by (simp add: library_wf_def distinct_map inj_on_def)
  moreover have "set (map dr_id ?rows) = dr_id ` {r \<in> set (lib_datasets db). dr_tenant_id r = t}"
    by auto
  ultimately show ?thesis
    using wf ds unfolding dataset_list_by_tenant_def by (metis (no_types, lifting))
qed

definition example_codec :: library_codec where
  "example_codec =
     \<lparr>parse_uuid = (\<lambda>s. if s = ''x'' then Err ''bad'' else Ok (Uuid s)), json_text = (\<lambda>_. ''value'')\<rparr>"

definition example_library :: library_db where
  "example_library =
     snd (dataset_create_with_metadata example_codec (\<lambda>n. Uuid (replicate n (CHR ''a'')))
       (empty_library [Uuid ''t''] [Uuid ''u'']) (Uuid ''t'')
       \<lparr>nd_key = ''k'', nd_title = ''T'', nd_description = None, nd_owner_user_id = Some (Uuid ''u'')\<rparr>
       (JObject [(''visibility'', JString ''private'')]) 5)"

lemma example_library_eval:
  "lib_datasets example_library =
     [\<lparr>dr_id = Uuid [], dr_tenant_id = Uuid ''t'', dr_owner_user_id = Some (Uuid ''u''), dr_key = ''k'',
       dr_title = ''T'', dr_description = None, dr_lifecycle = ''draft'',
       dr_metadata = JObject [(''default_secret_binding_ids'', JArray []), (''visibility'', JString ''private'')],
       dr_created_at = 5, dr_updated_at = 5\<rparr>]"
  by (simp add: example_library_def dataset_create_with_metadata_def dataset_initial_metadata_def
    empty_library_def Let_def owner_known_def secret_binding_ids_from_metadata_key_def
    DatasetVisibility_from_str_def)

lemma image_one: "P x \<Longrightarrow> g ` {r \<in> set [x]. P r} = {g x}"
  by auto

theorem datasets_stay_readable_witness:
  "library_wf example_codec example_library \<and>
   (\<exists>ds. dataset_list_by_tenant example_codec example_library (Uuid ''t'') = Ok ds \<and> distinct (map ds_id ds) \<and>
      set (map ds_id ds) = {Uuid []})"
proof -
  have run: "(library_step example_codec (\<lambda>n. Uuid (replicate n (CHR ''a''))))\<^sup>*\<^sup>*
      (empty_library [Uuid ''t''] [Uuid ''u'']) example_library"
    unfolding example_library_def by (intro r_into_rtranclp library_step.create_dataset)
  have ids: "dr_id ` {r \<in> set (lib_datasets example_library). dr_tenant_id r = Uuid ''t''} = {Uuid []}"
    unfolding example_library_eval by (subst image_one) simp_all
  show ?thesis
    using datasets_stay_readable [OF run, of "Uuid ''t''"] unfolding ids .
qed

text \<open>C40: the metadata of a document is not checked when it is written. An update whose secret
  binding ids do not parse is stored, reports an error, and from then on the list of all documents
  of the tenant fails.\<close>

theorem unchecked_document_metadata:
  assumes "document_get_by_id cd db t i = Ok (Some doc)" and "parse_uuid cd s = Err e"
  shows "\<exists>err err'. fst (document_update_state cd db t i lc ti
      (JObject [(''secret_binding_ids'', JArray [JString s])]) now) = Err err \<and>
    document_list_by_tenant cd (snd (document_update_state cd db t i lc ti
      (JObject [(''secret_binding_ids'', JArray [JString s])]) now)) t = Err err'"
proof -
  let ?p = "\<lambda>r. dw_tenant_id r = t \<and> dw_id r = i"
  let ?md = "JObject (map_insert ''secret_binding_ids'' (JArray [JString s]) (doc_metadata doc))"
  let ?f = "\<lambda>r. r\<lparr>dw_title := unwrap_or (doc_title doc) ti, dw_lifecycle := DocumentLifecycle_as_str lc,
    dw_metadata := ?md, dw_updated_at := now\<rparr>"
  have upd: "document_update_state cd db t i lc ti (JObject [(''secret_binding_ids'', JArray [JString s])]) now =
      update_document_row cd db t i ?f"
    by (simp add: document_update_state_def document_found_def assms(1) merge_document_metadata_def
      insert_all_def)
  have bad: "\<exists>err. map_document_row cd (?f r) = Err err" for r
    by (simp add: map_document_row_def secret_binding_ids_from_metadata_def
      secret_binding_ids_from_metadata_key_def secret_binding_id_from_entry_def assms(2)
      DocumentLifecycle_wire.from_as)
  obtain r where r: "r \<in> set (lib_documents db)" "?p r"
    using assms(1) fetch_optional_SomeD [of "filter ?p (lib_documents db)"]
    by (cases "fetch_optional (filter ?p (lib_documents db))") (auto simp: document_get_by_id_def)
  then have "?f r \<in> set (update_where ?p ?f (lib_documents db))"
    by (intro in_update_where_set)
  moreover obtain err where "map_document_row cd (?f r) = Err err"
    using bad by blast
  ultimately have "\<exists>err'. document_list_by_tenant cd (snd (update_document_row cd db t i ?f)) t = Err err'"
    using r unfolding document_list_by_tenant_def update_document_row_def Let_def
    by (intro collect_some_Err [of "?f r"]) auto
  moreover have "\<exists>err. fst (update_document_row cd db t i ?f) = Err err"
  proof (cases "fetch_optional (returning ?p ?f (lib_documents db))")
    case (Some q)
    then obtain r' where "q = ?f r'"
      using fetch_optional_SomeD [OF Some] by (auto simp: returning_def)
    then show ?thesis
      using Some bad [of r'] by (simp add: update_document_row_def fetch_one_def)
  qed (use r in auto)
  ultimately show ?thesis
    unfolding upd by blast
qed

definition example_documents :: library_db where
  "example_documents = example_library\<lparr>lib_documents :=
     [\<lparr>dw_id = Uuid ''d'', dw_tenant_id = Uuid ''t'', dw_dataset_id = Uuid [], dw_owner_user_id = None,
       dw_title = ''D'', dw_object_key = ''o'', dw_content_type = ''text/plain'', dw_lifecycle = ''received'',
       dw_metadata = JObject [], dw_created_at = 1, dw_updated_at = 1, dw_content_sha256 = None,
       dw_content_size_bytes = None, dw_canonical_document_id = None, dw_dedup_state = ''unknown'',
       dw_deduped_at = None\<rparr>]\<rparr>"

theorem unchecked_document_metadata_witness:
  "\<exists>err err'. fst (document_update_state example_codec example_documents (Uuid ''t'') (Uuid ''d'') DocumentLifecycle.Indexed None
      (JObject [(''secret_binding_ids'', JArray [JString ''x''])]) 2) = Err err \<and>
    document_list_by_tenant example_codec (snd (document_update_state example_codec example_documents
      (Uuid ''t'') (Uuid ''d'') DocumentLifecycle.Indexed None
      (JObject [(''secret_binding_ids'', JArray [JString ''x''])]) 2)) (Uuid ''t'') = Err err'"
proof -
  obtain doc where "document_get_by_id example_codec example_documents (Uuid ''t'') (Uuid ''d'') = Ok (Some doc)"
    by (simp add: document_get_by_id_def example_documents_def map_document_row_def
      DocumentLifecycle_from_str_def secret_binding_ids_from_metadata_def
      secret_binding_ids_from_metadata_key_def json_object_to_btree_map_def)
  moreover have "parse_uuid example_codec ''x'' = Err ''bad''"
    by (simp add: example_codec_def)
  ultimately show ?thesis
    by (rule unchecked_document_metadata)
qed

end
