(* ===== verification/Document_Access.thy ===== *)
theory Document_Access
  imports Document_Library Static_Page_Payload
begin

text \<open>
  The handlers of \<open>platform-api\<close> on the document library: loading a dataset or a document for a
  request (\<open>lib.rs\<close>, \<open>document_visibility_support.rs\<close>), adding and removing the datasets a document
  is shown in (\<open>document_dataset_membership_support.rs\<close>), creating datasets and updating datasets and
  documents (\<open>dataset_create_support.rs\<close>, \<open>dataset_update_support.rs\<close>, \<open>document_update_support.rs\<close>).
  A handler takes the tables and returns its answer with the tables after it.
\<close>

section \<open>Loading for a request\<close>

text \<open>The parts of \<open>AppState\<close> the handlers use: the codec of the repositories, the text of a database
  error, the RFC 3339 text of a time, and the tenant.\<close>

record app_state =
  st_codec :: library_codec
  st_db_message :: "store_error \<Rightarrow> string"
  st_rfc3339 :: "datetime \<Rightarrow> string"
  st_tenant_id :: TenantId

abbreviation storage_result :: "app_state \<Rightarrow> 'a store_result \<Rightarrow> ('a, ApiError) result" where
  "storage_result st r \<equiv> map_err (from_storage (st_db_message st)) r"

definition dataset_not_found_error :: "DatasetId \<Rightarrow> ApiError" where
  "dataset_not_found_error dataset_id =
     not_found ''dataset_not_found''
       (''dataset '' @ uuid_text dataset_id @ '' was not found for tenant or current access scope'')"

definition document_not_found_error :: "DocumentId \<Rightarrow> ApiError" where
  "document_not_found_error document_id =
     not_found ''document_not_found'' (''document '' @ uuid_text document_id @ '' was not found'')"

definition load_visible_dataset_for_user_with_local_scope ::
    "app_state \<Rightarrow> library_db \<Rightarrow> DatasetId \<Rightarrow> SecretBindingId list \<Rightarrow> UserId option \<Rightarrow> string option \<Rightarrow>
     (Dataset, ApiError) result" where
  "load_visible_dataset_for_user_with_local_scope st db dataset_id active user thread =
     and_then (storage_result st (dataset_get_by_id (st_codec st) db (st_tenant_id st) dataset_id))
       (\<lambda>found.
     and_then (ok_or (dataset_not_found_error dataset_id) found) (\<lambda>dataset.
     and_then (ensure_dataset_visible_for_request dataset (st_tenant_id st) active user thread) (\<lambda>_.
     Ok dataset)))"

definition load_visible_dataset_for_user ::
    "app_state \<Rightarrow> library_db \<Rightarrow> DatasetId \<Rightarrow> SecretBindingId list \<Rightarrow> UserId option \<Rightarrow>
     (Dataset, ApiError) result" where
  "load_visible_dataset_for_user st db dataset_id active user =
     load_visible_dataset_for_user_with_local_scope st db dataset_id active user None"

definition is_ok :: "('a, 'e) result \<Rightarrow> bool" where
  "is_ok r = (case r of Inl _ \<Rightarrow> False | Inr _ \<Rightarrow> True)"

definition document_has_visible_dataset_scope ::
    "app_state \<Rightarrow> library_db \<Rightarrow> datetime \<Rightarrow> Document \<Rightarrow> SecretBindingId list \<Rightarrow> UserId option \<Rightarrow>
     string option \<Rightarrow> (bool, ApiError) result" where
  "document_has_visible_dataset_scope st db now document active user thread =
     (if is_ok (load_visible_dataset_for_user_with_local_scope st db (doc_dataset_id document)
           active user thread)
      then Ok True
      else
        Ok (list_ex (\<lambda>dataset_id.
              is_ok (load_visible_dataset_for_user_with_local_scope st db dataset_id active user thread))
            (list_dataset_ids_by_document db (st_tenant_id st) (doc_id document) now)))"

definition load_visible_document_for_user_with_local_scope ::
    "app_state \<Rightarrow> library_db \<Rightarrow> datetime \<Rightarrow> DocumentId \<Rightarrow> SecretBindingId list \<Rightarrow> UserId option \<Rightarrow>
     string option \<Rightarrow> (Document, ApiError) result" where
  "load_visible_document_for_user_with_local_scope st db now document_id active user thread =
     and_then (storage_result st (document_get_by_id (st_codec st) db (st_tenant_id st) document_id))
       (\<lambda>found.
     and_then (ok_or (document_not_found_error document_id) found) (\<lambda>document.
     if \<not> owner_user_id_is_visible (doc_owner_user_id document) user
     then Err (document_not_found_error document_id)
     else
       and_then (document_has_visible_dataset_scope st db now document active user thread) (\<lambda>visible.
       if visible then Ok document else Err (document_not_found_error document_id))))"

definition load_visible_document_for_user ::
    "app_state \<Rightarrow> library_db \<Rightarrow> datetime \<Rightarrow> DocumentId \<Rightarrow> SecretBindingId list \<Rightarrow> UserId option \<Rightarrow>
     (Document, ApiError) result" where
  "load_visible_document_for_user st db now document_id active user =
     load_visible_document_for_user_with_local_scope st db now document_id active user None"

definition document_belongs_to_dataset_scope ::
    "app_state \<Rightarrow> library_db \<Rightarrow> datetime \<Rightarrow> Document \<Rightarrow> DatasetId \<Rightarrow> bool" where
  "document_belongs_to_dataset_scope st db now document dataset_id \<longleftrightarrow>
     (if doc_dataset_id document = dataset_id then True
      else dataset_id \<in>
        set (list_dataset_ids_by_document db (st_tenant_id st) (doc_id document) now))"

definition selected_scope_temporary_dataset_id :: "library_codec \<Rightarrow> json \<Rightarrow> DatasetId option" where
  "selected_scope_temporary_dataset_id cd scope =
     Option.bind (Option.bind (Option.bind (json_get scope ''temporary_dataset'')
       (\<lambda>v. json_get v ''id'')) json_as_str)
       (\<lambda>raw. case parse_uuid cd (trim raw) of Inl _ \<Rightarrow> None | Inr i \<Rightarrow> Some i)"

definition load_visible_document_for_assistant_scope ::
    "app_state \<Rightarrow> library_db \<Rightarrow> datetime \<Rightarrow> DocumentId \<Rightarrow> SecretBindingId list \<Rightarrow> UserId option \<Rightarrow>
     string option \<Rightarrow> json \<Rightarrow> (Document, ApiError) result" where
  "load_visible_document_for_assistant_scope st db now document_id active user thread selected_scope =
     (case load_visible_document_for_user_with_local_scope st db now document_id active user thread of
        Inr document \<Rightarrow> Ok document
      | Inl error \<Rightarrow>
          and_then (ok_or error (selected_scope_temporary_dataset_id (st_codec st) selected_scope))
            (\<lambda>temporary_dataset_id.
          and_then (storage_result st
            (document_get_by_id (st_codec st) db (st_tenant_id st) document_id)) (\<lambda>found.
          and_then (ok_or (document_not_found_error document_id) found) (\<lambda>document.
          if \<not> owner_user_id_is_visible (doc_owner_user_id document) user then Err error
          else if \<not> document_belongs_to_dataset_scope st db now document temporary_dataset_id
          then Err error
          else
            and_then (storage_result st
              (dataset_get_by_id (st_codec st) db (st_tenant_id st) temporary_dataset_id)) (\<lambda>found.
            and_then (ok_or (dataset_not_found_error temporary_dataset_id) found) (\<lambda>dataset.
            if \<not> dataset_is_external_temporary_scope dataset then Err error
            else Ok document))))))"

definition list_documents_for_dataset_scope ::
    "app_state \<Rightarrow> library_db \<Rightarrow> datetime \<Rightarrow> DatasetId \<Rightarrow> (Document list, ApiError) result" where
  "list_documents_for_dataset_scope st db now dataset_id =
     storage_result st (document_list_by_dataset_scope (st_codec st) db (st_tenant_id st) dataset_id now)"

definition visible_document_ids_for_dataset ::
    "app_state \<Rightarrow> library_db \<Rightarrow> datetime \<Rightarrow> DatasetId \<Rightarrow> UserId option \<Rightarrow>
     (DocumentId set, ApiError) result" where
  "visible_document_ids_for_dataset st db now dataset_id user =
     and_then (list_documents_for_dataset_scope st db now dataset_id) (\<lambda>documents.
     Ok (set (map doc_id
       (filter (\<lambda>document. owner_user_id_is_visible (doc_owner_user_id document) user) documents))))"

section \<open>Changing the datasets of a document\<close>

record DocumentDatasetMembershipResponse =
  mr_document :: Document
  mr_dataset_ids :: "DatasetId list"
  mr_canonical_dataset_id :: DatasetId

definition document_dataset_membership_required_error :: ApiError where
  "document_dataset_membership_required_error =
     bad_request ''document_dataset_membership_required''
       ''document must belong to at least one visible dataset''"

definition document_dataset_scope_incompatible_error :: ApiError where
  "document_dataset_scope_incompatible_error =
     bad_request ''document_dataset_scope_incompatible''
       ''document scope is incompatible with the target dataset''"

definition ensure_document_dataset_membership_scope_compatible ::
    "Document \<Rightarrow> Dataset \<Rightarrow> Dataset \<Rightarrow> (unit, ApiError) result" where
  "ensure_document_dataset_membership_scope_compatible document canonical_dataset target_dataset =
     (if document_scope_can_contribute_to_dataset document canonical_dataset target_dataset then Ok ()
      else Err document_dataset_scope_incompatible_error)"

definition select_compatible_promotion_dataset ::
    "Document \<Rightarrow> Dataset \<Rightarrow> Dataset list \<Rightarrow> (DatasetId, ApiError) result" where
  "select_compatible_promotion_dataset document canonical_dataset visible_candidate_datasets =
     ok_or (if visible_candidate_datasets = [] then document_dataset_membership_required_error
            else document_dataset_scope_incompatible_error)
       (map_option ds_id
          (find (document_scope_can_contribute_to_dataset document canonical_dataset)
             visible_candidate_datasets))"

definition new_manual_dataset_document_membership ::
    "DatasetId \<Rightarrow> DocumentId \<Rightarrow> NewDatasetDocumentMembership" where
  "new_manual_dataset_document_membership dataset_id document_id =
     \<lparr>nm_dataset_id = dataset_id, nm_document_id = document_id, nm_membership_kind = ''curated'',
      nm_source = ''manual'', nm_expires_at = None\<rparr>"

definition should_create_secondary_dataset_membership :: "DatasetId \<Rightarrow> DatasetId \<Rightarrow> bool" where
  "should_create_secondary_dataset_membership canonical_dataset_id target_dataset_id \<longleftrightarrow>
     canonical_dataset_id \<noteq> target_dataset_id"

definition candidate_membership_dataset_ids_after_removal ::
    "DatasetId list \<Rightarrow> DatasetId \<Rightarrow> DatasetId list" where
  "candidate_membership_dataset_ids_after_removal membership_dataset_ids removed_dataset_id =
     filter (\<lambda>dataset_id. dataset_id \<noteq> removed_dataset_id) membership_dataset_ids"

text \<open>The datasets whose semantic snapshots are refreshed after the change, in the order of the
  \<open>BTreeSet\<close>. The refresh writes only the tables of \<open>Semantic_Links\<close> and its errors are logged.\<close>

definition semantic_dataset_ids_invalidated_by_membership_change ::
    "DatasetId \<Rightarrow> DatasetId \<Rightarrow> DatasetId \<Rightarrow> DatasetId list \<Rightarrow> DatasetId list" where
  "semantic_dataset_ids_invalidated_by_membership_change canonical_before target_dataset_id
     canonical_after membership_dataset_ids =
     sort (remdups ([target_dataset_id] @
       (if canonical_before \<noteq> canonical_after
        then [canonical_before, canonical_after] @ membership_dataset_ids else [])))"

definition document_dataset_membership_update_metadata ::
    "(datetime \<Rightarrow> string) \<Rightarrow> DatasetId \<Rightarrow> DatasetId \<Rightarrow> datetime \<Rightarrow> json" where
  "document_dataset_membership_update_metadata rfc3339 removed_dataset_id promoted_dataset_id
     updated_at =
     JObject (json_object [(''dataset_membership_update'', JObject (json_object
       [(''removed_dataset_id'', json_uuid removed_dataset_id),
        (''promoted_dataset_id'', json_uuid promoted_dataset_id),
        (''updated_at'', JString (rfc3339 updated_at))]))])"

definition normalize_document_dataset_ids :: "DatasetId \<Rightarrow> DatasetId list \<Rightarrow> DatasetId list" where
  "normalize_document_dataset_ids canonical_dataset_id dataset_ids =
     push_new [canonical_dataset_id] dataset_ids"

text \<open>The datasets a summary of the document names, all of them or those in the given set.\<close>

definition hydrated_dataset_ids ::
    "app_state \<Rightarrow> library_db \<Rightarrow> datetime \<Rightarrow> Document \<Rightarrow> DatasetId list option \<Rightarrow> DatasetId list" where
  "hydrated_dataset_ids st db now document visible_dataset_ids =
     normalize_document_dataset_ids (doc_dataset_id document)
       (filter (\<lambda>dataset_id. case visible_dataset_ids of None \<Rightarrow> True
            | Some visible \<Rightarrow> dataset_id \<in> set visible)
          (list_dataset_ids_by_document db (st_tenant_id st) (doc_id document) now))"

definition document_dataset_membership_response ::
    "app_state \<Rightarrow> library_db \<Rightarrow> datetime \<Rightarrow> Document \<Rightarrow> DatasetId list option \<Rightarrow>
     DocumentDatasetMembershipResponse" where
  "document_dataset_membership_response st db now document visible_dataset_ids =
     \<lparr>mr_document = document,
      mr_dataset_ids = hydrated_dataset_ids st db now document visible_dataset_ids,
      mr_canonical_dataset_id = doc_dataset_id document\<rparr>"

text \<open>The checks before a membership is added: the document and the dataset are visible and the
  caller's own or nobody's, and the scopes are compatible. The result says whether a row is to be
  written.\<close>

definition check_add_membership ::
    "app_state \<Rightarrow> library_db \<Rightarrow> datetime \<Rightarrow> DocumentId \<Rightarrow> DatasetId \<Rightarrow> SecretBindingId list \<Rightarrow>
     UserId option \<Rightarrow> (Document \<times> bool, ApiError) result" where
  "check_add_membership st db now document_id dataset_id active user =
     and_then (load_visible_document_for_user st db now document_id active user) (\<lambda>document.
     and_then (ensure_owner_managed_resource ''document'' (uuid_text (doc_id document))
       (doc_owner_user_id document) user) (\<lambda>_.
     and_then (load_visible_dataset_for_user st db dataset_id active user) (\<lambda>dataset.
     and_then (ensure_owner_managed_resource ''dataset'' (uuid_text (ds_id dataset))
       (ds_owner_user_id dataset) user) (\<lambda>_.
     if should_create_secondary_dataset_membership (doc_dataset_id document) dataset_id
     then
       and_then (storage_result st
         (dataset_get_by_id (st_codec st) db (st_tenant_id st) (doc_dataset_id document))) (\<lambda>found.
       and_then (ok_or (dataset_not_found_error (doc_dataset_id document)) found)
         (\<lambda>canonical_dataset.
       and_then (ensure_document_dataset_membership_scope_compatible document canonical_dataset dataset)
         (\<lambda>_. Ok (document, True))))
     else Ok (document, False)))))"

definition add_document_dataset_membership_for_user ::
    "app_state \<Rightarrow> library_db \<Rightarrow> datetime \<Rightarrow> DocumentId \<Rightarrow> DatasetId \<Rightarrow> SecretBindingId list \<Rightarrow>
     UserId option \<Rightarrow>
     (DocumentDatasetMembershipResponse, ApiError) result \<times> DatasetId list \<times> library_db" where
  "add_document_dataset_membership_for_user st db now document_id dataset_id active user =
     (case check_add_membership st db now document_id dataset_id active user of
        Inl e \<Rightarrow> (Err e, [], db)
      | Inr (document, False) \<Rightarrow>
          (Ok (document_dataset_membership_response st db now document None), [], db)
      | Inr (document, True) \<Rightarrow>
          (case membership_create_or_update db (st_tenant_id st)
             (new_manual_dataset_document_membership dataset_id document_id) now of
             (Inl e, db') \<Rightarrow> (Err (from_storage (st_db_message st) e), [], db')
           | (Inr _, db') \<Rightarrow>
               (Ok (document_dataset_membership_response st db' now document None),
                semantic_dataset_ids_invalidated_by_membership_change (doc_dataset_id document)
                  dataset_id (doc_dataset_id document) [],
                db')))"

definition loadable_datasets ::
    "app_state \<Rightarrow> library_db \<Rightarrow> SecretBindingId list \<Rightarrow> UserId option \<Rightarrow> DatasetId list \<Rightarrow> Dataset list" where
  "loadable_datasets st db active user dataset_ids =
     List.map_filter (\<lambda>dataset_id.
       case load_visible_dataset_for_user st db dataset_id active user of
         Inl _ \<Rightarrow> None | Inr dataset \<Rightarrow> Some dataset) dataset_ids"

definition select_promotion ::
    "app_state \<Rightarrow> library_db \<Rightarrow> datetime \<Rightarrow> Document \<Rightarrow> DatasetId \<Rightarrow> SecretBindingId list \<Rightarrow>
     UserId option \<Rightarrow> (DatasetId, ApiError) result" where
  "select_promotion st db now document removed_dataset_id active user =
     and_then (storage_result st
       (dataset_get_by_id (st_codec st) db (st_tenant_id st) (doc_dataset_id document))) (\<lambda>found.
     and_then (ok_or (dataset_not_found_error (doc_dataset_id document)) found) (\<lambda>canonical_dataset.
     select_compatible_promotion_dataset document canonical_dataset
       (loadable_datasets st db active user
          (candidate_membership_dataset_ids_after_removal
             (list_dataset_ids_by_document db (st_tenant_id st) (doc_id document) now)
             removed_dataset_id))))"

definition remove_canonical_dataset_membership ::
    "app_state \<Rightarrow> library_db \<Rightarrow> datetime \<Rightarrow> Document \<Rightarrow> DatasetId \<Rightarrow> SecretBindingId list \<Rightarrow>
     UserId option \<Rightarrow> (Document, ApiError) result \<times> library_db" where
  "remove_canonical_dataset_membership st db now document removed_dataset_id active user =
     (case select_promotion st db now document removed_dataset_id active user of
        Inl e \<Rightarrow> (Err e, db)
      | Inr promote_to \<Rightarrow>
          (case document_move_to_dataset (st_codec st) db (st_tenant_id st) (doc_id document) promote_to
             (document_dataset_membership_update_metadata (st_rfc3339 st) removed_dataset_id promote_to
                now) now of
             (Inl e, db') \<Rightarrow> (Err (from_storage (st_db_message st) e), db')
           | (Inr moved, db') \<Rightarrow>
               (Ok moved, snd (membership_delete db' (st_tenant_id st) promote_to (doc_id document)))))"

definition check_remove_membership ::
    "app_state \<Rightarrow> library_db \<Rightarrow> datetime \<Rightarrow> DocumentId \<Rightarrow> DatasetId \<Rightarrow> SecretBindingId list \<Rightarrow>
     UserId option \<Rightarrow> (Document, ApiError) result" where
  "check_remove_membership st db now document_id dataset_id active user =
     and_then (load_visible_document_for_user st db now document_id active user) (\<lambda>document.
     and_then (ensure_owner_managed_resource ''document'' (uuid_text (doc_id document))
       (doc_owner_user_id document) user) (\<lambda>_.
     and_then (load_visible_dataset_for_user st db dataset_id active user) (\<lambda>_.
     Ok document)))"

definition remove_document_dataset_membership_for_user ::
    "app_state \<Rightarrow> library_db \<Rightarrow> datetime \<Rightarrow> DocumentId \<Rightarrow> DatasetId \<Rightarrow> SecretBindingId list \<Rightarrow>
     UserId option \<Rightarrow>
     (DocumentDatasetMembershipResponse, ApiError) result \<times> DatasetId list \<times> library_db" where
  "remove_document_dataset_membership_for_user st db now document_id dataset_id active user =
     (case check_remove_membership st db now document_id dataset_id active user of
        Inl e \<Rightarrow> (Err e, [], db)
      | Inr document \<Rightarrow>
          (case (if doc_dataset_id document = dataset_id
                 then remove_canonical_dataset_membership st db now document dataset_id active user
                 else (Ok document,
                       snd (membership_delete db (st_tenant_id st) dataset_id (doc_id document)))) of
             (Inl e, db') \<Rightarrow> (Err e, [], db')
           | (Inr updated_document, db') \<Rightarrow>
               (Ok (document_dataset_membership_response st db' now updated_document None),
                semantic_dataset_ids_invalidated_by_membership_change (doc_dataset_id document)
                  dataset_id (doc_dataset_id updated_document)
                  (list_dataset_ids_by_document db (st_tenant_id st) (doc_id document) now),
                db')))"

section \<open>Updating documents and datasets\<close>

definition parse_dataset_lifecycle_update ::
    "string option \<Rightarrow> (DatasetLifecycle option, ApiError) result" where
  "parse_dataset_lifecycle_update next_lifecycle =
     transpose_option (map_option (\<lambda>v.
       ok_or (bad_request ''validation_error'' (''unsupported dataset lifecycle: '' @ v))
         (DatasetLifecycle_from_str (to_ascii_lowercase (trim v)))) next_lifecycle)"

definition parse_document_lifecycle_update ::
    "string option \<Rightarrow> (DocumentLifecycle option, ApiError) result" where
  "parse_document_lifecycle_update next_lifecycle =
     transpose_option (map_option (\<lambda>v.
       ok_or (bad_request ''validation_error'' (''unsupported document lifecycle: '' @ v))
         (DocumentLifecycle_from_str (to_ascii_lowercase (trim v)))) next_lifecycle)"

definition validate_optional_title :: "string option \<Rightarrow> (unit, ApiError) result" where
  "validate_optional_title title =
     (case title of None \<Rightarrow> Ok () | Some title \<Rightarrow> validate_required ''title'' title)"

record UpdateDocumentRequest =
  ud_title :: "string option"
  ud_lifecycle :: "string option"
  ud_metadata :: json

record UpdateDatasetRequest =
  us_title :: "string option"
  us_description :: "string option"
  us_lifecycle :: "string option"

definition prepare_document_update ::
    "(datetime \<Rightarrow> string) \<Rightarrow> UpdateDocumentRequest \<Rightarrow> DocumentLifecycle \<Rightarrow> datetime \<Rightarrow>
     (DocumentLifecycle \<times> string option \<times> json, ApiError) result" where
  "prepare_document_update rfc3339 request current_lifecycle archived_at =
     and_then (validate_optional_title (trim_optional (ud_title request))) (\<lambda>_.
     and_then (parse_document_lifecycle_update (ud_lifecycle request)) (\<lambda>next_lifecycle.
     let metadata = (case ud_metadata request of JObject m \<Rightarrow> JObject m | _ \<Rightarrow> JObject []) in
     Ok (unwrap_or current_lifecycle next_lifecycle, trim_optional (ud_title request),
         if next_lifecycle = Some DocumentLifecycle.Archived
         then set_payload_value ''archived_at'' (JString (rfc3339 archived_at)) metadata
         else metadata)))"

definition update_document_for_user ::
    "app_state \<Rightarrow> library_db \<Rightarrow> datetime \<Rightarrow> datetime \<Rightarrow> datetime \<Rightarrow> DocumentId \<Rightarrow> UpdateDocumentRequest \<Rightarrow>
     SecretBindingId list \<Rightarrow> UserId option \<Rightarrow> (Document, ApiError) result \<times> library_db" where
  "update_document_for_user st db now archived_at updated_at document_id request active user =
     (case and_then (load_visible_document_for_user st db now document_id active user) (\<lambda>document.
           and_then (ensure_owner_managed_resource ''document'' (uuid_text (doc_id document))
             (doc_owner_user_id document) user) (\<lambda>_.
           prepare_document_update (st_rfc3339 st) request (doc_lifecycle document) archived_at)) of
        Inl e \<Rightarrow> (Err e, db)
      | Inr (next_lifecycle, title, metadata) \<Rightarrow>
          (case document_update_state (st_codec st) db (st_tenant_id st) document_id next_lifecycle title
             metadata updated_at of
             (r, db') \<Rightarrow> (storage_result st r, db')))"

definition dataset_update_fields_from_request ::
    "(datetime \<Rightarrow> string) \<Rightarrow> UpdateDatasetRequest \<Rightarrow> datetime \<Rightarrow>
     (string option \<times> string option \<times> DatasetLifecycle option \<times> json, ApiError) result" where
  "dataset_update_fields_from_request rfc3339 request updated_at =
     and_then (validate_optional_title (trim_optional (us_title request))) (\<lambda>_.
     and_then (parse_dataset_lifecycle_update (us_lifecycle request)) (\<lambda>next_lifecycle.
     Ok (trim_optional (us_title request), trim_optional (us_description request), next_lifecycle,
         if next_lifecycle = Some DatasetLifecycle.Archived
         then JObject [(''archived_at'', JString (rfc3339 updated_at))] else JObject [])))"

definition update_dataset_and_load_summary ::
    "app_state \<Rightarrow> library_db \<Rightarrow> DatasetId \<Rightarrow> SecretBindingId list \<Rightarrow> UserId option \<Rightarrow>
     UpdateDatasetRequest \<Rightarrow> datetime \<Rightarrow> (Dataset, ApiError) result \<times> library_db" where
  "update_dataset_and_load_summary st db dataset_id active user request updated_at =
     (case and_then (load_visible_dataset_for_user st db dataset_id active user) (\<lambda>dataset.
           and_then (ensure_owner_managed_resource ''dataset'' (uuid_text (ds_id dataset))
             (ds_owner_user_id dataset) user) (\<lambda>_.
           dataset_update_fields_from_request (st_rfc3339 st) request updated_at)) of
        Inl e \<Rightarrow> (Err e, db)
      | Inr (title, description, next_lifecycle, metadata_updates) \<Rightarrow>
          (case dataset_update_state (st_codec st) db (st_tenant_id st) dataset_id title description
             next_lifecycle metadata_updates updated_at of
             (r, db') \<Rightarrow> (storage_result st r, db')))"

section \<open>Who can load a document\<close>

definition dataset_seen ::
    "app_state \<Rightarrow> library_db \<Rightarrow> SecretBindingId list \<Rightarrow> UserId option \<Rightarrow> string option \<Rightarrow> DatasetId \<Rightarrow> bool" where
  "dataset_seen st db active user thread i \<longleftrightarrow>
     is_ok (load_visible_dataset_for_user_with_local_scope st db i active user thread)"

definition document_loads ::
    "app_state \<Rightarrow> library_db \<Rightarrow> datetime \<Rightarrow> SecretBindingId list \<Rightarrow> UserId option \<Rightarrow> string option \<Rightarrow>
     DocumentId \<Rightarrow> bool" where
  "document_loads st db now active user thread i \<longleftrightarrow>
     is_ok (load_visible_document_for_user_with_local_scope st db now i active user thread)"

definition scope_datasets :: "app_state \<Rightarrow> library_db \<Rightarrow> datetime \<Rightarrow> Document \<Rightarrow> DatasetId set" where
  "scope_datasets st db now document =
     insert (doc_dataset_id document)
       (set (list_dataset_ids_by_document db (st_tenant_id st) (doc_id document) now))"

lemma is_ok_iff: "is_ok r \<longleftrightarrow> (\<exists>x. r = Ok x)"
  by (cases r) (auto simp: is_ok_def)

lemma dataset_get_by_idD:
  assumes "dataset_get_by_id cd db t i = Ok (Some d)"
  shows "ds_id d = i" "ds_tenant_id d = t" "i \<in> dr_id ` set (lib_datasets db)"
proof -
  obtain r where "fetch_optional (filter (\<lambda>r. dr_tenant_id r = t \<and> dr_id r = i) (lib_datasets db)) = Some r"
    and r: "map_dataset_row cd r = Ok d"
    using assms by (cases "fetch_optional (filter (\<lambda>r. dr_tenant_id r = t \<and> dr_id r = i) (lib_datasets db))")
      (auto simp: dataset_get_by_id_def and_then_eq_Ok)
  then have "r \<in> set (lib_datasets db) \<and> dr_tenant_id r = t \<and> dr_id r = i"
    using fetch_optional_SomeD by fastforce
  then show "ds_id d = i" "ds_tenant_id d = t" "i \<in> dr_id ` set (lib_datasets db)"
    using map_dataset_row_id [OF r] by (auto intro: rev_image_eqI)
qed

lemma document_get_by_idD:
  assumes "document_get_by_id cd db t i = Ok (Some d)"
  obtains r where "r \<in> set (lib_documents db)" "dw_tenant_id r = t" "dw_id r = i" "map_document_row cd r = Ok d"
    "doc_id d = i" "doc_tenant_id d = t" "doc_owner_user_id d = dw_owner_user_id r"
    "doc_dataset_id d = dw_dataset_id r"
proof -
  obtain r where "fetch_optional (filter (\<lambda>r. dw_tenant_id r = t \<and> dw_id r = i) (lib_documents db)) = Some r"
    and r: "map_document_row cd r = Ok d"
    using assms by (cases "fetch_optional (filter (\<lambda>r. dw_tenant_id r = t \<and> dw_id r = i) (lib_documents db))")
      (auto simp: document_get_by_id_def and_then_eq_Ok)
  then have "r \<in> set (lib_documents db) \<and> dw_tenant_id r = t \<and> dw_id r = i"
    using fetch_optional_SomeD by fastforce
  with r show ?thesis
    by (intro that [of r]) (auto simp: map_document_row_def and_then_eq_Ok)
qed

lemma dataset_seen_iff:
  "dataset_seen st db active user thread i \<longleftrightarrow>
     (\<exists>d. dataset_get_by_id (st_codec st) db (st_tenant_id st) i = Ok (Some d) \<and>
        dataset_is_visible_for_request d active user thread)"
  by (auto simp: dataset_seen_def is_ok_iff load_visible_dataset_for_user_with_local_scope_def and_then_eq_Ok
    ok_or_eq_Ok ensure_dataset_visible_for_request_def dest: dataset_get_by_idD(2) split: if_splits)

lemma load_document_Ok:
  "load_visible_document_for_user_with_local_scope st db now i active user thread = Ok d \<longleftrightarrow>
     document_get_by_id (st_codec st) db (st_tenant_id st) i = Ok (Some d) \<and>
     owner_user_id_is_visible (doc_owner_user_id d) user \<and>
     (\<exists>x \<in> scope_datasets st db now d. dataset_seen st db active user thread x)"
  by (auto simp: load_visible_document_for_user_with_local_scope_def and_then_eq_Ok ok_or_eq_Ok
    document_has_visible_dataset_scope_def scope_datasets_def dataset_seen_def list_ex_iff split: if_splits)

lemma document_loads_iff:
  "document_loads st db now active user thread i \<longleftrightarrow>
     (\<exists>d. document_get_by_id (st_codec st) db (st_tenant_id st) i = Ok (Some d) \<and>
        owner_user_id_is_visible (doc_owner_user_id d) user \<and>
        (\<exists>x \<in> scope_datasets st db now d. dataset_seen st db active user thread x))"
  by (simp add: document_loads_def is_ok_iff load_document_Ok)

lemma same_datasets:
  "lib_datasets db' = lib_datasets db \<Longrightarrow> dataset_get_by_id cd db' = dataset_get_by_id cd db"
  "lib_datasets db' = lib_datasets db \<Longrightarrow> dataset_seen st db' = dataset_seen st db"
  by (simp_all add: dataset_get_by_id_def fun_eq_iff dataset_seen_iff)

lemma same_documents:
  "lib_documents db' = lib_documents db \<Longrightarrow> document_get_by_id cd db' = document_get_by_id cd db"
  by (simp add: document_get_by_id_def fun_eq_iff)

text \<open>If the datasets are as before and every document keeps its owner and gains, in the scopes it is
  shown in, nothing a request sees beyond what it saw there before, then no document is loaded that
  was not loaded before.\<close>

lemma loads_mono:
  assumes "document_loads st db' now active user thread i"
    and "lib_datasets db' = lib_datasets db"
    and "\<And>d'. document_get_by_id (st_codec st) db' (st_tenant_id st) i = Ok (Some d') \<Longrightarrow>
      \<exists>d. document_get_by_id (st_codec st) db (st_tenant_id st) i = Ok (Some d) \<and>
        doc_owner_user_id d = doc_owner_user_id d' \<and>
        (\<forall>x \<in> scope_datasets st db' now d'. dataset_seen st db active user thread x \<longrightarrow>
           (\<exists>y \<in> scope_datasets st db now d. dataset_seen st db active user thread y))"
  shows "document_loads st db now active user thread i"
proof -
  obtain d' x where d': "document_get_by_id (st_codec st) db' (st_tenant_id st) i = Ok (Some d')"
      "owner_user_id_is_visible (doc_owner_user_id d') user" "x \<in> scope_datasets st db' now d'"
    and x: "dataset_seen st db active user thread x"
    using assms(1) by (auto simp: document_loads_iff same_datasets(2) [OF assms(2)])
  obtain d y where "document_get_by_id (st_codec st) db (st_tenant_id st) i = Ok (Some d)"
    "doc_owner_user_id d = doc_owner_user_id d'" "y \<in> scope_datasets st db now d"
    "dataset_seen st db active user thread y"
    using assms(3) [OF d'(1)] d'(3) x by blast
  then show ?thesis
    using d'(2) unfolding document_loads_iff by (intro exI [of _ d]) auto
qed

section \<open>Adding a membership\<close>

lemma set_dataset_ids:
  "x \<in> set (list_dataset_ids_by_document db t j now) \<longleftrightarrow>
     (\<exists>m \<in> set (lib_memberships db). dm_tenant_id m = t \<and> dm_document_id m = j \<and> dm_dataset_id m = x \<and>
        membership_active now m)"
  by (auto simp: list_dataset_ids_by_document_def)

lemma membership_create_tables:
  "lib_datasets (snd (membership_create_or_update db t nm now)) = lib_datasets db"
  "lib_documents (snd (membership_create_or_update db t nm now)) = lib_documents db"
  by (simp_all add: membership_create_or_update_def Let_def)

lemma membership_create_rows:
  assumes "m \<in> set (lib_memberships (snd (membership_create_or_update db t nm now)))"
  shows "m \<in> set (lib_memberships db) \<or> dm_document_id m = nm_document_id nm \<and> dm_dataset_id m = nm_dataset_id nm"
  using assms
  by (auto simp: membership_create_or_update_def Let_def membership_key_def split: if_splits
    elim!: in_update_whereE)

lemma membership_create_scope:
  "x \<in> set (list_dataset_ids_by_document (snd (membership_create_or_update db t nm now)) t' j now') \<Longrightarrow>
     x \<in> set (list_dataset_ids_by_document db t' j now') \<or> j = nm_document_id nm \<and> x = nm_dataset_id nm"
  using membership_create_rows unfolding set_dataset_ids by blast

lemma check_add_OkE:
  assumes "check_add_membership st db now i x active user = Ok (document, True)"
  obtains canonical target
  where "document_get_by_id (st_codec st) db (st_tenant_id st) i = Ok (Some document)"
    and "dataset_get_by_id (st_codec st) db (st_tenant_id st) (doc_dataset_id document) = Ok (Some canonical)"
    and "dataset_get_by_id (st_codec st) db (st_tenant_id st) x = Ok (Some target)"
    and "document_scope_can_contribute_to_dataset document canonical target"
  using assms
  by (auto simp: check_add_membership_def and_then_eq_Ok ok_or_eq_Ok load_visible_document_for_user_def
    load_document_Ok load_visible_dataset_for_user_def load_visible_dataset_for_user_with_local_scope_def
    ensure_document_dataset_membership_scope_compatible_def split: if_splits)

lemma add_membership_cases:
  "snd (snd (add_document_dataset_membership_for_user st db now i x active user)) = db \<or>
   (\<exists>document. check_add_membership st db now i x active user = Ok (document, True) \<and>
      snd (snd (add_document_dataset_membership_for_user st db now i x active user)) =
        snd (membership_create_or_update db (st_tenant_id st)
          (new_manual_dataset_document_membership x i) now))"
  by (auto simp: add_document_dataset_membership_for_user_def split: sum.split prod.split bool.split)

text \<open>C5: adding a dataset to a document whose scope in its canonical dataset is proper (an owned
  canonical dataset is private, its thread id is stored trimmed, and the document is bound to a thread
  only when the dataset is bound or public) widens nobody's view. Whatever the handler answers, a
  request (any user, any secrets, the thread of its header, at any later time) that loads a document
  afterwards could load it before. Without a proper scope the code does widen views: see
  \<open>owned_public_source_widens\<close> and \<open>bound_document_widens\<close> in \<open>Resource_Access\<close>.\<close>

theorem add_membership_never_widens:
  assumes "document_get_by_id (st_codec st) db (st_tenant_id st) i = Ok (Some document)"
    and "dataset_get_by_id (st_codec st) db (st_tenant_id st) (doc_dataset_id document) = Ok (Some canonical)"
    and "source_scope_proper document canonical"
    and "document_loads st (snd (snd (add_document_dataset_membership_for_user st db now i x active user)))
      later active' user' (local_thread_id_from_headers to_str headers) j"
  shows "document_loads st db later active' user' (local_thread_id_from_headers to_str headers) j"
proof -
  let ?thread = "local_thread_id_from_headers to_str headers"
  let ?db' = "snd (membership_create_or_update db (st_tenant_id st)
    (new_manual_dataset_document_membership x i) now)"
  consider "snd (snd (add_document_dataset_membership_for_user st db now i x active user)) = db"
    | doc where "check_add_membership st db now i x active user = Ok (doc, True)"
      "snd (snd (add_document_dataset_membership_for_user st db now i x active user)) = ?db'"
    using add_membership_cases by blast
  then show ?thesis
  proof cases
    case 1
    then show ?thesis
      using assms(4) by simp
  next
    case 2
    obtain target where target: "dataset_get_by_id (st_codec st) db (st_tenant_id st) x = Ok (Some target)"
      and can: "document_scope_can_contribute_to_dataset document canonical target"
      using check_add_OkE [OF 2(1)] assms(1, 2) by (metis Inr_inject option.inject)
    have "document_loads st ?db' later active' user' ?thread j"
      using assms(4) by (simp add: 2(2))
    then show ?thesis
    proof (rule loads_mono)
      show "lib_datasets ?db' = lib_datasets db"
        by (rule membership_create_tables)
      fix d'
      assume "document_get_by_id (st_codec st) ?db' (st_tenant_id st) j = Ok (Some d')"
      then have d': "document_get_by_id (st_codec st) db (st_tenant_id st) j = Ok (Some d')"
        by (simp add: same_documents [OF membership_create_tables(2)])
      have "\<exists>z \<in> scope_datasets st db later d'. dataset_seen st db active' user' ?thread z"
        if y: "y \<in> scope_datasets st ?db' later d'" and seen: "dataset_seen st db active' user' ?thread y" for y
      proof (cases "y \<in> scope_datasets st db later d'")
        case False
        then have "doc_id d' = i" "y = x"
          using y membership_create_scope
          by (fastforce simp: scope_datasets_def new_manual_dataset_document_membership_def)+
        moreover have "doc_id d' = j"
          using d' by (rule document_get_by_idD)
        ultimately have "d' = document"
          using d' assms(1) by simp
        moreover have "dataset_is_visible_for_request target active' user' ?thread"
          using seen target \<open>y = x\<close> by (auto simp: dataset_seen_iff)
        ultimately show ?thesis
          using contributions.no_widening [OF can assms(3), of "(active', user', to_str, headers)"] assms(2)
          by (auto simp: scope_datasets_def dataset_seen_iff)
      qed (use seen in blast)
      then show "\<exists>d. document_get_by_id (st_codec st) db (st_tenant_id st) j = Ok (Some d) \<and>
          doc_owner_user_id d = doc_owner_user_id d' \<and>
          (\<forall>y \<in> scope_datasets st ?db' later d'. dataset_seen st db active' user' ?thread y \<longrightarrow>
             (\<exists>z \<in> scope_datasets st db later d. dataset_seen st db active' user' ?thread z))"
        using d' by blast
    qed
  qed
qed

section \<open>Removing a membership\<close>

lemma fetch_optional_map: "fetch_optional (map f xs) = map_option f (fetch_optional xs)"
  by (cases xs) (simp_all add: fetch_optional_def)

lemma filter_update_where:
  "(\<And>r. p (f r) = p r) \<Longrightarrow> filter p (update_where p f xs) = map f (filter p xs)"
  by (induction xs) auto

lemma filter_update_other:
  "(\<And>r. q (f r) = q r) \<Longrightarrow> (\<And>r. p r \<Longrightarrow> \<not> q r) \<Longrightarrow> filter q (update_where p f xs) = filter q xs"
  by (induction xs) auto

lemma document_get_updated:
  assumes "\<And>r. dw_id (f r) = dw_id r" "\<And>r. dw_tenant_id (f r) = dw_tenant_id r"
  shows "document_get_by_id cd (snd (update_document_row cd db t i f)) t j =
    (if j = i then transpose_option (map_option (\<lambda>r. map_document_row cd (f r))
       (fetch_optional (filter (\<lambda>r. dw_tenant_id r = t \<and> dw_id r = i) (lib_documents db))))
     else document_get_by_id cd db t j)"
proof (cases "j = i")
  case True
  then show ?thesis
    using assms by (simp add: document_get_by_id_def update_document_row_def Let_def filter_update_where
      fetch_optional_map option.map_comp comp_def)
next
  case False
  then show ?thesis
    using filter_update_other [of "\<lambda>r. dw_tenant_id r = t \<and> dw_id r = j" f
      "\<lambda>r. dw_tenant_id r = t \<and> dw_id r = i" "lib_documents db"] assms
    by (simp add: document_get_by_id_def update_document_row_def Let_def)
qed

lemma update_document_row_tables:
  "lib_datasets (snd (update_document_row cd db t i f)) = lib_datasets db"
  "lib_memberships (snd (update_document_row cd db t i f)) = lib_memberships db"
  by (simp_all add: update_document_row_def Let_def)

lemma document_move_tables:
  "lib_datasets (snd (document_move_to_dataset cd db t i d md now)) = lib_datasets db"
  "lib_memberships (snd (document_move_to_dataset cd db t i d md now)) = lib_memberships db"
  by (simp_all add: document_move_to_dataset_def update_document_row_tables split: sum.split)

text \<open>What a move does to the documents that can be read: only the moved one changes, and keeps its
  owner.\<close>

lemma document_move_get:
  assumes "document_get_by_id cd (snd (document_move_to_dataset cd db t i x md now)) t j = Ok (Some d')"
    and "document_get_by_id cd db t i = Ok (Some document)"
  shows "\<exists>d. document_get_by_id cd db t j = Ok (Some d) \<and> doc_id d = doc_id d' \<and>
    doc_owner_user_id d = doc_owner_user_id d' \<and>
    (doc_dataset_id d' = doc_dataset_id d \<or> j = i \<and> doc_dataset_id d' = x)"
proof (cases "j = i \<and> snd (document_move_to_dataset cd db t i x md now) \<noteq> db")
  case True
  then obtain m where upd: "snd (document_move_to_dataset cd db t i x md now) =
      snd (update_document_row cd db t i
        (\<lambda>r. r\<lparr>dw_dataset_id := x, dw_metadata := m, dw_updated_at := now\<rparr>))"
    by (auto simp: document_move_to_dataset_def split: sum.splits if_splits)
  obtain r where r: "fetch_optional (filter (\<lambda>r. dw_tenant_id r = t \<and> dw_id r = i) (lib_documents db)) = Some r"
      "map_document_row cd r = Ok document"
    using assms(2)
    by (cases "fetch_optional (filter (\<lambda>r. dw_tenant_id r = t \<and> dw_id r = i) (lib_documents db))")
      (auto simp: document_get_by_id_def and_then_eq_Ok)
  have "map_document_row cd (r\<lparr>dw_dataset_id := x, dw_metadata := m, dw_updated_at := now\<rparr>) = Ok d'"
    using assms(1) True r unfolding upd by (simp add: document_get_updated and_then_eq_Ok)
  with r(2) True assms(2) show ?thesis
    by (auto simp: map_document_row_def and_then_eq_Ok)
next
  case False
  then have "document_get_by_id cd (snd (document_move_to_dataset cd db t i x md now)) t j =
      document_get_by_id cd db t j"
    by (cases "j = i") (auto simp: document_move_to_dataset_def document_get_updated split: sum.splits)
  with assms(1) show ?thesis
    by auto
qed

lemma document_move_result:
  assumes "fst (document_move_to_dataset cd db t i x md now) = Ok moved"
    and "document_get_by_id cd db t i = Ok (Some document)"
  shows "document_get_by_id cd (snd (document_move_to_dataset cd db t i x md now)) t i = Ok (Some moved) \<and>
    doc_dataset_id moved = x \<and> doc_owner_user_id moved = doc_owner_user_id document"
proof -
  obtain m where upd: "document_move_to_dataset cd db t i x md now =
      update_document_row cd db t i (\<lambda>r. r\<lparr>dw_dataset_id := x, dw_metadata := m, dw_updated_at := now\<rparr>)"
    using assms(1) by (auto simp: document_move_to_dataset_def split: sum.splits if_splits)
  obtain r where r: "fetch_optional (filter (\<lambda>r. dw_tenant_id r = t \<and> dw_id r = i) (lib_documents db)) = Some r"
      "map_document_row cd r = Ok document"
    using assms(2)
    by (cases "fetch_optional (filter (\<lambda>r. dw_tenant_id r = t \<and> dw_id r = i) (lib_documents db))")
      (auto simp: document_get_by_id_def and_then_eq_Ok)
  have row: "map_document_row cd (r\<lparr>dw_dataset_id := x, dw_metadata := m, dw_updated_at := now\<rparr>) = Ok moved"
    using assms(1) r(1) unfolding upd
    by (simp add: update_document_row_def Let_def fetch_one_def returning_def fetch_optional_map)
  have "document_get_by_id cd (snd (document_move_to_dataset cd db t i x md now)) t i = Ok (Some moved)"
    unfolding upd using r(1) row by (simp add: document_get_updated)
  with row r(2) show ?thesis
    by (auto simp: map_document_row_def and_then_eq_Ok)
qed

lemma set_loadable_datasets:
  assumes "target \<in> set (loadable_datasets st db active user ids)"
  shows "ds_id target \<in> set ids" "dataset_seen st db active user None (ds_id target)"
    "ds_id target \<in> dr_id ` set (lib_datasets db)"
proof -
  obtain i where i: "i \<in> set ids" "load_visible_dataset_for_user st db i active user = Ok target"
    using assms by (auto simp: loadable_datasets_def List.map_filter_def split: sum.splits)
  then have get: "dataset_get_by_id (st_codec st) db (st_tenant_id st) i = Ok (Some target)"
    by (auto simp: load_visible_dataset_for_user_def load_visible_dataset_for_user_with_local_scope_def
      and_then_eq_Ok ok_or_eq_Ok)
  then have "ds_id target = i" "i \<in> dr_id ` set (lib_datasets db)"
    by (rule dataset_get_by_idD)+
  with i show "ds_id target \<in> set ids" "dataset_seen st db active user None (ds_id target)"
    "ds_id target \<in> dr_id ` set (lib_datasets db)"
    by (auto simp: dataset_seen_def is_ok_iff load_visible_dataset_for_user_def)
qed

lemma find_member: "find p xs = Some x \<Longrightarrow> x \<in> set xs \<and> p x"
  by (auto simp: find_Some_iff)

lemma select_promotion_OkE:
  assumes "select_promotion st db now document removed active user = Ok x"
  shows "x \<in> set (list_dataset_ids_by_document db (st_tenant_id st) (doc_id document) now)"
    and "x \<noteq> removed" and "dataset_seen st db active user None x"
    and "x \<in> dr_id ` set (lib_datasets db)"
proof -
  obtain target where "target \<in> set (loadable_datasets st db active user
      (candidate_membership_dataset_ids_after_removal
        (list_dataset_ids_by_document db (st_tenant_id st) (doc_id document) now) removed))"
    and x: "x = ds_id target"
    using assms
    by (auto simp: select_promotion_def and_then_eq_Ok ok_or_eq_Ok select_compatible_promotion_dataset_def
      dest!: find_member)
  from set_loadable_datasets [OF this(1)] show
    "x \<in> set (list_dataset_ids_by_document db (st_tenant_id st) (doc_id document) now)"
    "x \<noteq> removed" "dataset_seen st db active user None x" "x \<in> dr_id ` set (lib_datasets db)"
    by (simp_all add: x candidate_membership_dataset_ids_after_removal_def)
qed

lemma membership_delete_tables:
  "lib_datasets (snd (membership_delete db t x i)) = lib_datasets db"
  "lib_documents (snd (membership_delete db t x i)) = lib_documents db"
  "set (lib_memberships (snd (membership_delete db t x i))) \<subseteq> set (lib_memberships db)"
  by (auto simp: membership_delete_def delete_memberships_def)

text \<open>\<open>shrunk st now db db'\<close>: the datasets are as before, no membership is new, and a document kept
  its owner and its canonical dataset, or has as canonical dataset one it was shown in.\<close>

definition shrunk :: "app_state \<Rightarrow> datetime \<Rightarrow> library_db \<Rightarrow> library_db \<Rightarrow> bool" where
  "shrunk st now db db' \<longleftrightarrow>
     lib_datasets db' = lib_datasets db \<and> set (lib_memberships db') \<subseteq> set (lib_memberships db) \<and>
     (\<forall>j d'. document_get_by_id (st_codec st) db' (st_tenant_id st) j = Ok (Some d') \<longrightarrow>
        (\<exists>d. document_get_by_id (st_codec st) db (st_tenant_id st) j = Ok (Some d) \<and>
           doc_id d = doc_id d' \<and> doc_owner_user_id d = doc_owner_user_id d' \<and>
           doc_dataset_id d' \<in> scope_datasets st db now d))"

lemma shrunk_refl: "shrunk st now db db"
  by (simp add: shrunk_def scope_datasets_def)

lemma shrunk_delete: "shrunk st now db db' \<Longrightarrow> shrunk st now db (snd (membership_delete db' t x i))"
  using membership_delete_tables [of db' t x i]
  unfolding shrunk_def same_documents [OF membership_delete_tables(2)] by auto

lemma shrunk_move:
  assumes get: "document_get_by_id (st_codec st) db (st_tenant_id st) i = Ok (Some document)"
    and x: "x \<in> set (list_dataset_ids_by_document db (st_tenant_id st) (doc_id document) now)"
  shows "shrunk st now db (snd (document_move_to_dataset (st_codec st) db (st_tenant_id st) i x md now'))"
  unfolding shrunk_def document_move_tables
proof (intro conjI allI impI)
  fix j d'
  assume "document_get_by_id (st_codec st) (snd (document_move_to_dataset (st_codec st) db (st_tenant_id st)
    i x md now')) (st_tenant_id st) j = Ok (Some d')"
  then obtain d where "document_get_by_id (st_codec st) db (st_tenant_id st) j = Ok (Some d)"
    "doc_id d = doc_id d'" "doc_owner_user_id d = doc_owner_user_id d'"
    "doc_dataset_id d' = doc_dataset_id d \<or> j = i \<and> doc_dataset_id d' = x"
    using document_move_get [OF _ get] by blast
  then show "\<exists>d. document_get_by_id (st_codec st) db (st_tenant_id st) j = Ok (Some d) \<and>
      doc_id d = doc_id d' \<and> doc_owner_user_id d = doc_owner_user_id d' \<and>
      doc_dataset_id d' \<in> scope_datasets st db now d"
    using get x by (auto simp: scope_datasets_def)
qed simp_all

lemma check_remove_OkD:
  assumes "check_remove_membership st db now i x active user = Ok document"
  shows "document_get_by_id (st_codec st) db (st_tenant_id st) i = Ok (Some document)"
    "owner_user_id_is_visible (doc_owner_user_id document) user" "doc_id document = i"
proof -
  show get: "document_get_by_id (st_codec st) db (st_tenant_id st) i = Ok (Some document)"
    and "owner_user_id_is_visible (doc_owner_user_id document) user"
    using assms by (auto simp: check_remove_membership_def and_then_eq_Ok load_visible_document_for_user_def
      load_document_Ok)
  show "doc_id document = i"
    using get by (rule document_get_by_idD)
qed

lemma remove_canonical_shrunk:
  assumes "document_get_by_id (st_codec st) db (st_tenant_id st) (doc_id document) = Ok (Some document)"
  shows "shrunk st now db (snd (remove_canonical_dataset_membership st db now document x active user))"
proof (cases "select_promotion st db now document x active user")
  case (Inr y)
  let ?move = "document_move_to_dataset (st_codec st) db (st_tenant_id st) (doc_id document) y
    (document_dataset_membership_update_metadata (st_rfc3339 st) x y now) now"
  have "shrunk st now db (snd ?move)"
    by (rule shrunk_move [OF assms select_promotion_OkE(1) [OF Inr]])
  then show ?thesis
    by (cases ?move) (auto simp: remove_canonical_dataset_membership_def Inr split: sum.split
      intro: shrunk_delete)
qed (simp add: remove_canonical_dataset_membership_def shrunk_refl)

lemma remove_shrunk:
  "shrunk st now db (snd (snd (remove_document_dataset_membership_for_user st db now i x active user)))"
proof (cases "check_remove_membership st db now i x active user")
  case (Inr document)
  note checked = check_remove_OkD [OF Inr]
  let ?r = "if doc_dataset_id document = x
    then remove_canonical_dataset_membership st db now document x active user
    else (Ok document, snd (membership_delete db (st_tenant_id st) x (doc_id document)))"
  have "shrunk st now db (snd ?r)"
    using remove_canonical_shrunk [of st db document now x active user] checked(1, 3)
      shrunk_delete [OF shrunk_refl] by simp
  then show ?thesis
    unfolding remove_document_dataset_membership_for_user_def Inr sum.case
    by (cases ?r) (auto split: sum.split)
qed (simp add: remove_document_dataset_membership_for_user_def shrunk_refl)

text \<open>C18: removing a dataset from a document widens nobody's view either, also when the document is
  moved to another of its datasets: at the time of the removal, a request that loads a document
  afterwards could load it before.\<close>

theorem remove_membership_never_widens:
  assumes "document_loads st
    (snd (snd (remove_document_dataset_membership_for_user st db now i x active user))) now active' user' thread j"
  shows "document_loads st db now active' user' thread j"
proof -
  let ?db' = "snd (snd (remove_document_dataset_membership_for_user st db now i x active user))"
  have sh: "shrunk st now db ?db'"
    by (rule remove_shrunk)
  have fewer: "set (list_dataset_ids_by_document ?db' (st_tenant_id st) k now) \<subseteq>
      set (list_dataset_ids_by_document db (st_tenant_id st) k now)" for k
    using sh unfolding shrunk_def subset_iff set_dataset_ids by blast
  show ?thesis
  proof (rule loads_mono [OF assms])
    fix d'
    assume "document_get_by_id (st_codec st) ?db' (st_tenant_id st) j = Ok (Some d')"
    then obtain d where d: "document_get_by_id (st_codec st) db (st_tenant_id st) j = Ok (Some d)"
      "doc_id d = doc_id d'" "doc_owner_user_id d = doc_owner_user_id d'"
      "doc_dataset_id d' \<in> scope_datasets st db now d"
      using sh unfolding shrunk_def by blast
    have "scope_datasets st ?db' now d' \<subseteq> scope_datasets st db now d"
      using d(2, 4) fewer [of "doc_id d"] by (auto simp: scope_datasets_def)
    with d show "\<exists>d. document_get_by_id (st_codec st) db (st_tenant_id st) j = Ok (Some d) \<and>
        doc_owner_user_id d = doc_owner_user_id d' \<and>
        (\<forall>y \<in> scope_datasets st ?db' now d'. dataset_seen st db active' user' thread y \<longrightarrow>
           (\<exists>z \<in> scope_datasets st db now d. dataset_seen st db active' user' thread z))"
      by blast
  qed (use sh in \<open>simp add: shrunk_def\<close>)
qed

text \<open>a document never loses its last home: if the canonical dataset of a document is removed, the
  answer names another dataset as canonical, and the caller can still load the document.\<close>

theorem removed_document_keeps_home:
  assumes "fst (remove_document_dataset_membership_for_user st db now i x active user) = Ok response"
    and "document_get_by_id (st_codec st) db (st_tenant_id st) i = Ok (Some document)"
    and "doc_dataset_id document = x"
  shows "mr_canonical_dataset_id response \<noteq> x \<and>
    document_loads st (snd (snd (remove_document_dataset_membership_for_user st db now i x active user)))
      now active user None i"
proof -
  have "check_remove_membership st db now i x active user = Ok document"
  proof (cases "check_remove_membership st db now i x active user")
    case (Inl e)
    then show ?thesis
      using assms(1) by (simp add: remove_document_dataset_membership_for_user_def)
  next
    case (Inr d)
    then show ?thesis
      using check_remove_OkD(1) [OF Inr] assms(2) by simp
  qed
  note checked = this check_remove_OkD(2, 3) [OF this]
  have canonical: "remove_document_dataset_membership_for_user st db now i x active user =
      (case remove_canonical_dataset_membership st db now document x active user of
         (Inl e, db') \<Rightarrow> (Err e, [], db')
       | (Inr moved, db') \<Rightarrow>
           (Ok (document_dataset_membership_response st db' now moved None),
            semantic_dataset_ids_invalidated_by_membership_change x x (doc_dataset_id moved)
              (list_dataset_ids_by_document db (st_tenant_id st) i now), db'))"
    unfolding remove_document_dataset_membership_for_user_def checked(1, 3) sum.case assms(3)
    by simp
  obtain y where y: "select_promotion st db now document x active user = Ok y"
    using assms(1) unfolding canonical
    by (cases "select_promotion st db now document x active user")
      (simp_all add: remove_canonical_dataset_membership_def)
  note promoted = select_promotion_OkE [OF y]
  let ?md = "document_dataset_membership_update_metadata (st_rfc3339 st) x y now"
  let ?move = "document_move_to_dataset (st_codec st) db (st_tenant_id st) i y ?md now"
  obtain moved db1 where mv: "?move = (Ok moved, db1)"
    using assms(1) unfolding canonical
    by (cases ?move; cases "fst ?move") (simp_all add: remove_canonical_dataset_membership_def y checked(3))
  have moved: "fst ?move = Ok moved"
    by (simp add: mv)
  have resp: "mr_canonical_dataset_id response = doc_dataset_id moved"
    using assms(1) unfolding canonical
    by (simp add: remove_canonical_dataset_membership_def y checked(3) mv
      document_dataset_membership_response_def) auto
  have db': "snd (snd (remove_document_dataset_membership_for_user st db now i x active user)) =
      snd (membership_delete (snd ?move) (st_tenant_id st) y i)"
    unfolding canonical by (simp add: remove_canonical_dataset_membership_def y checked(3) mv)
  have got: "document_get_by_id (st_codec st) (snd ?move) (st_tenant_id st) i = Ok (Some moved)"
    and here: "doc_dataset_id moved = y" and own: "doc_owner_user_id moved = doc_owner_user_id document"
    using document_move_result [OF moved assms(2)] by simp_all
  have seen: "dataset_seen st (snd (membership_delete (snd ?move) (st_tenant_id st) y i)) = dataset_seen st db"
    by (rule same_datasets) (simp add: membership_delete_tables document_move_tables)
  have "document_loads st (snd (membership_delete (snd ?move) (st_tenant_id st) y i)) now active user None i"
    unfolding document_loads_iff same_documents [OF membership_delete_tables(2)] got seen
    using promoted(3) checked(2) here own by (simp add: scope_datasets_def)
  then show ?thesis
    using promoted(2) resp here unfolding db' by simp
qed

section \<open>Two public datasets and a document\<close>

definition public_row :: "string \<Rightarrow> dataset_row" where
  "public_row i =
     \<lparr>dr_id = Uuid i, dr_tenant_id = Uuid ''t'', dr_owner_user_id = None, dr_key = i, dr_title = i,
      dr_description = None, dr_lifecycle = ''active'', dr_metadata = JObject [],
      dr_created_at = 0, dr_updated_at = 0\<rparr>"

definition public_dataset :: "string \<Rightarrow> Dataset" where
  "public_dataset i =
     \<lparr>ds_id = Uuid i, ds_tenant_id = Uuid ''t'', ds_owner_user_id = None, ds_key = i, ds_title = i,
      ds_description = None, ds_lifecycle = DatasetLifecycle.Active,
      ds_visibility = DatasetVisibility.Public, ds_default_secret_binding_ids = [], ds_metadata = [],
      ds_created_at = 0, ds_updated_at = 0\<rparr>"

definition shown_in :: "string list \<Rightarrow> library_db" where
  "shown_in xs =
     \<lparr>lib_tenants = [Uuid ''t''], lib_users = [], lib_datasets = [public_row ''a'', public_row ''b''],
      lib_documents =
        [\<lparr>dw_id = Uuid ''d'', dw_tenant_id = Uuid ''t'', dw_dataset_id = Uuid ''a'', dw_owner_user_id = None,
          dw_title = ''D'', dw_object_key = ''o'', dw_content_type = ''text/plain'',
          dw_lifecycle = ''received'', dw_metadata = JObject [], dw_created_at = 1, dw_updated_at = 1,
          dw_content_sha256 = None, dw_content_size_bytes = None, dw_canonical_document_id = None,
          dw_dedup_state = ''unknown'', dw_deduped_at = None\<rparr>],
      lib_memberships = map (\<lambda>x. \<lparr>dm_tenant_id = Uuid ''t'', dm_dataset_id = Uuid x,
        dm_document_id = Uuid ''d'', dm_membership_kind = ''curated'', dm_source = ''manual'',
        dm_expires_at = None, dm_created_at = 1\<rparr>) xs,
      lib_fingerprints = [], lib_draws = 0\<rparr>"

definition example_state :: app_state where
  "example_state =
     \<lparr>st_codec = example_codec, st_db_message = (\<lambda>_. ''error''), st_rfc3339 = (\<lambda>_. ''now''),
      st_tenant_id = Uuid ''t''\<rparr>"

definition example_document :: Document where
  "example_document =
     \<lparr>doc_id = Uuid ''d'', doc_tenant_id = Uuid ''t'', doc_dataset_id = Uuid ''a'',
      doc_owner_user_id = None, doc_title = ''D'', doc_object_key = ''o'', doc_content_type = ''text/plain'',
      doc_lifecycle = DocumentLifecycle.Received, doc_secret_binding_ids = [], doc_metadata = [],
      doc_created_at = 1, doc_updated_at = 1\<rparr>"

lemma example_state_simps [simp]:
  "st_codec example_state = example_codec" "st_tenant_id example_state = Uuid ''t''"
  by (simp_all add: example_state_def)

lemma example_document_simps [simp]:
  "doc_id example_document = Uuid ''d''" "doc_dataset_id example_document = Uuid ''a''"
  "doc_owner_user_id example_document = None" "doc_metadata example_document = []"
  by (simp_all add: example_document_def)

lemma shown_in_datasets:
  "i = ''a'' \<or> i = ''b'' \<Longrightarrow>
     dataset_get_by_id example_codec (shown_in xs) (Uuid ''t'') (Uuid i) = Ok (Some (public_dataset i))"
  by (auto simp: dataset_get_by_id_def shown_in_def public_row_def public_dataset_def map_dataset_row_def
    secret_binding_ids_from_metadata_key_def DatasetLifecycle_from_str_def json_object_to_btree_map_def
    dataset_visibility_from_metadata_def)

lemma shown_in_document:
  "document_get_by_id example_codec (shown_in xs) (Uuid ''t'') (Uuid ''d'') = Ok (Some example_document)"
  by (simp add: document_get_by_id_def shown_in_def map_document_row_def DocumentLifecycle_from_str_def
    secret_binding_ids_from_metadata_def secret_binding_ids_from_metadata_key_def
    json_object_to_btree_map_def example_document_def)

lemma public_dataset_open:
  "target_scope_is_unrestricted_public (public_dataset i)" "ds_owner_user_id (public_dataset i) = None"
  "ds_id (public_dataset i) = Uuid i" "ds_tenant_id (public_dataset i) = Uuid ''t''"
  by (simp_all add: target_scope_is_unrestricted_public_def public_dataset_def dataset_local_thread_scope_def
    metadata_local_only_def)

lemma public_dataset_visible: "dataset_is_visible_for_request (public_dataset i) active user thread"
  by (rule unrestricted_public_visible [OF public_dataset_open(1)])

lemma shown_in_seen:
  "i = ''a'' \<or> i = ''b'' \<Longrightarrow> dataset_seen example_state (shown_in xs) active user thread (Uuid i)"
  using shown_in_datasets public_dataset_visible by (auto simp: dataset_seen_iff)

lemma shown_in_loaded:
  "load_visible_document_for_user example_state (shown_in xs) now (Uuid ''d'') active user = Ok example_document"
  using shown_in_document shown_in_seen [of "''a''"]
  by (simp add: load_visible_document_for_user_def load_document_Ok owner_user_id_is_visible_def
    scope_datasets_def)

lemma shown_in_dataset_loaded:
  "i = ''a'' \<or> i = ''b'' \<Longrightarrow>
     load_visible_dataset_for_user example_state (shown_in xs) (Uuid i) active user = Ok (public_dataset i)"
  using shown_in_datasets [of i xs] public_dataset_visible public_dataset_open(4)
  by (simp add: load_visible_dataset_for_user_def load_visible_dataset_for_user_with_local_scope_def
    ensure_dataset_visible_for_request_def)

lemma example_source_proper: "source_scope_proper example_document (public_dataset ''a'')"
  using public_dataset_open(1, 2)
  by (simp add: source_scope_proper_def public_dataset_def metadata_local_thread_id_def)

lemma example_can_contribute:
  "document_scope_can_contribute_to_dataset example_document (public_dataset ''a'') (public_dataset i)"
  by (simp add: scope_example_simps example_document_def public_dataset_def)

lemma shown_in_check_add:
  "check_add_membership example_state (shown_in []) 1 (Uuid ''d'') (Uuid ''b'') [] None =
     Ok (example_document, True)"
  using shown_in_datasets [of "''a''"] example_can_contribute public_dataset_open(2)
  by (simp add: check_add_membership_def shown_in_loaded shown_in_dataset_loaded
    ensure_owner_managed_resource_def should_create_secondary_dataset_membership_def
    ensure_document_dataset_membership_scope_compatible_def)

lemma shown_in_insert:
  obtains m where "membership_create_or_update (shown_in []) (Uuid ''t'')
    (new_manual_dataset_document_membership (Uuid ''b'') (Uuid ''d'')) 1 = (Ok m, shown_in [''b''])"
  by (simp add: membership_create_or_update_def Let_def new_manual_dataset_document_membership_def
    map_dataset_document_membership_row_def shown_in_def public_row_def)

lemma shown_in_added:
  "snd (snd (add_document_dataset_membership_for_user example_state (shown_in []) 1
     (Uuid ''d'') (Uuid ''b'') [] None)) = shown_in [''b'']"
proof -
  obtain m where "membership_create_or_update (shown_in []) (Uuid ''t'')
      (new_manual_dataset_document_membership (Uuid ''b'') (Uuid ''d'')) 1 = (Ok m, shown_in [''b''])"
    by (rule shown_in_insert)
  then show ?thesis
    by (simp add: add_document_dataset_membership_for_user_def shown_in_check_add)
qed

lemma shown_in_loads: "document_loads example_state (shown_in xs) now active user thread (Uuid ''d'')"
  using shown_in_document shown_in_seen [of "''a''"]
  by (simp add: document_loads_iff owner_user_id_is_visible_def scope_datasets_def)

theorem add_membership_never_widens_witness:
  "snd (snd (add_document_dataset_membership_for_user example_state (shown_in []) 1
     (Uuid ''d'') (Uuid ''b'') [] None)) = shown_in [''b''] \<and>
   document_loads example_state (shown_in []) 4 [] None
     (local_thread_id_from_headers Some (\<lambda>_. None)) (Uuid ''d'')"
proof
  show "document_loads example_state (shown_in []) 4 [] None
      (local_thread_id_from_headers Some (\<lambda>_. None)) (Uuid ''d'')"
  proof (rule add_membership_never_widens)
    show "document_get_by_id (st_codec example_state) (shown_in []) (st_tenant_id example_state) (Uuid ''d'') =
        Ok (Some example_document)"
      by (simp add: shown_in_document)
    show "dataset_get_by_id (st_codec example_state) (shown_in []) (st_tenant_id example_state)
        (doc_dataset_id example_document) = Ok (Some (public_dataset ''a''))"
      by (simp add: shown_in_datasets)
    show "source_scope_proper example_document (public_dataset ''a'')"
      by (rule example_source_proper)
    show "document_loads example_state (snd (snd (add_document_dataset_membership_for_user example_state
        (shown_in []) 1 (Uuid ''d'') (Uuid ''b'') [] None))) 4 [] None
        (local_thread_id_from_headers Some (\<lambda>_. None)) (Uuid ''d'')"
      unfolding shown_in_added by (rule shown_in_loads)
  qed
qed (rule shown_in_added)

lemma shown_in_promotion:
  "select_promotion example_state (shown_in [''b'']) 3 example_document (Uuid ''a'') [] None = Ok (Uuid ''b'')"
proof -
  have "list_dataset_ids_by_document (shown_in [''b'']) (Uuid ''t'') (Uuid ''d'') 3 = [Uuid ''b'']"
    by (simp add: list_dataset_ids_by_document_def shown_in_def membership_active_def)
  then show ?thesis
    using shown_in_datasets [of "''a''" "[''b'']"] example_can_contribute public_dataset_open(3)
    by (simp add: select_promotion_def candidate_membership_dataset_ids_after_removal_def
      loadable_datasets_def List.map_filter_def shown_in_dataset_loaded
      select_compatible_promotion_dataset_def)
qed

lemma shown_in_removed:
  obtains response where
    "fst (remove_document_dataset_membership_for_user example_state (shown_in [''b'']) 3
       (Uuid ''d'') (Uuid ''a'') [] None) = Ok response"
    "document_loads example_state (snd (snd (remove_document_dataset_membership_for_user example_state
       (shown_in [''b'']) 3 (Uuid ''d'') (Uuid ''a'') [] None))) 3 [] None None (Uuid ''d'')"
proof -
  have checked: "check_remove_membership example_state (shown_in [''b'']) 3 (Uuid ''d'') (Uuid ''a'') [] None =
      Ok example_document"
    by (simp add: check_remove_membership_def shown_in_loaded shown_in_dataset_loaded
      ensure_owner_managed_resource_def)
  let ?move = "document_move_to_dataset example_codec (shown_in [''b'']) (Uuid ''t'') (Uuid ''d'') (Uuid ''b'')
    (document_dataset_membership_update_metadata (st_rfc3339 example_state) (Uuid ''a'') (Uuid ''b'') 3) 3"
  have "\<exists>moved. fst ?move = Ok moved"
    using shown_in_document [of "[''b'']"]
    by (simp add: document_move_to_dataset_def document_found_def merge_document_metadata_def
      document_dataset_membership_update_metadata_def shown_in_def public_row_def update_document_row_def
      fetch_one_def returning_def fetch_optional_def map_document_row_def DocumentLifecycle_from_str_def
      secret_binding_ids_from_metadata_def secret_binding_ids_from_metadata_key_def insert_all_def
      json_object_def json_object_to_btree_map_def)
  then obtain moved db1 where mv: "?move = (Ok moved, db1)"
    by (cases ?move) auto
  have removal: "remove_document_dataset_membership_for_user example_state (shown_in [''b'']) 3
      (Uuid ''d'') (Uuid ''a'') [] None =
      (Ok (document_dataset_membership_response example_state
        (snd (membership_delete db1 (Uuid ''t'') (Uuid ''b'') (Uuid ''d''))) 3 moved None),
       semantic_dataset_ids_invalidated_by_membership_change (Uuid ''a'') (Uuid ''a'') (doc_dataset_id moved)
         (list_dataset_ids_by_document (shown_in [''b'']) (Uuid ''t'') (Uuid ''d'') 3),
       snd (membership_delete db1 (Uuid ''t'') (Uuid ''b'') (Uuid ''d'')))"
    by (simp add: remove_document_dataset_membership_for_user_def checked
      remove_canonical_dataset_membership_def shown_in_promotion mv)
  have db1: "db1 = snd ?move"
    by (simp add: mv)
  have res: "document_get_by_id example_codec db1 (Uuid ''t'') (Uuid ''d'') = Ok (Some moved) \<and>
      doc_dataset_id moved = Uuid ''b'' \<and> doc_owner_user_id moved = None"
    using document_move_result [OF arg_cong [OF mv, of fst, unfolded fst_conv] shown_in_document] by (simp add: db1)
  have "dataset_seen example_state (snd (membership_delete db1 (Uuid ''t'') (Uuid ''b'') (Uuid ''d''))) =
      dataset_seen example_state (shown_in [''b''])"
    by (rule same_datasets) (simp add: membership_delete_tables db1 document_move_tables)
  then have "document_loads example_state (snd (membership_delete db1 (Uuid ''t'') (Uuid ''b'') (Uuid ''d'')))
      3 [] None None (Uuid ''d'')"
    using res shown_in_seen [of "''b''" "[''b'']"]
    by (simp add: document_loads_iff same_documents [OF membership_delete_tables(2)] scope_datasets_def
      owner_user_id_is_visible_def)
  then show ?thesis
    by (intro that) (simp_all add: removal)
qed

theorem remove_membership_never_widens_witness:
  "document_loads example_state (shown_in [''b'']) 3 [] None None (Uuid ''d'')"
proof -
  obtain response where "document_loads example_state (snd (snd (remove_document_dataset_membership_for_user
      example_state (shown_in [''b'']) 3 (Uuid ''d'') (Uuid ''a'') [] None))) 3 [] None None (Uuid ''d'')"
    by (rule shown_in_removed)
  then show ?thesis
    by (rule remove_membership_never_widens)
qed

theorem removed_document_keeps_home_witness:
  "\<exists>response. fst (remove_document_dataset_membership_for_user example_state (shown_in [''b'']) 3
     (Uuid ''d'') (Uuid ''a'') [] None) = Ok response \<and> mr_canonical_dataset_id response \<noteq> Uuid ''a''"
proof -
  obtain response where ok: "fst (remove_document_dataset_membership_for_user example_state (shown_in [''b'']) 3
      (Uuid ''d'') (Uuid ''a'') [] None) = Ok response"
    by (rule shown_in_removed)
  have "document_get_by_id (st_codec example_state) (shown_in [''b'']) (st_tenant_id example_state) (Uuid ''d'') =
      Ok (Some example_document)"
    by (simp add: shown_in_document)
  from removed_document_keeps_home [OF ok this] ok show ?thesis
    by simp
qed

end
