(* ===== verification/Local_Data_Claim.thy ===== *)
theory Local_Data_Claim
  imports Email_Auth Document_Access
begin

text \<open>
  The handler \<open>claim_local_data\<close> of \<open>platform-api/src/lib.rs\<close>: a user who has logged in takes over the
  datasets that a local key guards. It joins the account tables and the library. The theorem says whose
  datasets change their owner.
\<close>

record ClaimLocalDataResponse =
  cl_user :: AuthUserView
  cl_claimed_datasets :: "Dataset list"
  cl_active_secret_binding_ids :: "SecretBindingId list"
  cl_skipped_owned_dataset_count :: nat

text \<open>The loop over the bindings, with the datasets seen so far, those claimed and the number of those
  that are skipped. A summary is the dataset it shows.\<close>

fun claim_bindings ::
    "auth_env \<Rightarrow> library_codec \<Rightarrow> datetime \<Rightarrow> UserId \<Rightarrow> DatasetId set \<Rightarrow> Dataset list \<Rightarrow> nat \<Rightarrow>
     library_db \<Rightarrow> SecretBinding list \<Rightarrow> (Dataset list \<times> nat, ApiError) result \<times> library_db" where
  "claim_bindings env cd now user_id seen claimed skipped lib [] = (Ok (claimed, skipped), lib)"
| "claim_bindings env cd now user_id seen claimed skipped lib (binding # bindings) =
     (if sbd_dataset_id binding \<in> seen
      then claim_bindings env cd now user_id seen claimed skipped lib bindings
      else
        let seen = insert (sbd_dataset_id binding) seen in
        then_with (storage env (dataset_get_by_id cd lib (ae_tenant_id env) (sbd_dataset_id binding)), lib)
          (\<lambda>found lib.
        case found of
          None \<Rightarrow> claim_bindings env cd now user_id seen claimed skipped lib bindings
        | Some dataset \<Rightarrow>
            if ds_owner_user_id dataset = None
            then
              then_with (stored env (dataset_update_owner_user_id cd lib (ae_tenant_id env)
                (ds_id dataset) user_id now)) (\<lambda>updated lib.
              claim_bindings env cd now user_id seen
                (case updated of None \<Rightarrow> claimed | Some dataset \<Rightarrow> claimed @ [dataset]) skipped lib bindings)
            else if ds_owner_user_id dataset = Some user_id
            then claim_bindings env cd now user_id seen (claimed @ [dataset]) skipped lib bindings
            else claim_bindings env cd now user_id seen claimed (Suc skipped) lib bindings))"

definition claim_local_data ::
    "auth_env \<Rightarrow> library_codec \<Rightarrow> auth_db \<times> library_db \<Rightarrow> datetime \<Rightarrow> header_map \<Rightarrow> string \<Rightarrow>
     (ClaimLocalDataResponse, ApiError) result \<times> auth_db \<times> library_db" where
  "claim_local_data env cd state now headers fingerprint =
     then_with (validate_required ''fingerprint'' fingerprint, state) (\<lambda>_ (db, lib).
     then_with (current_auth_session env db now headers, (db, lib)) (\<lambda>found (db, lib).
     then_with
       (ok_or (unauthorized ''auth_session_required'' message_session_required_claim) found, (db, lib))
       (\<lambda>(user, session) (db, lib).
     let fingerprint = trim fingerprint in
     then_with (storage env (list_by_fingerprint env db fingerprint), (db, lib)) (\<lambda>bindings (db, lib).
     let (outcome, lib) = claim_bindings env cd now (usr_id user) {} [] 0 lib bindings in
     then_with (outcome, (db, lib)) (\<lambda>(claimed, skipped) (db, lib).
     let (stamped, db) =
           (if bindings \<noteq> []
            then
              (let (updated, db) =
                 update_primary_secret_fingerprint env db (usr_id user) fingerprint now in
               (map_err (from_storage (ae_db_message env)) updated, db))
            else (Ok None, db)) in
     then_with (stamped, (db, lib)) (\<lambda>_ (db, lib).
     (Ok \<lparr>cl_user = to_auth_user_view user True, cl_claimed_datasets = claimed,
          cl_active_secret_binding_ids = map sbd_id bindings,
          cl_skipped_owned_dataset_count = skipped\<rparr>,
      (record_auth_audit_event env db now AUTH_AUDIT_LOCAL_DATA_CLAIM AuthAuditOutcome.Succeeded
         (Some (usr_id user)) (Some (uss_id session)) (Some (usr_email user))
         (Some (uss_device_fingerprint session))
         [(''matched_binding_count'', json_nat (length bindings)),
          (''claimed_dataset_count'', json_nat (length claimed)),
          (''skipped_owned_dataset_count'', json_nat skipped)],
       lib))))))))"

text \<open>\<open>claimed_rows\<close> says how the rows of the datasets may change: a row without an owner may get the
  user as its owner, if one of the bindings guards it.\<close>

definition claimed_row :: "auth_env \<Rightarrow> UserId \<Rightarrow> DatasetId set \<Rightarrow> dataset_row \<Rightarrow> dataset_row \<Rightarrow> bool" where
  "claimed_row env user guarded r s \<longleftrightarrow>
     s = r \<or>
     dr_tenant_id r = ae_tenant_id env \<and> dr_id r \<in> guarded \<and>
     (dr_owner_user_id r = None \<or> dr_owner_user_id r = Some user) \<and>
     (\<exists>at. s = r\<lparr>dr_owner_user_id := Some user, dr_updated_at := at\<rparr>)"

definition claimed_rows :: "auth_env \<Rightarrow> UserId \<Rightarrow> DatasetId set \<Rightarrow> dataset_row list \<Rightarrow> dataset_row list \<Rightarrow> bool" where
  "claimed_rows env user guarded t t' \<longleftrightarrow> list_all2 (claimed_row env user guarded) t t'"

lemma claimed_rows_refl [simp]: "claimed_rows env user guarded t t"
  by (simp add: claimed_rows_def claimed_row_def list_all2_same)

lemma claimed_row_trans:
  assumes rs: "claimed_row env user guarded r s" and st: "claimed_row env user guarded s t"
  shows "claimed_row env user guarded r t"
proof (cases "s = r \<or> t = s")
  case True
  then show ?thesis using rs st by metis
next
  case False
  obtain a where s: "s = r\<lparr>dr_owner_user_id := Some user, dr_updated_at := a\<rparr>"
    using rs False unfolding claimed_row_def by metis
  obtain b where "t = s\<lparr>dr_owner_user_id := Some user, dr_updated_at := b\<rparr>"
    using st False unfolding claimed_row_def by metis
  then have "t = r\<lparr>dr_owner_user_id := Some user, dr_updated_at := b\<rparr>"
    using s by simp
  then show ?thesis
    using rs False unfolding claimed_row_def by metis
qed

lemma claimed_rows_trans [trans]:
  "claimed_rows env user guarded t t' \<Longrightarrow> claimed_rows env user guarded t' t'' \<Longrightarrow>
   claimed_rows env user guarded t t''"
  using list_all2_trans [of "claimed_row env user guarded" "claimed_row env user guarded"
      "claimed_row env user guarded" t t' t''] claimed_row_trans
  unfolding claimed_rows_def by metis

text \<open>Only the table of the datasets is written.\<close>

definition claimed_lib :: "auth_env \<Rightarrow> UserId \<Rightarrow> DatasetId set \<Rightarrow> library_db \<Rightarrow> library_db \<Rightarrow> bool" where
  "claimed_lib env user guarded lib lib' \<longleftrightarrow>
     lib' = lib\<lparr>lib_datasets := lib_datasets lib'\<rparr> \<and>
     claimed_rows env user guarded (lib_datasets lib) (lib_datasets lib')"

lemma claimed_lib_refl [simp]: "claimed_lib env user guarded lib lib"
  by (simp add: claimed_lib_def)

lemma claimed_lib_trans:
  "claimed_lib env user guarded a b \<Longrightarrow> claimed_lib env user guarded b c \<Longrightarrow> claimed_lib env user guarded a c"
  by (cases a, cases b, cases c) (auto simp: claimed_lib_def intro: claimed_rows_trans)

lemma update_owner_lib:
  "i \<in> guarded \<Longrightarrow> claimed_lib env user guarded lib
     (snd (dataset_update_owner_user_id cd lib (ae_tenant_id env) i user now))"
  by (auto simp: dataset_update_owner_user_id_def Let_def claimed_lib_def claimed_rows_def
      update_where_def list_all2_conv_all_nth claimed_row_def)

lemma dataset_get_by_id_id: "dataset_get_by_id cd lib tenant i = Ok (Some d) \<Longrightarrow> ds_id d = i"
  by (auto simp: dataset_get_by_id_def dest!: transpose_option_SomeD fetch_optional_SomeD
      map_dataset_row_id)

lemma claim_bindings_lib:
  assumes "sbd_dataset_id ` set bindings \<subseteq> guarded"
  shows "claimed_lib env user guarded lib
    (snd (claim_bindings env cd now user seen claimed skipped lib bindings))"
  using assms
proof (induction bindings arbitrary: seen claimed skipped lib)
  case (Cons binding bindings)
  have rest: "claimed_lib env user guarded lib
      (snd (claim_bindings env cd now user seen claimed skipped lib bindings))" for seen claimed skipped lib
    using Cons by simp
  have update: "claimed_lib env user guarded lib (snd (claim_bindings env cd now user seen claimed skipped
      (snd (dataset_update_owner_user_id cd lib (ae_tenant_id env) (ds_id d) user now)) bindings))"
    if "dataset_get_by_id cd lib (ae_tenant_id env) (sbd_dataset_id binding) = Ok (Some d)"
    for d seen claimed skipped
    using Cons.prems dataset_get_by_id_id [OF that] update_owner_lib claimed_lib_trans rest by fastforce
  have failed: "claimed_lib env user guarded lib
      (snd (dataset_update_owner_user_id cd lib (ae_tenant_id env) (ds_id d) user now))"
    if "dataset_get_by_id cd lib (ae_tenant_id env) (sbd_dataset_id binding) = Ok (Some d)" for d
    using Cons.prems dataset_get_by_id_id [OF that] update_owner_lib by fastforce
  show ?case
    using rest update failed
    by (auto simp: then_with_def storage_def Let_def split: sum.splits option.splits)
qed simp

definition guarded_by :: "auth_env \<Rightarrow> auth_db \<Rightarrow> string \<Rightarrow> DatasetId set" where
  "guarded_by env db fingerprint =
     br_dataset_id ` {b \<in> set (au_bindings db). br_tenant_id b = ae_tenant_id env \<and> br_fingerprint b = fingerprint}"

lemma list_by_fingerprint_guarded:
  assumes "list_by_fingerprint env db fingerprint = Ok bindings"
  shows "sbd_dataset_id ` set bindings \<subseteq> guarded_by env db fingerprint"
proof
  fix i
  assume "i \<in> sbd_dataset_id ` set bindings"
  then obtain b where "b \<in> set bindings" and i: "i = sbd_dataset_id b" by blast
  then obtain r where "r \<in> set (sort_key (\<lambda>r. - br_created_at r) (filter (\<lambda>r. br_tenant_id r = ae_tenant_id env \<and>
      br_fingerprint r = fingerprint) (au_bindings db)))" and "map_secret_binding_row r = Ok b"
    using assms unfolding list_by_fingerprint_def collect_map_Ok list_all2_conv_all_nth
    by (metis in_set_conv_nth)
  then show "i \<in> guarded_by env db fingerprint"
    using i by (auto simp: guarded_by_def map_secret_binding_row_def and_then_eq_Ok)
qed

text \<open>A claim of local data, whatever it answers, changes nothing in the library but the owner of datasets
  that had none and that a binding of the given fingerprint guards; they get the user of the session,
  and without a session nothing changes. A dataset of another owner is never taken over.\<close>

theorem claim_takes_unowned_only:
  "snd (snd (claim_local_data env cd (db, lib) now headers fingerprint)) = lib \<or>
   (\<exists>user. current_auth_user_id env db now headers = Ok (Some user) \<and>
      claimed_lib env user (guarded_by env db (trim fingerprint)) lib
        (snd (snd (claim_local_data env cd (db, lib) now headers fingerprint))))"
proof (cases "current_auth_session env db now headers")
  case (Inr found)
  show ?thesis
  proof (cases found)
    case (Some user_session)
    obtain user session where user: "user_session = (user, session)" by (cases user_session)
    show ?thesis
    proof (cases "list_by_fingerprint env db (trim fingerprint)")
      case (Inr bindings)
      have "claimed_lib env (usr_id user) (guarded_by env db (trim fingerprint)) lib
          (snd (claim_bindings env cd now (usr_id user) {} [] 0 lib bindings))"
        by (rule claim_bindings_lib) (rule list_by_fingerprint_guarded [OF Inr])
      moreover have "snd (snd (claim_local_data env cd (db, lib) now headers fingerprint)) \<in>
          {lib, snd (claim_bindings env cd now (usr_id user) {} [] 0 lib bindings)}"
        using \<open>current_auth_session env db now headers = Inr found\<close> Some user Inr
        by (auto simp: claim_local_data_def then_with_def storage_def Let_def
            split: sum.splits prod.splits)
      moreover have "current_auth_user_id env db now headers = Ok (Some (usr_id user))"
        using \<open>current_auth_session env db now headers = Inr found\<close> Some user
        by (simp add: current_auth_user_id_def)
      ultimately show ?thesis by auto
    qed (use Inr Some user in \<open>auto simp: claim_local_data_def then_with_def storage_def Let_def
        split: sum.splits\<close>)
  qed (use Inr in \<open>auto simp: claim_local_data_def then_with_def split: sum.splits\<close>)
qed (auto simp: claim_local_data_def then_with_def split: sum.splits)

end
