(* ===== verification/Gateway_Limiter.thy ===== *)
theory Gateway_Limiter
  imports Prelude
begin

text \<open>
  The limits the platform API puts on calls to the model gateway
  (\<open>src/crates/platform-api/src/model_gateway_runtime.rs\<close>): the budget of requests and tokens per
  minute of a profile, the circuit breaker of a provider, and the tables that hold them. The
  semaphores and queues are in \<open>Gateway_Permits\<close>.

  The counters have the width of the code (\<open>u32\<close>, \<open>u64\<close>) and saturate. An \<open>Instant\<close> and a \<open>Duration\<close>
  are nanoseconds as \<open>nat\<close>; \<open>Instant::now()\<close> and \<open>Utc::now()\<close> are arguments, and so are the readings
  of the clock in a run, which never decrease. The sum of an instant and a cooldown is taken to exist.
\<close>

section \<open>Saturating counters\<close>

type_synonym instant = nat

definition saturating_add :: "'a::len word \<Rightarrow> 'a word \<Rightarrow> 'a word" where
  "saturating_add a b = (if unat a + unat b < 2 ^ LENGTH('a) then a + b else - 1)"

definition saturating_sub :: "'a::len word \<Rightarrow> 'a word \<Rightarrow> 'a word" where
  "saturating_sub a b = (if b \<le> a then a - b else 0)"

lemma unat_saturating_add:
  "unat (saturating_add a b :: 'a::len word) = min (unat a + unat b) (2 ^ LENGTH('a) - 1)"
proof (cases "unat a + unat b < 2 ^ LENGTH('a)")
  case True
  then have "unat (a + b) = unat a + unat b"
    by (simp add: unat_add_lem)
  with True show ?thesis by (simp add: saturating_add_def)
next
  case False
  then show ?thesis by (simp add: saturating_add_def unsigned_minus_1_eq_mask mask_eq_exp_minus_1)
qed

lemma unat_saturating_add_less:
  "unat (saturating_add a b :: 'a::len word) \<le> n \<Longrightarrow> n < 2 ^ LENGTH('a) - 1 \<Longrightarrow>
   unat (saturating_add a b) = unat a + unat b"
  by (simp add: unat_saturating_add)

lemma saturating_add_mono: "unat a \<le> unat (saturating_add a b :: 'a::len word)"
proof -
  have "unat a < 2 ^ LENGTH('a)" by (rule unsigned_less)
  then have "unat a \<le> 2 ^ LENGTH('a) - 1" by linarith
  then show ?thesis by (simp add: unat_saturating_add)
qed

section \<open>Errors\<close>

datatype GatewayLimitError = QueueFull | QueueTimeout | CircuitOpen | RequestRateLimit | TokenRateLimit

fun gateway_limit_error_reason :: "GatewayLimitError \<Rightarrow> string" where
  "gateway_limit_error_reason QueueFull = ''model_gateway_queue_full''"
| "gateway_limit_error_reason QueueTimeout = ''model_gateway_queue_timeout''"
| "gateway_limit_error_reason CircuitOpen = ''model_gateway_circuit_open''"
| "gateway_limit_error_reason RequestRateLimit = ''model_gateway_request_rate_limit''"
| "gateway_limit_error_reason TokenRateLimit = ''model_gateway_token_rate_limit''"

section \<open>The budget of a profile\<close>

record GatewayProfileRateBudget =
  rb_requests_per_minute :: "32 word option"
  rb_tokens_per_minute :: "32 word option"
  rb_window_started_at :: "instant option"
  rb_request_count :: "32 word"
  rb_token_count :: "64 word"

record GatewayRateLimitReservation =
  rs_profile_id :: string
  rs_estimated_tokens :: "64 word"

record GatewayRateLimitBudgetSnapshot =
  bs_request_count :: "64 word"
  bs_token_count :: "64 word"

definition default_budget :: GatewayProfileRateBudget where
  "default_budget = \<lparr>rb_requests_per_minute = None, rb_tokens_per_minute = None,
     rb_window_started_at = None, rb_request_count = 0, rb_token_count = 0\<rparr>"

definition minute :: instant where
  "minute = 60 * 10 ^ 9"

definition configure ::
    "32 word option \<Rightarrow> 32 word option \<Rightarrow> GatewayProfileRateBudget \<Rightarrow> GatewayProfileRateBudget" where
  "configure requests_per_minute tokens_per_minute b = b\<lparr>
     rb_requests_per_minute := option_filter (\<lambda>value. value > 0) requests_per_minute,
     rb_tokens_per_minute := option_filter (\<lambda>value. value > 0) tokens_per_minute\<rparr>"

text \<open>\<open>duration_since\<close> is zero when the argument is later, like the subtraction of \<open>nat\<close>.\<close>

definition reset_elapsed_window ::
    "instant \<Rightarrow> GatewayProfileRateBudget \<Rightarrow> GatewayProfileRateBudget" where
  "reset_elapsed_window now b =
     (if (case rb_window_started_at b of Some started_at \<Rightarrow> now - started_at \<ge> minute | None \<Rightarrow> True)
      then b\<lparr>rb_window_started_at := Some now, rb_request_count := 0, rb_token_count := 0\<rparr>
      else b)"

definition reserve ::
    "string \<Rightarrow> 64 word \<Rightarrow> instant \<Rightarrow> GatewayProfileRateBudget \<Rightarrow>
     (GatewayRateLimitReservation, GatewayLimitError) result \<times> GatewayProfileRateBudget" where
  "reserve profile_id estimated_tokens now b0 = (
     let b = reset_elapsed_window now b0 in
     if (case rb_requests_per_minute b of Some limit \<Rightarrow> saturating_add (rb_request_count b) 1 > limit
         | None \<Rightarrow> False)
     then (Err RequestRateLimit, b)
     else let estimated_tokens = max estimated_tokens 1 in
     if (case rb_tokens_per_minute b of
           Some limit \<Rightarrow> saturating_add (rb_token_count b) estimated_tokens > ucast limit
         | None \<Rightarrow> False)
     then (Err TokenRateLimit, b)
     else (Ok \<lparr>rs_profile_id = profile_id, rs_estimated_tokens = estimated_tokens\<rparr>,
           b\<lparr>rb_request_count := saturating_add (rb_request_count b) 1,
             rb_token_count := saturating_add (rb_token_count b) estimated_tokens\<rparr>))"

definition add_tokens :: "64 word \<Rightarrow> instant \<Rightarrow> GatewayProfileRateBudget \<Rightarrow> GatewayProfileRateBudget" where
  "add_tokens additional_tokens now b0 = (let b = reset_elapsed_window now b0 in
     b\<lparr>rb_token_count := saturating_add (rb_token_count b) additional_tokens\<rparr>)"

definition would_limit ::
    "64 word \<Rightarrow> instant \<Rightarrow> GatewayProfileRateBudget \<Rightarrow>
     GatewayLimitError option \<times> GatewayProfileRateBudget" where
  "would_limit estimated_tokens now b0 = (
     let b = reset_elapsed_window now b0 in
     if (case rb_requests_per_minute b of Some limit \<Rightarrow> saturating_add (rb_request_count b) 1 > limit
         | None \<Rightarrow> False)
     then (Some RequestRateLimit, b)
     else if (case rb_tokens_per_minute b of
           Some limit \<Rightarrow> saturating_add (rb_token_count b) (max estimated_tokens 1) > ucast limit
         | None \<Rightarrow> False)
     then (Some TokenRateLimit, b)
     else (None, b))"

definition budget_snapshot ::
    "instant \<Rightarrow> GatewayProfileRateBudget \<Rightarrow>
     GatewayRateLimitBudgetSnapshot \<times> GatewayProfileRateBudget" where
  "budget_snapshot now b0 = (let b = reset_elapsed_window now b0 in
     (\<lparr>bs_request_count = ucast (rb_request_count b), bs_token_count = rb_token_count b\<rparr>, b))"

section \<open>The statistics of a provider\<close>

record GatewayProviderRuntimeStats =
  ps_consecutive_failures :: "32 word"
  ps_success_count :: "64 word"
  ps_failure_count :: "64 word"
  ps_timeout_count :: "64 word"
  ps_rate_limit_count :: "64 word"
  ps_latency_samples_ms :: "64 word list"
  ps_opened_until :: "instant option"
  ps_opened_until_wall_time :: "datetime option"
  ps_last_success_at :: "datetime option"
  ps_last_failure_at :: "datetime option"
  ps_last_failure_reason :: "string option"

record GatewayProviderStatsSnapshot =
  ss_consecutive_failures :: "32 word"
  ss_success_count :: "64 word"
  ss_failure_count :: "64 word"
  ss_timeout_count :: "64 word"
  ss_rate_limit_count :: "64 word"
  ss_p50_latency_ms :: "64 word option"
  ss_p95_latency_ms :: "64 word option"
  ss_circuit_open :: bool
  ss_opened_until :: "datetime option"
  ss_last_success_at :: "datetime option"
  ss_last_failure_at :: "datetime option"
  ss_last_failure_reason :: "string option"

definition default_stats :: GatewayProviderRuntimeStats where
  "default_stats = \<lparr>ps_consecutive_failures = 0, ps_success_count = 0, ps_failure_count = 0,
     ps_timeout_count = 0, ps_rate_limit_count = 0, ps_latency_samples_ms = [],
     ps_opened_until = None, ps_opened_until_wall_time = None, ps_last_success_at = None,
     ps_last_failure_at = None, ps_last_failure_reason = None\<rparr>"

definition default_stats_snapshot :: GatewayProviderStatsSnapshot where
  "default_stats_snapshot = \<lparr>ss_consecutive_failures = 0, ss_success_count = 0, ss_failure_count = 0,
     ss_timeout_count = 0, ss_rate_limit_count = 0, ss_p50_latency_ms = None,
     ss_p95_latency_ms = None, ss_circuit_open = False, ss_opened_until = None,
     ss_last_success_at = None, ss_last_failure_at = None, ss_last_failure_reason = None\<rparr>"

definition gateway_provider_failure_is_timeout :: "string \<Rightarrow> bool" where
  "gateway_provider_failure_is_timeout reason = contains_text reason ''timeout''"

definition gateway_provider_failure_is_rate_limit :: "string \<Rightarrow> bool" where
  "gateway_provider_failure_is_rate_limit reason \<longleftrightarrow>
     contains_text reason ''429'' \<or> contains_text reason ''rate_limit'' \<or>
     contains_text reason ''too_many_requests''"

definition circuit_open :: "instant \<Rightarrow> GatewayProviderRuntimeStats \<Rightarrow> bool" where
  "circuit_open now s = (case ps_opened_until s of Some opened_until \<Rightarrow> opened_until > now | None \<Rightarrow> False)"

definition clear_expired_circuit ::
    "instant \<Rightarrow> GatewayProviderRuntimeStats \<Rightarrow> GatewayProviderRuntimeStats" where
  "clear_expired_circuit now s =
     (if (case ps_opened_until s of Some opened_until \<Rightarrow> opened_until \<le> now | None \<Rightarrow> False)
      then s\<lparr>ps_opened_until := None, ps_opened_until_wall_time := None\<rparr> else s)"

text \<open>The loop \<open>while len > 256 { pop_front }\<close>.\<close>

fun pop_front_while_over :: "nat \<Rightarrow> 'a list \<Rightarrow> 'a list" where
  "pop_front_while_over n [] = []"
| "pop_front_while_over n (x # xs) =
     (if length (x # xs) > n then pop_front_while_over n xs else x # xs)"

definition record_success ::
    "64 word option \<Rightarrow> datetime \<Rightarrow> GatewayProviderRuntimeStats \<Rightarrow> GatewayProviderRuntimeStats" where
  "record_success latency_ms now_wall_time s = (
     let s = s\<lparr>ps_consecutive_failures := 0,
               ps_success_count := saturating_add (ps_success_count s) 1,
               ps_opened_until := None, ps_opened_until_wall_time := None,
               ps_last_success_at := Some now_wall_time\<rparr> in
     case latency_ms of
       Some latency_ms \<Rightarrow>
         s\<lparr>ps_latency_samples_ms := pop_front_while_over 256 (ps_latency_samples_ms s @ [latency_ms])\<rparr>
     | None \<Rightarrow> s)"

definition record_failure ::
    "string \<Rightarrow> instant \<Rightarrow> datetime \<Rightarrow> 32 word \<Rightarrow> instant \<Rightarrow> datetime option \<Rightarrow>
     GatewayProviderRuntimeStats \<Rightarrow> GatewayProviderRuntimeStats" where
  "record_failure reason now now_wall_time failure_threshold cooldown opened_until_wall_time s0 = (
     let s = s0\<lparr>ps_consecutive_failures := saturating_add (ps_consecutive_failures s0) 1,
                ps_failure_count := saturating_add (ps_failure_count s0) 1\<rparr>;
         s = (if gateway_provider_failure_is_timeout reason
              then s\<lparr>ps_timeout_count := saturating_add (ps_timeout_count s) 1\<rparr> else s);
         s = (if gateway_provider_failure_is_rate_limit reason
              then s\<lparr>ps_rate_limit_count := saturating_add (ps_rate_limit_count s) 1\<rparr> else s);
         s = s\<lparr>ps_last_failure_at := Some now_wall_time, ps_last_failure_reason := Some reason\<rparr> in
     if ps_consecutive_failures s \<ge> failure_threshold
     then s\<lparr>ps_opened_until := Some (now + cooldown),
            ps_opened_until_wall_time := opened_until_wall_time\<rparr>
     else s)"

definition percentile_latency :: "64 word list \<Rightarrow> nat \<Rightarrow> 64 word option" where
  "percentile_latency sorted_latencies percentile =
     (if sorted_latencies = [] then None
      else let percentile = min percentile 100;
               index = ((length sorted_latencies - 1) * percentile + 99) div 100 in
        if index < length sorted_latencies then Some (sorted_latencies ! index) else None)"

definition stats_snapshot ::
    "instant \<Rightarrow> GatewayProviderRuntimeStats \<Rightarrow> GatewayProviderStatsSnapshot" where
  "stats_snapshot now s = (
     let is_open = circuit_open now s; latencies = sort (ps_latency_samples_ms s) in
     \<lparr>ss_consecutive_failures = ps_consecutive_failures s, ss_success_count = ps_success_count s,
      ss_failure_count = ps_failure_count s, ss_timeout_count = ps_timeout_count s,
      ss_rate_limit_count = ps_rate_limit_count s,
      ss_p50_latency_ms = percentile_latency latencies 50,
      ss_p95_latency_ms = percentile_latency latencies 95,
      ss_circuit_open = is_open,
      ss_opened_until = (if is_open then ps_opened_until_wall_time s else None),
      ss_last_success_at = ps_last_success_at s, ss_last_failure_at = ps_last_failure_at s,
      ss_last_failure_reason = ps_last_failure_reason s\<rparr>)"

section \<open>Buckets\<close>

text \<open>
  A bucket is a semaphore with \<open>max_concurrency\<close> permits and a counter of the requests that queue for
  one. The semaphore is Tokio's; the model keeps the number of permits that are handed out.
\<close>

record GatewayLimitBucket =
  bk_max_concurrency :: nat
  bk_queue_limit :: nat
  bk_queue_timeout :: instant
  bk_held :: nat
  bk_queued :: nat

record GatewayLimitBucketSnapshot =
  ks_max_concurrency :: nat
  ks_active :: nat
  ks_queued :: nat
  ks_queue_limit :: nat
  ks_queue_timeout_ms :: "64 word"

definition millisecond :: instant where
  "millisecond = 10 ^ 6"

definition new_bucket :: "nat \<Rightarrow> nat \<Rightarrow> instant \<Rightarrow> GatewayLimitBucket" where
  "new_bucket max_concurrency queue_limit queue_timeout =
     \<lparr>bk_max_concurrency = max max_concurrency 1, bk_queue_limit = queue_limit,
      bk_queue_timeout = queue_timeout, bk_held = 0, bk_queued = 0\<rparr>"

definition available_permits :: "GatewayLimitBucket \<Rightarrow> nat" where
  "available_permits b = bk_max_concurrency b - bk_held b"

definition bucket_snapshot :: "GatewayLimitBucket \<Rightarrow> GatewayLimitBucketSnapshot" where
  "bucket_snapshot b =
     \<lparr>ks_max_concurrency = bk_max_concurrency b,
      ks_active = bk_max_concurrency b - min (available_permits b) (bk_max_concurrency b),
      ks_queued = bk_queued b, ks_queue_limit = bk_queue_limit b,
      ks_queue_timeout_ms = of_nat (bk_queue_timeout b div millisecond)\<rparr>"

section \<open>The limiter\<close>

record GatewayRuntimeLimiter =
  gl_lanes :: "string \<Rightarrow> GatewayLimitBucket option"
  gl_profiles :: "string \<Rightarrow> GatewayLimitBucket option"
  gl_profile_rate_budgets :: "string \<Rightarrow> GatewayProfileRateBudget option"
  gl_provider_stats :: "string \<Rightarrow> GatewayProviderRuntimeStats option"
  gl_default_lane_max_concurrency :: nat
  gl_default_profile_max_concurrency :: nat
  gl_default_queue_limit :: nat
  gl_default_queue_timeout :: instant
  gl_circuit_breaker_failure_threshold :: "32 word"
  gl_circuit_breaker_cooldown :: instant

definition new_limiter :: GatewayRuntimeLimiter where
  "new_limiter = \<lparr>gl_lanes = Map.empty, gl_profiles = Map.empty,
     gl_profile_rate_budgets = Map.empty, gl_provider_stats = Map.empty,
     gl_default_lane_max_concurrency = 64, gl_default_profile_max_concurrency = 16,
     gl_default_queue_limit = 256, gl_default_queue_timeout = 3000 * millisecond,
     gl_circuit_breaker_failure_threshold = 3, gl_circuit_breaker_cooldown = minute\<rparr>"

definition configured_bucket ::
    "nat \<Rightarrow> GatewayRuntimeLimiter \<Rightarrow> 32 word option \<Rightarrow> 32 word option \<Rightarrow> 64 word option \<Rightarrow>
     GatewayLimitBucket" where
  "configured_bucket default_max l max_concurrency queue_limit queue_timeout_ms = new_bucket
     (unwrap_or default_max (map_option unat max_concurrency))
     (unwrap_or (gl_default_queue_limit l) (map_option unat queue_limit))
     (unwrap_or (gl_default_queue_timeout l)
        (map_option (\<lambda>ms. unat ms * millisecond) queue_timeout_ms))"

definition set_lane_limit ::
    "string \<Rightarrow> nat \<Rightarrow> nat \<Rightarrow> instant \<Rightarrow> GatewayRuntimeLimiter \<Rightarrow> GatewayRuntimeLimiter" where
  "set_lane_limit lane max_concurrency queue_limit queue_timeout l =
     l\<lparr>gl_lanes := (gl_lanes l)(lane \<mapsto> new_bucket max_concurrency queue_limit queue_timeout)\<rparr>"

definition set_profile_limit ::
    "string \<Rightarrow> nat \<Rightarrow> nat \<Rightarrow> instant \<Rightarrow> GatewayRuntimeLimiter \<Rightarrow> GatewayRuntimeLimiter" where
  "set_profile_limit profile_id max_concurrency queue_limit queue_timeout l =
     l\<lparr>gl_profiles := (gl_profiles l)(profile_id \<mapsto> new_bucket max_concurrency queue_limit queue_timeout)\<rparr>"

definition or_insert :: "'k \<Rightarrow> 'v \<Rightarrow> ('k \<Rightarrow> 'v option) \<Rightarrow> 'k \<Rightarrow> 'v option" where
  "or_insert k v m = (case m k of None \<Rightarrow> m(k \<mapsto> v) | Some _ \<Rightarrow> m)"

definition ensure_lane_limit ::
    "string \<Rightarrow> 32 word option \<Rightarrow> 32 word option \<Rightarrow> 64 word option \<Rightarrow>
     GatewayRuntimeLimiter \<Rightarrow> GatewayRuntimeLimiter" where
  "ensure_lane_limit lane max_concurrency queue_limit queue_timeout_ms l =
     l\<lparr>gl_lanes := or_insert lane (configured_bucket (gl_default_lane_max_concurrency l) l
          max_concurrency queue_limit queue_timeout_ms) (gl_lanes l)\<rparr>"

definition ensure_profile_limit ::
    "string \<Rightarrow> 32 word option \<Rightarrow> 32 word option \<Rightarrow> 64 word option \<Rightarrow>
     GatewayRuntimeLimiter \<Rightarrow> GatewayRuntimeLimiter" where
  "ensure_profile_limit profile_id max_concurrency queue_limit queue_timeout_ms l =
     l\<lparr>gl_profiles := or_insert profile_id (configured_bucket (gl_default_profile_max_concurrency l) l
          max_concurrency queue_limit queue_timeout_ms) (gl_profiles l)\<rparr>"

definition budget_of :: "GatewayRuntimeLimiter \<Rightarrow> string \<Rightarrow> GatewayProfileRateBudget" where
  "budget_of l profile_id = unwrap_or default_budget (gl_profile_rate_budgets l profile_id)"

definition set_budget ::
    "string \<Rightarrow> GatewayProfileRateBudget \<Rightarrow> GatewayRuntimeLimiter \<Rightarrow> GatewayRuntimeLimiter" where
  "set_budget profile_id b l =
     l\<lparr>gl_profile_rate_budgets := (gl_profile_rate_budgets l)(profile_id \<mapsto> b)\<rparr>"

definition ensure_profile_rate_limit ::
    "string \<Rightarrow> 32 word option \<Rightarrow> 32 word option \<Rightarrow> GatewayRuntimeLimiter \<Rightarrow>
     GatewayRuntimeLimiter" where
  "ensure_profile_rate_limit profile_id requests_per_minute tokens_per_minute l =
     set_budget profile_id (configure requests_per_minute tokens_per_minute (budget_of l profile_id)) l"

definition reserve_profile_rate_budget ::
    "string \<Rightarrow> 64 word \<Rightarrow> instant \<Rightarrow> GatewayRuntimeLimiter \<Rightarrow>
     (GatewayRateLimitReservation, GatewayLimitError) result \<times> GatewayRuntimeLimiter" where
  "reserve_profile_rate_budget profile_id estimated_tokens now l =
     (let (r, b) = reserve profile_id estimated_tokens now (budget_of l profile_id) in
      (r, set_budget profile_id b l))"

definition record_profile_actual_token_usage ::
    "GatewayRateLimitReservation \<Rightarrow> 64 word \<Rightarrow> instant \<Rightarrow> GatewayRuntimeLimiter \<Rightarrow>
     GatewayRuntimeLimiter" where
  "record_profile_actual_token_usage reservation actual_tokens now l = (
     let additional_tokens = saturating_sub actual_tokens (rs_estimated_tokens reservation) in
     if additional_tokens = 0 then l
     else set_budget (rs_profile_id reservation)
            (add_tokens additional_tokens now (budget_of l (rs_profile_id reservation))) l)"

definition profile_rate_snapshot ::
    "string \<Rightarrow> instant \<Rightarrow> GatewayRuntimeLimiter \<Rightarrow>
     GatewayRateLimitBudgetSnapshot \<times> GatewayRuntimeLimiter" where
  "profile_rate_snapshot profile_id now l =
     (let (s, b) = budget_snapshot now (budget_of l profile_id) in (s, set_budget profile_id b l))"

definition lane_bucket :: "string \<Rightarrow> GatewayRuntimeLimiter \<Rightarrow> GatewayLimitBucket \<times> GatewayRuntimeLimiter" where
  "lane_bucket lane l = (
     let m = or_insert lane (new_bucket (gl_default_lane_max_concurrency l)
               (gl_default_queue_limit l) (gl_default_queue_timeout l)) (gl_lanes l) in
     (the (m lane), l\<lparr>gl_lanes := m\<rparr>))"

definition profile_bucket :: "string \<Rightarrow> GatewayRuntimeLimiter \<Rightarrow> GatewayLimitBucket \<times> GatewayRuntimeLimiter" where
  "profile_bucket profile_id l = (
     let m = or_insert profile_id (new_bucket (gl_default_profile_max_concurrency l)
               (gl_default_queue_limit l) (gl_default_queue_timeout l)) (gl_profiles l) in
     (the (m profile_id), l\<lparr>gl_profiles := m\<rparr>))"

definition lane_snapshot ::
    "string \<Rightarrow> GatewayRuntimeLimiter \<Rightarrow> GatewayLimitBucketSnapshot \<times> GatewayRuntimeLimiter" where
  "lane_snapshot lane l = (let (b, l') = lane_bucket lane l in (bucket_snapshot b, l'))"

definition profile_snapshot ::
    "string \<Rightarrow> GatewayRuntimeLimiter \<Rightarrow> GatewayLimitBucketSnapshot \<times> GatewayRuntimeLimiter" where
  "profile_snapshot profile_id l = (let (b, l') = profile_bucket profile_id l in (bucket_snapshot b, l'))"

definition provider_available ::
    "string \<Rightarrow> instant \<Rightarrow> GatewayRuntimeLimiter \<Rightarrow>
     GatewayProviderStatsSnapshot option \<times> GatewayRuntimeLimiter" where
  "provider_available profile_id now l = (case gl_provider_stats l profile_id of
     None \<Rightarrow> (Some default_stats_snapshot, l)
   | Some s \<Rightarrow> if circuit_open now s then (None, l)
       else let s = clear_expired_circuit now s in
         (Some (stats_snapshot now s), l\<lparr>gl_provider_stats := (gl_provider_stats l)(profile_id \<mapsto> s)\<rparr>))"

definition provider_stats_snapshot ::
    "string \<Rightarrow> instant \<Rightarrow> GatewayRuntimeLimiter \<Rightarrow>
     GatewayProviderStatsSnapshot \<times> GatewayRuntimeLimiter" where
  "provider_stats_snapshot profile_id now l = (case gl_provider_stats l profile_id of
     None \<Rightarrow> (default_stats_snapshot, l)
   | Some s \<Rightarrow> let s = clear_expired_circuit now s in
       (stats_snapshot now s, l\<lparr>gl_provider_stats := (gl_provider_stats l)(profile_id \<mapsto> s)\<rparr>))"

definition record_provider_success ::
    "string \<Rightarrow> 64 word option \<Rightarrow> datetime \<Rightarrow> GatewayRuntimeLimiter \<Rightarrow> GatewayRuntimeLimiter" where
  "record_provider_success profile_id latency_ms now_wall_time l =
     l\<lparr>gl_provider_stats := (gl_provider_stats l)(profile_id \<mapsto> record_success latency_ms now_wall_time
         (unwrap_or default_stats (gl_provider_stats l profile_id)))\<rparr>"

text \<open>The wall clock has microseconds; \<open>Duration::from_std\<close> fails for no cooldown the limiter has.\<close>

definition record_provider_failure ::
    "string \<Rightarrow> string \<Rightarrow> instant \<Rightarrow> datetime \<Rightarrow> GatewayRuntimeLimiter \<Rightarrow> GatewayRuntimeLimiter" where
  "record_provider_failure profile_id reason now now_wall_time l =
     l\<lparr>gl_provider_stats := (gl_provider_stats l)(profile_id \<mapsto> record_failure reason now now_wall_time
         (gl_circuit_breaker_failure_threshold l) (gl_circuit_breaker_cooldown l)
         (Some (now_wall_time + int (gl_circuit_breaker_cooldown l div 1000)))
         (unwrap_or default_stats (gl_provider_stats l profile_id)))\<rparr>"

definition would_throttle_lane_and_profile ::
    "string \<Rightarrow> string \<Rightarrow> 64 word \<Rightarrow> instant \<Rightarrow> GatewayRuntimeLimiter \<Rightarrow>
     GatewayLimitError option \<times> GatewayRuntimeLimiter" where
  "would_throttle_lane_and_profile lane profile_id estimated_tokens now l = (
     let (availability, l) = provider_available profile_id now l in
     if availability = None then (Some CircuitOpen, l)
     else let (lane_state, l) = lane_snapshot lane l in
     if ks_active lane_state \<ge> ks_max_concurrency lane_state \<and> ks_queued lane_state \<ge> ks_queue_limit lane_state
     then (Some QueueFull, l)
     else let (profile_state, l) = profile_snapshot profile_id l in
     if ks_active profile_state \<ge> ks_max_concurrency profile_state \<and>
        ks_queued profile_state \<ge> ks_queue_limit profile_state
     then (Some QueueFull, l)
     else let (r, b) = would_limit estimated_tokens now (budget_of l profile_id) in
       (r, set_budget profile_id b l))"

text \<open>\<open>chars().count()\<close> counts the bytes that start a character.\<close>

definition model_gateway_estimated_input_tokens :: "string \<Rightarrow> 64 word" where
  "model_gateway_estimated_input_tokens input =
     max (of_nat (length (filter (\<lambda>c. \<not> is_continuation_byte c) input)) div 4) 1"

end
