(* ===== verification/Gateway_Rates.thy ===== *)
theory Gateway_Rates
  imports Gateway_Limiter
begin

text \<open>
  What the budgets and the circuit breaker of \<open>Gateway_Limiter\<close> promise over a run of calls with a
  clock that never goes back: a budget is a fixed window, so no interval of a minute sees more than
  twice its limits; a circuit is open exactly when the failures since the last success have reached
  the threshold and the last of them is younger than the cooldown. The runs are lists of calls, each
  with the reading of the clock it was made at.
\<close>

section \<open>Fixed windows\<close>

text \<open>What was granted, as pairs of an instant and an amount, and how much of it fell in an interval.\<close>

type_synonym grants = "(instant \<times> nat) list"

definition granted_in :: "instant \<Rightarrow> instant \<Rightarrow> grants \<Rightarrow> nat" where
  "granted_in from until G = sum_list (map snd (filter (\<lambda>(t, _). from \<le> t \<and> t < until) G))"

lemma granted_in_simps [simp]:
  "granted_in from until [] = 0"
  "granted_in from until ((t, a) # G) = (if from \<le> t \<and> t < until then a else 0) + granted_in from until G"
  "granted_in from until (G @ H) = granted_in from until G + granted_in from until H"
  by (simp_all add: granted_in_def)

lemma granted_in_mono: "from' \<le> from \<Longrightarrow> until \<le> until' \<Longrightarrow> granted_in from until G \<le> granted_in from' until' G"
  by (induction G) auto

lemma granted_in_split:
  "from \<le> m \<Longrightarrow> m \<le> until \<Longrightarrow> granted_in from until G = granted_in from m G + granted_in m until G"
  by (induction G) auto

lemma granted_in_empty: "\<forall>(t, a) \<in> set G. t < from \<Longrightarrow> granted_in from until G = 0"
  by (induction G) auto

text \<open>
  \<open>w\<close> is the start of the current window: everything was granted before its end, at most \<open>L\<close> in it,
  at most \<open>L\<close> in the minute before it and at most \<open>2 * L\<close> in any minute.
\<close>

definition windowed :: "nat \<Rightarrow> instant \<Rightarrow> grants \<Rightarrow> bool" where
  "windowed L w G \<longleftrightarrow> (\<forall>(t, a) \<in> set G. t < w + minute) \<and>
     granted_in w (w + minute) G \<le> L \<and> granted_in (w - minute) w G \<le> L \<and>
     (\<forall>s. granted_in s (s + minute) G \<le> 2 * L)"

lemma windowed_Nil [simp]: "windowed L w []"
  by (simp add: windowed_def)

lemma windowed_after: "windowed L w G \<Longrightarrow> w + minute \<le> now \<Longrightarrow> granted_in now until G = 0"
  by (rule granted_in_empty) (fastforce simp: windowed_def)

lemma windowed_reset:
  assumes G: "windowed L w G" and now: "w + minute \<le> now"
  shows "windowed L now G"
proof -
  have late: "\<forall>(t, a) \<in> set G. t < now"
    using G now by (fastforce simp: windowed_def)
  have "granted_in (now - minute) now G \<le> granted_in w now G"
    using now by (intro granted_in_mono) auto
  also have "\<dots> = granted_in w (w + minute) G + granted_in (w + minute) now G"
    using now by (intro granted_in_split) auto
  also have "granted_in (w + minute) now G = 0"
    using G by (intro granted_in_empty) (auto simp: windowed_def)
  finally show ?thesis
    using G now late granted_in_empty [of G now "now + minute"]
    by (fastforce simp: windowed_def)
qed

lemma windowed_grant:
  assumes G: "windowed L w G" and t: "w \<le> t" "t < w + minute"
    and fits: "granted_in w (w + minute) G + a \<le> L"
  shows "windowed L w (G @ [(t, a)])"
proof -
  have all: "granted_in s (s + minute) (G @ [(t, a)]) \<le> 2 * L" for s
  proof (cases "s \<le> w")
    case True
    show ?thesis
    proof (cases "t < s + minute")
      case True
      have "granted_in s (s + minute) G = granted_in s w G + granted_in w (s + minute) G"
        using \<open>s \<le> w\<close> True t by (intro granted_in_split) auto
      moreover have "granted_in s w G \<le> granted_in (w - minute) w G"
        using True t by (intro granted_in_mono) auto
      moreover have "granted_in w (s + minute) G \<le> granted_in w (w + minute) G"
        using \<open>s \<le> w\<close> by (intro granted_in_mono) auto
      ultimately show ?thesis
        using G fits by (simp add: windowed_def)
    next
      case False
      then show ?thesis using G by (simp add: windowed_def)
    qed
  next
    case False
    then have "granted_in s (s + minute) G = granted_in s (w + minute) G + granted_in (w + minute) (s + minute) G"
      if "s \<le> w + minute"
      using that by (intro granted_in_split) auto
    moreover have "granted_in (w + minute) (s + minute) G = 0"
      using G by (intro granted_in_empty) (auto simp: windowed_def)
    moreover have "granted_in s (w + minute) G \<le> granted_in w (w + minute) G"
      using False by (intro granted_in_mono) auto
    moreover have "granted_in s (s + minute) G = 0" if "\<not> s \<le> w + minute"
      using G that by (intro granted_in_empty) (fastforce simp: windowed_def)
    ultimately show ?thesis
      using fits by (cases "s \<le> w + minute") auto
  qed
  show ?thesis
    using G t fits all unfolding windowed_def by simp
qed

section \<open>Runs of a budget\<close>

datatype budget_call =
    Configure "32 word option" "32 word option"
  | Reserve "64 word"
  | Add_tokens "64 word"
  | Would_limit "64 word"
  | Snapshot

fun budget_step ::
    "string \<Rightarrow> instant \<Rightarrow> budget_call \<Rightarrow> GatewayProfileRateBudget \<Rightarrow>
     GatewayRateLimitReservation option \<times> GatewayProfileRateBudget" where
  "budget_step p now (Configure r t) b = (None, configure r t b)"
| "budget_step p now (Reserve n) b =
     (case reserve p n now b of (Inr x, b) \<Rightarrow> (Some x, b) | (Inl e, b) \<Rightarrow> (None, b))"
| "budget_step p now (Add_tokens n) b = (None, add_tokens n now b)"
| "budget_step p now (Would_limit n) b = (None, snd (would_limit n now b))"
| "budget_step p now Snapshot b = (None, snd (budget_snapshot now b))"

text \<open>The reservations of a run, each with its instant, and the budget after it.\<close>

fun budget_run ::
    "string \<Rightarrow> (instant \<times> budget_call) list \<Rightarrow> GatewayProfileRateBudget \<Rightarrow>
     (instant \<times> GatewayRateLimitReservation) list \<times> GatewayProfileRateBudget" where
  "budget_run p [] b = ([], b)"
| "budget_run p ((now, c) # cs) b = (
     let (x, b) = budget_step p now c b; (xs, b) = budget_run p cs b in
     ((case x of Some x \<Rightarrow> [(now, x)] | None \<Rightarrow> []) @ xs, b))"

definition requests_of :: "(instant \<times> GatewayRateLimitReservation) list \<Rightarrow> grants" where
  "requests_of xs = map (\<lambda>(t, x). (t, 1)) xs"

definition tokens_of :: "(instant \<times> GatewayRateLimitReservation) list \<Rightarrow> grants" where
  "tokens_of xs = map (\<lambda>(t, x). (t, unat (rs_estimated_tokens x))) xs"

text \<open>A limit that is set, positive and at most \<open>L\<close>, and the calls that keep the request or the
  token limit so when they configure the profile.\<close>

definition capped :: "nat \<Rightarrow> 32 word option \<Rightarrow> bool" where
  "capped L limit \<longleftrightarrow> (\<exists>l. limit = Some l \<and> 0 < l \<and> unat l \<le> L)"

definition requests_capped :: "nat \<Rightarrow> budget_call \<Rightarrow> bool" where
  "requests_capped R c \<longleftrightarrow> (case c of Configure r t \<Rightarrow> capped R r | _ \<Rightarrow> True)"

definition tokens_capped :: "nat \<Rightarrow> budget_call \<Rightarrow> bool" where
  "tokens_capped T c \<longleftrightarrow> (case c of Configure r t \<Rightarrow> capped T t | _ \<Rightarrow> True)"

text \<open>
  The invariant of one limit in a run: the grants so far are windowed, and the counter is no less than
  what was granted in the current window. It does not mention the other limit.
\<close>

definition limit_inv :: "nat \<Rightarrow> instant \<Rightarrow> grants \<Rightarrow> 32 word option \<Rightarrow> nat \<Rightarrow> instant option \<Rightarrow> bool" where
  "limit_inv L now G limit counted window \<longleftrightarrow> capped L limit \<and>
     (case window of
        None \<Rightarrow> G = []
      | Some w \<Rightarrow> w \<le> now \<and> windowed L w G \<and> granted_in w (w + minute) G \<le> counted)"

definition requests_inv ::
    "nat \<Rightarrow> instant \<Rightarrow> (instant \<times> GatewayRateLimitReservation) list \<Rightarrow> GatewayProfileRateBudget \<Rightarrow> bool" where
  "requests_inv R now xs b \<longleftrightarrow> limit_inv R now (requests_of xs) (rb_requests_per_minute b)
     (unat (rb_request_count b)) (rb_window_started_at b)"

definition tokens_inv ::
    "nat \<Rightarrow> instant \<Rightarrow> (instant \<times> GatewayRateLimitReservation) list \<Rightarrow> GatewayProfileRateBudget \<Rightarrow> bool" where
  "tokens_inv T now xs b \<longleftrightarrow> limit_inv T now (tokens_of xs) (rb_tokens_per_minute b)
     (unat (rb_token_count b)) (rb_window_started_at b)"

lemmas rate_inv_defs = requests_inv_def tokens_inv_def limit_inv_def

lemma rate_inv_later:
  "requests_inv R now xs b \<Longrightarrow> now \<le> now' \<Longrightarrow> requests_inv R now' xs b"
  "tokens_inv T now xs b \<Longrightarrow> now \<le> now' \<Longrightarrow> tokens_inv T now' xs b"
  by (auto simp: rate_inv_defs split: option.splits)

lemma limit_inv_restart:
  assumes "limit_inv L now G limit counted (Some w)" and "w + minute \<le> now"
  shows "limit_inv L now G limit 0 (Some now)"
  using assms windowed_reset [of L w G now] windowed_after [of L w G now]
  by (simp add: limit_inv_def)

lemma limit_inv_start: "limit_inv L now G limit counted None \<Longrightarrow> limit_inv L now G limit counted' (Some now)"
  by (simp add: limit_inv_def)

lemma limit_inv_counted:
  "limit_inv L now G limit counted window \<Longrightarrow> counted \<le> counted' \<Longrightarrow> limit_inv L now G limit counted' window"
  by (auto simp: limit_inv_def split: option.splits)

lemma limit_inv_grant:
  assumes "limit_inv L now G limit counted (Some w)" and "now < w + minute" and "counted + a \<le> L"
  shows "limit_inv L now (G @ [(now, a)]) limit (counted + a) (Some w)"
  using assms by (auto simp: limit_inv_def intro!: windowed_grant)

lemma reset_limits [simp]:
  "rb_requests_per_minute (reset_elapsed_window now b) = rb_requests_per_minute b"
  "rb_tokens_per_minute (reset_elapsed_window now b) = rb_tokens_per_minute b"
  by (simp_all add: reset_elapsed_window_def)

lemma reset_window:
  "\<exists>w. rb_window_started_at (reset_elapsed_window now b) = Some w \<and> now < w + minute"
  by (auto simp: reset_elapsed_window_def minute_def split: option.splits)

lemma requests_inv_reset: "requests_inv R now xs b \<Longrightarrow> requests_inv R now xs (reset_elapsed_window now b)"
  unfolding requests_inv_def reset_elapsed_window_def
  by (auto simp: minute_def split: option.splits intro: limit_inv_start
      limit_inv_restart [unfolded minute_def])

lemma tokens_inv_reset: "tokens_inv T now xs b \<Longrightarrow> tokens_inv T now xs (reset_elapsed_window now b)"
  unfolding tokens_inv_def reset_elapsed_window_def
  by (auto simp: minute_def split: option.splits intro: limit_inv_start
      limit_inv_restart [unfolded minute_def])

lemma counted_request:
  assumes "capped R limit" "limit = Some l" "R < 2 ^ 32 - 1" "\<not> saturating_add (n :: 32 word) 1 > l"
  shows "unat (saturating_add n 1) = unat n + 1 \<and> unat n + 1 \<le> R"
proof -
  have "unat (saturating_add n 1) \<le> R"
    using assms by (auto simp: capped_def word_less_nat_alt not_less)
  with assms(3) unat_saturating_add_less [of n 1 R] show ?thesis by simp
qed

lemma counted_tokens:
  assumes "capped T limit" "limit = Some l" "\<not> saturating_add (n :: 64 word) a > ucast (l :: 32 word)"
  shows "unat (saturating_add n a) = unat n + unat a \<and> unat n + unat a \<le> T"
proof -
  have l: "unat (ucast l :: 64 word) = unat l" "unat l < 2 ^ 32"
    using unsigned_less [of l, where 'a=nat] by (simp_all add: unsigned_ucast_eq take_bit_nat_eq_self)
  have "unat (saturating_add n a) \<le> unat l"
    using assms(3) l by (simp add: word_less_nat_alt not_less)
  with l unat_saturating_add_less [of n a "unat l"] assms(1,2) show ?thesis by (auto simp: capped_def)
qed

text \<open>A reservation is refused, or fits into both limits, those that are set.\<close>

lemma reserve_cases:
  obtains (refused) e where "reserve p n now b = (Inl e, reset_elapsed_window now b)"
  | (granted) c where "c = reset_elapsed_window now b"
      "reserve p n now b = (Ok \<lparr>rs_profile_id = p, rs_estimated_tokens = max n 1\<rparr>,
        c\<lparr>rb_request_count := saturating_add (rb_request_count c) 1,
          rb_token_count := saturating_add (rb_token_count c) (max n 1)\<rparr>)"
      "\<And>l. rb_requests_per_minute c = Some l \<Longrightarrow> \<not> saturating_add (rb_request_count c) 1 > l"
      "\<And>l. rb_tokens_per_minute c = Some l \<Longrightarrow> \<not> saturating_add (rb_token_count c) (max n 1) > ucast l"
proof -
  let ?c = "reset_elapsed_window now b"
  define over where "over \<longleftrightarrow>
    (case rb_requests_per_minute ?c of Some l \<Rightarrow> saturating_add (rb_request_count ?c) 1 > l | None \<Rightarrow> False) \<or>
    (case rb_tokens_per_minute ?c of Some l \<Rightarrow> saturating_add (rb_token_count ?c) (max n 1) > ucast l
      | None \<Rightarrow> False)"
  show thesis
  proof (cases over)
    case True
    then have "\<exists>e. reserve p n now b = (Inl e, ?c)"
      by (auto simp: over_def reserve_def Let_def)
    with refused show thesis by blast
  next
    case False
    then show thesis
      by (intro granted [OF refl]) (auto simp: over_def reserve_def Let_def split: option.splits)
  qed
qed

lemma requests_inv_reserve:
  assumes inv: "requests_inv R now xs b" and R: "R < 2 ^ 32 - 1"
  shows "case reserve p n now b of
      (Inl e, b') \<Rightarrow> requests_inv R now xs b'
    | (Inr x, b') \<Rightarrow> requests_inv R now (xs @ [(now, x)]) b'"
proof (cases rule: reserve_cases [of p n now b])
  case (granted c)
  obtain w where c: "requests_inv R now xs c" and w: "rb_window_started_at c = Some w" "now < w + minute"
    using requests_inv_reset [OF inv] reset_window [of now b] granted(1) by auto
  obtain l where l: "rb_requests_per_minute c = Some l" and cap: "capped R (rb_requests_per_minute c)"
    using c by (auto simp: rate_inv_defs capped_def)
  note q = counted_request [OF cap l R granted(3) [OF l]]
  with limit_inv_grant [of R now "requests_of xs" _ "unat (rb_request_count c)" w 1] c w show ?thesis
    by (simp add: granted(2) requests_inv_def requests_of_def)
qed (use requests_inv_reset [OF inv] in simp)

lemma tokens_inv_reserve:
  assumes inv: "tokens_inv T now xs b"
  shows "case reserve p n now b of
      (Inl e, b') \<Rightarrow> tokens_inv T now xs b'
    | (Inr x, b') \<Rightarrow> tokens_inv T now (xs @ [(now, x)]) b'"
proof (cases rule: reserve_cases [of p n now b])
  case (granted c)
  obtain w where c: "tokens_inv T now xs c" and w: "rb_window_started_at c = Some w" "now < w + minute"
    using tokens_inv_reset [OF inv] reset_window [of now b] granted(1) by auto
  obtain l where l: "rb_tokens_per_minute c = Some l" and cap: "capped T (rb_tokens_per_minute c)"
    using c by (auto simp: rate_inv_defs capped_def)
  note q = counted_tokens [OF cap l granted(4) [OF l]]
  with limit_inv_grant [of T now "tokens_of xs" _ "unat (rb_token_count c)" w "unat (max n 1)"] c w show ?thesis
    by (simp add: granted(2) tokens_inv_def tokens_of_def)
qed (use tokens_inv_reset [OF inv] in simp)

lemma snd_would_limit: "snd (would_limit n now b) = reset_elapsed_window now b"
  by (simp add: would_limit_def Let_def)

lemma requests_inv_step:
  assumes "requests_inv R now xs b" "R < 2 ^ 32 - 1" "requests_capped R c"
  shows "case budget_step p now c b of (x, b') \<Rightarrow>
    requests_inv R now (xs @ (case x of Some x \<Rightarrow> [(now, x)] | None \<Rightarrow> [])) b'"
proof (cases c)
  case (Configure r t)
  then show ?thesis
    using assms by (auto simp: rate_inv_defs requests_capped_def configure_def capped_def
        option_filter_def split: option.splits)
next
  case (Reserve n)
  then show ?thesis
    using requests_inv_reserve [OF assms(1,2), of p n] by (auto split: sum.splits prod.splits)
next
  case (Add_tokens n)
  then show ?thesis
    using requests_inv_reset [OF assms(1)] by (simp add: requests_inv_def add_tokens_def Let_def)
qed (use assms in \<open>simp_all add: requests_inv_reset snd_would_limit budget_snapshot_def Let_def\<close>)

lemma tokens_inv_step:
  assumes "tokens_inv T now xs b" "tokens_capped T c"
  shows "case budget_step p now c b of (x, b') \<Rightarrow>
    tokens_inv T now (xs @ (case x of Some x \<Rightarrow> [(now, x)] | None \<Rightarrow> [])) b'"
proof (cases c)
  case (Configure r t)
  then show ?thesis
    using assms by (auto simp: rate_inv_defs tokens_capped_def configure_def capped_def
        option_filter_def split: option.splits)
next
  case (Reserve n)
  then show ?thesis
    using tokens_inv_reserve [OF assms(1), of p n] by (auto split: sum.splits prod.splits)
next
  case (Add_tokens n)
  then show ?thesis
    using tokens_inv_reset [OF assms(1)]
    by (auto simp: tokens_inv_def add_tokens_def Let_def intro: limit_inv_counted saturating_add_mono)
qed (use assms in \<open>simp_all add: tokens_inv_reset snd_would_limit budget_snapshot_def Let_def\<close>)

text \<open>What the steps at an instant keep holds at the end of a run.\<close>

lemma budget_run_invariant:
  assumes later: "\<And>now now' xs b. I now xs b \<Longrightarrow> now \<le> now' \<Longrightarrow> I now' xs b"
    and step: "\<And>now c xs b. I now xs b \<Longrightarrow> ok c \<Longrightarrow> case budget_step p now c b of (x, b') \<Rightarrow>
      I now (xs @ (case x of Some x \<Rightarrow> [(now, x)] | None \<Rightarrow> [])) b'"
    and "I start xs b" "\<forall>(t, c) \<in> set cs. ok c" "sorted (start # map fst cs)"
  shows "\<exists>now. I now (xs @ fst (budget_run p cs b)) (snd (budget_run p cs b))"
  using assms(3-)
proof (induction cs arbitrary: start xs b)
  case Nil
  then show ?case by auto
next
  case (Cons tc cs)
  obtain now c where tc: "tc = (now, c)" by (cases tc)
  obtain x b' where s: "budget_step p now c b = (x, b')" by (cases "budget_step p now c b")
  have "I now xs b"
    using Cons.prems tc later by auto
  from step [OF this, of c] have "I now (xs @ (case x of Some x \<Rightarrow> [(now, x)] | None \<Rightarrow> [])) b'"
    using Cons.prems tc s by simp
  from Cons.IH [OF this] show ?case
    using Cons.prems tc s by (auto simp: case_prod_beta Let_def)
qed

lemma limit_inv_bound:
  "limit_inv L now G limit counted window \<Longrightarrow> granted_in s (s + minute) G \<le> 2 * L"
  by (auto simp: limit_inv_def windowed_def split: option.splits)

lemma rate_inv_default:
  "capped R r \<Longrightarrow> requests_inv R now [] (configure r t default_budget)"
  "capped T t \<Longrightarrow> tokens_inv T now [] (configure r t default_budget)"
  by (auto simp: rate_inv_defs configure_def default_budget_def capped_def option_filter_def
      requests_of_def tokens_of_def)

lemma requests_run:
  assumes "capped R r" "R < 2 ^ 32 - 1" "\<forall>(now, c) \<in> set calls. requests_capped R c" "sorted (map fst calls)"
  shows "granted_in s (s + minute) (requests_of (fst (budget_run p calls (configure r t default_budget)))) \<le> 2 * R"
proof -
  have "\<exists>now. requests_inv R now ([] @ fst (budget_run p calls (configure r t default_budget)))
      (snd (budget_run p calls (configure r t default_budget)))"
    by (rule budget_run_invariant [of "requests_inv R" "requests_capped R" p 0, OF rate_inv_later(1)
        requests_inv_step [OF _ assms(2)] rate_inv_default(1) [OF assms(1)] assms(3)])
      (use assms(4) in simp_all)
  then show ?thesis
    by (auto simp: requests_inv_def intro: limit_inv_bound)
qed

lemma tokens_run:
  assumes "capped T t" "\<forall>(now, c) \<in> set calls. tokens_capped T c" "sorted (map fst calls)"
  shows "granted_in s (s + minute) (tokens_of (fst (budget_run p calls (configure r t default_budget)))) \<le> 2 * T"
proof -
  have "\<exists>now. tokens_inv T now ([] @ fst (budget_run p calls (configure r t default_budget)))
      (snd (budget_run p calls (configure r t default_budget)))"
    by (rule budget_run_invariant [of "tokens_inv T" "tokens_capped T" p 0, OF rate_inv_later(2)
        tokens_inv_step rate_inv_default(2) [OF assms(1)] assms(2)])
      (use assms(3) in simp_all)
  then show ?thesis
    by (auto simp: tokens_inv_def intro: limit_inv_bound)
qed

section \<open>Runs of the provider statistics\<close>

datatype provider_call =
    Provider_succeeded "64 word option" datetime
  | Provider_failed string datetime
  | Provider_asked
  | Stats_asked

fun provider_step :: "instant \<times> string \<times> provider_call \<Rightarrow> GatewayRuntimeLimiter \<Rightarrow> GatewayRuntimeLimiter" where
  "provider_step (now, p, Provider_succeeded latency wall) l = record_provider_success p latency wall l"
| "provider_step (now, p, Provider_failed reason wall) l = record_provider_failure p reason now wall l"
| "provider_step (now, p, Provider_asked) l = snd (provider_available p now l)"
| "provider_step (now, p, Stats_asked) l = snd (provider_stats_snapshot p now l)"

definition provider_run :: "(instant \<times> string \<times> provider_call) list \<Rightarrow> GatewayRuntimeLimiter \<Rightarrow> GatewayRuntimeLimiter" where
  "provider_run calls l = fold provider_step calls l"

text \<open>The instants of the failures of a provider since its last success, and its latencies.\<close>

fun note_failure :: "string \<Rightarrow> instant \<times> string \<times> provider_call \<Rightarrow> instant list \<Rightarrow> instant list" where
  "note_failure p (now, q, Provider_succeeded latency wall) ts = (if q = p then [] else ts)"
| "note_failure p (now, q, Provider_failed reason wall) ts = (if q = p then ts @ [now] else ts)"
| "note_failure p (now, q, Provider_asked) ts = ts"
| "note_failure p (now, q, Stats_asked) ts = ts"

definition trailing_failures :: "string \<Rightarrow> (instant \<times> string \<times> provider_call) list \<Rightarrow> instant list" where
  "trailing_failures p calls = fold (note_failure p) calls []"

fun latency_of :: "string \<Rightarrow> instant \<times> string \<times> provider_call \<Rightarrow> 64 word list" where
  "latency_of p (now, q, Provider_succeeded (Some latency) wall) = (if q = p then [latency] else [])"
| "latency_of p _ = []"

definition tripped :: "nat \<Rightarrow> instant \<Rightarrow> instant list \<Rightarrow> instant \<Rightarrow> bool" where
  "tripped threshold cooldown ts now \<longleftrightarrow> ts \<noteq> [] \<and> threshold \<le> length ts \<and> now < last ts + cooldown"

text \<open>The invariant: the statistics of a provider against its failures since the last success.\<close>

definition circuit_inv ::
    "32 word \<Rightarrow> instant \<Rightarrow> instant \<Rightarrow> instant list \<Rightarrow> GatewayProviderRuntimeStats \<Rightarrow> bool" where
  "circuit_inv threshold cooldown now ts s \<longleftrightarrow>
     unat (ps_consecutive_failures s) = min (length ts) (2 ^ 32 - 1) \<and>
     (case ps_opened_until s of
        None \<Rightarrow> ts = [] \<or> length ts < unat threshold \<or> last ts + cooldown \<le> now
      | Some u \<Rightarrow> ts \<noteq> [] \<and> unat threshold \<le> length ts \<and> u = last ts + cooldown)"

lemma circuit_inv_later: "circuit_inv k c now ts s \<Longrightarrow> now \<le> now' \<Longrightarrow> circuit_inv k c now' ts s"
  by (auto simp: circuit_inv_def split: option.splits)

lemma circuit_inv_default: "circuit_inv k c now [] default_stats"
  by (simp add: circuit_inv_def default_stats_def)

lemma circuit_inv_open: "circuit_inv k c now ts s \<Longrightarrow> circuit_open now s \<longleftrightarrow> tripped (unat k) c ts now"
  by (auto simp: circuit_inv_def circuit_open_def tripped_def split: option.splits)

lemma circuit_inv_success: "circuit_inv k c now [] (record_success latency wall s)"
  by (simp add: circuit_inv_def record_success_def Let_def split: option.split)

lemma circuit_inv_clear: "circuit_inv k c now ts s \<Longrightarrow> circuit_inv k c now ts (clear_expired_circuit now s)"
  by (auto simp: circuit_inv_def clear_expired_circuit_def split: option.splits)

lemma record_failure_fields:
  "ps_consecutive_failures (record_failure reason now wall k c until s) =
     saturating_add (ps_consecutive_failures s) 1"
  "ps_opened_until (record_failure reason now wall k c until s) =
     (if k \<le> saturating_add (ps_consecutive_failures s) 1 then Some (now + c) else ps_opened_until s)"
  "ps_latency_samples_ms (record_failure reason now wall k c until s) = ps_latency_samples_ms s"
  by (simp_all add: record_failure_def Let_def)

lemma circuit_inv_failure:
  assumes "circuit_inv k c now ts s"
  shows "circuit_inv k c now (ts @ [now]) (record_failure reason now wall k c until s)"
proof -
  have k: "unat k \<le> 2 ^ 32 - 1"
    using unsigned_less [of k, where 'a=nat] by simp
  have n: "unat (saturating_add (ps_consecutive_failures s) 1) = min (length ts + 1) (2 ^ 32 - 1)"
    using assms by (simp add: circuit_inv_def unat_saturating_add)
  then have "k \<le> saturating_add (ps_consecutive_failures s) 1 \<longleftrightarrow> unat k \<le> length ts + 1"
    using k by (simp add: word_le_nat_alt) linarith
  then show ?thesis
    using assms n by (auto simp: circuit_inv_def record_failure_fields split: option.splits)
qed

text \<open>The same for the table of the limiter, whose other fields a run does not touch.\<close>

definition stats_of :: "GatewayRuntimeLimiter \<Rightarrow> string \<Rightarrow> GatewayProviderRuntimeStats" where
  "stats_of l p = unwrap_or default_stats (gl_provider_stats l p)"

lemma provider_available_stats:
  "fst (provider_available p now l) = None \<longleftrightarrow> circuit_open now (stats_of l p)"
  "stats_of (snd (provider_available q now l)) p =
     (if q = p then clear_expired_circuit now (stats_of l p) else stats_of l p)"
  by (auto simp: provider_available_def stats_of_def circuit_open_def clear_expired_circuit_def
        default_stats_def Let_def split: option.splits)

lemma stats_of_step:
  "stats_of (provider_step (now, q, c) l) p =
     (if q \<noteq> p then stats_of l p else case c of
        Provider_succeeded latency wall \<Rightarrow> record_success latency wall (stats_of l p)
      | Provider_failed reason wall \<Rightarrow>
          record_failure reason now wall (gl_circuit_breaker_failure_threshold l)
            (gl_circuit_breaker_cooldown l)
            (Some (wall + int (gl_circuit_breaker_cooldown l div 1000))) (stats_of l p)
      | _ \<Rightarrow> clear_expired_circuit now (stats_of l p))"
proof (cases c)
  case Stats_asked
  then show ?thesis
    by (auto simp: provider_stats_snapshot_def stats_of_def clear_expired_circuit_def
          default_stats_def Let_def split: option.splits)
qed (simp_all add: provider_available_stats, simp_all add: stats_of_def record_provider_success_def
       record_provider_failure_def)

lemma limits_of_step:
  "gl_circuit_breaker_failure_threshold (provider_step e l) = gl_circuit_breaker_failure_threshold l"
  "gl_circuit_breaker_cooldown (provider_step e l) = gl_circuit_breaker_cooldown l"
  by (induction e l rule: provider_step.induct)
    (auto simp: record_provider_success_def record_provider_failure_def provider_available_def
       provider_stats_snapshot_def Let_def split: option.split)

lemma circuit_inv_step:
  assumes "circuit_inv (gl_circuit_breaker_failure_threshold l) (gl_circuit_breaker_cooldown l) now ts (stats_of l p)"
  shows "circuit_inv (gl_circuit_breaker_failure_threshold l) (gl_circuit_breaker_cooldown l) now
     (note_failure p (now, q, c) ts) (stats_of (provider_step (now, q, c) l) p)"
  using assms by (cases c)
    (simp_all add: stats_of_step circuit_inv_success circuit_inv_failure circuit_inv_clear del: provider_step.simps)

lemma circuit_inv_run:
  assumes "circuit_inv (gl_circuit_breaker_failure_threshold l) (gl_circuit_breaker_cooldown l) start ts (stats_of l p)"
    and "sorted (start # map fst calls @ [now])"
  shows "circuit_inv (gl_circuit_breaker_failure_threshold l) (gl_circuit_breaker_cooldown l) now
     (fold (note_failure p) calls ts) (stats_of (provider_run calls l) p)"
  using assms
proof (induction calls arbitrary: start ts l)
  case Nil
  then show ?case by (auto simp: provider_run_def intro: circuit_inv_later)
next
  case (Cons e calls)
  obtain t q c where e: "e = (t, q, c)" by (cases e)
  have "circuit_inv (gl_circuit_breaker_failure_threshold l) (gl_circuit_breaker_cooldown l) t
      (note_failure p e ts) (stats_of (provider_step e l) p)"
    unfolding e using Cons.prems e by (intro circuit_inv_step) (auto intro: circuit_inv_later)
  with Cons.IH [of "provider_step e l" t] Cons.prems e show ?case
    by (simp add: provider_run_def limits_of_step del: provider_step.simps)
qed

section \<open>Latencies\<close>

lemma pop_front_while_over: "pop_front_while_over n xs = drop (length xs - n) xs"
proof (induction xs)
  case (Cons x xs)
  then show ?case by (simp add: Suc_diff_le)
qed simp

lemma samples_of_step:
  "ps_latency_samples_ms (stats_of (provider_step (now, q, c) l) p) =
     (let xs = ps_latency_samples_ms (stats_of l p) @ latency_of p (now, q, c) in
      if latency_of p (now, q, c) = [] then ps_latency_samples_ms (stats_of l p)
      else drop (length xs - 256) xs)"
  by (cases c) (auto simp: stats_of_step record_success_def pop_front_while_over record_failure_fields
      clear_expired_circuit_def Let_def simp del: provider_step.simps split: option.split)

lemma samples_of_run:
  assumes "ps_latency_samples_ms (stats_of l p) = drop (length ys - 256) ys"
  shows "ps_latency_samples_ms (stats_of (provider_run calls l) p) =
     (let xs = ys @ concat (map (latency_of p) calls) in drop (length xs - 256) xs)"
  using assms
proof (induction calls arbitrary: l ys)
  case Nil
  then show ?case by (simp add: provider_run_def)
next
  case (Cons e calls)
  obtain t q c where e: "e = (t, q, c)" by (cases e)
  have one: "length (latency_of p e) \<le> 1"
    by (induction p e rule: latency_of.induct) simp_all
  have "ps_latency_samples_ms (stats_of (provider_step e l) p) =
      (let xs = ys @ latency_of p e in drop (length xs - 256) xs)"
    using Cons.prems one unfolding e samples_of_step by (cases "256 \<le> length ys") (auto simp: Let_def add.commute)
  from Cons.IH [of "provider_step e l" "ys @ latency_of p e"] this show ?case
    by (simp add: provider_run_def Let_def del: provider_step.simps)
qed

lemma sort_eq_Nil [simp]: "sort xs = [] \<longleftrightarrow> xs = []"
  by (metis length_0_conv length_sort)

lemma percentile_Nil [simp]: "percentile_latency [] p = None"
  by (simp add: percentile_latency_def)

lemma percentile_index:
  assumes "n > 0" "p \<le> 100"
  shows "((n - 1) * p + 99) div 100 < (n :: nat) \<and> n * p \<le> 100 * (((n - 1) * p + 99) div 100 + 1)"
proof -
  obtain m where n: "n = Suc m" using assms by (cases n) auto
  have "m * p \<le> m * 100" using assms by simp
  then have "(m * p + 99) div 100 < m + 1" by linarith
  moreover have "m * p \<le> 100 * ((m * p + 99) div 100)" by linarith
  ultimately show ?thesis using assms n by simp
qed

lemma sorted_rank:
  assumes "sorted xs" "i < length xs"
  shows "Suc i \<le> length (filter (\<lambda>y. y \<le> xs ! i) (xs :: 'a::linorder list))"
proof -
  have "filter (\<lambda>y. y \<le> xs ! i) (take (Suc i) xs) = take (Suc i) xs"
    using assms by (intro filter_True) (auto simp: in_set_conv_nth intro!: sorted_nth_mono)
  moreover have "filter (\<lambda>y. y \<le> xs ! i) xs =
      filter (\<lambda>y. y \<le> xs ! i) (take (Suc i) xs) @ filter (\<lambda>y. y \<le> xs ! i) (drop (Suc i) xs)"
    by (metis append_take_drop_id filter_append)
  ultimately show ?thesis using assms by simp
qed

lemma percentile_rank:
  assumes "xs \<noteq> []" "p \<le> 100"
  shows "\<exists>x \<in> set xs. percentile_latency (sort xs) p = Some x \<and>
    length xs * p \<le> 100 * length (filter (\<lambda>y. y \<le> x) xs)"
proof -
  define i where "i = ((length xs - 1) * p + 99) div 100"
  have i: "i < length xs" "length xs * p \<le> 100 * (i + 1)"
    using percentile_index [of "length xs" p] assms by (auto simp: i_def)
  have "Suc i \<le> length (filter (\<lambda>y. y \<le> sort xs ! i) (sort xs))"
    using i by (intro sorted_rank) simp_all
  also have "\<dots> = length (filter (\<lambda>y. y \<le> sort xs ! i) xs)"
    by (simp add: filter_sort)
  finally have "100 * (i + 1) \<le> 100 * length (filter (\<lambda>y. y \<le> sort xs ! i) xs)"
    by simp
  with i(2) have "length xs * p \<le> 100 * length (filter (\<lambda>y. y \<le> sort xs ! i) xs)"
    by (rule order_trans)
  moreover have "sort xs ! i \<in> set xs"
    using i by (metis length_sort nth_mem set_sort)
  moreover have "percentile_latency (sort xs) p = Some (sort xs ! i)"
    using assms i by (simp add: percentile_latency_def i_def min_def Let_def)
  ultimately show ?thesis by blast
qed

lemma percentile_mono:
  assumes "p \<le> q" "q \<le> 100" "percentile_latency (sort xs) p = Some x" "percentile_latency (sort xs) q = Some y"
  shows "x \<le> y"
proof -
  have "xs \<noteq> []" using assms by (auto simp: percentile_latency_def)
  then have "((length xs - 1) * q + 99) div 100 < length xs"
    using percentile_index [of "length xs" q] assms by simp
  moreover have "((length xs - 1) * p + 99) div 100 \<le> ((length xs - 1) * q + 99) div 100"
    using assms by (intro div_le_mono) simp
  ultimately show ?thesis
    using assms \<open>xs \<noteq> []\<close> sorted_nth_mono [OF sorted_sort, of _ _ xs]
    by (auto simp: percentile_latency_def min_def Let_def split: if_splits)
qed


section \<open>Properties\<close>

text \<open>C33: The rates of a profile are bounded, each limit by itself: whatever calls reach its budget, at
  instants that never go back, if every configuration of the profile sets a request limit of at most
  \<open>R\<close>, no interval of a minute sees more than \<open>2 * R\<close> reservations, whether or not tokens are limited;
  and if every configuration sets a token limit of at most \<open>T\<close>, none sees reservations of more than
  \<open>2 * T\<close> tokens, whether or not requests are limited. The factor two is reached at the edge of a
  window. A limit of 0 is no limit, and neither is one of \<open>u32::MAX\<close> requests, since the counter
  saturates there, so \<open>R\<close> is smaller.\<close>

theorem rates_bounded:
  assumes "sorted (map fst calls)"
  shows "let xs = fst (budget_run p calls (configure r t default_budget)) in
     (\<forall>R < 2 ^ 32 - 1. capped R r \<longrightarrow> (\<forall>(now, c) \<in> set calls. requests_capped R c) \<longrightarrow>
       granted_in s (s + minute) (requests_of xs) \<le> 2 * R) \<and>
     (\<forall>T. capped T t \<longrightarrow> (\<forall>(now, c) \<in> set calls. tokens_capped T c) \<longrightarrow>
       granted_in s (s + minute) (tokens_of xs) \<le> 2 * T)"
  using requests_run [OF _ _ _ assms] tokens_run [OF _ _ assms] by (auto simp: Let_def)

definition edge_calls :: "(instant \<times> budget_call) list" where
  "edge_calls = [(0, Would_limit 5), (minute - 2, Reserve 7), (minute - 1, Reserve 3),
     (minute - 1, Reserve 1), (minute, Add_tokens 0), (minute + 1, Reserve 10), (minute + 1, Reserve 0)]"

lemma edge_run:
  "requests_of (fst (budget_run ''p'' edge_calls (configure (Some 2) (Some 20) default_budget))) =
     [(minute - 2, 1), (minute - 1, 1), (minute + 1, 1), (minute + 1, 1)]"
  by (simp add: edge_calls_def minute_def reserve_def reset_elapsed_window_def would_limit_def
        add_tokens_def configure_def option_filter_def default_budget_def saturating_add_def
        requests_of_def Let_def)

text \<open>A profile with both limits, and one with a token limit only.\<close>

theorem rates_bounded_witness:
  "granted_in (minute - 2) (minute - 2 + minute) (requests_of
     (fst (budget_run ''p'' edge_calls (configure (Some 2) (Some 20) default_budget)))) = 2 * 2 \<and>
   granted_in (minute - 2) (minute - 2 + minute) (requests_of
     (fst (budget_run ''p'' edge_calls (configure (Some 2) (Some 20) default_budget)))) \<le> 2 * 2 \<and>
   granted_in (minute - 2) (minute - 2 + minute) (tokens_of
     (fst (budget_run ''p'' edge_calls (configure None (Some 20) default_budget)))) \<le> 2 * 20"
proof (intro conjI)
  have s: "sorted (map fst edge_calls)" and r: "\<forall>(now, c) \<in> set edge_calls. requests_capped 2 c"
    and k: "\<forall>(now, c) \<in> set edge_calls. tokens_capped 20 c"
    by (simp_all add: edge_calls_def requests_capped_def tokens_capped_def minute_def)
  have c: "capped 2 (Some 2)" "capped 20 (Some 20)" by (simp_all add: capped_def)
  note spec = rates_bounded [OF s, unfolded Let_def]
  show "granted_in (minute - 2) (minute - 2 + minute) (requests_of
     (fst (budget_run ''p'' edge_calls (configure (Some 2) (Some 20) default_budget)))) \<le> 2 * 2"
    using spec [THEN conjunct1, rule_format, of 2, OF _ c(1)] r by auto
  show "granted_in (minute - 2) (minute - 2 + minute) (tokens_of
     (fst (budget_run ''p'' edge_calls (configure None (Some 20) default_budget)))) \<le> 2 * 20"
    using spec [THEN conjunct2, rule_format, of 20, OF c(2)] k by auto
qed (simp only: edge_run, simp add: minute_def)

lemma reset_again [simp]: "reset_elapsed_window now (reset_elapsed_window now b) = reset_elapsed_window now b"
  by (auto simp: reset_elapsed_window_def minute_def split: option.splits)

lemma would_limit_reserve:
  "fst (would_limit n now b) = (case fst (reserve p n now b) of Inl e \<Rightarrow> Some e | Inr x \<Rightarrow> None)"
  "reserve p n now (snd (would_limit n now b)) = reserve p n now b"
  by (simp_all add: snd_would_limit) (simp_all add: would_limit_def reserve_def Let_def)

text \<open>C34: The breaker agrees with the history: after any calls that report successes and failures of
  any providers or ask for their state, at instants that never go back, a provider is
  unavailable exactly when its failures since its last success have reached the threshold and the
  last of them is younger than the cooldown. Calls about other providers do not matter.\<close>

theorem circuit_matches_history:
  assumes "sorted (map fst calls @ [now])" and "gl_provider_stats l p = None"
  shows "fst (provider_available p now (provider_run calls l)) = None \<longleftrightarrow>
     tripped (unat (gl_circuit_breaker_failure_threshold l)) (gl_circuit_breaker_cooldown l)
       (trailing_failures p calls) now"
proof -
  have "circuit_inv (gl_circuit_breaker_failure_threshold l) (gl_circuit_breaker_cooldown l) 0 [] (stats_of l p)"
    using assms(2) by (simp add: stats_of_def circuit_inv_default)
  from circuit_inv_run [OF this, of calls now] assms(1) show ?thesis
    unfolding trailing_failures_def by (simp add: provider_available_stats circuit_inv_open)
qed

definition failing_calls :: "(instant \<times> string \<times> provider_call) list" where
  "failing_calls = [(1, ''p'', Provider_succeeded (Some 40) 0), (2, ''p'', Provider_failed ''429'' 0),
     (2, ''q'', Provider_failed ''timeout'' 0), (3, ''p'', Provider_failed ''timeout'' 0),
     (3, ''p'', Provider_asked), (4, ''p'', Provider_failed ''timeout'' 0)]"

theorem circuit_matches_history_witness:
  "fst (provider_available ''p'' 5 (provider_run failing_calls new_limiter)) = None \<and>
   fst (provider_available ''p'' (4 + minute) (provider_run failing_calls new_limiter)) \<noteq> None \<and>
   fst (provider_available ''q'' 5 (provider_run failing_calls new_limiter)) \<noteq> None"
  using circuit_matches_history [of failing_calls 5 new_limiter "''p''"]
    circuit_matches_history [of failing_calls "4 + minute" new_limiter "''p''"]
    circuit_matches_history [of failing_calls 5 new_limiter "''q''"]
  by (simp add: failing_calls_def new_limiter_def trailing_failures_def tripped_def minute_def)

definition last_latencies :: "string \<Rightarrow> (instant \<times> string \<times> provider_call) list \<Rightarrow> 64 word list" where
  "last_latencies p calls = (let xs = concat (map (latency_of p) calls) in drop (length xs - 256) xs)"

definition rank_of :: "nat \<Rightarrow> 64 word list \<Rightarrow> 64 word option \<Rightarrow> bool" where
  "rank_of percent xs v = (case v of None \<Rightarrow> xs = []
     | Some x \<Rightarrow> x \<in> set xs \<and> length xs * percent \<le> 100 * length (filter (\<lambda>y. y \<le> x) xs))"

text \<open>The latencies reported for a provider are percentiles of its last 256 samples: after any
  calls, with \<open>xs\<close> the last 256 latencies reported for it, both percentiles exist exactly when \<open>xs\<close>
  is not empty, are samples of \<open>xs\<close> with at least 50 and 95 percent of \<open>xs\<close> at or below them, and
  are in order.\<close>

theorem latency_percentiles:
  assumes "gl_provider_stats l p = None"
  shows "let xs = last_latencies p calls; s = fst (provider_stats_snapshot p now (provider_run calls l)) in
     rank_of 50 xs (ss_p50_latency_ms s) \<and> rank_of 95 xs (ss_p95_latency_ms s) \<and>
     (case (ss_p50_latency_ms s, ss_p95_latency_ms s) of (Some x, Some y) \<Rightarrow> x \<le> y | _ \<Rightarrow> True)"
proof -
  define xs where "xs = last_latencies p calls"
  define s where "s = fst (provider_stats_snapshot p now (provider_run calls l))"
  have "ps_latency_samples_ms (stats_of (provider_run calls l) p) = xs"
    using samples_of_run [of l p "[]" calls] assms
    by (simp add: xs_def last_latencies_def stats_of_def default_stats_def)
  then have s: "ss_p50_latency_ms s = percentile_latency (sort xs) 50"
    "ss_p95_latency_ms s = percentile_latency (sort xs) 95"
    by (auto simp: s_def provider_stats_snapshot_def stats_of_def default_stats_def
          default_stats_snapshot_def stats_snapshot_def clear_expired_circuit_def Let_def split: option.splits)
  have r: "rank_of k xs (percentile_latency (sort xs) k)" if "k \<le> 100" for k
    using percentile_rank [of xs k] that
    by (cases "xs = []") (auto simp: rank_of_def percentile_latency_def)
  have m: "case (ss_p50_latency_ms s, ss_p95_latency_ms s) of (Some x, Some y) \<Rightarrow> x \<le> y | _ \<Rightarrow> True"
    using percentile_mono [of 50 95 xs] unfolding s by (auto split: option.split)
  show ?thesis
    unfolding Let_def xs_def [symmetric] s_def [symmetric]
    using m r [of 50] r [of 95] by (simp add: s)
qed

theorem latency_percentiles_witness:
  "ss_p95_latency_ms (fst (provider_stats_snapshot ''p'' 9 (provider_run failing_calls new_limiter))) = Some 40 \<and>
   rank_of 95 [40] (ss_p95_latency_ms (fst (provider_stats_snapshot ''p'' 9 (provider_run failing_calls new_limiter))))"
  using latency_percentiles [of new_limiter "''p''" failing_calls 9]
  by (auto simp: new_limiter_def last_latencies_def failing_calls_def Let_def rank_of_def split: option.splits)

text \<open>
  The direct reply asks for the provider, is refused with \<open>CircuitOpen\<close> and reports that refusal as a
  failure of the provider. Each refusal moves the end of the cooldown: while an attempt comes
  within every cooldown, the circuit stays open, whatever the provider could do.
\<close>

definition refused_attempts :: "string \<Rightarrow> instant list \<Rightarrow> (instant \<times> string \<times> provider_call) list" where
  "refused_attempts p ts = concat (map (\<lambda>t. [(t, p, Provider_asked),
     (t, p, Provider_failed (gateway_limit_error_reason CircuitOpen) 0)]) ts)"

fun within :: "instant \<Rightarrow> instant \<Rightarrow> instant list \<Rightarrow> bool" where
  "within cooldown before [] \<longleftrightarrow> True"
| "within cooldown before (t # ts) \<longleftrightarrow> before \<le> t \<and> t < before + cooldown \<and> within cooldown t ts"

lemma note_refused: "fold (note_failure p) (refused_attempts p ts) xs = xs @ ts"
  by (induction ts arbitrary: xs) (simp_all add: refused_attempts_def)

lemma fst_refused: "map fst (refused_attempts p ts) = concat (map (\<lambda>t. [t, t]) ts)"
  by (induction ts) (simp_all add: refused_attempts_def)

lemma sorted_refused:
  "within cooldown before (ts @ [t]) \<Longrightarrow> sorted (before # concat (map (\<lambda>t. [t, t]) ts) @ [t])"
proof (induction ts arbitrary: before)
  case (Cons u ts)
  then have u: "before \<le> u" "u \<le> t" "\<forall>x \<in> set ts. u \<le> x" "sorted (concat (map (\<lambda>t. [t, t]) ts) @ [t])"
    using Cons.IH [of u] by auto
  then have "\<forall>x \<in> set ts. before \<le> x" "before \<le> t" by (auto intro: order_trans [of before u])
  with u show ?case by auto
qed simp

lemma last_within: "within cooldown before (ts @ [t]) \<Longrightarrow> t < last (before # ts) + cooldown"
  by (induction ts arbitrary: before) auto

lemma circuit_kept_open:
  assumes "sorted (map fst calls @ [before])" and "gl_provider_stats l p = None"
    and "trailing_failures p calls \<noteq> []" and "last (trailing_failures p calls) = before"
    and "unat (gl_circuit_breaker_failure_threshold l) \<le> length (trailing_failures p calls)"
    and "within (gl_circuit_breaker_cooldown l) before (ts @ [t])"
  shows "fst (provider_available p t (provider_run (calls @ refused_attempts p ts) l)) = None"
proof -
  let ?k = "gl_circuit_breaker_failure_threshold l" and ?c = "gl_circuit_breaker_cooldown l"
  let ?xs = "trailing_failures p calls"
  have trailing: "fold (note_failure p) (calls @ refused_attempts p ts) [] = ?xs @ ts"
    by (simp add: note_refused trailing_failures_def)
  have "sorted (map fst calls @ concat (map (\<lambda>t. [t, t]) ts) @ [t])"
    using assms(1) sorted_refused [OF assms(6)] by (force simp: sorted_append)
  then have "sorted (0 # map fst (calls @ refused_attempts p ts) @ [t])"
    by (simp add: fst_refused)
  then have "circuit_inv ?k ?c t (fold (note_failure p) (calls @ refused_attempts p ts) [])
      (stats_of (provider_run (calls @ refused_attempts p ts) l) p)"
    by (rule circuit_inv_run [rotated]) (use assms(2) in \<open>simp add: stats_of_def circuit_inv_default\<close>)
  then have "circuit_inv ?k ?c t (?xs @ ts) (stats_of (provider_run (calls @ refused_attempts p ts) l) p)"
    unfolding trailing .
  moreover have "t < last (?xs @ ts) + ?c"
    using last_within [OF assms(6)] assms(3,4) by (auto simp: last_append split: if_splits)
  ultimately show ?thesis
    using assms(3,5) by (simp add: provider_available_stats circuit_inv_open tripped_def)
qed

end
