(* ===== verification/Provider_Redaction.thy ===== *)
theory Provider_Redaction
  imports Prelude
begin

text \<open>
  The redaction of provider errors in \<open>src/crates/llm-gateway/src/lib.rs\<close>: bearer tokens, the values
  of sensitive keys and the paths of home directories are replaced, and the result is cut to 900
  characters. A \<open>String\<close> is its UTF-8 bytes. Each \<open>while let\<close> loop is a recursion with fuel over the
  cursors of the code, and a slice outside the text or off a character boundary, which panics in
  Rust, is \<open>None\<close>; the fuel is one more than the length of the text, which is enough since every
  round moves \<open>search_from\<close> forward. The locale \<open>scanner\<close> states what the three loops share, and the
  loops are shown to be the simple recursion \<open>scan\<close> and never to panic.
\<close>

section \<open>UTF-8\<close>

definition is_ascii :: "char \<Rightarrow> bool" where
  "is_ascii c \<longleftrightarrow> (of_char c :: nat) < 128"

definition in_range :: "nat \<Rightarrow> nat \<Rightarrow> char \<Rightarrow> bool" where
  "in_range a b c \<longleftrightarrow> a \<le> (of_char c :: nat) \<and> (of_char c :: nat) \<le> b"

text \<open>The first and the second byte of the encodings of two, three and four bytes.\<close>

definition two_bytes :: "char \<Rightarrow> char \<Rightarrow> bool" where
  "two_bytes a b \<longleftrightarrow> in_range 0xC2 0xDF a \<and> is_continuation_byte b"

definition three_bytes :: "char \<Rightarrow> char \<Rightarrow> bool" where
  "three_bytes a b \<longleftrightarrow> is_continuation_byte b \<and>
     (in_range 0xE0 0xE0 a \<and> in_range 0xA0 0xBF b \<or> in_range 0xE1 0xEC a \<or>
      in_range 0xED 0xED a \<and> in_range 0x80 0x9F b \<or> in_range 0xEE 0xEF a)"

definition four_bytes :: "char \<Rightarrow> char \<Rightarrow> bool" where
  "four_bytes a b \<longleftrightarrow> is_continuation_byte b \<and>
     (in_range 0xF0 0xF0 a \<and> in_range 0x90 0xBF b \<or> in_range 0xF1 0xF3 a \<or>
      in_range 0xF4 0xF4 a \<and> in_range 0x80 0x8F b)"

fun utf8 :: "string \<Rightarrow> bool" where
  "utf8 [] = True"
| "utf8 (a # s) =
     (if is_ascii a then utf8 s
      else (case s of
          b # t \<Rightarrow> if two_bytes a b then utf8 t
            else (case t of
                c # u \<Rightarrow> if three_bytes a b then is_continuation_byte c \<and> utf8 u
                  else (case u of d # v \<Rightarrow> four_bytes a b \<and> is_continuation_byte c \<and>
                            is_continuation_byte d \<and> utf8 v
                        | [] \<Rightarrow> False)
              | [] \<Rightarrow> False)
        | [] \<Rightarrow> False))"

definition is_char_boundary :: "string \<Rightarrow> nat \<Rightarrow> bool" where
  "is_char_boundary s i \<longleftrightarrow> i = 0 \<or> i = length s \<or> i < length s \<and> \<not> is_continuation_byte (s ! i)"

text \<open>\<open>&s[a..b]\<close>.\<close>

definition slice :: "string \<Rightarrow> nat \<Rightarrow> nat \<Rightarrow> string option" where
  "slice s a b = (if a \<le> b \<and> b \<le> length s \<and> is_char_boundary s a \<and> is_char_boundary s b
     then Some (take (b - a) (drop a s)) else None)"

lemma continuation_not_ascii: "is_ascii c \<Longrightarrow> \<not> is_continuation_byte c"
  by (simp add: is_ascii_def is_continuation_byte_def)

lemma lead_not_ascii:
  "two_bytes a b \<Longrightarrow> \<not> is_ascii a \<and> is_continuation_byte b"
  "three_bytes a b \<Longrightarrow> \<not> is_ascii a \<and> is_continuation_byte b"
  "four_bytes a b \<Longrightarrow> \<not> is_ascii a \<and> is_continuation_byte b"
  by (auto simp: two_bytes_def three_bytes_def four_bytes_def is_ascii_def in_range_def)

lemma lead_distinct: "two_bytes a b \<Longrightarrow> \<not> three_bytes a b'" "two_bytes a b \<Longrightarrow> \<not> four_bytes a b'"
  "three_bytes a b \<Longrightarrow> \<not> four_bytes a b'"
  by (auto simp: two_bytes_def three_bytes_def four_bytes_def in_range_def)

text \<open>A text is the encodings of its characters, one after the other.\<close>

definition encodes_char :: "string \<Rightarrow> bool" where
  "encodes_char w \<longleftrightarrow> (case w of
     [a] \<Rightarrow> is_ascii a
   | [a, b] \<Rightarrow> two_bytes a b
   | [a, b, c] \<Rightarrow> three_bytes a b \<and> is_continuation_byte c
   | [a, b, c, d] \<Rightarrow> four_bytes a b \<and> is_continuation_byte c \<and> is_continuation_byte d
   | _ \<Rightarrow> False)"

lemma encodes_char_cases:
  assumes "encodes_char w"
  obtains a where "w = [a]" "is_ascii a"
    | a b where "w = [a, b]" "two_bytes a b"
    | a b c where "w = [a, b, c]" "three_bytes a b" "is_continuation_byte c"
    | a b c d where "w = [a, b, c, d]" "four_bytes a b" "is_continuation_byte c" "is_continuation_byte d"
  using assms by (auto simp: encodes_char_def split: list.splits)

lemma utf8_append_char: "encodes_char w \<Longrightarrow> utf8 (w @ s) = utf8 s"
  by (erule encodes_char_cases) (auto simp: lead_not_ascii dest: lead_not_ascii lead_distinct)

lemma utf8_first_char:
  assumes "utf8 s" "s \<noteq> []"
  obtains w t where "s = w @ t" "encodes_char w" "utf8 t"
proof -
  obtain a r where s: "s = a # r" using assms by (cases s) auto
  have u: "utf8 (a # r)" using assms s by simp
  show ?thesis
  proof (cases "is_ascii a")
    case True
    then show ?thesis using u that [of "[a]" r] s by (simp add: encodes_char_def)
  next
    case False
    then obtain b t where r: "r = b # t" using u by (cases r) auto
    show ?thesis
    proof (cases "two_bytes a b")
      case True
      then show ?thesis using False u that [of "[a, b]" t] s r by (simp add: encodes_char_def)
    next
      case two: False
      then obtain c v where t: "t = c # v" using False u r by (cases t) auto
      show ?thesis
      proof (cases "three_bytes a b")
        case True
        then show ?thesis using False two u that [of "[a, b, c]" v] s r t by (simp add: encodes_char_def)
      next
        case three: False
        then obtain d x where v: "v = d # x" using False two u r t by (cases v) auto
        show ?thesis using False two three u that [of "[a, b, c, d]" x] s r t v by (simp add: encodes_char_def)
      qed
    qed
  qed
qed

lemma utf8_induct [consumes 1, case_names Nil Char]:
  assumes "utf8 s" "P []" "\<And>w s. encodes_char w \<Longrightarrow> utf8 s \<Longrightarrow> P s \<Longrightarrow> P (w @ s)"
  shows "P s"
  using assms(1)
proof (induction "length s" arbitrary: s rule: less_induct)
  case less
  show ?case
  proof (cases "s = []")
    case False
    with less.prems obtain w t where "s = w @ t" "encodes_char w" "utf8 t"
      by (rule utf8_first_char)
    moreover from this have "w \<noteq> []" by (auto simp: encodes_char_def)
    ultimately show ?thesis using less.hyps [of t] assms(3) by simp
  qed (simp add: assms(2))
qed

lemma utf8_append: "utf8 s \<Longrightarrow> utf8 (s @ t) = utf8 t"
  by (induction rule: utf8_induct) (simp_all add: utf8_append_char)

lemma encodes_char_bytes:
  assumes "encodes_char w"
  shows "\<not> is_continuation_byte (hd w)" "\<forall>c \<in> set (tl w). is_continuation_byte c" "w \<noteq> []"
proof -
  have "two_bytes a b \<Longrightarrow> \<not> is_continuation_byte a" "three_bytes a b \<Longrightarrow> \<not> is_continuation_byte a"
    "four_bytes a b \<Longrightarrow> \<not> is_continuation_byte a" for a b
    by (auto simp: two_bytes_def three_bytes_def four_bytes_def in_range_def is_continuation_byte_def)
  with assms show "\<not> is_continuation_byte (hd w)" "\<forall>c \<in> set (tl w). is_continuation_byte c" "w \<noteq> []"
    by (auto elim!: encodes_char_cases simp: continuation_not_ascii dest: lead_not_ascii)
qed

text \<open>Cutting a text in front of a byte that starts a character leaves two texts.\<close>

lemma utf8_cut:
  assumes "utf8 (x @ y)" "y = [] \<or> \<not> is_continuation_byte (hd y)"
  shows "utf8 x \<and> utf8 y"
  using assms
proof (induction "x @ y" arbitrary: x rule: utf8_induct)
  case Nil
  then show ?case by simp
next
  case (Char w s)
  show ?case
  proof (cases "length w \<le> length x")
    case True
    with Char.hyps(4) obtain z where x: "x = w @ z" "s = z @ y"
      by (metis append_eq_append_conv_if append_eq_conv_conj append_take_drop_id)
    then show ?thesis
      using Char.hyps(3) [of z] Char.prems Char.hyps(1) by (simp add: utf8_append_char)
  next
    case False
    show ?thesis
    proof (cases x)
      case (Cons c x')
      obtain z where z: "w = x @ z" "y = z @ s" "z \<noteq> []"
        using False Char.hyps(4)
        by (metis append_eq_append_conv2 append_Nil2 le_refl length_append le_add1)
      then have "hd z \<in> set (tl w)" using Cons by simp
      with z encodes_char_bytes [OF Char.hyps(1)] Char.prems show ?thesis by simp
    qed (use Char in \<open>auto simp: utf8_append_char\<close>)
  qed
qed

lemma utf8_cut_after:
  assumes "utf8 (x @ a # y)" "is_ascii a"
  shows "utf8 x \<and> utf8 y"
  using utf8_cut [of x "a # y"] assms by (simp add: continuation_not_ascii)

lemma utf8_boundary: "utf8 (x @ y) \<Longrightarrow> utf8 x \<Longrightarrow> is_char_boundary (x @ y) (length x)"
proof -
  assume "utf8 (x @ y)" "utf8 x"
  then have y: "utf8 y" by (simp add: utf8_append)
  show ?thesis
  proof (cases "y = []")
    case False
    with y obtain w t where "y = w @ t" "encodes_char w" by (rule utf8_first_char)
    with encodes_char_bytes [of w] show ?thesis
      by (cases w) (auto simp: is_char_boundary_def nth_append)
  qed (simp add: is_char_boundary_def)
qed

section \<open>The passes of the redaction\<close>

definition REDACTED_VALUE :: string where "REDACTED_VALUE = ''[redacted]''"
definition REDACTED_PATH :: string where "REDACTED_PATH = ''[redacted-path]''"
definition PROVIDER_ERROR_MAX_CHARS :: nat where "PROVIDER_ERROR_MAX_CHARS = 900"

definition is_ascii_whitespace :: "char \<Rightarrow> bool" where
  "is_ascii_whitespace c \<longleftrightarrow> (of_char c :: nat) \<in> {9, 10, 12, 13, 32}"

definition is_secret_value_delimiter :: "char \<Rightarrow> bool" where
  "is_secret_value_delimiter c \<longleftrightarrow> is_ascii_whitespace c \<or> c \<in> set '',;}]&''"

definition is_secret_path_delimiter :: "char \<Rightarrow> bool" where
  "is_secret_path_delimiter c \<longleftrightarrow> is_ascii_whitespace c \<or> c \<in> set '',;}]'' \<or> of_char c = (34 :: nat) \<or> of_char c = (39 :: nat)"

text \<open>\<open>str::find\<close>, and the loops \<open>while i < bytes.len() && p(bytes[i]) { i += 1 }\<close>.\<close>

fun find_text :: "string \<Rightarrow> string \<Rightarrow> nat option" where
  "find_text p [] = (if p = [] then Some 0 else None)"
| "find_text p (c # s) = (if starts_with p (c # s) then Some 0 else map_option Suc (find_text p s))"

definition skip_while :: "(char \<Rightarrow> bool) \<Rightarrow> string \<Rightarrow> nat \<Rightarrow> nat" where
  "skip_while p s i = i + length (takeWhile p (drop i s))"

fun bearer_loop :: "nat \<Rightarrow> string \<Rightarrow> string \<Rightarrow> nat \<Rightarrow> nat \<Rightarrow> string \<Rightarrow> string option" where
  "bearer_loop 0 input lower cursor search_from out = None"
| "bearer_loop (Suc fuel) input lower cursor search_from out = (
     let finish = map_option (\<lambda>t. out @ t) (slice input cursor (length input)) in
     case slice lower search_from (length lower) of None \<Rightarrow> None
     | Some hay \<Rightarrow> (case find_text ''bearer'' hay of None \<Rightarrow> finish
     | Some relative_index \<Rightarrow>
        let bearer_start = search_from + relative_index;
            value_start = skip_while is_ascii_whitespace input (bearer_start + length ''bearer'') in
        if value_start \<ge> length input then finish
        else
          let value_end = skip_while (\<lambda>c. \<not> is_secret_value_delimiter c) input value_start;
              search_from = max value_end (bearer_start + length ''bearer'') in
          if value_end > value_start then
            (case slice input cursor value_start of None \<Rightarrow> None
             | Some t \<Rightarrow> bearer_loop fuel input lower value_end search_from (out @ t @ REDACTED_VALUE))
          else bearer_loop fuel input lower cursor search_from out))"

definition redact_bearer_tokens :: "string \<Rightarrow> string option" where
  "redact_bearer_tokens input =
     bearer_loop (Suc (length input)) input (to_ascii_lowercase input) 0 0 []"

definition is_key_padding :: "char \<Rightarrow> bool" where
  "is_key_padding c \<longleftrightarrow> (of_char c :: nat) \<in> {32, 9, 39, 34}"

definition is_quote :: "char \<Rightarrow> bool" where
  "is_quote c \<longleftrightarrow> (of_char c :: nat) \<in> {39, 34}"

text \<open>Where the value at \<open>value_start\<close> starts, after its quote if it has one, and where it ends.\<close>

definition key_value_range :: "string \<Rightarrow> nat \<Rightarrow> nat \<times> nat" where
  "key_value_range input value_start =
     (if value_start < length input \<and> is_quote (input ! value_start)
      then (value_start + 1, skip_while (\<lambda>c. c \<noteq> input ! value_start) input (value_start + 1))
      else (value_start, skip_while (\<lambda>c. \<not> is_secret_value_delimiter c) input value_start))"

fun key_loop ::
    "nat \<Rightarrow> string \<Rightarrow> string \<Rightarrow> string \<Rightarrow> nat \<Rightarrow> nat \<Rightarrow> string \<Rightarrow> string option" where
  "key_loop 0 input lower key cursor search_from out = None"
| "key_loop (Suc fuel) input lower key cursor search_from out = (
     case slice lower search_from (length lower) of None \<Rightarrow> None
     | Some hay \<Rightarrow> (case find_text key hay of
        None \<Rightarrow> map_option (\<lambda>t. out @ t) (slice input cursor (length input))
     | Some relative_index \<Rightarrow>
        let key_start = search_from + relative_index;
            separator_index = skip_while is_key_padding input (key_start + length key) in
        if separator_index \<ge> length input \<or> input ! separator_index \<notin> {CHR '':'', CHR ''=''}
        then key_loop fuel input lower key cursor (key_start + length key) out
        else
          let (value_start, value_end) =
                key_value_range input (skip_while is_ascii_whitespace input (separator_index + 1));
              search_from = max value_end (key_start + length key) in
          if value_end > value_start then
            (case slice input cursor value_start of None \<Rightarrow> None
             | Some t \<Rightarrow> key_loop fuel input lower key value_end search_from (out @ t @ REDACTED_VALUE))
          else key_loop fuel input lower key cursor search_from out))"

definition redact_sensitive_key_values :: "string \<Rightarrow> string \<Rightarrow> string option" where
  "redact_sensitive_key_values input key =
     key_loop (Suc (length input)) input (to_ascii_lowercase input) (to_ascii_lowercase key) 0 0 []"

fun prefix_loop ::
    "nat \<Rightarrow> string \<Rightarrow> string \<Rightarrow> string \<Rightarrow> nat \<Rightarrow> nat \<Rightarrow> string \<Rightarrow> string option" where
  "prefix_loop 0 input prefix replacement cursor search_from out = None"
| "prefix_loop (Suc fuel) input prefix replacement cursor search_from out = (
     case slice input search_from (length input) of None \<Rightarrow> None
     | Some hay \<Rightarrow> (case find_text prefix hay of
        None \<Rightarrow> map_option (\<lambda>t. out @ t) (slice input cursor (length input))
     | Some relative_index \<Rightarrow>
        let value_start = search_from + relative_index;
            value_end = skip_while (\<lambda>c. \<not> is_secret_path_delimiter c) input value_start in
        (case slice input cursor value_start of None \<Rightarrow> None
         | Some t \<Rightarrow> prefix_loop fuel input prefix replacement value_end value_end (out @ t @ replacement))))"

definition redact_value_with_prefix :: "string \<Rightarrow> string \<Rightarrow> string \<Rightarrow> string option" where
  "redact_value_with_prefix input prefix replacement =
     prefix_loop (Suc (length input)) input prefix replacement 0 0 []"

definition SENSITIVE_KEYS :: "string list" where
  "SENSITIVE_KEYS = [''authorization'', ''api_key'', ''api-key'', ''apikey'', ''x-api-key'',
     ''access_token'', ''refresh_token'', ''id_token'', ''cookie'', ''set-cookie'', ''secret'',
     ''password'']"

definition SECRET_PATHS :: "string list" where
  "SECRET_PATHS = [''C:'' @ [byte 92] @ ''Users'' @ [byte 92], ''/Users/'', ''/home/'']"

definition redact_secret_paths :: "string \<Rightarrow> string option" where
  "redact_secret_paths input = fold (\<lambda>prefix current. Option.bind current
     (\<lambda>t. redact_value_with_prefix t prefix REDACTED_PATH)) SECRET_PATHS (Some input)"

text \<open>\<open>chars().count()\<close> and \<open>chars().take(n)\<close>.\<close>

definition chars_count :: "string \<Rightarrow> nat" where
  "chars_count s = length (filter (\<lambda>c. \<not> is_continuation_byte c) s)"

function take_chars :: "nat \<Rightarrow> string \<Rightarrow> string" where
  "take_chars 0 s = []"
| "take_chars (Suc n) [] = []"
| "take_chars (Suc n) (c # s) =
     c # takeWhile is_continuation_byte s @ take_chars n (dropWhile is_continuation_byte s)"
  by pat_completeness auto
termination by (relation "measure fst") auto

definition truncate_provider_error :: "string \<Rightarrow> string" where
  "truncate_provider_error input =
     (if chars_count input \<le> PROVIDER_ERROR_MAX_CHARS then input
      else take_chars PROVIDER_ERROR_MAX_CHARS input @ ''... [truncated]'')"

definition redact_provider_error :: "string \<Rightarrow> string option" where
  "redact_provider_error message =
     map_option truncate_provider_error
       (Option.bind (fold (\<lambda>key current. Option.bind current (\<lambda>t. redact_sensitive_key_values t key))
          SENSITIVE_KEYS (redact_bearer_tokens message)) redact_secret_paths)"

section \<open>Scanning\<close>

text \<open>
  \<open>next s\<close> says what a pass does with the text from \<open>search_from\<close> on: nothing any more, or keep \<open>n\<close>
  bytes and hide the \<open>m\<close> bytes after them.
\<close>

function scan :: "(string \<Rightarrow> (nat \<times> nat) option) \<Rightarrow> string \<Rightarrow> string \<Rightarrow> string" where
  "scan next mark s = (case next s of
     None \<Rightarrow> s
   | Some (n, m) \<Rightarrow> if 0 < n + m \<and> n + m \<le> length s
       then take n s @ (if 0 < m then mark else []) @ scan next mark (drop (n + m) s) else s)"
  by pat_completeness auto
termination by (relation "measure (\<lambda>(next, mark, s). length s)") auto

declare scan.simps [simp del]

fun scan_loop ::
    "(string \<Rightarrow> (nat \<times> nat) option) \<Rightarrow> string \<Rightarrow> nat \<Rightarrow> string \<Rightarrow> nat \<Rightarrow> nat \<Rightarrow> string \<Rightarrow> string option" where
  "scan_loop next mark 0 input cursor search_from out = None"
| "scan_loop next mark (Suc fuel) input cursor search_from out =
     (if is_char_boundary input search_from \<and> search_from \<le> length input
      then case next (drop search_from input) of
          None \<Rightarrow> map_option (\<lambda>t. out @ t) (slice input cursor (length input))
        | Some (n, m) \<Rightarrow> if 0 < m
            then (case slice input cursor (search_from + n) of None \<Rightarrow> None
              | Some t \<Rightarrow> scan_loop next mark fuel input (search_from + n + m) (search_from + n + m) (out @ t @ mark))
            else scan_loop next mark fuel input cursor (search_from + n) out
      else None)"

locale scanner =
  fixes "next" :: "string \<Rightarrow> (nat \<times> nat) option" and mark :: string
  assumes moves: "next s = Some (n, m) \<Longrightarrow> 0 < n + m \<and> n + m \<le> length s"
    and cuts: "utf8 s \<Longrightarrow> next s = Some (n, m) \<Longrightarrow> utf8 (take n s) \<and> utf8 (take (n + m) s)"
    and mark_utf8: "utf8 mark"
begin

lemma scan_None: "next s = None \<Longrightarrow> scan next mark s = s"
  by (simp add: scan.simps)

lemma scan_Some: "next s = Some (n, m) \<Longrightarrow>
    scan next mark s = take n s @ (if 0 < m then mark else []) @ scan next mark (drop (n + m) s)"
  using moves [of s n m] by (simp add: scan.simps [of "next" mark s])

lemma utf8_rest: "utf8 s \<Longrightarrow> next s = Some (n, m) \<Longrightarrow> utf8 (drop (n + m) s)"
  using cuts [of s n m] utf8_append [of "take (n + m) s" "drop (n + m) s"] by simp

lemma utf8_scan: "utf8 s \<Longrightarrow> utf8 (scan next mark s)"
proof (induction s rule: measure_induct_rule [where f = length])
  case (less s)
  show ?case
  proof (cases "next s")
    case (Some nm)
    obtain n m where nm: "nm = (n, m)" by (cases nm)
    have "utf8 (scan next mark (drop (n + m) s))"
      using less.IH less.prems Some nm moves [of s n m] utf8_rest by auto
    with less.prems Some nm show ?thesis
      using cuts mark_utf8 by (simp add: scan_Some utf8_append)
  qed (use less in \<open>simp add: scan_None\<close>)
qed

text \<open>With enough fuel the loop returns, and what it returns is the scan.\<close>

lemma loop_scan:
  assumes "utf8 x" "utf8 y" "utf8 s" "length s < fuel"
  shows "scan_loop next mark fuel (x @ y @ s) (length x) (length x + length y) out =
    Some (out @ y @ scan next mark s)"
  using assms
proof (induction fuel arbitrary: x y s out)
  case (Suc fuel)
  have b: "is_char_boundary (x @ y @ s) (length x)" "is_char_boundary (x @ y @ s) (length x + length y)"
    using Suc.prems utf8_boundary [of x "y @ s"] utf8_boundary [of "x @ y" s] by (simp_all add: utf8_append)
  show ?case
  proof (cases "next s")
    case None
    then show ?thesis
      using b by (simp add: slice_def is_char_boundary_def scan_None)
  next
    case (Some nm)
    obtain n m where nm: "nm = (n, m)" by (cases nm)
    have mv: "0 < n + m" "n + m \<le> length s" using moves [of s n m] Some nm by auto
    have u: "utf8 (take n s)" "utf8 (take (n + m) s)" "utf8 (drop (n + m) s)"
      using cuts utf8_rest Suc.prems Some nm by auto
    show ?thesis
    proof (cases "0 < m")
      case True
      have c: "is_char_boundary (x @ y @ s) (length x + length y + n)"
        using utf8_boundary [of "x @ y @ take n s" "drop n s"] Suc.prems u mv by (simp add: utf8_append ac_simps)
      have t: "slice (x @ y @ s) (length x) (length x + length y + n) = Some (y @ take n s)"
        using b(1) c mv by (simp add: slice_def)
      have fuel: "length s - (n + m) < fuel" using Suc.prems mv by linarith
      have "scan_loop next mark fuel ((x @ y @ take (n + m) s) @ [] @ drop (n + m) s)
          (length (x @ y @ take (n + m) s)) (length (x @ y @ take (n + m) s) + length ([] :: string))
          ((out @ y @ take n s) @ mark) =
        Some (((out @ y @ take n s) @ mark) @ [] @ scan next mark (drop (n + m) s))"
        by (rule Suc.IH) (use Suc.prems u fuel in \<open>simp_all add: utf8_append\<close>)
      then show ?thesis
        using True Some nm t b mv by (simp add: scan_Some ac_simps)
    next
      case False
      have "scan_loop next mark fuel (x @ (y @ take n s) @ drop n s) (length x)
          (length x + length (y @ take n s)) out =
        Some (out @ (y @ take n s) @ scan next mark (drop n s))"
        by (rule Suc.IH) (use Suc.prems u mv False in \<open>simp_all add: utf8_append\<close>)
      then show ?thesis
        using False Some nm b mv by (simp add: scan_Some ac_simps)
    qed
  qed
qed simp

lemma loop_total: "utf8 s \<Longrightarrow> scan_loop next mark (Suc (length s)) s 0 0 [] = Some (scan next mark s)"
  using loop_scan [of "[]" "[]" s "Suc (length s)" "[]"] by simp

end

section \<open>The passes are scans\<close>

lemma lower_ascii: "is_ascii (to_ascii_lowercase s ! i) = is_ascii (s ! i)" if "i < length s"
  using that by (auto simp: to_ascii_lowercase_def is_ascii_def Let_def)

lemma length_lower [simp]: "length (to_ascii_lowercase s) = length s"
  by (simp add: to_ascii_lowercase_def)

lemma drop_lower: "drop n (to_ascii_lowercase s) = to_ascii_lowercase (drop n s)"
  by (simp add: to_ascii_lowercase_def drop_map)

lemma boundary_lower: "is_char_boundary (to_ascii_lowercase s) i = is_char_boundary s i"
proof -
  have "is_continuation_byte (to_ascii_lowercase s ! i) = is_continuation_byte (s ! i)" if "i < length s"
    using that by (simp add: to_ascii_lowercase_def is_continuation_byte_def Let_def)
  then show ?thesis by (auto simp: is_char_boundary_def)
qed

lemma slice_lower:
  "slice (to_ascii_lowercase s) i (length s) =
     (if i \<le> length s \<and> is_char_boundary s i then Some (to_ascii_lowercase (drop i s)) else None)"
  using boundary_lower [of s "length s"]
  by (simp add: slice_def boundary_lower drop_lower) (simp add: is_char_boundary_def)

lemma slice_end:
  "slice s i (length s) = (if i \<le> length s \<and> is_char_boundary s i then Some (drop i s) else None)"
  by (auto simp: slice_def is_char_boundary_def)

lemma find_text_SomeD: "find_text p s = Some i \<Longrightarrow> i + length p \<le> length s \<and> take (length p) (drop i s) = p"
proof (induction s arbitrary: i)
  case (Cons c s)
  show ?case
  proof (cases "starts_with p (c # s)")
    case True
    then have "take (length p) (c # s) = p" by (simp add: starts_with_def)
    moreover from this have "length p \<le> length (c # s)" by (metis length_take min.cobounded1)
    ultimately show ?thesis using Cons.prems True by simp
  next
    case False
    with Cons.prems Cons.IH show ?thesis by auto
  qed
qed (auto split: if_splits)

lemma find_text_byte: "find_text p s = Some i \<Longrightarrow> k < length p \<Longrightarrow> s ! (i + k) = p ! k"
  using find_text_SomeD [of p s i] by (metis add_leD1 nth_drop nth_take)

lemma skip_while_bounds:
  assumes "i \<le> length s"
  shows "i \<le> skip_while p s i" "skip_while p s i \<le> length s"
  using assms length_takeWhile_le [of p "drop i s"] by (simp_all add: skip_while_def)

lemma skip_while_stop: "skip_while p s i < length s \<Longrightarrow> i \<le> length s \<Longrightarrow> \<not> p (s ! skip_while p s i)"
  using nth_length_takeWhile [of p "drop i s"] by (simp add: skip_while_def)

lemma skip_while_skipped: "i \<le> k \<Longrightarrow> k < skip_while p s i \<Longrightarrow> p (s ! k)"
proof -
  assume k: "i \<le> k" "k < skip_while p s i"
  then have "k - i < length (takeWhile p (drop i s))" by (simp add: skip_while_def)
  then have "p (takeWhile p (drop i s) ! (k - i))" by (meson nth_mem set_takeWhileD)
  with \<open>k - i < _\<close> k show "p (s ! k)"
    using length_takeWhile_le [of p "drop i s"] by (simp add: takeWhile_nth)
qed

lemma skip_while_drop: "skip_while p input (a + i) = a + skip_while p (drop a input) i"
  by (simp add: skip_while_def ac_simps)

lemma utf8_take_before: "utf8 s \<Longrightarrow> n < length s \<Longrightarrow> is_ascii (s ! n) \<Longrightarrow> utf8 (take n s)"
  using utf8_cut [of "take n s" "drop n s"] by (simp add: continuation_not_ascii hd_drop_conv_nth)

lemma utf8_take_after:
  assumes "utf8 s" "n \<le> length s" "0 < n" "is_ascii (s ! (n - 1))"
  shows "utf8 (take n s)"
proof -
  have "utf8 (take (n - 1) s)" using assms by (intro utf8_take_before) auto
  moreover have "take n s = take (n - 1) s @ [s ! (n - 1)]"
    using assms take_Suc_conv_app_nth [of "n - 1" s] by simp
  ultimately show ?thesis using assms by (simp add: utf8_append)
qed

lemma delimiter_ascii: "is_secret_value_delimiter c \<Longrightarrow> is_ascii c" "is_secret_path_delimiter c \<Longrightarrow> is_ascii c"
  "is_ascii_whitespace c \<Longrightarrow> is_ascii c" "is_key_padding c \<Longrightarrow> is_ascii c" "is_quote c \<Longrightarrow> is_ascii c"
  by (auto simp: is_secret_value_delimiter_def is_secret_path_delimiter_def is_ascii_whitespace_def
      is_key_padding_def is_quote_def is_ascii_def)

text \<open>The end of a run of bytes that stops at an ASCII byte, and the end of a run of ASCII bytes.\<close>

lemma utf8_take_skip:
  assumes "utf8 s" "i \<le> length s" "\<And>c. \<not> p c \<Longrightarrow> is_ascii c"
  shows "utf8 (take (skip_while p s i) s)"
proof (cases "skip_while p s i < length s")
  case True
  then show ?thesis using assms skip_while_stop [of p s i] by (intro utf8_take_before) auto
qed (use assms in simp)

lemma utf8_take_skip_ascii:
  assumes "utf8 s" "0 < i" "i \<le> length s" "is_ascii (s ! (i - 1))" "\<And>c. p c \<Longrightarrow> is_ascii c"
  shows "is_ascii (s ! (skip_while p s i - 1))" "utf8 (take (skip_while p s i) s)"
proof -
  show a: "is_ascii (s ! (skip_while p s i - 1))"
  proof (cases "i = skip_while p s i")
    case False
    then have "i \<le> skip_while p s i - 1" "skip_while p s i - 1 < skip_while p s i"
      using skip_while_bounds(1) [OF assms(3), of p] by linarith+
    then show ?thesis using assms(5) skip_while_skipped by blast
  qed (use assms in metis)
  show "utf8 (take (skip_while p s i) s)"
    using assms a skip_while_bounds [OF assms(3), of p] by (intro utf8_take_after) auto
qed

definition bearer_next :: "string \<Rightarrow> (nat \<times> nat) option" where
  "bearer_next s = (case find_text ''bearer'' (to_ascii_lowercase s) of None \<Rightarrow> None
     | Some i \<Rightarrow> let v = skip_while is_ascii_whitespace s (i + 6) in
         if v \<ge> length s then None
         else Some (v, skip_while (\<lambda>c. \<not> is_secret_value_delimiter c) s v - v))"

definition key_next :: "string \<Rightarrow> string \<Rightarrow> (nat \<times> nat) option" where
  "key_next key s = (case find_text key (to_ascii_lowercase s) of None \<Rightarrow> None
     | Some i \<Rightarrow> let sep = skip_while is_key_padding s (i + length key) in
         if sep \<ge> length s \<or> s ! sep \<notin> {CHR '':'', CHR ''=''} then Some (i + length key, 0)
         else let (v, e) = key_value_range s (skip_while is_ascii_whitespace s (sep + 1)) in Some (v, e - v))"

definition prefix_next :: "string \<Rightarrow> string \<Rightarrow> (nat \<times> nat) option" where
  "prefix_next prefix s = (case find_text prefix s of None \<Rightarrow> None
     | Some i \<Rightarrow> Some (i, skip_while (\<lambda>c. \<not> is_secret_path_delimiter c) s i - i))"

definition ascii_text :: "string \<Rightarrow> bool" where
  "ascii_text s \<longleftrightarrow> s \<noteq> [] \<and> list_all is_ascii s"

lemma found_lower:
  assumes "find_text p (to_ascii_lowercase s) = Some i" "ascii_text p"
  shows "0 < i + length p" "i + length p \<le> length s" "is_ascii (s ! (i + length p - 1))"
proof -
  show "0 < i + length p" "i + length p \<le> length s"
    using assms find_text_SomeD [OF assms(1)] by (auto simp: ascii_text_def)
  have "to_ascii_lowercase s ! (i + (length p - 1)) = p ! (length p - 1)"
    using assms by (intro find_text_byte) (auto simp: ascii_text_def)
  moreover have "is_ascii (p ! (length p - 1))"
    using assms(2) by (simp add: ascii_text_def list_all_length)
  ultimately have "is_ascii (to_ascii_lowercase s ! (i + (length p - 1)))" by simp
  moreover have "i + (length p - 1) = i + length p - 1" "i + length p - 1 < length s"
    using assms \<open>i + length p \<le> length s\<close> by (auto simp: ascii_text_def Suc_le_eq neq_Nil_conv)
  ultimately show "is_ascii (s ! (i + length p - 1))" by (metis lower_ascii)
qed

lemma range_cuts:
  assumes "utf8 s" "0 < v" "v \<le> length s" "is_ascii (s ! (v - 1))" "\<And>c. \<not> p c \<Longrightarrow> is_ascii c"
  shows "utf8 (take v s)" "utf8 (take (skip_while p s v) s)"
  using assms utf8_take_after utf8_take_skip by auto

interpretation bearer: scanner bearer_next REDACTED_VALUE
proof
  fix s n m assume step: "bearer_next s = Some (n, m)"
  then obtain i where i: "find_text ''bearer'' (to_ascii_lowercase s) = Some i"
      and n: "n = skip_while is_ascii_whitespace s (i + 6)" "n < length s"
      and m: "m = skip_while (\<lambda>c. \<not> is_secret_value_delimiter c) s n - n"
    by (auto simp: bearer_next_def Let_def split: option.splits if_splits)
  have b: "0 < i + 6" "i + 6 \<le> length s" "is_ascii (s ! (i + 6 - 1))"
    using found_lower [OF i] by (simp_all add: ascii_text_def is_ascii_def eval_nat_numeral)
  have nb: "i + 6 \<le> n" unfolding n(1) by (rule skip_while_bounds [OF b(2)])
  have nm: "n + m = skip_while (\<lambda>c. \<not> is_secret_value_delimiter c) s n" "n + m \<le> length s"
    using skip_while_bounds [of n s "\<lambda>c. \<not> is_secret_value_delimiter c"] n(2) m by auto
  show "0 < n + m \<and> n + m \<le> length s" using nb nm by simp
  assume u: "utf8 s"
  have "is_ascii (s ! (n - 1))"
    unfolding n(1) using u b by (intro utf8_take_skip_ascii) (auto intro: delimiter_ascii)
  with u nb n(2) nm(1) show "utf8 (take n s) \<and> utf8 (take (n + m) s)"
    using range_cuts [of s n "\<lambda>c. \<not> is_secret_value_delimiter c"] delimiter_ascii by auto
qed (simp add: REDACTED_VALUE_def is_ascii_def)

lemma key_value_range_bounds:
  assumes "key_value_range s w = (v, e)" "w \<le> length s"
  shows "w \<le> v" "v \<le> e" "e \<le> length s"
  using assms skip_while_bounds [of "w + 1" s] skip_while_bounds [of w s]
  by (auto simp: key_value_range_def split: if_splits)

lemma key_value_range_cuts:
  assumes "key_value_range s w = (v, e)" "0 < w" "w \<le> length s" "utf8 s" "is_ascii (s ! (w - 1))"
  shows "utf8 (take v s)" "utf8 (take e s)"
proof -
  have "utf8 (take v s) \<and> utf8 (take e s)"
  proof (cases "w < length s \<and> is_quote (s ! w)")
    case True
    then have "is_ascii (s ! w)" by (simp add: delimiter_ascii)
    then show ?thesis
      using True assms range_cuts [of s "w + 1" "\<lambda>c. c \<noteq> s ! w"] by (auto simp: key_value_range_def)
  next
    case False
    then show ?thesis
      using assms range_cuts [of s w "\<lambda>c. \<not> is_secret_value_delimiter c"] delimiter_ascii
      by (auto simp: key_value_range_def)
  qed
  then show "utf8 (take v s)" "utf8 (take e s)" by simp_all
qed

lemma key_next_cases:
  assumes "key_next key s = Some (n, m)" "ascii_text key"
  obtains (kept) i where "find_text key (to_ascii_lowercase s) = Some i" "n = i + length key" "m = 0"
    | (found) i w e where "find_text key (to_ascii_lowercase s) = Some i" "0 < w" "w \<le> length s"
        "key_value_range s w = (n, e)" "m = e - n" "is_ascii (s ! (w - 1))"
proof -
  obtain i where i: "find_text key (to_ascii_lowercase s) = Some i"
    using assms(1) by (auto simp: key_next_def split: option.splits)
  define sep where "sep = skip_while is_key_padding s (i + length key)"
  define w where "w = skip_while is_ascii_whitespace s (sep + 1)"
  show thesis
  proof (cases "sep \<ge> length s \<or> s ! sep \<notin> {CHR '':'', CHR ''=''}")
    case True
    then show thesis using assms(1) i kept [OF i] by (simp add: key_next_def Let_def sep_def)
  next
    case False
    then have sep: "sep + 1 \<le> length s" "is_ascii (s ! (sep + 1 - 1))" by (auto simp: is_ascii_def)
    have "sep + 1 \<le> w" "w \<le> length s"
      unfolding w_def using skip_while_bounds [OF sep(1)] by auto
    moreover have "is_ascii (s ! (w - 1))"
    proof (cases "w = sep + 1")
      case False
      with \<open>sep + 1 \<le> w\<close> have "sep + 1 \<le> w - 1" "w - 1 < w" by auto
      then show ?thesis unfolding w_def using skip_while_skipped delimiter_ascii(3) by blast
    qed (use sep in simp)
    ultimately show thesis
      using False assms(1) i found [OF i, of w]
      by (auto simp: key_next_def Let_def sep_def w_def split: prod.splits)
  qed
qed

lemma key_scanner:
  assumes key: "ascii_text key"
  shows "scanner (key_next key) REDACTED_VALUE"
proof
  fix s n m assume step: "key_next key s = Some (n, m)"
  show "0 < n + m \<and> n + m \<le> length s"
    using step key
  proof (cases rule: key_next_cases)
    case (kept i)
    then show ?thesis using found_lower [of key s i] key by simp
  next
    case (found i w e)
    then show ?thesis using key_value_range_bounds [of s w n e] by simp
  qed
  assume u: "utf8 s"
  show "utf8 (take n s) \<and> utf8 (take (n + m) s)"
    using step key
  proof (cases rule: key_next_cases)
    case (kept i)
    then show ?thesis using found_lower [of key s i] key u utf8_take_after [of s n] by simp
  next
    case (found i w e)
    then show ?thesis
      using key_value_range_bounds [of s w n e] key_value_range_cuts [of s w n e] u by simp
  qed
qed (simp add: REDACTED_VALUE_def is_ascii_def)

lemma prefix_scanner:
  assumes "ascii_text prefix" "\<not> is_secret_path_delimiter (hd prefix)"
  shows "scanner (prefix_next prefix) REDACTED_PATH"
proof
  fix s n m assume "prefix_next prefix s = Some (n, m)"
  then have n: "find_text prefix s = Some n"
    and m: "m = skip_while (\<lambda>c. \<not> is_secret_path_delimiter c) s n - n"
    by (auto simp: prefix_next_def split: option.splits)
  have b: "n < length s" "s ! n = hd prefix"
    using find_text_SomeD [OF n] find_text_byte [OF n, of 0] assms(1) by (cases prefix; auto simp: ascii_text_def)+
  have nm: "n + m = skip_while (\<lambda>c. \<not> is_secret_path_delimiter c) s n" "n + m \<le> length s"
    using skip_while_bounds [of n s "\<lambda>c. \<not> is_secret_path_delimiter c"] b(1) m by auto
  have "n + m \<noteq> n"
    using skip_while_stop [of "\<lambda>c. \<not> is_secret_path_delimiter c" s n] b assms(2) nm(1) by auto
  with nm show "0 < n + m \<and> n + m \<le> length s" by simp
  assume u: "utf8 s"
  have "utf8 (take n s)"
    using u b assms(1) by (intro utf8_take_before) (auto simp: ascii_text_def neq_Nil_conv)
  with u b nm(1) show "utf8 (take n s) \<and> utf8 (take (n + m) s)"
    using utf8_take_skip [of s n "\<lambda>c. \<not> is_secret_path_delimiter c"] delimiter_ascii by auto
qed (simp add: REDACTED_PATH_def is_ascii_def)

lemma prefix_next_hides:
  assumes "prefix_next prefix s = Some (n, m)" "ascii_text prefix" "\<not> is_secret_path_delimiter (hd prefix)"
  shows "0 < m"
proof -
  have n: "find_text prefix s = Some n"
    and m: "m = skip_while (\<lambda>c. \<not> is_secret_path_delimiter c) s n - n"
    using assms(1) by (auto simp: prefix_next_def split: option.splits)
  have b: "n < length s" "s ! n = hd prefix"
    using find_text_SomeD [OF n] find_text_byte [OF n, of 0] assms(2) by (cases prefix; auto simp: ascii_text_def)+
  then show ?thesis
    using skip_while_stop [of "\<lambda>c. \<not> is_secret_path_delimiter c" s n] assms(3) m
      skip_while_bounds(1) [of n s "\<lambda>c. \<not> is_secret_path_delimiter c"]
    by (cases "skip_while (\<lambda>c. \<not> is_secret_path_delimiter c) s n = n") auto
qed

text \<open>The loops of the code are the loop of the scanner.\<close>

lemma length_bearer: "length ''bearer'' = 6"
  by simp

lemma bearer_loop_scan:
  "bearer_loop fuel input (to_ascii_lowercase input) cursor search_from out =
     scan_loop bearer_next REDACTED_VALUE fuel input cursor search_from out"
proof (induction fuel arbitrary: cursor search_from out)
  case (Suc fuel)
  show ?case
  proof (cases "search_from \<le> length input \<and> is_char_boundary input search_from")
    case in_text: True
    define hay where "hay = drop search_from input"
    show ?thesis
    proof (cases "find_text ''bearer'' (to_ascii_lowercase hay)")
      case None
      then show ?thesis using in_text by (simp add: slice_lower bearer_next_def hay_def)
    next
      case (Some i)
      define v where "v = skip_while is_ascii_whitespace hay (i + 6)"
      define e where "e = skip_while (\<lambda>c. \<not> is_secret_value_delimiter c) hay v"
      have i: "i + 6 \<le> length hay" using found_lower [OF Some] by (simp add: ascii_text_def is_ascii_def)
      have v: "skip_while is_ascii_whitespace input (6 + (search_from + i)) = search_from + v" "i + 6 \<le> v"
        using skip_while_bounds [OF i] skip_while_drop [of is_ascii_whitespace input search_from "i + 6"]
        by (simp_all add: v_def hay_def ac_simps)
      have e: "skip_while (\<lambda>c. \<not> is_secret_value_delimiter c) input (search_from + v) = search_from + e"
        by (simp add: e_def hay_def skip_while_drop)
      have len: "length input \<le> search_from + v \<longleftrightarrow> length hay \<le> v"
        using in_text by (auto simp: hay_def)
      have n: "bearer_next hay = (if v \<ge> length hay then None else Some (v, e - v))"
        using Some by (simp add: bearer_next_def v_def e_def Let_def)
      have ve: "v \<le> e" if "v < length hay"
        unfolding e_def using that by (intro skip_while_bounds) simp
      have mx: "max (e + search_from) (i + (search_from + 6)) = e + search_from" if "v < length hay"
        using ve [OF that] v(2) by simp
      show ?thesis
        using in_text Some Suc.IH v e ve n len mx
        by (auto simp: slice_lower hay_def [symmetric] Let_def ac_simps length_bearer
            simp del: list.size split: option.split)
    qed
  qed (auto simp: slice_lower)
qed simp

lemma key_value_range_drop:
  "a + w \<le> length input \<Longrightarrow> key_value_range input (a + w) =
     (a + fst (key_value_range (drop a input) w), a + snd (key_value_range (drop a input) w))"
  using skip_while_drop [of _ input a w] skip_while_drop [of _ input a "w + 1"]
  by (cases "a + w < length input") (auto simp: key_value_range_def)

lemma key_loop_scan:
  assumes key: "ascii_text key"
  shows "key_loop fuel input (to_ascii_lowercase input) key cursor search_from out =
     scan_loop (key_next key) REDACTED_VALUE fuel input cursor search_from out"
proof (induction fuel arbitrary: cursor search_from out)
  case (Suc fuel)
  show ?case
  proof (cases "search_from \<le> length input \<and> is_char_boundary input search_from")
    case in_text: True
    define hay where "hay = drop search_from input"
    show ?thesis
    proof (cases "find_text key (to_ascii_lowercase hay)")
      case None
      then show ?thesis using in_text by (simp add: slice_lower key_next_def hay_def)
    next
      case (Some i)
      define sep where "sep = skip_while is_key_padding hay (i + length key)"
      define w where "w = skip_while is_ascii_whitespace hay (sep + 1)"
      have i: "i + length key \<le> length hay" using found_lower [OF Some key] by simp
      have sep: "skip_while is_key_padding input (search_from + i + length key) = search_from + sep"
          "i + length key \<le> sep"
        using skip_while_bounds [OF i] skip_while_drop [of is_key_padding input search_from "i + length key"]
        by (simp_all add: sep_def hay_def ac_simps)
      have at_sep: "input ! (search_from + sep) = hay ! sep" "length input \<le> search_from + sep \<longleftrightarrow> length hay \<le> sep"
        using in_text by (auto simp: hay_def)
      show ?thesis
      proof (cases "length hay \<le> sep \<or> hay ! sep \<notin> {CHR '':'', CHR ''=''}")
        case True
        then have "key_next key hay = Some (i + length key, 0)"
          using Some by (simp add: key_next_def Let_def sep_def)
        then show ?thesis
          using in_text Some True Suc.IH sep at_sep
          by (simp add: slice_lower hay_def [symmetric] Let_def ac_simps)
      next
        case False
        then have s1: "sep + 1 \<le> length hay" by auto
        have w: "skip_while is_ascii_whitespace input (search_from + sep + 1) = search_from + w"
            "sep + 1 \<le> w" "w \<le> length hay"
          using skip_while_bounds [OF s1, of is_ascii_whitespace]
            skip_while_drop [of is_ascii_whitespace input search_from "sep + 1"]
          by (simp_all add: w_def hay_def ac_simps)
        obtain v e where ve: "key_value_range hay w = (v, e)" by (cases "key_value_range hay w")
        have b: "w \<le> v" "v \<le> e" using key_value_range_bounds [OF ve w(3)] by simp_all
        have "search_from + w \<le> length input" using w(3) in_text by (auto simp: hay_def)
        then have r: "key_value_range input (search_from + w) = (search_from + v, search_from + e)"
          using key_value_range_drop [of search_from w input] ve by (simp add: hay_def)
        have n: "key_next key hay = Some (v, e - v)"
          using False Some ve by (auto simp: key_next_def Let_def sep_def w_def)
        show ?thesis
          using in_text Some False Suc.IH sep at_sep w r b n
          by (auto simp: slice_lower hay_def [symmetric] Let_def max_def ac_simps split: option.split)
      qed
    qed
  qed (auto simp: slice_lower)
qed simp

lemma prefix_loop_scan:
  assumes "ascii_text prefix" "\<not> is_secret_path_delimiter (hd prefix)"
  shows "prefix_loop fuel input prefix replacement cursor search_from out =
     scan_loop (prefix_next prefix) replacement fuel input cursor search_from out"
proof (induction fuel arbitrary: cursor search_from out)
  case (Suc fuel)
  show ?case
  proof (cases "search_from \<le> length input \<and> is_char_boundary input search_from")
    case in_text: True
    define hay where "hay = drop search_from input"
    show ?thesis
    proof (cases "find_text prefix hay")
      case None
      then show ?thesis using in_text by (simp add: slice_end prefix_next_def hay_def)
    next
      case (Some i)
      define e where "e = skip_while (\<lambda>c. \<not> is_secret_path_delimiter c) hay i"
      have n: "prefix_next prefix hay = Some (i, e - i)" using Some by (simp add: prefix_next_def e_def)
      have m: "0 < e - i" using prefix_next_hides [OF n] assms by simp
      have e: "skip_while (\<lambda>c. \<not> is_secret_path_delimiter c) input (search_from + i) = search_from + e"
        by (simp add: e_def hay_def skip_while_drop)
      show ?thesis
        using in_text Some Suc.IH n m e
        by (auto simp: slice_end hay_def [symmetric] Let_def ac_simps split: option.split)
    qed
  qed (auto simp: slice_end)
qed simp

declare bearer_loop.simps [simp del] key_loop.simps [simp del] prefix_loop.simps [simp del]
  scan_loop.simps [simp del]

lemma redact_bearer_tokens_scan:
  "utf8 s \<Longrightarrow> redact_bearer_tokens s = Some (scan bearer_next REDACTED_VALUE s)"
  unfolding redact_bearer_tokens_def bearer_loop_scan by (rule bearer.loop_total)

lemma lower_key: "key \<in> set SENSITIVE_KEYS \<Longrightarrow> to_ascii_lowercase key = key \<and> ascii_text key"
  by (auto simp: SENSITIVE_KEYS_def to_ascii_lowercase_def ascii_text_def is_ascii_def)

lemma redact_key_scan:
  "utf8 s \<Longrightarrow> key \<in> set SENSITIVE_KEYS \<Longrightarrow>
     redact_sensitive_key_values s key = Some (scan (key_next key) REDACTED_VALUE s)"
  using lower_key [of key] scanner.loop_total [OF key_scanner, of key s]
  by (simp add: redact_sensitive_key_values_def key_loop_scan)

lemma secret_path: "prefix \<in> set SECRET_PATHS \<Longrightarrow> ascii_text prefix \<and> \<not> is_secret_path_delimiter (hd prefix)"
  by (auto simp: SECRET_PATHS_def ascii_text_def is_ascii_def byte_def is_secret_path_delimiter_def
      is_ascii_whitespace_def)

lemma redact_path_scan:
  "utf8 s \<Longrightarrow> prefix \<in> set SECRET_PATHS \<Longrightarrow>
     redact_value_with_prefix s prefix REDACTED_PATH = Some (scan (prefix_next prefix) REDACTED_PATH s)"
  using secret_path [of prefix] scanner.loop_total [OF prefix_scanner, of prefix s]
  by (simp add: redact_value_with_prefix_def prefix_loop_scan)

text \<open>A chain of passes that are total on texts is total on texts.\<close>

lemma fold_passes:
  assumes "\<And>k s. k \<in> set ks \<Longrightarrow> utf8 s \<Longrightarrow> f s k = Some (g k s) \<and> utf8 (g k s)" and "utf8 s"
  shows "fold (\<lambda>k current. Option.bind current (\<lambda>t. f t k)) ks (Some s) = Some (fold g ks s) \<and> utf8 (fold g ks s)"
  using assms by (induction ks arbitrary: s) simp_all

definition scan_keys :: "string \<Rightarrow> string" where
  "scan_keys s = fold (\<lambda>key. scan (key_next key) REDACTED_VALUE) SENSITIVE_KEYS s"

definition scan_paths :: "string \<Rightarrow> string" where
  "scan_paths s = fold (\<lambda>prefix. scan (prefix_next prefix) REDACTED_PATH) SECRET_PATHS s"

lemma redact_provider_error_scan:
  assumes "utf8 s"
  shows "redact_provider_error s =
      Some (truncate_provider_error (scan_paths (scan_keys (scan bearer_next REDACTED_VALUE s))))"
    and "utf8 (scan_paths (scan_keys (scan bearer_next REDACTED_VALUE s)))"
proof -
  define b where "b = scan bearer_next REDACTED_VALUE s"
  have b: "redact_bearer_tokens s = Some b" "utf8 b"
    using assms redact_bearer_tokens_scan bearer.utf8_scan by (simp_all add: b_def)
  have k: "fold (\<lambda>key current. Option.bind current (\<lambda>t. redact_sensitive_key_values t key)) SENSITIVE_KEYS (Some b) =
      Some (scan_keys b) \<and> utf8 (scan_keys b)"
    unfolding scan_keys_def using b(2)
    by (intro fold_passes) (auto intro: redact_key_scan scanner.utf8_scan [OF key_scanner] dest: lower_key)
  have "redact_secret_paths (scan_keys b) = Some (scan_paths (scan_keys b)) \<and> utf8 (scan_paths (scan_keys b))"
    unfolding scan_paths_def redact_secret_paths_def using k
    by (intro fold_passes) (auto intro: redact_path_scan scanner.utf8_scan [OF prefix_scanner] dest: secret_path)
  with b k show "redact_provider_error s =
      Some (truncate_provider_error (scan_paths (scan_keys (scan bearer_next REDACTED_VALUE s))))"
    "utf8 (scan_paths (scan_keys (scan bearer_next REDACTED_VALUE s)))"
    by (simp_all add: redact_provider_error_def b_def)
qed

section \<open>Cutting\<close>

lemma take_chars_char:
  assumes "encodes_char w" "utf8 s"
  shows "take_chars (Suc n) (w @ s) = w @ take_chars n s"
proof -
  obtain c t where w: "w = c # t" using encodes_char_bytes(3) [OF assms(1)] by (cases w) auto
  have t: "\<forall>c \<in> set t. is_continuation_byte c" using encodes_char_bytes(2) [OF assms(1)] w by simp
  have "s = [] \<or> \<not> is_continuation_byte (hd s)"
  proof (cases "s = []")
    case False
    then obtain v u where "s = v @ u" "encodes_char v" using assms(2) utf8_first_char by blast
    then show ?thesis using encodes_char_bytes(1,3) [of v] by simp
  qed simp
  then have "takeWhile is_continuation_byte s = []" "dropWhile is_continuation_byte s = s"
    by (cases s; simp)+
  with t show ?thesis by (simp add: w takeWhile_append2 dropWhile_append2)
qed

lemma chars_count_char: "encodes_char w \<Longrightarrow> chars_count (w @ s) = Suc (chars_count s)"
proof -
  assume w: "encodes_char w"
  obtain c t where "w = c # t" using encodes_char_bytes(3) [OF w] by (cases w) auto
  with encodes_char_bytes [OF w] show ?thesis by (simp add: chars_count_def filter_empty_conv)
qed

lemma take_chars_utf8: "utf8 s \<Longrightarrow> utf8 (take_chars n s) \<and> chars_count (take_chars n s) = min n (chars_count s)"
proof (induction arbitrary: n rule: utf8_induct)
  case Nil
  then show ?case by (cases n) (simp_all add: chars_count_def)
next
  case (Char w s)
  then show ?case
    by (cases n) (simp_all add: take_chars_char utf8_append_char chars_count_char, simp add: chars_count_def)
qed

lemma chars_count_append: "chars_count (s @ t) = chars_count s + chars_count t"
  by (simp add: chars_count_def)

lemma truncate_utf8:
  assumes "utf8 s"
  shows "utf8 (truncate_provider_error s)" "chars_count (truncate_provider_error s) \<le> PROVIDER_ERROR_MAX_CHARS + 15"
proof -
  have m: "utf8 ''... [truncated]''" "chars_count ''... [truncated]'' = 15"
    by (simp_all add: is_ascii_def chars_count_def is_continuation_byte_def)
  show "utf8 (truncate_provider_error s)"
  proof (cases "chars_count s \<le> PROVIDER_ERROR_MAX_CHARS")
    case False
    have "utf8 (take_chars PROVIDER_ERROR_MAX_CHARS s @ ''... [truncated]'')"
      using utf8_append [of "take_chars PROVIDER_ERROR_MAX_CHARS s" "''... [truncated]''"]
        take_chars_utf8 [OF assms] m(1) by blast
    with False show ?thesis by (simp only: truncate_provider_error_def if_False)
  qed (use assms in \<open>simp add: truncate_provider_error_def\<close>)
  show "chars_count (truncate_provider_error s) \<le> PROVIDER_ERROR_MAX_CHARS + 15"
  proof (cases "chars_count s \<le> PROVIDER_ERROR_MAX_CHARS")
    case False
    then have "chars_count (truncate_provider_error s) =
        chars_count (take_chars PROVIDER_ERROR_MAX_CHARS s) + 15"
      by (simp only: truncate_provider_error_def if_False chars_count_append m)
    with take_chars_utf8 [OF assms, of PROVIDER_ERROR_MAX_CHARS] show ?thesis by simp
  qed (simp add: truncate_provider_error_def)
qed

section \<open>What is hidden\<close>

lemma find_text_append: "find_text p s = Some i \<Longrightarrow> find_text p (s @ t) = Some i"
proof (induction s arbitrary: i)
  case Nil
  then show ?case by (cases t) (auto simp: starts_with_def split: if_splits)
next
  case (Cons c s)
  show ?case
  proof (cases "starts_with p (c # s)")
    case True
    then have "starts_with p ((c # s) @ t)" by (rule starts_with_append)
    then show ?thesis using Cons.prems True by simp
  next
    case False
    then obtain j where j: "find_text p s = Some j" "i = Suc j" using Cons.prems by auto
    have "\<not> starts_with p (c # s @ t)"
    proof
      assume "starts_with p (c # s @ t)"
      moreover have "length p \<le> length (c # s)" using find_text_SomeD [OF j(1)] by simp
      moreover from this have "take (length p) ((c # s) @ t) = take (length p) (c # s)"
        by (subst take_append) simp
      ultimately show False using False by (simp add: starts_with_def)
    qed
    then show ?thesis using Cons.IH [OF j(1)] j(2) by simp
  qed
qed

lemma skip_while_run:
  assumes "list_all p w" "r = [] \<or> \<not> p (hd r)"
  shows "skip_while p (x @ w @ r) (length x) = length x + length w"
proof -
  have "takeWhile p w = w"
    using assms(1) by (simp add: list_all_iff)
  then have "length (takeWhile p w) = length w" by (rule arg_cong)
  with assms show ?thesis by (cases r) (simp_all add: skip_while_def takeWhile_append2 list_all_iff)
qed

text \<open>A token: bytes of a value up to its end.\<close>

definition token_of :: "string \<Rightarrow> string \<Rightarrow> bool" where
  "token_of v r \<longleftrightarrow> v \<noteq> [] \<and> list_all (\<lambda>c. \<not> is_secret_value_delimiter c) v \<and>
     (r = [] \<or> is_secret_value_delimiter (hd r))"

lemma token_skip:
  "token_of v r \<Longrightarrow> skip_while (\<lambda>c. \<not> is_secret_value_delimiter c) (x @ v @ r) (length x) = length x + length v"
  by (rule skip_while_run) (auto simp: token_of_def)

lemma to_lower_append: "to_ascii_lowercase (s @ t) = to_ascii_lowercase s @ to_ascii_lowercase t"
  by (simp add: to_ascii_lowercase_def)

lemma bearer_token_scan:
  assumes first: "find_text ''bearer'' (to_ascii_lowercase (p @ b)) = Some (length p)" "length b = 6"
    and ws: "list_all is_ascii_whitespace w" and v: "token_of v r"
  shows "scan bearer_next REDACTED_VALUE (p @ b @ w @ v @ r) =
     p @ b @ w @ REDACTED_VALUE @ scan bearer_next REDACTED_VALUE r"
proof -
  have f: "find_text ''bearer'' (to_ascii_lowercase (p @ b @ w @ v @ r)) = Some (length p)"
    using find_text_append [OF first(1), of "to_ascii_lowercase (w @ v @ r)"] by (simp add: to_lower_append)
  have "\<not> is_ascii_whitespace (hd (v @ r))"
    using v by (cases v) (auto simp: token_of_def is_secret_value_delimiter_def)
  then have s: "skip_while is_ascii_whitespace (p @ b @ w @ v @ r) (length p + 6) = length p + 6 + length w"
    using skip_while_run [of is_ascii_whitespace w "v @ r" "p @ b"] ws first(2) by simp
  have e: "skip_while (\<lambda>c. \<not> is_secret_value_delimiter c) (p @ b @ w @ v @ r) (length p + 6 + length w) =
      length p + 6 + length w + length v"
    using token_skip [OF v, of "p @ b @ w"] first(2) by (simp add: ac_simps)
  have v0: "0 < length v" using v by (simp add: token_of_def)
  then have n: "bearer_next (p @ b @ w @ v @ r) = Some (length p + 6 + length w, length v)"
    using first(2) by (simp add: bearer_next_def f s e Let_def)
  show ?thesis
    using first(2) v0 by (simp add: bearer.scan_Some [OF n])
qed

text \<open>A bearer token does not get out: in a text whose first \<open>bearer\<close>, in any case, is \<open>b\<close>, the
  token \<open>v\<close> after it and white space, up to a delimiter or the end, is replaced by the marker
  whatever it is, the text before it is kept, and the text after it is redacted in the same way.\<close>

theorem bearer_token_hidden:
  assumes "find_text ''bearer'' (to_ascii_lowercase (p @ b)) = Some (length p)" and "length b = 6"
    and "list_all is_ascii_whitespace w" and "token_of v r" and "utf8 (p @ b @ w @ v @ r)" and "utf8 r"
  shows "redact_bearer_tokens (p @ b @ w @ v @ r) =
     map_option (\<lambda>t. p @ b @ w @ REDACTED_VALUE @ t) (redact_bearer_tokens r)"
  using bearer_token_scan [OF assms(1-4)] redact_bearer_tokens_scan [OF assms(5)]
    redact_bearer_tokens_scan [OF assms(6)] by simp

theorem bearer_token_hidden_witness:
  "redact_bearer_tokens (''error: '' @ ''Bearer'' @ '' '' @ ''sk-1'' @ '', retry'') =
     Some ''error: Bearer [redacted], retry''"
proof -
  have "redact_bearer_tokens '', retry'' = Some '', retry''"
    by (simp add: redact_bearer_tokens_scan is_ascii_def scan.simps bearer_next_def
        to_ascii_lowercase_def starts_with_def)
  moreover have "find_text ''bearer'' (to_ascii_lowercase (''error: '' @ ''Bearer'')) = Some 7" by code_simp
  ultimately show ?thesis
    using bearer_token_hidden [of "''error: ''" "''Bearer''" "'' ''" "''sk-1''" "'', retry''"]
    by (simp add: is_ascii_whitespace_def token_of_def is_secret_value_delimiter_def is_ascii_def
        REDACTED_VALUE_def)
qed

text \<open>
  A value after a key and its separator: bare, up to a delimiter, or after the quote \<open>q\<close>, up to the
  same quote.
\<close>

definition value_of :: "string \<Rightarrow> string \<Rightarrow> string \<Rightarrow> bool" where
  "value_of q v r \<longleftrightarrow>
     (q = [] \<and> token_of v r \<and> \<not> is_quote (hd v)) \<or>
     (\<exists>c. q = [c] \<and> is_quote c \<and> v \<noteq> [] \<and> c \<notin> set v \<and> (r = [] \<or> hd r = c))"

lemma value_range:
  assumes "value_of q v r"
  shows "key_value_range (x @ q @ v @ r) (length x) = (length x + length q, length x + length q + length v)"
proof (cases "q = []")
  case True
  then have v: "token_of v r" "\<not> is_quote (hd v)" using assms by (auto simp: value_of_def)
  then have "(x @ v @ r) ! length x = hd v" "v \<noteq> []"
    by (auto simp: token_of_def nth_append hd_conv_nth)
  with v True show ?thesis by (simp add: key_value_range_def token_skip)
next
  case False
  then obtain c where c: "q = [c]" "is_quote c" "v \<noteq> []" "c \<notin> set v" "r = [] \<or> hd r = c"
    using assms by (auto simp: value_of_def)
  have "skip_while (\<lambda>d. d \<noteq> c) ((x @ [c]) @ v @ r) (length (x @ [c])) = length (x @ [c]) + length v"
    using c by (intro skip_while_run) (auto simp: list_all_iff)
  with c show ?thesis by (simp add: key_value_range_def nth_append)
qed

lemma value_head: "value_of q v r \<Longrightarrow> \<not> is_ascii_whitespace (hd (q @ v @ r)) \<and> 0 < length v"
  by (cases v) (auto simp: value_of_def token_of_def is_secret_value_delimiter_def is_quote_def is_ascii_whitespace_def)

lemma key_value_scan:
  assumes key: "ascii_text key" and first: "find_text key (to_ascii_lowercase (p @ k)) = Some (length p)" "length k = length key"
    and pad: "list_all is_key_padding a" and sep: "c \<in> {CHR '':'', CHR ''=''}"
    and ws: "list_all is_ascii_whitespace w" and v: "value_of q v r"
  shows "scan (key_next key) REDACTED_VALUE (p @ k @ a @ [c] @ w @ q @ v @ r) =
     p @ k @ a @ [c] @ w @ q @ REDACTED_VALUE @ scan (key_next key) REDACTED_VALUE r"
proof -
  let ?s = "p @ k @ a @ [c] @ w @ q @ v @ r"
  have f: "find_text key (to_ascii_lowercase ?s) = Some (length p)"
    using find_text_append [OF first(1), of "to_ascii_lowercase (a @ [c] @ w @ q @ v @ r)"]
    by (simp add: to_lower_append)
  have "\<not> is_key_padding c" using sep by (auto simp: is_key_padding_def)
  then have s1: "skip_while is_key_padding ?s (length p + length key) = length p + length key + length a"
    using skip_while_run [of is_key_padding a "[c] @ w @ q @ v @ r" "p @ k"] pad first(2) by simp
  have c: "?s ! (length p + length key + length a) = c"
    using first(2) nth_append_length [of "p @ k @ a" c "w @ q @ v @ r"] by (simp add: ac_simps)
  have s2: "skip_while is_ascii_whitespace ?s (length p + length key + length a + 1) =
      length p + length key + length a + 1 + length w"
    using skip_while_run [of is_ascii_whitespace w "q @ v @ r" "p @ k @ a @ [c]"] ws first(2) value_head [OF v]
    by (simp add: ac_simps)
  have rg: "key_value_range ?s (length p + length key + length a + 1 + length w) =
      (length p + length key + length a + 1 + length w + length q,
       length p + length key + length a + 1 + length w + length q + length v)"
    using value_range [OF v, of "p @ k @ a @ [c] @ w"] first(2) by (simp add: ac_simps)
  have n: "key_next key ?s =
      Some (length p + length key + length a + 1 + length w + length q, length v)"
    unfolding key_next_def Let_def f option.case s1 c s2 rg prod.case using sep first(2) by auto
  show ?thesis
    unfolding scanner.scan_Some [OF key_scanner [OF key] n] using first(2) value_head [OF v] by simp
qed



text \<open>C35: The redaction always returns: for every text of valid UTF-8 no slice is outside the text or
  off a character boundary and the loops end within their fuel; the result is valid UTF-8 again
  and has at most 915 characters, the limit and the marker of the cut.\<close>

theorem redaction_returns:
  assumes "utf8 message"
  shows "\<exists>text. redact_provider_error message = Some text \<and> utf8 text \<and> chars_count text \<le> 915"
proof -
  have "utf8 (scan_paths (scan_keys (scan bearer_next REDACTED_VALUE message)))"
    using redact_provider_error_scan(2) [OF assms] .
  from truncate_utf8 [OF this] redact_provider_error_scan(1) [OF assms] show ?thesis
    by (simp add: PROVIDER_ERROR_MAX_CHARS_def)
qed

theorem redaction_returns_witness:
  "\<exists>text. redact_provider_error (''api_key='' @ [byte 0xE5, byte 0xAF, byte 0x86]) = Some text \<and> utf8 text \<and>
     chars_count text \<le> 915"
  by (rule redaction_returns)
    (simp add: is_ascii_def byte_def two_bytes_def three_bytes_def in_range_def is_continuation_byte_def)

text \<open>
  The value of a header with a scheme of its own ends at the blank after the scheme, and the value
  of a cookie at its first semicolon: what follows is kept.
\<close>

lemma basic_credentials_kept:
  "redact_provider_error ''Authorization: Basic dXNlcjpwYXNz'' = Some ''Authorization: [redacted] dXNlcjpwYXNz''"
  by code_simp

lemma cookie_rest_kept:
  "redact_provider_error ''cookie: a=1; session=s3'' = Some ''cookie: [redacted]; session=s3''"
  by code_simp

end
