(* ===== verification/Model_Profiles.thy ===== *)
theory Model_Profiles
  imports Provider_Redaction "HOL-Library.Product_Lexorder"
begin

text \<open>
  The configuration of the model gateway in \<open>src/crates/llm-gateway/src/lib.rs\<close>: the capabilities and
  the profile of a provider, the pool of a lane, the routes of the lanes and the overrides the
  environment makes. The environment is a function: \<open>env name\<close> is \<open>std::env::var(name).ok()\<close>. An
  \<open>anyhow\<close> error is the text it displays, which after \<open>with_context\<close> is the context. A priority is an
  \<open>i32\<close>, here an \<open>int\<close> that \<open>parse_i32\<close> keeps in range.
\<close>

type_synonym env = "string \<Rightarrow> string option"

section \<open>Numbers in texts\<close>

text \<open>\<open>str::parse\<close> for the integer types: an optional sign, then digits, with the errors in the order
  in which the digits are read.\<close>

datatype int_error = Empty_text | Invalid_digit | Pos_overflow | Neg_overflow

fun int_error_text :: "int_error \<Rightarrow> string" where
  "int_error_text Empty_text = ''cannot parse integer from empty string''"
| "int_error_text Invalid_digit = ''invalid digit found in string''"
| "int_error_text Pos_overflow = ''number too large to fit in target type''"
| "int_error_text Neg_overflow = ''number too small to fit in target type''"

fun parse_digits :: "nat \<Rightarrow> int_error \<Rightarrow> nat \<Rightarrow> string \<Rightarrow> (nat, int_error) result" where
  "parse_digits limit overflow n [] = Ok n"
| "parse_digits limit overflow n (c # s) =
     (if \<not> is_ascii_digit c then Err Invalid_digit
      else let n' = n * 10 + (of_char c - 48) in
        if limit < n' then Err overflow else parse_digits limit overflow n' s)"

definition parse_unsigned :: "nat \<Rightarrow> string \<Rightarrow> (nat, int_error) result" where
  "parse_unsigned limit s =
     (if s = [] then Err Empty_text
      else if s = ''+'' \<or> s = ''-'' then Err Invalid_digit
      else parse_digits limit Pos_overflow 0 (if hd s = CHR ''+'' then tl s else s))"

definition parse_u32 :: "string \<Rightarrow> (32 word, int_error) result" where
  "parse_u32 s = and_then (parse_unsigned (2 ^ 32 - 1) s) (\<lambda>n. Ok (of_nat n))"

definition parse_u64 :: "string \<Rightarrow> (64 word, int_error) result" where
  "parse_u64 s = and_then (parse_unsigned (2 ^ 64 - 1) s) (\<lambda>n. Ok (of_nat n))"

definition parse_i32 :: "string \<Rightarrow> (int, int_error) result" where
  "parse_i32 s =
     (if s \<noteq> [] \<and> hd s = CHR ''-'' \<and> tl s \<noteq> []
      then and_then (parse_digits (2 ^ 31) Neg_overflow 0 (tl s)) (\<lambda>n. Ok (- int n))
      else and_then (parse_unsigned (2 ^ 31 - 1) s) (\<lambda>n. Ok (int n)))"

section \<open>Reading the environment\<close>

definition split_csv_env :: "string \<Rightarrow> string list" where
  "split_csv_env s = filter (\<lambda>t. t \<noteq> []) (map trim (split_char (CHR '','') s))"

definition env_name :: "string \<Rightarrow> string \<Rightarrow> string" where
  "env_name env_prefix suffix = env_prefix @ ''_'' @ suffix"

definition optional_env_string :: "env \<Rightarrow> string \<Rightarrow> string \<Rightarrow> string option" where
  "optional_env_string env env_prefix suffix =
     option_filter (\<lambda>v. v \<noteq> []) (map_option trim (env (env_name env_prefix suffix)))"

definition required_env_string :: "env \<Rightarrow> string \<Rightarrow> string \<Rightarrow> (string, string) result" where
  "required_env_string env env_prefix suffix =
     ok_or (env_name env_prefix suffix @ '' is required'') (optional_env_string env env_prefix suffix)"

definition invalid_env :: "string \<Rightarrow> string \<Rightarrow> string \<Rightarrow> string" where
  "invalid_env env_prefix suffix s = ''invalid '' @ env_name env_prefix suffix @ '' value '' @ s"

definition optional_env_parsed ::
    "(string \<Rightarrow> ('a, int_error) result) \<Rightarrow> env \<Rightarrow> string \<Rightarrow> string \<Rightarrow> ('a option, string) result" where
  "optional_env_parsed parse env env_prefix suffix = transpose_option (map_option
     (\<lambda>s. case parse s of Inl e \<Rightarrow> Err (invalid_env env_prefix suffix s @ '': '' @ int_error_text e)
        | Inr n \<Rightarrow> Ok n)
     (optional_env_string env env_prefix suffix))"

definition optional_env_u32 :: "env \<Rightarrow> string \<Rightarrow> string \<Rightarrow> (32 word option, string) result" where
  "optional_env_u32 env env_prefix suffix = optional_env_parsed parse_u32 env env_prefix suffix"

definition optional_env_i32 :: "env \<Rightarrow> string \<Rightarrow> string \<Rightarrow> (int option, string) result" where
  "optional_env_i32 env env_prefix suffix = optional_env_parsed parse_i32 env env_prefix suffix"

definition optional_env_u64 :: "env \<Rightarrow> string \<Rightarrow> string \<Rightarrow> (64 word option, string) result" where
  "optional_env_u64 env env_prefix suffix = optional_env_parsed parse_u64 env env_prefix suffix"

definition optional_env_usize :: "env \<Rightarrow> string \<Rightarrow> string \<Rightarrow> (64 word option, string) result" where
  "optional_env_usize env env_prefix suffix = optional_env_parsed parse_u64 env env_prefix suffix"

definition is_enabled_text :: "string \<Rightarrow> bool" where
  "is_enabled_text v \<longleftrightarrow> to_ascii_lowercase (trim v) \<in> {''1'', ''true'', ''yes'', ''on''}"

definition optional_env_bool :: "env \<Rightarrow> string \<Rightarrow> string \<Rightarrow> bool \<Rightarrow> bool" where
  "optional_env_bool env env_prefix suffix default_value =
     unwrap_or default_value (map_option is_enabled_text (env (env_name env_prefix suffix)))"

definition env_flag :: "env \<Rightarrow> string \<Rightarrow> bool \<Rightarrow> bool" where
  "env_flag env key default_value =
     unwrap_or default_value (map_option is_enabled_text (env key))"

definition env_csv_contains :: "env \<Rightarrow> string \<Rightarrow> string \<Rightarrow> bool" where
  "env_csv_contains env key expected0 \<longleftrightarrow> (let expected = trim expected0 in
     expected \<noteq> [] \<and> (case env key of
        Some v \<Rightarrow> list_ex (\<lambda>item. eq_ignore_ascii_case (trim item) expected) (split_char (CHR '','') v)
      | None \<Rightarrow> False))"

text \<open>A character is one byte of the result, a character outside ASCII the byte of an underscore.\<close>

definition normalize_model_gateway_env_segment :: "string \<Rightarrow> string" where
  "normalize_model_gateway_env_segment s =
     map (\<lambda>c. if is_ascii_alphanumeric c then hd (to_ascii_uppercase [c]) else CHR ''_'')
       (filter (\<lambda>c. \<not> is_continuation_byte c) s)"

definition model_route_env_prefix :: "string \<Rightarrow> string" where
  "model_route_env_prefix lane = ''LLM_GATEWAY_ROUTE_'' @ normalize_model_gateway_env_segment lane"

definition model_gateway_lane_env_prefix :: "string \<Rightarrow> string" where
  "model_gateway_lane_env_prefix lane = ''LLM_GATEWAY_LANE_'' @ normalize_model_gateway_env_segment lane"

definition model_gateway_profile_env_prefix :: "string \<Rightarrow> string" where
  "model_gateway_profile_env_prefix profile_name =
     ''LLM_GATEWAY_PROFILE_'' @ normalize_model_gateway_env_segment profile_name"

section \<open>Capabilities and profiles\<close>

datatype ModelProfileWireApi = ChatCompletions | Responses | CodexCompatibleShim

fun ModelProfileWireApi_as_str :: "ModelProfileWireApi \<Rightarrow> string" where
  "ModelProfileWireApi_as_str ChatCompletions = ''chat_completions''"
| "ModelProfileWireApi_as_str Responses = ''responses''"
| "ModelProfileWireApi_as_str CodexCompatibleShim = ''codex_compatible_shim''"

definition ModelProfileWireApi_from_env_value :: "string \<Rightarrow> ModelProfileWireApi option" where
  "ModelProfileWireApi_from_env_value s = (let v = to_ascii_lowercase (trim s) in
     if v \<in> {''chat'', ''chat_completions'', ''openai_chat_completions''} then Some ChatCompletions
     else if v \<in> {''responses'', ''response'', ''openai_responses''} then Some Responses
     else if v \<in> {''codex_compatible_shim'', ''codex-compatible-shim'', ''codex_shim'',
                  ''responses_shim'', ''provider_shim''} then Some CodexCompatibleShim
     else None)"

datatype OpenAiCompatibleReasoningWireField = ReasoningObject | ReasoningEffort

fun ReasoningWireField_as_str :: "OpenAiCompatibleReasoningWireField \<Rightarrow> string" where
  "ReasoningWireField_as_str ReasoningObject = ''reasoning''"
| "ReasoningWireField_as_str ReasoningEffort = ''reasoning_effort''"

definition ReasoningWireField_from_env_value :: "string \<Rightarrow> OpenAiCompatibleReasoningWireField option" where
  "ReasoningWireField_from_env_value s = (let v = to_ascii_lowercase (trim s) in
     if v \<in> {''reasoning'', ''reasoning_object'', ''responses''} then Some ReasoningObject
     else if v \<in> {''reasoning_effort'', ''chat_completions'', ''chat''} then Some ReasoningEffort
     else None)"

definition optional_env_reasoning_effort :: "env \<Rightarrow> string \<Rightarrow> string \<Rightarrow> (string option, string) result" where
  "optional_env_reasoning_effort env env_prefix suffix = transpose_option (map_option
     (\<lambda>s. let normalized = to_ascii_lowercase (trim s) in
        if normalized \<in> {''none'', ''minimal'', ''low'', ''medium'', ''high'', ''xhigh''} then Ok normalized
        else Err (invalid_env env_prefix suffix s @
          ''; expected none, minimal, low, medium, high, or xhigh''))
     (optional_env_string env env_prefix suffix))"

definition optional_env_reasoning_wire_field ::
    "env \<Rightarrow> string \<Rightarrow> string \<Rightarrow> (OpenAiCompatibleReasoningWireField option, string) result" where
  "optional_env_reasoning_wire_field env env_prefix suffix = transpose_option (map_option
     (\<lambda>s. ok_or (invalid_env env_prefix suffix s @ ''; expected reasoning or reasoning_effort'')
        (ReasoningWireField_from_env_value s))
     (optional_env_string env env_prefix suffix))"

record ModelCapabilityManifest =
  cap_chat :: bool
  cap_reasoning :: bool
  cap_vision :: bool
  cap_audio :: bool
  cap_video :: bool
  cap_json_mode :: bool
  cap_tool_calling :: bool
  cap_image_prompt :: bool
  cap_static_page :: bool
  cap_codex_compatible :: bool
  cap_extra :: "string list"

definition default_capabilities :: ModelCapabilityManifest where
  "default_capabilities = \<lparr>cap_chat = False, cap_reasoning = False, cap_vision = False,
     cap_audio = False, cap_video = False, cap_json_mode = False, cap_tool_calling = False,
     cap_image_prompt = False, cap_static_page = False, cap_codex_compatible = False, cap_extra = []\<rparr>"

definition add_capability :: "string \<Rightarrow> ModelCapabilityManifest \<Rightarrow> ModelCapabilityManifest" where
  "add_capability raw_name m = (let name = trim raw_name; l = to_ascii_lowercase name in
     if name = [] then m
     else if l \<in> {''chat'', ''conversation''} then m\<lparr>cap_chat := True\<rparr>
     else if l \<in> {''reasoning'', ''think'', ''thinking''} then m\<lparr>cap_reasoning := True\<rparr>
     else if l \<in> {''vision'', ''document'', ''vlm''} then m\<lparr>cap_vision := True\<rparr>
     else if l \<in> {''audio'', ''transcript''} then m\<lparr>cap_audio := True\<rparr>
     else if l \<in> {''video'', ''scene''} then m\<lparr>cap_video := True\<rparr>
     else if l \<in> {''json'', ''json_mode'', ''structured_output''} then m\<lparr>cap_json_mode := True\<rparr>
     else if l \<in> {''tool'', ''tools'', ''tool_calling'', ''tool_control''} then m\<lparr>cap_tool_calling := True\<rparr>
     else if l \<in> {''image_prompt'', ''visual_prompt''} then m\<lparr>cap_image_prompt := True\<rparr>
     else if l \<in> {''static_page'', ''static_page_plan'', ''static_page_edit''} then m\<lparr>cap_static_page := True\<rparr>
     else if l \<in> {''codex'', ''codex_compatible'', ''codex_executor''} then m\<lparr>cap_codex_compatible := True\<rparr>
     else if name \<in> set (cap_extra m) then m
     else m\<lparr>cap_extra := cap_extra m @ [name]\<rparr>)"

definition capabilities_from_names :: "string list \<Rightarrow> ModelCapabilityManifest" where
  "capabilities_from_names names = fold add_capability names default_capabilities"

definition named :: "bool \<Rightarrow> string \<Rightarrow> string list" where
  "named b name = (if b then [name] else [])"

definition capability_names :: "ModelCapabilityManifest \<Rightarrow> string list" where
  "capability_names m =
     named (cap_chat m) ''chat'' @ named (cap_reasoning m) ''reasoning'' @
     named (cap_vision m) ''vision'' @ named (cap_audio m) ''audio'' @ named (cap_video m) ''video'' @
     named (cap_json_mode m) ''json_mode'' @ named (cap_tool_calling m) ''tool_calling'' @
     named (cap_image_prompt m) ''image_prompt'' @ named (cap_static_page m) ''static_page'' @
     named (cap_codex_compatible m) ''codex_compatible'' @ cap_extra m"

definition capabilities_has :: "ModelCapabilityManifest \<Rightarrow> string \<Rightarrow> bool" where
  "capabilities_has m capability \<longleftrightarrow>
     list_ex (\<lambda>name. eq_ignore_ascii_case name capability) (capability_names m)"

record ModelRateLimitHints =
  rl_requests_per_minute :: "32 word option"
  rl_tokens_per_minute :: "32 word option"
  rl_concurrent_requests :: "32 word option"

record ModelCostHints =
  co_input_microusd_per_million_tokens :: "64 word option"
  co_output_microusd_per_million_tokens :: "64 word option"
  co_currency :: "string option"

record ModelRedactionPolicy =
  rp_redact_provider_errors :: bool
  rp_redact_request_payloads :: bool
  rp_redact_response_payloads :: bool
  rp_max_error_chars :: "64 word"

record ModelProviderProfile =
  pp_profile_id :: string
  pp_provider_id :: string
  pp_model_id :: string
  pp_priority :: int
  pp_base_url :: "string option"
  pp_api_path :: "string option"
  pp_wire_api :: ModelProfileWireApi
  pp_auth_env_key_name :: "string option"
  pp_capabilities :: ModelCapabilityManifest
  pp_reasoning_effort :: "string option"
  pp_reasoning_wire_field :: OpenAiCompatibleReasoningWireField
  pp_timeout_ms :: "64 word option"
  pp_rate_limit :: ModelRateLimitHints
  pp_cost :: ModelCostHints
  pp_redaction :: ModelRedactionPolicy

definition default_redaction_policy :: ModelRedactionPolicy where
  "default_redaction_policy = \<lparr>rp_redact_provider_errors = True, rp_redact_request_payloads = True,
     rp_redact_response_payloads = True, rp_max_error_chars = of_nat PROVIDER_ERROR_MAX_CHARS\<rparr>"

definition ModelProviderProfile_new :: "string \<Rightarrow> string \<Rightarrow> string \<Rightarrow> ModelProviderProfile" where
  "ModelProviderProfile_new profile_id provider_id model_id =
     \<lparr>pp_profile_id = profile_id, pp_provider_id = provider_id, pp_model_id = model_id,
      pp_priority = 100, pp_base_url = None, pp_api_path = None, pp_wire_api = ChatCompletions,
      pp_auth_env_key_name = None, pp_capabilities = default_capabilities,
      pp_reasoning_effort = None, pp_reasoning_wire_field = ReasoningObject, pp_timeout_ms = None,
      pp_rate_limit = \<lparr>rl_requests_per_minute = None, rl_tokens_per_minute = None, rl_concurrent_requests = None\<rparr>,
      pp_cost = \<lparr>co_input_microusd_per_million_tokens = None, co_output_microusd_per_million_tokens = None,
        co_currency = None\<rparr>,
      pp_redaction = default_redaction_policy\<rparr>"

definition optional_env_wire_api :: "env \<Rightarrow> string \<Rightarrow> (ModelProfileWireApi, string) result" where
  "optional_env_wire_api env env_prefix = (case optional_env_string env env_prefix ''WIRE_API'' of
     None \<Rightarrow> Ok ChatCompletions
   | Some wire_api \<Rightarrow> ok_or (invalid_env env_prefix ''WIRE_API'' wire_api @
        ''; expected chat_completions, responses, or codex_compatible_shim'')
      (ModelProfileWireApi_from_env_value wire_api))"

definition ModelProviderProfile_from_env :: "env \<Rightarrow> string \<Rightarrow> (ModelProviderProfile, string) result" where
  "ModelProviderProfile_from_env env p =
     and_then (required_env_string env p ''PROVIDER_ID'') (\<lambda>provider_id.
     and_then (required_env_string env p ''MODEL_ID'') (\<lambda>model_id.
     let profile_id = unwrap_or (provider_id @ '':'' @ model_id) (optional_env_string env p ''PROFILE_ID'') in
     and_then (optional_env_i32 env p ''PRIORITY'') (\<lambda>priority.
     and_then (optional_env_u64 env p ''TIMEOUT_MS'') (\<lambda>timeout_ms.
     and_then (optional_env_wire_api env p) (\<lambda>wire_api.
     let capabilities = (case optional_env_string env p ''CAPABILITIES'' of
           Some names \<Rightarrow> capabilities_from_names (split_csv_env names)
         | None \<Rightarrow> default_capabilities) in
     and_then (optional_env_reasoning_effort env p ''REASONING_EFFORT'') (\<lambda>reasoning_effort.
     and_then (optional_env_reasoning_wire_field env p ''REASONING_FIELD'') (\<lambda>reasoning_field.
     and_then (optional_env_u32 env p ''RATE_LIMIT_RPM'') (\<lambda>rpm.
     and_then (optional_env_u32 env p ''RATE_LIMIT_TPM'') (\<lambda>tpm.
     and_then (optional_env_u32 env p ''RATE_LIMIT_CONCURRENCY'') (\<lambda>concurrency.
     and_then (optional_env_u64 env p ''COST_INPUT_MICROUSD_PER_MILLION_TOKENS'') (\<lambda>cost_input.
     and_then (optional_env_u64 env p ''COST_OUTPUT_MICROUSD_PER_MILLION_TOKENS'') (\<lambda>cost_output.
     and_then (optional_env_usize env p ''MAX_ERROR_CHARS'') (\<lambda>max_error_chars.
     Ok \<lparr>pp_profile_id = profile_id, pp_provider_id = provider_id, pp_model_id = model_id,
         pp_priority = unwrap_or 100 priority,
         pp_base_url = optional_env_string env p ''BASE_URL'',
         pp_api_path = optional_env_string env p ''API_PATH'',
         pp_wire_api = wire_api,
         pp_auth_env_key_name = optional_env_string env p ''AUTH_ENV_KEY'',
         pp_capabilities = capabilities,
         pp_reasoning_effort = reasoning_effort,
         pp_reasoning_wire_field = unwrap_or ReasoningObject reasoning_field,
         pp_timeout_ms = timeout_ms,
         pp_rate_limit = \<lparr>rl_requests_per_minute = rpm, rl_tokens_per_minute = tpm,
           rl_concurrent_requests = concurrency\<rparr>,
         pp_cost = \<lparr>co_input_microusd_per_million_tokens = cost_input,
           co_output_microusd_per_million_tokens = cost_output,
           co_currency = optional_env_string env p ''COST_CURRENCY''\<rparr>,
         pp_redaction = \<lparr>rp_redact_provider_errors = optional_env_bool env p ''REDACT_PROVIDER_ERRORS'' True,
           rp_redact_request_payloads = optional_env_bool env p ''REDACT_REQUEST_PAYLOADS'' True,
           rp_redact_response_payloads = optional_env_bool env p ''REDACT_RESPONSE_PAYLOADS'' True,
           rp_max_error_chars = unwrap_or (of_nat PROVIDER_ERROR_MAX_CHARS) max_error_chars\<rparr>\<rparr>)))))))))))))"

definition safe_env_key_name :: "string \<Rightarrow> string option" where
  "safe_env_key_name s0 = (let s = trim s0 in
     if s = [] then None
     else if list_all (\<lambda>c. is_ascii_alphanumeric c \<or> c = CHR ''_'') s then Some s
     else Some REDACTED_VALUE)"

definition provider_endpoint_scope :: "string option \<Rightarrow> string" where
  "provider_endpoint_scope base_url = (case option_filter (\<lambda>v. v \<noteq> []) (map_option trim base_url) of
     None \<Rightarrow> ''unconfigured''
   | Some base_url \<Rightarrow> let lower = to_ascii_lowercase base_url in
       if list_ex (\<lambda>prefix. starts_with prefix lower)
            [''http://127.0.0.1'', ''https://127.0.0.1'', ''http://localhost'', ''https://localhost'',
             ''http://[::1]'', ''https://[::1]'', ''unix:'']
       then ''local_private''
       else if starts_with ''http://'' lower \<or> starts_with ''https://'' lower then ''remote''
       else ''unknown'')"

text \<open>Whether the variable that holds the key of a profile is set to something.\<close>

definition auth_configured :: "env \<Rightarrow> ModelProviderProfile \<Rightarrow> bool" where
  "auth_configured env profile = unwrap_or False
     (map_option (\<lambda>v. trim v \<noteq> []) (Option.bind (pp_auth_env_key_name profile) env))"

record ProviderShimProfileSnapshotView =
  pv_profile_id :: string
  pv_provider_id :: string
  pv_model_id :: string
  pv_wire_api :: string
  pv_endpoint_scope :: string
  pv_base_url_configured :: bool
  pv_api_path :: "string option"
  pv_auth_env_key_name :: "string option"
  pv_auth_configured :: bool
  pv_timeout_ms :: "64 word option"
  pv_capabilities :: "string list"
  pv_rate_limit :: ModelRateLimitHints
  pv_cost :: ModelCostHints
  pv_redaction :: ModelRedactionPolicy

definition provider_shim_profile_snapshot :: "env \<Rightarrow> ModelProviderProfile \<Rightarrow> ProviderShimProfileSnapshotView" where
  "provider_shim_profile_snapshot env p =
     \<lparr>pv_profile_id = pp_profile_id p, pv_provider_id = pp_provider_id p, pv_model_id = pp_model_id p,
      pv_wire_api = ModelProfileWireApi_as_str (pp_wire_api p),
      pv_endpoint_scope = provider_endpoint_scope (pp_base_url p),
      pv_base_url_configured = (pp_base_url p \<noteq> None), pv_api_path = pp_api_path p,
      pv_auth_env_key_name = Option.bind (pp_auth_env_key_name p) safe_env_key_name,
      pv_auth_configured = auth_configured env p, pv_timeout_ms = pp_timeout_ms p,
      pv_capabilities = capability_names (pp_capabilities p),
      pv_rate_limit = pp_rate_limit p, pv_cost = pp_cost p, pv_redaction = pp_redaction p\<rparr>"

section \<open>Pools\<close>

record ModelGatewayLaneLimits =
  ll_max_concurrency :: "32 word option"
  ll_queue_limit :: "32 word option"
  ll_queue_timeout_ms :: "64 word option"

definition default_lane_limits :: ModelGatewayLaneLimits where
  "default_lane_limits = \<lparr>ll_max_concurrency = None, ll_queue_limit = None, ll_queue_timeout_ms = None\<rparr>"

record ModelGatewayPoolConfig =
  pc_lane :: string
  pc_lane_env_prefix :: string
  pc_lane_limits :: ModelGatewayLaneLimits
  pc_profiles :: "ModelProviderProfile list"

definition replace_char :: "char \<Rightarrow> char \<Rightarrow> string \<Rightarrow> string" where
  "replace_char a b s = map (\<lambda>c. if c = a then b else c) s"

definition pool_profile_from_env :: "env \<Rightarrow> string \<Rightarrow> (ModelProviderProfile, string) result" where
  "pool_profile_from_env env profile_name = (
     let prefix = model_gateway_profile_env_prefix profile_name in
     case ModelProviderProfile_from_env env prefix of
       Inl _ \<Rightarrow> Err (''failed to load model gateway profile '' @ profile_name)
     | Inr profile \<Rightarrow> Ok (if optional_env_string env prefix ''PROFILE_ID'' = None
         then profile\<lparr>pp_profile_id := replace_char CHR ''_'' CHR ''-'' (to_ascii_lowercase profile_name)\<rparr>
         else profile))"

definition ModelGatewayPoolConfig_from_env :: "env \<Rightarrow> string \<Rightarrow> (ModelGatewayPoolConfig option, string) result" where
  "ModelGatewayPoolConfig_from_env env lane = (
     let prefix = model_gateway_lane_env_prefix lane;
         names = unwrap_or [] (map_option split_csv_env (optional_env_string env prefix ''PROFILES'')) in
     if names = [] then Ok None
     else and_then (collect (map (pool_profile_from_env env) names)) (\<lambda>profiles.
     and_then (optional_env_u32 env prefix ''MAX_CONCURRENCY'') (\<lambda>max_concurrency.
     and_then (optional_env_u32 env prefix ''QUEUE_LIMIT'') (\<lambda>queue_limit.
     and_then (optional_env_u64 env prefix ''QUEUE_TIMEOUT_MS'') (\<lambda>queue_timeout_ms.
     Ok (Some \<lparr>pc_lane = lane, pc_lane_env_prefix = prefix,
         pc_lane_limits = \<lparr>ll_max_concurrency = max_concurrency, ll_queue_limit = queue_limit,
           ll_queue_timeout_ms = queue_timeout_ms\<rparr>,
         pc_profiles = profiles\<rparr>))))))"

text \<open>\<open>sort_by\<close> is stable: by falling priority, then by the bytes of the id.\<close>

definition active_profiles_by_priority :: "ModelGatewayPoolConfig \<Rightarrow> ModelProviderProfile list" where
  "active_profiles_by_priority pool = sort_key (\<lambda>p. (- pp_priority p, pp_profile_id p)) (pc_profiles pool)"

section \<open>Routes\<close>

record ModelRoute =
  mr_lane :: string
  mr_provider :: string
  mr_model :: string
  mr_capability_class :: "string list"
  mr_priority :: int
  mr_fallback_route :: "string option"

record LlmRuntimeSelection =
  sel_mode :: string
  sel_provider :: string
  sel_model :: string
  sel_lane :: string

definition to_model_route :: "ModelProviderProfile \<Rightarrow> string \<Rightarrow> int \<Rightarrow> ModelRoute" where
  "to_model_route p lane priority = \<lparr>mr_lane = lane, mr_provider = pp_provider_id p,
     mr_model = pp_model_id p, mr_capability_class = capability_names (pp_capabilities p),
     mr_priority = priority, mr_fallback_route = None\<rparr>"

definition runtime_selection_for_lane :: "ModelProviderProfile \<Rightarrow> string \<Rightarrow> LlmRuntimeSelection" where
  "runtime_selection_for_lane p lane = \<lparr>sel_mode = ''provider'', sel_provider = pp_provider_id p,
     sel_model = pp_model_id p, sel_lane = lane\<rparr>"

definition MODEL_LANE_ASSISTANT_CHAT :: string where
  "MODEL_LANE_ASSISTANT_CHAT = ''assistant_chat''"

definition default_model_route :: "string \<Rightarrow> string \<Rightarrow> string \<Rightarrow> string list \<Rightarrow> ModelRoute" where
  "default_model_route lane provider model capability_class = \<lparr>mr_lane = lane, mr_provider = provider,
     mr_model = model, mr_capability_class = capability_class, mr_priority = 0, mr_fallback_route = None\<rparr>"

definition default_model_routes :: "ModelRoute list" where
  "default_model_routes =
    [default_model_route MODEL_LANE_ASSISTANT_CHAT ''placeholder'' ''assistant-chat-placeholder''
       [''text'', ''conversation''],
     default_model_route ''assistant_react_json'' ''placeholder'' ''assistant-react-json-placeholder''
       [''text'', ''json'', ''tool_control''],
     default_model_route ''static_page_intent'' ''placeholder'' ''static-page-intent-placeholder''
       [''text'', ''json'', ''static_page''],
     default_model_route ''static_page_image_prompt'' ''placeholder'' ''static-page-image-prompt-placeholder''
       [''text'', ''visual_prompt''],
     default_model_route ''chat_session'' ''placeholder'' ''chat-session-placeholder''
       [''text'', ''conversation'', ''rag''],
     default_model_route ''dataset_output'' ''placeholder'' ''dataset-output-placeholder''
       [''text'', ''dataset_output''],
     default_model_route ''document_vlm'' ''placeholder'' ''document-vlm-placeholder''
       [''vision'', ''document''],
     default_model_route ''audio_transcript'' ''placeholder'' ''audio-transcript-placeholder''
       [''audio'', ''transcript''],
     default_model_route ''video_scene_summary'' ''placeholder'' ''video-scene-summary-placeholder''
       [''video'', ''vision'', ''summary''],
     default_model_route ''report_planning'' ''placeholder'' ''report-planning-placeholder''
       [''text'', ''json'', ''report''],
     default_model_route ''codex_conversation'' ''placeholder'' ''codex-conversation-placeholder''
       [''text'', ''conversation'', ''json'', ''tool_control'', ''codex_executor''],
     default_model_route ''codex_task_summary'' ''placeholder'' ''codex-task-summary-placeholder''
       [''text'', ''codex_task'']]"

definition model_route_from_env :: "env \<Rightarrow> string \<Rightarrow> ModelRoute option" where
  "model_route_from_env env lane = (let p = model_route_env_prefix lane in
     Option.bind (env (env_name p ''PROVIDER'')) (\<lambda>provider.
       let model = unwrap_or (trim provider @ ''-default'') (env (env_name p ''MODEL''));
           capability_class = unwrap_or [] (map_option split_csv_env (env (env_name p ''CAPABILITIES'')));
           priority = unwrap_or 100 (Option.bind (env (env_name p ''PRIORITY''))
             (\<lambda>v. case parse_i32 v of Inr n \<Rightarrow> Some n | Inl _ \<Rightarrow> None));
           fallback_route = option_filter (\<lambda>v. v \<noteq> []) (map_option trim (env (env_name p ''FALLBACK''))) in
       Some \<lparr>mr_lane = lane, mr_provider = trim provider, mr_model = trim model,
         mr_capability_class = capability_class, mr_priority = priority,
         mr_fallback_route = fallback_route\<rparr>))"

text \<open>\<open>max_by_key\<close>: the last of the elements with the greatest key.\<close>

fun max_by_key :: "('a \<Rightarrow> 'k::linorder) \<Rightarrow> 'a list \<Rightarrow> 'a option" where
  "max_by_key key [] = None"
| "max_by_key key (x # xs) = (case max_by_key key xs of
     None \<Rightarrow> Some x
   | Some y \<Rightarrow> if key x \<le> key y then Some y else Some x)"

definition select_route :: "ModelRoute list \<Rightarrow> string \<Rightarrow> ModelRoute option" where
  "select_route routes lane = max_by_key mr_priority (filter (\<lambda>r. mr_lane r = lane) routes)"

definition override_lane :: "env \<Rightarrow> string \<Rightarrow> ModelRoute list \<Rightarrow> ModelRoute list" where
  "override_lane env lane routes = (case model_route_from_env env lane of
     Some route \<Rightarrow> filter (\<lambda>existing. mr_lane existing \<noteq> lane) routes @ [route]
   | None \<Rightarrow> routes)"

definition apply_env_overrides :: "env \<Rightarrow> string \<Rightarrow> ModelRoute list \<Rightarrow> ModelRoute list" where
  "apply_env_overrides env default_lane routes = (
     let lanes = map mr_lane routes;
         lanes = (if trim default_lane \<noteq> [] \<and> default_lane \<notin> set lanes
                  then lanes @ [trim default_lane] else lanes) in
     fold (override_lane env) lanes routes)"

definition routes_from_env_with_defaults :: "env \<Rightarrow> string \<Rightarrow> ModelRoute list" where
  "routes_from_env_with_defaults env default_lane = apply_env_overrides env default_lane default_model_routes"

definition resolve_runtime_selection_from_env :: "env \<Rightarrow> string \<Rightarrow> string \<Rightarrow> string \<Rightarrow> LlmRuntimeSelection" where
  "resolve_runtime_selection_from_env env env_prefix lane default_model = (
     let mode = unwrap_or ''placeholder'' (env (env_name env_prefix ''RUNTIME_MODE''));
         provider = unwrap_or mode (env (env_name env_prefix ''RUNTIME_PROVIDER''));
         model = unwrap_or default_model (env (env_name env_prefix ''RUNTIME_MODEL'')) in
     case option_filter (\<lambda>route. mr_priority route > 0)
            (select_route (routes_from_env_with_defaults env lane) lane) of
       Some route \<Rightarrow>
         \<lparr>sel_mode = (if mr_provider route = ''placeholder'' then ''placeholder'' else ''provider''),
          sel_provider = mr_provider route, sel_model = mr_model route, sel_lane = lane\<rparr>
     | None \<Rightarrow> \<lparr>sel_mode = mode, sel_provider = provider, sel_model = model, sel_lane = lane\<rparr>)"

section \<open>Capabilities\<close>

text \<open>The names that stand for a flag, in lower case.\<close>

definition flag_names :: "string set" where
  "flag_names = {''chat'', ''conversation'', ''reasoning'', ''think'', ''thinking'', ''vision'', ''document'',
     ''vlm'', ''audio'', ''transcript'', ''video'', ''scene'', ''json'', ''json_mode'', ''structured_output'',
     ''tool'', ''tools'', ''tool_calling'', ''tool_control'', ''image_prompt'', ''visual_prompt'',
     ''static_page'', ''static_page_plan'', ''static_page_edit'', ''codex'', ''codex_compatible'',
     ''codex_executor''}"

definition extra_name :: "string \<Rightarrow> bool" where
  "extra_name s \<longleftrightarrow> s \<noteq> [] \<and> trim s = s \<and> to_ascii_lowercase s \<notin> flag_names"

definition wf_capabilities :: "ModelCapabilityManifest \<Rightarrow> bool" where
  "wf_capabilities m \<longleftrightarrow> distinct (cap_extra m) \<and> list_all extra_name (cap_extra m)"

lemma add_flag:
  "add_capability ''chat'' m = m\<lparr>cap_chat := True\<rparr>"
  "add_capability ''reasoning'' m = m\<lparr>cap_reasoning := True\<rparr>"
  "add_capability ''vision'' m = m\<lparr>cap_vision := True\<rparr>"
  "add_capability ''audio'' m = m\<lparr>cap_audio := True\<rparr>"
  "add_capability ''video'' m = m\<lparr>cap_video := True\<rparr>"
  "add_capability ''json_mode'' m = m\<lparr>cap_json_mode := True\<rparr>"
  "add_capability ''tool_calling'' m = m\<lparr>cap_tool_calling := True\<rparr>"
  "add_capability ''image_prompt'' m = m\<lparr>cap_image_prompt := True\<rparr>"
  "add_capability ''static_page'' m = m\<lparr>cap_static_page := True\<rparr>"
  "add_capability ''codex_compatible'' m = m\<lparr>cap_codex_compatible := True\<rparr>"
  by (simp_all add: add_capability_def trim_graphic graphic_def to_ascii_lowercase_def)

lemma add_named:
  "fold add_capability (named b ''chat'') m = m\<lparr>cap_chat := cap_chat m \<or> b\<rparr>"
  "fold add_capability (named b ''reasoning'') m = m\<lparr>cap_reasoning := cap_reasoning m \<or> b\<rparr>"
  "fold add_capability (named b ''vision'') m = m\<lparr>cap_vision := cap_vision m \<or> b\<rparr>"
  "fold add_capability (named b ''audio'') m = m\<lparr>cap_audio := cap_audio m \<or> b\<rparr>"
  "fold add_capability (named b ''video'') m = m\<lparr>cap_video := cap_video m \<or> b\<rparr>"
  "fold add_capability (named b ''json_mode'') m = m\<lparr>cap_json_mode := cap_json_mode m \<or> b\<rparr>"
  "fold add_capability (named b ''tool_calling'') m = m\<lparr>cap_tool_calling := cap_tool_calling m \<or> b\<rparr>"
  "fold add_capability (named b ''image_prompt'') m = m\<lparr>cap_image_prompt := cap_image_prompt m \<or> b\<rparr>"
  "fold add_capability (named b ''static_page'') m = m\<lparr>cap_static_page := cap_static_page m \<or> b\<rparr>"
  "fold add_capability (named b ''codex_compatible'') m = m\<lparr>cap_codex_compatible := cap_codex_compatible m \<or> b\<rparr>"
  by (simp_all add: named_def add_flag)

lemma add_extra:
  "extra_name x \<Longrightarrow> add_capability x m =
     (if x \<in> set (cap_extra m) then m else m\<lparr>cap_extra := cap_extra m @ [x]\<rparr>)"
  by (simp add: extra_name_def add_capability_def flag_names_def Let_def)

lemma fold_add_extra:
  "list_all extra_name xs \<Longrightarrow> distinct (cap_extra m @ xs) \<Longrightarrow>
     fold add_capability xs m = m\<lparr>cap_extra := cap_extra m @ xs\<rparr>"
  by (induction xs arbitrary: m) (simp_all add: add_extra)

lemma wf_add_capability: "wf_capabilities m \<Longrightarrow> wf_capabilities (add_capability x m)"
  by (auto simp: wf_capabilities_def add_capability_def extra_name_def flag_names_def Let_def)

lemma wf_capabilities_from_names: "wf_capabilities (capabilities_from_names names)"
proof -
  have "wf_capabilities (fold add_capability names m)" if "wf_capabilities m" for m
    using that by (induction names arbitrary: m) (simp_all add: wf_add_capability)
  then show ?thesis
    by (simp add: capabilities_from_names_def wf_capabilities_def default_capabilities_def)
qed

lemma capabilities_from_own_names: "wf_capabilities m \<Longrightarrow> capabilities_from_names (capability_names m) = m"
  by (simp add: capabilities_from_names_def capability_names_def add_named fold_add_extra
      default_capabilities_def wf_capabilities_def)

text \<open>Capabilities read from any list of names, with blanks, synonyms, upper case or repetitions,
  are the ones read from the names they are printed as: printing and reading again loses nothing,
  so a profile that is stored by its names is the same profile when it is loaded.\<close>

theorem capabilities_roundtrip:
  "capabilities_from_names (capability_names (capabilities_from_names names)) = capabilities_from_names names"
  by (rule capabilities_from_own_names) (rule wf_capabilities_from_names)

section \<open>Selecting a route\<close>

lemma model_route_from_env_lane: "model_route_from_env env lane = Some r \<Longrightarrow> mr_lane r = lane"
  by (auto simp: model_route_from_env_def Let_def bind_eq_Some_conv)

lemma filter_override_lane:
  "filter (\<lambda>r. mr_lane r = lane) (override_lane env l routes) =
     (if l = lane then (case model_route_from_env env lane of
        Some r \<Rightarrow> [r] | None \<Rightarrow> filter (\<lambda>r. mr_lane r = lane) routes)
      else filter (\<lambda>r. mr_lane r = lane) routes)"
  by (auto simp: override_lane_def filter_filter filter_empty_conv dest: model_route_from_env_lane
      intro!: filter_cong split: option.split)

lemma filter_overrides:
  "filter (\<lambda>r. mr_lane r = lane) (fold (override_lane env) lanes routes) =
     (if lane \<in> set lanes then (case model_route_from_env env lane of
        Some r \<Rightarrow> [r] | None \<Rightarrow> filter (\<lambda>r. mr_lane r = lane) routes)
      else filter (\<lambda>r. mr_lane r = lane) routes)"
  by (induction lanes arbitrary: routes) (auto simp: filter_override_lane split: option.split)

lemma select_route_overrides:
  assumes "trim lane = lane" "lane \<noteq> []"
  shows "select_route (apply_env_overrides env lane routes) lane =
    (case model_route_from_env env lane of Some r \<Rightarrow> Some r | None \<Rightarrow> select_route routes lane)"
  using assms by (auto simp: select_route_def apply_env_overrides_def filter_overrides Let_def split: option.split)

lemma default_routes_rank: "select_route default_model_routes lane = Some r \<Longrightarrow> mr_priority r = 0"
proof -
  have key: "max_by_key key xs = Some y \<Longrightarrow> y \<in> set xs" for key :: "ModelRoute \<Rightarrow> int" and xs y
    by (induction xs arbitrary: y) (auto split: option.splits if_splits)
  have "\<forall>r \<in> set default_model_routes. mr_priority r = 0"
    by (simp add: default_model_routes_def default_model_route_def)
  then show "select_route default_model_routes lane = Some r \<Longrightarrow> mr_priority r = 0"
    unfolding select_route_def by (auto dest!: key)
qed

text \<open>The runtime of a lane: for a lane with a name that is not blank, the route the environment sets
  for it wins over the defaults and over the routes of the other lanes, and decides the provider
  and the model when its priority is positive; otherwise the runtime is the one the three
  variables of the prefix give, with their defaults.\<close>

theorem runtime_selection:
  assumes "trim lane = lane" and "lane \<noteq> []"
  shows "resolve_runtime_selection_from_env env env_prefix lane default_model =
    (case option_filter (\<lambda>r. mr_priority r > 0) (model_route_from_env env lane) of
       Some r \<Rightarrow>
         \<lparr>sel_mode = (if mr_provider r = ''placeholder'' then ''placeholder'' else ''provider''),
          sel_provider = mr_provider r, sel_model = mr_model r, sel_lane = lane\<rparr>
     | None \<Rightarrow>
         let mode = unwrap_or ''placeholder'' (env (env_name env_prefix ''RUNTIME_MODE'')) in
         \<lparr>sel_mode = mode,
          sel_provider = unwrap_or mode (env (env_name env_prefix ''RUNTIME_PROVIDER'')),
          sel_model = unwrap_or default_model (env (env_name env_prefix ''RUNTIME_MODEL'')),
          sel_lane = lane\<rparr>)"
proof (cases "model_route_from_env env lane")
  case None
  then have "option_filter (\<lambda>r. mr_priority r > 0) (select_route (routes_from_env_with_defaults env lane) lane) = None"
    using default_routes_rank [of lane] select_route_overrides [OF assms, of env default_model_routes]
    by (auto simp: routes_from_env_with_defaults_def option_filter_def split: option.splits)
  with None show ?thesis by (simp add: resolve_runtime_selection_from_env_def Let_def)
next
  case (Some r)
  then have "select_route (routes_from_env_with_defaults env lane) lane = Some r"
    using select_route_overrides [OF assms, of env default_model_routes]
    by (simp add: routes_from_env_with_defaults_def)
  with Some show ?thesis by (simp add: resolve_runtime_selection_from_env_def Let_def)
qed

definition example_env :: env where
  "example_env = Map.empty(''LLM_GATEWAY_ROUTE_CHAT_SESSION_PROVIDER'' \<mapsto> '' minimax '',
     ''RUN_RUNTIME_MODE'' \<mapsto> ''scripted'')"

theorem runtime_selection_witness:
  "resolve_runtime_selection_from_env example_env ''RUN'' ''chat_session'' ''m'' =
     \<lparr>sel_mode = ''provider'', sel_provider = ''minimax'', sel_model = ''minimax-default'', sel_lane = ''chat_session''\<rparr> \<and>
   resolve_runtime_selection_from_env example_env ''RUN'' ''document_vlm'' ''m'' =
     \<lparr>sel_mode = ''scripted'', sel_provider = ''scripted'', sel_model = ''m'', sel_lane = ''document_vlm''\<rparr>"
proof -
  have t: "trim '' minimax '' = ''minimax''" by code_simp
  have p: "model_route_env_prefix ''chat_session'' = ''LLM_GATEWAY_ROUTE_CHAT_SESSION''"
    "model_route_env_prefix ''document_vlm'' = ''LLM_GATEWAY_ROUTE_DOCUMENT_VLM''" by code_simp+
  show ?thesis
    using runtime_selection [of "''chat_session''" example_env "''RUN''" "''m''"]
      runtime_selection [of "''document_vlm''" example_env "''RUN''" "''m''"]
    by (simp add: trim_graphic graphic_def model_route_from_env_def p t env_name_def example_env_def Let_def)
qed

lemma active_profiles_sorted:
  "sorted (map (\<lambda>p. (- pp_priority p, pp_profile_id p)) (active_profiles_by_priority pool))"
  "set (active_profiles_by_priority pool) = set (pc_profiles pool)"
  "length (active_profiles_by_priority pool) = length (pc_profiles pool)"
  by (simp_all add: active_profiles_by_priority_def)

end
