(* ===== verification/Gateway_Permits.thy ===== *)
theory Gateway_Permits
  imports Model_Profiles Gateway_Limiter "HOL-Library.Multiset"
begin

text \<open>
  The permits of the model gateway: \<open>acquire\<close>, \<open>acquire_lane_and_profile\<close> of
  \<open>src/crates/platform-api/src/model_gateway_runtime.rs\<close> and \<open>external_channel_acquire_gateway_permit\<close>
  of \<open>src/crates/platform-api/src/lib.rs\<close>, which every call of a model goes through.

  Many requests are in these functions at once, so they are a step relation: a state is the
  limiter, a clock and the multiset of the requests, each with the point it has reached; one step
  runs one request from one access of a shared object to the next. The three \<open>ensure\<close> calls, which
  only insert, and the question to the circuit breaker are one step. Tokio's semaphore gives a permit
  only while fewer than \<open>max_concurrency\<close> are out and takes a dropped one back; when a waiting
  request gets one, and whether \<open>try_acquire_owned\<close> fails although one is free, is left open. The
  semaphores are never closed. A future that is dropped while it waits, as when the client of the
  request goes away, is the step \<open>dropped\<close>: what it holds is given back, and none of the code after the
  \<open>await\<close> runs.
\<close>

section \<open>Attempts\<close>

record ExternalChannelChatRuntimeAttempt =
  at_env_prefix :: string
  at_label :: string
  at_runtime :: LlmRuntimeSelection
  at_profile :: "ModelProviderProfile option"
  at_lane_limits :: "ModelGatewayLaneLimits option"

definition external_channel_chat_attempt_from_profile ::
    "ModelProviderProfile \<Rightarrow> ModelGatewayLaneLimits option \<Rightarrow> ExternalChannelChatRuntimeAttempt" where
  "external_channel_chat_attempt_from_profile profile lane_limits =
     \<lparr>at_env_prefix = model_gateway_profile_env_prefix (pp_profile_id profile),
      at_label = ''profile:'' @ pp_profile_id profile,
      at_runtime = runtime_selection_for_lane profile MODEL_LANE_ASSISTANT_CHAT,
      at_profile = Some profile, at_lane_limits = lane_limits\<rparr>"

definition external_channel_fallback_runtime_selection_from_env :: "env \<Rightarrow> LlmRuntimeSelection option" where
  "external_channel_fallback_runtime_selection_from_env env = (
     let mode = env ''ASSISTANT_RUN_FALLBACK_RUNTIME_MODE'';
         provider = env ''ASSISTANT_RUN_FALLBACK_RUNTIME_PROVIDER'';
         model = env ''ASSISTANT_RUN_FALLBACK_RUNTIME_MODEL'' in
     if mode = None \<and> provider = None \<and> model = None then None
     else let mode = unwrap_or ''provider'' mode in
       Some \<lparr>sel_mode = mode, sel_provider = unwrap_or mode provider,
         sel_model = unwrap_or ''placeholder-assistant-run-v1'' model,
         sel_lane = MODEL_LANE_ASSISTANT_CHAT\<rparr>)"

definition runtime_attempt :: "string \<Rightarrow> string \<Rightarrow> LlmRuntimeSelection \<Rightarrow> ExternalChannelChatRuntimeAttempt" where
  "runtime_attempt env_prefix label runtime = \<lparr>at_env_prefix = env_prefix, at_label = label,
     at_runtime = runtime, at_profile = None, at_lane_limits = None\<rparr>"

text \<open>\<open>external_channel_same_runtime_selection\<close> compares the four fields.\<close>

definition external_channel_same_runtime_selection :: "LlmRuntimeSelection \<Rightarrow> LlmRuntimeSelection \<Rightarrow> bool" where
  "external_channel_same_runtime_selection l r \<longleftrightarrow> sel_mode l = sel_mode r \<and>
     sel_provider l = sel_provider r \<and> sel_model l = sel_model r \<and> sel_lane l = sel_lane r"

definition distinct_fallback :: "env \<Rightarrow> LlmRuntimeSelection \<Rightarrow> ExternalChannelChatRuntimeAttempt list" where
  "distinct_fallback env primary = (case external_channel_fallback_runtime_selection_from_env env of
     Some fallback \<Rightarrow> if external_channel_same_runtime_selection primary fallback then []
       else [runtime_attempt ''ASSISTANT_RUN_FALLBACK'' ''fallback'' fallback]
   | None \<Rightarrow> [])"

definition external_channel_chat_runtime_attempts ::
    "env \<Rightarrow> LlmRuntimeSelection \<Rightarrow> ExternalChannelChatRuntimeAttempt list" where
  "external_channel_chat_runtime_attempts env primary =
     [runtime_attempt ''ASSISTANT_RUN'' ''primary'' primary] @ distinct_fallback env primary @
     (if distinct_fallback env primary = [] \<and>
         env_flag env ''EXTERNAL_CHANNEL_DIRECT_REPLY_SAME_RUNTIME_RETRY'' True
      then [runtime_attempt ''ASSISTANT_RUN'' ''primary_retry'' primary] else [])"

definition assistant_run_chat_runtime_attempts ::
    "env \<Rightarrow> LlmRuntimeSelection \<Rightarrow> ExternalChannelChatRuntimeAttempt list" where
  "assistant_run_chat_runtime_attempts env primary =
     [runtime_attempt ''ASSISTANT_RUN'' ''primary'' primary] @ distinct_fallback env primary"

section \<open>Requests\<close>

text \<open>
  The points of \<open>external_channel_acquire_gateway_permit\<close> between two accesses of shared objects. The
  lane is acquired first, then the profile: \<open>Trying\<close> before \<open>try_acquire_owned\<close>; \<open>Over\<close> after \<open>fetch_add\<close>
  found the queue full, before its \<open>fetch_sub\<close>; \<open>Waiting\<close> in the queue; \<open>Granted\<close> and \<open>Expired\<close> after
  the wait, before its \<open>fetch_sub\<close>; \<open>Failing\<close> with an error, before the lane permit is dropped;
  \<open>Reserving\<close> with both permits; \<open>Refusing\<close> after the budget said no, before both are dropped;
  \<open>Running\<close> with the permits and the reservation. \<open>Dropped\<close>, \<open>Refused\<close> and \<open>Finished\<close> are final.
\<close>

datatype stage = At_lane | At_profile

datatype phase =
    Arrived
  | Trying stage
  | Over stage
  | Waiting stage
  | Granted stage
  | Expired stage
  | Failing stage GatewayLimitError
  | Reserving
  | Refusing GatewayLimitError
  | Running GatewayRateLimitReservation
  | Refused GatewayLimitError
  | Dropped stage
  | Finished

record permit_request =
  rq_profile :: ModelProviderProfile
  rq_lane_limits :: ModelGatewayLaneLimits
  rq_input :: string
  rq_phase :: phase

record gate =
  gt_limiter :: GatewayRuntimeLimiter
  gt_clock :: instant
  gt_requests :: "permit_request multiset"

text \<open>The request of an attempt with a profile; one without a profile takes no permit.\<close>

definition request_of :: "ExternalChannelChatRuntimeAttempt \<Rightarrow> string \<Rightarrow> permit_request option" where
  "request_of attempt provider_input = map_option (\<lambda>profile.
     \<lparr>rq_profile = profile, rq_lane_limits = unwrap_or default_lane_limits (at_lane_limits attempt),
      rq_input = provider_input, rq_phase = Arrived\<rparr>) (at_profile attempt)"

definition admission ::
    "instant \<Rightarrow> permit_request \<Rightarrow> GatewayRuntimeLimiter \<Rightarrow> (unit, GatewayLimitError) result \<times> GatewayRuntimeLimiter" where
  "admission now r l0 = (
     let profile = rq_profile r; limits = rq_lane_limits r;
         l = ensure_lane_limit MODEL_LANE_ASSISTANT_CHAT (ll_max_concurrency limits)
               (ll_queue_limit limits) (ll_queue_timeout_ms limits) l0;
         l = ensure_profile_limit (pp_profile_id profile) (rl_concurrent_requests (pp_rate_limit profile))
               (ll_queue_limit limits) (ll_queue_timeout_ms limits) l;
         l = ensure_profile_rate_limit (pp_profile_id profile) (rl_requests_per_minute (pp_rate_limit profile))
               (rl_tokens_per_minute (pp_rate_limit profile)) l;
         (availability, l) = provider_available (pp_profile_id profile) now l in
     (if availability = None then Err CircuitOpen else Ok (), l))"

definition name_at :: "stage \<Rightarrow> permit_request \<Rightarrow> string" where
  "name_at st r = (case st of At_lane \<Rightarrow> MODEL_LANE_ASSISTANT_CHAT | At_profile \<Rightarrow> pp_profile_id (rq_profile r))"

definition stage_bucket :: "stage \<Rightarrow> string \<Rightarrow> GatewayRuntimeLimiter \<Rightarrow> GatewayLimitBucket" where
  "stage_bucket st name l = (case st of At_lane \<Rightarrow> fst (lane_bucket name l) | At_profile \<Rightarrow> fst (profile_bucket name l))"

text \<open>A change of the bucket behind the \<open>Arc\<close>.\<close>

definition on_bucket ::
    "stage \<Rightarrow> string \<Rightarrow> (GatewayLimitBucket \<Rightarrow> GatewayLimitBucket) \<Rightarrow> GatewayRuntimeLimiter \<Rightarrow> GatewayRuntimeLimiter" where
  "on_bucket st name f l = (case st of
     At_lane \<Rightarrow> l\<lparr>gl_lanes := (gl_lanes l)(name \<mapsto> f (stage_bucket st name l))\<rparr>
   | At_profile \<Rightarrow> l\<lparr>gl_profiles := (gl_profiles l)(name \<mapsto> f (stage_bucket st name l))\<rparr>)"

definition take_permit :: "GatewayLimitBucket \<Rightarrow> GatewayLimitBucket" where
  "take_permit b = b\<lparr>bk_held := bk_held b + 1\<rparr>"

definition drop_permit :: "GatewayLimitBucket \<Rightarrow> GatewayLimitBucket" where
  "drop_permit b = b\<lparr>bk_held := bk_held b - 1\<rparr>"

definition fetch_add :: "GatewayLimitBucket \<Rightarrow> GatewayLimitBucket" where
  "fetch_add b = b\<lparr>bk_queued := bk_queued b + 1\<rparr>"

definition fetch_sub :: "GatewayLimitBucket \<Rightarrow> GatewayLimitBucket" where
  "fetch_sub b = b\<lparr>bk_queued := bk_queued b - 1\<rparr>"

text \<open>With the lane permit the profile is tried, with both the budget.\<close>

definition acquired :: "stage \<Rightarrow> phase" where
  "acquired st = (case st of At_lane \<Rightarrow> Trying At_profile | At_profile \<Rightarrow> Reserving)"

definition drop_lane_permit :: "stage \<Rightarrow> permit_request \<Rightarrow> GatewayRuntimeLimiter \<Rightarrow> GatewayRuntimeLimiter" where
  "drop_lane_permit st r l = (case st of At_lane \<Rightarrow> l
     | At_profile \<Rightarrow> on_bucket At_lane (name_at At_lane r) drop_permit l)"

definition drop_both :: "permit_request \<Rightarrow> GatewayRuntimeLimiter \<Rightarrow> GatewayRuntimeLimiter" where
  "drop_both r l = on_bucket At_profile (name_at At_profile r) drop_permit
     (on_bucket At_lane (name_at At_lane r) drop_permit l)"

text \<open>
  What the callers record of a call that got its permit, before they drop it: the tokens it used,
  and its success or failure.
\<close>

definition settle ::
    "instant \<Rightarrow> string \<Rightarrow> GatewayRateLimitReservation \<Rightarrow> 64 word option \<Rightarrow>
     (string \<times> datetime + 64 word option \<times> datetime) option \<Rightarrow> GatewayRuntimeLimiter \<Rightarrow> GatewayRuntimeLimiter" where
  "settle now profile_id reservation usage verdict l = (
     let l = (case usage of Some tokens \<Rightarrow> record_profile_actual_token_usage reservation tokens now l | None \<Rightarrow> l) in
     case verdict of
       None \<Rightarrow> l
     | Some (Inl (reason, wall)) \<Rightarrow> record_provider_failure profile_id reason now wall l
     | Some (Inr (latency, wall)) \<Rightarrow> record_provider_success profile_id latency wall l)"

inductive gate_step :: "gate \<Rightarrow> gate \<Rightarrow> bool" where
  ticked: "gate_step \<lparr>gt_limiter = l, gt_clock = now, gt_requests = M\<rparr>
     \<lparr>gt_limiter = l, gt_clock = now', gt_requests = M\<rparr>"
    if "now \<le> now'"
| arrived: "gate_step \<lparr>gt_limiter = l, gt_clock = now, gt_requests = M\<rparr>
     \<lparr>gt_limiter = l, gt_clock = now, gt_requests = add_mset (r\<lparr>rq_phase := Arrived\<rparr>) M\<rparr>"
| admitted: "gate_step \<lparr>gt_limiter = l, gt_clock = now, gt_requests = add_mset r M\<rparr>
     \<lparr>gt_limiter = l', gt_clock = now, gt_requests = add_mset (r\<lparr>rq_phase := p\<rparr>) M\<rparr>"
    if "rq_phase r = Arrived" and "admission now r l = (result, l')"
    and "p = (case result of Inl e \<Rightarrow> Refused e | Inr _ \<Rightarrow> Trying At_lane)"
| took: "gate_step \<lparr>gt_limiter = l, gt_clock = now, gt_requests = add_mset r M\<rparr>
     \<lparr>gt_limiter = on_bucket st (name_at st r) take_permit l, gt_clock = now,
      gt_requests = add_mset (r\<lparr>rq_phase := acquired st\<rparr>) M\<rparr>"
    if "rq_phase r = Trying st" and "0 < available_permits (stage_bucket st (name_at st r) l)"
| no_queue: "gate_step \<lparr>gt_limiter = l, gt_clock = now, gt_requests = add_mset r M\<rparr>
     \<lparr>gt_limiter = l, gt_clock = now, gt_requests = add_mset (r\<lparr>rq_phase := Failing st QueueFull\<rparr>) M\<rparr>"
    if "rq_phase r = Trying st" and "bk_queue_limit (stage_bucket st (name_at st r) l) = 0"
| queued: "gate_step \<lparr>gt_limiter = l, gt_clock = now, gt_requests = add_mset r M\<rparr>
     \<lparr>gt_limiter = on_bucket st (name_at st r) fetch_add l, gt_clock = now,
      gt_requests = add_mset (r\<lparr>rq_phase := if bk_queued b \<ge> bk_queue_limit b then Over st else Waiting st\<rparr>) M\<rparr>"
    if "rq_phase r = Trying st" and "b = stage_bucket st (name_at st r) l" and "bk_queue_limit b \<noteq> 0"
| left_full: "gate_step \<lparr>gt_limiter = l, gt_clock = now, gt_requests = add_mset r M\<rparr>
     \<lparr>gt_limiter = on_bucket st (name_at st r) fetch_sub l, gt_clock = now,
      gt_requests = add_mset (r\<lparr>rq_phase := Failing st QueueFull\<rparr>) M\<rparr>"
    if "rq_phase r = Over st"
| granted: "gate_step \<lparr>gt_limiter = l, gt_clock = now, gt_requests = add_mset r M\<rparr>
     \<lparr>gt_limiter = on_bucket st (name_at st r) take_permit l, gt_clock = now,
      gt_requests = add_mset (r\<lparr>rq_phase := Granted st\<rparr>) M\<rparr>"
    if "rq_phase r = Waiting st" and "0 < available_permits (stage_bucket st (name_at st r) l)"
| left_granted: "gate_step \<lparr>gt_limiter = l, gt_clock = now, gt_requests = add_mset r M\<rparr>
     \<lparr>gt_limiter = on_bucket st (name_at st r) fetch_sub l, gt_clock = now,
      gt_requests = add_mset (r\<lparr>rq_phase := acquired st\<rparr>) M\<rparr>"
    if "rq_phase r = Granted st"
| expired: "gate_step \<lparr>gt_limiter = l, gt_clock = now, gt_requests = add_mset r M\<rparr>
     \<lparr>gt_limiter = l, gt_clock = now, gt_requests = add_mset (r\<lparr>rq_phase := Expired st\<rparr>) M\<rparr>"
    if "rq_phase r = Waiting st"
| left_expired: "gate_step \<lparr>gt_limiter = l, gt_clock = now, gt_requests = add_mset r M\<rparr>
     \<lparr>gt_limiter = on_bucket st (name_at st r) fetch_sub l, gt_clock = now,
      gt_requests = add_mset (r\<lparr>rq_phase := Failing st QueueTimeout\<rparr>) M\<rparr>"
    if "rq_phase r = Expired st"
| failed: "gate_step \<lparr>gt_limiter = l, gt_clock = now, gt_requests = add_mset r M\<rparr>
     \<lparr>gt_limiter = drop_lane_permit st r l, gt_clock = now,
      gt_requests = add_mset (r\<lparr>rq_phase := Refused e\<rparr>) M\<rparr>"
    if "rq_phase r = Failing st e"
| reserved: "gate_step \<lparr>gt_limiter = l, gt_clock = now, gt_requests = add_mset r M\<rparr>
     \<lparr>gt_limiter = l', gt_clock = now, gt_requests = add_mset (r\<lparr>rq_phase := p\<rparr>) M\<rparr>"
    if "rq_phase r = Reserving"
    and "reserve_profile_rate_budget (pp_profile_id (rq_profile r))
           (model_gateway_estimated_input_tokens (rq_input r)) now l = (result, l')"
    and "p = (case result of Inl e \<Rightarrow> Refusing e | Inr x \<Rightarrow> Running x)"
| refused: "gate_step \<lparr>gt_limiter = l, gt_clock = now, gt_requests = add_mset r M\<rparr>
     \<lparr>gt_limiter = drop_both r l, gt_clock = now,
      gt_requests = add_mset (r\<lparr>rq_phase := Refused e\<rparr>) M\<rparr>"
    if "rq_phase r = Refusing e"
| settled: "gate_step \<lparr>gt_limiter = l, gt_clock = now, gt_requests = add_mset r M\<rparr>
     \<lparr>gt_limiter = drop_both r (settle now (pp_profile_id (rq_profile r)) x usage verdict l), gt_clock = now,
      gt_requests = add_mset (r\<lparr>rq_phase := Finished\<rparr>) M\<rparr>"
    if "rq_phase r = Running x"
| reported: "gate_step \<lparr>gt_limiter = l, gt_clock = now, gt_requests = add_mset r M\<rparr>
     \<lparr>gt_limiter = record_provider_failure (pp_profile_id (rq_profile r)) (gateway_limit_error_reason e) now wall l,
      gt_clock = now, gt_requests = add_mset (r\<lparr>rq_phase := Finished\<rparr>) M\<rparr>"
    if "rq_phase r = Refused e"
| dropped: "gate_step \<lparr>gt_limiter = l, gt_clock = now, gt_requests = add_mset r M\<rparr>
     \<lparr>gt_limiter = drop_lane_permit st r l, gt_clock = now,
      gt_requests = add_mset (r\<lparr>rq_phase := Dropped st\<rparr>) M\<rparr>"
    if "rq_phase r = Waiting st"

inductive reachable :: "gate \<Rightarrow> bool" where
  start: "reachable \<lparr>gt_limiter = new_limiter, gt_clock = now, gt_requests = {#}\<rparr>"
| step: "reachable s \<Longrightarrow> gate_step s s' \<Longrightarrow> reachable s'"

section \<open>Counting\<close>

text \<open>Who holds a permit of a bucket, who is counted in its queue and who is in it by right.\<close>

fun holds :: "stage \<Rightarrow> phase \<Rightarrow> bool" where
  "holds st Arrived = False"
| "holds st (Trying at) = (st = At_lane \<and> at = At_profile)"
| "holds st (Over at) = (st = At_lane \<and> at = At_profile)"
| "holds st (Waiting at) = (st = At_lane \<and> at = At_profile)"
| "holds st (Granted at) = (st = At_lane \<or> at = At_profile)"
| "holds st (Expired at) = (st = At_lane \<and> at = At_profile)"
| "holds st (Failing at e) = (st = At_lane \<and> at = At_profile)"
| "holds st Reserving = True"
| "holds st (Refusing e) = True"
| "holds st (Running x) = True"
| "holds st (Refused e) = False"
| "holds st (Dropped at) = False"
| "holds st Finished = False"

fun counted :: "stage \<Rightarrow> phase \<Rightarrow> bool" where
  "counted st (Over at) = (at = st)"
| "counted st (Waiting at) = (at = st)"
| "counted st (Granted at) = (at = st)"
| "counted st (Expired at) = (at = st)"
| "counted st (Dropped at) = (at = st)"
| "counted st _ = False"

definition lined_up :: "stage \<Rightarrow> phase \<Rightarrow> bool" where
  "lined_up st p \<longleftrightarrow> counted st p \<and> p \<noteq> Over st"

definition count_at :: "(stage \<Rightarrow> phase \<Rightarrow> bool) \<Rightarrow> stage \<Rightarrow> string \<Rightarrow> permit_request multiset \<Rightarrow> nat" where
  "count_at P st name M = size (filter_mset (\<lambda>r. P st (rq_phase r) \<and> name_at st r = name) M)"

lemma count_at_add [simp]:
  "count_at P st name (add_mset r M) =
     (if P st (rq_phase r) \<and> name_at st r = name then 1 else 0) + count_at P st name M"
  by (simp add: count_at_def)

lemma count_at_empty [simp]: "count_at P st name {#} = 0"
  by (simp add: count_at_def)

lemma name_at_phase [simp]: "name_at st (r\<lparr>rq_phase := p\<rparr>) = name_at st r"
  by (simp add: name_at_def split: stage.split)

text \<open>
  The invariant of a bucket: its permits that are out are held by requests, and are no more than
  its concurrency; its counter is the number of requests counted in its queue; of those at most the
  limit are lined up, the ones dropped while they waited included.
\<close>

definition bucket_ok :: "permit_request multiset \<Rightarrow> stage \<Rightarrow> string \<Rightarrow> GatewayLimitBucket \<Rightarrow> bool" where
  "bucket_ok M st name b \<longleftrightarrow>
     bk_held b = count_at holds st name M \<and> bk_held b \<le> bk_max_concurrency b \<and>
     bk_queued b = count_at counted st name M \<and> count_at lined_up st name M \<le> bk_queue_limit b \<and>
     0 < bk_max_concurrency b"

definition gate_ok :: "GatewayRuntimeLimiter \<Rightarrow> permit_request multiset \<Rightarrow> bool" where
  "gate_ok l M \<longleftrightarrow> (\<forall>st name. bucket_ok M st name (stage_bucket st name l))"

lemma lined_up_counted: "count_at lined_up st name M \<le> count_at counted st name M"
  by (induction M) (auto simp: lined_up_def)

lemma stage_bucket_eq:
  "stage_bucket At_lane name l = unwrap_or (new_bucket (gl_default_lane_max_concurrency l)
     (gl_default_queue_limit l) (gl_default_queue_timeout l)) (gl_lanes l name)"
  "stage_bucket At_profile name l = unwrap_or (new_bucket (gl_default_profile_max_concurrency l)
     (gl_default_queue_limit l) (gl_default_queue_timeout l)) (gl_profiles l name)"
  by (simp_all add: stage_bucket_def lane_bucket_def profile_bucket_def or_insert_def Let_def split: option.split)

lemma on_bucket_defaults [simp]:
  "gl_default_lane_max_concurrency (on_bucket st name f l) = gl_default_lane_max_concurrency l"
  "gl_default_profile_max_concurrency (on_bucket st name f l) = gl_default_profile_max_concurrency l"
  "gl_default_queue_limit (on_bucket st name f l) = gl_default_queue_limit l"
  "gl_default_queue_timeout (on_bucket st name f l) = gl_default_queue_timeout l"
  by (simp_all add: on_bucket_def split: stage.split)

lemma stage_bucket_on:
  "stage_bucket st' name' (on_bucket st name f l) =
     (if st' = st \<and> name' = name then f (stage_bucket st name l) else stage_bucket st' name' l)"
  by (cases st'; cases st) (simp_all add: stage_bucket_eq on_bucket_def)

text \<open>The buckets of two limiters are the same.\<close>

definition same_buckets :: "GatewayRuntimeLimiter \<Rightarrow> GatewayRuntimeLimiter \<Rightarrow> bool" where
  "same_buckets l l' \<longleftrightarrow> (\<forall>st name. stage_bucket st name l = stage_bucket st name l')"

lemma same_bucketsI:
  assumes "gl_lanes l' = gl_lanes l" "gl_profiles l' = gl_profiles l"
    "gl_default_lane_max_concurrency l' = gl_default_lane_max_concurrency l"
    "gl_default_profile_max_concurrency l' = gl_default_profile_max_concurrency l"
    "gl_default_queue_limit l' = gl_default_queue_limit l" "gl_default_queue_timeout l' = gl_default_queue_timeout l"
  shows "same_buckets l' l"
  unfolding same_buckets_def
proof (intro allI)
  fix st name show "stage_bucket st name l' = stage_bucket st name l"
    using assms by (cases st) (simp_all add: stage_bucket_eq)
qed

lemma same_buckets_ok: "same_buckets l' l \<Longrightarrow> gate_ok l' M = gate_ok l M"
  by (simp add: same_buckets_def gate_ok_def)

lemma same_buckets_settle: "same_buckets (settle now p x usage verdict l) l"
  by (rule same_bucketsI)
    (auto simp: settle_def record_profile_actual_token_usage_def set_budget_def record_provider_failure_def
       record_provider_success_def Let_def split: option.split sum.split)

lemma same_buckets_report: "same_buckets (record_provider_failure p reason now wall l) l"
  by (rule same_bucketsI) (simp_all add: record_provider_failure_def)

lemma same_buckets_reserve:
  "reserve_profile_rate_budget p n now l = (result, l') \<Longrightarrow> same_buckets l' l"
  by (rule same_bucketsI)
    (auto simp: reserve_profile_rate_budget_def set_budget_def split: prod.splits)

text \<open>Admission only adds buckets, and a bucket that is added is idle.\<close>

definition idle :: "GatewayLimitBucket \<Rightarrow> bool" where
  "idle b \<longleftrightarrow> bk_held b = 0 \<and> bk_queued b = 0 \<and> 0 < bk_max_concurrency b"

lemma idle_new [simp]: "idle (new_bucket m q t)"
  by (simp add: idle_def new_bucket_def)

definition grown :: "GatewayRuntimeLimiter \<Rightarrow> GatewayRuntimeLimiter \<Rightarrow> bool" where
  "grown l l' \<longleftrightarrow> (\<forall>st name. stage_bucket st name l' = stage_bucket st name l \<or>
     idle (stage_bucket st name l) \<and> idle (stage_bucket st name l'))"

lemma grown_trans: "grown l l' \<Longrightarrow> grown l' l'' \<Longrightarrow> grown l l''"
  unfolding grown_def by metis

lemma grown_same: "same_buckets l' l \<Longrightarrow> grown l l'"
  by (simp add: same_buckets_def grown_def)

lemma grown_ensure:
  "grown l (ensure_lane_limit lane a b c l)" "grown l (ensure_profile_limit p a b c l)"
proof -
  have "stage_bucket st name (ensure_lane_limit lane a b c l) = stage_bucket st name l \<or>
      idle (stage_bucket st name l) \<and> idle (stage_bucket st name (ensure_lane_limit lane a b c l))" for st name
    by (cases st) (auto simp: stage_bucket_eq ensure_lane_limit_def or_insert_def configured_bucket_def split: option.splits)
  moreover have "stage_bucket st name (ensure_profile_limit p a b c l) = stage_bucket st name l \<or>
      idle (stage_bucket st name l) \<and> idle (stage_bucket st name (ensure_profile_limit p a b c l))" for st name
    by (cases st) (auto simp: stage_bucket_eq ensure_profile_limit_def or_insert_def configured_bucket_def split: option.splits)
  ultimately show "grown l (ensure_lane_limit lane a b c l)" "grown l (ensure_profile_limit p a b c l)"
    unfolding grown_def by blast+
qed

lemma grown_admission: "admission now r l = (result, l') \<Longrightarrow> grown l l'"
proof -
  assume a: "admission now r l = (result, l')"
  define l1 where "l1 = ensure_lane_limit MODEL_LANE_ASSISTANT_CHAT (ll_max_concurrency (rq_lane_limits r))
    (ll_queue_limit (rq_lane_limits r)) (ll_queue_timeout_ms (rq_lane_limits r)) l"
  define l2 where "l2 = ensure_profile_limit (pp_profile_id (rq_profile r))
    (rl_concurrent_requests (pp_rate_limit (rq_profile r)))
    (ll_queue_limit (rq_lane_limits r)) (ll_queue_timeout_ms (rq_lane_limits r)) l1"
  have "grown l l2" unfolding l1_def l2_def by (blast intro: grown_trans grown_ensure)
  moreover have "same_buckets l' l2"
    using a by (intro same_bucketsI)
      (auto simp: admission_def l1_def [symmetric] l2_def [symmetric] Let_def ensure_profile_rate_limit_def
         set_budget_def provider_available_def split: prod.splits option.splits if_splits)
  ultimately show ?thesis by (blast intro: grown_trans grown_same)
qed

lemma grown_ok: "grown l l' \<Longrightarrow> gate_ok l M \<Longrightarrow> gate_ok l' M"
  unfolding gate_ok_def
proof (intro allI)
  fix st name
  assume g: "grown l l'" and ok: "\<forall>st name. bucket_ok M st name (stage_bucket st name l)"
  show "bucket_ok M st name (stage_bucket st name l')"
  proof (cases "stage_bucket st name l' = stage_bucket st name l")
    case False
    with g have "idle (stage_bucket st name l)" "idle (stage_bucket st name l')"
      by (auto simp: grown_def)
    with ok lined_up_counted [of st name M] show ?thesis
      by (fastforce simp: bucket_ok_def idle_def)
  qed (use ok in simp)
qed


text \<open>One request moves, and the buckets it touches change with it.\<close>

lemma gate_okI:
  assumes "gate_ok l (add_mset r M)"
    and "\<And>name. bucket_ok (add_mset r M) At_lane name (stage_bucket At_lane name l) \<Longrightarrow>
      bucket_ok (add_mset r' M) At_lane name (stage_bucket At_lane name l')"
    and "\<And>name. bucket_ok (add_mset r M) At_profile name (stage_bucket At_profile name l) \<Longrightarrow>
      bucket_ok (add_mset r' M) At_profile name (stage_bucket At_profile name l')"
  shows "gate_ok l' (add_mset r' M)"
  unfolding gate_ok_def
proof (intro allI)
  fix st name show "bucket_ok (add_mset r' M) st name (stage_bucket st name l')"
    using assms by (cases st) (simp_all add: gate_ok_def)
qed

lemma stage_bucket_drop_both:
  "stage_bucket st name (drop_both r l) =
     (if name = name_at st r then drop_permit (stage_bucket st name l) else stage_bucket st name l)"
  by (cases st) (auto simp: drop_both_def stage_bucket_on)

lemmas bucket_simps = stage_bucket_drop_both
  bucket_ok_def stage_bucket_on lined_up_def acquired_def take_permit_def drop_permit_def fetch_add_def
  fetch_sub_def available_permits_def drop_lane_permit_def

lemma lined_up_queued:
  "count_at lined_up st name M \<le> bk_queue_limit b" if "bucket_ok M st name b"
  using that by (simp add: bucket_ok_def)

text \<open>Each move keeps the invariant.\<close>

lemma arrived_ok: "gate_ok l M \<Longrightarrow> gate_ok l (add_mset (r\<lparr>rq_phase := Arrived\<rparr>) M)"
  unfolding gate_ok_def bucket_ok_def by (simp add: lined_up_def) metis

lemma admitted_ok:
  "gate_ok l (add_mset r M) \<Longrightarrow> rq_phase r = Arrived \<Longrightarrow>
     gate_ok (l) (add_mset (r\<lparr>rq_phase := case (result :: (unit, GatewayLimitError) result) of Inl e \<Rightarrow> Refused e | Inr _ \<Rightarrow> Trying At_lane\<rparr>) M)"
  by (erule gate_okI; auto simp: bucket_simps split: if_splits sum.splits)

lemma took_ok:
  "gate_ok l (add_mset r M) \<Longrightarrow> rq_phase r = Trying st \<Longrightarrow> 0 < available_permits (stage_bucket st (name_at st r) l) \<Longrightarrow>
     gate_ok (on_bucket st (name_at st r) take_permit l) (add_mset (r\<lparr>rq_phase := acquired st\<rparr>) M)"
  by (cases st; erule gate_okI; auto simp: bucket_simps split: if_splits sum.splits)

lemma no_queue_ok:
  "gate_ok l (add_mset r M) \<Longrightarrow> rq_phase r = Trying st \<Longrightarrow>
     gate_ok (l) (add_mset (r\<lparr>rq_phase := Failing st QueueFull\<rparr>) M)"
  by (cases st; erule gate_okI; auto simp: bucket_simps split: if_splits sum.splits)

lemma queued_ok:
  assumes "gate_ok l (add_mset r M)" "rq_phase r = Trying st" "b = stage_bucket st (name_at st r) l"
  shows "gate_ok (on_bucket st (name_at st r) fetch_add l)
    (add_mset (r\<lparr>rq_phase := if bk_queued b \<ge> bk_queue_limit b then Over st else Waiting st\<rparr>) M)"
  using assms lined_up_counted [of st "name_at st r" M]
  by (cases st; elim gate_okI) (auto simp: bucket_simps split: if_splits)

lemma left_full_ok:
  "gate_ok l (add_mset r M) \<Longrightarrow> rq_phase r = Over st \<Longrightarrow>
     gate_ok (on_bucket st (name_at st r) fetch_sub l) (add_mset (r\<lparr>rq_phase := Failing st QueueFull\<rparr>) M)"
  by (cases st; erule gate_okI; auto simp: bucket_simps split: if_splits sum.splits)

lemma granted_ok:
  "gate_ok l (add_mset r M) \<Longrightarrow> rq_phase r = Waiting st \<Longrightarrow> 0 < available_permits (stage_bucket st (name_at st r) l) \<Longrightarrow>
     gate_ok (on_bucket st (name_at st r) take_permit l) (add_mset (r\<lparr>rq_phase := Granted st\<rparr>) M)"
  by (cases st; erule gate_okI; auto simp: bucket_simps split: if_splits sum.splits)

lemma left_granted_ok:
  "gate_ok l (add_mset r M) \<Longrightarrow> rq_phase r = Granted st \<Longrightarrow>
     gate_ok (on_bucket st (name_at st r) fetch_sub l) (add_mset (r\<lparr>rq_phase := acquired st\<rparr>) M)"
  by (cases st; erule gate_okI; auto simp: bucket_simps split: if_splits sum.splits)

lemma expired_ok:
  "gate_ok l (add_mset r M) \<Longrightarrow> rq_phase r = Waiting st \<Longrightarrow>
     gate_ok (l) (add_mset (r\<lparr>rq_phase := Expired st\<rparr>) M)"
  by (cases st; erule gate_okI; auto simp: bucket_simps split: if_splits sum.splits)

lemma left_expired_ok:
  "gate_ok l (add_mset r M) \<Longrightarrow> rq_phase r = Expired st \<Longrightarrow>
     gate_ok (on_bucket st (name_at st r) fetch_sub l) (add_mset (r\<lparr>rq_phase := Failing st QueueTimeout\<rparr>) M)"
  by (cases st; erule gate_okI; auto simp: bucket_simps split: if_splits sum.splits)

lemma failed_ok:
  "gate_ok l (add_mset r M) \<Longrightarrow> rq_phase r = Failing st e \<Longrightarrow>
     gate_ok (drop_lane_permit st r l) (add_mset (r\<lparr>rq_phase := Refused e\<rparr>) M)"
  by (cases st; erule gate_okI; auto simp: bucket_simps split: if_splits sum.splits)

lemma reserved_ok:
  "gate_ok l (add_mset r M) \<Longrightarrow> rq_phase r = Reserving \<Longrightarrow>
     gate_ok (l) (add_mset (r\<lparr>rq_phase := case (result :: (GatewayRateLimitReservation, GatewayLimitError) result) of Inl e \<Rightarrow> Refusing e | Inr x \<Rightarrow> Running x\<rparr>) M)"
  by (erule gate_okI; auto simp: bucket_simps split: if_splits sum.splits)

lemma refused_ok:
  "gate_ok l (add_mset r M) \<Longrightarrow> rq_phase r = Refusing e \<Longrightarrow>
     gate_ok (drop_both r l) (add_mset (r\<lparr>rq_phase := Refused e\<rparr>) M)"
  by (erule gate_okI; auto simp: bucket_simps split: if_splits sum.splits)

lemma settled_ok:
  "gate_ok l (add_mset r M) \<Longrightarrow> rq_phase r = Running x \<Longrightarrow>
     gate_ok (drop_both r l) (add_mset (r\<lparr>rq_phase := Finished\<rparr>) M)"
  by (erule gate_okI; auto simp: bucket_simps split: if_splits sum.splits)

lemma reported_ok:
  "gate_ok l (add_mset r M) \<Longrightarrow> rq_phase r = Refused e \<Longrightarrow>
     gate_ok (l) (add_mset (r\<lparr>rq_phase := Finished\<rparr>) M)"
  by (erule gate_okI; auto simp: bucket_simps split: if_splits sum.splits)

lemma dropped_ok:
  "gate_ok l (add_mset r M) \<Longrightarrow> rq_phase r = Waiting st \<Longrightarrow>
     gate_ok (drop_lane_permit st r l) (add_mset (r\<lparr>rq_phase := Dropped st\<rparr>) M)"
  by (cases st; erule gate_okI; auto simp: bucket_simps split: if_splits sum.splits)

lemmas moves_ok = arrived_ok took_ok no_queue_ok queued_ok left_full_ok granted_ok left_granted_ok
  expired_ok left_expired_ok failed_ok refused_ok dropped_ok

lemma gate_step_ok:
  assumes "gate_step s s'" and "gate_ok (gt_limiter s) (gt_requests s)"
  shows "gate_ok (gt_limiter s') (gt_requests s')"
  using assms
proof (cases rule: gate_step.cases)
  case (admitted r now l result l' p M)
  have "gate_ok l' (add_mset r M)"
    using grown_ok [OF grown_admission [OF \<open>admission now r l = (result, l')\<close>]] admitted assms(2) by simp
  then show ?thesis using admitted by (simp add: admitted_ok)
next
  case (reserved r now l result l' p M)
  have "same_buckets l' l" using same_buckets_reserve reserved by blast
  then have "gate_ok l' (add_mset r M)" using same_buckets_ok reserved assms(2) by simp
  then show ?thesis using reserved by (simp add: reserved_ok)
next
  case (settled r x l now M usage verdict)
  have "gate_ok (settle now (pp_profile_id (rq_profile r)) x usage verdict l) (add_mset r M)"
    using settled assms(2) same_buckets_ok [OF same_buckets_settle] by simp
  then show ?thesis using settled by (simp add: settled_ok)
next
  case (reported r e l now M wall)
  have "gate_ok (record_provider_failure (pp_profile_id (rq_profile r)) (gateway_limit_error_reason e) now wall l) (add_mset r M)"
    using reported assms(2) same_buckets_ok [OF same_buckets_report] by simp
  then show ?thesis using reported by (simp add: reported_ok)
qed (use assms(2) in \<open>simp_all add: moves_ok\<close>)

lemma gate_ok_start: "gate_ok new_limiter {#}"
proof -
  have "idle (stage_bucket st name new_limiter)" for st name
    by (cases st) (simp_all add: stage_bucket_eq new_limiter_def)
  then show ?thesis by (simp add: gate_ok_def bucket_ok_def idle_def)
qed

lemma reachable_ok: "reachable s \<Longrightarrow> gate_ok (gt_limiter s) (gt_requests s)"
  by (induction rule: reachable.induct) (simp_all add: gate_ok_start gate_step_ok)

section \<open>Properties\<close>

definition runs :: "stage \<Rightarrow> phase \<Rightarrow> bool" where
  "runs st p \<longleftrightarrow> (case p of Running _ \<Rightarrow> True | _ \<Rightarrow> False)"

definition waits :: "stage \<Rightarrow> phase \<Rightarrow> bool" where
  "waits st p \<longleftrightarrow> p = Waiting st"

definition gone :: "stage \<Rightarrow> phase \<Rightarrow> bool" where
  "gone st p \<longleftrightarrow> p = Dropped st"

lemma count_at_mono: "(\<And>p. P st p \<Longrightarrow> Q st p) \<Longrightarrow> count_at P st name M \<le> count_at Q st name M"
  by (induction M) auto

lemma runs_holds: "count_at runs st name M \<le> count_at holds st name M"
  by (rule count_at_mono) (auto simp: runs_def split: phase.splits)

lemma waits_lined_up: "count_at waits st name M + count_at gone st name M \<le> count_at lined_up st name M"
  by (induction M) (auto simp: waits_def gone_def lined_up_def)

text \<open>C3: The permits of a lane and of a profile are accounted for in every state the requests can reach,
  however they interleave, fail, expire or are dropped: the free permits and the ones requests hold
  make up the concurrency of the bucket, so that no error path leaks one; no more requests run
  than the bucket allows, no more wait than its queue has room for, and the counter of the queue
  counts the requests in it and the ones that were dropped out of it.\<close>

theorem permits_accounted:
  assumes "reachable s"
  shows "let b = stage_bucket st name (gt_limiter s); M = gt_requests s in
    available_permits b + count_at holds st name M = bk_max_concurrency b \<and>
    count_at runs st name M \<le> bk_max_concurrency b \<and>
    count_at waits st name M + count_at gone st name M \<le> bk_queue_limit b \<and>
    bk_queued b = count_at counted st name M"
proof -
  have "bucket_ok (gt_requests s) st name (stage_bucket st name (gt_limiter s))"
    using reachable_ok [OF assms] by (simp add: gate_ok_def)
  with runs_holds [of st name "gt_requests s"] waits_lined_up [of st name "gt_requests s"] show ?thesis
    by (simp add: bucket_ok_def available_permits_def Let_def)
qed


definition example_profile :: ModelProviderProfile where
  "example_profile = ModelProviderProfile_new ''p'' ''openai'' ''m''"

definition example_request :: "phase \<Rightarrow> permit_request" where
  "example_request p = \<lparr>rq_profile = example_profile, rq_lane_limits = default_lane_limits,
     rq_input = ''hello'', rq_phase = p\<rparr>"

definition example_limiter :: GatewayRuntimeLimiter where
  "example_limiter = on_bucket At_profile ''p'' take_permit (on_bucket At_lane ''assistant_chat'' take_permit
     (snd (admission 0 (example_request Arrived) new_limiter)))"

lemma example_request_phase [simp]:
  "(example_request p)\<lparr>rq_phase := q\<rparr> = example_request q" "rq_phase (example_request p) = p"
  "name_at st (example_request p) = (case st of At_lane \<Rightarrow> ''assistant_chat'' | At_profile \<Rightarrow> ''p'')"
  by (simp_all add: example_request_def name_at_def example_profile_def ModelProviderProfile_new_def
      MODEL_LANE_ASSISTANT_CHAT_def split: stage.split)

lemma example_admission:
  "admission 0 (example_request Arrived) new_limiter =
     (Ok (), snd (admission 0 (example_request Arrived) new_limiter))"
  "available_permits (stage_bucket At_lane ''assistant_chat'' (snd (admission 0 (example_request Arrived) new_limiter))) = 64"
  "available_permits (stage_bucket At_profile ''p'' (snd (admission 0 (example_request Arrived) new_limiter))) = 16"
  "bk_max_concurrency (stage_bucket At_profile ''p'' (snd (admission 0 (example_request Arrived) new_limiter))) = 16"
  "bk_held (stage_bucket At_profile ''p'' (snd (admission 0 (example_request Arrived) new_limiter))) = 0"
  by (simp_all add: admission_def example_request_def example_profile_def ModelProviderProfile_new_def
      ensure_profile_rate_limit_def set_budget_def ensure_profile_limit_def ensure_lane_limit_def
      provider_available_def new_limiter_def stage_bucket_eq or_insert_def configured_bucket_def
      new_bucket_def available_permits_def default_lane_limits_def MODEL_LANE_ASSISTANT_CHAT_def)

lemma example_reachable:
  "reachable \<lparr>gt_limiter = example_limiter, gt_clock = 0, gt_requests = {#example_request Reserving#}\<rparr>"
proof -
  let ?l = "snd (admission 0 (example_request Arrived) new_limiter)"
  note step = reachable.step
  have "reachable \<lparr>gt_limiter = new_limiter, gt_clock = 0, gt_requests = {#example_request Arrived#}\<rparr>"
    using step [OF reachable.start gate_step.arrived, of 0 "example_request Arrived"] by simp
  then have "reachable \<lparr>gt_limiter = ?l, gt_clock = 0, gt_requests = {#example_request (Trying At_lane)#}\<rparr>"
    using step [OF _ gate_step.admitted [OF _ example_admission(1)], of "{#}" "Trying At_lane"] by simp
  then have "reachable \<lparr>gt_limiter = on_bucket At_lane ''assistant_chat'' take_permit ?l, gt_clock = 0,
      gt_requests = {#example_request (Trying At_profile)#}\<rparr>"
    using step [OF _ gate_step.took [of "example_request (Trying At_lane)" At_lane ?l], of 0 "{#}"] example_admission(2)
    by (simp add: acquired_def)
  then show ?thesis
    using step [OF _ gate_step.took [of "example_request (Trying At_profile)" At_profile
        "on_bucket At_lane ''assistant_chat'' take_permit ?l"], of 0 "{#}"] example_admission(3)
    by (simp add: acquired_def stage_bucket_on example_limiter_def)
qed

theorem permits_accounted_witness:
  "available_permits (stage_bucket At_profile ''p'' example_limiter) + 1 = 16"
  using permits_accounted [OF example_reachable, of At_profile "''p''"] example_admission(4,5)
  by (simp add: Let_def example_limiter_def stage_bucket_on take_permit_def available_permits_def)

text \<open>
  A request that is dropped while it waits stays in the counter for good: once as many were dropped
  out of a queue as it has room for, no request ever waits in it again.
\<close>

lemma dropped_fill_queue:
  assumes "reachable s" and "bk_queue_limit (stage_bucket st name (gt_limiter s)) \<le> count_at gone st name (gt_requests s)"
  shows "count_at waits st name (gt_requests s) = 0"
proof -
  have "bucket_ok (gt_requests s) st name (stage_bucket st name (gt_limiter s))"
    using reachable_ok [OF assms(1)] by (simp add: gate_ok_def)
  with assms(2) waits_lined_up [of st name "gt_requests s"] show ?thesis by (simp add: bucket_ok_def)
qed

lemma dropped_stay:
  assumes "gate_step s s'"
  shows "count_at gone st name (gt_requests s) \<le> count_at gone st name (gt_requests s')"
  using assms by (cases rule: gate_step.cases) (auto simp: gone_def split: sum.splits)

end
