(* ===== verification/Provider_Calls.thy ===== *)
theory Provider_Calls
  imports Model_Profiles
begin

text \<open>
  The calls of a model in \<open>src/crates/llm-gateway/src/lib.rs\<close>: the trait \<open>LlmProvider\<close> and its
  providers, with the prompts of \<open>src/crates/prompt-registry/src/lib.rs\<close>. HTTP is code of \<open>reqwest\<close> and
  JSON texts are code of \<open>serde_json\<close>: a \<open>gateway_io\<close> says what the \<open>n\<close>-th request is answered with,
  what a text parses to and how long a call took, and a provider threads the number of the requests
  it made. \<open>redact_provider_error\<close> is defined for every \<open>String\<close> (\<open>redaction_returns\<close>), so the texts of
  errors take its value. The callback of a streaming call sees the deltas one after the other; it is
  a function of the ones before and the next one.
\<close>

section \<open>Requests and responses\<close>

datatype LlmRuntimeMode = Placeholder | Provider

fun LlmRuntimeMode_as_str :: "LlmRuntimeMode \<Rightarrow> string" where
  "LlmRuntimeMode_as_str Placeholder = ''placeholder''"
| "LlmRuntimeMode_as_str Provider = ''provider''"

datatype LlmFinishReason = Stop | ToolCalls | Length | ContentFilter | Error | Other string

fun LlmFinishReason_as_str :: "LlmFinishReason \<Rightarrow> string" where
  "LlmFinishReason_as_str Stop = ''stop''"
| "LlmFinishReason_as_str ToolCalls = ''tool_calls''"
| "LlmFinishReason_as_str Length = ''length''"
| "LlmFinishReason_as_str ContentFilter = ''content_filter''"
| "LlmFinishReason_as_str Error = ''error''"
| "LlmFinishReason_as_str (Other s) = s"

definition LlmFinishReason_from_wire_value :: "string \<Rightarrow> LlmFinishReason" where
  "LlmFinishReason_from_wire_value s =
     (if s = ''stop'' then Stop else if s = ''tool_calls'' then ToolCalls
      else if s = ''length'' then Length else if s = ''content_filter'' then ContentFilter
      else if s = ''error'' then Error else Other s)"

datatype LlmProviderFailureKind =
    RequestFailed | RequestTimeout | HttpStatus | ResponseBodyReadFailed | InvalidJson
  | InvalidResponse | FinishReasonError

fun LlmProviderFailureKind_as_str :: "LlmProviderFailureKind \<Rightarrow> string" where
  "LlmProviderFailureKind_as_str RequestFailed = ''request_failed''"
| "LlmProviderFailureKind_as_str RequestTimeout = ''request_timeout''"
| "LlmProviderFailureKind_as_str HttpStatus = ''http_status''"
| "LlmProviderFailureKind_as_str ResponseBodyReadFailed = ''response_body_read_failed''"
| "LlmProviderFailureKind_as_str InvalidJson = ''invalid_json''"
| "LlmProviderFailureKind_as_str InvalidResponse = ''invalid_response''"
| "LlmProviderFailureKind_as_str FinishReasonError = ''finish_reason_error''"

definition LlmProviderFailureKind_from_wire_value :: "string \<Rightarrow> LlmProviderFailureKind option" where
  "LlmProviderFailureKind_from_wire_value s = find (\<lambda>k. LlmProviderFailureKind_as_str k = s)
     [RequestFailed, RequestTimeout, HttpStatus, ResponseBodyReadFailed, InvalidJson, InvalidResponse,
      FinishReasonError]"

definition provider_responded :: "LlmProviderFailureKind \<Rightarrow> bool" where
  "provider_responded k \<longleftrightarrow> k \<noteq> RequestFailed \<and> k \<noteq> RequestTimeout"

record LlmProviderFailure =
  pf_kind :: LlmProviderFailureKind
  pf_message :: string

record LlmTokenUsage =
  us_input_tokens :: "64 word"
  us_output_tokens :: "64 word"
  us_total_tokens :: "64 word"

datatype LlmToolCallStatus = Tool_requested | Tool_completed | Tool_failed

record LlmToolCall =
  tc_call_id :: "string option"
  tc_tool_name :: string
  tc_status :: LlmToolCallStatus
  tc_arguments :: "json option"
  tc_result :: "json option"

record LlmRequest =
  lq_model :: string
  lq_lane :: "string option"
  lq_system_prompt_key :: "string option"
  lq_input :: string

record LlmRuntimeMetadata =
  rt_mode :: LlmRuntimeMode
  rt_provider :: string
  rt_model :: string
  rt_lane :: "string option"
  rt_request_id :: "string option"
  rt_finish_reason :: "LlmFinishReason option"
  rt_provider_failure :: "LlmProviderFailure option"
  rt_latency_ms :: "64 word option"
  rt_usage :: "LlmTokenUsage option"
  rt_system_prompt_key :: "string option"
  rt_system_prompt_version :: "string option"
  rt_tool_trace_count :: nat

record LlmResponse =
  lr_output_text :: string
  lr_runtime :: LlmRuntimeMetadata
  lr_tool_calls :: "LlmToolCall list"

record LlmStreamDelta =
  sd_index :: nat
  sd_delta :: string

record LlmProviderError =
  pe_runtime :: LlmRuntimeMetadata
  pe_message :: string

text \<open>An \<open>anyhow\<close> error of a call: the error of a provider, or the text of the callback's error.\<close>

datatype call_error = Provider_error LlmProviderError | Callback_error string

type_synonym callback = "LlmStreamDelta list \<Rightarrow> LlmStreamDelta \<Rightarrow> (unit, string) result"

section \<open>Prompts\<close>

record PromptDefinition =
  pr_key :: string
  pr_surface :: string
  pr_active_version :: string
  pr_body :: string

type_synonym InMemoryPromptRegistry = "(string \<times> PromptDefinition) list"

definition prompt_register :: "PromptDefinition \<Rightarrow> InMemoryPromptRegistry \<Rightarrow> InMemoryPromptRegistry" where
  "prompt_register prompt reg = map_insert (pr_key prompt) prompt reg"

definition prompt_active :: "InMemoryPromptRegistry \<Rightarrow> string \<Rightarrow> PromptDefinition option" where
  "prompt_active reg key = map_of reg key"

definition prompt_list :: "InMemoryPromptRegistry \<Rightarrow> PromptDefinition list" where
  "prompt_list reg = map snd reg"

definition bootstrap_default_prompt_registry :: InMemoryPromptRegistry where
  "bootstrap_default_prompt_registry =
     prompt_register \<lparr>pr_key = ''chat_session.placeholder'', pr_surface = ''chat_session'',
       pr_active_version = ''v1'', pr_body = ''Placeholder chat session system prompt''\<rparr>
     (prompt_register \<lparr>pr_key = ''dataset_output.placeholder'', pr_surface = ''dataset_output'',
       pr_active_version = ''v1'', pr_body = ''Placeholder dataset output system prompt''\<rparr> [])"

definition resolve_prompt_version :: "InMemoryPromptRegistry \<Rightarrow> LlmRequest \<Rightarrow> string option" where
  "resolve_prompt_version reg request = Option.bind (lq_system_prompt_key request)
     (\<lambda>key. map_option pr_active_version (prompt_active reg key))"

definition resolve_system_prompt :: "InMemoryPromptRegistry \<Rightarrow> LlmRequest \<Rightarrow> string option" where
  "resolve_system_prompt reg request = Option.bind (lq_system_prompt_key request)
     (\<lambda>key. map_option pr_body (prompt_active reg key))"

section \<open>Reading responses\<close>

definition join :: "string \<Rightarrow> string list \<Rightarrow> string" where
  "join sep xs = concat (case xs of [] \<Rightarrow> [] | x # xs \<Rightarrow> x # map (\<lambda>y. sep @ y) xs)"

definition join_url :: "string \<Rightarrow> string \<Rightarrow> string" where
  "join_url base path = rev (dropWhile (\<lambda>c. c = CHR ''/'') (rev base)) @
     (if starts_with ''/'' path then path else ''/'' @ path)"

definition first_of :: "'a list \<Rightarrow> 'a option" where
  "first_of xs = (case xs of [] \<Rightarrow> None | x # _ \<Rightarrow> Some x)"

definition get_str :: "json \<Rightarrow> string \<Rightarrow> string option" where
  "get_str v key = Option.bind (json_get v key) json_as_str"

definition first_choice :: "json \<Rightarrow> json option" where
  "first_choice v = Option.bind (json_get v ''choices'') (\<lambda>c. Option.bind (json_as_array c) first_of)"

definition parse_usage :: "json option \<Rightarrow> LlmTokenUsage option" where
  "parse_usage v = Option.bind (Option.bind v json_as_object) (\<lambda>usage.
     Option.bind (Option.bind (or_else (map_of usage ''prompt_tokens'') (map_of usage ''input_tokens'')) json_as_u64) (\<lambda>i.
     Option.bind (Option.bind (or_else (map_of usage ''completion_tokens'') (map_of usage ''output_tokens'')) json_as_u64) (\<lambda>out.
     Option.bind (Option.bind (or_else (map_of usage ''total_tokens'') (map_of usage ''input_tokens'')) json_as_u64) (\<lambda>total_tokens.
     Some \<lparr>us_input_tokens = i, us_output_tokens = out, us_total_tokens = total_tokens\<rparr>))))"

text \<open>The text items of a content array; nothing when an item is not an object or its text is not one.\<close>

fun text_items :: "json list \<Rightarrow> string list option" where
  "text_items [] = Some []"
| "text_items (item # items) = Option.bind (json_as_object item) (\<lambda>m.
     if Option.bind (map_of m ''type'') json_as_str = Some ''text''
     then Option.bind (Option.bind (map_of m ''text'') json_as_str) (\<lambda>t. map_option ((#) t) (text_items items))
     else text_items items)"

definition content_text :: "string \<Rightarrow> json \<Rightarrow> string option" where
  "content_text sep content = (case json_as_str content of
     Some t \<Rightarrow> Some t
   | None \<Rightarrow> Option.bind (Option.bind (json_as_array content) text_items)
       (\<lambda>parts. if parts = [] then None else Some (join sep parts)))"

definition extract_chat_completion_text :: "json \<Rightarrow> string option" where
  "extract_chat_completion_text choice =
     Option.bind (Option.bind (json_get choice ''message'') json_as_object) (\<lambda>message.
     Option.bind (map_of message ''content'') (content_text [byte 10]))"

definition extract_chat_completion_stream_delta :: "json \<Rightarrow> string option" where
  "extract_chat_completion_stream_delta v = Option.bind (first_choice v) (\<lambda>choice.
     Option.bind (json_get choice ''delta'') (\<lambda>delta.
     Option.bind (json_get delta ''content'') (content_text [])))"

definition extract_chat_completion_stream_finish_reason :: "json \<Rightarrow> LlmFinishReason option" where
  "extract_chat_completion_stream_finish_reason v = Option.bind (first_choice v) (\<lambda>choice.
     map_option LlmFinishReason_from_wire_value (get_str choice ''finish_reason''))"

text \<open>\<open>normalize_provider_output_text\<close> is the identity.\<close>

definition normalize_provider_output_text :: "string \<Rightarrow> string" where
  "normalize_provider_output_text s = s"

definition parse_tool_arguments :: "(string \<Rightarrow> (json, string) result) \<Rightarrow> string \<Rightarrow> json" where
  "parse_tool_arguments from_str s = (case from_str s of Inr v \<Rightarrow> v | Inl _ \<Rightarrow> JString s)"

definition tool_call_of :: "(string \<Rightarrow> (json, string) result) \<Rightarrow> json \<Rightarrow> (LlmToolCall, string) result" where
  "tool_call_of from_str v =
     and_then (ok_or ''tool_call.function missing from provider response''
       (Option.bind (json_get v ''function'') json_as_object)) (\<lambda>function.
     and_then (ok_or ''tool_call.function.name missing'' (Option.bind (map_of function ''name'') json_as_str)) (\<lambda>name.
     Ok \<lparr>tc_call_id = get_str v ''id'', tc_tool_name = name, tc_status = Tool_requested,
         tc_arguments = map_option (parse_tool_arguments from_str) (Option.bind (map_of function ''arguments'') json_as_str),
         tc_result = None\<rparr>))"

definition extract_chat_completion_tool_calls ::
    "(string \<Rightarrow> (json, string) result) \<Rightarrow> json \<Rightarrow> (LlmToolCall list, string) result" where
  "extract_chat_completion_tool_calls from_str choice =
     (case Option.bind (json_get choice ''message'') (\<lambda>m. Option.bind (json_get m ''tool_calls'') json_as_array) of
        None \<Rightarrow> Ok []
      | Some calls \<Rightarrow> collect (map (tool_call_of from_str) calls))"

definition response_texts :: "json \<Rightarrow> string list" where
  "response_texts v = (case v of JObject m \<Rightarrow>
       (case Option.bind (map_of m ''text'') json_as_str of
          Some t \<Rightarrow> if trim t \<noteq> [] then [t] else [] | None \<Rightarrow> []) @
       (case Option.bind (map_of m ''content'') json_as_array of
          Some items \<Rightarrow> concat (map (\<lambda>item.
            case Option.bind (or_else (json_get item ''text'') (json_get item ''output_text'')) json_as_str of
              Some t \<Rightarrow> if trim t \<noteq> [] then [t] else [] | None \<Rightarrow> []) items)
        | None \<Rightarrow> [])
     | _ \<Rightarrow> [])"

definition extract_responses_output_text :: "json \<Rightarrow> string option" where
  "extract_responses_output_text v =
     (case option_filter (\<lambda>t. t \<noteq> []) (map_option trim (get_str v ''output_text'')) of
        Some t \<Rightarrow> Some t
      | None \<Rightarrow> Option.bind (Option.bind (json_get v ''output'') json_as_array) (\<lambda>outputs.
          let parts = concat (map response_texts outputs) in
          if parts = [] then None else Some (join [byte 10] parts)))"

definition provider_failure_for_finish_reason :: "string \<Rightarrow> LlmFinishReason option \<Rightarrow> LlmProviderFailure option" where
  "provider_failure_for_finish_reason provider_name finish_reason =
     (if finish_reason = Some Error
      then Some \<lparr>pf_kind = FinishReasonError, pf_message = provider_name @ '' returned finish_reason=error''\<rparr>
      else None)"

text \<open>\<open>split_whitespace().count()\<close>: the number of pieces between runs of white space.\<close>

function count_pieces :: "bool \<Rightarrow> string \<Rightarrow> nat" where
  "count_pieces in_piece s =
     (case find (\<lambda>w. w \<noteq> [] \<and> starts_with w s) white_space_encodings of
        Some w \<Rightarrow> count_pieces False (drop (length w) s)
      | None \<Rightarrow> (case s of [] \<Rightarrow> 0
          | c # t \<Rightarrow> (if in_piece then 0 else 1) + count_pieces True t))"
  by pat_completeness auto
termination
proof (relation "measure (\<lambda>(b, s). length s)")
  fix s and w :: string and b :: bool
  assume "find (\<lambda>w. w \<noteq> [] \<and> starts_with w s) white_space_encodings = Some w"
  then have "w \<noteq> []" and "take (length w) s = w"
    by (auto simp: find_Some_iff starts_with_def)
  then have "0 < length w" and "s \<noteq> []"
    by auto
  then show "((False, drop (length w) s), (b, s)) \<in> measure (\<lambda>(b, s). length s)"
    by simp
qed simp_all

declare count_pieces.simps [simp del]

definition estimate_token_count :: "string \<Rightarrow> nat" where
  "estimate_token_count s = count_pieces False s"

definition estimate_usage :: "string \<Rightarrow> string \<Rightarrow> LlmTokenUsage" where
  "estimate_usage input out =
     \<lparr>us_input_tokens = of_nat (estimate_token_count input), us_output_tokens = of_nat (estimate_token_count out),
      us_total_tokens = of_nat (estimate_token_count input + estimate_token_count out)\<rparr>"

fun decimal_text :: "nat \<Rightarrow> string" where
  "decimal_text n = (if n < 10 then [char_of (48 + n)]
     else decimal_text (n div 10) @ [char_of (48 + n mod 10)])"

declare decimal_text.simps [simp del]

section \<open>HTTP\<close>

record http_request =
  hr_url :: string
  hr_body :: json
  hr_bearer :: "string option"
  hr_headers :: "(string \<times> string) list"

text \<open>
  What a request is answered with: it was not sent, with whether it was a timeout and the text of
  the error; the status and the body, or the error of reading it; for a streaming call the
  results of \<open>read_line\<close> up to the end of the body.
\<close>

datatype http_answer =
    Not_sent bool string
  | Answered nat "(string, string) result"

datatype stream_answer =
    Stream_not_sent bool string
  | Streamed nat "(string, string) result list" "(string, string) result"

record gateway_io =
  io_send :: "nat \<Rightarrow> http_request \<Rightarrow> http_answer"
  io_stream :: "nat \<Rightarrow> http_request \<Rightarrow> stream_answer"
  io_from_str :: "string \<Rightarrow> (json, string) result"
  io_latency_ms :: "nat \<Rightarrow> 64 word"
  io_new_v4 :: "nat \<Rightarrow> string"

definition is_success :: "nat \<Rightarrow> bool" where
  "is_success status \<longleftrightarrow> 200 \<le> status \<and> status < 300"

definition redacted :: "string \<Rightarrow> string" where
  "redacted message = the (redact_provider_error message)"

text \<open>\<open>provider_error\<close>, the same for both providers.\<close>

definition provider_error ::
    "gateway_io \<Rightarrow> nat \<Rightarrow> string \<Rightarrow> InMemoryPromptRegistry \<Rightarrow> LlmRequest \<Rightarrow> LlmProviderFailureKind \<Rightarrow> string \<Rightarrow>
     LlmProviderError" where
  "provider_error io n provider_name reg request kind message = (
     let message = redacted message in
     \<lparr>pe_runtime = \<lparr>rt_mode = Provider, rt_provider = provider_name, rt_model = lq_model request,
        rt_lane = lq_lane request, rt_request_id = None, rt_finish_reason = Some Error,
        rt_provider_failure = Some \<lparr>pf_kind = kind, pf_message = message\<rparr>,
        rt_latency_ms = Some (io_latency_ms io n), rt_usage = None,
        rt_system_prompt_key = lq_system_prompt_key request,
        rt_system_prompt_version = resolve_prompt_version reg request, rt_tool_trace_count = 0\<rparr>,
      pe_message = message\<rparr>)"

text \<open>Sending a request and reading a JSON body, with the failures in the order they are checked.\<close>

definition post_json ::
    "gateway_io \<Rightarrow> nat \<Rightarrow> string \<Rightarrow> http_request \<Rightarrow> (json, LlmProviderFailureKind \<times> string) result" where
  "post_json io n provider_name req = (case io_send io n req of
     Not_sent is_timeout error \<Rightarrow> Err (if is_timeout then RequestTimeout else RequestFailed,
       provider_name @ '' request to '' @ hr_url req @ '' failed: '' @ error)
   | Answered status (Inl error) \<Rightarrow> Err (ResponseBodyReadFailed,
       provider_name @ '' response body read failed: '' @ error)
   | Answered status (Inr body) \<Rightarrow>
       if \<not> is_success status then Err (HttpStatus,
         provider_name @ '' returned HTTP '' @ decimal_text status @ '' with body '' @ body)
       else (case io_from_str io body of
           Inl error \<Rightarrow> Err (InvalidJson, provider_name @ '' returned invalid JSON payload from '' @
             hr_url req @ '': '' @ body @ '' ('' @ error @ '')'')
         | Inr v \<Rightarrow> Ok v))"

text \<open>The answer of a chat completion: its text, its tool calls and its finish reason.\<close>

definition read_chat ::
    "gateway_io \<Rightarrow> string \<Rightarrow> json \<Rightarrow>
     (string \<times> LlmToolCall list \<times> LlmFinishReason option, LlmProviderFailureKind \<times> string) result" where
  "read_chat io provider_name v = (case first_choice v of
     None \<Rightarrow> Err (InvalidResponse, provider_name @ '' response missing choices[0]'')
   | Some choice \<Rightarrow> (case extract_chat_completion_text choice of
       None \<Rightarrow> Err (InvalidResponse, provider_name @ '' response missing assistant message content'')
     | Some output_text \<Rightarrow> (case extract_chat_completion_tool_calls (io_from_str io) choice of
         Inl error \<Rightarrow> Err (InvalidResponse, provider_name @ '' response has invalid tool calls: '' @ error)
       | Inr tool_calls \<Rightarrow> Ok (normalize_provider_output_text output_text, tool_calls,
           map_option LlmFinishReason_from_wire_value (get_str choice ''finish_reason'')))))"

section \<open>The providers without HTTP\<close>

definition placeholder_complete ::
    "gateway_io \<Rightarrow> string \<Rightarrow> InMemoryPromptRegistry \<Rightarrow> nat \<Rightarrow> LlmRequest \<Rightarrow> (LlmResponse, call_error) result \<times> nat" where
  "placeholder_complete io name reg n request =
     (Ok \<lparr>lr_output_text = lq_input request,
        lr_runtime = \<lparr>rt_mode = Placeholder, rt_provider = name, rt_model = lq_model request,
          rt_lane = lq_lane request, rt_request_id = Some (io_new_v4 io n), rt_finish_reason = Some Stop,
          rt_provider_failure = None, rt_latency_ms = Some (io_latency_ms io n),
          rt_usage = Some (estimate_usage (lq_input request) (lq_input request)),
          rt_system_prompt_key = lq_system_prompt_key request,
          rt_system_prompt_version = resolve_prompt_version reg request, rt_tool_trace_count = 0\<rparr>,
        lr_tool_calls = []\<rparr>, n + 1)"

record ScriptedLlmProvider =
  sc_provider_name :: string
  sc_prompt_registry :: InMemoryPromptRegistry
  sc_response_text :: "string option"
  sc_request_id :: "string option"
  sc_finish_reason :: LlmFinishReason
  sc_latency_ms :: "64 word"
  sc_usage :: "LlmTokenUsage option"
  sc_tool_calls :: "LlmToolCall list"

definition scripted_complete ::
    "gateway_io \<Rightarrow> ScriptedLlmProvider \<Rightarrow> nat \<Rightarrow> LlmRequest \<Rightarrow> (LlmResponse, call_error) result \<times> nat" where
  "scripted_complete io p n request = (
     let output_text = unwrap_or (lq_input request) (sc_response_text p) in
     (Ok \<lparr>lr_output_text = output_text,
        lr_runtime = \<lparr>rt_mode = Provider, rt_provider = sc_provider_name p, rt_model = lq_model request,
          rt_lane = lq_lane request,
          rt_request_id = Some (unwrap_or (io_new_v4 io n) (sc_request_id p)),
          rt_finish_reason = Some (sc_finish_reason p),
          rt_provider_failure = provider_failure_for_finish_reason (sc_provider_name p) (Some (sc_finish_reason p)),
          rt_latency_ms = Some (sc_latency_ms p),
          rt_usage = Some (unwrap_or (estimate_usage (lq_input request) output_text) (sc_usage p)),
          rt_system_prompt_key = lq_system_prompt_key request,
          rt_system_prompt_version = resolve_prompt_version (sc_prompt_registry p) request,
          rt_tool_trace_count = length (sc_tool_calls p)\<rparr>,
        lr_tool_calls = sc_tool_calls p\<rparr>, n + 1))"

text \<open>The streaming call a provider has by default: one delta with the whole text.\<close>

definition default_streaming ::
    "(nat \<Rightarrow> LlmRequest \<Rightarrow> (LlmResponse, call_error) result \<times> nat) \<Rightarrow> callback \<Rightarrow> nat \<Rightarrow> LlmRequest \<Rightarrow>
     ((LlmResponse, call_error) result \<times> LlmStreamDelta list) \<times> nat" where
  "default_streaming complete on_delta n request = (
     let (r, n) = complete n request in
     case r of
       Inl e \<Rightarrow> ((Err e, []), n)
     | Inr response \<Rightarrow>
         if lr_output_text response = [] then ((Ok response, []), n)
         else let d = \<lparr>sd_index = 0, sd_delta = lr_output_text response\<rparr> in
           (case on_delta [] d of
              Inl e \<Rightarrow> ((Err (Callback_error e), [d]), n)
            | Inr _ \<Rightarrow> ((Ok response, [d]), n)))"

section \<open>The OpenAI-compatible provider\<close>

record OpenAiCompatibleLlmProviderConfig =
  oc_api_base_url :: string
  oc_api_path :: string
  oc_api_key :: "string option"
  oc_timeout_ms :: "64 word option"
  oc_reasoning_effort :: "string option"
  oc_reasoning_wire_field :: OpenAiCompatibleReasoningWireField

record OpenAiCompatibleLlmProvider =
  op_provider_name :: string
  op_config :: OpenAiCompatibleLlmProviderConfig
  op_prompt_registry :: InMemoryPromptRegistry

definition openai_compatible_connect_timeout_ms :: "env \<Rightarrow> 64 word" where
  "openai_compatible_connect_timeout_ms env =
     unwrap_or 10000 (map_option (\<lambda>v. min v 60000) (option_filter (\<lambda>v. v > 0)
       (Option.bind (env ''LLM_GATEWAY_OPENAI_COMPATIBLE_CONNECT_TIMEOUT_MS'') (\<lambda>v.
          if trim v = [] then None else (case parse_u64 (trim v) of Inr n \<Rightarrow> Some n | Inl _ \<Rightarrow> None)))))"

definition apply_openai_compatible_reasoning_config ::
    "OpenAiCompatibleLlmProviderConfig \<Rightarrow> json_map \<Rightarrow> json_map" where
  "apply_openai_compatible_reasoning_config config body = (case oc_reasoning_effort config of
     None \<Rightarrow> body
   | Some effort \<Rightarrow> (case oc_reasoning_wire_field config of
       ReasoningObject \<Rightarrow> map_insert ''reasoning'' (JObject (json_object [(''effort'', JString effort)])) body
     | ReasoningEffort \<Rightarrow> map_insert ''reasoning_effort'' (JString effort) body))"

definition chat_message :: "string \<Rightarrow> string \<Rightarrow> json" where
  "chat_message role content = JObject (json_object [(''role'', JString role), (''content'', JString content)])"

definition chat_messages :: "string option \<Rightarrow> LlmRequest \<Rightarrow> json" where
  "chat_messages system_prompt request = JArray
     ((case system_prompt of Some p \<Rightarrow> [chat_message ''system'' p] | None \<Rightarrow> []) @
      [chat_message ''user'' (lq_input request)])"

definition openai_request :: "OpenAiCompatibleLlmProvider \<Rightarrow> (string \<times> json) list \<Rightarrow> LlmRequest \<Rightarrow> http_request" where
  "openai_request p extra request = (let config = op_config p in
     \<lparr>hr_url = join_url (oc_api_base_url config) (oc_api_path config),
      hr_body = JObject (apply_openai_compatible_reasoning_config config (json_object
        ([(''model'', JString (lq_model request)),
          (''messages'', chat_messages (resolve_system_prompt (op_prompt_registry p) request) request)] @ extra))),
      hr_bearer = oc_api_key config, hr_headers = []\<rparr>)"

definition openai_error ::
    "gateway_io \<Rightarrow> OpenAiCompatibleLlmProvider \<Rightarrow> nat \<Rightarrow> LlmRequest \<Rightarrow> LlmProviderFailureKind \<times> string \<Rightarrow> call_error" where
  "openai_error io p n request failure = Provider_error
     (provider_error io n (op_provider_name p) (op_prompt_registry p) request (fst failure) (snd failure))"

definition openai_runtime ::
    "gateway_io \<Rightarrow> OpenAiCompatibleLlmProvider \<Rightarrow> nat \<Rightarrow> LlmRequest \<Rightarrow> string option \<Rightarrow> LlmFinishReason option \<Rightarrow>
     LlmTokenUsage option \<Rightarrow> nat \<Rightarrow> LlmRuntimeMetadata" where
  "openai_runtime io p n request request_id finish_reason usage tool_trace_count =
     \<lparr>rt_mode = Provider, rt_provider = op_provider_name p, rt_model = lq_model request,
      rt_lane = lq_lane request, rt_request_id = request_id, rt_finish_reason = finish_reason,
      rt_provider_failure = provider_failure_for_finish_reason (op_provider_name p) finish_reason,
      rt_latency_ms = Some (io_latency_ms io n), rt_usage = usage,
      rt_system_prompt_key = lq_system_prompt_key request,
      rt_system_prompt_version = resolve_prompt_version (op_prompt_registry p) request,
      rt_tool_trace_count = tool_trace_count\<rparr>"

definition openai_complete ::
    "gateway_io \<Rightarrow> OpenAiCompatibleLlmProvider \<Rightarrow> nat \<Rightarrow> LlmRequest \<Rightarrow> (LlmResponse, call_error) result \<times> nat" where
  "openai_complete io p n request =
     ((case and_then (post_json io n (op_provider_name p) (openai_request p [] request))
           (\<lambda>v. map_sum id (Pair v) (read_chat io (op_provider_name p) v)) of
        Inl failure \<Rightarrow> Err (openai_error io p n request failure)
      | Inr (v, output_text, tool_calls, finish_reason) \<Rightarrow>
          Ok \<lparr>lr_output_text = output_text,
             lr_runtime = openai_runtime io p n request (get_str v ''id'') finish_reason
               (parse_usage (json_get v ''usage'')) (length tool_calls),
             lr_tool_calls = tool_calls\<rparr>), n + 1)"

end
