(* ===== verification/Provider_Streams.thy ===== *)
theory Provider_Streams
  imports Provider_Calls
begin

text \<open>
  The streaming call of the OpenAI-compatible provider (\<open>src/crates/llm-gateway/src/lib.rs\<close>). The
  locale \<open>streamer\<close> is the contract of \<open>LlmProvider::complete_streaming\<close> that a caller builds on; it
  is interpreted on each provider, in \<open>Provider_Choice\<close> on the last one. The lines of a streamed body
  are the results of \<open>read_line\<close> one after the other.
\<close>

section \<open>The filter of leading reasoning\<close>

record LeadingReasoningStreamFilter =
  lf_buffer :: string
  lf_stripping :: bool

definition filter_new :: LeadingReasoningStreamFilter where
  "filter_new = \<lparr>lf_buffer = [], lf_stripping = False\<rparr>"

definition THINK_OPEN :: string where "THINK_OPEN = ''<think>''"
definition THINK_CLOSE :: string where "THINK_CLOSE = ''</think>''"

lemma length_trim_start_le: "length (trim_start s) \<le> length s"
proof -
  obtain p where "s = p @ strip_words white_space_encodings s"
    using strip_words_suffix by blast
  then have "length s = length p + length (strip_words white_space_encodings s)"
    by (metis length_append)
  then show ?thesis
    by (simp add: trim_start_def)
qed

function drain_loop :: "bool \<Rightarrow> string \<Rightarrow> string list \<times> LeadingReasoningStreamFilter" where
  "drain_loop finish buffer = (
     let trimmed = trim_start buffer; normalized = to_ascii_lowercase trimmed in
     if trimmed = [] then ([], if finish then filter_new else \<lparr>lf_buffer = buffer, lf_stripping = True\<rparr>)
     else if starts_with THINK_OPEN normalized then
       (case find_text THINK_CLOSE (drop (length THINK_OPEN) normalized) of
          None \<Rightarrow> ([], if finish then filter_new else \<lparr>lf_buffer = buffer, lf_stripping = True\<rparr>)
        | Some close_offset \<Rightarrow>
            drain_loop finish (trim_start (drop (length THINK_OPEN + close_offset + length THINK_CLOSE) trimmed)))
     else if \<not> finish \<and> starts_with normalized THINK_OPEN then ([], \<lparr>lf_buffer = buffer, lf_stripping = True\<rparr>)
     else (if buffer \<noteq> [] then [buffer] else [], filter_new))"
  by pat_completeness auto
termination
proof (relation "measure (\<lambda>(b, s). length s)")
  fix finish and buffer trimmed normalized :: string and k :: nat
  assume "trimmed = trim_start buffer" and "trimmed \<noteq> []"
  then have "0 < length trimmed" and "length trimmed \<le> length buffer"
    using length_trim_start_le [of buffer] by simp_all
  then have "length (drop (length THINK_OPEN + k + length THINK_CLOSE) trimmed) < length buffer"
    by (simp add: THINK_OPEN_def del: length_greater_0_conv)
  then show "((finish, trim_start (drop (length THINK_OPEN + k + length THINK_CLOSE) trimmed)), (finish, buffer))
      \<in> measure (\<lambda>(b, s). length s)"
    using length_trim_start_le [of "drop (length THINK_OPEN + k + length THINK_CLOSE) trimmed"] by simp
qed simp_all

declare drain_loop.simps [simp del]

definition filter_drain ::
    "bool \<Rightarrow> LeadingReasoningStreamFilter \<Rightarrow> string list \<times> LeadingReasoningStreamFilter" where
  "filter_drain finish f = (if \<not> lf_stripping f then ([], f) else drain_loop finish (lf_buffer f))"

definition filter_push ::
    "string \<Rightarrow> LeadingReasoningStreamFilter \<Rightarrow> string list \<times> LeadingReasoningStreamFilter" where
  "filter_push delta f = (if \<not> lf_stripping f then ([delta], f)
     else filter_drain False (f\<lparr>lf_buffer := lf_buffer f @ delta\<rparr>))"

definition filter_finish :: "LeadingReasoningStreamFilter \<Rightarrow> string list \<times> LeadingReasoningStreamFilter" where
  "filter_finish f = filter_drain True f"

section \<open>The streaming call\<close>

text \<open>\<open>ss_seen\<close> is the deltas the callback was given; the rest are the locals of \<open>complete_streaming\<close>.\<close>

record stream_state =
  ss_output_text :: string
  ss_request_id :: "string option"
  ss_finish_reason :: "LlmFinishReason option"
  ss_usage :: "LlmTokenUsage option"
  ss_chunk_index :: nat
  ss_reasoning_filter :: LeadingReasoningStreamFilter
  ss_seen :: "LlmStreamDelta list"

definition stream_init :: stream_state where
  "stream_init = \<lparr>ss_output_text = [], ss_request_id = None, ss_finish_reason = None, ss_usage = None,
     ss_chunk_index = 0, ss_reasoning_filter = filter_new, ss_seen = []\<rparr>"

datatype stream_stop = Stop_failure "LlmProviderFailureKind \<times> string" | Stop_callback string

fun emit :: "callback \<Rightarrow> string list \<Rightarrow> stream_state \<Rightarrow> (unit, stream_stop) result \<times> stream_state" where
  "emit on_delta [] st = (Ok (), st)"
| "emit on_delta (delta # deltas) st = (
     let d = \<lparr>sd_index = ss_chunk_index st, sd_delta = delta\<rparr>; st' = st\<lparr>ss_seen := ss_seen st @ [d]\<rparr> in
     case on_delta (ss_seen st) d of
       Inl e \<Rightarrow> (Err (Stop_callback e), st')
     | Inr _ \<Rightarrow> emit on_delta deltas (st'\<lparr>ss_chunk_index := ss_chunk_index st + 1\<rparr>))"

function trim_start_matches :: "string \<Rightarrow> string \<Rightarrow> string" where
  "trim_start_matches p s = (if p \<noteq> [] \<and> starts_with p s then trim_start_matches p (drop (length p) s) else s)"
  by pat_completeness auto
termination
proof (relation "measure (\<lambda>(p, s). length s)")
  fix p s :: string
  assume "p \<noteq> [] \<and> starts_with p s"
  then have "0 < length p" and "s \<noteq> []"
    by (auto simp: starts_with_def)
  then show "((p, drop (length p) s), (p, s)) \<in> measure (\<lambda>(p, s). length s)"
    by simp
qed simp

declare trim_start_matches.simps [simp del]

text \<open>The data of a line of the body, of the lines that have one.\<close>

definition line_data :: "string \<Rightarrow> string option" where
  "line_data line = (let trimmed = trim line in
     if trimmed = [] \<or> \<not> starts_with ''data:'' trimmed then None
     else Some (trim (trim_start_matches ''data:'' trimmed)))"

definition note_value :: "json \<Rightarrow> stream_state \<Rightarrow> stream_state" where
  "note_value v st = st\<lparr>
     ss_request_id := or_else (ss_request_id st) (get_str v ''id''),
     ss_usage := or_else (ss_usage st) (parse_usage (json_get v ''usage'')),
     ss_finish_reason := or_else (ss_finish_reason st) (extract_chat_completion_stream_finish_reason v)\<rparr>"

definition stream_value :: "callback \<Rightarrow> json \<Rightarrow> stream_state \<Rightarrow> (unit, stream_stop) result \<times> stream_state" where
  "stream_value on_delta v st = (let st = note_value v st in
     case extract_chat_completion_stream_delta v of
       None \<Rightarrow> (Ok (), st)
     | Some delta \<Rightarrow>
         if delta = [] then (Ok (), st)
         else let (deltas, filt) = filter_push delta (ss_reasoning_filter st) in
           emit on_delta deltas
             (st\<lparr>ss_output_text := ss_output_text st @ delta, ss_reasoning_filter := filt\<rparr>))"

fun stream_loop ::
    "gateway_io \<Rightarrow> string \<Rightarrow> callback \<Rightarrow> (string, string) result list \<Rightarrow> stream_state \<Rightarrow>
     (unit, stream_stop) result \<times> stream_state" where
  "stream_loop io name on_delta [] st = (Ok (), st)"
| "stream_loop io name on_delta (Inl error # rest) st =
     (Err (Stop_failure (ResponseBodyReadFailed, name @ '' streaming body read failed: '' @ error)), st)"
| "stream_loop io name on_delta (Inr line # rest) st =
     (if line = [] then (Ok (), st)
      else case line_data line of
        None \<Rightarrow> stream_loop io name on_delta rest st
      | Some data \<Rightarrow>
          if data = ''[DONE]'' then (Ok (), st)
          else (case io_from_str io data of
            Inl error \<Rightarrow> (Err (Stop_failure (InvalidJson, name @
              '' returned invalid streaming JSON chunk '' @ data @ '': '' @ error)), st)
          | Inr v \<Rightarrow> (case stream_value on_delta v st of
              (Inl e, st) \<Rightarrow> (Err e, st)
            | (Inr _, st) \<Rightarrow> stream_loop io name on_delta rest st)))"

definition stream_body ::
    "gateway_io \<Rightarrow> string \<Rightarrow> callback \<Rightarrow> (string, string) result list \<Rightarrow>
     (unit, stream_stop) result \<times> stream_state" where
  "stream_body io name on_delta lines = (
     case stream_loop io name on_delta lines stream_init of
       (Inl e, st) \<Rightarrow> (Err e, st)
     | (Inr _, st) \<Rightarrow>
         (let (deltas, filt) = filter_finish (ss_reasoning_filter st) in
          case emit on_delta deltas (st\<lparr>ss_reasoning_filter := filt\<rparr>) of
            (Inl e, st) \<Rightarrow> (Err e, st)
          | (Inr _, st) \<Rightarrow>
              if normalize_provider_output_text (ss_output_text st) = [] then
                (Err (Stop_failure (InvalidResponse, name @ '' streaming response missing assistant content'')), st)
              else (Ok (), st)))"

definition openai_streaming ::
    "gateway_io \<Rightarrow> OpenAiCompatibleLlmProvider \<Rightarrow> callback \<Rightarrow> nat \<Rightarrow> LlmRequest \<Rightarrow>
     ((LlmResponse, call_error) result \<times> LlmStreamDelta list) \<times> nat" where
  "openai_streaming io p on_delta n request = (
     let name = op_provider_name p;
         req = openai_request p [(''stream'', JBool True),
           (''stream_options'', JObject (json_object [(''include_usage'', JBool True)]))] request in
     ((case io_stream io n req of
         Stream_not_sent is_timeout error \<Rightarrow> (Err (openai_error io p n request
           (if is_timeout then RequestTimeout else RequestFailed,
            name @ '' streaming request to '' @ hr_url req @ '' failed: '' @ error)), [])
       | Streamed status lines whole \<Rightarrow>
           if \<not> is_success status then (Err (openai_error io p n request (HttpStatus,
             name @ '' returned HTTP '' @ decimal_text status @ '' with streaming body '' @
             (case whole of Inr body \<Rightarrow> body | Inl _ \<Rightarrow> []))), [])
           else (case stream_body io name on_delta lines of
               (Inl (Stop_failure failure), st) \<Rightarrow> (Err (openai_error io p n request failure), ss_seen st)
             | (Inl (Stop_callback e), st) \<Rightarrow> (Err (Callback_error e), ss_seen st)
             | (Inr _, st) \<Rightarrow>
                 (Ok \<lparr>lr_output_text = normalize_provider_output_text (ss_output_text st),
                    lr_runtime = openai_runtime io p n request (ss_request_id st)
                      (or_else (ss_finish_reason st) (Some Stop)) (ss_usage st) 0,
                    lr_tool_calls = []\<rparr>, ss_seen st))), n + 1))"

section \<open>The contract of a streaming call\<close>

text \<open>The callback accepted each of the deltas.\<close>

definition accepted :: "callback \<Rightarrow> LlmStreamDelta list \<Rightarrow> bool" where
  "accepted on_delta ds \<longleftrightarrow> (\<forall>i < length ds. on_delta (take i ds) (ds ! i) = Ok ())"

lemma accepted_empty [simp]: "accepted on_delta []"
  by (simp add: accepted_def)

lemma accepted_snoc [simp]:
  "accepted on_delta (ds @ [d]) \<longleftrightarrow> accepted on_delta ds \<and> on_delta ds d = Ok ()"
  by (auto simp: accepted_def nth_append less_Suc_eq)

text \<open>The deltas are numbered from zero and none is empty.\<close>

definition numbered :: "LlmStreamDelta list \<Rightarrow> bool" where
  "numbered ds \<longleftrightarrow> map sd_index ds = [0..<length ds] \<and> [] \<notin> set (map sd_delta ds)"

lemma numbered_empty [simp]: "numbered []"
  by (simp add: numbered_def)

lemma numbered_snoc [simp]:
  "numbered (ds @ [d]) \<longleftrightarrow> numbered ds \<and> sd_index d = length ds \<and> sd_delta d \<noteq> []"
  by (auto simp: numbered_def)

definition text_of :: "LlmStreamDelta list \<Rightarrow> string" where
  "text_of ds = concat (map sd_delta ds)"

lemma text_of_simps [simp]: "text_of [] = []" "text_of (ds @ [d]) = text_of ds @ sd_delta d"
  by (simp_all add: text_of_def)

locale streamer =
  fixes stream :: "callback \<Rightarrow> nat \<Rightarrow> LlmRequest \<Rightarrow> ((LlmResponse, call_error) result \<times> LlmStreamDelta list) \<times> nat"
  assumes deltas_numbered: "stream on_delta n request = ((r, ds), n') \<Longrightarrow> numbered ds"
    and answer_streamed: "stream on_delta n request = ((Inr response, ds), n') \<Longrightarrow>
      accepted on_delta ds \<and> text_of ds = lr_output_text response"
    and failure_accepted: "stream on_delta n request = ((Inl (Provider_error pe), ds), n') \<Longrightarrow> accepted on_delta ds"
    and refusal_last: "stream on_delta n request = ((Inl (Callback_error e), ds), n') \<Longrightarrow>
      \<exists>ds' d. ds = ds' @ [d] \<and> accepted on_delta ds' \<and> on_delta ds' d = Err e"
begin

text \<open>A caller that only appends the deltas it gets ends with the text of the answer.\<close>

lemma appended:
  "stream on_delta n request = ((Inr response, ds), n') \<Longrightarrow>
   fold (\<lambda>d s. s @ sd_delta d) ds [] = lr_output_text response"
proof -
  have "fold (\<lambda>d s. s @ sd_delta d) ds s = s @ text_of ds" for s
    by (induction ds arbitrary: s) (auto simp: text_of_def)
  then show "stream on_delta n request = ((Inr response, ds), n') \<Longrightarrow> ?thesis"
    by (simp add: answer_streamed)
qed

text \<open>The call stops at the first delta the callback refuses, with its error.\<close>

lemma stops_at_refusal:
  assumes run: "stream on_delta n request = ((r, ds), n')"
    and refused: "i < length ds" "on_delta (take i ds) (ds ! i) = Err e"
  shows "r = Err (Callback_error e) \<and> length ds = i + 1"
proof (cases r)
  case (Inr response)
  with answer_streamed [of on_delta n request response ds n'] run refused show ?thesis
    by (auto simp: accepted_def)
next
  case (Inl f)
  show ?thesis
  proof (cases f)
    case (Provider_error pe)
    with failure_accepted [of on_delta n request pe ds n'] run Inl refused show ?thesis
      by (auto simp: accepted_def)
  next
    case (Callback_error e')
    with refusal_last [of on_delta n request e' ds n'] run Inl obtain ds' d
      where ds: "ds = ds' @ [d]" "accepted on_delta ds'" "on_delta ds' d = Err e'"
      by auto
    have "\<not> i < length ds'"
      using ds refused by (auto simp: accepted_def nth_append)
    then have "i = length ds'"
      using ds refused by simp
    with ds refused Inl Callback_error show ?thesis
      by simp
  qed
qed

lemma not_stopped:
  assumes "\<And>ds d. on_delta ds d = Ok ()"
  shows "fst (fst (stream on_delta n request)) \<noteq> Err (Callback_error e)"
  using refusal_last [of on_delta n request e] assms by (cases "stream on_delta n request") force

end

text \<open>A provider whose errors are its own has the contract with the default streaming call.\<close>

locale completer =
  fixes complete :: "nat \<Rightarrow> LlmRequest \<Rightarrow> (LlmResponse, call_error) result \<times> nat"
  assumes own_errors: "fst (complete n request) \<noteq> Err (Callback_error e)"

lemma default_streaming_cases:
  assumes "default_streaming complete on_delta n request = ((r, ds), n')"
  obtains
    (error) e where "fst (complete n request) = Err e" "r = Err e" "ds = []"
  | (empty) response where "fst (complete n request) = Ok response" "r = Ok response"
      "ds = []" "lr_output_text response = []"
  | (refused) response d e where "fst (complete n request) = Ok response" "ds = [d]"
      "d = \<lparr>sd_index = 0, sd_delta = lr_output_text response\<rparr>" "lr_output_text response \<noteq> []"
      "on_delta [] d = Err e" "r = Err (Callback_error e)"
  | (streamed) response d where "fst (complete n request) = Ok response" "r = Ok response" "ds = [d]"
      "d = \<lparr>sd_index = 0, sd_delta = lr_output_text response\<rparr>" "lr_output_text response \<noteq> []"
      "on_delta [] d = Ok ()"
  using assms unfolding default_streaming_def Let_def
  by (auto split: prod.splits sum.splits if_splits)

sublocale completer \<subseteq> streaming: streamer "default_streaming complete"
proof
  fix on_delta n request r ds n'
  assume run: "default_streaming complete on_delta n request = ((r, ds), n')"
  show "numbered ds"
    using run by (cases rule: default_streaming_cases) (auto simp: numbered_def)
next
  fix on_delta n request response ds n'
  assume run: "default_streaming complete on_delta n request = ((Inr response, ds), n')"
  show "accepted on_delta ds \<and> text_of ds = lr_output_text response"
    using run by (cases rule: default_streaming_cases) (auto simp: accepted_def text_of_def)
next
  fix on_delta n request e ds n'
  assume run: "default_streaming complete on_delta n request = ((Inl (Provider_error e), ds), n')"
  show "accepted on_delta ds"
    using run by (cases rule: default_streaming_cases) auto
next
  fix on_delta n request e ds n'
  assume run: "default_streaming complete on_delta n request = ((Inl (Callback_error e), ds), n')"
  show "\<exists>ds' d. ds = ds' @ [d] \<and> accepted on_delta ds' \<and> on_delta ds' d = Err e"
    using run own_errors [of n request e]
    by (cases rule: default_streaming_cases) (auto intro!: exI [of _ "[]"])
qed

section \<open>The contract holds of each provider\<close>

interpretation placeholder: completer "placeholder_complete io name reg" for io name reg
  by unfold_locales (simp add: placeholder_complete_def)

interpretation scripted: completer "scripted_complete io p" for io p
  by unfold_locales (simp add: scripted_complete_def Let_def)

text \<open>The filter of \<open>complete_streaming\<close> never strips: it passes every delta on.\<close>

lemma filter_passes [simp]:
  "\<not> lf_stripping f \<Longrightarrow> filter_push delta f = ([delta], f)"
  "\<not> lf_stripping f \<Longrightarrow> filter_finish f = ([], f)"
  by (simp_all add: filter_push_def filter_finish_def filter_drain_def)

definition stream_inv :: "callback \<Rightarrow> stream_state \<Rightarrow> bool" where
  "stream_inv on_delta st \<longleftrightarrow> numbered (ss_seen st) \<and> accepted on_delta (ss_seen st) \<and>
     ss_chunk_index st = length (ss_seen st) \<and> text_of (ss_seen st) = ss_output_text st \<and>
     \<not> lf_stripping (ss_reasoning_filter st)"

definition stream_refused :: "callback \<Rightarrow> string \<Rightarrow> stream_state \<Rightarrow> bool" where
  "stream_refused on_delta e st \<longleftrightarrow> numbered (ss_seen st) \<and>
     (\<exists>ds d. ss_seen st = ds @ [d] \<and> accepted on_delta ds \<and> on_delta ds d = Err e)"

fun stream_post :: "callback \<Rightarrow> (unit, stream_stop) result \<times> stream_state \<Rightarrow> bool" where
  "stream_post on_delta (Inr _, st) = stream_inv on_delta st"
| "stream_post on_delta (Inl (Stop_failure _), st) = stream_inv on_delta st"
| "stream_post on_delta (Inl (Stop_callback e), st) = stream_refused on_delta e st"

lemma stream_init_inv [simp]: "stream_inv on_delta stream_init"
  by (simp add: stream_inv_def stream_init_def filter_new_def)

lemma note_value_fields [simp]:
  "ss_seen (note_value v st) = ss_seen st" "ss_output_text (note_value v st) = ss_output_text st"
  "ss_chunk_index (note_value v st) = ss_chunk_index st"
  "ss_reasoning_filter (note_value v st) = ss_reasoning_filter st"
  by (simp_all add: note_value_def)

lemma stream_value_post: "stream_inv on_delta st \<Longrightarrow> stream_post on_delta (stream_value on_delta v st)"
  by (auto simp: stream_value_def stream_inv_def stream_refused_def Let_def split: option.splits sum.splits)

lemma stream_loop_post: "stream_inv on_delta st \<Longrightarrow> stream_post on_delta (stream_loop io name on_delta lines st)"
proof (induction lines arbitrary: st)
  case (Cons r rest)
  show ?case
  proof (cases r)
    case (Inr line)
    show ?thesis
    proof (cases "line = [] \<or> line_data line = None \<or> line_data line = Some ''[DONE]''")
      case False
      then obtain data where d: "line_data line = Some data" "data \<noteq> ''[DONE]''" "line \<noteq> []"
        by auto
      show ?thesis
      proof (cases "io_from_str io data")
        case (Inr v)
        obtain x st' where s: "stream_value on_delta v st = (x, st')"
          by fastforce
        with stream_value_post [OF Cons.prems, of v] have post: "stream_post on_delta (x, st')"
          by simp
        show ?thesis
        proof (cases x)
          case (Inl e)
          with post d Inr s \<open>r = Inr line\<close> show ?thesis
            by simp
        next
          case (Inr u)
          with post d \<open>io_from_str io data = Inr v\<close> s \<open>r = Inr line\<close> Cons.IH [of st'] show ?thesis
            by simp
        qed
      qed (use d Inr Cons.prems in simp)
    qed (use Inr Cons in auto)
  qed (use Cons.prems in simp)
qed simp

lemma stream_body_post: "stream_post on_delta (stream_body io name on_delta lines)"
proof -
  obtain x st where s: "stream_loop io name on_delta lines stream_init = (x, st)"
    by fastforce
  with stream_loop_post [of on_delta stream_init io name lines] have post: "stream_post on_delta (x, st)"
    by simp
  show ?thesis
  proof (cases x)
    case (Inl e)
    with s post show ?thesis
      by (simp add: stream_body_def)
  next
    case (Inr u)
    with s post show ?thesis
      by (simp add: stream_body_def stream_inv_def)
  qed
qed

lemma stream_body_text:
  "stream_body io name on_delta lines = (Inr u, st) \<Longrightarrow> stream_inv on_delta st \<and> ss_output_text st \<noteq> []"
  using stream_body_post [of on_delta io name lines]
  by (auto simp: stream_body_def normalize_provider_output_text_def Let_def split: prod.splits sum.splits if_splits)

lemma openai_streaming_cases:
  assumes "openai_streaming io p on_delta n request = ((r, ds), n')"
  obtains
    (unsent) failure where "r = Err (openai_error io p n request failure)" "ds = []"
  | (body) lines x st where "stream_body io (op_provider_name p) on_delta lines = (x, st)" "ds = ss_seen st"
      "r = (case x of Inl (Stop_failure failure) \<Rightarrow> Err (openai_error io p n request failure)
         | Inl (Stop_callback e) \<Rightarrow> Err (Callback_error e)
         | Inr _ \<Rightarrow> Ok \<lparr>lr_output_text = ss_output_text st,
             lr_runtime = openai_runtime io p n request (ss_request_id st)
               (or_else (ss_finish_reason st) (Some Stop)) (ss_usage st) 0, lr_tool_calls = []\<rparr>)"
  using assms unfolding openai_streaming_def Let_def normalize_provider_output_text_def
  by (auto split: stream_answer.splits prod.splits sum.splits stream_stop.splits if_splits)

interpretation openai: streamer "openai_streaming io p" for io p
proof
  fix on_delta n request r ds n'
  assume run: "openai_streaming io p on_delta n request = ((r, ds), n')"
  show "numbered ds"
    using run
  proof (cases rule: openai_streaming_cases)
    case (body lines x st)
    with stream_body_post [of on_delta io "op_provider_name p" lines] show ?thesis
      by (cases x; cases "projl x") (auto simp: stream_inv_def stream_refused_def)
  qed simp
next
  fix on_delta n request response ds n'
  assume run: "openai_streaming io p on_delta n request = ((Inr response, ds), n')"
  show "accepted on_delta ds \<and> text_of ds = lr_output_text response"
    using run
  proof (cases rule: openai_streaming_cases)
    case (body lines x st)
    with stream_body_post [of on_delta io "op_provider_name p" lines] show ?thesis
      by (auto simp: stream_inv_def split: sum.splits stream_stop.splits)
  qed simp
next
  fix on_delta n request e ds n'
  assume run: "openai_streaming io p on_delta n request = ((Inl (Provider_error e), ds), n')"
  show "accepted on_delta ds"
    using run
  proof (cases rule: openai_streaming_cases)
    case (body lines x st)
    with stream_body_post [of on_delta io "op_provider_name p" lines] show ?thesis
      by (auto simp: stream_inv_def split: sum.splits stream_stop.splits)
  qed simp
next
  fix on_delta n request e ds n'
  assume run: "openai_streaming io p on_delta n request = ((Inl (Callback_error e), ds), n')"
  show "\<exists>ds' d. ds = ds' @ [d] \<and> accepted on_delta ds' \<and> on_delta ds' d = Err e"
    using run
  proof (cases rule: openai_streaming_cases)
    case (body lines x st)
    with stream_body_post [of on_delta io "op_provider_name p" lines] show ?thesis
      by (auto simp: stream_refused_def openai_error_def split: sum.splits stream_stop.splits)
  qed (simp add: openai_error_def)
qed

section \<open>What callers rely on\<close>

text \<open>
  The reference for a streamed answer: the values of the data lines before \<open>[DONE]\<close>, and from them
  the text, the first id, the first usage and the first finish reason.
\<close>

definition data_of :: "string list \<Rightarrow> string list" where
  "data_of lines = takeWhile (\<lambda>data. data \<noteq> ''[DONE]'') (List.map_filter line_data lines)"

definition deltas_of :: "json list \<Rightarrow> string list" where
  "deltas_of vs = filter (\<lambda>d. d \<noteq> []) (List.map_filter extract_chat_completion_stream_delta vs)"

fun first_some :: "('a \<Rightarrow> 'b option) \<Rightarrow> 'a list \<Rightarrow> 'b option" where
  "first_some f [] = None"
| "first_some f (x # xs) = or_else (f x) (first_some f xs)"

definition delta_list :: "nat \<Rightarrow> string list \<Rightarrow> LlmStreamDelta list" where
  "delta_list k deltas = map (\<lambda>(i, d). \<lparr>sd_index = i, sd_delta = d\<rparr>) (enumerate k deltas)"

lemma delta_list_simps [simp]:
  "delta_list k [] = []" "delta_list k (d # deltas) = \<lparr>sd_index = k, sd_delta = d\<rparr> # delta_list (Suc k) deltas"
  by (simp_all add: delta_list_def)

lemma or_else_assoc [simp]: "or_else (or_else a b) c = or_else a (or_else b c)"
  by (simp add: or_else_def split: option.split)

lemma or_else_None [simp]: "or_else a None = a" "or_else None a = a"
  by (simp_all add: or_else_def split: option.split)

lemma collect_Cons_Ok: "collect (r # rs) = Inr xs \<longleftrightarrow> (\<exists>y ys. r = Inr y \<and> collect rs = Inr ys \<and> xs = y # ys)"
  by (cases r; cases "collect rs") (auto simp: and_then_def)

text \<open>The state after the values \<open>vs\<close>, when the callback accepts everything.\<close>

definition after_values :: "json list \<Rightarrow> stream_state \<Rightarrow> stream_state" where
  "after_values vs st = st\<lparr>
     ss_output_text := ss_output_text st @ concat (deltas_of vs),
     ss_request_id := or_else (ss_request_id st) (first_some (\<lambda>v. get_str v ''id'') vs),
     ss_usage := or_else (ss_usage st) (first_some (\<lambda>v. parse_usage (json_get v ''usage'')) vs),
     ss_finish_reason := or_else (ss_finish_reason st) (first_some extract_chat_completion_stream_finish_reason vs),
     ss_chunk_index := ss_chunk_index st + length (deltas_of vs),
     ss_seen := ss_seen st @ delta_list (ss_chunk_index st) (deltas_of vs)\<rparr>"

lemma after_values_Nil [simp]: "after_values [] st = st"
  by (simp add: after_values_def deltas_of_def map_filter_simps)

lemma stream_value_accepted:
  assumes "\<And>ds d. on_delta ds d = Ok ()" and "\<not> lf_stripping (ss_reasoning_filter st)"
  shows "stream_value on_delta v st = (Ok (), after_values [v] st)"
  using assms
  by (simp add: stream_value_def after_values_def deltas_of_def map_filter_simps note_value_def Let_def
      split: option.split)

lemma after_values_Cons: "after_values vs (after_values [v] st) = after_values (v # vs) st"
  by (simp add: after_values_def deltas_of_def map_filter_simps split: option.split)

lemma after_values_filter [simp]: "ss_reasoning_filter (after_values vs st) = ss_reasoning_filter st"
  by (simp add: after_values_def)

lemma stream_loop_accepted:
  assumes ok: "\<And>ds d. on_delta ds d = Ok ()" and "\<not> lf_stripping (ss_reasoning_filter st)"
    and "collect (map (io_from_str io) (data_of lines)) = Ok vs" and "[] \<notin> set lines"
    and "rest = [] \<or> ''[DONE]'' \<in> set (List.map_filter line_data lines)"
  shows "stream_loop io name on_delta (map Ok lines @ rest) st = (Ok (), after_values vs st)"
  using assms(2-)
proof (induction lines arbitrary: st vs)
  case Nil
  then show ?case
    by (simp add: data_of_def map_filter_simps)
next
  case (Cons line lines)
  show ?case
  proof (cases "line_data line")
    case None
    with Cons show ?thesis
      by (auto simp: data_of_def map_filter_simps)
  next
    case (Some data)
    show ?thesis
    proof (cases "data = ''[DONE]''")
      case True
      with Some Cons.prems show ?thesis
        by (simp add: data_of_def map_filter_simps)
    next
      case False
      with Some Cons.prems obtain v vs' where v: "io_from_str io data = Inr v" "vs = v # vs'"
          "collect (map (io_from_str io) (data_of lines)) = Ok vs'"
        by (auto simp: data_of_def map_filter_simps collect_Cons_Ok simp del: collect.simps)
      with Some False Cons show ?thesis
        by (auto simp: stream_value_accepted [OF ok] after_values_Cons map_filter_simps)
    qed
  qed
qed

text \<open>C31: A streamed answer of the OpenAI-compatible provider is the reference answer: when the request
  is answered with success, its lines are read, every data line before \<open>[DONE]\<close> parses and the
  deltas are not all empty, the call answers with the joined deltas, the first id, usage and finish
  reason among the values, \<open>stop\<close> when no value has one, and the callback saw the deltas in order. Lines after
  \<open>[DONE]\<close>, even ones that cannot be read, do not matter, and neither do lines without data.\<close>

theorem openai_streaming_answer:
  assumes "\<And>ds d. on_delta ds d = Ok ()"
    and "io_stream io n (openai_request p [(''stream'', JBool True),
           (''stream_options'', JObject (json_object [(''include_usage'', JBool True)]))] request) =
         Streamed status (map Ok lines @ rest) whole" and "is_success status"
    and "[] \<notin> set lines" and "rest = [] \<or> ''[DONE]'' \<in> set (List.map_filter line_data lines)"
    and "collect (map (io_from_str io) (data_of lines)) = Ok vs" and "deltas_of vs \<noteq> []"
  shows "openai_streaming io p on_delta n request =
    ((Ok \<lparr>lr_output_text = concat (deltas_of vs),
        lr_runtime = openai_runtime io p n request (first_some (\<lambda>v. get_str v ''id'') vs)
          (or_else (first_some extract_chat_completion_stream_finish_reason vs) (Some Stop))
          (first_some (\<lambda>v. parse_usage (json_get v ''usage'')) vs) 0,
        lr_tool_calls = []\<rparr>, delta_list 0 (deltas_of vs)), n + 1)"
proof -
  have nonempty: "concat (deltas_of vs) \<noteq> []"
    using assms(7) by (cases "deltas_of vs") (auto simp: deltas_of_def filter_eq_Cons_iff)
  have f: "\<not> lf_stripping (ss_reasoning_filter stream_init)"
    by (simp add: stream_init_def filter_new_def)
  have "stream_body io (op_provider_name p) on_delta (map Ok lines @ rest) = (Ok (), after_values vs stream_init)"
    unfolding stream_body_def stream_loop_accepted [OF assms(1) f assms(6,4,5)]
    using f nonempty by (simp add: after_values_def normalize_provider_output_text_def stream_init_def)
  then show ?thesis
    using assms(2,3)
    by (simp add: openai_streaming_def Let_def after_values_def stream_init_def normalize_provider_output_text_def)
qed

definition example_value :: json where
  "example_value = JObject [(''choices'', JArray [JObject [(''delta'', JObject [(''content'', JString ''Hi'')])]]),
     (''id'', JString ''x1'')]"

definition example_lines :: "string list" where
  "example_lines = [''data: v'' @ [CHR 0x0A], [CHR 0x0A], ''data: [DONE]'' @ [CHR 0x0A]]"

definition example_io :: gateway_io where
  "example_io = \<lparr>io_send = \<lambda>n req. Not_sent True ''late'',
     io_stream = \<lambda>n req. Streamed 200 (map Ok example_lines @ [Err ''reset'']) (Ok []),
     io_from_str = \<lambda>s. Ok example_value, io_latency_ms = \<lambda>n. 7, io_new_v4 = \<lambda>n. ''u''\<rparr>"

definition example_provider :: OpenAiCompatibleLlmProvider where
  "example_provider = \<lparr>op_provider_name = ''p'', op_config = \<lparr>oc_api_base_url = ''http://h'', oc_api_path = ''c'',
     oc_api_key = None, oc_timeout_ms = None, oc_reasoning_effort = None,
     oc_reasoning_wire_field = ReasoningObject\<rparr>, op_prompt_registry = []\<rparr>"

definition example_llm_request :: LlmRequest where
  "example_llm_request = \<lparr>lq_model = ''m'', lq_lane = None, lq_system_prompt_key = None, lq_input = ''q''\<rparr>"

lemma white_space_start:
  "white_space_encodings = [CHR 0x09] # [CHR 0x0A] # [CHR 0x0B] # [CHR 0x0C] # [CHR 0x0D] # [CHR '' ''] #
     drop 6 white_space_encodings"
  by code_simp

text \<open>A line of graphic ends, and what follows \<open>data:\<close> in it.\<close>

lemma trim_line:
  assumes "s \<noteq> []" and "graphic (hd s)" and "graphic (last s)"
  shows "trim (s @ [CHR 0x0A]) = s"
proof -
  have "find (\<lambda>w. w \<noteq> [] \<and> starts_with w (CHR 0x0A # rev s)) (map rev white_space_encodings) = Some [CHR 0x0A]"
    by (subst white_space_start) (simp add: starts_with_def)
  then have "trim_end (s @ [CHR 0x0A]) = rev (strip_words (map rev white_space_encodings) (rev s))"
    by (simp add: trim_end_def strip_words_step)
  then show ?thesis
    using assms no_white_prefix [of "s @ [CHR 0x0A]"]
    by (simp add: trim_def trim_start_def strip_words_done no_white_suffix)
qed

lemma trim_after_blank:
  assumes "s \<noteq> []" and "graphic (hd s)" and "graphic (last s)"
  shows "trim (CHR '' '' # s) = s"
proof -
  have "find (\<lambda>w. w \<noteq> [] \<and> starts_with w (CHR '' '' # s)) white_space_encodings = Some [CHR '' '']"
    by (subst white_space_start) (simp add: starts_with_def)
  then show ?thesis
    using assms by (simp add: trim_def trim_start_def trim_end_def strip_words_step strip_words_done
        no_white_prefix no_white_suffix)
qed

lemma line_data_line:
  assumes "s \<noteq> []" and "graphic (hd s)" and "graphic (last s)" and "\<not> starts_with ''data:'' (CHR '' '' # s)"
  shows "line_data (''data: '' @ s @ [CHR 0x0A]) = Some s"
proof -
  have "trim ((''data: '' @ s) @ [CHR 0x0A]) = ''data: '' @ s"
    by (rule trim_line) (use assms in \<open>simp_all add: graphic_def\<close>)
  moreover have "trim_start_matches ''data:'' (''data: '' @ s) = CHR '' '' # s"
    using assms(4) by (simp add: trim_start_matches.simps starts_with_def)
  ultimately show ?thesis
    using assms by (simp add: line_data_def trim_after_blank starts_with_def)
qed

lemma line_data_blank: "line_data [CHR 0x0A] = None"
  by code_simp

lemma example_data: "List.map_filter line_data example_lines = [''v'', ''[DONE]'']"
  using line_data_line [of "''v''"] line_data_line [of "''[DONE]''"] line_data_blank
  by (simp add: example_lines_def map_filter_simps graphic_def starts_with_def)

lemma example_deltas: "deltas_of [example_value] = [''Hi'']"
  by (simp add: deltas_of_def map_filter_simps example_value_def extract_chat_completion_stream_delta_def
      first_choice_def first_of_def content_text_def)

theorem openai_streaming_answer_witness:
  "let ((r, ds), n) = openai_streaming example_io example_provider (\<lambda>ds d. Ok ()) 4 example_llm_request in
   map_sum (\<lambda>e. ()) lr_output_text r = Inr ''Hi'' \<and> ds = [\<lparr>sd_index = 0, sd_delta = ''Hi''\<rparr>] \<and> n = 5"
proof -
  have data: "data_of example_lines = [''v'']"
    by (simp add: data_of_def example_data)
  have "openai_streaming example_io example_provider (\<lambda>ds d. Ok ()) 4 example_llm_request =
    ((Ok \<lparr>lr_output_text = concat (deltas_of [example_value]),
        lr_runtime = openai_runtime example_io example_provider 4 example_llm_request
          (first_some (\<lambda>v. get_str v ''id'') [example_value])
          (or_else (first_some extract_chat_completion_stream_finish_reason [example_value]) (Some Stop))
          (first_some (\<lambda>v. parse_usage (json_get v ''usage'')) [example_value]) 0,
        lr_tool_calls = []\<rparr>, delta_list 0 (deltas_of [example_value])), 4 + 1)"
    by (rule openai_streaming_answer [where status = 200 and lines = example_lines and rest = "[Err ''reset'']"
          and whole = "Ok []"])
      (simp_all add: example_io_def is_success_def data example_data example_deltas and_then_def,
       simp add: example_lines_def)
  then show ?thesis
    by (simp add: example_deltas)
qed

text \<open>A stream that is cut off before \<open>[DONE]\<close> is taken for a complete answer: nothing of the answer
  says that the body ended early.\<close>

lemma cut_stream_stops:
  assumes "\<And>ds d. on_delta ds d = Ok ()" and "line_data line = Some data" and "data \<noteq> ''[DONE]''"
    and "line \<noteq> []" and "io_from_str io data = Ok example_value"
  shows "\<exists>st. stream_body io name on_delta [Ok line] = (Ok (), st) \<and>
    ss_finish_reason st = None \<and> ss_output_text st = ''Hi''"
proof -
  have "stream_loop io name on_delta (map Ok [line] @ []) stream_init = (Ok (), after_values [example_value] stream_init)"
    by (rule stream_loop_accepted [OF assms(1)])
      (use assms in \<open>auto simp: stream_init_def filter_new_def data_of_def map_filter_simps and_then_def\<close>)
  then show ?thesis
    by (simp add: stream_body_def after_values_def stream_init_def filter_new_def example_deltas
        normalize_provider_output_text_def)
      (simp add: example_value_def extract_chat_completion_stream_finish_reason_def first_choice_def first_of_def
        get_str_def)
qed

section \<open>Completing\<close>

lemma usage_total_from_input:
  "parse_usage (Some (JObject [(''input_tokens'', JNumber (PosInt 10)), (''output_tokens'', JNumber (PosInt 90))])) =
   Some \<lparr>us_input_tokens = 10, us_output_tokens = 90, us_total_tokens = 10\<rparr>"
  by (simp add: parse_usage_def or_else_def)

text \<open>A call of \<open>post_json\<close> is answered by the provider exactly when its failure says so.\<close>

definition was_answered :: "http_answer \<Rightarrow> bool" where
  "was_answered a = (case a of Answered _ _ \<Rightarrow> True | Not_sent _ _ \<Rightarrow> False)"

lemma post_json_failure:
  "post_json io n name req = Inl failure \<Longrightarrow>
   (provider_responded (fst failure) \<longleftrightarrow> was_answered (io_send io n req)) \<and> fst failure \<noteq> FinishReasonError"
  by (auto simp: post_json_def provider_responded_def was_answered_def
      split: http_answer.splits sum.splits if_splits)

lemma post_json_answered: "post_json io n name req = Inr v \<Longrightarrow> was_answered (io_send io n req)"
  by (auto simp: post_json_def was_answered_def split: http_answer.splits)

lemma read_chat_failure: "read_chat io name v = Inl failure \<Longrightarrow> fst failure = InvalidResponse"
  by (auto simp: read_chat_def split: option.splits sum.splits)

text \<open>A completion of the OpenAI-compatible provider makes one request. When it fails, the error carries the
  kind of the failure in its metadata, and the kind says that the provider responded exactly
  when it did; the message and the recorded message are the redacted one and nothing is
  recorded of a request id or usage. When it succeeds, the provider responded, and a failure is
  recorded exactly when the provider itself finished with an error.\<close>

theorem openai_completion_outcome:
  "case openai_complete io p n request of (r, n') \<Rightarrow> n' = n + 1 \<and>
     (let answered = was_answered (io_send io n (openai_request p [] request)) in
      case r of
        Inl (Callback_error e) \<Rightarrow> False
      | Inl (Provider_error e) \<Rightarrow> \<exists>kind message.
          rt_provider_failure (pe_runtime e) = Some \<lparr>pf_kind = kind, pf_message = redacted message\<rparr> \<and>
          pe_message e = redacted message \<and> provider_responded kind = answered \<and>
          rt_finish_reason (pe_runtime e) = Some Error \<and> rt_request_id (pe_runtime e) = None \<and>
          rt_usage (pe_runtime e) = None
      | Inr response \<Rightarrow> answered \<and>
          (rt_provider_failure (lr_runtime response) = None) =
            (rt_finish_reason (lr_runtime response) \<noteq> Some Error) \<and>
          rt_tool_trace_count (lr_runtime response) = length (lr_tool_calls response))"
proof (cases "post_json io n (op_provider_name p) (openai_request p [] request)")
  case (Inl failure)
  then show ?thesis
    using post_json_failure [OF Inl]
    by (auto simp: openai_complete_def openai_error_def provider_error_def and_then_def Let_def)
next
  case (Inr v)
  note answered = post_json_answered [OF Inr]
  show ?thesis
  proof (cases "read_chat io (op_provider_name p) v")
    case (Inl failure)
    with Inr answered read_chat_failure [OF Inl] show ?thesis
      by (auto simp: openai_complete_def openai_error_def provider_error_def and_then_def Let_def
          provider_responded_def)
  next
    case chat: (Inr x)
    with Inr answered show ?thesis
      by (cases x) (simp add: openai_complete_def openai_runtime_def and_then_def
          provider_failure_for_finish_reason_def)
  qed
qed

end
