(* ===== verification/Provider_Choice.thy ===== *)
theory Provider_Choice
  imports Provider_Streams
begin

text \<open>
  The OpenClaw provider with its corrective retries, and the choice of a provider from the
  environment or from a profile (\<open>src/crates/llm-gateway/src/lib.rs\<close>), with the contract of the streaming
  call for whichever provider was chosen.
\<close>

section \<open>The OpenClaw provider\<close>

record OpenClawLlmProviderConfig =
  cc_gateway_base_url :: string
  cc_token :: "string option"
  cc_agent_id :: "string option"
  cc_model :: "string option"
  cc_model_override :: "string option"
  cc_prefer_responses :: bool
  cc_timeout_ms :: "64 word"

record OpenClawLlmProvider =
  ow_provider_name :: string
  ow_config :: OpenClawLlmProviderConfig
  ow_prompt_registry :: InMemoryPromptRegistry

definition OPENCLAW_CORRECTIVE_RETRY_INSTRUCTIONS :: "string list" where
  "OPENCLAW_CORRECTIVE_RETRY_INSTRUCTIONS =
     [map byte [231, 155, 180, 230, 142, 165, 229, 155, 158, 231, 173, 148, 231, 148, 168, 230, 136, 183, 229, 189, 147, 229,
      137, 141, 233, 151, 174, 233, 162, 152, 227, 128, 130, 228, 184, 141, 232, 166, 129, 232, 135, 170, 230, 136,
      145, 228, 187, 139, 231, 187, 141, 239, 188, 140, 228, 184, 141, 232, 166, 129, 232, 176, 136, 229, 134, 133,
      233, 131, 168, 231, 138, 182, 230, 128, 129, 239, 188, 140, 228, 184, 141, 232, 166, 129, 232, 175, 180, 232,
      135, 170, 229, 183, 177, 229, 136, 154, 229, 144, 175, 229, 138, 168, 227, 128, 129, 230, 178, 161, 230, 156,
      137, 229, 144, 141, 229, 173, 151, 227, 128, 129, 230, 178, 161, 230, 156, 137, 232, 174, 176, 229, 191, 134,
      239, 188, 140, 228, 185, 159, 228, 184, 141, 232, 166, 129, 232, 174, 169, 231, 148, 168, 230, 136, 183, 231,
      187, 153, 228, 189, 160, 232, 181, 183, 229, 144, 141, 227, 128, 130],
      map byte [229, 143, 170, 232, 190, 147, 229, 135, 186, 230, 156, 128, 231, 187, 136, 231, 173, 148, 230, 161, 136, 227,
      128, 130, 228, 184, 141, 232, 166, 129, 230, 179, 132, 233, 156, 178, 229, 183, 165, 229, 133, 183, 232, 176,
      131, 231, 148, 168, 227, 128, 129, 229, 135, 189, 230, 149, 176, 229, 143, 130, 230, 149, 176, 227, 128, 129,
      74, 83, 79, 78, 32, 229, 183, 165, 229, 133, 183, 232, 189, 168, 232, 191, 185, 230, 136, 150, 229, 134,
      133, 233, 131, 168, 230, 137, 167, 232, 161, 140, 230, 150, 135, 230, 156, 172, 227, 128, 130]]"

definition looks_like_openclaw_onboarding_drift :: "string \<Rightarrow> bool" where
  "looks_like_openclaw_onboarding_drift content = (
     let content = to_ascii_lowercase (trim content) in
     content \<noteq> [] \<and>
     list_ex (contains_text content)
       [map byte [229, 136, 154, 229, 144, 175, 229, 138, 168], map byte [231, 172, 172, 228, 184, 128, 230, 172, 161], ''first time'', ''just started'',
        ''no memory''] \<and>
     list_ex (contains_text content)
       [map byte [232, 181, 183, 229, 144, 141], map byte [229, 144, 141, 229, 173, 151], ''name me'', ''give me a name'',
        map byte [230, 178, 161, 230, 156, 137, 229, 144, 141, 229, 173, 151]])"

definition looks_like_openclaw_leaked_tool_call_content :: "string \<Rightarrow> bool" where
  "looks_like_openclaw_leaked_tool_call_content content = (
     let trimmed = trim content; lower = to_ascii_lowercase trimmed in
     list_ex (contains_text lower)
       [''<tool_call'', ''</tool_call'', ''function_call'', ''\"tool_calls\"'', ''\"tool_call\"''] \<or>
     starts_with ''{'' trimmed \<and>
     list_ex (contains_text lower) [''\"arguments\"'', ''\"function\"'', ''\"tool\"''])"

definition looks_like_openclaw_native_tool_failure :: "string \<Rightarrow> bool" where
  "looks_like_openclaw_native_tool_failure content =
     list_ex (contains_text (to_ascii_lowercase (trim content)))
       [''cannot read properties of undefined'', ''tool failed'', ''search failed'',
        map byte [229, 183, 165, 229, 133, 183, 232, 176, 131, 231, 148, 168, 229, 164, 177, 232, 180, 165]]"

definition looks_like_openclaw_retryable_bad_output :: "string \<Rightarrow> bool" where
  "looks_like_openclaw_retryable_bad_output content \<longleftrightarrow>
     looks_like_openclaw_onboarding_drift content \<or>
     looks_like_openclaw_leaked_tool_call_content content \<or>
     looks_like_openclaw_native_tool_failure content"

definition merge_openclaw_instructions :: "string option \<Rightarrow> string option \<Rightarrow> string option" where
  "merge_openclaw_instructions system_prompt additional_instruction = (
     let part = (\<lambda>x. case option_filter (\<lambda>v. v \<noteq> []) (map_option trim x) of Some v \<Rightarrow> [v] | None \<Rightarrow> []);
         parts = part system_prompt @ part additional_instruction in
     if parts = [] then None else Some (join [byte 10, byte 10] parts))"

definition resolve_request_model :: "OpenClawLlmProvider \<Rightarrow> LlmRequest \<Rightarrow> string" where
  "resolve_request_model p request =
     unwrap_or (lq_model request) (option_filter (\<lambda>v. v \<noteq> []) (map_option trim (cc_model (ow_config p))))"

text \<open>The request of \<open>send_json\<close>.\<close>

definition openclaw_request :: "OpenClawLlmProvider \<Rightarrow> string \<Rightarrow> json_map \<Rightarrow> http_request" where
  "openclaw_request p path body = (let config = ow_config p;
       header = (\<lambda>name v. case v of Some x \<Rightarrow> [(name, x)] | None \<Rightarrow> []) in
     \<lparr>hr_url = join_url (cc_gateway_base_url config) path, hr_body = JObject body,
      hr_bearer = cc_token config,
      hr_headers = header ''x-openclaw-agent-id'' (cc_agent_id config) @
        header ''x-openclaw-model'' (cc_model_override config)\<rparr>)"

definition openclaw_error ::
    "gateway_io \<Rightarrow> OpenClawLlmProvider \<Rightarrow> nat \<Rightarrow> LlmRequest \<Rightarrow> LlmProviderFailureKind \<times> string \<Rightarrow> call_error" where
  "openclaw_error io p n request failure = Provider_error
     (provider_error io n (ow_provider_name p) (ow_prompt_registry p) request (fst failure) (snd failure))"

definition openclaw_runtime ::
    "gateway_io \<Rightarrow> OpenClawLlmProvider \<Rightarrow> nat \<Rightarrow> LlmRequest \<Rightarrow> json \<Rightarrow> LlmFinishReason option \<Rightarrow> nat \<Rightarrow>
     LlmRuntimeMetadata" where
  "openclaw_runtime io p n request v finish_reason tool_trace_count =
     \<lparr>rt_mode = Provider, rt_provider = ow_provider_name p, rt_model = resolve_request_model p request,
      rt_lane = lq_lane request, rt_request_id = get_str v ''id'', rt_finish_reason = finish_reason,
      rt_provider_failure = provider_failure_for_finish_reason (ow_provider_name p) finish_reason,
      rt_latency_ms = Some (io_latency_ms io n), rt_usage = parse_usage (json_get v ''usage''),
      rt_system_prompt_key = lq_system_prompt_key request,
      rt_system_prompt_version = resolve_prompt_version (ow_prompt_registry p) request,
      rt_tool_trace_count = tool_trace_count\<rparr>"

text \<open>\<open>0.2\<close> as the bits of an \<open>f64\<close>.\<close>

definition json_temperature :: json where
  "json_temperature = JNumber (Float 4596373779694328218)"

definition responses_body :: "OpenClawLlmProvider \<Rightarrow> LlmRequest \<Rightarrow> string option \<Rightarrow> json_map" where
  "responses_body p request additional_instruction = (
     let body = json_object
           [(''model'', JString (resolve_request_model p request)), (''user'', JString ''v3''),
            (''input'', JString (lq_input request)), (''temperature'', json_temperature),
            (''reasoning'', JObject (json_object
               [(''effort'', JString ''medium''), (''summary'', JString ''auto'')]))] in
     case merge_openclaw_instructions (resolve_system_prompt (ow_prompt_registry p) request) additional_instruction of
       Some instructions \<Rightarrow> map_insert ''instructions'' (JString instructions) body
     | None \<Rightarrow> body)"

definition chat_body :: "OpenClawLlmProvider \<Rightarrow> LlmRequest \<Rightarrow> string option \<Rightarrow> json_map" where
  "chat_body p request additional_instruction = json_object
     [(''model'', JString (resolve_request_model p request)), (''user'', JString ''v3''),
      (''temperature'', json_temperature),
      (''messages'', chat_messages (merge_openclaw_instructions
         (resolve_system_prompt (ow_prompt_registry p) request) additional_instruction) request)]"

definition complete_responses_with_instruction ::
    "gateway_io \<Rightarrow> OpenClawLlmProvider \<Rightarrow> string option \<Rightarrow> nat \<Rightarrow> LlmRequest \<Rightarrow>
     (LlmResponse, call_error) result \<times> nat" where
  "complete_responses_with_instruction io p additional_instruction n request =
     ((case and_then (post_json io n (ow_provider_name p)
             (openclaw_request p ''/v1/responses'' (responses_body p request additional_instruction)))
           (\<lambda>v. map_sum id (Pair v) (ok_or (InvalidResponse, ow_provider_name p @ '' response missing output text'')
              (extract_responses_output_text v))) of
        Inl failure \<Rightarrow> Err (openclaw_error io p n request failure)
      | Inr (v, output_text) \<Rightarrow>
          Ok \<lparr>lr_output_text = normalize_provider_output_text output_text,
             lr_runtime = openclaw_runtime io p n request v (Some Stop) 0, lr_tool_calls = []\<rparr>), n + 1)"

definition complete_chat_with_instruction ::
    "gateway_io \<Rightarrow> OpenClawLlmProvider \<Rightarrow> string option \<Rightarrow> nat \<Rightarrow> LlmRequest \<Rightarrow>
     (LlmResponse, call_error) result \<times> nat" where
  "complete_chat_with_instruction io p additional_instruction n request =
     ((case and_then (post_json io n (ow_provider_name p)
             (openclaw_request p ''/v1/chat/completions'' (chat_body p request additional_instruction)))
           (\<lambda>v. map_sum id (Pair v) (read_chat io (ow_provider_name p) v)) of
        Inl failure \<Rightarrow> Err (openclaw_error io p n request failure)
      | Inr (v, output_text, tool_calls, finish_reason) \<Rightarrow>
          Ok \<lparr>lr_output_text = output_text,
             lr_runtime = openclaw_runtime io p n request v finish_reason (length tool_calls),
             lr_tool_calls = tool_calls\<rparr>), n + 1)"

text \<open>The loop of \<open>retry_bad_responses_output\<close> and \<open>retry_bad_chat_output\<close>, the same but for the call.\<close>

fun retry_loop ::
    "(string option \<Rightarrow> nat \<Rightarrow> LlmRequest \<Rightarrow> (LlmResponse, call_error) result \<times> nat) \<Rightarrow> LlmRequest \<Rightarrow>
     LlmResponse \<Rightarrow> string list \<Rightarrow> nat \<Rightarrow> LlmResponse \<times> nat" where
  "retry_loop call request first_response [] n = (first_response, n)"
| "retry_loop call request first_response (instruction # instructions) n = (
     case call (Some instruction) n request of
       (Inr response, n) \<Rightarrow>
         if \<not> looks_like_openclaw_retryable_bad_output (lr_output_text response) then (response, n)
         else retry_loop call request first_response instructions n
     | (Inl _, n) \<Rightarrow> retry_loop call request first_response instructions n)"

definition retry_bad_output ::
    "(string option \<Rightarrow> nat \<Rightarrow> LlmRequest \<Rightarrow> (LlmResponse, call_error) result \<times> nat) \<Rightarrow> LlmRequest \<Rightarrow>
     LlmResponse \<Rightarrow> nat \<Rightarrow> LlmResponse \<times> nat" where
  "retry_bad_output call request first_response n =
     (if \<not> looks_like_openclaw_retryable_bad_output (lr_output_text first_response) then (first_response, n)
      else retry_loop call request first_response OPENCLAW_CORRECTIVE_RETRY_INSTRUCTIONS n)"

definition openclaw_chat ::
    "gateway_io \<Rightarrow> OpenClawLlmProvider \<Rightarrow> nat \<Rightarrow> LlmRequest \<Rightarrow> (LlmResponse, call_error) result \<times> nat" where
  "openclaw_chat io p n request = (case complete_chat_with_instruction io p None n request of
     (Inl e, n) \<Rightarrow> (Err e, n)
   | (Inr response, n) \<Rightarrow> apfst Ok (retry_bad_output (complete_chat_with_instruction io p) request response n))"

definition openclaw_complete ::
    "gateway_io \<Rightarrow> OpenClawLlmProvider \<Rightarrow> nat \<Rightarrow> LlmRequest \<Rightarrow> (LlmResponse, call_error) result \<times> nat" where
  "openclaw_complete io p n request =
     (if cc_prefer_responses (ow_config p)
      then (case complete_responses_with_instruction io p None n request of
          (Inr response, n) \<Rightarrow>
            apfst Ok (retry_bad_output (complete_responses_with_instruction io p) request response n)
        | (Inl _, n) \<Rightarrow> openclaw_chat io p n request)
      else openclaw_chat io p n request)"

section \<open>Failures of OpenClaw are its own\<close>

lemma complete_responses_error:
  "fst (complete_responses_with_instruction io p extra n request) \<noteq> Err (Callback_error e)"
  by (auto simp: complete_responses_with_instruction_def openclaw_error_def split: sum.splits)

lemma complete_chat_error:
  "fst (complete_chat_with_instruction io p extra n request) \<noteq> Err (Callback_error e)"
  by (auto simp: complete_chat_with_instruction_def openclaw_error_def split: sum.splits)

lemma openclaw_chat_error: "fst (openclaw_chat io p n request) \<noteq> Err (Callback_error e)"
  using complete_chat_error [of io p None n request e]
  by (auto simp: openclaw_chat_def apfst_def map_prod_def split: prod.splits sum.splits)

interpretation openclaw: completer "openclaw_complete io p" for io p
proof
  fix n request e
  show "fst (openclaw_complete io p n request) \<noteq> Err (Callback_error e)"
    using openclaw_chat_error [of io p n request e]
    by (auto simp: openclaw_complete_def openclaw_chat_error apfst_def map_prod_def split: prod.splits sum.splits)
qed

section \<open>The choice of a provider\<close>

datatype llm_provider =
    Placeholder_provider string InMemoryPromptRegistry
  | Scripted_provider ScriptedLlmProvider
  | OpenAi_provider OpenAiCompatibleLlmProvider
  | OpenClaw_provider OpenClawLlmProvider

fun provider_complete ::
    "gateway_io \<Rightarrow> llm_provider \<Rightarrow> nat \<Rightarrow> LlmRequest \<Rightarrow> (LlmResponse, call_error) result \<times> nat" where
  "provider_complete io (Placeholder_provider name reg) = placeholder_complete io name reg"
| "provider_complete io (Scripted_provider p) = scripted_complete io p"
| "provider_complete io (OpenAi_provider p) = openai_complete io p"
| "provider_complete io (OpenClaw_provider p) = openclaw_complete io p"

definition provider_streaming ::
    "gateway_io \<Rightarrow> llm_provider \<Rightarrow> callback \<Rightarrow> nat \<Rightarrow> LlmRequest \<Rightarrow>
     ((LlmResponse, call_error) result \<times> LlmStreamDelta list) \<times> nat" where
  "provider_streaming io provider = (case provider of
     OpenAi_provider p \<Rightarrow> openai_streaming io p
   | _ \<Rightarrow> default_streaming (provider_complete io provider))"

text \<open>
  What building a provider gets from elsewhere: whether \<open>reqwest\<close> builds a client, and how the
  derived \<open>Deserialize\<close> reads the usage and the tool trace of a scripted provider.
\<close>

record builder_io =
  bu_client :: bool
  bu_usage :: "string \<Rightarrow> (LlmTokenUsage, string) result"
  bu_tool_trace :: "string \<Rightarrow> (LlmToolCall list, string) result"

definition ScriptedLlmProvider_new :: "string \<Rightarrow> ScriptedLlmProvider" where
  "ScriptedLlmProvider_new name = \<lparr>sc_provider_name = name, sc_prompt_registry = [],
     sc_response_text = None, sc_request_id = None, sc_finish_reason = Stop, sc_latency_ms = 0,
     sc_usage = None, sc_tool_calls = []\<rparr>"

definition with_env :: "env \<Rightarrow> string \<Rightarrow> (string \<Rightarrow> 'p \<Rightarrow> ('p, string) result) \<Rightarrow> 'p \<Rightarrow> ('p, string) result" where
  "with_env env key assign p = (case env key of None \<Rightarrow> Ok p | Some v \<Rightarrow> assign v p)"

definition parsed :: "string \<Rightarrow> ('a, string) result \<Rightarrow> ('a, string) result" where
  "parsed what r = (case r of Inl e \<Rightarrow> Err (what @ '': '' @ e) | Inr x \<Rightarrow> Ok x)"

definition build_scripted_provider_from_env ::
    "env \<Rightarrow> builder_io \<Rightarrow> string \<Rightarrow> string \<Rightarrow> InMemoryPromptRegistry \<Rightarrow> (ScriptedLlmProvider, string) result" where
  "build_scripted_provider_from_env env bu p runtime_provider reg = (
     let var = (\<lambda>suffix. with_env env (p @ suffix)) in
     and_then (Ok ((ScriptedLlmProvider_new runtime_provider)\<lparr>sc_prompt_registry := reg\<rparr>)) (\<lambda>x.
     and_then (var ''_RUNTIME_OUTPUT_TEXT'' (\<lambda>v x. Ok (x\<lparr>sc_response_text := Some v\<rparr>)) x) (\<lambda>x.
     and_then (var ''_RUNTIME_REQUEST_ID'' (\<lambda>v x. Ok (x\<lparr>sc_request_id := Some v\<rparr>)) x) (\<lambda>x.
     and_then (var ''_RUNTIME_FINISH_REASON''
       (\<lambda>v x. Ok (x\<lparr>sc_finish_reason := LlmFinishReason_from_wire_value v\<rparr>)) x) (\<lambda>x.
     and_then (var ''_RUNTIME_LATENCY_MS'' (\<lambda>v x.
       and_then (parsed (''invalid '' @ p @ ''_RUNTIME_LATENCY_MS value '' @ v)
         (map_sum int_error_text id (parse_u64 v))) (\<lambda>n. Ok (x\<lparr>sc_latency_ms := n\<rparr>))) x) (\<lambda>x.
     and_then (var ''_RUNTIME_USAGE_JSON'' (\<lambda>v x.
       and_then (parsed (''invalid '' @ p @ ''_RUNTIME_USAGE_JSON payload '' @ v) (bu_usage bu v))
         (\<lambda>u. Ok (x\<lparr>sc_usage := Some u\<rparr>))) x) (\<lambda>x.
     var ''_RUNTIME_TOOL_TRACE_JSON'' (\<lambda>v x.
       and_then (parsed (''invalid '' @ p @ ''_RUNTIME_TOOL_TRACE_JSON payload '' @ v) (bu_tool_trace bu v))
         (\<lambda>t. Ok (x\<lparr>sc_tool_calls := t\<rparr>))) x)))))))"

definition build_openclaw_provider_from_env ::
    "env \<Rightarrow> builder_io \<Rightarrow> string \<Rightarrow> InMemoryPromptRegistry \<Rightarrow> (OpenClawLlmProvider, string) result" where
  "build_openclaw_provider_from_env env bu runtime_provider reg =
     (if \<not> env_flag env ''OPENCLAW_EXTENSION_ENABLED'' False
      then Err ''OPENCLAW_EXTENSION_ENABLED must be true to use runtime provider openclaw''
      else
        and_then (ok_or ''OPENCLAW_GATEWAY_BASE_URL is required when runtime provider openclaw is selected''
          (or_else (env ''OPENCLAW_GATEWAY_BASE_URL'') (env ''OPENCLAW_GATEWAY_URL''))) (\<lambda>gateway_base_url.
        let token = env ''OPENCLAW_GATEWAY_TOKEN'' in
        if unwrap_or [] (map_option trim token) = [] \<and> \<not> env_flag env ''OPENCLAW_GATEWAY_TOKEN_OPTIONAL'' False
        then Err ''OPENCLAW_GATEWAY_TOKEN is required unless OPENCLAW_GATEWAY_TOKEN_OPTIONAL=true''
        else
          and_then (transpose_option (map_option (\<lambda>v.
            parsed (''invalid OPENCLAW_TIMEOUT_MS value '' @ v) (map_sum int_error_text id (parse_u64 v)))
            (env ''OPENCLAW_TIMEOUT_MS''))) (\<lambda>timeout_ms.
          if \<not> bu_client bu then Err ''failed to build OpenClaw HTTP client''
          else Ok \<lparr>ow_provider_name = runtime_provider,
             ow_config = \<lparr>cc_gateway_base_url = gateway_base_url, cc_token = token,
               cc_agent_id = env ''OPENCLAW_AGENT_ID'', cc_model = env ''OPENCLAW_MODEL'',
               cc_model_override = env ''OPENCLAW_MODEL_OVERRIDE'',
               cc_prefer_responses = env_flag env ''OPENCLAW_PREFER_RESPONSES'' True,
               cc_timeout_ms = unwrap_or 60000 timeout_ms\<rparr>,
             ow_prompt_registry = reg\<rparr>)))"

definition openai_compatible_runtime_config_from_env ::
    "env \<Rightarrow> string \<Rightarrow> string \<Rightarrow> (OpenAiCompatibleLlmProviderConfig option, string) result" where
  "openai_compatible_runtime_config_from_env env p runtime_provider = (
     case env (p @ ''_RUNTIME_BASE_URL'') of
       Some api_base_url \<Rightarrow>
         and_then (optional_env_u64 env p ''RUNTIME_TIMEOUT_MS'') (\<lambda>timeout_ms.
         and_then (optional_env_reasoning_effort env p ''RUNTIME_REASONING_EFFORT'') (\<lambda>effort.
         and_then (optional_env_reasoning_wire_field env p ''RUNTIME_REASONING_FIELD'') (\<lambda>field.
         Ok (Some \<lparr>oc_api_base_url = api_base_url,
           oc_api_path = unwrap_or ''/v1/chat/completions'' (env (p @ ''_RUNTIME_API_PATH'')),
           oc_api_key = env (p @ ''_RUNTIME_API_KEY''), oc_timeout_ms = timeout_ms,
           oc_reasoning_effort = effort, oc_reasoning_wire_field = unwrap_or ReasoningObject field\<rparr>))))
     | None \<Rightarrow>
       if \<not> eq_ignore_ascii_case runtime_provider ''minimax'' then Ok None
       else (case optional_env_string env ''MINIMAX'' ''BASE_URL'' of
         None \<Rightarrow> Ok None
       | Some api_base_url \<Rightarrow>
         and_then (ok_or ''MINIMAX_API_KEY is required for minimax provider''
           (optional_env_string env ''MINIMAX'' ''API_KEY'')) (\<lambda>api_key.
         and_then (optional_env_u64 env p ''RUNTIME_TIMEOUT_MS'') (\<lambda>t1.
         and_then (optional_env_u64 env ''MINIMAX'' ''TIMEOUT_MS'') (\<lambda>t2.
         and_then (optional_env_reasoning_effort env ''MINIMAX'' ''REASONING_EFFORT'') (\<lambda>effort.
         and_then (optional_env_reasoning_wire_field env ''MINIMAX'' ''REASONING_FIELD'') (\<lambda>field.
         Ok (Some \<lparr>oc_api_base_url = api_base_url,
           oc_api_path = unwrap_or ''/chat/completions'' (optional_env_string env ''MINIMAX'' ''API_PATH''),
           oc_api_key = Some api_key, oc_timeout_ms = or_else (or_else t1 t2) (Some 120000),
           oc_reasoning_effort = effort, oc_reasoning_wire_field = unwrap_or ReasoningObject field\<rparr>))))))))"

definition OpenAiCompatibleLlmProvider_new ::
    "builder_io \<Rightarrow> string \<Rightarrow> OpenAiCompatibleLlmProviderConfig \<Rightarrow> (OpenAiCompatibleLlmProvider, string) result" where
  "OpenAiCompatibleLlmProvider_new bu name config =
     (if \<not> bu_client bu then Err ''failed to build OpenAI-compatible HTTP client''
      else Ok \<lparr>op_provider_name = name, op_config = config, op_prompt_registry = []\<rparr>)"

definition build_provider_from_env ::
    "env \<Rightarrow> builder_io \<Rightarrow> string \<Rightarrow> string \<Rightarrow> string \<Rightarrow> InMemoryPromptRegistry \<Rightarrow> (llm_provider, string) result" where
  "build_provider_from_env env bu p runtime_mode runtime_provider reg =
     (if runtime_mode = ''placeholder'' then Ok (Placeholder_provider runtime_provider reg)
      else if runtime_mode = ''provider'' then
        (if runtime_provider = ''openclaw''
         then map_sum id OpenClaw_provider (build_openclaw_provider_from_env env bu runtime_provider reg)
         else and_then (openai_compatible_runtime_config_from_env env p runtime_provider) (\<lambda>config.
           case config of
             Some config \<Rightarrow> map_sum id (\<lambda>x. OpenAi_provider (x\<lparr>op_prompt_registry := reg\<rparr>))
               (OpenAiCompatibleLlmProvider_new bu runtime_provider config)
           | None \<Rightarrow> map_sum id Scripted_provider (build_scripted_provider_from_env env bu p runtime_provider reg)))
      else Err (''unsupported '' @ p @ ''_RUNTIME_MODE '' @ runtime_mode @ ''; expected placeholder or provider''))"

definition build_provider_from_profile_env ::
    "env \<Rightarrow> builder_io \<Rightarrow> string \<Rightarrow> ModelProviderProfile \<Rightarrow> InMemoryPromptRegistry \<Rightarrow> (llm_provider, string) result" where
  "build_provider_from_profile_env env bu p profile reg =
     (if pp_provider_id profile = ''placeholder''
      then build_provider_from_env env bu p ''placeholder'' (pp_provider_id profile) reg
      else (case pp_base_url profile of
          None \<Rightarrow> build_provider_from_env env bu p ''provider'' (pp_provider_id profile) reg
        | Some api_base_url \<Rightarrow>
            and_then (optional_env_reasoning_effort env p ''REASONING_EFFORT'') (\<lambda>effort.
            and_then (optional_env_reasoning_wire_field env p ''REASONING_FIELD'') (\<lambda>field.
            map_sum id (\<lambda>x. OpenAi_provider (x\<lparr>op_prompt_registry := reg\<rparr>))
              (OpenAiCompatibleLlmProvider_new bu (pp_provider_id profile)
                \<lparr>oc_api_base_url = api_base_url,
                 oc_api_path = unwrap_or ''/v1/chat/completions'' (pp_api_path profile),
                 oc_api_key = option_filter (\<lambda>v. v \<noteq> [])
                   (map_option trim (Option.bind (pp_auth_env_key_name profile) env)),
                 oc_timeout_ms = pp_timeout_ms profile,
                 oc_reasoning_effort = or_else (pp_reasoning_effort profile) effort,
                 oc_reasoning_wire_field = unwrap_or (pp_reasoning_wire_field profile) field\<rparr>)))))"

text \<open>C30: The streaming call of every provider: the deltas are numbered from zero without gaps and none
  is empty; when the call answers, the callback accepted all of them and they make up the text of
  the answer, so that what a client saw is what is stored; a failure of the provider comes after
  accepted deltas only; and when the callback refuses a delta, this delta is the last and the
  call ends with the error of the callback.\<close>

theorem streaming_contract:
  "case provider_streaming io provider on_delta n request of ((r, ds), n') \<Rightarrow> numbered ds \<and>
     (case r of
        Inr response \<Rightarrow> accepted on_delta ds \<and> text_of ds = lr_output_text response
      | Inl (Provider_error e) \<Rightarrow> accepted on_delta ds
      | Inl (Callback_error e) \<Rightarrow> \<exists>ds' d. ds = ds' @ [d] \<and> accepted on_delta ds' \<and> on_delta ds' d = Err e)"
proof -
  obtain stream where s: "provider_streaming io provider = stream" "streamer stream"
    using placeholder.streaming.streamer_axioms scripted.streaming.streamer_axioms
      openclaw.streaming.streamer_axioms openai.streamer_axioms
    by (cases provider) (auto simp: provider_streaming_def)
  obtain r ds n' where run: "stream on_delta n request = ((r, ds), n')"
    by (metis surj_pair)
  then show ?thesis
    using streamer.deltas_numbered [OF s(2) run] streamer.answer_streamed [OF s(2), of on_delta n request]
      streamer.failure_accepted [OF s(2), of on_delta n request]
      streamer.refusal_last [OF s(2), of on_delta n request]
    by (auto simp: s(1) split: sum.split call_error.split)
qed

section \<open>Retries\<close>

lemma complete_responses_count: "snd (complete_responses_with_instruction io p extra n request) = n + 1"
  by (simp add: complete_responses_with_instruction_def)

lemma complete_chat_count: "snd (complete_chat_with_instruction io p extra n request) = n + 1"
  by (simp add: complete_chat_with_instruction_def)

text \<open>The retries: which response is taken, and how many calls it took.\<close>

definition chosen :: "LlmResponse \<Rightarrow> LlmResponse \<Rightarrow> bool" where
  "chosen first_response response \<longleftrightarrow> response = first_response \<or>
     looks_like_openclaw_retryable_bad_output (lr_output_text first_response) \<and>
     \<not> looks_like_openclaw_retryable_bad_output (lr_output_text response)"

lemma retry_loop_chosen:
  assumes "\<And>extra n. snd (call extra n request) = n + 1"
    and "looks_like_openclaw_retryable_bad_output (lr_output_text first_response)"
  shows "chosen first_response (fst (retry_loop call request first_response instructions n)) \<and>
     n \<le> snd (retry_loop call request first_response instructions n) \<and>
     snd (retry_loop call request first_response instructions n) \<le> n + length instructions"
proof (induction instructions arbitrary: n)
  case (Cons instruction instructions)
  show ?case
    using Cons.IH [of "Suc n"] assms(1) [of "Some instruction" n] assms(2)
    by (auto simp: chosen_def split: prod.splits sum.splits)
qed (simp add: chosen_def)

lemma retry_bad_output_chosen:
  assumes "\<And>extra n. snd (call extra n request) = n + 1"
  shows "chosen first_response (fst (retry_bad_output call request first_response n)) \<and>
     n \<le> snd (retry_bad_output call request first_response n) \<and>
     snd (retry_bad_output call request first_response n) \<le> n + 2"
  using retry_loop_chosen [of call request first_response OPENCLAW_CORRECTIVE_RETRY_INSTRUCTIONS n] assms
  by (auto simp: retry_bad_output_def chosen_def OPENCLAW_CORRECTIVE_RETRY_INSTRUCTIONS_def)

lemma openclaw_chat_outcome:
  "case openclaw_chat io p n request of (r, n') \<Rightarrow> n < n' \<and> n' \<le> n + 3 \<and>
     (case fst (complete_chat_with_instruction io p None n request) of
        Inl e \<Rightarrow> r = Err e
      | Inr x \<Rightarrow> \<exists>y. r = Ok y \<and> chosen x y)"
proof (cases "fst (complete_chat_with_instruction io p None n request)")
  case (Inl e)
  then show ?thesis
    using complete_chat_count [of io p None n request] by (auto simp: openclaw_chat_def split: prod.splits)
next
  case (Inr x)
  have "openclaw_chat io p n request = apfst Ok (retry_bad_output (complete_chat_with_instruction io p) request x (n + 1))"
    using Inr complete_chat_count [of io p None n request] by (auto simp: openclaw_chat_def split: prod.splits)
  moreover obtain y m where
    "retry_bad_output (complete_chat_with_instruction io p) request x (n + 1) = (y, m)"
    by fastforce
  ultimately show ?thesis
    using Inr retry_bad_output_chosen [of "complete_chat_with_instruction io p" request x "n + 1"]
    by (simp add: complete_chat_count)
qed

text \<open>The first call whose answer counts: the responses call where it is preferred and succeeds, else the chat call.\<close>

definition openclaw_first ::
    "gateway_io \<Rightarrow> OpenClawLlmProvider \<Rightarrow> nat \<Rightarrow> LlmRequest \<Rightarrow> (LlmResponse, call_error) result" where
  "openclaw_first io p n request =
     (if cc_prefer_responses (ow_config p)
      then (case fst (complete_responses_with_instruction io p None n request) of
          Inr response \<Rightarrow> Ok response
        | Inl _ \<Rightarrow> fst (complete_chat_with_instruction io p None (n + 1) request))
      else fst (complete_chat_with_instruction io p None n request))"

text \<open>C32: OpenClaw's corrective retries lose nothing: a completion makes between one and four requests, it fails
  only with the error of its chat call, and once a call has answered, it answers with that
  response, or with a good one of a retry when that response looked bad. A retry that
  fails or is bad again never replaces an answer.\<close>

theorem openclaw_retries:
  "case openclaw_complete io p n request of (r, n') \<Rightarrow> n < n' \<and> n' \<le> n + 4 \<and>
     (case openclaw_first io p n request of
        Inl e \<Rightarrow> r = Err e
      | Inr x \<Rightarrow> \<exists>y. r = Ok y \<and> chosen x y)"
proof (cases "cc_prefer_responses (ow_config p)")
  case False
  then show ?thesis
    using openclaw_chat_outcome [where io = io and p = p and n = n and request = request]
    by (auto simp: openclaw_complete_def openclaw_first_def split: prod.splits sum.splits)
next
  case True
  show ?thesis
  proof (cases "fst (complete_responses_with_instruction io p None n request)")
    case (Inl e)
    then have "openclaw_complete io p n request = openclaw_chat io p (n + 1) request"
      using True complete_responses_count [of io p None n request]
      by (auto simp: openclaw_complete_def split: prod.splits)
    with Inl True openclaw_chat_outcome [where io = io and p = p and n = "n + 1" and request = request] show ?thesis
      by (auto simp: openclaw_first_def split: prod.splits sum.splits)
  next
    case (Inr x)
    obtain y m where y: "retry_bad_output (complete_responses_with_instruction io p) request x (n + 1) = (y, m)"
      by fastforce
    then have "openclaw_complete io p n request = (Ok y, m)"
      using Inr True complete_responses_count [of io p None n request]
      by (auto simp: openclaw_complete_def split: prod.splits)
    with Inr True y retry_bad_output_chosen [of "complete_responses_with_instruction io p" request x "n + 1"]
    show ?thesis
      by (simp add: openclaw_first_def complete_responses_count)
  qed
qed

end
