(* ===== verification/Enrichment_Runs.thy ===== *)
theory Enrichment_Runs
  imports Workflow_Store
begin

text \<open>
  The queue of document enrichment runs: \<open>PgDocumentEnrichmentRunRepository\<close> of
  \<open>src/crates/storage/src/lib.rs\<close>, the workers of
  \<open>src/crates/retrieval-worker/src/bin/document-enrichment-worker.rs\<close> and what \<open>retrieval-worker/src/main.rs\<close>
  asks for. The table refers to documents and tenants, which can be deleted and take their runs with
  them. The work of a run, which reads the document and builds a summary, is code over the index of
  a document and a parameter: it gives a summary or the text of an error.

  Several workers, requests for runs and deletions of documents act at the same time: they are a
  step relation, where a step is one statement of a repository with the local code around it.
\<close>

section \<open>The table\<close>

record NewDocumentEnrichmentRun =
  ne_document_id :: uuid
  ne_enrichment_kind :: string
  ne_parse_version :: "string option"
  ne_input_fingerprint :: string
  ne_priority :: int
  ne_max_attempts :: int
  ne_available_at :: datetime

record DocumentEnrichmentRun =
  en_id :: uuid
  en_tenant_id :: TenantId
  en_document_id :: uuid
  en_enrichment_kind :: string
  en_parse_version :: "string option"
  en_input_fingerprint :: string
  en_status :: string
  en_priority :: int
  en_attempt_count :: int
  en_max_attempts :: int
  en_available_at :: datetime
  en_started_at :: "datetime option"
  en_finished_at :: "datetime option"
  en_error_message :: "string option"
  en_output_summary :: json
  en_created_at :: datetime
  en_updated_at :: datetime

record enrichment_db =
  er_tenants :: "TenantId list"
  er_documents :: "(TenantId \<times> uuid) list"
  er_runs :: "DocumentEnrichmentRun list"
  er_draws :: nat

section \<open>The repository\<close>

text \<open>The unique index \<open>document_enrichment_runs_idempotency_idx\<close>.\<close>

definition same_enrichment_key ::
    "TenantId \<Rightarrow> NewDocumentEnrichmentRun \<Rightarrow> DocumentEnrichmentRun \<Rightarrow> bool" where
  "same_enrichment_key tenant_id new_run r \<longleftrightarrow> en_tenant_id r = tenant_id \<and>
     en_document_id r = ne_document_id new_run \<and> en_enrichment_kind r = ne_enrichment_kind new_run \<and>
     en_input_fingerprint r = ne_input_fingerprint new_run"

definition merge_enrichment_run ::
    "NewDocumentEnrichmentRun \<Rightarrow> datetime \<Rightarrow> DocumentEnrichmentRun \<Rightarrow> DocumentEnrichmentRun" where
  "merge_enrichment_run new_run created_at r = r\<lparr>
     en_priority := min (en_priority r) (ne_priority new_run),
     en_max_attempts := max (en_max_attempts r) (ne_max_attempts new_run),
     en_available_at := min (en_available_at r) (ne_available_at new_run),
     en_parse_version := or_else (ne_parse_version new_run) (en_parse_version r),
     en_updated_at := created_at\<rparr>"

definition new_enrichment_run ::
    "uuid \<Rightarrow> TenantId \<Rightarrow> NewDocumentEnrichmentRun \<Rightarrow> datetime \<Rightarrow> DocumentEnrichmentRun" where
  "new_enrichment_run i tenant_id new_run created_at =
     \<lparr>en_id = i, en_tenant_id = tenant_id, en_document_id = ne_document_id new_run,
      en_enrichment_kind = ne_enrichment_kind new_run, en_parse_version = ne_parse_version new_run,
      en_input_fingerprint = ne_input_fingerprint new_run, en_status = ''pending'',
      en_priority = ne_priority new_run, en_attempt_count = 0, en_max_attempts = ne_max_attempts new_run,
      en_available_at = ne_available_at new_run, en_started_at = None, en_finished_at = None,
      en_error_message = None, en_output_summary = JObject [], en_created_at = created_at,
      en_updated_at = created_at\<rparr>"

definition enrichment_create_or_get ::
    "uuid_source \<Rightarrow> enrichment_db \<Rightarrow> TenantId \<Rightarrow> NewDocumentEnrichmentRun \<Rightarrow> datetime \<Rightarrow>
     DocumentEnrichmentRun store_result \<times> enrichment_db" where
  "enrichment_create_or_get gen_random_uuid db tenant_id new_run created_at = (
     let i = gen_random_uuid (er_draws db);
         db' = db\<lparr>er_draws := Suc (er_draws db)\<rparr>;
         rows = er_runs db;
         p = same_enrichment_key tenant_id new_run;
         f = merge_enrichment_run new_run created_at in
     if list_ex p rows then
       (ok_or RowNotFound (fetch_optional (returning p f rows)), db'\<lparr>er_runs := update_where p f rows\<rparr>)
     else if i \<in> set (map en_id rows) then (Err UniqueViolation, db')
     else if tenant_id \<notin> set (er_tenants db) \<or> ne_document_id new_run \<notin> snd ` set (er_documents db)
     then (Err ForeignKeyViolation, db')
     else let row = new_enrichment_run i tenant_id new_run created_at in
       (Ok row, db'\<lparr>er_runs := rows @ [row]\<rparr>))"

definition claimable_enrichment_run ::
    "uuid list \<Rightarrow> TenantId \<Rightarrow> string option \<Rightarrow> datetime \<Rightarrow> DocumentEnrichmentRun \<Rightarrow> bool" where
  "claimable_enrichment_run locked tenant_id enrichment_kind claimed_at r \<longleftrightarrow>
     en_tenant_id r = tenant_id \<and> en_status r = ''pending'' \<and> en_available_at r \<le> claimed_at \<and>
     en_attempt_count r < en_max_attempts r \<and>
     (case enrichment_kind of None \<Rightarrow> True | Some kind \<Rightarrow> en_enrichment_kind r = kind) \<and>
     en_id r \<notin> set locked"

definition enrichment_claim_next_available ::
    "enrichment_db \<Rightarrow> uuid list \<Rightarrow> TenantId \<Rightarrow> string option \<Rightarrow> datetime \<Rightarrow>
     DocumentEnrichmentRun option store_result \<times> enrichment_db" where
  "enrichment_claim_next_available db locked tenant_id enrichment_kind claimed_at = (
     case first_by (\<lambda>r. (en_priority r, en_available_at r, en_created_at r, en_id r))
            (filter (claimable_enrichment_run locked tenant_id enrichment_kind claimed_at) (er_runs db)) of
       None \<Rightarrow> (Ok None, db)
     | Some row \<Rightarrow>
         (case int4 (en_attempt_count row + 1) of
            Inl e \<Rightarrow> (Err e, db)
          | Inr attempt \<Rightarrow>
              let p = (\<lambda>r. en_id r = en_id row);
                  f = (\<lambda>r. r\<lparr>en_status := ''running'', en_attempt_count := attempt,
                         en_started_at := Some claimed_at, en_error_message := None,
                         en_updated_at := claimed_at\<rparr>) in
              (Ok (fetch_optional (returning p f (er_runs db))),
               db\<lparr>er_runs := update_where p f (er_runs db)\<rparr>)))"

text \<open>The updates of one run that return it; \<open>fetch_one\<close> fails when there is none.\<close>

definition update_enrichment_run ::
    "enrichment_db \<Rightarrow> TenantId \<Rightarrow> uuid \<Rightarrow> (DocumentEnrichmentRun \<Rightarrow> DocumentEnrichmentRun) \<Rightarrow>
     DocumentEnrichmentRun store_result \<times> enrichment_db" where
  "update_enrichment_run db tenant_id run_id f = (
     let p = (\<lambda>r. en_tenant_id r = tenant_id \<and> en_id r = run_id) in
     (ok_or RowNotFound (fetch_optional (returning p f (er_runs db))),
      db\<lparr>er_runs := update_where p f (er_runs db)\<rparr>))"

definition enrichment_mark_succeeded ::
    "enrichment_db \<Rightarrow> TenantId \<Rightarrow> uuid \<Rightarrow> json \<Rightarrow> datetime \<Rightarrow> DocumentEnrichmentRun store_result \<times> enrichment_db" where
  "enrichment_mark_succeeded db tenant_id run_id output_summary finished_at =
     update_enrichment_run db tenant_id run_id (\<lambda>r. r\<lparr>en_status := ''succeeded'',
       en_finished_at := Some finished_at, en_error_message := None, en_output_summary := output_summary,
       en_updated_at := finished_at\<rparr>)"

definition enrichment_requeue_after_error ::
    "enrichment_db \<Rightarrow> TenantId \<Rightarrow> uuid \<Rightarrow> string \<Rightarrow> datetime \<Rightarrow> datetime \<Rightarrow>
     DocumentEnrichmentRun store_result \<times> enrichment_db" where
  "enrichment_requeue_after_error db tenant_id run_id error_message available_at updated_at =
     update_enrichment_run db tenant_id run_id (\<lambda>r.
       let exhausted = en_attempt_count r \<ge> en_max_attempts r in
       r\<lparr>en_status := (if exhausted then ''failed'' else ''pending''), en_available_at := available_at,
         en_finished_at := (if exhausted then Some updated_at else None),
         en_error_message := Some error_message, en_updated_at := updated_at\<rparr>)"

definition enrichment_mark_failed ::
    "enrichment_db \<Rightarrow> TenantId \<Rightarrow> uuid \<Rightarrow> string \<Rightarrow> datetime \<Rightarrow> DocumentEnrichmentRun store_result \<times> enrichment_db" where
  "enrichment_mark_failed db tenant_id run_id error_message finished_at =
     update_enrichment_run db tenant_id run_id (\<lambda>r. r\<lparr>en_status := ''failed'',
       en_finished_at := Some finished_at, en_error_message := Some error_message,
       en_updated_at := finished_at\<rparr>)"

definition enrichment_list_by_document ::
    "enrichment_db \<Rightarrow> TenantId \<Rightarrow> uuid \<Rightarrow> int \<Rightarrow> DocumentEnrichmentRun list" where
  "enrichment_list_by_document db tenant_id document_id limit =
     take (nat (max limit 1)) (sort_key (\<lambda>r. (- en_created_at r, en_id r))
       (filter (\<lambda>r. en_tenant_id r = tenant_id \<and> en_document_id r = document_id) (er_runs db)))"

text \<open>Deleting a document deletes its runs (\<open>on delete cascade\<close>).\<close>

definition delete_document :: "enrichment_db \<Rightarrow> uuid \<Rightarrow> enrichment_db" where
  "delete_document db document_id = db\<lparr>
     er_documents := filter (\<lambda>d. snd d \<noteq> document_id) (er_documents db),
     er_runs := filter (\<lambda>r. en_document_id r \<noteq> document_id) (er_runs db)\<rparr>"

definition document_enrichment_run_list_limit :: "int option \<Rightarrow> int" where
  "document_enrichment_run_list_limit requested_limit = max 1 (min 200 (unwrap_or 50 requested_limit))"

section \<open>The workers\<close>

record WorkerConfig =
  wc_enrichment_kind :: "string option"
  wc_error_backoff :: int
  wc_once :: bool
  wc_max_runs :: "nat option"

text \<open>The kinds the worker knows, with their older names.\<close>

definition WORKER_KINDS :: "string list" where
  "WORKER_KINDS = [''structure_outline_v1'', ''section_outline_v1'', ''section_outline'', ''qa_seed_v1'',
     ''entity_relation_v1'', ''entity_terms_v1'', ''entity_terms'', ''table_structure_v1'', ''table_structure'',
     ''procedure_steps_v1'', ''procedure_steps'', ''resume_profile_v1'', ''resume_profile'',
     ''spreadsheet_metrics_v1'', ''spreadsheet_metrics'', ''fact_index_v2'', ''semantic_profile_v1'']"

text \<open>The summary of a run before it is stored; \<open>work\<close> builds it for a kind the worker knows.\<close>

definition build_enrichment_summary ::
    "(DocumentEnrichmentRun \<Rightarrow> (json, string) result) \<Rightarrow> enrichment_db \<Rightarrow> TenantId \<Rightarrow> DocumentEnrichmentRun \<Rightarrow>
     (json, string) result" where
  "build_enrichment_summary work db tenant_id run =
     (if (tenant_id, en_document_id run) \<notin> set (er_documents db)
      then Err (''document '' @ uuid_text (en_document_id run) @ '' not found'')
      else if en_enrichment_kind run \<notin> set WORKER_KINDS
      then Err (''unsupported document enrichment kind '' @ en_enrichment_kind run)
      else work run)"

definition worker_stops :: "WorkerConfig \<Rightarrow> nat \<Rightarrow> bool" where
  "worker_stops config processed_count \<longleftrightarrow> wc_once config \<or>
     (case wc_max_runs config of Some limit \<Rightarrow> processed_count \<ge> limit | None \<Rightarrow> False)"

text \<open>
  The points of \<open>run_worker_loop\<close> between two statements: before a claim; with a claimed run, before
  its summary is built; with the summary, before it is stored; with the text of an error, before
  the run is requeued; and out of the loop, with an error of the database or without.
\<close>

datatype worker_phase =
    Polling nat
  | Working nat DocumentEnrichmentRun
  | Storing nat DocumentEnrichmentRun json
  | Failing nat DocumentEnrichmentRun string
  | Left "store_error option"

definition worker_next :: "WorkerConfig \<Rightarrow> nat \<Rightarrow> worker_phase" where
  "worker_next config processed_count =
     (if worker_stops config processed_count then Left None else Polling processed_count)"

record enrichment_state =
  es_db :: enrichment_db
  es_worker :: "nat \<Rightarrow> worker_phase"

text \<open>
  \<open>tenant_id\<close> is the tenant of all workers and \<open>config\<close> their configurations. Requests come with any
  values that fit their types, and readings of clocks are arbitrary. A worker that crashes is gone, at whatever point it is.
\<close>

inductive enrichment_step ::
    "uuid_source \<Rightarrow> TenantId \<Rightarrow> (nat \<Rightarrow> WorkerConfig) \<Rightarrow> enrichment_state \<Rightarrow> enrichment_state \<Rightarrow> bool"
  for gen_random_uuid tenant_id config where
  requested: "enrichment_step gen_random_uuid tenant_id config s
     (s\<lparr>es_db := snd (enrichment_create_or_get gen_random_uuid (es_db s) t new_run now)\<rparr>)"
    if "- (2 ^ 31) \<le> ne_max_attempts new_run" and "ne_max_attempts new_run < 2 ^ 31"
| document_added: "enrichment_step gen_random_uuid tenant_id config s
     (s\<lparr>es_db := (es_db s)\<lparr>er_documents := er_documents (es_db s) @ [d]\<rparr>\<rparr>)"
| document_deleted: "enrichment_step gen_random_uuid tenant_id config s
     (s\<lparr>es_db := delete_document (es_db s) d\<rparr>)"
| polled: "enrichment_step gen_random_uuid tenant_id config s
     \<lparr>es_db = db', es_worker = (es_worker s)(w := (case result of
        Inl e \<Rightarrow> Left (Some e)
      | Inr None \<Rightarrow> worker_next (config w) n
      | Inr (Some run) \<Rightarrow> Working (n + 1) run))\<rparr>"
    if "es_worker s w = Polling n"
    and "enrichment_claim_next_available (es_db s) locked tenant_id (wc_enrichment_kind (config w)) now = (result, db')"
| worked: "enrichment_step gen_random_uuid tenant_id config s
     (s\<lparr>es_worker := (es_worker s)(w := (case build_enrichment_summary work (es_db s) tenant_id run of
        Inl e \<Rightarrow> Failing n run e
      | Inr summary \<Rightarrow> Storing n run summary))\<rparr>)"
    if "es_worker s w = Working n run"
| stored: "enrichment_step gen_random_uuid tenant_id config s
     \<lparr>es_db = db', es_worker = (es_worker s)(w := (case result of
        Inl e \<Rightarrow> Failing n run (error_text e)
      | Inr _ \<Rightarrow> worker_next (config w) n))\<rparr>"
    if "es_worker s w = Storing n run summary"
    and "enrichment_mark_succeeded (es_db s) tenant_id (en_id run) summary now = (result, db')"
| requeued: "enrichment_step gen_random_uuid tenant_id config s
     \<lparr>es_db = db', es_worker = (es_worker s)(w := (case result of
        Inl e \<Rightarrow> Left (Some e)
      | Inr _ \<Rightarrow> worker_next (config w) n))\<rparr>"
    if "es_worker s w = Failing n run error_message"
    and "enrichment_requeue_after_error (es_db s) tenant_id (en_id run) error_message
           (now + wc_error_backoff (config w)) now' = (result, db')"
| crashed: "enrichment_step gen_random_uuid tenant_id config s
     (s\<lparr>es_worker := (es_worker s)(w := Left None)\<rparr>)"

inductive enrichment_reachable ::
    "uuid_source \<Rightarrow> TenantId \<Rightarrow> (nat \<Rightarrow> WorkerConfig) \<Rightarrow> enrichment_state \<Rightarrow> bool"
  for gen_random_uuid tenant_id config where
  start: "enrichment_reachable gen_random_uuid tenant_id config
     \<lparr>es_db = \<lparr>er_tenants = ts, er_documents = [], er_runs = [], er_draws = 0\<rparr>, es_worker = \<lambda>w. Polling 0\<rparr>"
| step: "enrichment_reachable gen_random_uuid tenant_id config s \<Longrightarrow>
     enrichment_step gen_random_uuid tenant_id config s s' \<Longrightarrow>
     enrichment_reachable gen_random_uuid tenant_id config s'"


section \<open>The rows after a statement\<close>

text \<open>A row that no worker touched: it may have been merged with a request.\<close>

definition kept :: "DocumentEnrichmentRun \<Rightarrow> DocumentEnrichmentRun \<Rightarrow> bool" where
  "kept x x' \<longleftrightarrow> en_id x' = en_id x \<and> en_tenant_id x' = en_tenant_id x \<and> en_status x' = en_status x \<and>
     en_attempt_count x' = en_attempt_count x \<and> en_max_attempts x \<le> en_max_attempts x' \<and>
     (en_max_attempts x < 2 ^ 31 \<longrightarrow> en_max_attempts x' < 2 ^ 31)"

lemma kept_refl [simp]: "kept x x"
  by (simp add: kept_def)

lemma create_or_get_rows:
  assumes "ne_max_attempts new_run < 2 ^ 31"
    and "enrichment_create_or_get gen db t new_run now = (r, db')"
  shows "er_draws db' = Suc (er_draws db)"
    and "map en_id (er_runs db') = map en_id (er_runs db) \<or>
      gen (er_draws db) \<notin> set (map en_id (er_runs db)) \<and>
      map en_id (er_runs db') = map en_id (er_runs db) @ [gen (er_draws db)]"
    and "x' \<in> set (er_runs db') \<Longrightarrow> (\<exists>x \<in> set (er_runs db). kept x x') \<or>
      en_id x' = gen (er_draws db) \<and> en_status x' = ''pending'' \<and> en_attempt_count x' = 0 \<and>
      en_max_attempts x' < 2 ^ 31"
proof -
  show "er_draws db' = Suc (er_draws db)"
    using assms(2) by (auto simp: enrichment_create_or_get_def Let_def split: if_splits)
  show "map en_id (er_runs db') = map en_id (er_runs db) \<or>
      gen (er_draws db) \<notin> set (map en_id (er_runs db)) \<and>
      map en_id (er_runs db') = map en_id (er_runs db) @ [gen (er_draws db)]"
    using assms(2)
    by (auto simp: enrichment_create_or_get_def Let_def map_update_where merge_enrichment_run_def
        new_enrichment_run_def split: if_splits)
  have merged: "kept x (merge_enrichment_run new_run now x)" for x
    using assms(1) by (simp add: kept_def merge_enrichment_run_def)
  assume x': "x' \<in> set (er_runs db')"
  show "(\<exists>x \<in> set (er_runs db). kept x x') \<or>
      en_id x' = gen (er_draws db) \<and> en_status x' = ''pending'' \<and> en_attempt_count x' = 0 \<and>
      en_max_attempts x' < 2 ^ 31"
  proof (cases "list_ex (same_enrichment_key t new_run) (er_runs db)")
    case True
    with assms(2) x' have "x' \<in> set (update_where (same_enrichment_key t new_run)
        (merge_enrichment_run new_run now) (er_runs db))"
      by (auto simp: enrichment_create_or_get_def Let_def split: if_splits)
    then show ?thesis
      using merged by (metis in_update_whereE kept_refl)
  next
    case False
    with assms(2) x' have "x' \<in> set (er_runs db) \<or> x' = new_enrichment_run (gen (er_draws db)) t new_run now"
      by (auto simp: enrichment_create_or_get_def Let_def split: if_splits)
    then show ?thesis
    proof
      assume "x' \<in> set (er_runs db)"
      then show ?thesis
        using kept_refl by blast
    qed (use assms(1) in \<open>simp add: new_enrichment_run_def\<close>)
  qed
qed

definition run_claimed :: "datetime \<Rightarrow> DocumentEnrichmentRun \<Rightarrow> DocumentEnrichmentRun" where
  "run_claimed claimed_at r = r\<lparr>en_status := ''running'', en_attempt_count := en_attempt_count r + 1,
     en_started_at := Some claimed_at, en_error_message := None, en_updated_at := claimed_at\<rparr>"

lemma first_claimable:
  assumes "first_by key (filter p rows) = Some row" and "distinct (map en_id rows)"
  shows "fetch_optional (returning (\<lambda>r. en_id r = en_id row) f rows) = Some (f row)"
proof -
  have row: "row \<in> set rows"
    using assms(1) by (auto dest: first_by_filterD)
  then have "filter (\<lambda>r. en_id r = en_id row) rows = filter (\<lambda>r. r = row) rows"
    using distinct_key_eq [OF assms(2)] by (intro filter_cong) auto
  moreover have "filter (\<lambda>r. r = row) rows = [row]"
    using assms(2) row by (intro filter_eq_one) (auto simp: distinct_map)
  ultimately show ?thesis
    by (simp add: returning_def)
qed

text \<open>A claim hands out the first claimable run, or changes nothing.\<close>

lemma claim_next_available_cases:
  assumes "enrichment_claim_next_available db locked t kind now = (r, db')"
    and "distinct (map en_id (er_runs db))" and "\<forall>x \<in> set (er_runs db). en_max_attempts x < 2 ^ 31 \<and> 0 \<le> en_attempt_count x"
  obtains
    (nothing) "r = Ok None" "db' = db" "filter (claimable_enrichment_run locked t kind now) (er_runs db) = []"
  | (claimed) row where "row \<in> set (er_runs db)" "claimable_enrichment_run locked t kind now row"
      "r = Ok (Some (run_claimed now row))"
      "db' = db\<lparr>er_runs := update_where (\<lambda>r. en_id r = en_id row) (run_claimed now) (er_runs db)\<rparr>"
      "\<forall>s \<in> set (er_runs db). claimable_enrichment_run locked t kind now s \<longrightarrow>
        (en_priority row, en_available_at row, en_created_at row, en_id row) \<le>
        (en_priority s, en_available_at s, en_created_at s, en_id s)"
proof (cases "first_by (\<lambda>r. (en_priority r, en_available_at r, en_created_at r, en_id r))
    (filter (claimable_enrichment_run locked t kind now) (er_runs db))")
  case None
  with assms(1) that(1) show ?thesis
    by (simp add: enrichment_claim_next_available_def)
next
  case (Some row)
  note row = first_by_filterD [OF Some]
  then have int: "int4 (en_attempt_count row + 1) = Ok (en_attempt_count row + 1)"
    using assms(3) by (auto simp: int4_eq_Ok claimable_enrichment_run_def)
  define f :: "DocumentEnrichmentRun \<Rightarrow> DocumentEnrichmentRun" where "f = (\<lambda>r. r\<lparr>en_status := ''running'', en_attempt_count := en_attempt_count row + 1,
     en_started_at := Some now, en_error_message := None, en_updated_at := now\<rparr>)"
  have f: "x \<in> set (er_runs db) \<Longrightarrow> en_id x = en_id row \<Longrightarrow> f x = run_claimed now x" for x
    using row distinct_key_eq [OF assms(2), of x row] by (simp add: f_def run_claimed_def)
  then have "update_where (\<lambda>r. en_id r = en_id row) f (er_runs db) =
      update_where (\<lambda>r. en_id r = en_id row) (run_claimed now) (er_runs db)"
    by (simp add: update_where_def)
  moreover have "enrichment_claim_next_available db locked t kind now =
      (Ok (fetch_optional (returning (\<lambda>r. en_id r = en_id row) f (er_runs db))),
       db\<lparr>er_runs := update_where (\<lambda>r. en_id r = en_id row) f (er_runs db)\<rparr>)"
    by (simp add: enrichment_claim_next_available_def Some int f_def Let_def)
  moreover have "f row = run_claimed now row"
    using row f by blast
  ultimately show ?thesis
    using that(2) [of row] row assms(1) first_claimable [OF Some assms(2), of f] by force
qed

text \<open>An update that finds no row changes nothing.\<close>

lemma update_enrichment_run_rows:
  assumes "update_enrichment_run db t i f = (r, db')"
  shows "db' = db\<lparr>er_runs := update_where (\<lambda>r. en_tenant_id r = t \<and> en_id r = i) f (er_runs db)\<rparr>"
    and "r = Inl e \<Longrightarrow> db' = db"
  using assms
  by (auto simp: update_enrichment_run_def Let_def ok_or_def update_where_none split: option.splits)


section \<open>The invariant of the workers\<close>

fun busy :: "worker_phase \<Rightarrow> DocumentEnrichmentRun option" where
  "busy (Polling n) = None"
| "busy (Working n run) = Some run"
| "busy (Storing n run summary) = Some run"
| "busy (Failing n run e) = Some run"
| "busy (Left e) = None"

lemma busy_worker_next [simp]: "busy (worker_next config n) = None"
  by (simp add: worker_next_def)

definition used_ids :: "uuid_source \<Rightarrow> enrichment_db \<Rightarrow> uuid set" where
  "used_ids gen db = gen ` {..<er_draws db}"

definition attempts_ok :: "DocumentEnrichmentRun \<Rightarrow> bool" where
  "attempts_ok r \<longleftrightarrow> 0 \<le> en_attempt_count r \<and> (en_attempt_count r = 0 \<or> en_attempt_count r \<le> en_max_attempts r) \<and>
     (en_status r = ''running'' \<longrightarrow> 0 < en_attempt_count r) \<and> en_max_attempts r < 2 ^ 31"

definition rows_ok :: "uuid_source \<Rightarrow> enrichment_db \<Rightarrow> bool" where
  "rows_ok gen db \<longleftrightarrow> distinct (map en_id (er_runs db)) \<and> en_id ` set (er_runs db) \<subseteq> used_ids gen db \<and>
     (\<forall>r \<in> set (er_runs db). attempts_ok r)"

text \<open>A worker's run is running in the table, unless it is gone.\<close>

definition held :: "uuid_source \<Rightarrow> TenantId \<Rightarrow> enrichment_db \<Rightarrow> DocumentEnrichmentRun \<Rightarrow> bool" where
  "held gen t db run \<longleftrightarrow> en_id run \<in> used_ids gen db \<and>
     (\<forall>r \<in> set (er_runs db). en_id r = en_id run \<longrightarrow> en_status r = ''running'' \<and> en_tenant_id r = t)"

definition enrichment_inv :: "uuid_source \<Rightarrow> TenantId \<Rightarrow> enrichment_state \<Rightarrow> bool" where
  "enrichment_inv gen t s \<longleftrightarrow> rows_ok gen (es_db s) \<and>
     (\<forall>w run. busy (es_worker s w) = Some run \<longrightarrow> held gen t (es_db s) run) \<and>
     (\<forall>w w' run run'. busy (es_worker s w) = Some run \<and> busy (es_worker s w') = Some run' \<and>
        en_id run = en_id run' \<longrightarrow> w = w')"

text \<open>
  What a step may do to the rows: nothing to a run that a worker holds, but merging a request
  into it; \<open>mine\<close> is the run of the worker that takes the step.
\<close>

definition others_kept :: "uuid_source \<Rightarrow> uuid set \<Rightarrow> enrichment_db \<Rightarrow> enrichment_db \<Rightarrow> bool" where
  "others_kept gen mine db db' \<longleftrightarrow> used_ids gen db \<subseteq> used_ids gen db' \<and>
     (\<forall>x' \<in> set (er_runs db'). en_id x' \<in> used_ids gen db \<longrightarrow> en_id x' \<notin> mine \<longrightarrow>
        (\<exists>x \<in> set (er_runs db). kept x x'))"

lemma others_kept_held:
  assumes "others_kept gen mine db db'" and "held gen t db run" and "en_id run \<notin> mine"
  shows "held gen t db' run"
  unfolding held_def
proof (intro conjI ballI impI)
  show "en_id run \<in> used_ids gen db'"
    using assms by (auto simp: others_kept_def held_def)
  fix r
  assume r: "r \<in> set (er_runs db')" "en_id r = en_id run"
  then obtain x where "x \<in> set (er_runs db)" "kept x r"
    using assms by (auto simp: others_kept_def held_def)
  with r assms(2) show "en_status r = ''running''" and "en_tenant_id r = t"
    by (auto simp: held_def kept_def)
qed

lemma others_kept_same [simp]: "others_kept gen mine db db"
  by (auto simp: others_kept_def intro: kept_refl)

lemma attempts_kept: "attempts_ok x \<Longrightarrow> kept x x' \<Longrightarrow> attempts_ok x'"
  by (auto simp: attempts_ok_def kept_def)

lemma used_ids_Suc: "er_draws db' = Suc (er_draws db) \<Longrightarrow> used_ids gen db' = insert (gen (er_draws db)) (used_ids gen db)"
  by (auto simp: used_ids_def lessThan_Suc)

lemma fresh_id: "inj gen \<Longrightarrow> gen (er_draws db) \<notin> used_ids gen db"
  by (auto simp: used_ids_def inj_def)

lemma create_or_get_ok:
  assumes "inj gen" and "rows_ok gen db" and "ne_max_attempts new_run < 2 ^ 31"
    and "enrichment_create_or_get gen db t new_run now = (r, db')"
  shows "rows_ok gen db' \<and> others_kept gen {} db db'"
proof -
  note rows = create_or_get_rows [OF assms(3,4)]
  note used = used_ids_Suc [OF rows(1), of gen]
  have "distinct (map en_id (er_runs db'))" and "en_id ` set (er_runs db') \<subseteq> used_ids gen db'"
    using rows(2) assms(2) used by (auto simp: rows_ok_def simp flip: set_map)
  moreover have "attempts_ok x'" if "x' \<in> set (er_runs db')" for x'
    using rows(3) [OF that]
  proof (elim disjE bexE)
    fix x
    assume "x \<in> set (er_runs db)" and "kept x x'"
    with assms(2) show ?thesis
      using attempts_kept [of x x'] by (simp add: rows_ok_def)
  qed (simp add: attempts_ok_def)
  moreover have "others_kept gen {} db db'"
    unfolding others_kept_def
  proof (intro conjI ballI impI)
    show "used_ids gen db \<subseteq> used_ids gen db'"
      using used by blast
    fix x'
    assume "x' \<in> set (er_runs db')" and "en_id x' \<in> used_ids gen db"
    then show "\<exists>x \<in> set (er_runs db). kept x x'"
      using rows(3) [of x'] fresh_id [OF assms(1), of db] by auto
  qed
  ultimately show ?thesis
    by (simp add: rows_ok_def)
qed

lemma delete_document_ok:
  "rows_ok gen db \<Longrightarrow> rows_ok gen (delete_document db d) \<and> others_kept gen {} db (delete_document db d)"
  by (auto simp: rows_ok_def delete_document_def others_kept_def used_ids_def distinct_map_filter intro: kept_refl)

text \<open>An update of one run that keeps its id and its counters in order.\<close>

lemma update_where_ok:
  assumes "rows_ok gen db" and "\<And>x. en_id (f x) = en_id x" and "\<And>x. p x \<Longrightarrow> en_id x = i"
    and "\<And>x. x \<in> set (er_runs db) \<Longrightarrow> p x \<Longrightarrow> attempts_ok (f x)"
  shows "rows_ok gen (db\<lparr>er_runs := update_where p f (er_runs db)\<rparr>) \<and>
     others_kept gen {i} db (db\<lparr>er_runs := update_where p f (er_runs db)\<rparr>)"
proof -
  have used: "used_ids gen (db\<lparr>er_runs := update_where p f (er_runs db)\<rparr>) = used_ids gen db"
    by (simp add: used_ids_def)
  have "map en_id (update_where p f (er_runs db)) = map en_id (er_runs db)"
    using assms(2) by (rule map_update_where)
  then have "distinct (map en_id (update_where p f (er_runs db)))"
    and "en_id ` set (update_where p f (er_runs db)) = en_id ` set (er_runs db)"
    using assms(1) by (simp_all add: rows_ok_def flip: set_map)
  then show ?thesis
    using assms used by (auto simp: rows_ok_def others_kept_def set_update_where intro: kept_refl)
qed

lemma mark_succeeded_ok:
  assumes "rows_ok gen db" and "enrichment_mark_succeeded db t i summary now = (r, db')"
  shows "rows_ok gen db' \<and> others_kept gen {i} db db'"
  using assms(1) unfolding update_enrichment_run_rows(1) [OF assms(2) [unfolded enrichment_mark_succeeded_def]]
  by (intro update_where_ok) (auto simp: rows_ok_def attempts_ok_def)

lemma requeue_after_error_ok:
  assumes "rows_ok gen db" and "enrichment_requeue_after_error db t i e available now = (r, db')"
  shows "rows_ok gen db' \<and> others_kept gen {i} db db'"
  using assms(1) unfolding update_enrichment_run_rows(1) [OF assms(2) [unfolded enrichment_requeue_after_error_def]]
  by (intro update_where_ok) (auto simp: rows_ok_def attempts_ok_def Let_def)

lemma claim_ok:
  assumes "rows_ok gen db" and "row \<in> set (er_runs db)" and "claimable_enrichment_run locked t kind now row"
  defines "db' \<equiv> db\<lparr>er_runs := update_where (\<lambda>r. en_id r = en_id row) (run_claimed now) (er_runs db)\<rparr>"
  shows "rows_ok gen db' \<and> others_kept gen {en_id row} db db' \<and> held gen t db' (run_claimed now row)"
proof -
  have same: "x = row" if "x \<in> set (er_runs db)" "en_id x = en_id row" for x
    using assms(1,2) that distinct_key_eq by (fastforce simp: rows_ok_def)
  have ok: "attempts_ok (run_claimed now row)"
    using assms(1-3) by (auto simp: run_claimed_def attempts_ok_def rows_ok_def claimable_enrichment_run_def)
  have "rows_ok gen db' \<and> others_kept gen {en_id row} db db'"
    unfolding db'_def
  proof (rule update_where_ok [OF assms(1)])
    show "attempts_ok (run_claimed now x)" if "x \<in> set (er_runs db)" "en_id x = en_id row" for x
      using ok same [OF that] by simp
  qed (simp_all add: run_claimed_def)
  moreover have "held gen t db' (run_claimed now row)"
    unfolding held_def db'_def
  proof (intro conjI ballI impI)
    show "en_id (run_claimed now row) \<in> used_ids gen
        (db\<lparr>er_runs := update_where (\<lambda>r. en_id r = en_id row) (run_claimed now) (er_runs db)\<rparr>)"
      using assms(1,2) by (auto simp: rows_ok_def used_ids_def run_claimed_def)
    fix r
    assume "r \<in> set (er_runs (db\<lparr>er_runs := update_where (\<lambda>r. en_id r = en_id row) (run_claimed now) (er_runs db)\<rparr>))"
      and id: "en_id r = en_id (run_claimed now row)"
    then obtain x where "x \<in> set (er_runs db)" "r = (if en_id x = en_id row then run_claimed now x else x)"
      by (auto elim: in_update_whereE)
    with id same [of x] have "r = run_claimed now row"
      by (auto simp: run_claimed_def split: if_splits)
    with assms(3) show "en_status r = ''running''" and "en_tenant_id r = t"
      by (simp_all add: run_claimed_def claimable_enrichment_run_def)
  qed
  ultimately show ?thesis
    by simp
qed

section \<open>The queue of the worker\<close>

text \<open>The claims of the workers are a work queue: each takes a waiting run, which then waits no more.\<close>

definition enrichment_claim ::
    "enrichment_db \<Rightarrow> uuid list \<times> TenantId \<times> string option \<times> datetime \<Rightarrow> uuid option \<times> enrichment_db" where
  "enrichment_claim db req = (case req of (locked, tenant_id, kind, now) \<Rightarrow>
     case enrichment_claim_next_available db locked tenant_id kind now of (r, db') \<Rightarrow>
       (case r of Inr (Some run) \<Rightarrow> Some (en_id run) | _ \<Rightarrow> None, db'))"

definition waiting_enrichments :: "enrichment_db \<Rightarrow> uuid set" where
  "waiting_enrichments db = en_id ` {r \<in> set (er_runs db). en_status r = ''pending''}"

interpretation enrichment_queue: work_queue enrichment_claim waiting_enrichments "rows_ok gen"
proof
  fix db and req :: "uuid list \<times> TenantId \<times> string option \<times> datetime" and i
  assume wf: "rows_ok gen db"
  obtain locked t kind now where req: "req = (locked, t, kind, now)" by (cases req)
  obtain r db' where c: "enrichment_claim_next_available db locked t kind now = (r, db')" by fastforce
  have step: "enrichment_claim db req = (case r of Inr (Some run) \<Rightarrow> Some (en_id run) | _ \<Rightarrow> None, db')"
    by (simp add: enrichment_claim_def req c)
  have bounds: "distinct (map en_id (er_runs db))"
    "\<forall>x \<in> set (er_runs db). en_max_attempts x < 2 ^ 31 \<and> 0 \<le> en_attempt_count x"
    using wf by (auto simp: rows_ok_def attempts_ok_def)
  from c bounds have "rows_ok gen db' \<and> waiting_enrichments db' \<subseteq> waiting_enrichments db \<and>
      (fst (enrichment_claim db req) = Some i \<longrightarrow> i \<in> waiting_enrichments db \<and> i \<notin> waiting_enrichments db')"
  proof (cases rule: claim_next_available_cases)
    case nothing
    with wf show ?thesis
      by (simp add: step)
  next
    case (claimed row)
    have run: "en_status (run_claimed now x) = ''running''" "en_id (run_claimed now x) = en_id x" for x
      by (simp_all add: run_claimed_def)
    then have "run_claimed now x = x \<Longrightarrow> en_status x = ''running''" for x
      by metis
    with run have "waiting_enrichments db' = waiting_enrichments db - {en_id row}"
      using claimed(4) by (auto simp: waiting_enrichments_def set_update_where split: if_splits)
    then show ?thesis
      using claim_ok [OF wf claimed(1,2)] claimed(1-4)
      by (auto simp: step run_claimed_def waiting_enrichments_def claimable_enrichment_run_def)
  qed
  then show "rows_ok gen (snd (enrichment_claim db req))"
    and "waiting_enrichments (snd (enrichment_claim db req)) \<subseteq> waiting_enrichments db"
    and "fst (enrichment_claim db req) = Some i \<Longrightarrow>
      i \<in> waiting_enrichments db \<and> i \<notin> waiting_enrichments (snd (enrichment_claim db req))"
    by (simp_all add: step)
qed

text \<open>However many claims follow one another, they hand out different runs, all of which were waiting.\<close>

lemma enrichment_claims_distinct:
  "rows_ok gen db \<Longrightarrow> distinct (claim_all enrichment_claim db reqs) \<and>
     set (claim_all enrichment_claim db reqs) \<subseteq> waiting_enrichments db"
  by (rule enrichment_queue.claim_all_waiting)

text \<open>
  A step in general: one worker \<open>w\<close> goes on to the phase \<open>ph\<close> and only runs in \<open>mine\<close> change, each of which
  is its own or was waiting.
\<close>

definition of_worker :: "enrichment_state \<Rightarrow> nat \<Rightarrow> uuid \<Rightarrow> bool" where
  "of_worker s w i \<longleftrightarrow> (\<exists>run. busy (es_worker s w) = Some run \<and> en_id run = i) \<or>
     (\<exists>x \<in> set (er_runs (es_db s)). en_id x = i \<and> en_status x = ''pending'')"

definition step_of :: "uuid_source \<Rightarrow> TenantId \<Rightarrow> enrichment_state \<Rightarrow> enrichment_state \<Rightarrow> nat \<Rightarrow> worker_phase \<Rightarrow> bool" where
  "step_of gen t s s' w ph \<longleftrightarrow> es_worker s' = (es_worker s)(w := ph) \<and> rows_ok gen (es_db s') \<and>
     (\<exists>mine. others_kept gen mine (es_db s) (es_db s') \<and> (\<forall>i \<in> mine. of_worker s w i)) \<and>
     (\<forall>run. busy ph = Some run \<longrightarrow> held gen t (es_db s') run \<and> of_worker s w (en_id run))"

lemma step_ofI:
  assumes "es_worker s' = (es_worker s)(w := ph)" and "rows_ok gen (es_db s')"
    and "others_kept gen mine (es_db s) (es_db s')" and "\<And>i. i \<in> mine \<Longrightarrow> of_worker s w i"
    and "\<And>run. busy ph = Some run \<Longrightarrow> held gen t (es_db s') run \<and> of_worker s w (en_id run)"
  shows "step_of gen t s s' w ph"
  using assms unfolding step_of_def by blast

lemma step_of_table:
  assumes "enrichment_inv gen t s" and "rows_ok gen db'" and "others_kept gen {} (es_db s) db'"
  shows "step_of gen t s (s\<lparr>es_db := db'\<rparr>) w (es_worker s w)"
proof (rule step_ofI [where mine = "{}"])
  fix run
  assume b: "busy (es_worker s w) = Some run"
  with assms(1) have "held gen t (es_db s) run"
    by (auto simp: enrichment_inv_def)
  with b others_kept_held [OF assms(3)] show
    "held gen t (es_db (s\<lparr>es_db := db'\<rparr>)) run \<and> of_worker s w (en_id run)"
    by (auto simp: of_worker_def)
qed (use assms in simp_all)

lemma step_of_worker:
  assumes "enrichment_inv gen t s" and "busy (es_worker s w) = Some run" and "busy ph \<in> {None, Some run}"
    and "rows_ok gen db'" and "others_kept gen {en_id run} (es_db s) db'" and "busy ph = None \<or> db' = es_db s"
  shows "step_of gen t s \<lparr>es_db = db', es_worker = (es_worker s)(w := ph)\<rparr> w ph"
proof (rule step_ofI [where mine = "{en_id run}"])
  show "of_worker s w i" if "i \<in> {en_id run}" for i
    using that assms(2) by (auto simp: of_worker_def)
  fix run'
  assume "busy ph = Some run'"
  with assms show "held gen t (es_db \<lparr>es_db = db', es_worker = (es_worker s)(w := ph)\<rparr>) run' \<and> of_worker s w (en_id run')"
    by (auto simp: enrichment_inv_def of_worker_def)
qed (use assms in simp_all)

lemma enrichment_step_of:
  assumes inj: "inj gen" and inv: "enrichment_inv gen t s" and st: "enrichment_step gen t config s s'"
  shows "\<exists>w ph. step_of gen t s s' w ph"
  using st
proof cases
  case (requested new_run t' now)
  have "rows_ok gen (es_db s)"
    using inv by (simp add: enrichment_inv_def)
  then have "rows_ok gen (snd (enrichment_create_or_get gen (es_db s) t' new_run now)) \<and>
      others_kept gen {} (es_db s) (snd (enrichment_create_or_get gen (es_db s) t' new_run now))"
    using create_or_get_ok [OF inj _ requested(3)] by (metis surjective_pairing)
  then show ?thesis
    using requested(1) step_of_table [OF inv] by blast
next
  case (document_added d)
  have "rows_ok gen ((es_db s)\<lparr>er_documents := er_documents (es_db s) @ [d]\<rparr>)"
    and "others_kept gen {} (es_db s) ((es_db s)\<lparr>er_documents := er_documents (es_db s) @ [d]\<rparr>)"
    using inv by (auto simp: enrichment_inv_def rows_ok_def used_ids_def others_kept_def intro: kept_refl)
  then show ?thesis
    using document_added step_of_table [OF inv] by blast
next
  case (document_deleted d)
  then show ?thesis
    using delete_document_ok [of gen "es_db s" d] inv step_of_table [OF inv] by (auto simp: enrichment_inv_def)
next
  case (polled w n locked now r db')
  have ok: "rows_ok gen (es_db s)"
    using inv by (simp add: enrichment_inv_def)
  then have "distinct (map en_id (er_runs (es_db s)))"
    and "\<forall>x \<in> set (er_runs (es_db s)). en_max_attempts x < 2 ^ 31 \<and> 0 \<le> en_attempt_count x"
    by (auto simp: rows_ok_def attempts_ok_def)
  with polled(3) show ?thesis
  proof (cases rule: claim_next_available_cases)
    case nothing
    then have "step_of gen t s s' w (worker_next (config w) n)"
      using polled(1) ok by (intro step_ofI [where mine = "{}"]) simp_all
    then show ?thesis
      by blast
  next
    case (claimed row)
    note c = claim_ok [OF ok claimed(1,2)]
    have w: "of_worker s w (en_id row)"
      using claimed(1,2) by (auto simp: of_worker_def claimable_enrichment_run_def)
    have "step_of gen t s s' w (Working (n + 1) (run_claimed now row))"
    proof (rule step_ofI [where mine = "{en_id row}"])
      show "held gen t (es_db s') run \<and> of_worker s w (en_id run)"
        if "busy (Working (n + 1) (run_claimed now row)) = Some run" for run
        using that c w polled(1) claimed(4) by (auto simp: run_claimed_def)
    qed (use polled(1) claimed(3,4) c w in simp_all)
    then show ?thesis
      by blast
  qed
next
  case (worked w n run work)
  let ?ph = "case build_enrichment_summary work (es_db s) t run of Inl e \<Rightarrow> Failing n run e | Inr summary \<Rightarrow> Storing n run summary"
  have "step_of gen t s \<lparr>es_db = es_db s, es_worker = (es_worker s)(w := ?ph)\<rparr> w ?ph"
    using worked(2) inv by (intro step_of_worker [OF inv, where run = run]) (auto simp: enrichment_inv_def split: sum.split)
  moreover have "s' = \<lparr>es_db = es_db s, es_worker = (es_worker s)(w := ?ph)\<rparr>"
    using worked(1) by simp
  ultimately show ?thesis
    by blast
next
  case (stored w n run summary now r db' error_text)
  have ok: "rows_ok gen (es_db s)"
    using inv by (simp add: enrichment_inv_def)
  let ?ph = "case r of Inl e \<Rightarrow> Failing n run (error_text e) | Inr _ \<Rightarrow> worker_next (config w) n"
  have "step_of gen t s \<lparr>es_db = db', es_worker = (es_worker s)(w := ?ph)\<rparr> w ?ph"
    using stored(2) mark_succeeded_ok [OF ok stored(3)]
      update_enrichment_run_rows(2) [OF stored(3) [unfolded enrichment_mark_succeeded_def]]
    by (intro step_of_worker [OF inv, where run = run]) (auto split: sum.split)
  then show ?thesis
    using stored(1) by auto
next
  case (requeued w n run error_message now now' r db')
  have ok: "rows_ok gen (es_db s)"
    using inv by (simp add: enrichment_inv_def)
  let ?ph = "case r of Inl e \<Rightarrow> Left (Some e) | Inr _ \<Rightarrow> worker_next (config w) n"
  have "step_of gen t s \<lparr>es_db = db', es_worker = (es_worker s)(w := ?ph)\<rparr> w ?ph"
    using requeued(2) requeue_after_error_ok [OF ok requeued(3)]
    by (intro step_of_worker [OF inv, where run = run]) (auto split: sum.split)
  then show ?thesis
    using requeued(1) by auto
next
  case (crashed w)
  then have "step_of gen t s s' w (Left None)"
    using inv by (intro step_ofI [where mine = "{}"]) (simp_all add: enrichment_inv_def)
  then show ?thesis
    by blast
qed

lemma step_of_inv:
  assumes inv: "enrichment_inv gen t s" and st: "step_of gen t s s' w ph"
  shows "enrichment_inv gen t s'"
proof -
  obtain mine where mine: "others_kept gen mine (es_db s) (es_db s')" "\<forall>i \<in> mine. of_worker s w i"
    using st by (auto simp: step_of_def)
  have other: "\<not> of_worker s w (en_id run)" if "busy (es_worker s w') = Some run" "w' \<noteq> w" for w' run
    using that inv by (fastforce simp: of_worker_def enrichment_inv_def held_def)
  have "held gen t (es_db s') run" if "busy (es_worker s w') = Some run" "w' \<noteq> w" for w' run
    using that inv mine other [OF that] others_kept_held [OF mine(1)] by (auto simp: enrichment_inv_def)
  then show ?thesis
    using st inv other unfolding enrichment_inv_def step_of_def by (auto split: if_splits) metis+
qed

lemma enrichment_reachable_inv:
  assumes "inj gen" and "enrichment_reachable gen t config s"
  shows "enrichment_inv gen t s"
  using assms(2)
proof induction
  case (start ts)
  then show ?case
    by (simp add: enrichment_inv_def rows_ok_def)
next
  case (step s s')
  with enrichment_step_of [OF assms(1)] show ?case
    by (blast intro: step_of_inv)
qed

section \<open>Runs that are done or left behind\<close>

text \<open>
  A run is settled when no worker has it and it does not wait; then no step changes its status, its
  attempts or its holder.
\<close>

definition settled :: "uuid_source \<Rightarrow> uuid \<Rightarrow> enrichment_state \<Rightarrow> bool" where
  "settled gen i s \<longleftrightarrow> i \<in> used_ids gen (es_db s) \<and> (\<forall>w run. busy (es_worker s w) = Some run \<longrightarrow> en_id run \<noteq> i) \<and>
     (\<forall>x \<in> set (er_runs (es_db s)). en_id x = i \<longrightarrow> en_status x \<noteq> ''pending'')"

lemma settled_step:
  assumes "settled gen i s" and "step_of gen t s s' w ph"
  shows "settled gen i s' \<and>
     (\<forall>x' \<in> set (er_runs (es_db s')). en_id x' = i \<longrightarrow> (\<exists>x \<in> set (er_runs (es_db s)). kept x x'))"
proof -
  obtain mine where mine: "others_kept gen mine (es_db s) (es_db s')" "\<forall>j \<in> mine. of_worker s w j"
    using assms(2) by (auto simp: step_of_def)
  have idle: "\<not> of_worker s w i"
    using assms(1) by (auto simp: settled_def of_worker_def)
  then have rows: "\<exists>x \<in> set (er_runs (es_db s)). kept x x'" if "x' \<in> set (er_runs (es_db s'))" "en_id x' = i" for x'
    using that mine assms(1) by (auto simp: others_kept_def settled_def)
  moreover have "en_status x' \<noteq> ''pending''" if "x' \<in> set (er_runs (es_db s'))" "en_id x' = i" for x'
    using rows [OF that] that assms(1) by (auto simp: settled_def kept_def)
  moreover have "en_id run \<noteq> i" if "busy (es_worker s' w') = Some run" for w' run
    using that assms idle by (auto simp: settled_def step_of_def split: if_splits)
  moreover have "i \<in> used_ids gen (es_db s')"
    using mine assms(1) by (auto simp: others_kept_def settled_def)
  ultimately show ?thesis
    by (auto simp: settled_def)
qed

lemma settled_steps:
  assumes inj: "inj gen" and steps: "(enrichment_step gen t config)\<^sup>*\<^sup>* s s'"
    and "enrichment_inv gen t s" and "settled gen i s"
  shows "enrichment_inv gen t s' \<and> settled gen i s' \<and>
     (\<forall>x' \<in> set (er_runs (es_db s')). en_id x' = i \<longrightarrow> (\<exists>x \<in> set (er_runs (es_db s)). kept x x'))"
  using steps
proof induction
  case base
  then show ?case
    using assms(3,4) kept_refl by blast
next
  case (step s1 s2)
  then obtain w ph where st: "step_of gen t s1 s2 w ph"
    using enrichment_step_of [OF inj] by blast
  have "\<exists>x \<in> set (er_runs (es_db s)). kept x x''" if x'': "x'' \<in> set (er_runs (es_db s2))" "en_id x'' = i" for x''
  proof -
    obtain x' where "x' \<in> set (er_runs (es_db s1))" "kept x' x''"
      using settled_step [OF _ st] step.IH x'' by blast
    moreover from this obtain x where "x \<in> set (er_runs (es_db s))" "kept x x'"
      using step.IH x''(2) by (auto simp: kept_def)
    ultimately show ?thesis
      by (auto simp: kept_def intro!: bexI [where x = x])
  qed
  then show ?case
    using step_of_inv [OF _ st] settled_step [OF _ st] step.IH by blast
qed

text \<open>C11: exactly one worker works on a run. In every reachable state of the table and the workers, however
  their statements, requests for runs, deletions of documents and crashes interleave, two workers that
  hold a run with the same id are the same worker; and the run, unless its document was deleted, is
  running in the table, belongs to the tenant of the workers, and was claimed at least once and at
  most as often as its maximum of attempts allows.\<close>

theorem enrichment_exclusive:
  assumes "inj gen_random_uuid" and "enrichment_reachable gen_random_uuid tenant_id config s"
    and "busy (es_worker s w) = Some run" and "busy (es_worker s w') = Some run'" and "en_id run' = en_id run"
  shows "w' = w \<and> (\<forall>x \<in> set (er_runs (es_db s)). en_id x = en_id run \<longrightarrow>
    en_status x = ''running'' \<and> en_tenant_id x = tenant_id \<and>
    1 \<le> en_attempt_count x \<and> en_attempt_count x \<le> en_max_attempts x)"
proof -
  have inv: "enrichment_inv gen_random_uuid tenant_id s"
    using assms(1,2) by (rule enrichment_reachable_inv)
  then have "held gen_random_uuid tenant_id (es_db s) run" and "\<forall>x \<in> set (er_runs (es_db s)). attempts_ok x"
    and "w' = w"
    using assms(3-5) by (auto simp: enrichment_inv_def rows_ok_def)
  then show ?thesis
    by (force simp: held_def attempts_ok_def)
qed

lemma reachable_settled:
  assumes "inj gen" and "enrichment_reachable gen t config s" and "x \<in> set (er_runs (es_db s))"
    and "en_status x \<noteq> ''pending''" and "\<And>w run. busy (es_worker s w) = Some run \<Longrightarrow> en_id run \<noteq> en_id x"
  shows "enrichment_inv gen t s" and "settled gen (en_id x) s"
    and "\<And>y. y \<in> set (er_runs (es_db s)) \<Longrightarrow> en_id y = en_id x \<Longrightarrow> y = x"
proof -
  show inv: "enrichment_inv gen t s"
    using assms(1,2) by (rule enrichment_reachable_inv)
  then have dist: "distinct (map en_id (er_runs (es_db s)))"
    by (simp add: enrichment_inv_def rows_ok_def)
  show same: "y = x" if "y \<in> set (er_runs (es_db s))" "en_id y = en_id x" for y
    using distinct_key_eq [OF dist that(1) assms(3) that(2)] .
  have "en_id x \<in> used_ids gen (es_db s)"
    using inv assms(3) by (auto simp: enrichment_inv_def rows_ok_def)
  moreover have "\<forall>y \<in> set (er_runs (es_db s)). en_id y = en_id x \<longrightarrow> en_status y \<noteq> ''pending''"
    using same assms(4) by blast
  ultimately show "settled gen (en_id x) s"
    using assms(5) by (simp add: settled_def)
qed

text \<open>C26: a run is done for good. Once a run has succeeded or failed, no worker has it, and whatever is
  requested, deleted, claimed or written afterwards it keeps its status and its number of attempts
  until its document is deleted: even a request for the same run with more attempts leaves it as it is.\<close>

theorem enrichment_final:
  assumes "inj gen_random_uuid" and "enrichment_reachable gen_random_uuid tenant_id config s"
    and "x \<in> set (er_runs (es_db s))" and "en_status x \<in> {''succeeded'', ''failed''}"
    and "(enrichment_step gen_random_uuid tenant_id config)\<^sup>*\<^sup>* s s'"
    and "x' \<in> set (er_runs (es_db s'))" and "en_id x' = en_id x"
  shows "en_status x' = en_status x \<and> en_attempt_count x' = en_attempt_count x \<and>
    (\<forall>w run. busy (es_worker s' w) = Some run \<longrightarrow> en_id run \<noteq> en_id x)"
proof -
  have "enrichment_inv gen_random_uuid tenant_id s"
    using assms(1,2) by (rule enrichment_reachable_inv)
  then have idle: "en_id run \<noteq> en_id x" if "busy (es_worker s w) = Some run" for w run
    using that assms(3,4) by (auto simp: enrichment_inv_def held_def)
  note r = reachable_settled [OF assms(1-3) _ idle]
  have "settled gen_random_uuid (en_id x) s'" and "\<exists>y \<in> set (er_runs (es_db s)). kept y x'"
    using settled_steps [OF assms(1,5) r(1,2)] assms(4,6,7) by auto
  then show ?thesis
    using r(3) assms(4,7) by (fastforce simp: settled_def kept_def)
qed

text \<open>C27: a run whose worker is gone is never done. When a run is running and no worker has it, as after a
  crash, then whatever is done afterwards it stays running with the same number of attempts and no
  worker ever gets it, however many attempts it has left.\<close>

theorem enrichment_stranded:
  assumes "inj gen_random_uuid" and "enrichment_reachable gen_random_uuid tenant_id config s"
    and "x \<in> set (er_runs (es_db s))" and "en_status x = ''running''"
    and "\<forall>w run. busy (es_worker s w) = Some run \<longrightarrow> en_id run \<noteq> en_id x"
    and "(enrichment_step gen_random_uuid tenant_id config)\<^sup>*\<^sup>* s s'"
    and "x' \<in> set (er_runs (es_db s'))" and "en_id x' = en_id x"
  shows "en_status x' = ''running'' \<and> en_attempt_count x' = en_attempt_count x \<and>
    (\<forall>w run. busy (es_worker s' w) = Some run \<longrightarrow> en_id run \<noteq> en_id x)"
proof -
  note r = reachable_settled [OF assms(1-3) _ assms(5) [rule_format]]
  have "settled gen_random_uuid (en_id x) s'" and "\<exists>y \<in> set (er_runs (es_db s)). kept y x'"
    using settled_steps [OF assms(1,6) r(1,2)] assms(4,7,8) by auto
  then show ?thesis
    using r(3) assms(4,8) by (fastforce simp: settled_def kept_def)
qed

section \<open>A worker at work\<close>

text \<open>The states of an example: one request of one attempt, claimed, then left or failed.\<close>

definition sample_uuids :: uuid_source where
  "sample_uuids n = Uuid (replicate n CHR ''a'')"

definition sample_request :: NewDocumentEnrichmentRun where
  "sample_request = \<lparr>ne_document_id = Uuid ''d'', ne_enrichment_kind = ''keywords'', ne_parse_version = None,
     ne_input_fingerprint = ''f'', ne_priority = 10, ne_max_attempts = 1, ne_available_at = 0\<rparr>"

definition sample_db :: "DocumentEnrichmentRun list \<Rightarrow> nat \<Rightarrow> enrichment_db" where
  "sample_db rows n = \<lparr>er_tenants = [Uuid ''t''], er_documents = [(Uuid ''t'', Uuid ''d'')], er_runs = rows, er_draws = n\<rparr>"

definition sample_config :: "nat \<Rightarrow> WorkerConfig" where
  "sample_config w = \<lparr>wc_enrichment_kind = None, wc_error_backoff = 30, wc_once = False, wc_max_runs = None\<rparr>"

definition sample_row :: DocumentEnrichmentRun where
  "sample_row = new_enrichment_run (Uuid []) (Uuid ''t'') sample_request 1"

definition sample_state :: "DocumentEnrichmentRun \<Rightarrow> nat \<Rightarrow> worker_phase \<Rightarrow> enrichment_state" where
  "sample_state row n ph = \<lparr>es_db = sample_db [row] n, es_worker = (\<lambda>w. Polling 0)(0 := ph)\<rparr>"

definition sample_error :: string where
  "sample_error = ''unsupported document enrichment kind keywords''"

definition failed_row :: DocumentEnrichmentRun where
  "failed_row = (run_claimed 2 sample_row)\<lparr>en_status := ''failed'', en_available_at := 33, en_finished_at := Some 4,
     en_error_message := Some sample_error, en_updated_at := 4\<rparr>"

lemmas sample_defs = sample_uuids_def sample_request_def sample_db_def sample_config_def sample_row_def
  sample_state_def failed_row_def new_enrichment_run_def run_claimed_def

lemma inj_sample_uuids: "inj sample_uuids"
  by (auto simp: inj_def sample_uuids_def)

abbreviation sample_reachable :: "enrichment_state \<Rightarrow> bool" where
  "sample_reachable \<equiv> enrichment_reachable sample_uuids (Uuid ''t'') sample_config"

abbreviation sample_step :: "enrichment_state \<Rightarrow> enrichment_state \<Rightarrow> bool" where
  "sample_step \<equiv> enrichment_step sample_uuids (Uuid ''t'') sample_config"

lemma sample_requested: "sample_reachable (sample_state sample_row 1 (Polling 0))"
proof -
  let ?s = "\<lparr>es_db = \<lparr>er_tenants = [Uuid ''t''], er_documents = [], er_runs = [], er_draws = 0\<rparr>, es_worker = \<lambda>w. Polling 0\<rparr>"
  let ?s' = "?s\<lparr>es_db := (es_db ?s)\<lparr>er_documents := er_documents (es_db ?s) @ [(Uuid ''t'', Uuid ''d'')]\<rparr>\<rparr>"
  have "sample_reachable (?s'\<lparr>es_db := snd (enrichment_create_or_get sample_uuids (es_db ?s') (Uuid ''t'') sample_request 1)\<rparr>)"
    by (rule enrichment_reachable.step [OF enrichment_reachable.step [OF enrichment_reachable.start
        enrichment_step.document_added] enrichment_step.requested]) (simp_all add: sample_request_def)
  then show ?thesis
    by (simp add: enrichment_create_or_get_def sample_defs Let_def fun_upd_idem)
qed

lemma sample_claimed:
  "sample_reachable (sample_state (run_claimed 2 sample_row) 1 (Working 1 (run_claimed 2 sample_row)))"
proof -
  let ?s = "sample_state sample_row 1 (Polling 0)"
  have w: "es_worker ?s 0 = Polling 0"
    by (simp add: sample_state_def)
  have "enrichment_claim_next_available (es_db ?s) [] (Uuid ''t'') (wc_enrichment_kind (sample_config 0)) 2 =
      (Ok (Some (run_claimed 2 sample_row)), sample_db [run_claimed 2 sample_row] 1)"
    by (simp add: enrichment_claim_next_available_def claimable_enrichment_run_def int4_def
        returning_def update_where_def sample_defs)
  from enrichment_step.polled [OF w, where config = sample_config, OF this] show ?thesis
    by (auto intro: enrichment_reachable.step [OF sample_requested] simp: sample_state_def)
qed

lemma sample_failed: "sample_reachable (sample_state failed_row 1 (Polling 1))"
proof -
  let ?run = "run_claimed 2 sample_row"
  let ?s = "sample_state ?run 1 (Working 1 ?run)"
  let ?s' = "sample_state ?run 1 (Failing 1 ?run sample_error)"
  have w: "es_worker ?s 0 = Working 1 ?run" "es_worker ?s' 0 = Failing 1 ?run sample_error"
    by (simp_all add: sample_state_def)
  have "build_enrichment_summary (\<lambda>_. Err []) (es_db ?s) (Uuid ''t'') ?run = Err sample_error"
    by (simp add: build_enrichment_summary_def WORKER_KINDS_def sample_error_def sample_defs)
  with enrichment_step.worked [OF w(1), of sample_uuids "Uuid ''t''" sample_config "\<lambda>_. Err []"]
  have "sample_step ?s ?s'"
    by (simp add: sample_state_def)
  then have r: "sample_reachable ?s'"
    by (rule enrichment_reachable.step [OF sample_claimed])
  have "enrichment_requeue_after_error (es_db ?s') (Uuid ''t'') (en_id ?run) sample_error
      (3 + wc_error_backoff (sample_config 0)) 4 = (Ok failed_row, sample_db [failed_row] 1)"
    by (simp add: enrichment_requeue_after_error_def update_enrichment_run_def returning_def update_where_def
        Let_def sample_defs)
  from enrichment_step.requeued [OF w(2), where config = sample_config, OF this] show ?thesis
    by (auto intro: enrichment_reachable.step [OF r] simp: sample_state_def worker_next_def worker_stops_def
        sample_config_def)
qed

lemma sample_crashed: "sample_reachable (sample_state (run_claimed 2 sample_row) 1 (Left None))"
proof -
  have "sample_step (sample_state (run_claimed 2 sample_row) 1 (Working 1 (run_claimed 2 sample_row)))
      (sample_state (run_claimed 2 sample_row) 1 (Left None))"
    using enrichment_step.crashed [of sample_uuids "Uuid ''t''" sample_config
        "sample_state (run_claimed 2 sample_row) 1 (Working 1 (run_claimed 2 sample_row))" 0]
    by (simp add: sample_state_def)
  then show ?thesis
    by (rule enrichment_reachable.step [OF sample_claimed])
qed

text \<open>Asking again for the run of a row with five attempts raises the maximum and changes nothing else.\<close>

lemma sample_asked_again:
  assumes "row \<in> {run_claimed 2 sample_row, failed_row}"
  shows "sample_step (sample_state row 1 ph)
    (sample_state (merge_enrichment_run (sample_request\<lparr>ne_max_attempts := 5\<rparr>) 9 row) 2 ph)"
proof -
  have "sample_step (sample_state row 1 ph) ((sample_state row 1 ph)\<lparr>es_db := snd (enrichment_create_or_get sample_uuids
      (es_db (sample_state row 1 ph)) (Uuid ''t'') (sample_request\<lparr>ne_max_attempts := 5\<rparr>) 9)\<rparr>)"
    by (rule enrichment_step.requested) simp_all
  then show ?thesis
    using assms by (auto simp: enrichment_create_or_get_def same_enrichment_key_def Let_def update_where_def
        merge_enrichment_run_def sample_defs numeral_2_eq_2)
qed

theorem enrichment_exclusive_witness:
  "let s = sample_state (run_claimed 2 sample_row) 1 (Working 1 (run_claimed 2 sample_row)) in
   busy (es_worker s 0) = Some (run_claimed 2 sample_row) \<and> en_attempt_count (run_claimed 2 sample_row) = 1 \<and>
   en_status (run_claimed 2 sample_row) = ''running''"
proof -
  let ?run = "run_claimed 2 sample_row"
  have b: "busy (es_worker (sample_state ?run 1 (Working 1 ?run)) 0) = Some ?run"
    by (simp add: sample_state_def)
  from enrichment_exclusive [OF inj_sample_uuids sample_claimed b b refl]
  have "en_status ?run = ''running'' \<and> 1 \<le> en_attempt_count ?run \<and> en_attempt_count ?run \<le> en_max_attempts ?run"
    by (auto simp: sample_state_def sample_db_def)
  then show ?thesis
    using b by (simp add: sample_defs)
qed

theorem enrichment_final_witness:
  "sample_step\<^sup>*\<^sup>* (sample_state failed_row 1 (Polling 1))
     (sample_state (merge_enrichment_run (sample_request\<lparr>ne_max_attempts := 5\<rparr>) 9 failed_row) 2 (Polling 1)) \<and>
   en_status (merge_enrichment_run (sample_request\<lparr>ne_max_attempts := 5\<rparr>) 9 failed_row) = ''failed''"
proof -
  let ?row = "merge_enrichment_run (sample_request\<lparr>ne_max_attempts := 5\<rparr>) 9 failed_row"
  have steps: "sample_step\<^sup>*\<^sup>* (sample_state failed_row 1 (Polling 1)) (sample_state ?row 2 (Polling 1))"
    using sample_asked_again [of failed_row] by blast
  have "en_status ?row = en_status failed_row"
    using enrichment_final [OF inj_sample_uuids sample_failed _ _ steps, of failed_row ?row]
    by (simp add: sample_state_def sample_db_def failed_row_def merge_enrichment_run_def)
  with steps show ?thesis
    by (simp add: failed_row_def)
qed

theorem enrichment_stranded_witness:
  "sample_step\<^sup>*\<^sup>* (sample_state (run_claimed 2 sample_row) 1 (Left None))
     (sample_state (merge_enrichment_run (sample_request\<lparr>ne_max_attempts := 5\<rparr>) 9 (run_claimed 2 sample_row)) 2 (Left None)) \<and>
   en_status (merge_enrichment_run (sample_request\<lparr>ne_max_attempts := 5\<rparr>) 9 (run_claimed 2 sample_row)) = ''running''"
proof -
  let ?run = "run_claimed 2 sample_row"
  let ?row = "merge_enrichment_run (sample_request\<lparr>ne_max_attempts := 5\<rparr>) 9 ?run"
  have steps: "sample_step\<^sup>*\<^sup>* (sample_state ?run 1 (Left None)) (sample_state ?row 2 (Left None))"
    using sample_asked_again [of ?run] by blast
  have idle: "\<forall>w run. busy (es_worker (sample_state ?run 1 (Left None)) w) = Some run \<longrightarrow> en_id run \<noteq> en_id ?run"
    by (simp add: sample_state_def)
  have "en_status ?row = ''running''"
    using enrichment_stranded [OF inj_sample_uuids sample_crashed _ _ idle steps, of ?row]
    by (simp add: sample_state_def sample_db_def run_claimed_def merge_enrichment_run_def)
  with steps show ?thesis
    by simp
qed

end
