(* ===== verification/Enrichment_Requests.thy ===== *)
theory Enrichment_Requests
  imports Enrichment_Runs Model_Profiles
begin

text \<open>
  What asks for enrichment runs after a document was indexed: \<open>maybe_enqueue_document_enrichment_runs\<close>
  and its helpers in \<open>src/crates/retrieval-worker/src/main.rs\<close>, with the allow lists of
  \<open>src/crates/retrieval-worker/src/lib.rs\<close> that say for which datasets a semantic profile may be built.
  The environment is the function of \<open>Model_Profiles\<close>; \<open>parse_uuid\<close> parses an id as the library does.
  The fingerprint column of the document and the datasets it is a member of are arguments. The JSON
  value that reports the outcome is written from the values of \<open>enrichment_request\<close>.
\<close>

section \<open>Datasets with semantic understanding\<close>

datatype DatasetSemanticUnderstandingAccess =
  Allowed | FeatureDisabled | TenantNotAllowlisted | DatasetNotAllowlisted

fun is_allowed :: "DatasetSemanticUnderstandingAccess \<Rightarrow> bool" where
  "is_allowed Allowed = True"
| "is_allowed FeatureDisabled = False"
| "is_allowed TenantNotAllowlisted = False"
| "is_allowed DatasetNotAllowlisted = False"

fun safe_reason :: "DatasetSemanticUnderstandingAccess \<Rightarrow> string" where
  "safe_reason Allowed = ''allowed''"
| "safe_reason FeatureDisabled = ''feature_disabled''"
| "safe_reason TenantNotAllowlisted = ''tenant_not_allowlisted''"
| "safe_reason DatasetNotAllowlisted = ''dataset_not_allowlisted''"

type_synonym uuid_parser = "string \<Rightarrow> (uuid, string) result"

definition parsed :: "('a, 'e) result \<Rightarrow> 'a option" where
  "parsed r = (case r of Inl _ \<Rightarrow> None | Inr x \<Rightarrow> Some x)"

text \<open>The ids of a list separated by commas; entries that are not ids are skipped.\<close>

definition csv_uuids :: "uuid_parser \<Rightarrow> string option \<Rightarrow> uuid list" where
  "csv_uuids parse_uuid csv = (case csv of
     None \<Rightarrow> []
   | Some v \<Rightarrow> List.map_filter (\<lambda>s. parsed (parse_uuid (trim s))) (split_char (CHR '','') v))"

definition uuid_csv_contains :: "uuid_parser \<Rightarrow> string option \<Rightarrow> uuid \<Rightarrow> bool" where
  "uuid_csv_contains parse_uuid csv expected = list_ex (\<lambda>v. v = expected) (csv_uuids parse_uuid csv)"

definition dataset_semantic_understanding_access_from_values ::
    "uuid_parser \<Rightarrow> bool \<Rightarrow> string option \<Rightarrow> string option \<Rightarrow> TenantId \<Rightarrow> uuid \<Rightarrow>
     DatasetSemanticUnderstandingAccess" where
  "dataset_semantic_understanding_access_from_values parse_uuid enabled tenant_allowlist dataset_allowlist
       tenant_id dataset_id =
     (if \<not> enabled then FeatureDisabled
      else if \<not> uuid_csv_contains parse_uuid tenant_allowlist tenant_id then TenantNotAllowlisted
      else if \<not> uuid_csv_contains parse_uuid dataset_allowlist dataset_id then DatasetNotAllowlisted
      else Allowed)"

definition dataset_semantic_understanding_access ::
    "uuid_parser \<Rightarrow> env \<Rightarrow> TenantId \<Rightarrow> uuid \<Rightarrow> DatasetSemanticUnderstandingAccess" where
  "dataset_semantic_understanding_access parse_uuid env tenant_id dataset_id =
     dataset_semantic_understanding_access_from_values parse_uuid
       (env_flag env ''DATASET_SEMANTIC_UNDERSTANDING_ENABLED'' False)
       (env ''DATASET_SEMANTIC_UNDERSTANDING_TENANT_ALLOWLIST'')
       (env ''DATASET_SEMANTIC_UNDERSTANDING_DATASET_ALLOWLIST'') tenant_id dataset_id"

definition dataset_cross_semantic_graph_worker_enabled :: "uuid_parser \<Rightarrow> env \<Rightarrow> TenantId \<Rightarrow> bool" where
  "dataset_cross_semantic_graph_worker_enabled parse_uuid env tenant_id \<longleftrightarrow>
     env_flag env ''DATASET_CROSS_SEMANTIC_GRAPH_ENABLED'' False \<and>
     uuid_csv_contains parse_uuid (env ''DATASET_CROSS_SEMANTIC_GRAPH_TENANT_ALLOWLIST'') tenant_id"

definition dataset_cross_semantic_graph_allowed_dataset_ids_from_value ::
    "uuid_parser \<Rightarrow> string option \<Rightarrow> uuid list" where
  "dataset_cross_semantic_graph_allowed_dataset_ids_from_value parse_uuid v =
     sort (remdups (csv_uuids parse_uuid v))"

definition dataset_cross_semantic_graph_allowed_dataset_ids :: "uuid_parser \<Rightarrow> env \<Rightarrow> uuid list" where
  "dataset_cross_semantic_graph_allowed_dataset_ids parse_uuid env =
     dataset_cross_semantic_graph_allowed_dataset_ids_from_value parse_uuid
       (env ''DATASET_CROSS_SEMANTIC_GRAPH_DATASET_ALLOWLIST'')"

definition semantic_profile_signal_allowed ::
    "uuid_parser \<Rightarrow> env \<Rightarrow> TenantId \<Rightarrow> uuid list \<Rightarrow> uuid \<Rightarrow> bool" where
  "semantic_profile_signal_allowed parse_uuid env tenant_id member_of dataset_id =
     list_ex (\<lambda>d. is_allowed (dataset_semantic_understanding_access parse_uuid env tenant_id d))
       (remdups_adj (sort (member_of @ [dataset_id])))"

section \<open>Asking for runs\<close>

definition normalize_document_enrichment_kind :: "string \<Rightarrow> string option" where
  "normalize_document_enrichment_kind raw = (let kind = to_ascii_lowercase (trim raw) in
     if kind \<in> {''structure_outline_v1'', ''structure_outline'', ''section_outline_v1'', ''section_outline''}
     then Some ''structure_outline_v1''
     else if kind = ''fact_index_v2'' then Some ''fact_index_v2''
     else if kind = ''qa_seed_v1'' then Some ''qa_seed_v1''
     else if kind = ''entity_relation_v1'' then Some ''entity_relation_v1''
     else if kind \<in> {''table_structure_v1'', ''table_structure''} then Some ''table_structure_v1''
     else if kind \<in> {''entity_terms_v1'', ''entity_terms''} then Some ''entity_terms_v1''
     else if kind \<in> {''procedure_steps_v1'', ''procedure_steps''} then Some ''procedure_steps_v1''
     else if kind \<in> {''resume_profile_v1'', ''resume_profile''} then Some ''resume_profile_v1''
     else if kind \<in> {''spreadsheet_metrics_v1'', ''spreadsheet_metrics''} then Some ''spreadsheet_metrics_v1''
     else if kind \<in> {''semantic_profile_v1'', ''semantic_profile''} then Some ''semantic_profile_v1''
     else None)"

fun add_kind :: "string list \<Rightarrow> string option \<Rightarrow> string list" where
  "add_kind kinds None = kinds"
| "add_kind kinds (Some kind) = (if kind \<in> set kinds then kinds else kinds @ [kind])"

definition document_enrichment_kinds_from_csv :: "string \<Rightarrow> string list" where
  "document_enrichment_kinds_from_csv v =
     fold (\<lambda>raw kinds. add_kind kinds (normalize_document_enrichment_kind raw)) (split_char (CHR '','') v) []"

definition filter_semantic_profile_kind :: "string list \<Rightarrow> bool \<Rightarrow> string list" where
  "filter_semantic_profile_kind kinds semantic_profile_allowed =
     filter (\<lambda>kind. kind \<noteq> ''semantic_profile_v1'' \<or> semantic_profile_allowed) kinds"

definition optional_env :: "env \<Rightarrow> string \<Rightarrow> string option" where
  "optional_env env key = option_filter (\<lambda>v. v \<noteq> [] \<and> v \<noteq> ''*'') (map_option trim (env key))"

definition env_i32 :: "env \<Rightarrow> string \<Rightarrow> int \<Rightarrow> int" where
  "env_i32 env key default_value =
     unwrap_or default_value (Option.bind (env key) (\<lambda>v. parsed (parse_i32 (trim v))))"

definition document_enrichment_enabled :: "env \<Rightarrow> bool" where
  "document_enrichment_enabled env = env_flag env ''DOCUMENT_ENRICHMENT_ENABLED'' False"

definition document_enrichment_default_priority :: "env \<Rightarrow> int" where
  "document_enrichment_default_priority env =
     max 1 (min 10000 (env_i32 env ''DOCUMENT_ENRICHMENT_DEFAULT_PRIORITY'' 100))"

definition document_enrichment_max_attempts :: "env \<Rightarrow> int" where
  "document_enrichment_max_attempts env = max 1 (min 10 (env_i32 env ''DOCUMENT_ENRICHMENT_MAX_ATTEMPTS'' 3))"

definition DEFAULT_DOCUMENT_ENRICHMENT_KINDS :: "string list" where
  "DEFAULT_DOCUMENT_ENRICHMENT_KINDS = [''structure_outline_v1'', ''fact_index_v2'', ''qa_seed_v1'',
     ''entity_relation_v1'', ''table_structure_v1'', ''entity_terms_v1'', ''procedure_steps_v1'',
     ''resume_profile_v1'', ''spreadsheet_metrics_v1'', ''semantic_profile_v1'']"

definition document_enrichment_kinds :: "env \<Rightarrow> bool \<Rightarrow> string list" where
  "document_enrichment_kinds env semantic_profile_allowed = filter_semantic_profile_kind
     (case optional_env env ''DOCUMENT_ENRICHMENT_KINDS'' of
        Some v \<Rightarrow> document_enrichment_kinds_from_csv v
      | None \<Rightarrow> DEFAULT_DOCUMENT_ENRICHMENT_KINDS) semantic_profile_allowed"

definition document_enrichment_parse_version :: "json \<Rightarrow> string option" where
  "document_enrichment_parse_version metadata = (
     let get = (\<lambda>v. or_else (or_else (or_else (json_get v ''parse_version'') (json_get v ''parseVersion''))
           (json_get v ''parse_method'')) (json_get v ''parseMethod''));
         found = or_else (or_else (Option.bind (json_get metadata ''ingest'') get)
           (json_get metadata ''parse_version'')) (json_get metadata ''parseVersion'') in
     option_filter (\<lambda>v. v \<noteq> []) (map_option trim (Option.bind found json_as_str)))"

definition load_document_content_sha256 :: "string option \<Rightarrow> string option" where
  "load_document_content_sha256 content_sha256 = option_filter (\<lambda>v. trim v \<noteq> []) content_sha256"

text \<open>The loop that asks for one run after the other and stops at the first error.\<close>

fun request_runs ::
    "uuid_source \<Rightarrow> enrichment_db \<Rightarrow> TenantId \<Rightarrow> (string \<Rightarrow> NewDocumentEnrichmentRun) \<Rightarrow> datetime \<Rightarrow> string list \<Rightarrow>
     DocumentEnrichmentRun list store_result \<times> enrichment_db" where
  "request_runs gen db tenant_id new_run now [] = (Ok [], db)"
| "request_runs gen db tenant_id new_run now (kind # kinds) =
     (case enrichment_create_or_get gen db tenant_id (new_run kind) now of
        (Inl e, db') \<Rightarrow> (Err e, db')
      | (Inr run, db') \<Rightarrow>
          (case request_runs gen db' tenant_id new_run now kinds of
             (Inl e, db'') \<Rightarrow> (Err e, db'')
           | (Inr runs, db'') \<Rightarrow> (Ok (run # runs), db'')))"

datatype enrichment_request =
    Skipped string
  | Queued string "string option" "DocumentEnrichmentRun list"

definition maybe_enqueue_document_enrichment_runs ::
    "uuid_parser \<Rightarrow> env \<Rightarrow> uuid_source \<Rightarrow> enrichment_db \<Rightarrow> TenantId \<Rightarrow> uuid \<Rightarrow> json \<Rightarrow> string option \<Rightarrow> uuid list \<Rightarrow>
     uuid \<Rightarrow> datetime \<Rightarrow> enrichment_request store_result \<times> enrichment_db" where
  "maybe_enqueue_document_enrichment_runs parse_uuid env gen db tenant_id document_id metadata content_sha256
       member_of dataset_id available_at =
     (if \<not> document_enrichment_enabled env then (Ok (Skipped ''disabled''), db)
      else case load_document_content_sha256 content_sha256 of
        None \<Rightarrow> (Ok (Skipped ''missing_content_fingerprint''), db)
      | Some input_fingerprint \<Rightarrow>
          let parse_version = document_enrichment_parse_version metadata;
              priority = document_enrichment_default_priority env;
              max_attempts = document_enrichment_max_attempts env;
              semantic_profile_allowed = semantic_profile_signal_allowed parse_uuid env tenant_id member_of dataset_id;
              enrichment_kinds = document_enrichment_kinds env semantic_profile_allowed;
              new_run = (\<lambda>kind. \<lparr>ne_document_id = document_id, ne_enrichment_kind = kind,
                ne_parse_version = parse_version, ne_input_fingerprint = input_fingerprint,
                ne_priority = priority, ne_max_attempts = max_attempts, ne_available_at = available_at\<rparr>) in
          if enrichment_kinds = [] then (Ok (Skipped ''no_enabled_enrichment_kinds''), db)
          else (case request_runs gen db tenant_id new_run available_at enrichment_kinds of
              (Inl e, db') \<Rightarrow> (Err e, db')
            | (Inr runs, db') \<Rightarrow> (Ok (Queued input_fingerprint parse_version runs), db')))"

section \<open>The kinds that are asked for\<close>

lemma normalized_kind_default:
  "normalize_document_enrichment_kind raw = Some kind \<Longrightarrow> kind \<in> set DEFAULT_DOCUMENT_ENRICHMENT_KINDS"
  by (auto simp: normalize_document_enrichment_kind_def DEFAULT_DOCUMENT_ENRICHMENT_KINDS_def Let_def
      split: if_splits)

definition kinds_ok :: "string list \<Rightarrow> bool" where
  "kinds_ok kinds \<longleftrightarrow> distinct kinds \<and> set kinds \<subseteq> set DEFAULT_DOCUMENT_ENRICHMENT_KINDS"

lemma fold_add_kind:
  "kinds_ok kinds \<Longrightarrow>
   kinds_ok (fold (\<lambda>raw kinds. add_kind kinds (normalize_document_enrichment_kind raw)) raws kinds)"
proof (induction raws arbitrary: kinds)
  case (Cons raw raws)
  have "kinds_ok (add_kind kinds (normalize_document_enrichment_kind raw))"
    using Cons.prems normalized_kind_default [of raw]
    by (cases "normalize_document_enrichment_kind raw") (auto simp: kinds_ok_def)
  then show ?case
    using Cons.IH by simp
qed simp

lemma default_kinds_distinct: "distinct DEFAULT_DOCUMENT_ENRICHMENT_KINDS"
  by (simp add: DEFAULT_DOCUMENT_ENRICHMENT_KINDS_def)

lemma default_kinds_known: "set DEFAULT_DOCUMENT_ENRICHMENT_KINDS \<subseteq> set WORKER_KINDS"
  by (simp add: DEFAULT_DOCUMENT_ENRICHMENT_KINDS_def WORKER_KINDS_def)

lemma document_enrichment_kinds_known:
  "distinct (document_enrichment_kinds env allowed)"
  "set (document_enrichment_kinds env allowed) \<subseteq> set WORKER_KINDS"
  "''semantic_profile_v1'' \<in> set (document_enrichment_kinds env allowed) \<Longrightarrow> allowed"
  using fold_add_kind [of "[]"] default_kinds_known default_kinds_distinct
  by (auto simp: kinds_ok_def document_enrichment_kinds_def filter_semantic_profile_kind_def
      document_enrichment_kinds_from_csv_def split: option.splits)

section \<open>Asking twice\<close>

text \<open>The run of a key is the first row of the table with this key.\<close>

lemma find_key_update_where:
  assumes "\<And>x. key (f x) = key x"
  shows "map_option key (find (\<lambda>x. q (key x)) (update_where p f rows)) = map_option key (find (\<lambda>x. q (key x)) rows)"
  using assms by (induction rows) (simp_all add: update_where_def)

definition run_key :: "DocumentEnrichmentRun \<Rightarrow> uuid \<times> TenantId \<times> uuid \<times> string \<times> string" where
  "run_key r = (en_id r, en_tenant_id r, en_document_id r, en_enrichment_kind r, en_input_fingerprint r)"

definition key_of :: "TenantId \<Rightarrow> NewDocumentEnrichmentRun \<Rightarrow> uuid \<times> TenantId \<times> uuid \<times> string \<times> string \<Rightarrow> bool" where
  "key_of t n k \<longleftrightarrow> snd k = (t, ne_document_id n, ne_enrichment_kind n, ne_input_fingerprint n)"

definition stored_run :: "enrichment_db \<Rightarrow> TenantId \<Rightarrow> NewDocumentEnrichmentRun \<Rightarrow> uuid option" where
  "stored_run db t n = map_option fst (map_option run_key (find (\<lambda>r. key_of t n (run_key r)) (er_runs db)))"

lemma same_key: "same_enrichment_key t n r \<longleftrightarrow> key_of t n (run_key r)"
  by (auto simp: same_enrichment_key_def key_of_def run_key_def)

lemma key_of_cong: "ne_document_id m = ne_document_id n \<Longrightarrow> ne_enrichment_kind m = ne_enrichment_kind n \<Longrightarrow>
    ne_input_fingerprint m = ne_input_fingerprint n \<Longrightarrow> stored_run db t m = stored_run db t n"
  by (simp add: stored_run_def key_of_def)

lemma find_append: "find p (xs @ ys) = (case find p xs of None \<Rightarrow> find p ys | Some x \<Rightarrow> Some x)"
  by (induction xs) auto

lemma list_ex_find: "list_ex p xs \<longleftrightarrow> find p xs \<noteq> None"
  by (induction xs) auto

lemma fetch_returning_find: "fetch_optional (returning p f rows) = map_option f (find p rows)"
  by (induction rows) (auto simp: returning_def fetch_optional_def)

lemma create_or_get_stored:
  assumes "enrichment_create_or_get gen db t n now = (Inr run, db')"
  shows "stored_run db' t n = Some (en_id run)" and "stored_run db t m = Some i \<Longrightarrow> stored_run db' t m = Some i"
    and "stored_run db t n = Some i \<Longrightarrow> en_id run = i \<and> map en_id (er_runs db') = map en_id (er_runs db)"
    and "en_enrichment_kind run = ne_enrichment_kind n \<and> en_document_id run = ne_document_id n \<and> en_tenant_id run = t"
proof -
  let ?f = "merge_enrichment_run n now"
  let ?p = "same_enrichment_key t n"
  have f: "run_key (?f x) = run_key x" "en_id (?f x) = en_id x" for x
    by (simp_all add: merge_enrichment_run_def run_key_def)
  have id: "en_id x = fst (run_key x)" for x
    by (simp add: run_key_def)
  have p: "?p = (\<lambda>r. key_of t n (run_key r))"
    by (simp add: same_key fun_eq_iff)
  consider (old) x where "find ?p (er_runs db) = Some x" "run = ?f x" "er_runs db' = update_where ?p ?f (er_runs db)"
    | (new) "find ?p (er_runs db) = None" "run = new_enrichment_run (gen (er_draws db)) t n now"
        "er_runs db' = er_runs db @ [run]"
    using assms by (auto simp: enrichment_create_or_get_def Let_def list_ex_find fetch_returning_find ok_or_eq_Ok
        split: if_splits)
  then have "stored_run db' t n = Some (en_id run) \<and> (stored_run db t m = Some i \<longrightarrow> stored_run db' t m = Some i) \<and>
      (stored_run db t n = Some i \<longrightarrow> en_id run = i \<and> map en_id (er_runs db') = map en_id (er_runs db)) \<and>
      key_of t n (run_key run)"
  proof cases
    case old
    have "stored_run db' t k = stored_run db t k" for k
      by (simp add: stored_run_def old(3) find_key_update_where [where key = run_key and q = "key_of t k", OF f(1)])
    moreover have "stored_run db t n = Some (en_id run)"
      using old(1,2) f by (simp add: stored_run_def p id)
    moreover have "key_of t n (run_key run)"
      using old(1,2) f by (auto simp: p find_Some_iff)
    ultimately show ?thesis
      using f(2) old(3) by (simp add: map_update_where)
  next
    case new
    have "key_of t n (run_key run)"
      by (simp add: new(2) new_enrichment_run_def key_of_def run_key_def)
    moreover have "stored_run db t n = None"
      using new(1) by (simp add: stored_run_def p)
    ultimately show ?thesis
      using new(1,3) by (auto simp: stored_run_def p find_append id split: option.splits)
  qed
  then show "stored_run db' t n = Some (en_id run)" and "stored_run db t m = Some i \<Longrightarrow> stored_run db' t m = Some i"
    and "stored_run db t n = Some i \<Longrightarrow> en_id run = i \<and> map en_id (er_runs db') = map en_id (er_runs db)"
    and "en_enrichment_kind run = ne_enrichment_kind n \<and> en_document_id run = ne_document_id n \<and> en_tenant_id run = t"
    by (auto simp: key_of_def run_key_def)
qed

lemma request_runs_stored:
  "request_runs gen db t new_run now kinds = (Inr runs, db') \<Longrightarrow>
   map (\<lambda>kind. stored_run db' t (new_run kind)) kinds = map (\<lambda>r. Some (en_id r)) runs \<and>
   (\<forall>m i. stored_run db t m = Some i \<longrightarrow> stored_run db' t m = Some i) \<and>
   map en_enrichment_kind runs = map (\<lambda>kind. ne_enrichment_kind (new_run kind)) kinds"
proof (induction kinds arbitrary: db runs)
  case (Cons kind kinds)
  then obtain run db1 runs' where c: "enrichment_create_or_get gen db t (new_run kind) now = (Inr run, db1)"
      "request_runs gen db1 t new_run now kinds = (Inr runs', db')" "runs = run # runs'"
    by (auto split: prod.splits sum.splits)
  then show ?case
    using Cons.IH [OF c(2)] create_or_get_stored [OF c(1)] by auto
qed simp

lemma create_or_get_stored_Ok:
  assumes "stored_run db t n = Some i"
  shows "\<exists>run db'. enrichment_create_or_get gen db t n now = (Inr run, db')"
proof -
  obtain x where "find (same_enrichment_key t n) (er_runs db) = Some x"
    using assms by (auto simp: stored_run_def same_key [abs_def])
  then show ?thesis
    by (simp add: enrichment_create_or_get_def Let_def list_ex_find fetch_returning_find)
qed

lemma request_runs_again:
  "map (\<lambda>kind. stored_run db t (new_run kind)) kinds = map Some ids \<Longrightarrow>
   \<exists>runs db'. request_runs gen db t new_run now kinds = (Inr runs, db') \<and> map en_id runs = ids \<and>
     map en_id (er_runs db') = map en_id (er_runs db)"
proof (induction kinds arbitrary: db ids)
  case (Cons kind kinds)
  then obtain i ids' where ids: "ids = i # ids'" "stored_run db t (new_run kind) = Some i"
      "map (\<lambda>kind. stored_run db t (new_run kind)) kinds = map Some ids'"
    by auto
  obtain run db1 where c: "enrichment_create_or_get gen db t (new_run kind) now = (Inr run, db1)"
    using create_or_get_stored_Ok [OF ids(2)] by blast
  note s = create_or_get_stored [OF c]
  have "map (\<lambda>kind. stored_run db1 t (new_run kind)) kinds = map Some ids'"
    using ids(3) s(2) by (auto simp: map_eq_conv list_eq_iff_nth_eq)
  from Cons.IH [OF this] show ?case
    using c s(3) [OF ids(2)] ids(1) by fastforce
qed simp

text \<open>C25: asking for the runs of a document again asks for nothing new. When the runs of an indexed document
  were queued, every run is of a kind the worker knows, no kind is queued twice, and a semantic profile
  only when one of the datasets of the document allows it. Asking again, at any later time and whatever
  metadata the document has got, with the same fingerprint returns the runs with the same ids in the
  same order and adds no run to the table.\<close>

theorem enrichment_requests_idempotent:
  assumes "maybe_enqueue_document_enrichment_runs parse_uuid env gen db tenant_id document_id metadata sha
      member_of dataset_id now = (Ok (Queued fingerprint version runs), db')"
  shows "distinct (map en_enrichment_kind runs) \<and> set (map en_enrichment_kind runs) \<subseteq> set WORKER_KINDS \<and>
    (''semantic_profile_v1'' \<in> set (map en_enrichment_kind runs) \<longrightarrow>
      (\<exists>d \<in> set (dataset_id # member_of).
         dataset_semantic_understanding_access parse_uuid env tenant_id d = Allowed)) \<and>
    (\<exists>runs' db''. maybe_enqueue_document_enrichment_runs parse_uuid env gen db' tenant_id document_id metadata' sha
       member_of dataset_id now' = (Ok (Queued fingerprint (document_enrichment_parse_version metadata') runs'), db'') \<and>
       map en_id runs' = map en_id runs \<and> map en_id (er_runs db'') = map en_id (er_runs db'))"
proof -
  define new_run where "new_run = (\<lambda>metadata now kind. \<lparr>ne_document_id = document_id, ne_enrichment_kind = kind,
    ne_parse_version = document_enrichment_parse_version metadata, ne_input_fingerprint = fingerprint,
    ne_priority = document_enrichment_default_priority env, ne_max_attempts = document_enrichment_max_attempts env,
    ne_available_at = now\<rparr>)"
  let ?allowed = "semantic_profile_signal_allowed parse_uuid env tenant_id member_of dataset_id"
  let ?kinds = "document_enrichment_kinds env ?allowed"
  have enqueue: "maybe_enqueue_document_enrichment_runs parse_uuid env gen db0 tenant_id document_id md sha
      member_of dataset_id t0 = (case request_runs gen db0 tenant_id (new_run md t0) t0 ?kinds of
        (Inl e, d) \<Rightarrow> (Err e, d)
      | (Inr rs, d) \<Rightarrow> (Ok (Queued fingerprint (document_enrichment_parse_version md) rs), d))" for db0 md t0
    using assms
    by (auto simp: maybe_enqueue_document_enrichment_runs_def new_run_def Let_def
        split: if_splits option.splits prod.splits sum.splits)
  then have r: "request_runs gen db tenant_id (new_run metadata now) now ?kinds = (Inr runs, db')"
    using assms by (auto split: prod.splits sum.splits)
  note s = request_runs_stored [OF r]
  have "stored_run db' tenant_id (new_run metadata' now' kind) = stored_run db' tenant_id (new_run metadata now kind)" for kind
    by (rule key_of_cong) (simp_all add: new_run_def)
  then have "map (\<lambda>kind. stored_run db' tenant_id (new_run metadata' now' kind)) ?kinds = map Some (map en_id runs)"
    using s by simp
  from request_runs_again [OF this, of gen now'] obtain runs' db'' where
    "request_runs gen db' tenant_id (new_run metadata' now') now' ?kinds = (Inr runs', db'')"
    "map en_id runs' = map en_id runs" "map en_id (er_runs db'') = map en_id (er_runs db')"
    by blast
  then have again: "\<exists>runs' db''. maybe_enqueue_document_enrichment_runs parse_uuid env gen db' tenant_id document_id
       metadata' sha member_of dataset_id now' = (Ok (Queued fingerprint (document_enrichment_parse_version metadata') runs'), db'') \<and>
       map en_id runs' = map en_id runs \<and> map en_id (er_runs db'') = map en_id (er_runs db')"
    by (simp add: enqueue)
  have kinds: "map en_enrichment_kind runs = ?kinds"
    using s by (simp add: new_run_def)
  have "?allowed \<Longrightarrow> \<exists>d \<in> set (dataset_id # member_of).
      is_allowed (dataset_semantic_understanding_access parse_uuid env tenant_id d)"
    by (auto simp: semantic_profile_signal_allowed_def list_ex_iff)
  moreover have "is_allowed a \<longleftrightarrow> a = Allowed" for a
    by (cases a) simp_all
  ultimately show ?thesis
    using document_enrichment_kinds_known [of env ?allowed] again unfolding kinds by blast
qed

definition sample_env :: env where
  "sample_env key = (if key = ''DOCUMENT_ENRICHMENT_ENABLED'' then Some ''on''
     else if key = ''DOCUMENT_ENRICHMENT_KINDS'' then Some ''qa_seed_v1, section_outline'' else None)"

definition sample_new_run :: "string \<Rightarrow> NewDocumentEnrichmentRun" where
  "sample_new_run kind = \<lparr>ne_document_id = Uuid ''d'', ne_enrichment_kind = kind, ne_parse_version = None,
     ne_input_fingerprint = ''f'', ne_priority = 100, ne_max_attempts = 3, ne_available_at = 1\<rparr>"

definition sample_runs :: "DocumentEnrichmentRun list" where
  "sample_runs = [new_enrichment_run (Uuid []) (Uuid ''t'') (sample_new_run ''qa_seed_v1'') 1,
     new_enrichment_run (Uuid ''a'') (Uuid ''t'') (sample_new_run ''structure_outline_v1'') 1]"

lemma sample_enqueue:
  "maybe_enqueue_document_enrichment_runs (\<lambda>_. Err []) sample_env sample_uuids (sample_db [] 0) (Uuid ''t'') (Uuid ''d'')
     (JObject []) (Some ''f'') [] (Uuid ''s'') 1 = (Ok (Queued ''f'' None sample_runs), sample_db sample_runs 2)"
proof -
  have kinds: "document_enrichment_kinds sample_env b =
      filter_semantic_profile_kind [''qa_seed_v1'', ''structure_outline_v1''] b" for b
  proof -
    have "optional_env sample_env ''DOCUMENT_ENRICHMENT_KINDS'' = Some ''qa_seed_v1, section_outline''"
      by code_simp
    moreover have "document_enrichment_kinds_from_csv ''qa_seed_v1, section_outline'' = [''qa_seed_v1'', ''structure_outline_v1'']"
      by code_simp
    ultimately show ?thesis
      by (simp add: document_enrichment_kinds_def)
  qed
  have "document_enrichment_enabled sample_env" "load_document_content_sha256 (Some ''f'') = Some ''f''"
    and "document_enrichment_default_priority sample_env = 100" "document_enrichment_max_attempts sample_env = 3"
    by code_simp+
  then show ?thesis
    by (simp add: maybe_enqueue_document_enrichment_runs_def kinds filter_semantic_profile_kind_def Let_def
        document_enrichment_parse_version_def enrichment_create_or_get_def same_enrichment_key_def
        sample_runs_def sample_new_run_def new_enrichment_run_def sample_db_def sample_uuids_def numeral_2_eq_2)
qed

theorem enrichment_requests_idempotent_witness:
  "\<exists>runs db'. maybe_enqueue_document_enrichment_runs (\<lambda>_. Err []) sample_env sample_uuids (sample_db sample_runs 2) (Uuid ''t'')
     (Uuid ''d'') (JObject [(''parseVersion'', JString ''7'')]) (Some ''f'') [] (Uuid ''s'') 9 = (Ok (Queued ''f'' (Some ''7'') runs), db') \<and>
   map en_id runs = [Uuid [], Uuid ''a''] \<and> map en_id (er_runs db') = [Uuid [], Uuid ''a'']"
proof -
  have "document_enrichment_parse_version (JObject [(''parseVersion'', JString ''7'')]) = Some ''7''"
    by code_simp
  then show ?thesis
    using enrichment_requests_idempotent [OF sample_enqueue,
        where metadata' = "JObject [(''parseVersion'', JString ''7'')]" and now' = 9]
    by (simp add: sample_runs_def new_enrichment_run_def sample_db_def)
qed

end
