(* ===== verification/Text_Chunks.thy ===== *)
theory Text_Chunks
  imports Model_Profiles "HOL-Library.Sublist"
begin

text \<open>
  The chunking of extracted documents: the splitters of \<open>src/crates/ingest-worker/src/lib.rs\<close> and the
  local processor around them. They count and compare characters, so a text is here the list of its
  code points; the strings of a JSON value are decoded with \<open>chars\<close>. Reading a file with its external
  parsers (\<open>extract_document_text\<close>) and the Unicode table of \<open>char::is_alphanumeric\<close> are parameters.
\<close>

section \<open>Texts\<close>

type_synonym unicode = "int list"

text \<open>\<open>str::chars\<close>: the code points of UTF-8 bytes.\<close>

definition low_bits :: "char \<Rightarrow> int" where
  "low_bits c = of_char c mod 64"

fun chars :: "string \<Rightarrow> unicode" where
  "chars [] = []"
| "chars (a # s) = (let n = of_char a in
     if n < 128 then n # chars s
     else if n < 224 then
       (case s of b # t \<Rightarrow> ((n - 192) * 64 + low_bits b) # chars t | [] \<Rightarrow> [])
     else if n < 240 then
       (case s of b # c # t \<Rightarrow> ((n - 224) * 4096 + low_bits b * 64 + low_bits c) # chars t | _ \<Rightarrow> [])
     else
       (case s of b # c # d # t \<Rightarrow>
          ((n - 240) * 262144 + low_bits b * 4096 + low_bits c * 64 + low_bits d) # chars t | _ \<Rightarrow> []))"

text \<open>\<open>char::is_whitespace\<close> (the property White\_Space), \<open>str::trim\<close>, \<open>str::lines\<close> and \<open>join\<close>.\<close>

definition WHITE_SPACE :: "int list" where
  "WHITE_SPACE = [9, 10, 11, 12, 13, 32, 133, 160, 5760, 8192, 8193, 8194, 8195, 8196, 8197, 8198, 8199,
     8200, 8201, 8202, 8232, 8233, 8239, 8287, 12288]"

definition is_whitespace :: "int \<Rightarrow> bool" where
  "is_whitespace c \<longleftrightarrow> c \<in> set WHITE_SPACE"

definition trim_chars :: "unicode \<Rightarrow> unicode" where
  "trim_chars s = rev (dropWhile is_whitespace (rev (dropWhile is_whitespace s)))"

definition strip_cr :: "unicode \<Rightarrow> unicode" where
  "strip_cr l = (if l \<noteq> [] \<and> List.last l = 13 then butlast l else l)"

fun char_lines :: "unicode \<Rightarrow> unicode \<Rightarrow> unicode list" where
  "char_lines l [] = (if l = [] then [] else [l])"
| "char_lines l (c # s) = (if c = 10 then strip_cr l # char_lines [] s else char_lines (l @ [c]) s)"

definition text_lines :: "unicode \<Rightarrow> unicode list" where
  "text_lines s = char_lines [] s"

fun join_chars :: "unicode \<Rightarrow> unicode list \<Rightarrow> unicode" where
  "join_chars sep [] = []"
| "join_chars sep [x] = x"
| "join_chars sep (x # xs) = x @ sep @ join_chars sep xs"

definition without_nul :: "unicode \<Rightarrow> unicode" where
  "without_nul s = filter (\<lambda>c. c \<noteq> 0) s"

section \<open>Long texts\<close>

definition SENTENCE_ENDS :: "int list" where
  "SENTENCE_ENDS = [12290, 65281, 65311, 65307, 33, 63, 59, 10]"

fun sentence_step :: "int \<Rightarrow> unicode list \<times> unicode \<Rightarrow> unicode list \<times> unicode" where
  "sentence_step ch (units, current) = (
     if ch \<in> set SENTENCE_ENDS then
       let unit = trim_chars (current @ [ch]) in
       (if unit = [] then units else if ch = 10 then units @ [unit @ [10]] else units @ [unit], [])
     else (units, current @ [ch]))"

definition split_sentence_units :: "unicode \<Rightarrow> unicode list" where
  "split_sentence_units s = (case fold sentence_step s ([], []) of (units, current) \<Rightarrow>
     let rest = trim_chars current in if rest = [] then units else units @ [rest])"

fun char_step :: "nat \<Rightarrow> int \<Rightarrow> unicode list \<times> unicode \<Rightarrow> unicode list \<times> unicode" where
  "char_step max_chars ch (chunks, current) =
     (if length current \<ge> max_chars then (chunks @ [current], [ch]) else (chunks, current @ [ch]))"

definition split_long_text_by_char :: "unicode \<Rightarrow> nat \<Rightarrow> unicode list" where
  "split_long_text_by_char s max_chars = (case fold (char_step max_chars) s ([], []) of (chunks, current) \<Rightarrow>
     if current = [] then chunks else chunks @ [current])"

text \<open>The chunks so far and the one in progress; a test decides whether the latter is closed.\<close>

type_synonym chunk_state = "unicode list \<times> unicode"

fun push_current :: "(unicode \<Rightarrow> bool) \<Rightarrow> chunk_state \<Rightarrow> chunk_state" where
  "push_current full (chunks, current) =
     (if full current then (chunks @ [trim_chars current], []) else (chunks, current))"

abbreviation visible_text :: "unicode \<Rightarrow> bool" where
  "visible_text s \<equiv> trim_chars s \<noteq> []"

fun finish_chunks :: "chunk_state \<Rightarrow> unicode list" where
  "finish_chunks (chunks, current) = (if visible_text current then chunks @ [trim_chars current] else chunks)"

definition long_unit :: "nat \<Rightarrow> unicode \<Rightarrow> chunk_state \<Rightarrow> chunk_state" where
  "long_unit max_chars unit st =
     (if length unit > max_chars then
        (case push_current visible_text st of (chunks, current) \<Rightarrow>
          (chunks @ split_long_text_by_char unit max_chars, current))
      else
        (case push_current (\<lambda>current. length current + length unit > max_chars \<and> visible_text current) st of
          (chunks, current) \<Rightarrow> (chunks, current @ unit)))"

definition split_long_text :: "unicode \<Rightarrow> nat \<Rightarrow> unicode list" where
  "split_long_text s max_chars = (let units = split_sentence_units s in
     if length units > 1 then finish_chunks (fold (long_unit max_chars) units ([], []))
     else split_long_text_by_char s max_chars)"

section \<open>Paragraphs\<close>

fun flush_text_paragraph :: "unicode list \<times> unicode list \<Rightarrow> unicode list \<times> unicode list" where
  "flush_text_paragraph (paragraphs, current_lines) =
     (if current_lines = [] then (paragraphs, current_lines)
      else let paragraph = trim_chars (join_chars [10] current_lines) in
        (if paragraph = [] then paragraphs else paragraphs @ [paragraph], []))"

fun line_step :: "unicode \<Rightarrow> unicode list \<times> unicode list \<Rightarrow> unicode list \<times> unicode list" where
  "line_step raw_line (paragraphs, current_lines) = (let line = trim_chars raw_line in
     if line = [] then flush_text_paragraph (paragraphs, current_lines)
     else (paragraphs, current_lines @ [line]))"

definition split_text_paragraphs :: "unicode \<Rightarrow> unicode list" where
  "split_text_paragraphs s =
     fst (flush_text_paragraph (fold line_step (text_lines (without_nul s)) ([], [])))"

text \<open>
  One paragraph or block is added to the chunk in progress, with a blank line between; when it does not fit the chunk
  is closed, and when it is too long for any chunk it is split. \<open>occupied\<close> is the test before a
  split: the chunk is not empty, or not blank.
\<close>

definition add_unit :: "(unicode \<Rightarrow> bool) \<Rightarrow> nat \<Rightarrow> unicode \<Rightarrow> chunk_state \<Rightarrow> chunk_state" where
  "add_unit occupied max_chars unit st =
     (case push_current (\<lambda>current. length current + length unit + 2 > max_chars \<and> current \<noteq> []) st of
       (chunks, current) \<Rightarrow>
         if length unit > max_chars then
           (case push_current occupied (chunks, current) of (chunks', current') \<Rightarrow>
             (chunks' @ split_long_text unit max_chars, current'))
         else (chunks, (if current \<noteq> [] then current @ [10, 10] else current) @ unit))"

definition paragraph_step :: "nat \<Rightarrow> unicode \<Rightarrow> chunk_state \<Rightarrow> chunk_state" where
  "paragraph_step max_chars paragraph0 st = (let paragraph = trim_chars paragraph0 in
     if paragraph = [] then st else add_unit (\<lambda>current. current \<noteq> []) max_chars paragraph st)"

definition split_text_chunks :: "unicode \<Rightarrow> nat \<Rightarrow> unicode list" where
  "split_text_chunks s max_chars0 = (
     let max_chars = max max_chars0 1; paragraphs = split_text_paragraphs s in
     if paragraphs = [] then [] else finish_chunks (fold (paragraph_step max_chars) paragraphs ([], [])))"

section \<open>Sections\<close>

definition normalize_document_structure_text :: "unicode \<Rightarrow> unicode" where
  "normalize_document_structure_text v =
     join_chars [10] (filter (\<lambda>line. line \<noteq> []) (map trim_chars (text_lines (without_nul v))))"

definition is_digit :: "int \<Rightarrow> bool" where
  "is_digit c \<longleftrightarrow> 48 \<le> c \<and> c \<le> 57"

definition looks_like_synthetic_page_marker :: "unicode \<Rightarrow> bool" where
  "looks_like_synthetic_page_marker v \<longleftrightarrow> (
     let normalized = trim_chars (dropWhile (\<lambda>c. c = 35) (trim_chars v)); rest = drop 5 normalized in
     prefix (chars ''Page '') normalized \<and> rest \<noteq> [] \<and> list_all is_digit rest)"

definition looks_like_numbered_heading :: "unicode \<Rightarrow> bool" where
  "looks_like_numbered_heading v = (case v of
     [] \<Rightarrow> False
   | first # rest \<Rightarrow> is_digit first \<and> list_ex (\<lambda>c. c \<in> {46, 12289, 41}) (take 5 rest))"

definition looks_like_document_section_title :: "unicode \<Rightarrow> bool" where
  "looks_like_document_section_title paragraph = (
     let normalized = normalize_document_structure_text paragraph; char_count = length normalized in
     if looks_like_synthetic_page_marker normalized then False
     else char_count \<ge> 2 \<and> char_count \<le> 80 \<and>
       (prefix [35] normalized \<or> suffix [58] normalized \<or> suffix [65306] normalized \<or>
        looks_like_numbered_heading normalized))"

definition paragraph_matches_section_hint :: "unicode \<Rightarrow> unicode list \<Rightarrow> bool" where
  "paragraph_matches_section_hint paragraph0 section_hints = (
     let paragraph = normalize_document_structure_text paragraph0;
         first_line = (case text_lines paragraph of [] \<Rightarrow> [] | l # _ \<Rightarrow> trim_chars l) in
     list_ex (\<lambda>hint0. let hint = normalize_document_structure_text hint0 in
       hint \<noteq> [] \<and> (first_line = hint \<or> paragraph = hint \<or> prefix (chars ''# '' @ hint) paragraph \<or>
         prefix (chars ''## '' @ hint) paragraph \<or>
         (length paragraph \<le> length hint + 8 \<and> sublist hint paragraph))) section_hints)"

definition is_section_start :: "unicode list \<Rightarrow> unicode \<Rightarrow> bool" where
  "is_section_start section_hints paragraph \<longleftrightarrow>
     paragraph_matches_section_hint paragraph section_hints \<or> looks_like_document_section_title paragraph"

definition section_step :: "nat \<Rightarrow> unicode list \<Rightarrow> unicode \<Rightarrow> chunk_state \<Rightarrow> chunk_state" where
  "section_step max_chars section_hints paragraph0 st = (let paragraph = trim_chars paragraph0 in
     if paragraph = [] then st
     else add_unit (\<lambda>current. current \<noteq> []) max_chars paragraph
       (push_current (\<lambda>current. is_section_start section_hints paragraph \<and> visible_text current \<and>
          \<not> looks_like_synthetic_page_marker (trim_chars current)) st))"

definition split_text_chunks_with_section_hints :: "unicode \<Rightarrow> nat \<Rightarrow> unicode list \<Rightarrow> unicode list" where
  "split_text_chunks_with_section_hints s max_chars0 section_hints = (
     let max_chars = max max_chars0 1; paragraphs = split_text_paragraphs s in
     if paragraphs = [] then []
     else finish_chunks (fold (section_step max_chars section_hints) paragraphs ([], [])))"

section \<open>The blocks of a document structure\<close>

definition document_structure_blocks :: "json \<Rightarrow> json list" where
  "document_structure_blocks metadata = unwrap_or [] (Option.bind (Option.bind
     (json_get metadata ''document_structure'') (\<lambda>v. json_get v ''blocks'')) json_as_array)"

fun first_of :: "('a \<Rightarrow> 'b option) \<Rightarrow> 'a list \<Rightarrow> 'b option" where
  "first_of f [] = None"
| "first_of f (k # ks) = or_else (f k) (first_of f ks)"

definition document_structure_block_text :: "json \<Rightarrow> unicode option" where
  "document_structure_block_text block = first_of (\<lambda>key.
     Option.bind (Option.bind (json_get block key) json_as_str) (\<lambda>v.
       let normalized = normalize_document_structure_text (chars v) in
       if normalized = [] then None else Some (take 1200 normalized)))
     [''text'', ''content'', ''rec_text'', ''markdown'', ''html'']"

definition document_structure_block_type :: "json \<Rightarrow> string" where
  "document_structure_block_type block = unwrap_or [] (first_of (\<lambda>key.
     option_filter (\<lambda>v. v \<noteq> []) (map_option (\<lambda>v. to_ascii_lowercase (trim v))
       (Option.bind (json_get block key) json_as_str)))
     [''block_type'', ''type'', ''label'', ''category''])"

definition document_structure_block_is_title :: "json \<Rightarrow> bool" where
  "document_structure_block_is_title block = list_ex (contains_text (document_structure_block_type block))
     [''doc_title'', ''paragraph_title'', ''title'', ''header'', ''heading'', ''section_title'']"

definition block_step :: "nat \<Rightarrow> json \<Rightarrow> chunk_state \<Rightarrow> chunk_state" where
  "block_step max_chars block st = (case document_structure_block_text block of
     None \<Rightarrow> st
   | Some block_text \<Rightarrow>
       let is_title = document_structure_block_is_title block;
           unit = (if is_title then chars ''# '' @ block_text else block_text) in
       add_unit visible_text max_chars unit
         (push_current (\<lambda>current. is_title \<and> visible_text current) st))"

definition split_document_structure_block_chunks :: "json \<Rightarrow> nat \<Rightarrow> unicode list" where
  "split_document_structure_block_chunks metadata max_chars0 =
     finish_chunks (fold (block_step (max max_chars0 1)) (document_structure_blocks metadata) ([], []))"

definition push_unique_document_structure_hint :: "unicode list \<Rightarrow> unicode \<Rightarrow> nat \<Rightarrow> unicode list" where
  "push_unique_document_structure_hint output hint limit =
     (if length output \<ge> limit then output
      else let normalized = take 80 (trim_chars hint) in
        if normalized = [] \<or> normalized \<in> set output then output else output @ [normalized])"

definition document_structure_section_title_hints :: "json \<Rightarrow> nat \<Rightarrow> unicode list" where
  "document_structure_section_title_hints metadata limit = fold (\<lambda>block hints.
     if \<not> document_structure_block_is_title block then hints
     else (case document_structure_block_text block of
         None \<Rightarrow> hints
       | Some block_text \<Rightarrow> push_unique_document_structure_hint hints block_text limit))
     (document_structure_blocks metadata) []"

section \<open>The local processor\<close>

definition pdf_quality_char_is_meaningful :: "(int \<Rightarrow> bool) \<Rightarrow> int \<Rightarrow> bool" where
  "pdf_quality_char_is_meaningful is_alphanumeric ch \<longleftrightarrow>
     \<not> is_whitespace ch \<and> \<not> (ch < 32 \<or> 127 \<le> ch \<and> ch < 160) \<and> is_alphanumeric ch"

definition pdf_quality_text_chars :: "(int \<Rightarrow> bool) \<Rightarrow> unicode \<Rightarrow> nat" where
  "pdf_quality_text_chars is_alphanumeric s = length (filter (pdf_quality_char_is_meaningful is_alphanumeric) s)"

definition pdf_min_usable_text_chars :: "env \<Rightarrow> nat" where
  "pdf_min_usable_text_chars env = max 1 (unwrap_or 32 (Option.bind (env ''DOCUMENT_PDF_MIN_USABLE_TEXT_CHARS'')
     (\<lambda>v. case parse_u64 v of Inl _ \<Rightarrow> None | Inr n \<Rightarrow> Some (unat n))))"

definition structure_chunks_are_usable :: "(int \<Rightarrow> bool) \<Rightarrow> env \<Rightarrow> unicode list \<Rightarrow> unicode \<Rightarrow> bool" where
  "structure_chunks_are_usable is_alphanumeric env chunks original_text = (
     if chunks = [] then False
     else let structured_chars = sum_list (map (pdf_quality_text_chars is_alphanumeric) chunks);
              original_chars = pdf_quality_text_chars is_alphanumeric original_text;
              coverage_ok = structured_chars * 3 \<ge> min original_chars 12000 in
       if original_chars = 0 then structured_chars \<ge> pdf_min_usable_text_chars env
       else if length chunks > 1 then structured_chars \<ge> 8 \<and> coverage_ok
       else structured_chars \<ge> pdf_min_usable_text_chars env \<and> coverage_ok)"

record ExtractedDocumentText =
  xt_text :: unicode
  xt_method :: string
  xt_metadata :: json

definition split_extracted_document_chunks ::
    "(int \<Rightarrow> bool) \<Rightarrow> env \<Rightarrow> ExtractedDocumentText \<Rightarrow> nat \<Rightarrow> unicode list" where
  "split_extracted_document_chunks is_alphanumeric env extracted max_chars0 = (
     let max_chars = max max_chars0 1;
         section_hints = document_structure_section_title_hints (xt_metadata extracted) 128;
         structure_chunks = split_document_structure_block_chunks (xt_metadata extracted) max_chars in
     if section_hints = [] then split_text_chunks (xt_text extracted) max_chars
     else if length (split_text_paragraphs (xt_text extracted)) \<le> 1 \<and>
       structure_chunks_are_usable is_alphanumeric env structure_chunks (xt_text extracted)
     then structure_chunks
     else split_text_chunks_with_section_hints (xt_text extracted) max_chars section_hints)"

record IngestJob =
  ij_title :: string
  ij_object_key :: string
  ij_content_type :: string

record IngestOutcome =
  io_chunks :: "unicode list"
  io_inferred_title :: "string option"
  io_parse_method :: string
  io_extracted_chars :: nat
  io_used_placeholder :: bool
  io_metadata :: json

fun decimal :: "nat \<Rightarrow> unicode" where
  "decimal n = (if n < 10 then [48 + int n] else decimal (n div 10) @ [48 + int (n mod 10)])"

declare decimal.simps [simp del]

definition build_placeholder_outcome :: "IngestJob \<Rightarrow> IngestOutcome" where
  "build_placeholder_outcome job = (
     let chunk_count = (if contains_text (ij_content_type job) ''pdf'' then 12 else 4) in
     \<lparr>io_chunks = map (\<lambda>index. chars ''Placeholder extracted chunk '' @ decimal (index + 1) @ chars '' for '' @
          chars (ij_title job) @ chars '' ('' @ chars (ij_content_type job) @ chars '')'') [0..<chunk_count],
      io_inferred_title = None, io_parse_method = ''placeholder'', io_extracted_chars = 0,
      io_used_placeholder = True, io_metadata = JObject []\<rparr>)"

text \<open>\<open>extract\<close> is the result of \<open>extract_document_text\<close>; errors of it are all treated alike.\<close>

definition process_document ::
    "(int \<Rightarrow> bool) \<Rightarrow> env \<Rightarrow> ExtractedDocumentText option \<Rightarrow> IngestJob \<Rightarrow> IngestOutcome" where
  "process_document is_alphanumeric env extract job = (case option_filter (\<lambda>x. visible_text (xt_text x)) extract of
     Some extracted \<Rightarrow>
       \<lparr>io_chunks = split_extracted_document_chunks is_alphanumeric env extracted 1800,
        io_inferred_title = None, io_parse_method = xt_method extracted,
        io_extracted_chars = length (xt_text extracted), io_used_placeholder = False,
        io_metadata = xt_metadata extracted\<rparr>
   | None \<Rightarrow> build_placeholder_outcome job)"

definition chunk_count :: "IngestOutcome \<Rightarrow> 32 word" where
  "chunk_count outcome = of_nat (min (length (io_chunks outcome)) (2 ^ 32 - 1))"

fun value_at_path :: "json \<Rightarrow> string list \<Rightarrow> json option" where
  "value_at_path v [] = Some v"
| "value_at_path v (key # path) = Option.bind (json_get v key) (\<lambda>w. value_at_path w path)"

definition value_string_at_path :: "json \<Rightarrow> string list \<Rightarrow> string option" where
  "value_string_at_path v path =
     option_filter (\<lambda>s. s \<noteq> []) (map_option trim (Option.bind (value_at_path v path) json_as_str))"

definition parse_quality_status :: "IngestOutcome \<Rightarrow> string option" where
  "parse_quality_status outcome = value_string_at_path (io_metadata outcome) [''parse_quality'', ''status'']"

definition parse_status :: "IngestOutcome \<Rightarrow> string" where
  "parse_status outcome = (case value_string_at_path (io_metadata outcome) [''media'', ''parse_status''] of
     Some status \<Rightarrow> status
   | None \<Rightarrow>
      (case parse_quality_status outcome of
         Some status \<Rightarrow>
           if status = ''usable_text'' then ''parsed''
           else if status = ''vlm_fallback_used'' then ''parsed_with_vlm_fallback''
           else if status \<in> {''low_text_coverage'', ''low_text_coverage_fallback_unavailable''} then ''parse_degraded''
           else status
       | None \<Rightarrow>
           if io_used_placeholder outcome then ''placeholder''
           else if contains_text (io_parse_method outcome) ''vlm'' then ''parsed_with_vlm''
           else if suffix ''-empty'' (io_parse_method outcome) \<or> contains_text (io_parse_method outcome) ''+low-quality''
           then ''parse_degraded''
           else ''parsed''))"

definition cloud_structured_provider :: "IngestOutcome \<Rightarrow> string" where
  "cloud_structured_provider outcome = (if contains_text (io_parse_method outcome) ''vlm'' then ''minimax'' else [])"

section \<open>Visible characters\<close>

definition visible :: "unicode \<Rightarrow> unicode" where
  "visible s = filter (\<lambda>c. \<not> is_whitespace c) s"

lemma visible_simps [simp]:
  "visible [] = []" "visible (s @ t) = visible s @ visible t"
  "visible (c # s) = (if is_whitespace c then visible s else c # visible s)"
  by (simp_all add: visible_def)

lemma visible_rev: "visible (rev s) = rev (visible s)"
  by (simp add: visible_def rev_filter)

lemma visible_dropWhile [simp]: "visible (dropWhile is_whitespace s) = visible s"
  by (induction s) simp_all

lemma visible_trim [simp]: "visible (trim_chars s) = visible s"
  by (simp add: trim_chars_def visible_rev)

lemma visible_eq_Nil: "visible s = [] \<longleftrightarrow> list_all is_whitespace s"
  by (induction s) auto

lemma trim_eq_Nil [simp]: "trim_chars s = [] \<longleftrightarrow> visible s = []"
  by (simp add: trim_chars_def dropWhile_eq_Nil_conv visible_eq_Nil list_all_iff)
    (metis set_dropWhileD visible_dropWhile visible_eq_Nil list_all_iff dropWhile_eq_Nil_conv)

lemma length_trim: "length (trim_chars s) \<le> length s"
  unfolding trim_chars_def by (metis length_dropWhile_le length_rev le_trans)

lemma white_newline [simp]: "is_whitespace 10" "is_whitespace 13" "\<not> is_whitespace 35"
  by (simp_all add: is_whitespace_def WHITE_SPACE_def)

lemma visible_nul: "visible (without_nul s) = without_nul (visible s)"
  by (simp add: visible_def without_nul_def conj_commute)

lemma visible_strip_cr [simp]: "visible (strip_cr l) = visible l"
proof (cases "l \<noteq> [] \<and> List.last l = 13")
  case True
  then have "l = butlast l @ [13]"
    by (metis append_butlast_last_id)
  then show ?thesis
    using True by (metis strip_cr_def visible_simps append_Nil2 white_newline(2))
qed (auto simp: strip_cr_def)

lemma visible_char_lines: "visible (concat (char_lines l s)) = visible l @ visible s"
  by (induction s arbitrary: l) (simp_all add: visible_def [symmetric])

lemma visible_lines [simp]: "visible (concat (text_lines s)) = visible s"
  by (simp add: text_lines_def visible_char_lines)

lemma visible_join [simp]: "visible (join_chars sep xs) = (if visible sep = [] then visible (concat xs) else visible (join_chars sep xs))"
  by (induction sep xs rule: join_chars.induct) auto

section \<open>Chunks within their limit\<close>

text \<open>
  The chunks are between one character and the limit; the chunk in progress is within it and is
  empty or shows something.
\<close>

definition chunk_ok :: "nat \<Rightarrow> unicode \<Rightarrow> bool" where
  "chunk_ok n c \<longleftrightarrow> 1 \<le> length c \<and> length c \<le> n"

fun chunks_ok :: "nat \<Rightarrow> chunk_state \<Rightarrow> bool" where
  "chunks_ok n (chunks, current) \<longleftrightarrow> list_all (chunk_ok n) chunks \<and> length current \<le> n \<and>
     (current = [] \<or> visible current \<noteq> [])"

fun shown :: "chunk_state \<Rightarrow> unicode" where
  "shown (chunks, current) = visible (concat chunks) @ visible current"

lemma fold_shown:
  "(\<And>x st. x \<in> set xs \<Longrightarrow> shown (f x st) = shown st @ g x) \<Longrightarrow> shown (fold f xs st) = shown st @ concat (map g xs)"
  by (induction xs arbitrary: st) simp_all

lemma fold_chunks_ok:
  "chunks_ok n st \<Longrightarrow> (\<And>x st. x \<in> set xs \<Longrightarrow> chunks_ok n st \<Longrightarrow> chunks_ok n (f x st)) \<Longrightarrow> chunks_ok n (fold f xs st)"
  by (induction xs arbitrary: st) simp_all

lemma chunk_trim: "visible c \<noteq> [] \<Longrightarrow> length c \<le> n \<Longrightarrow> chunk_ok n (trim_chars c)"
  using length_trim [of c] by (auto simp: chunk_ok_def Suc_le_eq)

lemma push_current_shown [simp]: "shown (push_current full st) = shown st"
  by (cases st) simp

lemma push_current_ok:
  "chunks_ok n st \<Longrightarrow> (\<And>c. full c \<Longrightarrow> c \<noteq> []) \<Longrightarrow> chunks_ok n (push_current full st)"
  by (cases st) (auto intro: chunk_trim)

lemma finish_chunks_shown: "visible (concat (finish_chunks st)) = shown st"
  by (cases st) simp

lemma finish_chunks_ok: "chunks_ok n st \<Longrightarrow> list_all (chunk_ok n) (finish_chunks st)"
  by (cases st) (auto intro: chunk_trim)

text \<open>Pieces of a fixed number of characters.\<close>

lemma char_steps:
  assumes "0 < n"
  shows "list_all (chunk_ok n) chunks \<Longrightarrow> length current \<le> n \<Longrightarrow> fold (char_step n) s (chunks, current) = (chunks', current') \<Longrightarrow>
    list_all (chunk_ok n) chunks' \<and> length current' \<le> n \<and> concat chunks' @ current' = concat chunks @ current @ s"
proof (induction s arbitrary: chunks current)
  case (Cons c s)
  show ?case
  proof (cases "length current \<ge> n")
    case True
    then show ?thesis
      using Cons.IH [of "chunks @ [current]" "[c]"] Cons.prems assms by (auto simp: chunk_ok_def)
  next
    case False
    then show ?thesis
      using Cons.IH [of chunks "current @ [c]"] Cons.prems by auto
  qed
qed auto

lemma split_long_text_by_char_ok:
  assumes "0 < n"
  shows "list_all (chunk_ok n) (split_long_text_by_char s n)" and "concat (split_long_text_by_char s n) = s"
proof -
  obtain chunks current where c: "fold (char_step n) s ([], []) = (chunks, current)"
    by fastforce
  have "list_all (chunk_ok n) chunks \<and> length current \<le> n \<and> concat chunks @ current = s"
    using char_steps [OF assms _ _ c] by simp
  then show "list_all (chunk_ok n) (split_long_text_by_char s n)" and "concat (split_long_text_by_char s n) = s"
    by (auto simp: split_long_text_by_char_def c chunk_ok_def Suc_le_eq)
qed

text \<open>The sentences of a text.\<close>

lemma visible_concat: "concat (map visible us) = visible (concat us)"
  by (induction us) simp_all

lemma visible_singles: "concat (map (\<lambda>c. visible [c]) s) = visible s"
  by (induction s) auto

lemma sentence_step_shown: "shown (sentence_step ch st) = shown st @ visible [ch]"
  by (cases st) (auto simp: Let_def)

lemma sentence_steps_visible:
  "list_all (\<lambda>u. visible u \<noteq> []) (fst st) \<Longrightarrow> list_all (\<lambda>u. visible u \<noteq> []) (fst (fold sentence_step s st))"
proof (induction s arbitrary: st)
  case (Cons c s)
  have "list_all (\<lambda>u. visible u \<noteq> []) (fst (sentence_step c st))"
    using Cons.prems by (cases st) (auto simp: Let_def)
  then show ?case
    using Cons.IH by simp
qed simp

lemma split_sentence_units_ok:
  "list_all (\<lambda>u. visible u \<noteq> []) (split_sentence_units s)" "visible (concat (split_sentence_units s)) = visible s"
proof -
  obtain units current where u: "fold sentence_step s ([], []) = (units, current)"
    by fastforce
  have "list_all (\<lambda>u. visible u \<noteq> []) units"
    using sentence_steps_visible [of "([], [])" s] by (simp add: u)
  moreover have "visible (concat units) @ visible current = visible s"
    using fold_shown [where f = sentence_step and g = "\<lambda>c. visible [c]" and st = "([], [])" and xs = s]
    by (simp only: sentence_step_shown u shown.simps visible_singles) simp
  ultimately show "list_all (\<lambda>u. visible u \<noteq> []) (split_sentence_units s)"
    and "visible (concat (split_sentence_units s)) = visible s"
    by (auto simp: split_sentence_units_def u Let_def)
qed

lemma long_unit_shown: "0 < n \<Longrightarrow> shown (long_unit n unit st) = shown st @ visible unit"
  by (cases st) (auto simp: long_unit_def split_long_text_by_char_ok)

lemma long_unit_ok:
  assumes "0 < n" and "chunks_ok n st" and "visible unit \<noteq> []"
  shows "chunks_ok n (long_unit n unit st)"
proof (cases st)
  case (Pair chunks current)
  then show ?thesis
    using assms split_long_text_by_char_ok(1) [of n unit]
    by (auto simp: long_unit_def intro: chunk_trim)
qed

lemma split_long_text_ok:
  assumes "0 < n"
  shows "list_all (chunk_ok n) (split_long_text s n)" and "visible (concat (split_long_text s n)) = visible s"
proof -
  let ?units = "split_sentence_units s"
  have "chunks_ok n (fold (long_unit n) ?units ([], []))"
    using split_sentence_units_ok(1) [of s] long_unit_ok [OF assms]
    by (intro fold_chunks_ok) (auto simp: list_all_iff)
  moreover have "shown (fold (long_unit n) ?units ([], [])) = concat (map visible ?units)"
    using fold_shown [where f = "long_unit n" and g = visible and st = "([], [])" and xs = ?units] long_unit_shown [OF assms]
    by simp
  ultimately show "list_all (chunk_ok n) (split_long_text s n)" and "visible (concat (split_long_text s n)) = visible s"
    using split_long_text_by_char_ok [OF assms] split_sentence_units_ok(2) [of s]
    by (simp_all add: split_long_text_def finish_chunks_ok finish_chunks_shown Let_def visible_concat)
qed

lemma add_unit_shown:
  assumes "0 < n" and "\<And>c. visible c \<noteq> [] \<Longrightarrow> occupied c"
  shows "shown (add_unit occupied n unit st) = shown st @ visible unit"
  using assms by (cases st) (auto simp: add_unit_def split_long_text_ok)

lemma add_unit_ok:
  assumes "0 < n" and "chunks_ok n st" and "visible unit \<noteq> []" and "\<And>c. occupied c \<Longrightarrow> c \<noteq> []"
  shows "chunks_ok n (add_unit occupied n unit st)"
proof (cases st)
  case (Pair chunks current)
  then show ?thesis
    using assms split_long_text_ok(1) [of n unit]
    by (auto simp: add_unit_def intro: chunk_trim)
qed

section \<open>Paragraphs and the splitters\<close>

fun shown_lines :: "unicode list \<times> unicode list \<Rightarrow> unicode" where
  "shown_lines (paragraphs, lines) = visible (concat paragraphs) @ visible (concat lines)"

lemma flush_shown: "shown_lines (flush_text_paragraph st) = shown_lines st"
  by (cases st) (auto simp: Let_def)

lemma line_step_shown: "shown_lines (line_step l st) = shown_lines st @ visible l"
proof (cases st)
  case (Pair paragraphs lines)
  then show ?thesis
    using flush_shown [of "(paragraphs, lines)"] by (auto simp: Let_def simp del: flush_text_paragraph.simps)
qed

lemma fold_line_step_shown: "shown_lines (fold line_step ls st) = shown_lines st @ visible (concat ls)"
  by (induction ls arbitrary: st) (simp_all add: line_step_shown)

lemma flush_lines: "snd (flush_text_paragraph st) = []"
  by (cases st) (simp add: Let_def)

lemma split_text_paragraphs_shown: "visible (concat (split_text_paragraphs s)) = without_nul (visible s)"
proof -
  let ?st = "flush_text_paragraph (fold line_step (text_lines (without_nul s)) ([], []))"
  have "shown_lines ?st = without_nul (visible s)"
    by (simp only: flush_shown fold_line_step_shown) (simp add: visible_nul)
  then show ?thesis
    using flush_lines [of "fold line_step (text_lines (without_nul s)) ([], [])"]
    by (cases ?st) (simp add: split_text_paragraphs_def)
qed

lemma trim_trim_chars: "visible (trim_chars p) = [] \<longleftrightarrow> trim_chars p = []"
  by simp

lemma add_paragraph_shown: "0 < n \<Longrightarrow> shown (add_unit (\<lambda>c. c \<noteq> []) n unit st) = shown st @ visible unit"
  by (rule add_unit_shown) auto

lemma paragraph_step_shown: "0 < n \<Longrightarrow> shown (paragraph_step n p st) = shown st @ visible p"
  by (auto simp: paragraph_step_def Let_def add_paragraph_shown)

lemma paragraph_step_ok: "0 < n \<Longrightarrow> chunks_ok n st \<Longrightarrow> chunks_ok n (paragraph_step n p st)"
  by (auto simp: paragraph_step_def Let_def intro: add_unit_ok)

lemma section_step_shown: "0 < n \<Longrightarrow> shown (section_step n hints p st) = shown st @ visible p"
  by (auto simp: section_step_def Let_def add_paragraph_shown)

lemma section_step_ok: "0 < n \<Longrightarrow> chunks_ok n st \<Longrightarrow> chunks_ok n (section_step n hints p st)"
  by (auto simp: section_step_def Let_def intro!: add_unit_ok push_current_ok)

lemma fold_visible:
  assumes "\<And>x st. shown (f x st) = shown st @ visible x"
  shows "shown (fold f xs ([], [])) = visible (concat xs)"
  using fold_shown [of xs f visible "([], [])"] assms by (simp add: visible_concat)

text \<open>A hint or title begins with something visible, so a block is never blank.\<close>

lemma join_first: "xs \<noteq> [] \<Longrightarrow> hd xs \<noteq> [] \<Longrightarrow> \<exists>ys. join_chars sep xs = hd xs @ ys"
  by (cases xs rule: list.exhaust; cases "tl xs") auto

lemma trim_first: "trim_chars s \<noteq> [] \<Longrightarrow> \<exists>c t. trim_chars s = c # t \<and> \<not> is_whitespace c"
proof -
  let ?d = "dropWhile is_whitespace s"
  assume "trim_chars s \<noteq> []"
  then have "?d \<noteq> []"
    unfolding trim_chars_def by (metis dropWhile.simps(1) rev.simps(1))
  then obtain c t where d: "?d = c # t" "\<not> is_whitespace c"
    by (metis hd_dropWhile list.collapse)
  then have "trim_chars s = rev (dropWhile is_whitespace (rev t @ [c]))"
    by (simp add: trim_chars_def)
  also have "\<dots> = c # rev (dropWhile is_whitespace (rev t))"
    using d(2) by (simp add: dropWhile_append)
  finally show ?thesis
    using d(2) by blast
qed

lemma normalized_visible:
  assumes "normalize_document_structure_text v \<noteq> []"
  shows "visible (take (Suc n) (normalize_document_structure_text v)) \<noteq> []"
proof -
  let ?ls = "filter (\<lambda>line. line \<noteq> []) (map trim_chars (text_lines (without_nul v)))"
  have ls: "?ls \<noteq> []"
    using assms by (auto simp: normalize_document_structure_text_def)
  then have "hd ?ls \<in> set ?ls"
    by (rule hd_in_set)
  then obtain s where "hd ?ls = trim_chars s" "trim_chars s \<noteq> []"
    by auto
  then obtain c t where c: "hd ?ls = c # t" "\<not> is_whitespace c"
    using trim_first by metis
  then obtain ys where "normalize_document_structure_text v = (c # t) @ ys"
    using join_first [OF ls] by (auto simp: normalize_document_structure_text_def)
  then show ?thesis
    using c(2) by simp
qed

lemma first_of_SomeD: "first_of f ks = Some x \<Longrightarrow> \<exists>k \<in> set ks. f k = Some x"
  by (induction ks) (auto simp: or_else_def split: option.splits)

lemma block_text_visible: "document_structure_block_text block = Some s \<Longrightarrow> visible s \<noteq> []"
  unfolding document_structure_block_text_def
  by (drule first_of_SomeD)
    (use normalized_visible [of _ 1199] in \<open>auto simp: Let_def bind_eq_Some_conv split: if_splits\<close>)

lemma block_step_ok: "0 < n \<Longrightarrow> chunks_ok n st \<Longrightarrow> chunks_ok n (block_step n block st)"
  by (auto simp: block_step_def Let_def block_text_visible split: option.splits
      intro!: add_unit_ok push_current_ok)

text \<open>C21: no chunk is too long. Whatever a document contains and however its structure was read, each of its
  chunks has at least one character and at most the limit asked for (one, if the limit is zero).\<close>

theorem chunks_bounded:
  "list_all (\<lambda>chunk. 1 \<le> length chunk \<and> length chunk \<le> max max_chars 1)
     (split_extracted_document_chunks is_alphanumeric env extracted max_chars)"
proof -
  let ?n = "max max_chars 1"
  have n: "0 < ?n"
    by simp
  have "list_all (chunk_ok ?n) (split_text_chunks s ?n)" for s
    using paragraph_step_ok [OF n] by (simp add: finish_chunks_ok fold_chunks_ok split_text_chunks_def Let_def)
  moreover have "list_all (chunk_ok ?n) (split_text_chunks_with_section_hints s ?n hints)" for s hints
    using section_step_ok [OF n] by (simp add: finish_chunks_ok fold_chunks_ok split_text_chunks_with_section_hints_def Let_def)
  moreover have "list_all (chunk_ok ?n) (split_document_structure_block_chunks metadata ?n)" for metadata
    using block_step_ok [OF n] by (simp add: finish_chunks_ok fold_chunks_ok split_document_structure_block_chunks_def)
  ultimately show ?thesis
    by (simp add: split_extracted_document_chunks_def Let_def chunk_ok_def [abs_def])
qed

lemma chunks_shown:
  "visible (concat (split_text_chunks s max_chars)) = without_nul (visible s)"
  "visible (concat (split_text_chunks_with_section_hints s max_chars section_hints)) = without_nul (visible s)"
proof -
  let ?ps = "split_text_paragraphs s"
  have n: "0 < max max_chars 1"
    by simp
  have "?ps = [] \<Longrightarrow> without_nul (visible s) = []"
    using split_text_paragraphs_shown [of s] by simp
  moreover have "visible (concat (finish_chunks (fold (paragraph_step (max max_chars 1)) ?ps ([], [])))) = without_nul (visible s)"
    by (simp only: finish_chunks_shown fold_visible [OF paragraph_step_shown [OF n]] split_text_paragraphs_shown)
  moreover have "visible (concat (finish_chunks (fold (section_step (max max_chars 1) section_hints) ?ps ([], [])))) = without_nul (visible s)"
    by (simp only: finish_chunks_shown fold_visible [OF section_step_shown [OF n]] split_text_paragraphs_shown)
  ultimately show "visible (concat (split_text_chunks s max_chars)) = without_nul (visible s)"
    and "visible (concat (split_text_chunks_with_section_hints s max_chars section_hints)) = without_nul (visible s)"
    by (simp_all add: split_text_chunks_def split_text_chunks_with_section_hints_def Let_def)
qed


text \<open>a document that shows something is indexed. When the parsers give a text with a visible character
  that is not null, the local processor does not fall back to placeholders and gives at least one chunk.\<close>

theorem processed_document_has_chunks:
  assumes "extract = Some extracted" and "without_nul (visible (xt_text extracted)) \<noteq> []"
  shows "io_chunks (process_document is_alphanumeric env extract job) \<noteq> [] \<and>
    \<not> io_used_placeholder (process_document is_alphanumeric env extract job)"
proof -
  let ?s = "xt_text extracted"
  have "visible ?s \<noteq> []"
    using assms(2) by (auto simp: without_nul_def)
  moreover have "split_text_chunks ?s n \<noteq> []" for n
    using chunks_shown(1) [of ?s n] assms(2) by auto
  moreover have "split_text_chunks_with_section_hints ?s n hints \<noteq> []" for n hints
    using chunks_shown(2) [of ?s n hints] assms(2) by auto
  moreover have "\<not> structure_chunks_are_usable is_alphanumeric env [] t" for t
    by (auto simp: structure_chunks_are_usable_def)
  ultimately show ?thesis
    using assms(1) by (auto simp: process_document_def split_extracted_document_chunks_def Let_def)
qed

definition sample_extracted :: ExtractedDocumentText where
  "sample_extracted = \<lparr>xt_text = chars ''Hi'', xt_method = ''local-text.txt'', xt_metadata = JObject []\<rparr>"

theorem processed_document_has_chunks_witness:
  "io_chunks (process_document (\<lambda>_. True) (\<lambda>_. None) (Some sample_extracted)
     \<lparr>ij_title = ''t'', ij_object_key = ''a.txt'', ij_content_type = ''text/plain''\<rparr>) \<noteq> []"
proof -
  have "without_nul (visible (xt_text sample_extracted)) \<noteq> []"
    by code_simp
  from processed_document_has_chunks [OF refl this] show ?thesis
    by simp
qed

section \<open>Where sections begin\<close>

fun prepend_chunks :: "unicode list \<Rightarrow> chunk_state \<Rightarrow> chunk_state" where
  "prepend_chunks before (chunks, current) = (before @ chunks, current)"

lemma push_current_prepend: "push_current full (prepend_chunks before st) = prepend_chunks before (push_current full st)"
  by (cases st) simp

lemma add_unit_prepend:
  "add_unit occupied n unit (prepend_chunks before st) = prepend_chunks before (add_unit occupied n unit st)"
  by (cases st) (simp add: add_unit_def)

lemma section_step_prepend:
  "section_step n hints p (prepend_chunks before st) = prepend_chunks before (section_step n hints p st)"
  by (simp add: section_step_def Let_def push_current_prepend add_unit_prepend)

lemma fold_section_step_prepend:
  "fold (section_step n hints) ps (prepend_chunks before st) = prepend_chunks before (fold (section_step n hints) ps st)"
  by (induction ps arbitrary: st) (simp_all add: section_step_prepend)

lemma finish_chunks_prepend: "finish_chunks (prepend_chunks before st) = before @ finish_chunks st"
  by (cases st) simp

text \<open>C24: a section begins a chunk. When a paragraph is one of the section titles of the document or looks like a title,
  the paragraphs before it and those from it on are chunked as if they were two texts, unless the
  chunk in progress is only the marker of a page, which stays with its section.\<close>

theorem section_starts_chunk:
  assumes "0 < n" and "visible p \<noteq> []" and "is_section_start hints (trim_chars p)"
    and "\<not> looks_like_synthetic_page_marker (trim_chars (snd (fold (section_step n hints) ps ([], []))))"
  shows "finish_chunks (fold (section_step n hints) (ps @ p # qs) ([], [])) =
    finish_chunks (fold (section_step n hints) ps ([], [])) @
    finish_chunks (fold (section_step n hints) (p # qs) ([], []))"
proof -
  obtain chunks current where st: "fold (section_step n hints) ps ([], []) = (chunks, current)"
    by fastforce
  have "chunks_ok n (fold (section_step n hints) ps ([], []))"
    by (rule fold_chunks_ok) (simp_all add: section_step_ok assms(1))
  then have "current = [] \<or> visible current \<noteq> []"
    by (simp add: st)
  then have "section_step n hints p (chunks, current) =
      prepend_chunks (finish_chunks (chunks, current)) (section_step n hints p ([], []))"
    using assms(2-4) add_unit_prepend [of "\<lambda>c. c \<noteq> []" n "trim_chars p" "finish_chunks (chunks, current)" "([], [])"]
    by (auto simp: section_step_def st)
  then show ?thesis
    by (simp add: st fold_section_step_prepend finish_chunks_prepend del: finish_chunks.simps)
qed

theorem section_starts_chunk_witness:
  "finish_chunks (fold (section_step 20 [chars ''Intro'']) [chars ''Hello'', chars ''Intro'', chars ''World''] ([], [])) =
   [chars ''Hello'', chars ''Intro'' @ [10, 10] @ chars ''World'']"
proof -
  have h: "0 < (20 :: nat)" "visible (chars ''Intro'') \<noteq> []" "is_section_start [chars ''Intro''] (trim_chars (chars ''Intro''))"
    "\<not> looks_like_synthetic_page_marker (trim_chars (snd (fold (section_step 20 [chars ''Intro'']) [chars ''Hello''] ([], []))))"
    by code_simp+
  have "finish_chunks (fold (section_step 20 [chars ''Intro'']) [chars ''Hello''] ([], [])) = [chars ''Hello'']"
    and "finish_chunks (fold (section_step 20 [chars ''Intro'']) [chars ''Intro'', chars ''World''] ([], [])) =
      [chars ''Intro'' @ [10, 10] @ chars ''World'']"
    by code_simp+
  then show ?thesis
    using section_starts_chunk [OF h, of "[chars ''World'']"] by simp
qed

text \<open>
  What the splitters do not keep: between two sentences of a paragraph that is too long the white space is
  lost, and a piece that is cut out of a run of white space is a blank chunk.
\<close>

lemma sentence_spaces_lost:
  "split_text_chunks (chars ''Yes! No! Maybe so'') 10 = [chars ''Yes!No!'', chars ''Maybe so'']"
  by code_simp

lemma blank_chunk:
  "split_text_chunks (chars ''abc       xyz'') 4 = [chars ''abc '', chars ''    '', chars ''  xy'', chars ''z'']"
  by code_simp

end
