(* ===== verification/Ingest_Sources.thy ===== *)
theory Ingest_Sources
  imports Text_Chunks
begin

text \<open>
  Where the text of a document comes from (\<open>src/crates/ingest-worker/src/lib.rs\<close>): the choice of a parser by
  extension and content type, the guards of remote media with the download into a cache, and the clean-up
  of marked-up text. \<open>Url::parse\<close> is a parameter that gives the parts of a URL the code reads; the HTTP
  client gives for a URL the redirects it has followed and an answer whose body arrives in pieces; files
  are a map from paths to contents, and every operation on them may fail; the parsers, which run external programs, are the fields of a record.
  \<open>IpAddr::from_str\<close> of the standard library is written out.
\<close>

section \<open>Extensions\<close>

definition REMOTE_EXTENSIONS :: "string list" where
  "REMOTE_EXTENSIONS = [''.mp4'', ''.mov'', ''.m4v'', ''.webm'', ''.mkv'', ''.avi'', ''.mpeg'', ''.mpg'', ''.mp3'',
     ''.wav'', ''.m4a'', ''.aac'', ''.flac'', ''.ogg'', ''.opus'']"

definition infer_extension_from_content_type :: "string \<Rightarrow> string" where
  "infer_extension_from_content_type content_type = (
     let lower = to_ascii_lowercase content_type; has = contains_text lower in
     if has ''markdown'' then ''.md''
     else if has ''csv'' then ''.csv''
     else if has ''json'' then ''.json''
     else if has ''html'' \<or> has ''xml'' then ''.html''
     else if has ''pdf'' then ''.pdf''
     else if has ''jpeg'' \<or> has ''jpg'' then ''.jpg''
     else if has ''png'' then ''.png''
     else if has ''webp'' then ''.webp''
     else if has ''mp3'' \<or> has ''mpeg'' then ''.mp3''
     else if has ''wav'' then ''.wav''
     else if has ''mp4'' then ''.mp4''
     else if has ''quicktime'' then ''.mov''
     else if prefix ''audio/'' lower then ''.mp3''
     else if prefix ''video/'' lower then ''.mp4''
     else if prefix ''image/'' lower then ''.png''
     else if prefix ''text/'' lower then ''.txt''
     else [])"

definition is_direct_text_extension :: "string \<Rightarrow> bool" where
  "is_direct_text_extension extension \<longleftrightarrow>
     extension \<in> {''.txt'', ''.md'', ''.csv'', ''.json'', ''.html'', ''.htm'', ''.xml''}"

definition is_image_extension :: "string \<Rightarrow> bool" where
  "is_image_extension extension \<longleftrightarrow>
     extension \<in> {''.png'', ''.jpg'', ''.jpeg'', ''.webp'', ''.bmp'', ''.tif'', ''.tiff'', ''.gif''}"

definition is_audio_extension :: "string \<Rightarrow> bool" where
  "is_audio_extension extension \<longleftrightarrow>
     extension \<in> {''.mp3'', ''.wav'', ''.m4a'', ''.aac'', ''.flac'', ''.ogg'', ''.opus''}"

definition is_video_extension :: "string \<Rightarrow> bool" where
  "is_video_extension extension \<longleftrightarrow>
     extension \<in> {''.mp4'', ''.mov'', ''.mkv'', ''.webm'', ''.avi'', ''.mpeg'', ''.mpg''}"

record url =
  url_scheme :: string
  url_host :: "string option"
  url_path :: string
  url_text :: string

type_synonym url_parser = "string \<Rightarrow> (url, string) result"

definition extension_from_remote_url :: "url_parser \<Rightarrow> string \<Rightarrow> string option" where
  "extension_from_remote_url parse_url u = (case parse_url u of
     Inl _ \<Rightarrow> None
   | Inr parsed \<Rightarrow> let path = to_ascii_lowercase (url_path parsed) in
       find (\<lambda>extension. suffix extension path) REMOTE_EXTENSIONS)"

definition is_remote_media_object_key :: "url_parser \<Rightarrow> string \<Rightarrow> string \<Rightarrow> bool" where
  "is_remote_media_object_key parse_url object_key content_type = (let raw = trim object_key in
     if \<not> (prefix ''http://'' raw \<or> prefix ''https://'' raw) then False
     else let extension = unwrap_or (infer_extension_from_content_type content_type)
                (extension_from_remote_url parse_url raw) in
       is_audio_extension extension \<or> is_video_extension extension)"

section \<open>Addresses\<close>

text \<open>The parser of the standard library: a number of at most so many digits, a separator, four
  octets, or eight groups of which \<open>::\<close> leaves some out.\<close>

datatype ip = V4 nat nat nat nat | V6 "nat list"

definition digit_value :: "char \<Rightarrow> nat" where
  "digit_value c = (let n = of_char c :: nat in
     if 48 \<le> n \<and> n \<le> 57 then n - 48
     else if 97 \<le> n \<and> n \<le> 122 then n - 87
     else if 65 \<le> n \<and> n \<le> 90 then n - 55 else 36)"

definition read_number :: "nat \<Rightarrow> nat \<Rightarrow> bool \<Rightarrow> nat \<Rightarrow> string \<Rightarrow> (nat \<times> string) option" where
  "read_number radix max_digits allow_zero_prefix limit s = (
     let digits = takeWhile (\<lambda>c. digit_value c < radix) s;
         n = foldl (\<lambda>n c. n * radix + digit_value c) 0 digits in
     if digits = [] \<or> max_digits < length digits then None
     else if \<not> allow_zero_prefix \<and> hd digits = CHR ''0'' \<and> 1 < length digits then None
     else if limit < n then None
     else Some (n, drop (length digits) s))"

definition read_char :: "char \<Rightarrow> string \<Rightarrow> string option" where
  "read_char c s = (case s of [] \<Rightarrow> None | d # t \<Rightarrow> if d = c then Some t else None)"

definition read_separator :: "char \<Rightarrow> nat \<Rightarrow> string \<Rightarrow> string option" where
  "read_separator c index s = (if index > 0 then read_char c s else Some s)"

definition read_octet :: "nat \<Rightarrow> string \<Rightarrow> (nat \<times> string) option" where
  "read_octet index s = Option.bind (read_separator (CHR ''.'') index s) (read_number 10 3 False 255)"

definition read_ipv4_addr :: "string \<Rightarrow> ((nat \<times> nat \<times> nat \<times> nat) \<times> string) option" where
  "read_ipv4_addr s0 = Option.bind (read_octet 0 s0) (\<lambda>(a, s1). Option.bind (read_octet 1 s1) (\<lambda>(b, s2).
     Option.bind (read_octet 2 s2) (\<lambda>(c, s3). Option.bind (read_octet 3 s3) (\<lambda>(d, s4). Some ((a, b, c, d), s4)))))"

text \<open>Up to so many groups from the given index on; whether the last two were written as an address of
  version 4; and the rest.\<close>

fun read_groups :: "nat \<Rightarrow> nat \<Rightarrow> string \<Rightarrow> nat list \<times> bool \<times> string" where
  "read_groups 0 index s = ([], False, s)"
| "read_groups (Suc k) index s =
     (case (if 0 < k then Option.bind (read_separator (CHR '':'') index s) read_ipv4_addr else None) of
        Some ((a, b, c, d), rest) \<Rightarrow> ([a * 256 + b, c * 256 + d], True, rest)
      | None \<Rightarrow>
          (case Option.bind (read_separator (CHR '':'') index s) (read_number 16 4 True 65535) of
             Some (g, rest) \<Rightarrow> (case read_groups k (index + 1) rest of (gs, v4, rest') \<Rightarrow> (g # gs, v4, rest'))
           | None \<Rightarrow> ([], False, s)))"

definition read_ipv6_addr :: "string \<Rightarrow> (nat list \<times> string) option" where
  "read_ipv6_addr s = (case read_groups 8 0 s of (front, v4, rest) \<Rightarrow>
     if length front = 8 then Some (front, rest)
     else if v4 then None
     else Option.bind (Option.bind (read_char (CHR '':'') rest) (read_char (CHR '':''))) (\<lambda>rest'.
       case read_groups (7 - length front) 0 rest' of (back, _, rest'') \<Rightarrow>
         Some (front @ replicate (8 - length front - length back) 0 @ back, rest'')))"

definition parse_ip :: "string \<Rightarrow> ip option" where
  "parse_ip s = (case read_ipv4_addr s of
     Some ((a, b, c, d), rest) \<Rightarrow> if rest = [] then Some (V4 a b c d) else None
   | None \<Rightarrow>
       (case read_ipv6_addr s of
          Some (groups, rest) \<Rightarrow> if rest = [] then Some (V6 groups) else None
        | None \<Rightarrow> None))"

text \<open>The classes of addresses of \<open>std::net\<close>.\<close>

definition is_private4 :: "nat \<Rightarrow> nat \<Rightarrow> bool" where
  "is_private4 a b \<longleftrightarrow> a = 10 \<or> a = 172 \<and> 16 \<le> b \<and> b \<le> 31 \<or> a = 192 \<and> b = 168"

definition is_documentation4 :: "nat \<Rightarrow> nat \<Rightarrow> nat \<Rightarrow> bool" where
  "is_documentation4 a b c \<longleftrightarrow> (a, b, c) \<in> {(192, 0, 2), (198, 51, 100), (203, 0, 113)}"

fun ip_allowed :: "ip \<Rightarrow> bool" where
  "ip_allowed (V4 a b c d) \<longleftrightarrow>
     \<not> (is_private4 a b \<or> a = 127 \<or> a = 169 \<and> b = 254 \<or> (a, b, c, d) = (255, 255, 255, 255) \<or>
        is_documentation4 a b c \<or> a = 0)"
| "ip_allowed (V6 groups) \<longleftrightarrow>
     \<not> (groups = [0, 0, 0, 0, 0, 0, 0, 1] \<or> groups = replicate 8 0 \<or> hd groups div 512 = 126)"

definition trim_brackets :: "string \<Rightarrow> string" where
  "trim_brackets s = (let bracket = (\<lambda>c. c \<in> set ''[]'') in rev (dropWhile bracket (rev (dropWhile bracket s))))"

definition remote_media_host_allowed :: "string \<Rightarrow> bool" where
  "remote_media_host_allowed host = (let lower = to_ascii_lowercase (trim_brackets (trim host)) in
     if lower = [] \<or> lower = ''localhost'' \<or> suffix ''.localhost'' lower \<or> suffix ''.local'' lower then False
     else (case parse_ip lower of Some address \<Rightarrow> ip_allowed address | None \<Rightarrow> True))"

section \<open>Remote media\<close>

datatype io_error_kind = PermissionDenied | InvalidInput | InvalidData | NotFound | Unsupported | TimedOut | Other

type_synonym io_error = "io_error_kind \<times> string"

definition validate_remote_media_url :: "url_parser \<Rightarrow> url \<Rightarrow> string \<Rightarrow> (unit, io_error) result" where
  "validate_remote_media_url parse_url u content_type = (
     if url_scheme u \<notin> {''http'', ''https''}
     then Err (InvalidInput, ''remote media url must use http or https'')
     else if \<not> remote_media_host_allowed (unwrap_or [] (url_host u))
     then Err (PermissionDenied, ''remote media host is not allowed'')
     else let lower = to_ascii_lowercase (url_text u) in
       if contains_text lower ''weixin.qq.com/sph/'' \<or> contains_text lower ''channels.weixin.qq.com/sph/''
       then Err (PermissionDenied, ''login-gated media sources are not supported'')
       else let extension = unwrap_or (infer_extension_from_content_type content_type)
                  (extension_from_remote_url parse_url (url_text u)) in
         if \<not> (is_audio_extension extension \<or> is_video_extension extension)
         then Err (InvalidInput, ''remote media url must point to an audio or video file'')
         else Ok ())"

definition remote_media_response_type_allowed :: "string \<Rightarrow> bool" where
  "remote_media_response_type_allowed response_type = (
     let media_type = to_ascii_lowercase (trim (hd (split_char (CHR '';'') response_type))) in
     media_type = [] \<or> prefix ''audio/'' media_type \<or> prefix ''video/'' media_type \<or>
     media_type = ''application/octet-stream'')"

text \<open>An answer: whether its status is a success with its text, the declared length, the content type when
  it is readable text, and the pieces the body is read in, up to the first error.\<close>

record http_response =
  hr_success :: bool
  hr_status :: string
  hr_content_length :: "nat option"
  hr_content_type :: "string option"
  hr_body :: "(string, io_error) result list"

definition validate_remote_media_response_type :: "http_response \<Rightarrow> (unit, io_error) result" where
  "validate_remote_media_response_type response =
     (if remote_media_response_type_allowed (to_ascii_lowercase (unwrap_or [] (hr_content_type response))) then Ok ()
      else Err (InvalidData, ''remote response is not a media content type''))"

text \<open>What the download meets outside: the directory of the cache is created, the client is built, a URL is
  sent (the client follows redirects by itself, as \<open>reqwest\<close> does unless told not to, and the code does
  not: the URLs it was sent on to come with the answer), the temporary file is created, the \<open>n\<close>-th
  piece is written or only its first \<open>k\<close> bytes are, the file is flushed and renamed.\<close>

record media_io =
  mi_create_dir :: "(unit, io_error) result"
  mi_client :: "(unit, io_error) result"
  mi_send :: "url \<Rightarrow> url list \<times> (http_response, io_error) result"
  mi_create_file :: "(unit, io_error) result"
  mi_write :: "nat \<Rightarrow> (nat \<times> io_error) option"
  mi_flush :: "(unit, io_error) result"
  mi_rename :: "(unit, io_error) result"

text \<open>The loop of the download from its \<open>n\<close>-th piece on: what was written, and the error it ended with.\<close>

fun download :: "(nat \<Rightarrow> (nat \<times> io_error) option) \<Rightarrow> nat \<Rightarrow> nat \<Rightarrow> string \<Rightarrow>
    (string, io_error) result list \<Rightarrow> string \<times> io_error option" where
  "download wr max_bytes n written [] = (written, None)"
| "download wr max_bytes n written (Inl e # reads) = (written, Some e)"
| "download wr max_bytes n written (Inr buffer # reads) =
     (if buffer = [] then (written, None)
      else if length written + length buffer > max_bytes
      then (written, Some (InvalidData, ''remote media exceeds max allowed bytes''))
      else case wr n of
        Some (k, e) \<Rightarrow> (written @ take k buffer, Some e)
      | None \<Rightarrow> download wr max_bytes (Suc n) (written @ buffer) reads)"

type_synonym files = "string \<Rightarrow> string option"

text \<open>\<open>env_flag\<close> and \<open>env_u64\<close> of this crate; the former knows one word more than the gateway's.\<close>

definition ingest_env_flag :: "env \<Rightarrow> string \<Rightarrow> bool \<Rightarrow> bool" where
  "ingest_env_flag env key default_value = unwrap_or default_value (map_option (\<lambda>v.
     to_ascii_lowercase (trim v) \<in> {''1'', ''true'', ''yes'', ''on'', ''enabled''}) (env key))"

definition env_u64 :: "env \<Rightarrow> string \<Rightarrow> 64 word \<Rightarrow> 64 word" where
  "env_u64 env key default_value = unwrap_or default_value (Option.bind (env key)
     (\<lambda>v. case parse_u64 (trim v) of Inl _ \<Rightarrow> None | Inr n \<Rightarrow> Some n))"

text \<open>
  \<open>cache_path url extension\<close> and \<open>temp_path url extension\<close> are the names of the two files in the directory
  of the cache, the latter with a new UUID. The result comes with the files and the URLs requested: a
  temporary file that is created stays when a later step fails.
\<close>

definition fetch_remote_media ::
    "env \<Rightarrow> media_io \<Rightarrow> string \<Rightarrow> string \<Rightarrow> files \<Rightarrow> url \<Rightarrow>
     (string, io_error) result \<times> files \<times> url list" where
  "fetch_remote_media env io target_path temp files u = (
     let max_bytes = unat (env_u64 env ''INGEST_REMOTE_MEDIA_MAX_BYTES'' (200 * 1024 * 1024)) in
     case mi_client io of
       Inl e \<Rightarrow> (Err e, files, [])
     | Inr _ \<Rightarrow>
        let (redirects, answer) = mi_send io u; log = u # redirects in
        case answer of
          Inl e \<Rightarrow> (Err e, files, log)
        | Inr response \<Rightarrow>
            if \<not> hr_success response
            then (Err (InvalidData, ''remote media returned HTTP '' @ hr_status response), files, log)
            else if (case hr_content_length response of Some n \<Rightarrow> n > max_bytes | None \<Rightarrow> False)
            then (Err (InvalidData, ''remote media exceeds max allowed bytes''), files, log)
            else case and_then (validate_remote_media_response_type response) (\<lambda>_. mi_create_file io) of
                Inl e \<Rightarrow> (Err e, files, log)
              | Inr _ \<Rightarrow>
                 (case download (mi_write io) max_bytes 0 [] (hr_body response) of
                    (written, Some e) \<Rightarrow> (Err e, files(temp \<mapsto> written), log)
                  | (written, None) \<Rightarrow>
                     (case and_then (mi_flush io) (\<lambda>_. mi_rename io) of
                        Inl e \<Rightarrow> (Err e, files(temp \<mapsto> written), log)
                      | Inr _ \<Rightarrow> (Ok target_path, (files(temp := None))(target_path \<mapsto> written), log))))"

definition resolve_remote_media_object_path ::
    "url_parser \<Rightarrow> env \<Rightarrow> media_io \<Rightarrow> (string \<Rightarrow> string \<Rightarrow> string) \<Rightarrow>
     (string \<Rightarrow> string \<Rightarrow> string) \<Rightarrow> files \<Rightarrow> string \<Rightarrow> string \<Rightarrow> (string, io_error) result \<times> files \<times> url list" where
  "resolve_remote_media_object_path parse_url env io cache_path temp_path files object_key content_type = (
     if \<not> ingest_env_flag env ''INGEST_REMOTE_MEDIA_ENABLED'' False
     then (Err (PermissionDenied, ''remote media ingest is disabled''), files, [])
     else case parse_url (trim object_key) of
       Inl e \<Rightarrow> (Err (InvalidInput, ''invalid remote media url: '' @ e), files, [])
     | Inr u \<Rightarrow>
        (case and_then (validate_remote_media_url parse_url u content_type) (\<lambda>_. mi_create_dir io) of
           Inl e \<Rightarrow> (Err e, files, [])
         | Inr _ \<Rightarrow>
            let extension = unwrap_or (infer_extension_from_content_type content_type)
                  (extension_from_remote_url parse_url (url_text u));
                target_path = cache_path (url_text u) extension in
            if files target_path \<noteq> None then (Ok target_path, files, [])
            else fetch_remote_media env io target_path (temp_path (url_text u) extension) files u))"

section \<open>The texts of addresses\<close>

definition digit_char :: "nat \<Rightarrow> char" where
  "digit_char k = char_of (if k < 10 then 48 + k else 87 + k)"

fun digits_text :: "nat \<Rightarrow> nat \<Rightarrow> string" where
  "digits_text radix n = (if radix < 2 \<or> n < radix then [digit_char n]
     else digits_text radix (n div radix) @ [digit_char (n mod radix)])"

declare digits_text.simps [simp del]

definition ipv4_text :: "8 word \<Rightarrow> 8 word \<Rightarrow> 8 word \<Rightarrow> 8 word \<Rightarrow> string" where
  "ipv4_text a b c d = digits_text 10 (unat a) @ ''.'' @ digits_text 10 (unat b) @ ''.'' @
     digits_text 10 (unat c) @ ''.'' @ digits_text 10 (unat d)"

lemma digit_value_char: "k < 36 \<Longrightarrow> digit_value (digit_char k) = k"
  by (simp add: digit_value_def digit_char_def)

lemma digits_text_value:
  "2 \<le> radix \<Longrightarrow> radix \<le> 36 \<Longrightarrow> foldl (\<lambda>n c. n * radix + digit_value c) 0 (digits_text radix n) = n"
proof (induction radix n rule: digits_text.induct)
  case (1 radix n)
  then have "n mod radix < 36"
    using mod_less_divisor [of radix n] by linarith
  with 1 show ?case
    by (cases "n < radix") (simp_all add: digits_text.simps [of radix n] digit_value_char)
qed

lemma digits_text_digits:
  "2 \<le> radix \<Longrightarrow> radix \<le> 36 \<Longrightarrow> list_all (\<lambda>c. \<exists>k < radix. c = digit_char k) (digits_text radix n)"
proof (induction radix n rule: digits_text.induct)
  case (1 radix n)
  then have "\<exists>k < radix. digit_char (n mod radix) = digit_char k"
    by (intro exI [of _ "n mod radix"]) simp
  with 1 show ?case
    by (cases "n < radix") (auto simp: digits_text.simps [of radix n])
qed

lemma digits_text_length:
  "2 \<le> radix \<Longrightarrow> n < radix ^ Suc k \<Longrightarrow> length (digits_text radix n) \<le> Suc k"
proof (induction k arbitrary: n)
  case 0
  then show ?case
    by (simp add: digits_text.simps)
next
  case (Suc k)
  then have "n div radix < radix ^ Suc k"
    by (simp add: less_mult_imp_div_less mult.commute)
  with Suc show ?case
    by (simp add: digits_text.simps [of radix n])
qed

lemma digits_text_not_Nil [simp]: "digits_text radix n \<noteq> []"
  by (subst digits_text.simps) simp

lemma digits_text_leading:
  "2 \<le> radix \<Longrightarrow> radix \<le> 36 \<Longrightarrow> 1 < length (digits_text radix n) \<Longrightarrow> hd (digits_text radix n) \<noteq> CHR ''0''"
proof (induction radix n rule: digits_text.induct)
  case (1 radix n)
  let ?q = "n div radix"
  have n: "radix \<le> n" "digits_text radix n = digits_text radix ?q @ [digit_char (n mod radix)]"
    using 1(2,4) by (auto simp: digits_text.simps [of radix n] split: if_splits)
  show ?case
  proof (cases "?q < radix")
    case True
    then have "digits_text radix ?q = [digit_char ?q]" "?q < 36" "0 < ?q"
      using n(1) 1(2,3) by (simp_all add: digits_text.simps div_greater_zero_iff)
    moreover have "digit_value CHR ''0'' = 0"
      by (simp add: digit_value_def)
    ultimately show ?thesis
      using n(2) digit_value_char [of ?q] by auto
  next
    case False
    then have "1 < length (digits_text radix ?q)"
      using 1(2) by (simp add: digits_text.simps [of radix ?q])
    then show ?thesis
      using 1(1) [OF _ 1(2,3)] n 1(2) by simp
  qed
qed

lemma read_number_digits:
  assumes "2 \<le> radix" and "radix \<le> 36" and "n < radix ^ Suc k" and "n \<le> limit"
    and "rest = [] \<or> radix \<le> digit_value (hd rest)"
  shows "read_number radix (Suc k) zero limit (digits_text radix n @ rest) = Some (n, rest)"
proof -
  have "\<forall>c \<in> set (digits_text radix n). digit_value c < radix"
    using digits_text_digits [OF assms(1,2), of n] assms(2) by (auto simp: list_all_iff digit_value_char)
  moreover have "takeWhile (\<lambda>c. digit_value c < radix) rest = []"
    using assms(5) by (cases rest) auto
  ultimately have "takeWhile (\<lambda>c. digit_value c < radix) (digits_text radix n @ rest) = digits_text radix n"
    by (simp add: takeWhile_append)
  then show ?thesis
    using digits_text_value [OF assms(1,2), of n] digits_text_length [OF assms(1,3)] assms(4)
      digits_text_leading [OF assms(1,2), of n]
    by (auto simp: read_number_def Let_def)
qed

lemma digit_value_marks [simp]: "digit_value (CHR ''.'') = 36" "digit_value (CHR '':'') = 36"
  by (simp_all add: digit_value_def)

lemma octet_bound: "unat (a :: 8 word) < 256"
  by (rule less_le_trans [OF unsigned_less]) simp

lemma read_octet_text:
  assumes "rest = [] \<or> 10 \<le> digit_value (hd rest)"
  shows "read_octet 0 (digits_text 10 (unat (a :: 8 word)) @ rest) = Some (unat a, rest)"
    and "0 < i \<Longrightarrow> read_octet i (CHR ''.'' # digits_text 10 (unat (a :: 8 word)) @ rest) = Some (unat a, rest)"
  using read_number_digits [of 10 "unat a" 2 255 rest False] octet_bound [of a] assms
  by (simp_all add: read_octet_def read_separator_def read_char_def)

lemma parse_ip_ipv4_text:
  "parse_ip (ipv4_text a b c d) = Some (V4 (unat a) (unat b) (unat c) (unat d))"
  using read_octet_text(2) [of "[]" 3 d]
  by (simp add: parse_ip_def read_ipv4_addr_def ipv4_text_def read_octet_text)

text \<open>The text of an address passes the trimming of the guard.\<close>

lemma digit_char_plain:
  assumes "k < 36"
  shows "graphic (digit_char k)" "to_ascii_lowercase [digit_char k] = [digit_char k]" "digit_char k \<notin> set ''[].''"
proof -
  show "graphic (digit_char k)" "to_ascii_lowercase [digit_char k] = [digit_char k]"
    using assms by (auto simp: graphic_def digit_char_def to_ascii_lowercase_def Let_def)
  have "c \<in> set ''[].'' \<Longrightarrow> digit_value c = 36" for c
    by (auto simp: digit_value_def)
  then show "digit_char k \<notin> set ''[].''"
    using assms digit_value_char [OF assms] by fastforce
qed

text \<open>Texts of small letters, digits and the marks within addresses.\<close>

definition address_text :: "string \<Rightarrow> bool" where
  "address_text s \<longleftrightarrow> s \<noteq> [] \<and> (\<forall>c \<in> set s. graphic c \<and> c \<notin> set ''[]'' \<and> to_ascii_lowercase [c] = [c])"

lemma address_text_append: "address_text s \<Longrightarrow> address_text t \<Longrightarrow> address_text (s @ t)"
  by (auto simp: address_text_def)

lemma address_text_marks: "address_text ''.''" "address_text '':''"
  by (simp_all add: address_text_def graphic_def to_ascii_lowercase_def)

lemma address_text_digits: "2 \<le> radix \<Longrightarrow> radix \<le> 36 \<Longrightarrow> address_text (digits_text radix n)"
  unfolding address_text_def
proof (intro conjI ballI)
  fix c
  assume r: "2 \<le> radix" "radix \<le> 36" and "c \<in> set (digits_text radix n)"
  then obtain k where k: "k < radix" "c = digit_char k"
    using digits_text_digits [of radix n] by (auto simp: list_all_iff)
  then have "k < 36"
    using r by simp
  then show "graphic c" "c \<notin> set ''[]''" "to_ascii_lowercase [c] = [c]"
    using digit_char_plain [of k] k(2) by simp_all
qed simp

lemma lower_map: "to_ascii_lowercase s = map (\<lambda>c. hd (to_ascii_lowercase [c])) s"
  unfolding to_ascii_lowercase_def by (simp only: list.map list.sel)

lemma address_text_lower: "address_text s \<Longrightarrow> to_ascii_lowercase s = s"
  by (subst lower_map) (simp add: address_text_def map_idI)

lemma address_text_trimmed:
  assumes "address_text s"
  shows "trim s = s" and "trim_brackets s = s" and "trim_brackets (''['' @ s @ '']'') = s"
proof -
  have ends: "s \<noteq> []" "hd s \<in> set s" "List.last s \<in> set s"
    using assms by (auto simp: address_text_def)
  then show "trim s = s"
    using assms by (intro trim_graphic) (auto simp: address_text_def)
  have "hd s \<notin> set ''[]''" "List.last s \<notin> set ''[]''"
    using assms ends by (auto simp: address_text_def)
  then have "dropWhile (\<lambda>c. c \<in> set ''[]'') s = s" "dropWhile (\<lambda>c. c \<in> set ''[]'') (rev s) = rev s"
    and "dropWhile (\<lambda>c. c \<in> set ''[]'') (s @ '']'') = s @ '']''"
    using ends by (auto simp: dropWhile_eq_self_iff hd_rev)
  then show "trim_brackets s = s" and "trim_brackets (''['' @ s @ '']'') = s"
    by (simp_all add: trim_brackets_def)
qed

section \<open>Which hosts are fetched\<close>

lemma last_digit:
  assumes "2 \<le> radix" and "radix \<le> 36"
  shows "digit_value (List.last (t @ digits_text radix n)) < radix"
proof -
  have "List.last (digits_text radix n) \<in> set (digits_text radix n)"
    by simp
  then obtain k where "k < radix" "List.last (digits_text radix n) = digit_char k"
    using digits_text_digits [OF assms, of n] unfolding list_all_iff by metis
  then show ?thesis
    using assms(2) digit_value_char [of k] by simp
qed

text \<open>A host that ends in a hexadecimal digit is none of the local names.\<close>

lemma host_of_digits:
  assumes "address_text s" and "digit_value (List.last s) < 16" and "h \<in> {s, ''['' @ s @ '']''}" and "trim h = h"
  shows "remote_media_host_allowed h \<longleftrightarrow> (case parse_ip s of Some address \<Rightarrow> ip_allowed address | None \<Rightarrow> True)"
proof -
  have ends: "digit_value CHR ''t'' = 29" "digit_value CHR ''l'' = 21"
    by (simp_all add: digit_value_def)
  have other: "\<not> suffix t s" if "t \<noteq> []" "16 \<le> digit_value (List.last t)" for t
    using that assms(2) by (auto simp: suffix_def)
  have "\<not> suffix ''.localhost'' s" "\<not> suffix ''.local'' s" "\<not> suffix ''localhost'' s"
    by (rule other; simp add: ends)+
  moreover from this have "s \<noteq> ''localhost''"
    by auto
  moreover have "s \<noteq> []"
    using assms(1) by (simp add: address_text_def)
  moreover have "trim_brackets h = s"
    using assms(1,3) address_text_trimmed(2,3) by blast
  moreover have "to_ascii_lowercase s = s"
    using assms(1) by (rule address_text_lower)
  ultimately show ?thesis
    unfolding remote_media_host_allowed_def assms(4) Let_def by (simp only: if_False simp_thms)
qed

lemma ipv4_host_allowed:
  "remote_media_host_allowed (ipv4_text a b c d) \<longleftrightarrow> ip_allowed (V4 (unat a) (unat b) (unat c) (unat d))"
proof -
  have a: "address_text (ipv4_text a b c d)"
    unfolding ipv4_text_def by (intro address_text_append address_text_digits address_text_marks) simp_all
  have "digit_value (List.last (ipv4_text a b c d)) < 16"
    using last_digit [of 10 "digits_text 10 (unat a) @ ''.'' @ digits_text 10 (unat b) @ ''.'' @ digits_text 10 (unat c) @ ''.''" "unat d"]
    by (simp add: ipv4_text_def)
  from host_of_digits [OF a this, of "ipv4_text a b c d"] address_text_trimmed(1) [OF a] show ?thesis
    unfolding parse_ip_ipv4_text by simp
qed

text \<open>The address of version 6 that stands for one of version 4, as \<open>Url::host_str\<close> writes it.\<close>

definition mapped_text :: "8 word \<Rightarrow> 8 word \<Rightarrow> 8 word \<Rightarrow> 8 word \<Rightarrow> string" where
  "mapped_text a b c d = ''::ffff:'' @ digits_text 16 (unat a * 256 + unat b) @ '':'' @ digits_text 16 (unat c * 256 + unat d)"

lemma read_octet_rest: "read_octet i s = Some (n, r) \<Longrightarrow> set r \<subseteq> set s"
  by (auto simp: read_octet_def read_separator_def read_char_def read_number_def Let_def bind_eq_Some_conv
      split: if_splits list.splits dest!: in_set_dropD)

lemma no_dot:
  assumes "CHR ''.'' \<notin> set s"
  shows "read_ipv4_addr s = None"
proof (cases "read_octet 0 s")
  case (Some nr)
  obtain n r where nr: "nr = (n, r)"
    by fastforce
  then have "CHR ''.'' \<notin> set r"
    using read_octet_rest Some assms by blast
  then have "read_octet 1 r = None"
    by (cases r) (auto simp: read_octet_def read_separator_def read_char_def)
  then show ?thesis
    by (simp add: read_ipv4_addr_def Some nr)
qed (simp add: read_ipv4_addr_def)

lemma digits_no_dot: "CHR ''.'' \<notin> set (digits_text 16 n)"
proof
  assume "CHR ''.'' \<in> set (digits_text 16 n)"
  then obtain k where "k < 16" "CHR ''.'' = digit_char k"
    using digits_text_digits [of 16 n] by (auto simp: list_all_iff)
  then show False
    using digit_value_char [of k] digit_value_marks(1) by simp
qed

lemma read_groups_hex:
  assumes "n < 65536" and "CHR ''.'' \<notin> set rest" and "rest = [] \<or> 16 \<le> digit_value (hd rest)"
  shows "read_groups (Suc k) 0 (digits_text 16 n @ rest) =
      (case read_groups k 1 rest of (gs, v4, rest') \<Rightarrow> (n # gs, v4, rest'))"
    and "0 < i \<Longrightarrow> read_groups (Suc k) i (CHR '':'' # digits_text 16 n @ rest) =
      (case read_groups k (i + 1) rest of (gs, v4, rest') \<Rightarrow> (n # gs, v4, rest'))"
proof -
  have n: "read_number 16 4 True 65535 (digits_text 16 n @ rest) = Some (n, rest)"
    using read_number_digits [of 16 n 3 65535 rest True] assms by simp
  have "read_ipv4_addr (digits_text 16 n @ rest) = None"
    using assms(2) digits_no_dot by (auto intro: no_dot)
  then show "read_groups (Suc k) 0 (digits_text 16 n @ rest) =
      (case read_groups k 1 rest of (gs, v4, rest') \<Rightarrow> (n # gs, v4, rest'))"
    and "0 < i \<Longrightarrow> read_groups (Suc k) i (CHR '':'' # digits_text 16 n @ rest) =
      (case read_groups k (i + 1) rest of (gs, v4, rest') \<Rightarrow> (n # gs, v4, rest'))"
    using n by (simp_all add: read_separator_def read_char_def)
qed

lemma read_groups_end: "0 < i \<Longrightarrow> read_groups k i [] = ([], False, [])"
  by (cases k) (simp_all add: read_separator_def read_char_def)

lemma read_groups_none:
  assumes "CHR ''.'' \<notin> set s" and "16 \<le> digit_value (hd s)" and "s \<noteq> []"
  shows "read_groups k 0 s = ([], False, s)"
proof -
  have "takeWhile (\<lambda>c. digit_value c < 16) s = []"
    using assms(2,3) by (cases s) simp_all
  then show ?thesis
    using no_dot [OF assms(1)] by (cases k) (simp_all add: read_separator_def read_number_def Let_def)
qed

lemma group_bound: "unat (a :: 8 word) * 256 + unat (b :: 8 word) < 65536"
  using octet_bound [of a] octet_bound [of b] by linarith

lemma replicate_5: "replicate 5 (0 :: nat) = [0, 0, 0, 0, 0]"
  by (simp add: eval_nat_numeral)

lemma replicate_8: "replicate 8 (0 :: nat) = [0, 0, 0, 0, 0, 0, 0, 0]"
  by (simp add: eval_nat_numeral)

lemma parse_mapped:
  "parse_ip (mapped_text a b c d) = Some (V6 [0, 0, 0, 0, 0, 65535, unat a * 256 + unat b, unat c * 256 + unat d])"
proof -
  let ?g = "unat a * 256 + unat b" and ?h = "unat c * 256 + unat d"
  have nodot: "CHR ''.'' \<notin> set (mapped_text a b c d)"
    using digits_no_dot by (simp add: mapped_text_def)
  have "read_groups 5 2 (CHR '':'' # digits_text 16 ?h @ []) = ([?h], False, [])"
    using read_groups_hex(2) [of ?h "[]" 2 4] group_bound [of c d] by (simp add: read_groups_end)
  then have "read_groups 6 1 (CHR '':'' # digits_text 16 ?g @ CHR '':'' # digits_text 16 ?h) = ([?g, ?h], False, [])"
    using read_groups_hex(2) [of ?g "CHR '':'' # digits_text 16 ?h" 1 5] group_bound [of a b] digits_no_dot [of ?h]
    by (simp add: numeral_2_eq_2)
  then have groups: "read_groups 7 0 (digits_text 16 65535 @ CHR '':'' # digits_text 16 ?g @ CHR '':'' # digits_text 16 ?h) =
      ([65535, ?g, ?h], False, [])"
    using read_groups_hex(1) [of 65535 "CHR '':'' # digits_text 16 ?g @ CHR '':'' # digits_text 16 ?h" 6]
      digits_no_dot [of ?g] digits_no_dot [of ?h]
    by simp
  have ffff: "digits_text 16 65535 = ''ffff''"
    by (simp add: digits_text.simps digit_char_def) code_simp
  have "read_groups 8 0 (mapped_text a b c d) = ([], False, mapped_text a b c d)"
    by (rule read_groups_none [OF nodot]) (simp_all add: mapped_text_def)
  then have "read_ipv6_addr (mapped_text a b c d) = Some ([0, 0, 0, 0, 0, 65535, ?g, ?h], [])"
    using groups unfolding ffff by (simp add: read_ipv6_addr_def mapped_text_def read_char_def replicate_5)
  then show ?thesis
    by (simp add: parse_ip_def no_dot [OF nodot])
qed

text \<open>C23: no mapped address is kept out. For every address of version 4, the private and local ones included,
  the guard lets the address of version 6 pass that stands for it.\<close>

theorem mapped_addresses_allowed:
  "remote_media_host_allowed (''['' @ mapped_text a b c d @ '']'')"
proof -
  have a: "address_text (mapped_text a b c d)"
    unfolding mapped_text_def by (intro address_text_append address_text_digits address_text_marks)
      (simp_all add: address_text_def graphic_def to_ascii_lowercase_def)
  have "digit_value (List.last (mapped_text a b c d)) < 16"
    using last_digit [of 16 "''::ffff:'' @ digits_text 16 (unat a * 256 + unat b) @ '':''" "unat c * 256 + unat d"]
    by (simp add: mapped_text_def)
  moreover have "trim (''['' @ mapped_text a b c d @ '']'') = ''['' @ mapped_text a b c d @ '']''"
    by (rule trim_graphic) (simp_all add: graphic_def)
  ultimately show ?thesis
    using host_of_digits [OF a, of "''['' @ mapped_text a b c d @ '']''"] by (simp add: parse_mapped replicate_8)
qed

section \<open>The download\<close>

text \<open>What a download writes stays within the limit; when it ends well it has written every piece up to the end.\<close>

lemma download_bounded:
  "length written \<le> max_bytes \<Longrightarrow> download wr max_bytes n written reads = (written', e) \<Longrightarrow>
   length written' \<le> max_bytes"
  by (induction wr max_bytes n written reads rule: download.induct) (auto split: if_splits option.splits)

lemma download_complete:
  "download wr max_bytes n written reads = (written', None) \<Longrightarrow>
   \<exists>pieces rest. written' = written @ concat pieces \<and> (reads = map Ok pieces \<or> reads = map Ok pieces @ Ok [] # rest)"
proof (induction wr max_bytes n written reads rule: download.induct)
  case (1 wr max_bytes n written)
  then show ?case
    by (intro exI [of _ "[]"]) simp
next
  case (3 wr max_bytes n written buffer reads)
  show ?case
  proof (cases "buffer = []")
    case True
    with 3(2) show ?thesis
      by (intro exI [of _ "[]"] exI [of _ reads]) simp
  next
    case False
    with 3(2) have d: "\<not> length written + length buffer > max_bytes" "wr n = None"
      "download wr max_bytes (Suc n) (written @ buffer) reads = (written', None)"
      by (auto split: if_splits option.splits)
    obtain pieces rest where "written' = (written @ buffer) @ concat pieces"
      "reads = map Ok pieces \<or> reads = map Ok pieces @ Ok [] # rest"
      using 3(1) [OF False d] by blast
    then show ?thesis
      by (intro exI [of _ "buffer # pieces"] exI [of _ rest]) auto
  qed
qed simp

abbreviation media_limit :: "env \<Rightarrow> nat" where
  "media_limit env \<equiv> unat (env_u64 env ''INGEST_REMOTE_MEDIA_MAX_BYTES'' (200 * 1024 * 1024))"

text \<open>The outcomes of a download: no request or no file, a temporary file that stays, or the cached file.\<close>

lemma fetch_remote_media_cases:
  assumes "fetch_remote_media env io target temp files u = (r, files', log)"
  obtains
    (no_file) e where "r = Err e" "files' = files" "log = [] \<or> log = u # fst (mi_send io u)"
  | (partial) e written reads e' where "r = Err e" "files' = files(temp \<mapsto> written)" "log = u # fst (mi_send io u)"
      "download (mi_write io) (media_limit env) 0 [] reads = (written, e')"
  | (complete) written response where "r = Ok target" "files' = (files(temp := None))(target \<mapsto> written)"
      "log = u # fst (mi_send io u)" "snd (mi_send io u) = Ok response" "hr_success response"
      "download (mi_write io) (media_limit env) 0 [] (hr_body response) = (written, None)"
  using assms
  by (auto simp: fetch_remote_media_def Let_def split: if_splits sum.splits prod.splits option.splits)

lemma fetch_remote_media_ok:
  assumes "fetch_remote_media env io target temp files u = (r, files', log)"
    and "\<forall>content \<in> ran files. length content \<le> media_limit env"
  shows "\<forall>content \<in> ran files'. length content \<le> media_limit env"
    and "r = Ok path \<Longrightarrow> log = u # fst (mi_send io u) \<and> (\<exists>response pieces rest.
         snd (mi_send io u) = Ok response \<and> hr_success response \<and> files' path = Some (concat pieces) \<and>
         (hr_body response = map Ok pieces \<or> hr_body response = map Ok pieces @ Ok [] # rest))"
proof -
  have "(\<forall>content \<in> ran files'. length content \<le> media_limit env) \<and>
    (r = Ok path \<longrightarrow> log = u # fst (mi_send io u) \<and> (\<exists>response pieces rest.
         snd (mi_send io u) = Ok response \<and> hr_success response \<and> files' path = Some (concat pieces) \<and>
         (hr_body response = map Ok pieces \<or> hr_body response = map Ok pieces @ Ok [] # rest)))"
    using assms(1)
  proof (cases rule: fetch_remote_media_cases)
    case (partial e written reads e')
    have "length written \<le> media_limit env"
      by (rule download_bounded [OF _ partial(4)]) simp
    then show ?thesis
      using assms(2) partial(1,2) by (auto simp: ran_def split: if_splits)
  next
    case (complete written response)
    have "length written \<le> media_limit env"
      by (rule download_bounded [OF _ complete(6)]) simp
    then have "\<forall>content \<in> ran files'. length content \<le> media_limit env"
      using assms(2) complete(2) by (auto simp: ran_def split: if_splits)
    moreover obtain pieces rest where "written = concat pieces"
      "hr_body response = map Ok pieces \<or> hr_body response = map Ok pieces @ Ok [] # rest"
      using download_complete [OF complete(6)] by auto
    ultimately show ?thesis
      using complete(1-5) by auto
  qed (use assms(2) in simp)
  then show "\<forall>content \<in> ran files'. length content \<le> media_limit env"
    and "r = Ok path \<Longrightarrow> log = u # fst (mi_send io u) \<and> (\<exists>response pieces rest.
         snd (mi_send io u) = Ok response \<and> hr_success response \<and> files' path = Some (concat pieces) \<and>
         (hr_body response = map Ok pieces \<or> hr_body response = map Ok pieces @ Ok [] # rest))"
    by blast+
qed

text \<open>The outcomes of a request for remote media: it is refused, the file is there, or the URL was let through.\<close>

lemma resolve_cases:
  assumes "resolve_remote_media_object_path parse_url env io cache_path temp_path files object_key content_type = (r, files', log)"
  obtains
    (refused) e where "r = Err e" "files' = files" "log = []"
  | (cached) path where "r = Ok path" "files path \<noteq> None" "files' = files" "log = []"
  | (fetched) u target temp where "ingest_env_flag env ''INGEST_REMOTE_MEDIA_ENABLED'' False"
      "parse_url (trim object_key) = Ok u" "validate_remote_media_url parse_url u content_type = Ok ()"
      "fetch_remote_media env io target temp files u = (r, files', log)"
proof (cases "ingest_env_flag env ''INGEST_REMOTE_MEDIA_ENABLED'' False")
  case on: True
  show thesis
  proof (cases "parse_url (trim object_key)")
    case (Inl e)
    with assms on show thesis
      by (intro refused [of "(InvalidInput, ''invalid remote media url: '' @ e)"])
        (simp_all add: resolve_remote_media_object_path_def)
  next
    case (Inr u)
    show thesis
    proof (cases "and_then (validate_remote_media_url parse_url u content_type) (\<lambda>_. mi_create_dir io)")
      case (Inl e)
      with assms on \<open>parse_url (trim object_key) = Inr u\<close> show thesis
        by (intro refused [of e]) (simp_all add: resolve_remote_media_object_path_def)
    next
      case ok: (Inr v)
      then have valid: "validate_remote_media_url parse_url u content_type = Ok ()"
        by (cases "validate_remote_media_url parse_url u content_type") simp_all
      define extension where "extension = unwrap_or (infer_extension_from_content_type content_type)
        (extension_from_remote_url parse_url (url_text u))"
      define target where "target = cache_path (url_text u) extension"
      define temp where "temp = temp_path (url_text u) extension"
      have eq: "(r, files', log) = (if files target \<noteq> None then (Ok target, files, [])
          else fetch_remote_media env io target temp files u)"
        unfolding assms [symmetric] target_def temp_def extension_def resolve_remote_media_object_path_def Let_def
        using on Inr ok by (simp only: sum.case if_False if_True simp_thms)
      then show thesis
        using cached fetched [OF on Inr valid] by (cases "files target = None") simp_all
    qed
  qed
next
  case False
  then have "(r, files', log) = (Err (PermissionDenied, ''remote media ingest is disabled''), files, [])"
    unfolding assms [symmetric] resolve_remote_media_object_path_def by (simp only: if_True not_False_eq_True)
  then show thesis using refused by blast
qed

lemma local_names_refused: "\<not> remote_media_host_allowed []" "\<not> remote_media_host_allowed ''localhost''"
proof -
  show "\<not> remote_media_host_allowed []"
    by (simp add: remote_media_host_allowed_def trim_brackets_def to_ascii_lowercase_def)
  have "address_text ''localhost''"
    by (simp add: address_text_def graphic_def to_ascii_lowercase_def)
  then show "\<not> remote_media_host_allowed ''localhost''"
    unfolding remote_media_host_allowed_def by (simp only: address_text_trimmed address_text_lower Let_def simp_thms if_True not_False_eq_True)
qed

text \<open>The host of a URL that was let through.\<close>

lemma validated_host:
  assumes "validate_remote_media_url parse_url u content_type = Ok ()"
  shows "url_scheme u \<in> {''http'', ''https''}" and "url_host u \<notin> {None, Some [], Some ''localhost''}"
    and "url_host u = Some (ipv4_text a b c d) \<Longrightarrow> unat a \<notin> {0, 10, 127} \<and>
       (unat a, unat b) \<notin> {(169, 254), (192, 168)} \<and> \<not> (unat a = 172 \<and> unat b div 16 = 1)"
proof -
  show "url_scheme u \<in> {''http'', ''https''}"
    using assms unfolding validate_remote_media_url_def by (simp split: if_splits)
  have host: "remote_media_host_allowed (unwrap_or [] (url_host u))"
    using assms unfolding validate_remote_media_url_def by (simp split: if_splits)
  then show "url_host u \<notin> {None, Some [], Some ''localhost''}"
    using local_names_refused by (cases "url_host u") auto
  have "ip_allowed (V4 (unat a) (unat b) (unat c) (unat d))" if "url_host u = Some (ipv4_text a b c d)"
    using host that ipv4_host_allowed [of a b c d] by (simp del: ip_allowed.simps)
  then show "unat a \<notin> {0, 10, 127} \<and> (unat a, unat b) \<notin> {(169, 254), (192, 168)} \<and>
      \<not> (unat a = 172 \<and> unat b div 16 = 1)" if "url_host u = Some (ipv4_text a b c d)"
    using that by (force simp: is_private4_def)
qed

text \<open>C9: the URL that is requested is one with a public host, and it is the one that was given. When a call for remote
  media sends anything, the feature is on, the first request goes to the URL of the call, which is one of
  HTTP with a host that is neither empty nor \<open>localhost\<close> nor an address of version 4 that is private, of
  the own machine or of the link, and every further request is a redirect the client has followed.
  Redirects are not checked: the witness is a call that ends up at \<open>127.0.0.1\<close>.\<close>

theorem requested_host_public:
  assumes "resolve_remote_media_object_path parse_url env io cache_path temp_path files object_key content_type =
      (r, files', u # redirects)"
  shows "ingest_env_flag env ''INGEST_REMOTE_MEDIA_ENABLED'' False \<and>
    parse_url (trim object_key) = Ok u \<and> redirects = fst (mi_send io u) \<and>
    url_scheme u \<in> {''http'', ''https''} \<and> url_host u \<notin> {None, Some [], Some ''localhost''} \<and>
    (\<forall>a b c d. url_host u = Some (ipv4_text a b c d) \<longrightarrow> unat a \<notin> {0, 10, 127} \<and>
       (unat a, unat b) \<notin> {(169, 254), (192, 168)} \<and> \<not> (unat a = 172 \<and> unat b div 16 = 1))"
  using assms
proof (cases rule: resolve_cases)
  case (fetched u' target temp)
  have "u # redirects = u' # fst (mi_send io u')"
    using fetched(4) by (cases rule: fetch_remote_media_cases) auto
  with fetched(1,2) validated_host [OF fetched(3)] show ?thesis
    by blast
qed simp_all

text \<open>C22: the cache holds whole files within the limit. When every file is within the limit of bytes, every file
  is after a request for remote media, whatever was answered and whichever operation on files failed;
  and a path that is returned has a file, which was there before or is the whole body of a successful
  answer to the one request that was made.\<close>

theorem remote_media_bounded:
  assumes "resolve_remote_media_object_path parse_url env io cache_path temp_path files object_key content_type = (r, files', log)"
    and "\<forall>content \<in> ran files. length content \<le> media_limit env"
  shows "(\<forall>content \<in> ran files'. length content \<le> media_limit env) \<and>
    (\<forall>path. r = Ok path \<longrightarrow> (log = [] \<and> files' = files \<and> files path \<noteq> None) \<or>
      (\<exists>u response pieces rest. log = u # fst (mi_send io u) \<and> snd (mi_send io u) = Ok response \<and>
         hr_success response \<and> files' path = Some (concat pieces) \<and>
         (hr_body response = map Ok pieces \<or> hr_body response = map Ok pieces @ Ok [] # rest)))"
  using assms(1)
proof (cases rule: resolve_cases)
  case (fetched u target temp)
  note f = fetch_remote_media_ok [OF fetched(4) assms(2)]
  show ?thesis
    using f(1) f(2) by blast
qed (use assms(2) in simp_all)

section \<open>A request for remote media\<close>

definition sample_url :: url where
  "sample_url = \<lparr>url_scheme = ''https'', url_host = Some ''9.9.9.9'', url_path = ''/a.mp4'', url_text = ''https://9.9.9.9/a.mp4''\<rparr>"

definition sample_response :: http_response where
  "sample_response = \<lparr>hr_success = True, hr_status = ''200 OK'', hr_content_length = None,
     hr_content_type = Some ''video/mp4'', hr_body = [Ok ''ab'', Ok ''c'']\<rparr>"

definition local_url :: url where
  "local_url = \<lparr>url_scheme = ''http'', url_host = Some ''127.0.0.1'', url_path = ''/a'', url_text = ''http://127.0.0.1/a''\<rparr>"

text \<open>A server that redirects to the machine itself, and files that can be written.\<close>

definition sample_io :: media_io where
  "sample_io = \<lparr>mi_create_dir = Ok (), mi_client = Ok (), mi_send = (\<lambda>_. ([local_url], Ok sample_response)),
     mi_create_file = Ok (), mi_write = (\<lambda>_. None), mi_flush = Ok (), mi_rename = Ok ()\<rparr>"

definition media_env :: env where
  "media_env key = (if key = ''INGEST_REMOTE_MEDIA_ENABLED'' then Some ''on'' else None)"

lemma sample_host: "url_host sample_url = Some (ipv4_text 9 9 9 9)"
  by code_simp

lemma sample_resolve:
  "resolve_remote_media_object_path (\<lambda>_. Ok sample_url) media_env sample_io (\<lambda>u e. ''c'' @ e) (\<lambda>u e. ''t'' @ e)
     (\<lambda>_. None) ''https://9.9.9.9/a.mp4'' ''video/mp4'' =
   (Ok ''c.mp4'', ((\<lambda>_. None)(''t.mp4'' := None))(''c.mp4'' \<mapsto> ''abc''), [sample_url, local_url])"
proof -
  have on: "ingest_env_flag media_env ''INGEST_REMOTE_MEDIA_ENABLED'' False"
    by code_simp
  have ext: "extension_from_remote_url (\<lambda>_. Ok sample_url) (url_text sample_url) = Some ''.mp4''"
    by code_simp
  have "remote_media_host_allowed (unwrap_or [] (url_host sample_url))"
    by (simp add: sample_host ipv4_host_allowed is_private4_def is_documentation4_def)
  moreover have "url_scheme sample_url = ''https''" "is_video_extension ''.mp4''"
    by code_simp+
  moreover have "\<not> contains_text (to_ascii_lowercase (url_text sample_url)) ''weixin.qq.com/sph/''"
    "\<not> contains_text (to_ascii_lowercase (url_text sample_url)) ''channels.weixin.qq.com/sph/''"
    by code_simp+
  ultimately have valid: "validate_remote_media_url (\<lambda>_. Ok sample_url) sample_url ''video/mp4'' = Ok ()"
    by (simp add: validate_remote_media_url_def ext Let_def)
  have type: "validate_remote_media_response_type sample_response = Ok ()"
    by code_simp
  have dir: "mi_create_dir sample_io = Ok ()"
    by (simp add: sample_io_def)
  have "media_limit media_env = 209715200"
    by (simp add: env_u64_def media_env_def)
  then have "fetch_remote_media media_env sample_io ''c.mp4'' ''t.mp4'' (\<lambda>_. None) sample_url =
      (Ok ''c.mp4'', ((\<lambda>_. None)(''t.mp4'' := None))(''c.mp4'' \<mapsto> ''abc''), [sample_url, local_url])"
    unfolding fetch_remote_media_def using type by (simp add: sample_io_def sample_response_def Let_def)
  then show ?thesis
    unfolding resolve_remote_media_object_path_def using on valid dir by (simp add: ext Let_def)
qed

theorem requested_host_public_witness:
  "\<exists>r files'. resolve_remote_media_object_path (\<lambda>_. Ok sample_url) media_env sample_io (\<lambda>u e. ''c'' @ e)
      (\<lambda>u e. ''t'' @ e) (\<lambda>_. None) ''https://9.9.9.9/a.mp4'' ''video/mp4'' = (r, files', [sample_url, local_url]) \<and>
   [local_url] = fst (mi_send sample_io sample_url) \<and> url_host local_url = Some ''127.0.0.1'' \<and>
   url_host sample_url = Some (ipv4_text 9 9 9 9) \<and> unat (9 :: 8 word) \<notin> {0, 10, 127}"
proof (intro exI conjI)
  note public = requested_host_public [OF sample_resolve]
  show "[local_url] = fst (mi_send sample_io sample_url)"
    by (rule public [THEN conjunct2, THEN conjunct2, THEN conjunct1])
  show "unat (9 :: 8 word) \<notin> {0, 10, 127}"
    using public sample_host by blast
  show "url_host local_url = Some ''127.0.0.1''"
    by (simp add: local_url_def)
qed (rule sample_resolve, rule sample_host)

theorem remote_media_bounded_witness:
  "\<exists>files'. resolve_remote_media_object_path (\<lambda>_. Ok sample_url) media_env sample_io (\<lambda>u e. ''c'' @ e)
     (\<lambda>u e. ''t'' @ e) (\<lambda>_. None) ''https://9.9.9.9/a.mp4'' ''video/mp4'' = (Ok ''c.mp4'', files', [sample_url, local_url]) \<and>
   (\<forall>content \<in> ran files'. length content \<le> media_limit media_env)"
proof -
  have "\<forall>content \<in> ran (((\<lambda>_. None)(''t.mp4'' := None))(''c.mp4'' \<mapsto> ''abc'')). length content \<le> media_limit media_env"
    by (rule conjunct1 [OF remote_media_bounded [OF sample_resolve]]) simp
  then show ?thesis
    using sample_resolve by blast
qed

section \<open>Local files and the choice of a parser\<close>

text \<open>\<open>Path::join\<close> and \<open>Path::extension\<close> of a path to a file.\<close>

definition path_join :: "string \<Rightarrow> string \<Rightarrow> string" where
  "path_join root raw = (if prefix ''/'' raw \<or> root = [] then raw
     else if suffix ''/'' root then root @ raw else root @ ''/'' @ raw)"

definition path_extension :: "string \<Rightarrow> string option" where
  "path_extension path = (
     let name = rev (takeWhile (\<lambda>c. c \<noteq> CHR ''/'') (rev path));
         extension = rev (takeWhile (\<lambda>c. c \<noteq> CHR ''.'') (rev name)) in
     if name = ''..'' \<or> length name \<le> length extension + 1 then None else Some extension)"

definition resolve_local_object_path :: "env \<Rightarrow> (string \<Rightarrow> bool) \<Rightarrow> string \<Rightarrow> string option" where
  "resolve_local_object_path env is_file object_key = (
     let raw = strip_words [''file://''] (trim object_key) in
     if raw = [] then None
     else if is_file raw then Some raw
     else Option.bind (env ''PLATFORM_LOCAL_OBJECT_ROOT'') (\<lambda>root.
       let rooted = path_join root raw in if is_file rooted then Some rooted else None))"

definition resolve_ingest_object_path ::
    "url_parser \<Rightarrow> env \<Rightarrow> media_io \<Rightarrow> (string \<Rightarrow> string \<Rightarrow> string) \<Rightarrow>
     (string \<Rightarrow> string \<Rightarrow> string) \<Rightarrow> files \<Rightarrow> string \<Rightarrow> string \<Rightarrow> (string, io_error) result \<times> files \<times> url list" where
  "resolve_ingest_object_path parse_url env io cache_path temp_path files object_key content_type =
     (if is_remote_media_object_key parse_url object_key content_type
      then resolve_remote_media_object_path parse_url env io cache_path temp_path files object_key content_type
      else (ok_or (NotFound, ''local object file not found'')
              (resolve_local_object_path env (\<lambda>path. files path \<noteq> None) object_key), files, []))"

text \<open>Texts with markup.\<close>

fun markup_step :: "int \<Rightarrow> unicode \<times> bool \<Rightarrow> unicode \<times> bool" where
  "markup_step ch (output, inside_tag) = (
     if ch = 60 then (output, True)
     else if ch = 62 then (output @ [32], False)
     else if \<not> inside_tag then (output @ [ch], inside_tag)
     else (output, inside_tag))"

definition strip_markup_tags :: "unicode \<Rightarrow> unicode" where
  "strip_markup_tags s = fst (fold markup_step s ([], False))"

function replace_all :: "unicode \<Rightarrow> unicode \<Rightarrow> unicode \<Rightarrow> unicode" where
  "replace_all pat new s =
     (if s = [] then []
      else if pat \<noteq> [] \<and> prefix pat s then new @ replace_all pat new (drop (length pat) s)
      else hd s # replace_all pat new (tl s))"
  by pat_completeness auto
termination
  by (relation "measure (\<lambda>(pat, new, s). length s)") auto

declare replace_all.simps [simp del]

definition decode_xml_entities :: "unicode \<Rightarrow> unicode" where
  "decode_xml_entities s =
     replace_all (chars ''&apos;'') [39] (replace_all (chars ''&quot;'') [34] (replace_all (chars ''&amp;'') (chars ''&'')
       (replace_all (chars ''&gt;'') (chars ''>'') (replace_all (chars ''&lt;'') (chars ''<'') s))))"

fun split_on :: "int \<Rightarrow> unicode \<Rightarrow> unicode list" where
  "split_on d [] = [[]]"
| "split_on d (c # s) = (if c = d then [] # split_on d s
     else (case split_on d s of [] \<Rightarrow> [[c]] | w # ws \<Rightarrow> (c # w) # ws))"

fun words_from :: "unicode \<Rightarrow> unicode \<Rightarrow> unicode list" where
  "words_from w [] = (if w = [] then [] else [w])"
| "words_from w (c # s) = (if is_whitespace c then (if w = [] then words_from [] s else w # words_from [] s)
     else words_from (w @ [c]) s)"

definition split_whitespace :: "unicode \<Rightarrow> unicode list" where
  "split_whitespace s = words_from [] s"

definition collapse_line_spaces_preserving_tabs :: "unicode \<Rightarrow> unicode" where
  "collapse_line_spaces_preserving_tabs line =
     trim_chars (join_chars [9] (map (\<lambda>part. join_chars [32] (split_whitespace part)) (split_on 9 line)))"

definition normalize_extracted_text :: "unicode \<Rightarrow> unicode option" where
  "normalize_extracted_text s = (let normalized = trim_chars (join_chars [10] (filter (\<lambda>line. line \<noteq> [])
       (map collapse_line_spaces_preserving_tabs (text_lines (without_nul s))))) in
     if normalized = [] then None else Some normalized)"

text \<open>The parsers: what a file reads as, the entries of an archive, and the external ones.\<close>

record parsers =
  xp_read_text :: "string \<Rightarrow> (unicode, io_error) result"
  xp_zip_entry :: "string \<Rightarrow> string \<Rightarrow> unicode option"
  xp_pdf :: "string \<Rightarrow> ExtractedDocumentText option"
  xp_image :: "string \<Rightarrow> ExtractedDocumentText"
  xp_media :: "string \<Rightarrow> string \<Rightarrow> ExtractedDocumentText"
  xp_docx_images :: "string \<Rightarrow> ExtractedDocumentText option"
  xp_legacy_doc :: "string \<Rightarrow> ExtractedDocumentText option"
  xp_xlsx :: "string \<Rightarrow> unicode option"
  xp_pptx :: "string \<Rightarrow> unicode option"
  xp_presentation_vlm :: "string \<Rightarrow> unicode option"
  xp_markitdown :: "string \<Rightarrow> unicode option"

definition extracted_text :: "unicode \<Rightarrow> string \<Rightarrow> ExtractedDocumentText" where
  "extracted_text s parse_method = \<lparr>xt_text = s, xt_method = parse_method, xt_metadata = JObject []\<rparr>"

definition extract_docx_text :: "parsers \<Rightarrow> string \<Rightarrow> unicode option" where
  "extract_docx_text p path = Option.bind (xp_zip_entry p path ''word/document.xml'') (\<lambda>xml.
     normalize_extracted_text (decode_xml_entities (strip_markup_tags
       (replace_all (chars ''</w:tc>'') [9] (replace_all (chars ''</w:p>'') [10] xml)))))"

text \<open>The parsers that are tried in turn for an extension: the first that gives something decides.\<close>

definition presentation_text :: "parsers \<Rightarrow> string \<Rightarrow> ExtractedDocumentText option" where
  "presentation_text p path = (
     let base_text = xp_pptx p path in
     case xp_presentation_vlm p path of
       Some vlm_text \<Rightarrow> Some
         \<lparr>xt_text = join_chars [10, 10] (filter visible_text [unwrap_or [] base_text, vlm_text]),
          xt_method = ''pptx-ooxml+presentation-vlm'',
          xt_metadata = JObject [(''vlm'', JObject [(''provider'', JString ''minimax''),
            (''source'', JString ''presentation-rendered-pages'')])]\<rparr>
     | None \<Rightarrow> map_option (\<lambda>s. extracted_text s ''pptx-ooxml'') base_text)"

definition parse_file :: "parsers \<Rightarrow> string \<Rightarrow> string \<Rightarrow> string \<Rightarrow> (ExtractedDocumentText, io_error) result" where
  "parse_file p path extension content_type =
     (if is_direct_text_extension extension then
        and_then (xp_read_text p path) (\<lambda>s.
          Ok (extracted_text (if extension \<in> {''.html'', ''.htm'', ''.xml''} then strip_markup_tags s else s)
            (''local-text'' @ extension)))
      else case (if extension = ''.pdf'' then xp_pdf p path else None) of
        Some extracted \<Rightarrow> Ok extracted
      | None \<Rightarrow>
      if is_image_extension extension then Ok (xp_image p path)
      else if is_audio_extension extension \<or> is_video_extension extension then
        Ok (xp_media p path (if is_video_extension extension then ''video'' else ''audio''))
      else ok_or (Unsupported, ''no local parser produced text'') (first_of id
        [if extension = ''.docx'' then map_option (\<lambda>s. extracted_text s ''docx-ooxml'') (extract_docx_text p path) else None,
         if extension = ''.docx'' then xp_docx_images p path else None,
         if extension = ''.doc'' \<or> eq_ignore_ascii_case content_type ''application/msword'' then xp_legacy_doc p path else None,
         if extension \<in> {''.xlsx'', ''.xlsm''} then map_option (\<lambda>s. extracted_text s ''xlsx-ooxml'') (xp_xlsx p path) else None,
         if extension \<in> {''.pptx'', ''.pptm''} then presentation_text p path else None,
         map_option (\<lambda>s. extracted_text s ''markitdown'') (xp_markitdown p path)]))"

definition extract_document_text ::
    "parsers \<Rightarrow> (string, io_error) result \<Rightarrow> string \<Rightarrow> (ExtractedDocumentText, io_error) result" where
  "extract_document_text p resolved content_type = and_then resolved (\<lambda>path.
     parse_file p path (case path_extension path of
         Some e \<Rightarrow> ''.'' @ to_ascii_lowercase e
       | None \<Rightarrow> infer_extension_from_content_type content_type) content_type)"

section \<open>What the clean-up keeps\<close>

lemma visible_join_white: "visible sep = [] \<Longrightarrow> visible (join_chars sep xs) = visible (concat xs)"
  by (induction sep xs rule: join_chars.induct) auto

lemma visible_words: "visible (concat (words_from w s)) = visible w @ visible s"
  by (induction w s rule: words_from.induct) auto

lemma white_tab_space [simp]: "is_whitespace 9" "is_whitespace 32"
  by (simp_all add: is_whitespace_def WHITE_SPACE_def)

lemma split_on_not_Nil [simp]: "split_on d s \<noteq> []"
  by (induction s) (auto split: list.splits)

lemma visible_split_on: "is_whitespace d \<Longrightarrow> visible (concat (split_on d s)) = visible s"
proof (induction s)
  case (Cons c s)
  then show ?case
    by (cases "split_on d s") auto
qed simp

lemma visible_collapse: "visible (collapse_line_spaces_preserving_tabs line) = visible line"
proof -
  have "visible (concat (map (\<lambda>part. join_chars [32] (split_whitespace part)) parts)) = visible (concat parts)" for parts
    by (induction parts) (simp_all add: visible_join_white split_whitespace_def visible_words)
  then show ?thesis
    by (simp add: collapse_line_spaces_preserving_tabs_def visible_join_white visible_split_on)
qed

lemma visible_concat_map: "(\<And>x. visible (f x) = visible x) \<Longrightarrow> visible (concat (filter (\<lambda>l. l \<noteq> []) (map f xs))) = visible (concat xs)"
proof (induction xs)
  case (Cons x xs)
  then show ?case
    by (cases "f x = []") (auto, metis visible_simps(1) append_Nil)
qed simp

text \<open>cleaning up an extracted text loses nothing that is visible. The visible characters of the normalised text
  are those of the text but for null characters, in order, and it is refused exactly when there are none.\<close>

theorem normalized_text_kept:
  "visible (unwrap_or [] (normalize_extracted_text s)) = without_nul (visible s) \<and>
   (normalize_extracted_text s = None \<longleftrightarrow> without_nul (visible s) = [])"
proof -
  let ?normalized = "trim_chars (join_chars [10] (filter (\<lambda>line. line \<noteq> [])
       (map collapse_line_spaces_preserving_tabs (text_lines (without_nul s)))))"
  have "visible ?normalized = without_nul (visible s)"
    by (simp add: visible_join_white visible_concat_map visible_collapse visible_nul)
  then show ?thesis
    unfolding normalize_extracted_text_def Let_def by (cases "?normalized = []") auto
qed

lemma office_types_lower:
  "to_ascii_lowercase ''application/vnd.openxmlformats-officedocument.wordprocessingml.document'' =
     ''application/vnd.openxmlformats-officedocument.wordprocessingml.document''"
  "to_ascii_lowercase ''application/vnd.openxmlformats-officedocument.spreadsheetml.sheet'' =
     ''application/vnd.openxmlformats-officedocument.spreadsheetml.sheet''"
  "to_ascii_lowercase ''application/vnd.openxmlformats-officedocument.presentationml.presentation'' =
     ''application/vnd.openxmlformats-officedocument.presentationml.presentation''"
  by (simp_all add: to_ascii_lowercase_def)

lemma office_types_html:
  "infer_extension_from_content_type ''application/vnd.openxmlformats-officedocument.wordprocessingml.document'' = ''.html''"
  "infer_extension_from_content_type ''application/vnd.openxmlformats-officedocument.spreadsheetml.sheet'' = ''.html''"
  "infer_extension_from_content_type ''application/vnd.openxmlformats-officedocument.presentationml.presentation'' = ''.html''"
  unfolding infer_extension_from_content_type_def office_types_lower Let_def
  by (simp_all add: starts_with_def)

text \<open>an office document without an extension is taken for a web page. When the path of a document has no extension
  and its type is the one of a Word, Excel or PowerPoint document, whose name contains \<open>xml\<close>, the parsers of
  these formats are not tried: the bytes of the archive are read as text and stripped of tags.\<close>

theorem office_document_read_as_text:
  assumes "path_extension path = None"
    and "content_type \<in> set [''application/vnd.openxmlformats-officedocument.wordprocessingml.document'',
      ''application/vnd.openxmlformats-officedocument.spreadsheetml.sheet'',
      ''application/vnd.openxmlformats-officedocument.presentationml.presentation'']"
  shows "extract_document_text p (Ok path) content_type =
    and_then (xp_read_text p path) (\<lambda>s. Ok (extracted_text (strip_markup_tags s) ''local-text.html''))"
proof -
  have "infer_extension_from_content_type content_type = ''.html''"
    using assms(2) office_types_html by auto
  then show ?thesis
    by (simp add: extract_document_text_def assms(1) parse_file_def is_direct_text_extension_def)
qed

theorem office_document_read_as_text_witness:
  "extract_document_text
     \<lparr>xp_read_text = \<lambda>_. Ok (chars ''PK<w>''), xp_zip_entry = \<lambda>_ _. Some (chars ''<w:t>Hi</w:t>''), xp_pdf = \<lambda>_. None,
      xp_image = \<lambda>_. extracted_text [] [], xp_media = \<lambda>_ _. extracted_text [] [], xp_docx_images = \<lambda>_. None,
      xp_legacy_doc = \<lambda>_. None, xp_xlsx = \<lambda>_. None, xp_pptx = \<lambda>_. None, xp_presentation_vlm = \<lambda>_. None,
      xp_markitdown = \<lambda>_. Some (chars ''Hi'')\<rparr> (Ok ''objects/17'')
     ''application/vnd.openxmlformats-officedocument.wordprocessingml.document'' =
   Ok (extracted_text (chars ''PK '') ''local-text.html'')"
proof -
  have "path_extension ''objects/17'' = None" "strip_markup_tags (chars ''PK<w>'') = chars ''PK ''"
    by code_simp+
  then show ?thesis
    using office_document_read_as_text [of "''objects/17''"] by simp
qed

text \<open>Two more places where the tables disagree, and the order in which entities are decoded.\<close>

lemma mpeg_video_is_audio: "is_audio_extension (infer_extension_from_content_type ''video/mpeg'')"
  by code_simp

lemma m4v_is_no_video: "''.m4v'' \<in> set REMOTE_EXTENSIONS \<and> \<not> is_video_extension ''.m4v'' \<and> \<not> is_audio_extension ''.m4v''"
  by code_simp

lemma entity_decoded_twice: "decode_xml_entities (chars ''&amp;quot;'') = [34]"
  by code_simp

end
