(* ===== verification/Spec2Isabelle.thy ===== *)
theory Spec2Isabelle
  imports Workflow_Signals Auth_Scope Semantic_Links Static_Page_Payload Auth_Calls Local_Data_Claim
    Gateway_Rates Gateway_Permits Provider_Choice Enrichment_Requests Ingest_Sources
begin

text \<open>
  A verification development of the AIV3 data platform (Rust, \<open>src/crates\<close>).

  The platform. \<open>platform-api\<close> is an HTTP service over a PostgreSQL database, which the crate
  \<open>storage\<close> wraps in repositories. Long work is done by workers: a workflow execution is a state
  machine of the crate \<open>workflow-engine\<close> with the definitions of \<open>workflow-definitions\<close>; a signal
  advances it, stores an event and enqueues tasks, which workers claim from a table and answer with
  further signals. The event bus carries notifications of the transitions. Datasets hold documents;
  who sees them is decided by owner, visibility, secret bindings and local thread, and for documents
  of external systems by access lists. Snapshots and links between datasets describe what the
  datasets are about. Static pages are drafts that a language model edits by operations. Models are
  called through \<open>llm-gateway\<close>, and \<open>platform-api\<close> limits how many calls run, wait and are made.

  The theories, from the bottom up.

  \<^item> \<open>Prelude\<close>: results and options as Rust has them, UTF-8 strings with \<open>trim\<close>, \<open>contains\<close> and
    the like, UUIDs, time, \<open>serde_json::Value\<close> and its ordered maps, and the SQL idioms of the
    repositories. It holds two interfaces: \<open>keyed_map\<close> (a map with insert, lookup and remove;
    interpreted on the ordered association list of \<open>BTreeMap\<close>) and \<open>work_queue\<close> (a table from which
    requests claim work, with the law that what is claimed waits no longer; interpreted on the
    workflow tasks in \<open>Workflow_Store\<close>, the link runs in \<open>Semantic_Links\<close> and the enrichment runs in
    \<open>Enrichment_Runs\<close>).
  \<^item> \<open>Domain_Model\<close> (\<open>domain-model/src/lib.rs\<close>): the enums with their stored texts, each an
    interpretation of the interface \<open>wire_enum\<close>, and the records that the components share.
  \<^item> \<open>Workflow_Engine\<close> (\<open>workflow-engine/src/lib.rs\<close>): signals, the runtime state, transitions and
    the catalogue; a definition is the record of the methods of the trait. The interfaces
    \<open>workflow_definition\<close>, \<open>staged_definition\<close> and \<open>pipeline_definition\<close> say what a definition promises of its life cycle,
    its stages and its tasks; what follows for any sequence of signals is proved in them.
  \<^item> \<open>Workflow_Definitions\<close> (\<open>workflow-definitions/src/lib.rs\<close>): the linear, external-synchronisation
    and video-extraction definitions and the registry of thirteen workflows, each an interpretation of
    these interfaces. Bounds: an execution has three retries, so it runs at most four times; a run has
    at most six stages, so at most twenty-four tasks are enqueued before it is dead-lettered.
  \<^item> \<open>Workflow_Store\<close> (\<open>storage/src/lib.rs\<close>, workflow repositories): executions, events and tasks as
    tables, with their codecs, keys, 32-bit counters in signed columns, transactions and claims. The
    invariant holds of every state that repository operations reach from empty tables, with any
    arguments; for the numbers of the events it asks that executions are started with an event of
    their own numbered 1, which is left to the callers.
  \<^item> \<open>Event_Bus\<close> (\<open>event-bus/src/lib.rs\<close> and \<open>workflow_transition_event_publish_support.rs\<close>): subjects,
    envelopes and what a bus receives.
  \<^item> \<open>Api_Error\<close>, \<open>Workflow_Signals\<close> (\<open>platform-api/src/lib.rs\<close>): the request that sends a signal.
    It reads the execution, runs the transition of the definition, stores the result and publishes
    it. The theorems say that this simulates the definitions on the rows of the database, and where
    it does not: two interleaved requests can lose a cancellation.
  \<^item> \<open>Auth_Scope\<close> (\<open>auth-scope/src/lib.rs\<close>): access lists of external documents against an abstract
    list of subjects where a denial wins.
  \<^item> \<open>Semantic_Links\<close> (\<open>storage/src/lib.rs\<close>, semantic repositories): snapshots of datasets, snapshots
    of links and the queue of runs that build them, with the invariant of the three tables.
  \<^item> \<open>Static_Page_Operations\<close> (\<open>static-page-runtime/src/lib.rs\<close>): the sanitiser of operations, at
    most twenty-four at a time and charts at most eight levels deep.
    \<open>Static_Page_Payload\<close> (\<open>static_page_*_support.rs\<close> of \<open>platform-api\<close>): applying them to a draft,
    which keeps the fields safe that the sanitiser checks (not all: it leaves out \<open>layout\<close>, the
    \<open>evidenceIds\<close> and a second data binding), the mobile order and the preview contract.
  \<^item> \<open>Resource_Access\<close> (\<open>resource_access.rs\<close>, \<open>request_scope_headers.rs\<close> and the pure part of
    \<open>document_visibility_support.rs\<close>): who sees a dataset, and which documents may be shown in
    another one; the interface \<open>contribution_policy\<close> states what the handlers rely on.
    \<open>Document_Library\<close> (\<open>storage/src/lib.rs\<close>): the tables of datasets, documents,
    memberships and content fingerprints. \<open>Document_Access\<close> (\<open>document_*_support.rs\<close>,
    \<open>dataset_update_support.rs\<close>): the handlers on them. Adding or removing a dataset of a document
    widens nobody's view; the three conditions on the source that this needs are in
    \<open>source_scope_proper\<close>, with examples of what the code admits without them.

  \<^item> \<open>Auth_Accounts\<close> (\<open>storage/src/lib.rs\<close>): the tables of users, sessions, one-time codes, audit
    events and secret bindings. \<open>Email_Auth\<close> (\<open>auth_email.rs\<close>, \<open>auth_session_support.rs\<close> and the
    handlers of accounts in \<open>platform-api/src/lib.rs\<close>): codes, cookies, sessions and local keys.
    \<open>Auth_Calls\<close>: a handler that runs alone refines an abstract machine of the codes, with at most five
    codes in fifteen minutes; with the statements of concurrent requests interleaved, at most \<open>4 + c\<close>
    wrong guesses for each code are answered while at most \<open>c\<close> verifications run at once; what a
    verified login and a logout mean; and that a local key opens every account. \<open>Local_Data_Claim\<close>: a user takes over the
    datasets without an owner that a local key guards.

  \<^item> \<open>Provider_Redaction\<close> (\<open>llm-gateway/src/lib.rs\<close>): hiding secrets in the errors of a provider. A
    slice of a \<open>String\<close> off a character boundary panics, so the passes are partial; they are proved
    to return for every text, and to be a left-to-right scan (the interface \<open>scanner\<close>) that hides
    what follows \<open>bearer\<close> and each sensitive key. The fuel of a pass is the length of the text and
    one more, since each round moves on by at least the word it found.
    \<open>Model_Profiles\<close>: profiles, pools and routes from the environment and the runtime of a lane.
    \<open>Provider_Calls\<close>, \<open>Provider_Streams\<close>, \<open>Provider_Choice\<close>: requests, responses and their failures,
    the placeholder, scripted, OpenAI-compatible and OpenClaw providers, prompts
    (\<open>prompt-registry/src/lib.rs\<close>), and the choice among the providers. The interface \<open>streamer\<close> is the contract of a
    streaming call, \<open>completer\<close> that of a call without one; every provider is an interpretation.
  \<^item> \<open>Gateway_Limiter\<close>, \<open>Gateway_Rates\<close> (\<open>platform-api/src/model_gateway_runtime.rs\<close>): budgets, statistics
    and buckets at their widths; bounds on the rates in any minute for each limit that is set, the circuit breaker against the
    history of calls. \<open>Gateway_Permits\<close>: the steps of many requests for permits, interleaved, with the
    invariant that accounts for each permit and each place in a queue.
  \<^item> \<open>Enrichment_Runs\<close> (\<open>storage/src/lib.rs\<close>, \<open>retrieval-worker/src/bin/document-enrichment-worker.rs\<close>):
    the queue of document enrichment runs and its workers as interleaved statements; at most one worker
    holds a run, a finished run stays finished, and a run whose worker is gone stays running for ever.
    \<open>Enrichment_Requests\<close> (\<open>retrieval-worker/src/main.rs\<close>): which runs are asked for after a document was indexed,
    and that asking again asks for nothing new.
  \<^item> \<open>Text_Chunks\<close> (\<open>ingest-worker/src/lib.rs\<close>): texts as lists of code points, the splitters of paragraphs,
    sections, sentences and blocks, and the local processor; chunks are within their limit and keep every
    visible character. \<open>Ingest_Sources\<close>: where a document comes from, with the guard of remote media and its
    download, the parser that is chosen and the clean-up of text. The guard keeps private addresses of
    version 4 out of the first request but none of their mapped forms of version 6, and does not see
    where the client is redirected.

  Parameters. Code of other crates is an argument: the random UUIDs of \<open>new_v4\<close> and
  \<open>gen_random_uuid\<close> are streams indexed by the number of draws, \<open>Uuid::parse_str\<close>,
  \<open>HeaderValue::to_str\<close>, the texts of database errors, of RFC 3339 times and of \<open>serde_json\<close>
  values are functions, SHA-256 is a function from byte strings to byte strings of which nothing is assumed,
  and so are the follow-ups of a transition that belong to other components
  (\<open>signal_hooks\<close>); HTTP answers and redirects, failures of file operations, the parsing of JSON texts and URLs, the parsers of file
  formats and the environment are functions too. The database is the list of the rows of each table; a statement is applied as a
  whole, a transaction keeps nothing when one of its statements fails, and \<open>for update skip locked\<close>
  is a list of rows that another transaction holds. The clock is an argument of every operation.

  Not modelled. The other workers (their queues are modelled here, the work itself is calls of external
  programs, networks and language models), rendering and retrieval, the connectors and the front
  ends; in \<open>platform-api\<close> the handlers of assistant runs, asset import, external sources, reports and
  rendering; in \<open>storage\<close> the repositories of these. A summary or view a handler answers with is
  reduced to the record it shows. Left for later: the creation of datasets with secret bindings, and
  the profiles of the gateway that are stored in the database.
\<close>

end
